(* ===== verification/Rust_Prelude.thy ===== *)
theory Rust_Prelude
  imports Main "HOL-Library.Word" "HOL-Library.Sublist"
begin

text \<open>
  Shared vocabulary of the development: Rust strings and their operations, saturating
  machine arithmetic, fallible results, Unix paths and JSON values.

  A Rust \<open>String\<close> or \<open>&str\<close> is modelled as the list of its UTF-8 bytes, so
  \<open>len()\<close> is the list's length and \<open>chars().count()\<close> is the number of bytes that
  are not continuation bytes (\<open>0x80 .. 0xBF\<close>). Searching for ASCII text on bytes and on
  code points is the same thing, because every byte of a multi-byte sequence is at least
  \<open>0x80\<close>.
\<close>

named_theorems text_simps \<open>evaluation rules of the string operations\<close>
named_theorems bound_intros \<open>length and character bounds of the string operations\<close>

section \<open>Results\<close>

text \<open>
  \<open>Result<T, E>\<close> is \<open>'e + 't\<close>: \<open>Inl\<close> the error, \<open>Inr\<close> the value.
  \<open>rbind\<close> is the question-mark operator.
\<close>

definition rbind :: "'e + 'a \<Rightarrow> ('a \<Rightarrow> 'e + 'b) \<Rightarrow> 'e + 'b" where
  "rbind r f = (case r of Inl e \<Rightarrow> Inl e | Inr x \<Rightarrow> f x)"

definition map_err :: "('e \<Rightarrow> 'f) \<Rightarrow> 'e + 'a \<Rightarrow> 'f + 'a" where
  "map_err g r = (case r of Inl e \<Rightarrow> Inl (g e) | Inr x \<Rightarrow> Inr x)"

definition is_ok :: "'e + 'a \<Rightarrow> bool" where
  "is_ok r = (case r of Inl e \<Rightarrow> False | Inr x \<Rightarrow> True)"

lemma rbind_simps [simp]:
  "rbind (Inl e) f = Inl e"
  "rbind (Inr x) f = f x"
  by (simp_all add: rbind_def)

lemma map_err_simps [simp]:
  "map_err g (Inl e) = Inl (g e)"
  "map_err g (Inr x) = Inr x"
  by (simp_all add: map_err_def)

lemma is_ok_simps [simp]:
  "is_ok (Inl e) = False"
  "is_ok (Inr x) = True"
  by (simp_all add: is_ok_def)

lemma rbind_eq_Inr: "rbind r f = Inr y \<longleftrightarrow> (\<exists>x. r = Inr x \<and> f x = Inr y)"
  by (cases r) auto

lemma map_err_eq_Inr: "map_err g r = Inr y \<longleftrightarrow> r = Inr y"
  by (cases r) auto

lemma is_ok_iff: "is_ok r \<longleftrightarrow> (\<exists>x. r = Inr x)"
  by (cases r) auto

lemmas result_iffs = rbind_eq_Inr map_err_eq_Inr is_ok_iff

text \<open>A loop that stops at the first error, as \<open>for x in xs { f(x)?; }\<close> does.\<close>

fun try_all :: "('a \<Rightarrow> 'e + unit) \<Rightarrow> 'a list \<Rightarrow> 'e + unit" where
  "try_all f [] = Inr ()"
| "try_all f (x # xs) = rbind (f x) (\<lambda>_. try_all f xs)"

text \<open>\<open>iter().map(f).collect::<Result<Vec<_>, _>>()\<close>.\<close>

fun try_map :: "('a \<Rightarrow> 'e + 'b) \<Rightarrow> 'a list \<Rightarrow> 'e + 'b list" where
  "try_map f [] = Inr []"
| "try_map f (x # xs) = rbind (f x) (\<lambda>y. rbind (try_map f xs) (\<lambda>ys. Inr (y # ys)))"

lemma try_all_ok: "try_all f xs = Inr () \<longleftrightarrow> (\<forall>x\<in>set xs. f x = Inr ())"
  by (induction xs) (auto simp: rbind_eq_Inr)

lemma try_map_ok: "try_map f xs = Inr ys \<longleftrightarrow> list_all2 (\<lambda>x y. f x = Inr y) xs ys"
  by (induction xs arbitrary: ys) (auto simp: rbind_eq_Inr list_all2_Cons1)

section \<open>Machine integers\<close>

type_synonym u8 = "8 word"
type_synonym u32 = "32 word"
type_synonym u64 = "64 word"
type_synonym u128 = "128 word"

definition saturating_add :: "'a::len word \<Rightarrow> 'a word \<Rightarrow> 'a word" where
  "saturating_add a b = (if unat a + unat b < 2 ^ LENGTH('a) then a + b else - 1)"

lemma unat_saturating_add:
  "unat (saturating_add a (b :: 'a::len word)) = min (unat a + unat b) (2 ^ LENGTH('a) - 1)"
proof (cases "unat a + unat b < 2 ^ LENGTH('a)")
  case True
  then show ?thesis
    by (simp add: saturating_add_def unat_word_ariths)
next
  case False
  then show ?thesis
    by (simp add: saturating_add_def unsigned_minus_1_eq_mask mask_eq_exp_minus_1)
qed

lemma saturating_add_ge: "(a :: 'a::len word) \<le> saturating_add a b"
proof -
  have "unat a < 2 ^ LENGTH('a)"
    by (rule unsigned_less)
  then have "unat a \<le> 2 ^ LENGTH('a) - 1"
    by linarith
  then show ?thesis
    by (simp add: word_le_nat_alt unat_saturating_add)
qed

text \<open>
  \<open>usize\<close> counts (lengths of strings and vectors) are \<open>nat\<close>: a Rust allocation never
  exceeds \<open>isize::MAX\<close>, and \<open>saturating_sub\<close> is subtraction on \<open>nat\<close>.
\<close>

section \<open>Strings as UTF-8 bytes\<close>

abbreviation LF :: char where "LF \<equiv> CHR 0x0A"
abbreviation CR :: char where "CR \<equiv> CHR 0x0D"

definition is_cont :: "char \<Rightarrow> bool" where
  "is_cont c \<longleftrightarrow> 128 \<le> (of_char c :: nat) \<and> (of_char c :: nat) < 192"

definition chars_count :: "string \<Rightarrow> nat" where
  "chars_count s = length (filter (\<lambda>c. \<not> is_cont c) s)"

text \<open>\<open>s.chars().take(n).collect::<String>()\<close> and the rest of the string.\<close>

fun take_chars :: "nat \<Rightarrow> string \<Rightarrow> string" where
  "take_chars n [] = []"
| "take_chars n (c # s) =
     (if is_cont c then c # take_chars n s
      else (case n of 0 \<Rightarrow> [] | Suc m \<Rightarrow> c # take_chars m s))"

fun drop_chars :: "nat \<Rightarrow> string \<Rightarrow> string" where
  "drop_chars n [] = []"
| "drop_chars n (c # s) =
     (if is_cont c then drop_chars n s
      else (case n of 0 \<Rightarrow> c # s | Suc m \<Rightarrow> drop_chars m s))"

lemma take_drop_chars: "take_chars n s @ drop_chars n s = s"
  by (induction n s rule: take_chars.induct) (auto split: nat.splits)

lemma chars_count_simps [simp]:
  "chars_count [] = 0"
  "chars_count (c # s) = (if is_cont c then chars_count s else Suc (chars_count s))"
  "chars_count (s @ t) = chars_count s + chars_count t"
  by (simp_all add: chars_count_def)

lemma chars_count_le_length [bound_intros]: "chars_count s \<le> length s"
  by (simp add: chars_count_def)

lemma chars_count_take [simp]: "chars_count (take_chars n s) = min n (chars_count s)"
  by (induction n s rule: take_chars.induct) (auto split: nat.splits)

lemma chars_count_drop [simp]: "chars_count (drop_chars n s) = chars_count s - n"
  by (induction n s rule: drop_chars.induct) (auto split: nat.splits)

lemma take_chars_all: "chars_count s \<le> n \<Longrightarrow> take_chars n s = s"
  by (induction n s rule: take_chars.induct) (auto split: nat.splits if_splits)

lemma take_chars_prefix: "prefix (take_chars n s) s"
  by (metis prefixI take_drop_chars)

lemma take_chars_take_chars: "take_chars m (take_chars n s) = take_chars (min m n) s"
  by (induction n s arbitrary: m rule: take_chars.induct) (auto split: nat.splits)

subsection \<open>Searching and splitting\<close>

abbreviation starts_with :: "string \<Rightarrow> string \<Rightarrow> bool" where
  "starts_with s p \<equiv> prefix p s"

abbreviation ends_with :: "string \<Rightarrow> string \<Rightarrow> bool" where
  "ends_with s p \<equiv> suffix p s"

definition strip_prefix :: "string \<Rightarrow> string \<Rightarrow> string option" where
  "strip_prefix p s = (if prefix p s then Some (drop (length p) s) else None)"

definition strip_suffix :: "string \<Rightarrow> string \<Rightarrow> string option" where
  "strip_suffix p s = (if suffix p s then Some (take (length s - length p) s) else None)"

lemma strip_prefix_Some: "strip_prefix p s = Some t \<longleftrightarrow> s = p @ t"
  by (auto simp: strip_prefix_def prefix_def)

lemma strip_suffix_Some: "strip_suffix p s = Some t \<longleftrightarrow> s = t @ p"
  by (auto simp: strip_suffix_def suffix_def)

text \<open>\<open>s.find(pat)\<close>: the byte offset of the first match.\<close>

fun find_sub :: "string \<Rightarrow> string \<Rightarrow> nat option" where
  "find_sub pat s =
     (if prefix pat s then Some 0
      else (case s of [] \<Rightarrow> None | _ # t \<Rightarrow> map_option Suc (find_sub pat t)))"

declare find_sub.simps [simp del]

lemma find_sub_Some_prefix: "find_sub pat s = Some i \<Longrightarrow> i \<le> length s \<and> prefix pat (drop i s)"
proof (induction s arbitrary: i)
  case Nil
  then show ?case by (auto simp: find_sub.simps [of pat "[]"] split: if_splits)
next
  case (Cons c s)
  then show ?case by (auto simp: find_sub.simps [of pat "c # s"] split: if_splits)
qed

lemma find_sub_Some_length: "find_sub pat s = Some i \<Longrightarrow> i + length pat \<le> length s"
  using find_sub_Some_prefix [of pat s i] prefix_length_le [of pat "drop i s"] by auto

lemma find_sub_first: "find_sub pat s = Some i \<Longrightarrow> j < i \<Longrightarrow> \<not> prefix pat (drop j s)"
proof (induction s arbitrary: i j)
  case Nil
  then show ?case by (auto simp: find_sub.simps [of pat "[]"] split: if_splits)
next
  case (Cons c s)
  then show ?case
    by (cases j) (auto simp: find_sub.simps [of pat "c # s"] split: if_splits)
qed

lemma find_sub_None: "find_sub pat s = None \<Longrightarrow> \<not> prefix pat (drop j s)"
proof (induction s arbitrary: j)
  case Nil
  then show ?case by (auto simp: find_sub.simps [of pat "[]"] split: if_splits)
next
  case (Cons c s)
  then show ?case
    by (cases j) (auto simp: find_sub.simps [of pat "c # s"] split: if_splits)
qed

definition contains_str :: "string \<Rightarrow> string \<Rightarrow> bool" where
  "contains_str s pat \<longleftrightarrow> find_sub pat s \<noteq> None"

text \<open>\<open>s.split_once(c)\<close> and \<open>s.split(c)\<close> for one ASCII character.\<close>

fun split_once :: "char \<Rightarrow> string \<Rightarrow> (string \<times> string) option" where
  "split_once d [] = None"
| "split_once d (c # s) =
     (if c = d then Some ([], s) else map_option (\<lambda>(a, b). (c # a, b)) (split_once d s))"

fun split_on :: "char \<Rightarrow> string \<Rightarrow> string list" where
  "split_on d [] = [[]]"
| "split_on d (c # s) =
     (if c = d then [] # split_on d s
      else (case split_on d s of [] \<Rightarrow> [[c]] | p # ps \<Rightarrow> (c # p) # ps))"

fun join_with :: "string \<Rightarrow> string list \<Rightarrow> string" where
  "join_with sep [] = []"
| "join_with sep [x] = x"
| "join_with sep (x # y # ys) = x @ sep @ join_with sep (y # ys)"

lemma split_once_Some: "split_once d s = Some (a, b) \<longleftrightarrow> s = a @ d # b \<and> d \<notin> set a"
  by (induction s arbitrary: a b) (auto simp: Cons_eq_append_conv)

lemma split_once_None: "split_once d s = None \<longleftrightarrow> d \<notin> set s"
  by (induction s) auto

lemma split_on_nonempty [simp]: "split_on d s \<noteq> []"
  by (induction s) (auto split: list.splits)

lemma join_split_on: "join_with [d] (split_on d s) = s"
proof (induction s)
  case (Cons c s)
  then show ?case
    by (cases "split_on d s"; cases "tl (split_on d s)") auto
qed simp

lemma split_on_no_sep: "p \<in> set (split_on d s) \<Longrightarrow> d \<notin> set p"
  by (induction s arbitrary: p) (auto split: list.splits if_splits)

lemma split_on_single: "d \<notin> set s \<Longrightarrow> split_on d s = [s]"
  by (induction s) auto

lemma split_on_append: "d \<notin> set a \<Longrightarrow> split_on d (a @ d # b) = a # split_on d b"
  by (induction a) auto

lemma split_on_join:
  "ls \<noteq> [] \<Longrightarrow> (\<And>l. l \<in> set ls \<Longrightarrow> d \<notin> set l) \<Longrightarrow> split_on d (join_with [d] ls) = ls"
proof (induction ls)
  case (Cons l ls)
  then show ?case by (cases ls) (simp_all add: split_on_single split_on_append)
qed simp

subsection \<open>Trimming Unicode white space\<close>

text \<open>
  \<open>trim\<close> removes characters with the Unicode property \<open>White_Space\<close>, listed here
  with their UTF-8 encodings: the ASCII blanks, U+0085, U+00A0, U+1680, U+2000 to U+200A,
  U+2028, U+2029, U+202F, U+205F and U+3000.
\<close>

definition ws_chars :: "string list" where
  "ws_chars =
     [[CHR 0x20], [CHR 0x0A], [CHR 0x0D], [CHR 0x09], [CHR 0x0B], [CHR 0x0C],
      [CHR 0xC2, CHR 0x85], [CHR 0xC2, CHR 0xA0], [CHR 0xE1, CHR 0x9A, CHR 0x80],
      [CHR 0xE2, CHR 0x80, CHR 0x80], [CHR 0xE2, CHR 0x80, CHR 0x81],
      [CHR 0xE2, CHR 0x80, CHR 0x82], [CHR 0xE2, CHR 0x80, CHR 0x83],
      [CHR 0xE2, CHR 0x80, CHR 0x84], [CHR 0xE2, CHR 0x80, CHR 0x85],
      [CHR 0xE2, CHR 0x80, CHR 0x86], [CHR 0xE2, CHR 0x80, CHR 0x87],
      [CHR 0xE2, CHR 0x80, CHR 0x88], [CHR 0xE2, CHR 0x80, CHR 0x89],
      [CHR 0xE2, CHR 0x80, CHR 0x8A], [CHR 0xE2, CHR 0x80, CHR 0xA8],
      [CHR 0xE2, CHR 0x80, CHR 0xA9], [CHR 0xE2, CHR 0x80, CHR 0xAF],
      [CHR 0xE2, CHR 0x81, CHR 0x9F], [CHR 0xE3, CHR 0x80, CHR 0x80]]"

lemma ws_chars_nonempty: "w \<in> set ws_chars \<Longrightarrow> 0 < length w"
  by (auto simp: ws_chars_def)

definition ws_head :: "string \<Rightarrow> string option" where
  "ws_head s = find (\<lambda>w. prefix w s) ws_chars"

definition ws_last :: "string \<Rightarrow> string option" where
  "ws_last s = find (\<lambda>w. suffix w s) ws_chars"

lemma ws_head_Some: "ws_head s = Some w \<Longrightarrow> prefix w s \<and> 0 < length w"
  using ws_chars_nonempty by (auto simp: ws_head_def find_Some_iff)

lemma ws_last_Some: "ws_last s = Some w \<Longrightarrow> suffix w s \<and> 0 < length w"
  using ws_chars_nonempty by (auto simp: ws_last_def find_Some_iff)

function trim_start :: "string \<Rightarrow> string" where
  "trim_start s = (case ws_head s of None \<Rightarrow> s | Some w \<Rightarrow> trim_start (drop (length w) s))"
  by pat_completeness auto
termination
proof (relation "measure length")
  fix s w
  assume "ws_head s = Some w"
  then have "prefix w s" and "0 < length w"
    using ws_head_Some by auto
  then show "(drop (length w) s, s) \<in> measure length"
    using prefix_length_le [of w s] by (cases s) auto
qed simp

function trim_end :: "string \<Rightarrow> string" where
  "trim_end s =
     (case ws_last s of None \<Rightarrow> s | Some w \<Rightarrow> trim_end (take (length s - length w) s))"
  by pat_completeness auto
termination
proof (relation "measure length")
  fix s w
  assume "ws_last s = Some w"
  then have "suffix w s" and "0 < length w"
    using ws_last_Some by auto
  then show "(take (length s - length w) s, s) \<in> measure length"
    using suffix_length_le [of w s] by (cases s) auto
qed simp

declare trim_start.simps [simp del] trim_end.simps [simp del]

definition trim :: "string \<Rightarrow> string" where
  "trim s = trim_end (trim_start s)"

lemma trim_start_suffix: "suffix (trim_start s) s"
proof (induction s rule: trim_start.induct)
  case (1 s)
  show ?case
  proof (cases "ws_head s")
    case None
    then show ?thesis by (simp add: trim_start.simps [of s])
  next
    case (Some w)
    then have "suffix (trim_start (drop (length w) s)) s"
      using "1.IH" suffix_drop suffix_order.trans by blast
    then show ?thesis using Some by (simp add: trim_start.simps [of s])
  qed
qed

lemma trim_end_prefix: "prefix (trim_end s) s"
proof (induction s rule: trim_end.induct)
  case (1 s)
  show ?case
  proof (cases "ws_last s")
    case None
    then show ?thesis by (simp add: trim_end.simps [of s])
  next
    case (Some w)
    then have "prefix (trim_end (take (length s - length w) s)) s"
      using "1.IH" take_is_prefix prefix_order.trans by blast
    then show ?thesis using Some by (simp add: trim_end.simps [of s])
  qed
qed

lemma trim_start_no_ws: "ws_head (trim_start s) = None"
proof (induction s rule: trim_start.induct)
  case (1 s)
  show ?case
  proof (cases "ws_head s")
    case None
    then show ?thesis by (simp add: trim_start.simps [of s])
  next
    case (Some w)
    then show ?thesis using "1.IH" by (simp add: trim_start.simps [of s])
  qed
qed

lemma trim_end_no_ws: "ws_last (trim_end s) = None"
proof (induction s rule: trim_end.induct)
  case (1 s)
  show ?case
  proof (cases "ws_last s")
    case None
    then show ?thesis by (simp add: trim_end.simps [of s])
  next
    case (Some w)
    then show ?thesis using "1.IH" by (simp add: trim_end.simps [of s])
  qed
qed

lemma trim_start_id: "ws_head s = None \<Longrightarrow> trim_start s = s"
  by (simp add: trim_start.simps [of s])

lemma trim_end_id: "ws_last s = None \<Longrightarrow> trim_end s = s"
  by (simp add: trim_end.simps [of s])

lemma ws_head_mono: "ws_head s = None \<Longrightarrow> prefix t s \<Longrightarrow> ws_head t = None"
  using prefix_order.trans by (fastforce simp: ws_head_def find_None_iff)

lemma trim_trim: "trim (trim s) = trim s"
proof -
  have "ws_head (trim s) = None"
    unfolding trim_def by (rule ws_head_mono [OF trim_start_no_ws trim_end_prefix])
  moreover have "ws_last (trim s) = None"
    unfolding trim_def by (rule trim_end_no_ws)
  ultimately show ?thesis
    by (simp add: trim_def [of "trim s"] trim_start_id trim_end_id)
qed

lemma trim_sublist: "\<exists>a b. s = a @ trim s @ b"
proof -
  obtain a where a: "s = a @ trim_start s"
    using trim_start_suffix [of s] by (auto simp: suffix_def)
  obtain b where "trim_start s = trim_end (trim_start s) @ b"
    using trim_end_prefix [of "trim_start s"] by (auto simp: prefix_def)
  with a have "s = a @ trim_end (trim_start s) @ b"
    by metis
  then show ?thesis unfolding trim_def by blast
qed

lemma set_trim_subset: "set (trim s) \<subseteq> set s"
proof -
  obtain a b where "s = a @ trim s @ b"
    using trim_sublist by blast
  then have "set s = set (a @ trim s @ b)"
    by (rule arg_cong [where f = set])
  then show ?thesis by auto
qed

text \<open>Text whose first and last characters are printable ASCII is its own trimmed form.\<close>

definition visible :: "char \<Rightarrow> bool" where
  "visible c \<longleftrightarrow> 32 < (of_char c :: nat) \<and> (of_char c :: nat) < 128"

lemma ws_chars_hd: "w \<in> set ws_chars \<Longrightarrow> w \<noteq> [] \<and> \<not> visible (hd w)"
  unfolding ws_chars_def set_simps insert_iff
  by (elim disjE) (simp_all add: visible_def)

lemma ws_head_visible: "visible c \<Longrightarrow> ws_head (c # s) = None"
  using ws_chars_hd by (fastforce simp: ws_head_def find_None_iff prefix_Cons)

lemma trim_start_visible: "visible c \<Longrightarrow> trim_start (c # s) = c # s"
  by (rule trim_start_id) (rule ws_head_visible)

lemma ws_chars_last: "w \<in> set ws_chars \<Longrightarrow> w \<noteq> [] \<and> \<not> visible (last w)"
  unfolding ws_chars_def set_simps insert_iff
  by (elim disjE) (simp_all add: visible_def)

lemma ws_last_visible:
  assumes "visible c"
  shows "ws_last (s @ [c]) = None"
proof -
  have "\<not> suffix w (s @ [c])" if "w \<in> set ws_chars" for w
  proof
    assume "suffix w (s @ [c])"
    moreover have "w \<noteq> []" and "\<not> visible (last w)"
      using ws_chars_last [OF that] by auto
    ultimately have "last w = c"
      by (auto simp: suffix_def) (metis last_appendR last_snoc)
    with \<open>\<not> visible (last w)\<close> assms show False by simp
  qed
  then show ?thesis by (simp add: ws_last_def find_None_iff)
qed

lemma trim_visible:
  assumes "s \<noteq> []" and "visible (hd s)" and "visible (last s)"
  shows "trim s = s"
proof -
  have "ws_head s = None"
    using assms ws_head_visible [of "hd s" "tl s"] by simp
  moreover have "ws_last s = None"
    using assms ws_last_visible [of "last s" "butlast s"] by simp
  ultimately show ?thesis
    by (simp add: trim_def trim_start_id trim_end_id)
qed

text \<open>A visible first character stays, whatever follows it.\<close>

lemma trim_end_visible: "visible c \<Longrightarrow> \<exists>t. trim_end (c # s) = c # t"
proof (induction "c # s" arbitrary: s rule: trim_end.induct)
  case (1 s)
  show ?case
  proof (cases "ws_last (c # s)")
    case None
    then show ?thesis by (simp add: trim_end.simps [of "c # s"])
  next
    case (Some w)
    then have w: "w \<in> set ws_chars" "suffix w (c # s)"
      by (auto simp: ws_last_def find_Some_iff)
    have "hd w \<noteq> c"
      using ws_chars_hd [OF w(1)] "1.prems" by auto
    then have "length w \<noteq> length (c # s)"
      using w(2) by (metis list.sel(1) suffix_def append_self_conv2 length_append add_cancel_left_left length_0_conv)
    then have "length w < length (c # s)"
      using suffix_length_le [OF w(2)] by simp
    then obtain u where u: "take (length (c # s) - length w) (c # s) = c # u"
      by (cases "length (c # s) - length w") auto
    have "\<exists>t. trim_end (take (length (c # s) - length w) (c # s)) = c # t"
      unfolding u by (rule "1.hyps") (use Some u "1.prems" in simp_all)
    then show ?thesis
      using Some by (subst trim_end.simps) simp
  qed
qed

lemma trim_Cons_visible: "visible c \<Longrightarrow> trim (c # s) \<noteq> []"
  using trim_end_visible [of c s] trim_start_id [OF ws_head_visible, of c s]
  by (auto simp: trim_def)

lemma trim_Nil [simp]: "trim [] = []"
  by (simp add: trim_def trim_start.simps trim_end.simps ws_head_def ws_last_def ws_chars_def)

definition is_blank :: "string \<Rightarrow> bool" where
  "is_blank s \<longleftrightarrow> trim s = []"

text \<open>ASCII classes and case folding on bytes.\<close>

definition is_ascii_digit :: "char \<Rightarrow> bool" where
  "is_ascii_digit c \<longleftrightarrow> 48 \<le> (of_char c :: nat) \<and> (of_char c :: nat) \<le> 57"

definition is_ascii_lower :: "char \<Rightarrow> bool" where
  "is_ascii_lower c \<longleftrightarrow> 97 \<le> (of_char c :: nat) \<and> (of_char c :: nat) \<le> 122"

definition is_ascii_upper :: "char \<Rightarrow> bool" where
  "is_ascii_upper c \<longleftrightarrow> 65 \<le> (of_char c :: nat) \<and> (of_char c :: nat) \<le> 90"

definition is_ascii_alnum :: "char \<Rightarrow> bool" where
  "is_ascii_alnum c \<longleftrightarrow> is_ascii_digit c \<or> is_ascii_lower c \<or> is_ascii_upper c"

definition to_ascii_lower :: "char \<Rightarrow> char" where
  "to_ascii_lower c = (if is_ascii_upper c then char_of (of_char c + 32 :: nat) else c)"

definition eq_ignore_ascii_case :: "string \<Rightarrow> string \<Rightarrow> bool" where
  "eq_ignore_ascii_case a b \<longleftrightarrow> map to_ascii_lower a = map to_ascii_lower b"

text \<open>Decimal rendering of a natural number (\<open>Display\<close> of the unsigned types).\<close>

fun show_nat :: "nat \<Rightarrow> string" where
  "show_nat n =
     (if n < 10 then [char_of (48 + n)] else show_nat (n div 10) @ [char_of (48 + n mod 10)])"

declare show_nat.simps [simp del]

text \<open>\<open>str::parse\<close> of an unsigned type: decimal digits behind an optional plus sign, below the
  given bound.\<close>

definition decimal_value :: "string \<Rightarrow> nat" where
  "decimal_value ds = foldl (\<lambda>a c. 10 * a + (of_char c - 48)) 0 ds"

definition parse_unsigned :: "nat \<Rightarrow> string \<Rightarrow> nat option" where
  "parse_unsigned bound s =
     (let ds = (case s of [] \<Rightarrow> [] | c # r \<Rightarrow> (if c = CHR ''+'' then r else s)) in
      if ds = [] \<or> \<not> list_all is_ascii_digit ds \<or> bound \<le> decimal_value ds then None
      else Some (decimal_value ds))"

definition parse_u64 :: "string \<Rightarrow> u64 option" where
  "parse_u64 s = map_option of_nat (parse_unsigned (2 ^ 64) s)"

section \<open>Unix paths\<close>

text \<open>
  A path is the byte string it was built from; \<open>components\<close> is what
  \<open>std::path::Path::components\<close> yields on Unix: repeated separators and inner
  \<open>.\<close> segments vanish, a leading \<open>.\<close> is kept. Windows prefixes are not modelled.
\<close>

type_synonym path = string

datatype component = RootDir | CurDir | ParentDir | Normal string

definition part_component :: "string \<Rightarrow> component list" where
  "part_component p =
     (if p = [] \<or> p = ''.'' then [] else if p = ''..'' then [ParentDir] else [Normal p])"

definition is_absolute :: "path \<Rightarrow> bool" where
  "is_absolute p \<longleftrightarrow> prefix ''/'' p"

definition components :: "path \<Rightarrow> component list" where
  "components p =
     (let parts = split_on (CHR ''/'') p in
      (if is_absolute p then [RootDir] else if hd parts = ''.'' then [CurDir] else [])
      @ concat (map part_component parts))"

text \<open>\<open>Path::join\<close>: an absolute argument replaces the receiver.\<close>

definition path_join :: "path \<Rightarrow> path \<Rightarrow> path" where
  "path_join p q =
     (if is_absolute q then q
      else if p = [] \<or> suffix ''/'' p then p @ q
      else p @ ''/'' @ q)"

text \<open>\<open>Path::starts_with\<close> and \<open>strip_prefix(..).is_ok()\<close> compare components.\<close>

definition path_starts_with :: "path \<Rightarrow> path \<Rightarrow> bool" where
  "path_starts_with p base \<longleftrightarrow> prefix (components base) (components p)"

definition component_str :: "component \<Rightarrow> string" where
  "component_str c = (case c of RootDir \<Rightarrow> ''/'' | CurDir \<Rightarrow> ''.'' | ParentDir \<Rightarrow> ''..''
     | Normal s \<Rightarrow> s)"

lemma split_on_slash_hd: "is_absolute p \<Longrightarrow> hd (split_on (CHR ''/'') p) = []"
  by (cases p) (auto simp: is_absolute_def)

lemma normal_component: "Normal s \<in> set (components p) \<Longrightarrow>
    s \<noteq> [] \<and> s \<noteq> ''.'' \<and> s \<noteq> ''..'' \<and> CHR ''/'' \<notin> set s"
  using split_on_no_sep [of s "CHR ''/''" p]
  by (auto simp: components_def Let_def part_component_def split: if_splits)

lemma rootdir_component: "RootDir \<in> set (components p) \<longleftrightarrow> is_absolute p"
  by (auto simp: components_def Let_def part_component_def)

lemma split_on_append_sep:
  "split_on d (a @ d # b) = split_on d a @ split_on d b"
proof (induction a)
  case (Cons c a)
  then show ?case by (cases "split_on d a") auto
qed simp

lemma is_absolute_append: "p \<noteq> [] \<Longrightarrow> is_absolute (p @ q) = is_absolute p"
  by (cases p) (auto simp: is_absolute_def)

lemma concat_parts_of_slash_end:
  "concat (map part_component (split_on (CHR ''/'') (p @ ''/'')))
   = concat (map part_component (split_on (CHR ''/'') p))"
  using split_on_append_sep [of "CHR ''/''" p "[]"] by (simp add: part_component_def)

text \<open>The components of a join, for a relative argument that does not start with \<open>.\<close>.\<close>

lemma components_join:
  assumes "p \<noteq> []" and "\<not> is_absolute q" and "hd (split_on (CHR ''/'') q) \<noteq> ''.''"
  shows "components (path_join p q) = components p @ components q"
proof (cases "suffix ''/'' p")
  case True
  then obtain r where r: "p = r @ ''/''"
    by (auto simp: suffix_def)
  have sp: "split_on (CHR ''/'') (p @ q) = split_on (CHR ''/'') r @ split_on (CHR ''/'') q"
    using split_on_append_sep [of "CHR ''/''" r q] r by simp
  have sp2: "split_on (CHR ''/'') p = split_on (CHR ''/'') r @ [[]]"
    using split_on_append_sep [of "CHR ''/''" r "[]"] r by simp
  show ?thesis
    using assms True sp sp2 is_absolute_append [OF assms(1), of q]
    by (simp add: components_def path_join_def Let_def part_component_def)
next
  case False
  have sp: "split_on (CHR ''/'') (p @ ''/'' @ q)
      = split_on (CHR ''/'') p @ split_on (CHR ''/'') q"
    using split_on_append_sep [of "CHR ''/''" p q] by simp
  show ?thesis
    using assms False sp is_absolute_append [OF assms(1), of "''/'' @ q"]
    by (simp add: components_def path_join_def Let_def)
qed

section \<open>JSON values\<close>

text \<open>
  \<open>serde_json::Value\<close> with the \<open>arbitrary_precision\<close> feature: a number keeps the
  text it was written with. An object is an association list with one entry per key.
  Parsing and printing belong to \<open>serde_json\<close>; they are parameters where they are used.
\<close>

datatype json =
    JNull
  | JBool bool
  | JNumber string
  | JString string
  | JArray "json list"
  | JObject "(string \<times> json) list"

fun json_get :: "json \<Rightarrow> string \<Rightarrow> json option" where
  "json_get (JObject kvs) k = map_of kvs k"
| "json_get _ k = None"

fun json_as_str :: "json \<Rightarrow> string option" where
  "json_as_str (JString s) = Some s"
| "json_as_str _ = None"

fun json_as_bool :: "json \<Rightarrow> bool option" where
  "json_as_bool (JBool b) = Some b"
| "json_as_bool _ = None"

fun json_as_array :: "json \<Rightarrow> json list option" where
  "json_as_array (JArray xs) = Some xs"
| "json_as_array _ = None"

definition assoc_remove :: "'k \<Rightarrow> ('k \<times> 'v) list \<Rightarrow> ('k \<times> 'v) list" where
  "assoc_remove k kvs = filter (\<lambda>kv. fst kv \<noteq> k) kvs"

definition assoc_insert :: "'k \<Rightarrow> 'v \<Rightarrow> ('k \<times> 'v) list \<Rightarrow> ('k \<times> 'v) list" where
  "assoc_insert k v kvs = (k, v) # assoc_remove k kvs"

lemma map_of_assoc_remove [simp]: "map_of (assoc_remove k kvs) = (map_of kvs)(k := None)"
  by (induction kvs) (auto simp: assoc_remove_def)

lemma map_of_assoc_insert [simp]: "map_of (assoc_insert k v kvs) = (map_of kvs)(k \<mapsto> v)"
  by (simp add: assoc_insert_def)

end
