(* ===== verification/Directive.thy ===== *)
theory Directive
  imports Rust_Prelude
begin

text \<open>
  The model's reply language (\<open>src/agent/loop/directive.rs\<close>): one JSON object, and after
  it an optional raw file body between \<open><<<FILE\<close> and \<open>FILE>>>\<close>. Decoding the object
  text is \<open>serde_json\<close>'s work and a parameter (\<open>decode\<close>, with the parser's message
  on failure); everything else, the scanner that finds the end of the object included, is
  modelled.
\<close>

abbreviation DQUOTE :: char where "DQUOTE \<equiv> CHR 0x22"
abbreviation BACKSLASH :: char where "BACKSLASH \<equiv> CHR 0x5C"

definition FILE_BEGIN :: string where "FILE_BEGIN = ''<<<FILE''"
definition FILE_END :: string where "FILE_END = ''FILE>>>''"

definition GENERAL_HINT :: string where
  \<open>GENERAL_HINT = ''Respond with exactly one JSON object. Previous turn was not executed. Do not repeat the rejected body. Small files use arguments.content. For BSL, XML, or any text with quotes or longer than a few hundred characters, omit content and set arguments.body to "raw". After the JSON object write a newline, <<<FILE, a newline, the file bytes, a newline, and FILE>>>. If that body was cut off, resend only the remaining text with mode "append" and a complete <<<FILE ... FILE>>> block.''\<close>

definition TRUNCATED_HINT :: string where
  \<open>TRUNCATED_HINT = ''Previous turn was not executed because the raw file body was cut off (missing FILE>>>). Do not repeat the partial body. Resend the remaining text with home.write arguments {"body":"raw","mode":"append"} and a complete <<<FILE newline file-bytes newline FILE>>> block.''\<close>

record tool_call_directive =
  server :: string
  tool :: string
  arguments :: json

record model_directive =
  done_flag :: bool
  thought :: "string option"
  tool_calls :: "tool_call_directive list"
  result :: "string option"

record parsed_directive =
  directive :: model_directive
  json_text :: string

record directive_parse_error =
  message :: string
  hint :: string

definition parse_error :: "string \<Rightarrow> string \<Rightarrow> directive_parse_error" where
  "parse_error m h = \<lparr>message = m, hint = h\<rparr>"

section \<open>Fences and the object scanner\<close>

definition strip_opening_fence :: "string \<Rightarrow> string" where
  "strip_opening_fence trimmed =
     (let without = (case strip_prefix ''```json'' trimmed of Some r \<Rightarrow> r
        | None \<Rightarrow> (case strip_prefix ''```'' trimmed of Some r \<Rightarrow> r | None \<Rightarrow> trimmed))
      in dropWhile (\<lambda>c. c = CR \<or> c = LF) without)"

text \<open>
  The loop of \<open>split_json_object\<close>: the brace depth, whether the scan is inside a string
  and behind a backslash, and the byte index. It yields the index behind the brace that
  closes the object.
\<close>

fun scan_object :: "nat \<Rightarrow> bool \<Rightarrow> bool \<Rightarrow> nat \<Rightarrow> string \<Rightarrow> nat option" where
  "scan_object depth in_string escape i [] = None"
| "scan_object depth in_string escape i (c # cs) =
     (if in_string then
        (if escape then scan_object depth True False (Suc i) cs
         else if c = BACKSLASH then scan_object depth True True (Suc i) cs
         else if c = DQUOTE then scan_object depth False False (Suc i) cs
         else scan_object depth True False (Suc i) cs)
      else if c = DQUOTE then scan_object depth True escape (Suc i) cs
      else if c = CHR ''{'' then scan_object (depth + 1) False escape (Suc i) cs
      else if c = CHR ''}'' then
        (let depth' = depth - 1 in
         if depth' = 0 then Some (Suc i) else scan_object depth' False escape (Suc i) cs)
      else scan_object depth False escape (Suc i) cs)"

definition split_json_object :: "string \<Rightarrow> directive_parse_error + string \<times> string" where
  "split_json_object s =
     (case scan_object 0 False False 0 s of
        Some e \<Rightarrow> Inr (take e s, drop e s)
      | None \<Rightarrow> Inl (parse_error ''unterminated JSON object'' GENERAL_HINT))"

section \<open>The raw body\<close>

definition is_home_write :: "tool_call_directive \<Rightarrow> bool" where
  "is_home_write call \<longleftrightarrow> server call = ''home'' \<and> tool call = ''write''"

definition has_content :: "json \<Rightarrow> bool" where
  "has_content args = (case json_get args ''content'' of
     None \<Rightarrow> False | Some JNull \<Rightarrow> False | Some _ \<Rightarrow> True)"

definition strip_closing_fence :: "string \<Rightarrow> string" where
  "strip_closing_fence rest =
     (let trimmed = trim rest in
      trim (case strip_suffix ''```'' trimmed of Some r \<Rightarrow> r | None \<Rightarrow> trimmed))"

definition strip_closing_fence_prefix :: "string \<Rightarrow> string" where
  "strip_closing_fence_prefix tail =
     (case strip_prefix ''```'' tail of None \<Rightarrow> tail | Some rest \<Rightarrow> trim_start rest)"

definition marker_line :: "string \<Rightarrow> bool" where
  "marker_line text =
     (case strip_prefix FILE_END text of None \<Rightarrow> False
      | Some rest \<Rightarrow> rest = [] \<or> starts_with rest [LF] \<or> starts_with rest [CR, LF])"

lemma find_marker_progress:
  assumes "find_sub FILE_END (drop from body) = Some rel"
  shows "Suc (length body) - (from + rel + length FILE_END) < Suc (length body) - from"
proof -
  have "length FILE_END = 7"
    by (simp add: FILE_END_def)
  moreover have "rel + length FILE_END \<le> length (drop from body)"
    by (rule find_sub_Some_length [OF assms])
  ultimately show ?thesis
    by simp
qed

text \<open>The search loop of \<open>take_until_end_marker\<close> from byte \<open>search_from\<close> on.\<close>

function take_until_from :: "string \<Rightarrow> nat \<Rightarrow> string option" where
  "take_until_from body search_from =
     (case find_sub FILE_END (drop search_from body) of
        None \<Rightarrow> None
      | Some rel \<Rightarrow>
          (let pos = search_from + rel;
               at_line_start = (pos = 0 \<or> body ! (pos - 1) = LF) in
           if at_line_start then
             (if \<not> marker_line (drop pos body)
              then take_until_from body (pos + length FILE_END)
              else if pos = 0 then Some []
              else (let e = pos - 1;
                        e' = (if 0 < e \<and> body ! (e - 1) = CR then e - 1 else e)
                    in Some (take e' body)))
           else take_until_from body (pos + length FILE_END)))"
  by pat_completeness auto
termination
  by (relation "measure (\<lambda>(body, from). Suc (length body) - from)")
    (simp_all add: find_marker_progress)

declare take_until_from.simps [simp del]

definition take_until_end_marker :: "string \<Rightarrow> string option" where
  "take_until_end_marker body = (if marker_line body then Some [] else take_until_from body 0)"

definition extract_raw_body :: "string \<Rightarrow> directive_parse_error + string" where
  "extract_raw_body rest =
     (let tail = strip_closing_fence_prefix (trim_start rest) in
      case strip_prefix FILE_BEGIN tail of
        None \<Rightarrow> Inl (parse_error ''raw home.write is missing the <<<FILE body'' TRUNCATED_HINT)
      | Some after_marker \<Rightarrow>
          (case (case strip_prefix [CR, LF] after_marker of Some r \<Rightarrow> Some r
                 | None \<Rightarrow> strip_prefix [LF] after_marker) of
             None \<Rightarrow> Inl (parse_error ''<<<FILE must be followed by a newline'' TRUNCATED_HINT)
           | Some after_newline \<Rightarrow>
               (case take_until_end_marker after_newline of
                  None \<Rightarrow> Inl (parse_error ''raw file body is missing FILE>>>'' TRUNCATED_HINT)
                | Some c \<Rightarrow> Inr c)))"

text \<open>The first loop of \<open>attach_raw_body\<close>: the indexes of the calls with a raw body.\<close>

fun raw_indexes :: "nat \<Rightarrow> tool_call_directive list \<Rightarrow> directive_parse_error + nat list" where
  "raw_indexes i [] = Inr []"
| "raw_indexes i (call # calls) =
     (if \<not> is_home_write call then raw_indexes (Suc i) calls
      else
        (case json_get (arguments call) ''body'' of
           None \<Rightarrow> raw_indexes (Suc i) calls
         | Some JNull \<Rightarrow> raw_indexes (Suc i) calls
         | Some v \<Rightarrow>
             (if v = JString ''raw'' then
                (if has_content (arguments call)
                 then Inl (parse_error
                   (''home.write cannot set both content and body '' @ [DQUOTE] @ ''raw'' @ [DQUOTE])
                   GENERAL_HINT)
                 else rbind (raw_indexes (Suc i) calls) (\<lambda>is. Inr (i # is)))
              else Inl (parse_error
                   (''home.write body must be '' @ [DQUOTE] @ ''raw'' @ [DQUOTE] @ '' when present'')
                   GENERAL_HINT))))"

definition set_raw_content :: "json \<Rightarrow> string \<Rightarrow> directive_parse_error + json" where
  "set_raw_content args body =
     (case args of
        JObject kvs \<Rightarrow>
          Inr (JObject (assoc_insert ''content'' (JString body) (assoc_remove ''body'' kvs)))
      | _ \<Rightarrow> Inl (parse_error ''home.write arguments must be an object'' GENERAL_HINT))"

definition attach_raw_body ::
  "model_directive \<Rightarrow> string \<Rightarrow> directive_parse_error + model_directive" where
  "attach_raw_body d rest =
     rbind (raw_indexes 0 (tool_calls d)) (\<lambda>is.
       if is = [] then
         (if strip_closing_fence rest \<noteq> []
          then Inl (parse_error ''unexpected text after the JSON object'' GENERAL_HINT)
          else Inr d)
       else if 1 < length is then
         Inl (parse_error ''only one raw home.write body is allowed per turn'' GENERAL_HINT)
       else
         rbind (extract_raw_body rest) (\<lambda>body.
           (let i = is ! 0; call = tool_calls d ! i in
            rbind (set_raw_content (arguments call) body) (\<lambda>args.
              Inr (d\<lparr>tool_calls := (tool_calls d)[i := call\<lparr>arguments := args\<rparr>]\<rparr>)))))"

definition parse_directive ::
  "(string \<Rightarrow> string + model_directive) \<Rightarrow> string \<Rightarrow> directive_parse_error + parsed_directive" where
  "parse_directive decode raw =
     (let prepared = strip_opening_fence (trim raw) in
      if \<not> starts_with prepared ''{''
      then Inl (parse_error ''expected a JSON object'' GENERAL_HINT)
      else rbind (split_json_object prepared) (\<lambda>(text, rest).
        rbind (map_err (\<lambda>m. parse_error m GENERAL_HINT) (decode text)) (\<lambda>d.
          rbind (attach_raw_body d rest) (\<lambda>d'.
            Inr \<lparr>directive = d', json_text = text\<rparr>))))"

section \<open>Diagnostics of a rejected reply\<close>

text \<open>The count of newline-brace pairs, \<open>matches("\n{").count()\<close>.\<close>

fun count_lf_brace :: "string \<Rightarrow> nat" where
  "count_lf_brace (a # b # s) =
     (if a = LF \<and> b = CHR ''{'' then Suc (count_lf_brace s) else count_lf_brace (b # s))"
| "count_lf_brace s = 0"

definition approx_json_object_count :: "string \<Rightarrow> nat" where
  "approx_json_object_count s =
     (let trimmed = trim s in
      if trimmed = [] then 0
      else (if starts_with trimmed ''{'' then 1 else 0) + count_lf_brace trimmed)"

definition content_preview :: "string \<Rightarrow> nat \<Rightarrow> string" where
  "content_preview s max_chars =
     (let trimmed = trim s; preview = take_chars max_chars trimmed in
      if max_chars < chars_count trimmed then preview @ [CHR 0xE2, CHR 0x80, CHR 0xA6]
      else preview)"

section \<open>The scanner finds the shortest object\<close>

text \<open>
  Every round either continues on the rest of the text with some state, or stops at a
  closing brace.
\<close>

lemma scan_object_Cons:
  obtains (go) d' q' e' where "\<And>i cs. scan_object d q e i (c # cs) = scan_object d' q' e' (Suc i) cs"
  | (stop) "c = CHR ''}''" "\<And>i cs. scan_object d q e i (c # cs) = Some (Suc i)"
proof -
  have "(\<exists>d' q' e'. \<forall>i cs. scan_object d q e i (c # cs) = scan_object d' q' e' (Suc i) cs)
      \<or> (c = CHR ''}'' \<and> (\<forall>i cs. scan_object d q e i (c # cs) = Some (Suc i)))"
    unfolding scan_object.simps Let_def
    by (cases q; cases e; cases "c = BACKSLASH"; cases "c = DQUOTE"; cases "c = CHR ''{''";
        cases "c = CHR ''}''"; cases "d - 1 = 0"; simp; blast?)
  with go stop show thesis by blast
qed

lemma scan_object_bounds:
  "scan_object d q e i cs = Some k \<Longrightarrow>
     i < k \<and> k \<le> i + length cs \<and> cs ! (k - i - 1) = CHR ''}''"
proof (induction cs arbitrary: d q e i)
  case (Cons c cs)
  show ?case
  proof (cases rule: scan_object_Cons [of d q e c])
    case (go d' q' e')
    then have "Suc i < k \<and> k \<le> Suc i + length cs \<and> cs ! (k - Suc i - 1) = CHR ''}''"
      using Cons.prems Cons.IH [of d' q' e' "Suc i"] by simp
    then show ?thesis
      by (auto simp: nth_Cons')
  next
    case stop
    then show ?thesis using Cons.prems by simp
  qed
qed simp

lemma scan_object_append:
  "scan_object d q e i cs = Some k \<Longrightarrow> scan_object d q e i (cs @ r) = Some k"
proof (induction cs arbitrary: d q e i)
  case (Cons c cs)
  show ?case
    by (cases rule: scan_object_Cons [of d q e c]) (use Cons in auto)
qed simp

lemma scan_object_take:
  "scan_object d q e i cs = Some k \<Longrightarrow> scan_object d q e i (take (k - i) cs) = Some k"
proof (induction cs arbitrary: d q e i)
  case (Cons c cs)
  have "i < k"
    using scan_object_bounds [OF Cons.prems] by simp
  then have tk: "take (k - i) (c # cs) = c # take (k - Suc i) cs"
    by (simp add: take_Cons')
  show ?case
  proof (cases rule: scan_object_Cons [of d q e c])
    case (go d' q' e')
    then show ?thesis
      unfolding tk using Cons.prems Cons.IH [of d' q' e' "Suc i"] by simp
  next
    case stop
    then show ?thesis unfolding tk using Cons.prems by simp
  qed
qed simp

definition object_text :: "string \<Rightarrow> bool" where
  "object_text s \<longleftrightarrow> split_json_object s = Inr (s, [])"

lemma split_json_object_Inr:
  "split_json_object s = Inr (a, b) \<longleftrightarrow>
     (\<exists>k. scan_object 0 False False 0 s = Some k \<and> a = take k s \<and> b = drop k s)"
  by (auto simp: split_json_object_def split: option.splits)

lemma object_text_append:
  assumes "object_text a"
  shows "split_json_object (a @ r) = Inr (a, r)"
proof -
  obtain k where k: "scan_object 0 False False 0 a = Some k" and "length a \<le> k"
    using assms by (auto simp: object_text_def split_json_object_Inr)
  moreover have "k \<le> length a"
    using scan_object_bounds [OF k] by simp
  ultimately show ?thesis
    using scan_object_append [OF k, of r] by (simp add: split_json_object_def)
qed

lemma split_json_object_object_text:
  assumes "split_json_object s = Inr (a, b)"
  shows "object_text a"
proof -
  obtain k where k: "scan_object 0 False False 0 s = Some k" and a: "a = take k s"
    using assms by (auto simp: split_json_object_Inr)
  have "scan_object 0 False False 0 a = Some k"
    using scan_object_take [OF k] a by simp
  then show ?thesis
    using a by (simp add: object_text_def split_json_object_def)
qed

text \<open>
  The scanner splits its input without losing a byte, and the object it returns is the
  shortest prefix that closes: it ends with a brace and no shorter prefix is accepted.
\<close>

theorem split_json_object_shortest:
  assumes "split_json_object s = Inr (a, b)"
  shows "s = a @ b \<and> a \<noteq> [] \<and> last a = CHR ''}''
    \<and> (\<forall>p. strict_prefix p a \<longrightarrow> \<not> is_ok (split_json_object p))"
proof -
  obtain k where k: "scan_object 0 False False 0 s = Some k" and a: "a = take k s" and b: "b = drop k s"
    using assms by (auto simp: split_json_object_Inr)
  have kb: "0 < k" "k \<le> length s" "s ! (k - 1) = CHR ''}''"
    using scan_object_bounds [OF k] by auto
  have "last a = CHR ''}''"
  proof -
    have "a \<noteq> []" and "length a = k"
      using kb a by auto
    then show ?thesis
      using kb a by (simp add: last_conv_nth)
  qed
  moreover have "\<not> is_ok (split_json_object p)" if p: "strict_prefix p a" for p
  proof
    assume "is_ok (split_json_object p)"
    then obtain k' where k': "scan_object 0 False False 0 p = Some k'"
      by (auto simp: split_json_object_def split: option.splits)
    obtain r where "s = p @ r"
      using p a by (metis append_take_drop_id prefixE prefix_order.less_imp_le same_append_eq append.assoc)
    then have "k' = k"
      using scan_object_append [OF k'] k by simp
    moreover have "k' \<le> length p"
      using scan_object_bounds [OF k'] by simp
    moreover have "length p < k"
      using p a kb prefix_length_less [OF p] by simp
    ultimately show False by simp
  qed
  ultimately show ?thesis
    using a b kb by auto
qed

theorem split_json_object_shortest_witness:
  \<open>split_json_object ''{"}":{}} tail'' = Inr (''{"}":{}}'', '' tail'')
   \<and> ''{"}":{}} tail'' = ''{"}":{}}'' @ '' tail''\<close>
proof -
  have h: \<open>split_json_object ''{"}":{}} tail'' = Inr (''{"}":{}}'', '' tail'')\<close>
    by (simp add: split_json_object_def)
  show ?thesis
    by (rule conjI [OF h conjunct1 [OF split_json_object_shortest [OF h]]])
qed

section \<open>End markers\<close>

definition marker_at :: "string \<Rightarrow> nat \<Rightarrow> bool" where
  "marker_at body i \<longleftrightarrow>
     i \<le> length body \<and> (i = 0 \<or> body ! (i - 1) = LF) \<and> marker_line (drop i body)"

definition content_before :: "string \<Rightarrow> nat \<Rightarrow> string" where
  "content_before body n =
     (if n = 0 then []
      else (let e = n - 1; e' = (if 0 < e \<and> body ! (e - 1) = CR then e - 1 else e) in take e' body))"

lemma marker_line_prefix: "marker_line t \<Longrightarrow> prefix FILE_END t"
  by (auto simp: marker_line_def strip_prefix_def split: option.splits if_splits)

lemma length_FILE_END: "length FILE_END = 7"
  by (simp add: FILE_END_def)

text \<open>Two occurrences of the marker never overlap: only its first byte is an F.\<close>

lemma FILE_END_no_overlap:
  assumes "prefix FILE_END (drop i s)" and "prefix FILE_END (drop j s)" and "i < j"
  shows "i + length FILE_END \<le> j"
proof (rule ccontr)
  assume "\<not> i + length FILE_END \<le> j"
  then have d: "0 < j - i" "j - i < 7"
    using assms(3) by (simp_all add: length_FILE_END)
  obtain r where r: "drop i s = FILE_END @ r"
    using assms(1) by (auto simp: prefix_def)
  obtain q where q: "drop j s = FILE_END @ q"
    using assms(2) by (auto simp: prefix_def)
  have "drop j s = drop (j - i) (drop i s)"
    using assms(3) by simp
  also have "\<dots> = drop (j - i) FILE_END @ r"
    using d by (simp add: r length_FILE_END)
  finally have "hd (drop (j - i) FILE_END) = hd FILE_END"
    using q d by (metis drop_eq_Nil hd_append2 length_FILE_END linorder_not_less list.size(3) zero_neq_numeral)
  then have "FILE_END ! (j - i) = CHR ''F''"
    using d by (simp add: hd_drop_conv_nth length_FILE_END) (simp add: FILE_END_def)
  moreover have "j - i \<in> {1, 2, 3, 4, 5, 6}"
    using d by auto
  ultimately show False
    by (auto simp: FILE_END_def)
qed

lemma take_until_from_marker:
  assumes "from \<le> n" and "marker_at body n" and "\<forall>j. from \<le> j \<and> j < n \<longrightarrow> \<not> marker_at body j"
  shows "take_until_from body from = Some (content_before body n)"
  using assms
proof (induction body "from" rule: take_until_from.induct)
  case (1 body from')
  have pn: "prefix FILE_END (drop n body)"
    using "1.prems"(2) marker_line_prefix by (simp add: marker_at_def)
  have "drop (n - from') (drop from' body) = drop n body"
    using "1.prems"(1) by simp
  then obtain rel where rel: "find_sub FILE_END (drop from' body) = Some rel"
    using pn find_sub_None [of FILE_END "drop from' body" "n - from'"] by (cases "find_sub FILE_END (drop from' body)") auto
  have le: "from' + rel \<le> n"
  proof (rule ccontr)
    assume "\<not> from' + rel \<le> n"
    then have "n - from' < rel" using "1.prems"(1) by simp
    then show False
      using find_sub_first [OF rel, of "n - from'"] pn
        \<open>drop (n - from') (drop from' body) = drop n body\<close> by metis
  qed
  have pp: "prefix FILE_END (drop (from' + rel) body)"
    using find_sub_Some_prefix [OF rel] by (simp add: add.commute)
  show ?case
  proof (cases "from' + rel = n")
    case True
    then show ?thesis
      using rel "1.prems"(2)
      by (subst take_until_from.simps) (simp add: marker_at_def content_before_def Let_def)
  next
    case False
    then have lt: "from' + rel < n" using le by simp
    have skip: "from' + rel + length FILE_END \<le> n"
      by (rule FILE_END_no_overlap [OF pp pn lt])
    have nm: "\<not> marker_at body (from' + rel)"
      using "1.prems"(3) lt by simp
    have "n \<le> length body" using "1.prems"(2) by (simp add: marker_at_def)
    then have bad: "(from' + rel = 0 \<or> body ! (from' + rel - 1) = LF) \<Longrightarrow> \<not> marker_line (drop (from' + rel) body)"
      using nm lt by (auto simp: marker_at_def)
    have "take_until_from body (from' + rel + length FILE_END) = Some (content_before body n)"
      using "1.IH" rel bad skip "1.prems" by (cases "from' + rel = 0 \<or> body ! (from' + rel - 1) = LF") auto
    then show ?thesis
      using rel bad by (subst take_until_from.simps) (auto simp: Let_def)
  qed
qed

lemma take_until_from_none:
  assumes "\<forall>j \<ge> from. \<not> marker_at body j"
  shows "take_until_from body from = None"
  using assms
proof (induction body "from" rule: take_until_from.induct)
  case (1 body from')
  show ?case
  proof (cases "find_sub FILE_END (drop from' body)")
    case None
    then show ?thesis by (simp add: take_until_from.simps [of body from'])
  next
    case (Some rel)
    have "rel + length FILE_END \<le> length (drop from' body)"
      by (rule find_sub_Some_length [OF Some])
    then have "from' + rel \<le> length body"
      by (simp add: length_FILE_END)
    then have bad: "(from' + rel = 0 \<or> body ! (from' + rel - 1) = LF) \<Longrightarrow> \<not> marker_line (drop (from' + rel) body)"
      using "1.prems" [rule_format, of "from' + rel"] by (auto simp: marker_at_def)
    have "take_until_from body (from' + rel + length FILE_END) = None"
      using "1.IH" Some bad "1.prems"
      by (cases "from' + rel = 0 \<or> body ! (from' + rel - 1) = LF") auto
    then show ?thesis
      using Some bad by (subst take_until_from.simps) (auto simp: Let_def)
  qed
qed

lemma take_until_end_marker_some:
  assumes "marker_at body n" and "\<forall>j < n. \<not> marker_at body j"
  shows "take_until_end_marker body = Some (content_before body n)"
proof (cases "marker_line body")
  case True
  then have "marker_at body 0" by (simp add: marker_at_def)
  then have "n = 0" using assms(2) by (cases n) auto
  with True show ?thesis by (simp add: take_until_end_marker_def content_before_def)
next
  case False
  then show ?thesis
    using take_until_from_marker [of 0 n body] assms by (simp add: take_until_end_marker_def)
qed

lemma take_until_end_marker_none:
  assumes "\<forall>j. \<not> marker_at body j"
  shows "take_until_end_marker body = None"
proof -
  have "\<not> marker_line body"
    using assms [rule_format, of 0] by (simp add: marker_at_def)
  then show ?thesis
    using take_until_from_none [of 0 body] assms by (simp add: take_until_end_marker_def)
qed

section \<open>Raw bodies come back byte for byte\<close>

definition has_marker_line :: "string \<Rightarrow> bool" where
  "has_marker_line c \<longleftrightarrow> (\<exists>l\<in>set (split_on LF c). l = FILE_END \<or> l = FILE_END @ [CR])"

definition ends_line :: "string \<Rightarrow> bool" where
  "ends_line r \<longleftrightarrow> r = [] \<or> starts_with r [LF] \<or> starts_with r [CR, LF]"

lemma marker_line_iff: "marker_line t \<longleftrightarrow> (\<exists>r. t = FILE_END @ r \<and> ends_line r)"
  by (auto simp: marker_line_def ends_line_def strip_prefix_Some split: option.splits)
    (auto simp: strip_prefix_def split: if_splits)

lemma LF_not_in_marker: "LF \<notin> set FILE_END"
  by (simp add: FILE_END_def)

lemma first_line_is_marker:
  assumes "u @ LF # x = FILE_END @ r" and "ends_line r"
  shows "hd (split_on LF u) = FILE_END \<or> hd (split_on LF u) = FILE_END @ [CR]"
proof -
  obtain v where u: "u = FILE_END @ v" and r: "r = v @ LF # x"
  proof (cases "length FILE_END \<le> length u")
    case True
    then show ?thesis
      using assms(1) that by (metis append_eq_append_conv_if append_eq_conv_conj append_take_drop_id)
  next
    case False
    then have "LF = FILE_END ! length u"
      using assms(1) by (metis linorder_not_less nth_append nth_append_length)
    then have False
      using False LF_not_in_marker by (metis linorder_not_less nth_mem)
    then show ?thesis ..
  qed
  from assms(2) r consider "v = []" | w where "v = LF # w" | "v = [CR]" | w where "v = CR # LF # w"
    by (cases v; cases "tl v") (auto simp: ends_line_def)
  then show ?thesis
  proof cases
    case 1
    then show ?thesis using u by (simp add: split_on_single LF_not_in_marker)
  next
    case (2 w)
    then show ?thesis
      using u split_on_append [OF LF_not_in_marker, of w] by simp
  next
    case 3
    then show ?thesis
      using u by (simp add: split_on_single LF_not_in_marker)
  next
    case (4 w)
    have "LF \<notin> set (FILE_END @ [CR])"
      using LF_not_in_marker by simp
    from split_on_append [OF this, of w] show ?thesis
      using u 4 by simp
  qed
qed

lemma marker_at_in_content:
  assumes "marker_at (c @ LF # x) j" and "j \<le> length c"
  shows "has_marker_line c"
proof -
  let ?u = "drop j c"
  have "marker_line (?u @ LF # x)"
    using assms by (simp add: marker_at_def)
  then obtain r where "?u @ LF # x = FILE_END @ r" and "ends_line r"
    by (auto simp: marker_line_iff)
  then have hd: "hd (split_on LF ?u) = FILE_END \<or> hd (split_on LF ?u) = FILE_END @ [CR]"
    by (rule first_line_is_marker)
  have "set (split_on LF ?u) \<subseteq> set (split_on LF c)"
  proof (cases "j = 0")
    case False
    then have "j - 1 < length c"
      using assms(2) by linarith
    moreover from this have "c ! (j - 1) = LF"
      using assms(1) False by (simp add: marker_at_def nth_append)
    ultimately have "c = take (j - 1) c @ LF # ?u"
      using id_take_nth_drop [of "j - 1" c] False by simp
    then show ?thesis
      using split_on_append_sep [of LF "take (j - 1) c" ?u] by (metis Un_iff set_append subsetI)
  qed simp
  then show ?thesis
    using hd by (metis has_marker_line_def hd_in_set split_on_nonempty subsetD)
qed

lemma take_until_end_marker_roundtrip:
  assumes "\<not> has_marker_line c" and "c \<noteq> [] \<longrightarrow> last c \<noteq> CR" and "ends_line r"
  shows "take_until_end_marker (c @ LF # FILE_END @ r) = Some c"
proof -
  let ?b = "c @ LF # FILE_END @ r"
  have "marker_at ?b (Suc (length c))"
    using assms(3) by (auto simp: marker_at_def marker_line_iff nth_append)
  moreover have "\<forall>j < Suc (length c). \<not> marker_at ?b j"
    using marker_at_in_content assms(1) by (metis less_Suc_eq_le)
  ultimately have "take_until_end_marker ?b = Some (content_before ?b (Suc (length c)))"
    by (rule take_until_end_marker_some)
  moreover have "content_before ?b (Suc (length c)) = c"
    using assms(2) by (cases c rule: rev_cases) (simp_all add: content_before_def nth_append)
  ultimately show ?thesis by simp
qed

lemma trim_start_LF: "trim_start (LF # s) = trim_start s"
  by (subst trim_start.simps) (simp add: ws_head_def ws_chars_def)

definition raw_block :: "string \<Rightarrow> string" where
  "raw_block c = LF # FILE_BEGIN @ LF # c @ LF # FILE_END"

lemma extract_raw_body_roundtrip:
  assumes "\<not> has_marker_line c" and "c \<noteq> [] \<longrightarrow> last c \<noteq> CR" and "ends_line r"
  shows "extract_raw_body (raw_block c @ r) = Inr c"
proof -
  have ts: "trim_start (raw_block c @ r) = FILE_BEGIN @ LF # c @ LF # FILE_END @ r"
    by (simp add: raw_block_def trim_start_LF FILE_BEGIN_def trim_start_visible visible_def)
  have fp: "strip_closing_fence_prefix (FILE_BEGIN @ s) = FILE_BEGIN @ s" for s
    by (simp add: strip_closing_fence_prefix_def strip_prefix_def FILE_BEGIN_def)
  have sp: "strip_prefix FILE_BEGIN (FILE_BEGIN @ s) = Some s" for s
    by (simp add: strip_prefix_Some)
  show ?thesis
    using take_until_end_marker_roundtrip [OF assms]
    by (simp add: extract_raw_body_def ts fp sp strip_prefix_def Let_def)
qed

lemma extract_raw_body_truncated:
  assumes "\<forall>j. \<not> marker_at c j"
  shows "extract_raw_body (LF # FILE_BEGIN @ LF # c)
    = Inl (parse_error ''raw file body is missing FILE>>>'' TRUNCATED_HINT)"
proof -
  have ts: "trim_start (LF # FILE_BEGIN @ LF # c) = FILE_BEGIN @ LF # c"
    by (simp add: trim_start_LF FILE_BEGIN_def trim_start_visible visible_def)
  have fp: "strip_closing_fence_prefix (FILE_BEGIN @ s) = FILE_BEGIN @ s" for s
    by (simp add: strip_closing_fence_prefix_def strip_prefix_def FILE_BEGIN_def)
  have sp: "strip_prefix FILE_BEGIN (FILE_BEGIN @ s) = Some s" for s
    by (simp add: strip_prefix_Some)
  show ?thesis
    using take_until_end_marker_none [OF assms]
    by (simp add: extract_raw_body_def ts fp sp strip_prefix_def Let_def)
qed

lemma prepared_text:
  assumes "prefix ''{'' s" and "visible (last s)"
  shows "strip_opening_fence (trim s) = s"
proof -
  obtain t where s: "s = CHR ''{'' # t"
    using assms(1) by (auto simp: prefix_def)
  have "trim s = s"
    using assms s by (intro trim_visible) (simp_all add: visible_def)
  then show ?thesis
    by (simp add: strip_opening_fence_def strip_prefix_def s)
qed

text \<open>
  C6: a reply made of an object with one raw \<open>home.write\<close> and a file block yields the
  file's bytes exactly: the directive is the decoded one with the file text as the call's
  \<open>content\<close>, and the text kept for the history is the object alone. The file may hold
  anything but a line that is the end marker, and must not end with a carriage return.
\<close>

theorem parse_directive_raw_roundtrip:
  assumes obj: "object_text obj" "prefix ''{'' obj"
    and dec: "decode obj = Inr d"
    and raw: "raw_indexes 0 (tool_calls d) = Inr [i]"
    and args: "arguments (tool_calls d ! i) = JObject kvs"
    and body: "\<not> has_marker_line c" "c \<noteq> [] \<longrightarrow> last c \<noteq> CR"
  shows "parse_directive decode (obj @ raw_block c) = Inr
    \<lparr>directive = d\<lparr>tool_calls := (tool_calls d)[i := (tool_calls d ! i)\<lparr>arguments :=
        JObject (assoc_insert ''content'' (JString c) (assoc_remove ''body'' kvs))\<rparr>]\<rparr>,
     json_text = obj\<rparr>"
proof -
  have "prefix ''{'' (obj @ raw_block c)"
    using obj(2) by simp
  moreover have "visible (last (obj @ raw_block c))"
    by (simp add: raw_block_def FILE_END_def visible_def)
  ultimately have prep: "strip_opening_fence (trim (obj @ raw_block c)) = obj @ raw_block c"
    by (rule prepared_text)
  have "extract_raw_body (raw_block c) = Inr c"
    using extract_raw_body_roundtrip [OF body, of "[]"] by (simp add: ends_line_def)
  then have "attach_raw_body d (raw_block c) = Inr (d\<lparr>tool_calls :=
      (tool_calls d)[i := (tool_calls d ! i)\<lparr>arguments :=
        JObject (assoc_insert ''content'' (JString c) (assoc_remove ''body'' kvs))\<rparr>]\<rparr>)"
    using raw args by (simp add: attach_raw_body_def set_raw_content_def Let_def)
  then show ?thesis
    using object_text_append [OF obj(1), of "raw_block c"] dec obj(2)
    by (simp add: parse_directive_def prep)
qed

definition sample_directive :: model_directive where
  "sample_directive = \<lparr>done_flag = False, thought = None,
     tool_calls = [\<lparr>server = ''home'', tool = ''write'',
        arguments = JObject [(''path'', JString ''a''), (''body'', JString ''raw'')]\<rparr>],
     result = None\<rparr>"

theorem parse_directive_raw_roundtrip_witness:
  "parse_directive (\<lambda>_. Inr sample_directive) (''{}'' @ raw_block ''x FILE>>>'') = Inr
    \<lparr>directive = sample_directive\<lparr>tool_calls := [\<lparr>server = ''home'', tool = ''write'',
        arguments = JObject [(''content'', JString ''x FILE>>>''), (''path'', JString ''a'')]\<rparr>]\<rparr>,
     json_text = ''{}''\<rparr>"
proof -
  have r: "raw_indexes 0 (tool_calls sample_directive) = Inr [0]"
    by (simp add: sample_directive_def is_home_write_def has_content_def)
  have a: "arguments (tool_calls sample_directive ! 0)
      = JObject [(''path'', JString ''a''), (''body'', JString ''raw'')]"
    by (simp add: sample_directive_def)
  have "parse_directive (\<lambda>_. Inr sample_directive) (''{}'' @ raw_block ''x FILE>>>'') = Inr
    \<lparr>directive = sample_directive\<lparr>tool_calls := (tool_calls sample_directive)
        [0 := (tool_calls sample_directive ! 0)\<lparr>arguments := JObject
          (assoc_insert ''content'' (JString ''x FILE>>>'') (assoc_remove ''body''
            [(''path'', JString ''a''), (''body'', JString ''raw'')]))\<rparr>]\<rparr>,
     json_text = ''{}''\<rparr>"
    by (rule parse_directive_raw_roundtrip [OF _ _ refl r a])
      (simp_all add: object_text_def split_json_object_def has_marker_line_def FILE_END_def)
  then show ?thesis
    by (simp add: sample_directive_def assoc_insert_def assoc_remove_def)
qed

text \<open>
  A reply whose raw body was cut off before the end marker is always rejected with the
  hint to resend it, so a truncated file is never written; and a file block behind an object
  that asks for no raw body, or for more than one, is rejected as well.
\<close>

theorem parse_directive_rejects_truncated:
  assumes obj: "object_text obj" "prefix ''{'' obj"
    and dec: "decode obj = Inr d"
    and raw: "raw_indexes 0 (tool_calls d) = Inr is"
    and cut: "\<forall>j. \<not> marker_at c j" "c \<noteq> []" "visible (last c)"
  shows "\<exists>e. parse_directive decode (obj @ LF # FILE_BEGIN @ LF # c) = Inl e
    \<and> (length is = 1 \<longrightarrow> e = parse_error ''raw file body is missing FILE>>>'' TRUNCATED_HINT)"
proof -
  let ?rest = "LF # FILE_BEGIN @ LF # c"
  have prep: "strip_opening_fence (trim (obj @ ?rest)) = obj @ ?rest"
    by (rule prepared_text) (use obj(2) cut in simp_all)
  have split: "split_json_object (obj @ ?rest) = Inr (obj, ?rest)"
    by (rule object_text_append [OF obj(1)])
  have ts: "trim_start ?rest = FILE_BEGIN @ LF # c"
    by (simp add: trim_start_LF FILE_BEGIN_def trim_start_visible visible_def)
  have "trim ?rest = FILE_BEGIN @ LF # c"
  proof -
    have "ws_last (FILE_BEGIN @ LF # c) = None"
      using ws_last_visible [OF cut(3), of "FILE_BEGIN @ LF # butlast c"] cut(2) by simp
    then show ?thesis
      unfolding trim_def ts by (rule trim_end_id)
  qed
  moreover have "trim (take n (FILE_BEGIN @ LF # c)) \<noteq> []" if "0 < n" for n
    using that by (cases n) (simp_all add: FILE_BEGIN_def trim_Cons_visible visible_def)
  ultimately have tail: "strip_closing_fence ?rest \<noteq> []"
    using cut(2) by (auto simp: strip_closing_fence_def strip_suffix_def FILE_BEGIN_def Let_def
        trim_Cons_visible visible_def)
  show ?thesis
    using dec obj(2) raw extract_raw_body_truncated [OF cut(1)] tail
    by (auto simp: parse_directive_def prep split attach_raw_body_def parse_error_def)
qed

lemma marker_at_length: "marker_at c j \<Longrightarrow> 7 \<le> length c"
  using marker_line_prefix [of "drop j c"] prefix_length_le [of FILE_END "drop j c"]
  by (auto simp: marker_at_def length_FILE_END)

theorem parse_directive_rejects_truncated_witness:
  "parse_directive (\<lambda>_. Inr sample_directive) (''{}'' @ LF # FILE_BEGIN @ LF # ''half'')
    = Inl (parse_error ''raw file body is missing FILE>>>'' TRUNCATED_HINT)"
proof -
  have r: "raw_indexes 0 (tool_calls sample_directive) = Inr [0]"
    by (simp add: sample_directive_def is_home_write_def has_content_def)
  have "\<forall>j. \<not> marker_at ''half'' j"
    using marker_at_length [of "''half''"] by auto
  from parse_directive_rejects_truncated [OF _ _ refl r this, of "''{}''"] show ?thesis
    by (simp add: object_text_def split_json_object_def visible_def)
qed

end
