(* ===== verification/History.thy ===== *)
theory History
  imports Rust_Prelude
begin

text \<open>
  Chat messages (\<open>src/provider/mod.rs\<close>) and the pruning of the message history
  (\<open>src/agent/loop/history.rs\<close>). A protected prefix (system prompt, goal and, when
  files are pinned, the pinned slot) is never dropped; the rest is cut to a number of
  messages and to a number of characters.
\<close>

datatype chat_role = System | User | Assistant

record chat_message =
  role :: chat_role
  content :: string

definition mk_message :: "chat_role \<Rightarrow> string \<Rightarrow> chat_message" where
  "mk_message r c = \<lparr>role = r, content = c\<rparr>"

record history_config =
  max_tail_messages :: nat
  max_chars :: nat

definition HISTORY_PREFIX_LEN :: nat where
  "HISTORY_PREFIX_LEN = 2"

definition HISTORY_MARKER :: string where
  "HISTORY_MARKER = CHR 0x0A # ''...[truncated for history budget]''"

definition history_char_len :: "chat_message list \<Rightarrow> nat" where
  "history_char_len ms = (\<Sum>m\<leftarrow>ms. chars_count (content m))"

definition truncate_for_budget :: "string \<Rightarrow> nat \<Rightarrow> string" where
  "truncate_for_budget s n =
     (if chars_count s \<le> n then s
      else if n \<le> chars_count HISTORY_MARKER then take_chars n s
      else take_chars (n - chars_count HISTORY_MARKER) s @ HISTORY_MARKER)"

text \<open>\<open>Vec::remove\<close> at an index that is in range.\<close>

definition remove_at :: "nat \<Rightarrow> 'a list \<Rightarrow> 'a list" where
  "remove_at k xs = take k xs @ drop (Suc k) xs"

text \<open>\<open>messages.drain(a..b)\<close>.\<close>

definition drain :: "nat \<Rightarrow> nat \<Rightarrow> 'a list \<Rightarrow> 'a list" where
  "drain a b xs = take a xs @ drop b xs"

definition prune_by_message_count ::
  "history_config \<Rightarrow> nat \<Rightarrow> chat_message list \<Rightarrow> chat_message list" where
  "prune_by_message_count h k ms =
     (let max_tail = max_tail_messages h; max_total = k + max_tail in
      if length ms \<le> max_total then ms
      else let tail_start = length ms - max_tail in
        if tail_start \<le> k then ms else drain k tail_start ms)"

text \<open>
  The loop of \<open>prune_by_char_budget\<close>. Every round either removes the message behind the
  prefix or, when only one is left, shortens it; both make the pair of length and
  character count smaller.
\<close>

lemma history_char_len_simps [simp]:
  "history_char_len [] = 0"
  "history_char_len (m # ms) = chars_count (content m) + history_char_len ms"
  "history_char_len (ms @ ns) = history_char_len ms + history_char_len ns"
  by (simp_all add: history_char_len_def)

lemma split_at_index: "k < length ms \<Longrightarrow> ms = take k ms @ ms ! k # drop (Suc k) ms"
  by (rule id_take_nth_drop)

lemma char_len_update_less:
  assumes "k < length ms" and "chars_count (content m) < chars_count (content (ms ! k))"
  shows "history_char_len (ms[k := m]) < history_char_len ms"
proof -
  have "history_char_len ms = history_char_len (take k ms @ ms ! k # drop (Suc k) ms)"
    using split_at_index [OF assms(1)] by simp
  then show ?thesis
    using assms by (simp add: upd_conv_take_nth_drop)
qed

function prune_by_char_budget ::
  "history_config \<Rightarrow> nat \<Rightarrow> chat_message list \<Rightarrow> chat_message list" where
  "prune_by_char_budget h k ms =
     (if k < length ms \<and> max_chars h < history_char_len ms then
        (if length ms = k + 1 then
           (let prefix_chars = history_char_len (take k ms);
                budget_for_tail = max_chars h - prefix_chars in
            if budget_for_tail = 0 then prune_by_char_budget h k (remove_at k ms)
            else
              (let tail = content (ms ! k);
                   truncated_tail = truncate_for_budget tail budget_for_tail in
               if chars_count truncated_tail < chars_count tail
               then prune_by_char_budget h k (ms[k := (ms ! k)\<lparr>content := truncated_tail\<rparr>])
               else prune_by_char_budget h k (remove_at k ms)))
         else prune_by_char_budget h k (remove_at k ms))
      else ms)"
  by pat_completeness auto
termination
  by (relation "measures [\<lambda>(h, k, ms). length ms, \<lambda>(h, k, ms). history_char_len ms]")
    (auto simp: remove_at_def char_len_update_less)

declare prune_by_char_budget.simps [simp del]

definition prune_message_history ::
  "history_config \<Rightarrow> nat \<Rightarrow> chat_message list \<Rightarrow> chat_message list" where
  "prune_message_history h k ms = prune_by_char_budget h k (prune_by_message_count h k ms)"

text \<open>The pair is the two vectors \<open>messages\<close> and \<open>full_history\<close> after the push.\<close>

definition push_message ::
  "history_config \<Rightarrow> chat_message \<Rightarrow> chat_message list \<times> chat_message list
   \<Rightarrow> chat_message list \<times> chat_message list" where
  "push_message h m st =
     (let (messages, full_history) = st in
      (messages @ [m], prune_message_history h HISTORY_PREFIX_LEN (full_history @ [m])))"

section \<open>Truncation\<close>

lemma chars_count_truncate [simp]:
  "chars_count (truncate_for_budget s n) = min n (chars_count s)"
  by (auto simp: truncate_for_budget_def)

lemma truncate_for_budget_id: "chars_count s \<le> n \<Longrightarrow> truncate_for_budget s n = s"
  by (simp add: truncate_for_budget_def)

section \<open>What pruning keeps\<close>

text \<open>
  The shape of every result: the prefix, then either an unchanged suffix of the old tail or
  a single shortened last message.
\<close>

definition pruned_shape :: "nat \<Rightarrow> chat_message list \<Rightarrow> chat_message list \<Rightarrow> bool" where
  "pruned_shape k ms ns \<longleftrightarrow>
     (\<exists>j. ns = take k ms @ drop (max k j) ms)
     \<or> (\<exists>b. ms \<noteq> [] \<and> k < length ms \<and>
          ns = take k ms @ [(last ms)\<lparr>content := truncate_for_budget (content (last ms)) b\<rparr>])"

lemma pruned_shape_refl: "pruned_shape k ms ms"
  unfolding pruned_shape_def by (rule disjI1, rule exI [of _ k]) simp

lemma take_drop_tail:
  assumes "k \<le> length ms"
  shows "take k (take k ms @ drop (max k j) ms) = take k ms"
  using assms by simp

lemma take_prune_char: "take k (prune_by_char_budget h k ms) = take k ms"
proof (induction h k ms rule: prune_by_char_budget.induct)
  case (1 h k ms)
  let ?upd = "\<lambda>t. ms[k := (ms ! k)\<lparr>content := t\<rparr>]"
  have rm: "k < length ms \<Longrightarrow> take k (remove_at k ms) = take k ms"
    by (simp add: remove_at_def)
  show ?case
    by (subst prune_by_char_budget.simps) (simp add: 1 rm Let_def del: chars_count_truncate)
qed

lemma prune_char_short:
  assumes "\<not> (k < length ms \<and> max_chars h < history_char_len ms)"
  shows "prune_by_char_budget h k ms = ms"
  by (subst prune_by_char_budget.simps) (simp only: assms if_False)

text \<open>One message behind the prefix: kept, shortened to the budget, or dropped.\<close>

lemma prune_char_single:
  assumes len: "length ms = k + 1" and over: "max_chars h < history_char_len ms"
  defines "b \<equiv> max_chars h - history_char_len (take k ms)"
  shows "prune_by_char_budget h k ms =
    (if b = 0 then take k ms
     else take k ms @ [(ms ! k)\<lparr>content := truncate_for_budget (content (ms ! k)) b\<rparr>])"
proof -
  have ms: "ms = take k ms @ [ms ! k]"
    using split_at_index [of k ms] len by simp
  have rm: "remove_at k ms = take k ms"
    using len by (simp add: remove_at_def)
  have "history_char_len (take k ms @ [ms ! k]) = history_char_len ms"
    using ms by simp
  then have total: "history_char_len (take k ms) + chars_count (content (ms ! k)) = history_char_len ms"
    by simp
  have upd: "ms[k := x] = take k ms @ [x]" for x
    using len by (simp add: upd_conv_take_nth_drop)
  show ?thesis
  proof (cases "b = 0")
    case True
    then show ?thesis
      using len over
      by (subst prune_by_char_budget.simps) (simp add: b_def rm prune_char_short)
  next
    case False
    then have less: "b < chars_count (content (ms ! k))"
      using total over by (simp add: b_def)
    have fits: "history_char_len (take k ms @ [(ms ! k)\<lparr>content :=
        truncate_for_budget (content (ms ! k)) b\<rparr>]) = max_chars h"
      using False less by (simp add: b_def)
    then show ?thesis
      using len over False less
      by (subst prune_by_char_budget.simps)
        (simp add: b_def [symmetric] upd prune_char_short)
  qed
qed

lemma prune_char_many:
  assumes "k + 1 < length ms" and "max_chars h < history_char_len ms"
  shows "prune_by_char_budget h k ms = prune_by_char_budget h k (remove_at k ms)"
  using assms by (subst prune_by_char_budget.simps) simp

lemma remove_at_drop:
  assumes "k < length ms"
  shows "remove_at k (take k ms @ drop j (drop k ms)) = take k ms @ drop (Suc j) (drop k ms)"
  using assms by (simp add: remove_at_def drop_Suc tl_drop)

text \<open>Facts about the whole loop, by induction on the number of messages behind the prefix.\<close>

lemma remove_at_length: "k < length ms \<Longrightarrow> length (remove_at k ms) = length ms - 1"
  by (simp add: remove_at_def)

lemma last_remove_at: "k + 1 < length ms \<Longrightarrow> last (remove_at k ms) = last ms"
  by (simp add: remove_at_def last_append last_drop)

lemma drop_remove_at:
  "k < length ms \<Longrightarrow> k \<le> j \<Longrightarrow> drop j (remove_at k ms) = drop (Suc j) ms"
  by (simp add: remove_at_def min_def)

lemma pruned_shape_step:
  assumes "k + 1 < length ms" and "pruned_shape k (remove_at k ms) ns"
  shows "pruned_shape k ms ns"
proof -
  have tk: "take k (remove_at k ms) = take k ms"
    using assms(1) by (simp add: remove_at_def)
  have dr: "drop (max k j) (remove_at k ms) = drop (max k (Suc (max k j))) ms" for j
    using assms(1) by (simp add: drop_remove_at max_def)
  have la: "last (remove_at k ms) = last ms"
    by (rule last_remove_at [OF assms(1)])
  from assms(2) show ?thesis
    unfolding pruned_shape_def tk dr la using assms(1) by fastforce
qed

lemma prune_char_facts:
  shows "(history_char_len (prune_by_char_budget h k ms) \<le> max_chars h
          \<or> prune_by_char_budget h k ms = take k ms)
       \<and> length (prune_by_char_budget h k ms) \<le> length ms
       \<and> pruned_shape k ms (prune_by_char_budget h k ms)"
proof (induction "length ms" arbitrary: ms rule: less_induct)
  case less
  consider (stop) "\<not> (k < length ms \<and> max_chars h < history_char_len ms)"
    | (one) "length ms = k + 1" "max_chars h < history_char_len ms"
    | (more) "k + 1 < length ms" "max_chars h < history_char_len ms"
    by linarith
  then show ?case
  proof cases
    case stop
    then show ?thesis
      using prune_char_short [OF stop] pruned_shape_refl [of k ms] by auto
  next
    case one
    have ms: "ms \<noteq> []" "last ms = ms ! k" "k < length ms"
      using one(1) by (cases ms rule: rev_cases; simp add: nth_append)+
    have "take k ms = take k ms @ drop (max k (length ms)) ms"
      by simp
    then have dropped: "pruned_shape k ms (take k ms)"
      unfolding pruned_shape_def by blast
    have cut: "pruned_shape k ms (take k ms @
        [(ms ! k)\<lparr>content := truncate_for_budget (content (ms ! k)) b\<rparr>])" for b
      unfolding pruned_shape_def using ms by auto
    show ?thesis
      using prune_char_single [OF one] dropped cut one(1) by auto
  next
    case more
    have "length (remove_at k ms) < length ms"
      using more(1) by (simp add: remove_at_length)
    from less.hyps [OF this] show ?thesis
      using more pruned_shape_step [OF more(1)] prune_char_many [OF more]
      by (auto simp: remove_at_length) (simp add: remove_at_def)
  qed
qed

lemma prune_count_length:
  "length (prune_by_message_count h k ms) = min (length ms) (k + max_tail_messages h)"
  by (auto simp: prune_by_message_count_def Let_def drain_def)

lemma prune_count_shape:
  "prune_by_message_count h k ms = take k ms @ drop (max k (length ms - max_tail_messages h)) ms"
proof (cases "length ms \<le> k + max_tail_messages h")
  case True
  then have "max k (length ms - max_tail_messages h) = k"
    by simp
  with True show ?thesis
    by (simp add: prune_by_message_count_def)
next
  case False
  then show ?thesis
    by (simp add: prune_by_message_count_def Let_def drain_def max_def)
qed

lemma take_prune_count: "take k (prune_by_message_count h k ms) = take k ms"
  unfolding prune_count_shape by (cases "k \<le> length ms") auto

lemma take_prune: "take k (prune_message_history h k ms) = take k ms"
  by (simp add: prune_message_history_def take_prune_char take_prune_count)

lemma length_prune_le: "length (prune_message_history h k ms) \<le> k + max_tail_messages h"
  using prune_char_facts [of h k "prune_by_message_count h k ms"]
  by (auto simp: prune_message_history_def prune_count_length)

lemma prune_budget:
  "history_char_len (prune_message_history h k ms) \<le> max_chars h
   \<or> prune_message_history h k ms = take k ms"
  using prune_char_facts [of h k "prune_by_message_count h k ms"]
  by (simp add: prune_message_history_def take_prune_count)

lemma pruned_shape_count:
  assumes "pruned_shape k (prune_by_message_count h k ms) ns"
  shows "pruned_shape k ms ns"
proof -
  define i where "i = max k (length ms - max_tail_messages h)"
  have eq: "prune_by_message_count h k ms = take k ms @ drop i ms" and "k \<le> i"
    by (simp_all add: prune_count_shape i_def)
  show ?thesis
  proof (cases "k \<le> length ms")
    case True
    have tk: "take k (take k ms @ drop i ms) = take k ms"
      using True by simp
    have dr: "drop (max k j) (take k ms @ drop i ms) = drop (max k (i + (max k j - k))) ms" for j
      using True \<open>k \<le> i\<close> by (simp add: min_def add.commute)
    have la: "k < length (take k ms @ drop i ms) \<Longrightarrow>
        last (take k ms @ drop i ms) = last ms \<and> k < length ms \<and> ms \<noteq> []"
      using True \<open>k \<le> i\<close> by (auto simp: last_drop)
    from assms show ?thesis
      unfolding eq pruned_shape_def tk dr using la by metis
  next
    case False
    then have "prune_by_message_count h k ms = ms"
      by (simp add: prune_by_message_count_def)
    with assms show ?thesis by simp
  qed
qed

lemma prune_shape: "pruned_shape k ms (prune_message_history h k ms)"
  using prune_char_facts [of h k "prune_by_message_count h k ms"]
  by (auto simp: prune_message_history_def intro: pruned_shape_count)

lemma prune_fixpoint:
  assumes "length ms \<le> k + max_tail_messages h"
    and "history_char_len ms \<le> max_chars h \<or> length ms \<le> k"
  shows "prune_message_history h k ms = ms"
  using assms
  by (auto simp: prune_message_history_def prune_by_message_count_def prune_char_short)

text \<open>The newest message survives, whole or shortened, whenever there is room for it at all.\<close>

lemma prune_char_newest:
  assumes "k < length ms" and "history_char_len (take k ms) < max_chars h"
  shows "\<exists>pre m. prune_by_char_budget h k ms = take k ms @ pre @ [m] \<and>
           (m = last ms \<or>
            m = (last ms)\<lparr>content := truncate_for_budget (content (last ms))
                   (max_chars h - history_char_len (take k ms))\<rparr>)"
  using assms
proof (induction "length ms" arbitrary: ms rule: less_induct)
  case less
  have ne: "ms \<noteq> []"
    using less.prems(1) by auto
  consider (stop) "\<not> (k < length ms \<and> max_chars h < history_char_len ms)"
    | (one) "length ms = k + 1" "max_chars h < history_char_len ms"
    | (more) "k + 1 < length ms" "max_chars h < history_char_len ms"
    using less.prems(1) by linarith
  then show ?case
  proof cases
    case stop
    have "take k ms @ drop k (butlast ms) @ [last ms] = ms"
      using less.prems(1) ne
      by (metis append_take_drop_id append_assoc drop_butlast butlast_snoc append_butlast_last_id
          drop_eq_Nil last_drop linorder_not_less)
    then show ?thesis
      using prune_char_short [OF stop] by metis
  next
    case one
    have "last ms = ms ! k"
      using one(1) ne by (simp add: last_conv_nth)
    then show ?thesis
      using prune_char_single [OF one] less.prems(2)
      by (intro exI [of _ "[]"]) auto
  next
    case more
    have tk: "take k (remove_at k ms) = take k ms"
      using more(1) by (simp add: remove_at_def)
    have "length (remove_at k ms) < length ms" and "k < length (remove_at k ms)"
      using more(1) by (simp_all add: remove_at_length)
    from less.hyps [OF this] show ?thesis
      using less.prems(2) last_remove_at [OF more(1)] prune_char_many [OF more]
      by (simp add: tk)
  qed
qed

section \<open>The contract of pruning\<close>

text \<open>
  What the agent loop relies on, as an interface: a pruner with a protected prefix. However
  many messages are appended and pruned, the prefix stays as it was.
\<close>

locale prefix_pruner =
  fixes prune :: "'a list \<Rightarrow> 'a list" and k :: nat
  assumes keeps_prefix: "take k (prune ms) = take k ms"
begin

lemma step_prefix: "k \<le> length ms \<Longrightarrow> take k (prune (ms @ new)) = take k ms"
  by (simp add: keeps_prefix)

lemma step_length: "k \<le> length ms \<Longrightarrow> k \<le> length (prune (ms @ new))"
  using step_prefix [of ms new] by (metis length_take min.absorb2 min.cobounded1)

lemma run_prefix:
  "k \<le> length ms \<Longrightarrow>
     take k (foldl (\<lambda>acc m. prune (acc @ [m])) ms new) = take k ms
     \<and> k \<le> length (foldl (\<lambda>acc m. prune (acc @ [m])) ms new)"
  by (induction new arbitrary: ms) (simp_all add: step_prefix step_length)

end

interpretation pruner: prefix_pruner "prune_message_history h k" k for h k
  by unfold_locales (rule take_prune)

text \<open>
  Pruning keeps the protected prefix, respects the message limit, respects the character
  limit unless nothing but the prefix is left, and returns the prefix followed by an
  unchanged suffix of the old tail or by one shortened last message.
\<close>

theorem prune_history_contract:
  "take k (prune_message_history h k ms) = take k ms
   \<and> length (prune_message_history h k ms) \<le> k + max_tail_messages h
   \<and> (history_char_len (prune_message_history h k ms) \<le> max_chars h
      \<or> prune_message_history h k ms = take k ms)
   \<and> pruned_shape k ms (prune_message_history h k ms)"
  using take_prune length_prune_le prune_budget prune_shape by blast

text \<open>
  Pruning an already pruned history changes nothing.
\<close>

theorem prune_history_idempotent:
  "prune_message_history h k (prune_message_history h k ms) = prune_message_history h k ms"
proof (rule prune_fixpoint)
  show "length (prune_message_history h k ms) \<le> k + max_tail_messages h"
    by (rule length_prune_le)
  show "history_char_len (prune_message_history h k ms) \<le> max_chars h
      \<or> length (prune_message_history h k ms) \<le> k"
    using prune_budget [of h k ms] by auto
qed

text \<open>
  When the limits leave room for at least one message behind the prefix, the newest
  message is never dropped: it is kept as it is or cut to the characters that are left.
\<close>

theorem prune_history_keeps_newest:
  assumes "k < length ms" and "0 < max_tail_messages h"
    and "history_char_len (take k ms) < max_chars h"
  shows "\<exists>pre m. prune_message_history h k ms = take k ms @ pre @ [m] \<and>
           (m = last ms \<or>
            m = (last ms)\<lparr>content := truncate_for_budget (content (last ms))
                   (max_chars h - history_char_len (take k ms))\<rparr>)"
proof -
  let ?c = "prune_by_message_count h k ms"
  have "k < length ?c"
    using assms(1,2) by (simp add: prune_count_length)
  moreover have "last ?c = last ms"
    using assms(1,2) by (simp add: prune_count_shape last_drop)
  ultimately show ?thesis
    using prune_char_newest [of k ?c h] assms(3)
    by (simp add: prune_message_history_def take_prune_count)
qed

theorem prune_history_keeps_newest_witness:
  "\<exists>pre m. prune_message_history \<lparr>max_tail_messages = 1, max_chars = 6\<rparr> 1
       [mk_message System ''sys'', mk_message User ''old'', mk_message User ''newest'']
     = [mk_message System ''sys''] @ pre @ [m] \<and>
       (m = mk_message User ''newest'' \<or> m = mk_message User (truncate_for_budget ''newest'' 3))"
  using prune_history_keeps_newest
    [of 1 "[mk_message System ''sys'', mk_message User ''old'', mk_message User ''newest'']"
      "\<lparr>max_tail_messages = 1, max_chars = 6\<rparr>"]
  by (simp add: mk_message_def is_cont_def)

end
