(* ===== verification/Project_Paths.thy ===== *)
theory Project_Paths
  imports Rust_Prelude
begin

text \<open>
  The layout under a project's \<open>.kuibysheff\<close> directory (\<open>src/project_paths.rs\<close>):
  validation of agent ids, the directories of an agent, the optional home override, and the
  lexical test that keeps every tool out of the protected store. The Unicode classification
  of characters beyond ASCII is a parameter (\<open>uni\<close>); a character is the list of its
  UTF-8 bytes.
\<close>

definition KUIBYSHEFF_DIR :: string where "KUIBYSHEFF_DIR = ''.kuibysheff''"
definition PROTECTED_DIR :: string where "PROTECTED_DIR = ''protected''"
definition AGENTS_DIR :: string where "AGENTS_DIR = ''agents''"
definition HOMES_DIR :: string where "HOMES_DIR = ''homes''"
definition MCP_RUNTIME_DIR :: string where "MCP_RUNTIME_DIR = ''mcp-runtime''"
definition RUNTIME_DIR :: string where "RUNTIME_DIR = ''runtime''"
definition RUNTIME_SKILLS_DIR :: string where "RUNTIME_SKILLS_DIR = ''skills''"
definition AGENT_CONFIG_FILE :: string where "AGENT_CONFIG_FILE = ''agent-config.yaml''"

lemmas dir_defs = KUIBYSHEFF_DIR_def PROTECTED_DIR_def AGENTS_DIR_def HOMES_DIR_def
  MCP_RUNTIME_DIR_def RUNTIME_DIR_def RUNTIME_SKILLS_DIR_def AGENT_CONFIG_FILE_def

datatype agent_path_error =
    InvalidAgentId string
  | InvalidHomePath
  | HomeNotAllowed string
  | InvalidMcpServerName string

text \<open>\<open>str::chars\<close>: each character with its continuation bytes.\<close>

function utf8_chars :: "string \<Rightarrow> string list" where
  "utf8_chars [] = []"
| "utf8_chars (c # s) = (c # takeWhile is_cont s) # utf8_chars (dropWhile is_cont s)"
  by pat_completeness auto
termination
  by (relation "measure length") (simp_all add: le_imp_less_Suc length_dropWhile_le)

definition is_control :: "string \<Rightarrow> bool" where
  "is_control ch = (case ch of
     [c] \<Rightarrow> (of_char c :: nat) < 32 \<or> (of_char c :: nat) = 127
   | [a, b] \<Rightarrow> a = CHR 0xC2 \<and> (of_char b :: nat) < 160
   | _ \<Rightarrow> False)"

definition is_alphanumeric :: "(string \<Rightarrow> bool) \<Rightarrow> string \<Rightarrow> bool" where
  "is_alphanumeric uni ch = (case ch of [c] \<Rightarrow> is_ascii_alnum c | _ \<Rightarrow> uni ch)"

definition reserved_char :: "string \<Rightarrow> bool" where
  "reserved_char ch \<longleftrightarrow> ch = ''<'' \<or> ch = ''>'' \<or> ch = '':'' \<or> ch = [CHR 0x22] \<or> ch = ''|''
     \<or> ch = ''?'' \<or> ch = ''*''"

definition validate_agent_id :: "(string \<Rightarrow> bool) \<Rightarrow> string \<Rightarrow> agent_path_error + unit" where
  "validate_agent_id uni agent_id =
     (if agent_id = [] \<or> agent_id \<noteq> trim agent_id then Inl (InvalidAgentId agent_id)
      else if contains_str agent_id ''/'' \<or> contains_str agent_id [CHR 0x5C]
           \<or> contains_str agent_id ''..''
           \<or> list_ex (\<lambda>c. is_control c \<or> reserved_char c) (utf8_chars agent_id)
      then Inl (InvalidAgentId agent_id)
      else (case utf8_chars agent_id of
          [] \<Rightarrow> Inl (InvalidAgentId agent_id)
        | first # rest \<Rightarrow>
            (if \<not> is_alphanumeric uni first then Inl (InvalidAgentId agent_id)
             else if \<not> list_all (\<lambda>c. is_alphanumeric uni c \<or> c = ''_'' \<or> c = ''-'' \<or> c = '' '') rest
             then Inl (InvalidAgentId agent_id)
             else Inr ())))"

section \<open>Directories\<close>

definition kuibysheff_root :: "path \<Rightarrow> path" where
  "kuibysheff_root project_root = path_join project_root KUIBYSHEFF_DIR"

definition protected_root :: "path \<Rightarrow> path" where
  "protected_root project_root = path_join (kuibysheff_root project_root) PROTECTED_DIR"

definition runtime_root :: "path \<Rightarrow> path" where
  "runtime_root project_root = path_join (kuibysheff_root project_root) RUNTIME_DIR"

definition agent_runtime_skills_dir ::
  "(string \<Rightarrow> bool) \<Rightarrow> path \<Rightarrow> string \<Rightarrow> agent_path_error + path" where
  "agent_runtime_skills_dir uni project_root agent_id =
     rbind (validate_agent_id uni agent_id) (\<lambda>_.
       Inr (path_join (path_join (runtime_root project_root) RUNTIME_SKILLS_DIR) agent_id))"

definition protected_agents_root :: "path \<Rightarrow> path" where
  "protected_agents_root project_root = path_join (protected_root project_root) AGENTS_DIR"

definition agent_profile_dir ::
  "(string \<Rightarrow> bool) \<Rightarrow> path \<Rightarrow> string \<Rightarrow> agent_path_error + path" where
  "agent_profile_dir uni project_root agent_id =
     rbind (validate_agent_id uni agent_id) (\<lambda>_.
       Inr (path_join (protected_agents_root project_root) agent_id))"

definition agent_home_dir ::
  "(string \<Rightarrow> bool) \<Rightarrow> path \<Rightarrow> string \<Rightarrow> agent_path_error + path" where
  "agent_home_dir uni project_root agent_id =
     rbind (validate_agent_id uni agent_id) (\<lambda>_.
       Inr (path_join (path_join (kuibysheff_root project_root) HOMES_DIR) agent_id))"

definition mcp_runtime_dir ::
  "(string \<Rightarrow> bool) \<Rightarrow> path \<Rightarrow> string \<Rightarrow> string \<Rightarrow> agent_path_error + path" where
  "mcp_runtime_dir uni project_root agent_id srv =
     rbind (validate_agent_id uni agent_id) (\<lambda>_.
       if srv = [] \<or> contains_str srv ''/'' \<or> contains_str srv [CHR 0x5C]
          \<or> contains_str srv ''..'' \<or> length (components srv) \<noteq> 1
       then Inl (InvalidMcpServerName srv)
       else Inr (path_join (path_join (path_join (kuibysheff_root project_root) MCP_RUNTIME_DIR)
              agent_id) srv))"

section \<open>Lexical containment\<close>

text \<open>\<open>PathBuf::pop\<close> on the component list: the root and the empty path have no parent.\<close>

definition pop_component :: "component list \<Rightarrow> component list" where
  "pop_component out = (if out = [] \<or> out = [RootDir] then out else butlast out)"

text \<open>Pushing a root component replaces what is there, as \<open>PathBuf::push\<close> does.\<close>

definition normalize_step :: "component list \<Rightarrow> component \<Rightarrow> component list" where
  "normalize_step out c = (case c of
     CurDir \<Rightarrow> out
   | ParentDir \<Rightarrow> pop_component out
   | RootDir \<Rightarrow> [RootDir]
   | Normal s \<Rightarrow> out @ [Normal s])"

definition normalize_lexically :: "path \<Rightarrow> component list" where
  "normalize_lexically p = foldl normalize_step [] (components p)"

definition path_is_within :: "path \<Rightarrow> path \<Rightarrow> bool" where
  "path_is_within root p \<longleftrightarrow> prefix (normalize_lexically root) (normalize_lexically p)"

definition is_under_protected_root :: "path \<Rightarrow> path \<Rightarrow> bool" where
  "is_under_protected_root project_root p \<longleftrightarrow> path_is_within (protected_root project_root) p"

definition is_protected_path :: "path \<Rightarrow> path \<Rightarrow> bool" where
  "is_protected_path project_root p \<longleftrightarrow> is_under_protected_root project_root p"

fun adjacent_pair :: "'a \<Rightarrow> 'a \<Rightarrow> 'a list \<Rightarrow> bool" where
  "adjacent_pair a b (x # y # zs) = ((x = a \<and> y = b) \<or> adjacent_pair a b (y # zs))"
| "adjacent_pair a b _ = False"

definition path_contains_protected_segment :: "path \<Rightarrow> bool" where
  "path_contains_protected_segment p \<longleftrightarrow>
     adjacent_pair KUIBYSHEFF_DIR PROTECTED_DIR (map component_str (components p))"

section \<open>Resolving an agent's identity\<close>

record resolved_agent_paths =
  project_root :: path
  agent_id :: string
  profile_dir :: path
  config_file :: path
  settings_dir :: path
  home :: path

definition path_has_parent_component :: "path \<Rightarrow> bool" where
  "path_has_parent_component p \<longleftrightarrow> ParentDir \<in> set (components p)"

definition resolve_home_override :: "path \<Rightarrow> path \<Rightarrow> agent_path_error + path" where
  "resolve_home_override root h =
     (if is_absolute h then Inl InvalidHomePath
      else if path_has_parent_component h then Inl InvalidHomePath
      else if (case components h of c # _ \<Rightarrow> c = Normal PROTECTED_DIR | [] \<Rightarrow> False)
      then Inl (HomeNotAllowed h)
      else (let resolved = path_join (kuibysheff_root root) h in
        if is_under_protected_root root resolved then Inl (HomeNotAllowed resolved)
        else Inr resolved))"

definition resolve_agent_identity ::
  "(string \<Rightarrow> bool) \<Rightarrow> path \<Rightarrow> string \<Rightarrow> path option \<Rightarrow> agent_path_error + resolved_agent_paths" where
  "resolve_agent_identity uni root aid home_override =
     rbind (validate_agent_id uni aid) (\<lambda>_.
     rbind (agent_profile_dir uni root aid) (\<lambda>profile.
     rbind (case home_override of None \<Rightarrow> agent_home_dir uni root aid
              | Some raw \<Rightarrow> resolve_home_override root raw) (\<lambda>h.
       Inr \<lparr>project_root = root, agent_id = aid, profile_dir = profile,
            config_file = path_join profile AGENT_CONFIG_FILE, settings_dir = profile,
            home = h\<rparr>)))"

definition effective_project_root :: "path option \<Rightarrow> path option \<Rightarrow> path option" where
  "effective_project_root session_cwd cli_root = (case session_cwd of
     Some cwd \<Rightarrow> (if cwd \<noteq> [] then Some cwd else cli_root)
   | None \<Rightarrow> cli_root)"

definition resolve_config_path_for_dotenv :: "path \<Rightarrow> path \<Rightarrow> path" where
  "resolve_config_path_for_dotenv config launch_cwd =
     (if is_absolute config then config else path_join launch_cwd config)"

text \<open>
  The listing of agents: directory entries as name, directory flag and the presence of the
  config file; \<open>None\<close> for a name that is not UTF-8. The sorted ids come out.
\<close>

definition listed_ids :: "(string \<Rightarrow> bool) \<Rightarrow> (string option \<times> bool \<times> bool) list \<Rightarrow> string list" where
  "listed_ids uni entries =
     List.map_filter (\<lambda>(name, is_directory, has_config). case name of None \<Rightarrow> None
        | Some n \<Rightarrow> if is_directory \<and> is_ok (validate_agent_id uni n) \<and> has_config
                   then Some n else None) entries"

section \<open>Components of the directories\<close>

lemma components_Nil [simp]: "components [] = []"
  by (simp add: components_def is_absolute_def part_component_def)

lemma components_join_rel:
  assumes "\<not> is_absolute q" and "hd (split_on (CHR ''/'') q) \<noteq> ''.''"
  shows "components (path_join p q) = components p @ components q"
proof (cases "p = []")
  case True
  then show ?thesis using assms(1) by (simp add: path_join_def)
next
  case False
  then show ?thesis by (rule components_join [OF _ assms])
qed

lemma components_plain:
  assumes "CHR ''/'' \<notin> set s" and "s \<noteq> []" and "s \<noteq> ''.''" and "s \<noteq> ''..''"
  shows "components s = [Normal s]" "\<not> is_absolute s" "hd (split_on (CHR ''/'') s) \<noteq> ''.''"
  using assms
  by (auto simp: components_def split_on_single part_component_def is_absolute_def prefix_def)

lemma components_join_plain:
  assumes "CHR ''/'' \<notin> set s" and "s \<noteq> []" and "s \<noteq> ''.''" and "s \<noteq> ''..''"
  shows "components (path_join p s) = components p @ [Normal s]"
  using components_plain [OF assms] by (simp add: components_join_rel)

lemma components_kuibysheff: "components (kuibysheff_root r) = components r @ [Normal KUIBYSHEFF_DIR]"
  unfolding kuibysheff_root_def by (rule components_join_plain) (simp_all add: dir_defs)

lemma components_protected:
  "components (protected_root r) = components r @ [Normal KUIBYSHEFF_DIR, Normal PROTECTED_DIR]"
  unfolding protected_root_def
  by (subst components_join_plain) (simp_all add: components_kuibysheff, simp_all add: dir_defs)

lemma find_sub_single: "find_sub [c] s = None \<longleftrightarrow> c \<notin> set s"
proof (induction s)
  case Nil
  then show ?case by (simp add: find_sub.simps)
next
  case (Cons a s)
  then show ?case by (auto simp: find_sub.simps [of "[c]" "a # s"])
qed

lemma contains_single: "contains_str s [c] \<longleftrightarrow> c \<in> set s"
  by (auto simp: contains_str_def find_sub_single)

lemma validate_agent_id_segment:
  assumes "validate_agent_id uni s = Inr ()"
  shows "CHR ''/'' \<notin> set s \<and> s \<noteq> [] \<and> s \<noteq> ''.'' \<and> s \<noteq> ''..''"
proof -
  have "is_alphanumeric uni (hd (utf8_chars s))" "s \<noteq> []" "CHR ''/'' \<notin> set s"
    using assms
    by (auto simp: validate_agent_id_def contains_single split: if_splits list.splits)
  moreover have "\<not> is_alphanumeric uni (hd (utf8_chars ''.''))"
    "\<not> is_alphanumeric uni (hd (utf8_chars ''..''))"
    by (simp_all add: is_alphanumeric_def is_ascii_alnum_def is_ascii_digit_def
        is_ascii_lower_def is_ascii_upper_def is_cont_def)
  ultimately show ?thesis by auto
qed

lemma agent_profile_components:
  "agent_profile_dir uni r a = Inr p \<Longrightarrow> components p = components r
     @ [Normal KUIBYSHEFF_DIR, Normal PROTECTED_DIR, Normal AGENTS_DIR, Normal a]"
  using validate_agent_id_segment [of uni a]
  by (auto simp: agent_profile_dir_def rbind_eq_Inr protected_agents_root_def components_join_plain
      components_protected AGENTS_DIR_def)

lemma agent_home_components:
  "agent_home_dir uni r a = Inr p \<Longrightarrow> components p = components r
     @ [Normal KUIBYSHEFF_DIR, Normal HOMES_DIR, Normal a]"
  using validate_agent_id_segment [of uni a]
  by (auto simp: agent_home_dir_def rbind_eq_Inr components_join_plain
      components_kuibysheff HOMES_DIR_def)

lemma normalize_append:
  "foldl normalize_step out (cs @ map Normal ns) = foldl normalize_step out cs @ map Normal ns"
  by (induction ns rule: rev_induct) (simp_all add: normalize_step_def)

lemma normalize_protected:
  "normalize_lexically (protected_root r)
   = normalize_lexically r @ [Normal KUIBYSHEFF_DIR, Normal PROTECTED_DIR]"
  using normalize_append [of "[]" "components r" "[KUIBYSHEFF_DIR, PROTECTED_DIR]"]
  by (simp add: normalize_lexically_def components_protected)

lemma normalize_kuibysheff:
  "normalize_lexically (kuibysheff_root r) = normalize_lexically r @ [Normal KUIBYSHEFF_DIR]"
  using normalize_append [of "[]" "components r" "[KUIBYSHEFF_DIR]"]
  by (simp add: normalize_lexically_def components_kuibysheff)

text \<open>A relative override without parent segments adds exactly its normal segments.\<close>

lemma components_join_relative:
  assumes "\<not> is_absolute q" and "p \<noteq> []"
  shows "components (path_join p q) = components p @ filter (\<lambda>c. c \<noteq> CurDir) (components q)"
proof -
  have parts: "filter (\<lambda>c. c \<noteq> CurDir) (concat (map part_component ps)) = concat (map part_component ps)"
    for ps
    by (induction ps) (auto simp: part_component_def)
  show ?thesis
  proof (cases "suffix ''/'' p")
    case True
    then obtain r where r: "p = r @ ''/''" by (auto simp: suffix_def)
    have "split_on (CHR ''/'') (p @ q) = split_on (CHR ''/'') r @ split_on (CHR ''/'') q"
      "split_on (CHR ''/'') p = split_on (CHR ''/'') r @ [[]]"
      using split_on_append_sep [of "CHR ''/''" r q] split_on_append_sep [of "CHR ''/''" r "[]"] r
      by simp_all
    then show ?thesis
      using assms True is_absolute_append [OF assms(2), of q]
      by (auto simp: components_def path_join_def Let_def parts) (simp_all add: part_component_def)
  next
    case False
    have "split_on (CHR ''/'') (p @ ''/'' @ q) = split_on (CHR ''/'') p @ split_on (CHR ''/'') q"
      using split_on_append_sep [of "CHR ''/''" p q] by simp
    then show ?thesis
      using assms False is_absolute_append [OF assms(2), of "''/'' @ q"]
      by (auto simp: components_def path_join_def Let_def parts)
  qed
qed

lemma relative_normals:
  assumes "\<not> is_absolute q" and "\<not> path_has_parent_component q"
  obtains ns where "filter (\<lambda>c. c \<noteq> CurDir) (components q) = map Normal ns"
proof -
  have "\<forall>c\<in>set (filter (\<lambda>c. c \<noteq> CurDir) (components q)). \<exists>s. c = Normal s"
  proof
    fix c
    assume "c \<in> set (filter (\<lambda>c. c \<noteq> CurDir) (components q))"
    then have "c \<in> set (components q)" "c \<noteq> CurDir" by auto
    then show "\<exists>s. c = Normal s"
      using assms(1,2) rootdir_component [of q] unfolding path_has_parent_component_def
      by (auto intro: component.exhaust [of c])
  qed
  then show thesis
    using that ex_map_conv [of _ Normal] by metis
qed

lemma kuibysheff_nonempty: "kuibysheff_root r \<noteq> []"
  by (auto simp: kuibysheff_root_def path_join_def KUIBYSHEFF_DIR_def is_absolute_def)

lemma resolve_home_override_inside:
  assumes "resolve_home_override r h = Inr p"
  shows "path_is_within (kuibysheff_root r) p \<and> \<not> is_under_protected_root r p"
proof -
  have rel: "\<not> is_absolute h" and par: "\<not> path_has_parent_component h"
    and p: "p = path_join (kuibysheff_root r) h" and out: "\<not> is_under_protected_root r p"
    using assms by (auto simp: resolve_home_override_def Let_def split: if_splits)
  obtain ns where "components p = components (kuibysheff_root r) @ map Normal ns"
    using relative_normals [OF rel par] components_join_relative [OF rel kuibysheff_nonempty] p
    by metis
  then have "normalize_lexically p = normalize_lexically (kuibysheff_root r) @ map Normal ns"
    unfolding normalize_lexically_def by (simp only: normalize_append)
  then show ?thesis
    using out by (simp add: path_is_within_def)
qed

text \<open>
  Whatever agent id and home override are given, an identity that resolves has its
  settings inside the protected store and its home inside \<open>.kuibysheff\<close> but outside the
  protected store, on every project root.
\<close>

theorem resolved_home_outside_protected:
  assumes "resolve_agent_identity uni root aid override = Inr r"
  shows "is_protected_path root (profile_dir r) \<and> is_protected_path root (config_file r)
    \<and> path_is_within (kuibysheff_root root) (home r) \<and> \<not> is_protected_path root (home r)"
proof -
  obtain profile h where prof: "agent_profile_dir uni root aid = Inr profile"
    and h: "(case override of None \<Rightarrow> agent_home_dir uni root aid
              | Some raw \<Rightarrow> resolve_home_override root raw) = Inr h"
    and r: "profile_dir r = profile" "config_file r = path_join profile AGENT_CONFIG_FILE" "home r = h"
    using assms by (auto simp: resolve_agent_identity_def rbind_eq_Inr)
  note pc = agent_profile_components [OF prof]
  have n1: "normalize_lexically profile = normalize_lexically root
      @ map Normal [KUIBYSHEFF_DIR, PROTECTED_DIR, AGENTS_DIR, aid]"
    unfolding normalize_lexically_def pc
    using normalize_append [of "[]" "components root" "[KUIBYSHEFF_DIR, PROTECTED_DIR, AGENTS_DIR, aid]"]
    by simp
  have "components (path_join profile AGENT_CONFIG_FILE) = components profile @ [Normal AGENT_CONFIG_FILE]"
    by (rule components_join_plain) (simp_all add: AGENT_CONFIG_FILE_def)
  then have n2: "normalize_lexically (path_join profile AGENT_CONFIG_FILE)
      = normalize_lexically profile @ [Normal AGENT_CONFIG_FILE]"
    using normalize_append [of "[]" "components profile" "[AGENT_CONFIG_FILE]"]
    by (simp add: normalize_lexically_def)
  have home: "path_is_within (kuibysheff_root root) h \<and> \<not> is_under_protected_root root h"
  proof (cases override)
    case None
    then have "components h = components root @ map Normal [KUIBYSHEFF_DIR, HOMES_DIR, aid]"
      using h agent_home_components [of uni root aid h] by simp
    then have "normalize_lexically h = normalize_lexically root @ map Normal [KUIBYSHEFF_DIR, HOMES_DIR, aid]"
      unfolding normalize_lexically_def by (simp only: normalize_append)
    then show ?thesis
      by (simp add: path_is_within_def is_under_protected_root_def normalize_protected
          normalize_kuibysheff HOMES_DIR_def PROTECTED_DIR_def)
  next
    case (Some raw)
    then show ?thesis using h resolve_home_override_inside by simp
  qed
  show ?thesis
    using home r n1 n2
    by (simp add: is_protected_path_def is_under_protected_root_def path_is_within_def
        normalize_protected)
qed

theorem resolved_home_outside_protected_witness:
  "\<exists>r. resolve_agent_identity (\<lambda>_. False) ''/srv/p'' ''demo'' (Some ''homes/x'') = Inr r
     \<and> \<not> is_protected_path ''/srv/p'' (home r)"
proof -
  have t: "trim ''demo'' = ''demo''"
    by (rule trim_visible) (simp_all add: visible_def)
  have v: "validate_agent_id (\<lambda>_. False) ''demo'' = Inr ()"
    by (simp add: validate_agent_id_def t contains_single contains_str_def find_sub.simps
        is_cont_def is_control_def reserved_char_def is_alphanumeric_def is_ascii_alnum_def
        is_ascii_digit_def is_ascii_lower_def)
  have "\<exists>r. resolve_agent_identity (\<lambda>_. False) ''/srv/p'' ''demo'' (Some ''homes/x'') = Inr r"
    by (simp add: resolve_agent_identity_def v agent_profile_dir_def resolve_home_override_def
        is_absolute_def path_has_parent_component_def components_def part_component_def
        PROTECTED_DIR_def is_under_protected_root_def path_is_within_def normalize_protected)
      (simp add: normalize_lexically_def kuibysheff_root_def path_join_def is_absolute_def
        components_def part_component_def normalize_step_def KUIBYSHEFF_DIR_def suffix_def)
  then show ?thesis
    using resolved_home_outside_protected by blast
qed

text \<open>
  Two valid agent ids never share a profile, a home or each other's directory: the paths
  of distinct agents under one root have distinct components.
\<close>

theorem agent_dirs_injective:
  assumes "agent_profile_dir uni r a = Inr p" and "agent_profile_dir uni r b = Inr q"
    and "agent_home_dir uni r a = Inr h" and "agent_home_dir uni r b = Inr k"
  shows "(path_starts_with p q \<longleftrightarrow> a = b) \<and> (path_starts_with h k \<longleftrightarrow> a = b)
    \<and> \<not> path_starts_with h p \<and> \<not> path_starts_with p h"
  using agent_profile_components [OF assms(1)] agent_profile_components [OF assms(2)]
    agent_home_components [OF assms(3)] agent_home_components [OF assms(4)]
  by (auto simp: path_starts_with_def HOMES_DIR_def PROTECTED_DIR_def)

theorem agent_dirs_injective_witness:
  "agent_home_dir (\<lambda>_. False) ''/p'' ''a'' = Inr ''/p/.kuibysheff/homes/a''
   \<and> \<not> path_starts_with ''/p/.kuibysheff/homes/a'' ''/p/.kuibysheff/homes/b''"
proof -
  have t: "trim [c] = [c]" if "visible c" for c
    by (rule trim_visible) (simp_all add: that)
  have v: "validate_agent_id (\<lambda>_. False) ''a'' = Inr ()" "validate_agent_id (\<lambda>_. False) ''b'' = Inr ()"
    by (simp_all add: validate_agent_id_def t visible_def contains_single contains_str_def
        find_sub.simps is_cont_def is_control_def reserved_char_def is_alphanumeric_def
        is_ascii_alnum_def is_ascii_digit_def is_ascii_lower_def)
  have h: "agent_home_dir (\<lambda>_. False) ''/p'' ''a'' = Inr ''/p/.kuibysheff/homes/a''"
    "agent_home_dir (\<lambda>_. False) ''/p'' ''b'' = Inr ''/p/.kuibysheff/homes/b''"
    by (simp_all add: agent_home_dir_def v kuibysheff_root_def path_join_def is_absolute_def
        dir_defs suffix_def)
  obtain p q where "agent_profile_dir (\<lambda>_. False) ''/p'' ''a'' = Inr p"
    "agent_profile_dir (\<lambda>_. False) ''/p'' ''b'' = Inr q"
    by (simp add: agent_profile_dir_def v)
  from agent_dirs_injective [OF this h] h show ?thesis by simp
qed

end
