(* ===== verification/Registry.thy ===== *)
theory Registry
  imports Rust_Prelude
begin

text \<open>
  The catalogue of built-in tools (\<open>src/tools/registry.rs\<close>): one descriptor for each tool,
  and the lookups that access validation, the prompt and the dispatcher read.
\<close>

datatype builtin_handler_id = Home | LocalTools | Profile

datatype builtin_prompt = StaticArgs string | HomeRun | HomeRead | HomeWrite | WorkspaceReadFile

record tool_descriptor =
  td_name :: string
  td_server :: string
  td_tool :: string
  description :: string
  schema_json :: string
  legacy_default :: bool
  requires_programs :: bool
  handler :: builtin_handler_id
  td_prompt :: builtin_prompt

definition descriptor_matches :: "tool_descriptor \<Rightarrow> string \<Rightarrow> string \<Rightarrow> bool" where
  "descriptor_matches d s t \<longleftrightarrow> td_server d = s \<and> td_tool d = t"

definition home_list_tool :: tool_descriptor where
  \<open>home_list_tool = \<lparr>td_name = ''home.list'', td_server = ''home'', td_tool = ''list'',
     description = ''List files under the agent home directory.'',
     schema_json = ''{"type":"object","properties":{"path":{"type":"string","default":"."}},"additionalProperties":false}'',
     legacy_default = True, requires_programs = False, handler = Home,
     td_prompt = (StaticArgs ''{"path":"."}'')\<rparr>\<close>

definition home_read_tool :: tool_descriptor where
  \<open>home_read_tool = \<lparr>td_name = ''home.read'', td_server = ''home'', td_tool = ''read'',
     description = ''Read a UTF-8 character window from a file under the agent home directory. Use offset/next_offset to read large files in successive windows. There is no whole-file size reject.'',
     schema_json = ''{"type":"object","properties":{"path":{"type":"string"},"offset":{"type":"integer","minimum":0},"max_chars":{"type":"integer","minimum":1}},"required":["path"],"additionalProperties":false}'',
     legacy_default = True, requires_programs = False, handler = Home,
     td_prompt = HomeRead\<rparr>\<close>

definition home_write_tool :: tool_descriptor where
  \<open>home_write_tool = \<lparr>td_name = ''home.write'', td_server = ''home'', td_tool = ''write'',
     description = ''Write a file under the agent home directory. Short text goes in content. BSL, XML, and any text with quotes or longer than a few hundred characters uses body "raw" plus a <<<FILE block after the JSON object. mode is create (default) or append.'',
     schema_json = ''{"type":"object","properties":{"path":{"type":"string"},"content":{"type":"string"},"body":{"type":"string","enum":["raw"]},"mode":{"type":"string","enum":["create","append"]}},"required":["path"],"additionalProperties":false}'',
     legacy_default = True, requires_programs = False, handler = Home,
     td_prompt = HomeWrite\<rparr>\<close>

definition home_run_tool :: tool_descriptor where
  \<open>home_run_tool = \<lparr>td_name = ''home.run'', td_server = ''home'', td_tool = ''run'',
     description = ''Run an allowlisted program in the sandboxed home environment.'',
     schema_json = ''{"type":"object","properties":{"program":{"type":"string"},"args":{"type":"array","items":{"type":"string"}},"timeout_ms":{"type":"integer","minimum":1}},"required":["program"],"additionalProperties":false}'',
     legacy_default = False, requires_programs = True, handler = Home,
     td_prompt = HomeRun\<rparr>\<close>

definition local_search_docs_tool :: tool_descriptor where
  \<open>local_search_docs_tool = \<lparr>td_name = ''local_tools.search_docs'', td_server = ''local_tools'', td_tool = ''search_docs'',
     description = ''Search documentation and source files in the workspace. No silent file-count/depth/size caps; only max_results limits returned hits.'',
     schema_json = ''{"type":"object","properties":{"query":{"type":"string"},"max_results":{"type":"integer","minimum":1,"maximum":100}},"required":["query"],"additionalProperties":false}'',
     legacy_default = True, requires_programs = False, handler = LocalTools,
     td_prompt = (StaticArgs ''{"query":"phrase","max_results":8}'')\<rparr>\<close>

definition local_read_file_tool :: tool_descriptor where
  \<open>local_read_file_tool = \<lparr>td_name = ''local_tools.read_file'', td_server = ''local_tools'', td_tool = ''read_file'',
     description = ''Read a UTF-8 character window from a workspace file (not home). Use offset/next_offset for large files. There is no whole-file size reject.'',
     schema_json = ''{"type":"object","properties":{"path":{"type":"string"},"offset":{"type":"integer","minimum":0},"max_chars":{"type":"integer","minimum":1}},"required":["path"],"additionalProperties":false}'',
     legacy_default = True, requires_programs = False, handler = LocalTools,
     td_prompt = WorkspaceReadFile\<rparr>\<close>

definition profile_list_skill_tool :: tool_descriptor where
  \<open>profile_list_skill_tool = \<lparr>td_name = ''profile.list_skill'', td_server = ''profile'', td_tool = ''list_skill'',
     description = ''List files in one skill folder from the agent profile. Paths are relative to that folder.'',
     schema_json = ''{"type":"object","properties":{"name":{"type":"string"}},"required":["name"],"additionalProperties":false}'',
     legacy_default = False, requires_programs = False, handler = Profile,
     td_prompt = (StaticArgs ''{"name":"research"}'')\<rparr>\<close>

definition profile_read_skill_tool :: tool_descriptor where
  \<open>profile_read_skill_tool = \<lparr>td_name = ''profile.read_skill'', td_server = ''profile'', td_tool = ''read_skill'',
     description = ''Read a UTF-8 character window from skill.md or a companion file in one skill folder. Omit path to read skill.md. Use offset/next_offset for large files.'',
     schema_json = ''{"type":"object","properties":{"name":{"type":"string"},"path":{"type":"string"},"offset":{"type":"integer","minimum":0},"max_chars":{"type":"integer","minimum":1}},"required":["name"],"additionalProperties":false}'',
     legacy_default = False, requires_programs = False, handler = Profile,
     td_prompt = (StaticArgs ''{"name":"research","path":"scripts/example.py","offset":0,"max_chars":50000}'')\<rparr>\<close>

definition BUILTINS :: "tool_descriptor list" where
  "BUILTINS = [home_list_tool, home_read_tool, home_write_tool,
     home_run_tool, local_search_docs_tool, local_read_file_tool,
     profile_list_skill_tool, profile_read_skill_tool]"

lemmas descriptor_defs = home_list_tool_def home_read_tool_def home_write_tool_def home_run_tool_def
  local_search_docs_tool_def local_read_file_tool_def profile_list_skill_tool_def profile_read_skill_tool_def

definition known_builtin_names :: "string list" where
  "known_builtin_names = map td_name BUILTINS"

definition legacy_builtin_names :: "string list" where
  "legacy_builtin_names = map td_name (filter legacy_default BUILTINS)"

definition is_known_builtin :: "string \<Rightarrow> bool" where
  "is_known_builtin name \<longleftrightarrow> list_ex (\<lambda>d. td_name d = name) BUILTINS"

definition is_builtin_server :: "string \<Rightarrow> bool" where
  "is_builtin_server srv \<longleftrightarrow> list_ex (\<lambda>d. td_server d = srv) BUILTINS"

definition lookup :: "string \<Rightarrow> string \<Rightarrow> tool_descriptor option" where
  "lookup srv t = find (\<lambda>d. descriptor_matches d srv t) BUILTINS"

definition lookup_qualified :: "string \<Rightarrow> tool_descriptor option" where
  "lookup_qualified name = find (\<lambda>d. td_name d = name) BUILTINS"

definition handler_for_server :: "string \<Rightarrow> builtin_handler_id option" where
  "handler_for_server srv = map_option handler (find (\<lambda>d. td_server d = srv) BUILTINS)"

section \<open>Consistency of the catalogue\<close>

lemma BUILTINS_cases:
  "d \<in> set BUILTINS \<longleftrightarrow> d = home_list_tool \<or> d = home_read_tool \<or> d = home_write_tool
     \<or> d = home_run_tool \<or> d = local_search_docs_tool \<or> d = local_read_file_tool
     \<or> d = profile_list_skill_tool \<or> d = profile_read_skill_tool"
  by (auto simp: BUILTINS_def)

lemma known_names:
  "known_builtin_names = [''home.list'', ''home.read'', ''home.write'', ''home.run'',
     ''local_tools.search_docs'', ''local_tools.read_file'',
     ''profile.list_skill'', ''profile.read_skill'']"
  by (simp add: known_builtin_names_def BUILTINS_def descriptor_defs)

lemma legacy_names:
  "legacy_builtin_names = [''home.list'', ''home.read'', ''home.write'',
     ''local_tools.search_docs'', ''local_tools.read_file'']"
  by (simp add: legacy_builtin_names_def BUILTINS_def descriptor_defs)

lemma known_builtin_iff: "is_known_builtin n \<longleftrightarrow> n \<in> set known_builtin_names"
  by (auto simp: is_known_builtin_def known_builtin_names_def list_ex_iff)

lemma builtin_server_iff:
  "is_builtin_server s \<longleftrightarrow> s = ''home'' \<or> s = ''local_tools'' \<or> s = ''profile''"
  by (auto simp: is_builtin_server_def BUILTINS_def descriptor_defs)

lemma handler_simps:
  "handler_for_server ''home'' = Some Home"
  "handler_for_server ''local_tools'' = Some LocalTools"
  "handler_for_server ''profile'' = Some Profile"
  by (simp_all add: handler_for_server_def BUILTINS_def descriptor_defs)

lemma handler_None: "handler_for_server s = None \<longleftrightarrow> \<not> is_builtin_server s"
  by (auto simp: handler_for_server_def is_builtin_server_def find_None_iff list_ex_iff)

end
