(* ===== verification/Access.thy ===== *)
theory Access
  imports Project_Paths Registry "HOL-Library.List_Lexorder" "HOL-Library.Char_ord"
begin

text \<open>
  The run's capability types and their checks (\<open>src/access/mod.rs\<close>, lines 33 to 485, and
  \<open>src/access/paths.rs\<close>): qualified tool names, relative path grants, the scopes the file
  tools consult, and the effective tool allowlist. A \<open>BTreeSet\<close> is a set; where its order
  is visible (the advertised names) it is listed in the derived order of the element type.
\<close>

definition FORBIDDEN_INHERIT_ENV :: "string list" where
  "FORBIDDEN_INHERIT_ENV = [''LD_PRELOAD'', ''LD_AUDIT'', ''LD_LIBRARY_PATH'',
     ''DYLD_INSERT_LIBRARIES'', ''DYLD_LIBRARY_PATH'', ''DYLD_FORCE_FLAT_NAMESPACE'']"

definition is_forbidden_inherit_env_key :: "string \<Rightarrow> bool" where
  "is_forbidden_inherit_env_key key \<longleftrightarrow>
     list_ex (\<lambda>forbidden. eq_ignore_ascii_case key forbidden) FORBIDDEN_INHERIT_ENV"

datatype access_mode = Legacy | Strict

datatype path_operation = Read | Write | Execute

definition show_operation :: "path_operation \<Rightarrow> string" where
  "show_operation operation = (case operation of Read \<Rightarrow> ''read'' | Write \<Rightarrow> ''write''
     | Execute \<Rightarrow> ''execute'')"

section \<open>Qualified tool names\<close>

datatype qualified_tool = QualifiedTool (qt_server: string) (qt_tool: string)

text \<open>The derived \<open>Ord\<close>: by server, then by tool, byte by byte.\<close>

instantiation qualified_tool :: linorder
begin

definition less_eq_qualified_tool :: "qualified_tool \<Rightarrow> qualified_tool \<Rightarrow> bool" where
  "less_eq_qualified_tool a b \<longleftrightarrow>
     qt_server a < qt_server b \<or> (qt_server a = qt_server b \<and> qt_tool a \<le> qt_tool b)"

definition less_qualified_tool :: "qualified_tool \<Rightarrow> qualified_tool \<Rightarrow> bool" where
  "less_qualified_tool a b \<longleftrightarrow>
     qt_server a < qt_server b \<or> (qt_server a = qt_server b \<and> qt_tool a < qt_tool b)"

instance
  by standard (auto simp: less_eq_qualified_tool_def less_qualified_tool_def qualified_tool.expand)

end

definition qualified_new :: "string \<Rightarrow> string \<Rightarrow> string + qualified_tool" where
  "qualified_new srv t =
     (if srv = [] \<or> t = []
      then Inl ''qualified tool name must use non-empty `server.tool` segments''
      else if CHR ''.'' \<in> set srv \<or> CHR ''.'' \<in> set t
      then Inl ''qualified tool name segments must not contain `.`''
      else Inr (QualifiedTool srv t))"

definition qualified_parse :: "string \<Rightarrow> string + qualified_tool" where
  "qualified_parse raw = (let trimmed = trim raw in
     case split_once (CHR ''.'') trimmed of
       None \<Rightarrow> Inl (''bare tool name `'' @ trimmed @ ''` is not allowed; use qualified `server.tool`'')
     | Some (srv, t) \<Rightarrow>
         map_err (\<lambda>reason. ''tool name `'' @ trimmed @ ''` is invalid: '' @ reason)
           (qualified_new srv t))"

definition qualified_name :: "qualified_tool \<Rightarrow> string" where
  "qualified_name t = qt_server t @ ''.'' @ qt_tool t"

lemma qualified_new_Inr:
  "qualified_new s t = Inr q \<longleftrightarrow>
     s \<noteq> [] \<and> t \<noteq> [] \<and> CHR ''.'' \<notin> set s \<and> CHR ''.'' \<notin> set t \<and> q = QualifiedTool s t"
  by (auto simp: qualified_new_def)

lemma qualified_parse_Inr:
  "qualified_parse raw = Inr q \<longleftrightarrow>
     trim raw = qualified_name q \<and> qualified_new (qt_server q) (qt_tool q) = Inr q"
proof
  assume "qualified_parse raw = Inr q"
  then obtain s t where "split_once (CHR ''.'') (trim raw) = Some (s, t)" "qualified_new s t = Inr q"
    by (auto simp: qualified_parse_def Let_def map_err_eq_Inr split: option.splits)
  then show "trim raw = qualified_name q \<and> qualified_new (qt_server q) (qt_tool q) = Inr q"
    by (auto simp: qualified_name_def qualified_new_Inr split_once_Some)
next
  assume a: "trim raw = qualified_name q \<and> qualified_new (qt_server q) (qt_tool q) = Inr q"
  then have "split_once (CHR ''.'') (trim raw) = Some (qt_server q, qt_tool q)"
    by (simp add: split_once_Some qualified_name_def qualified_new_Inr)
  with a show "qualified_parse raw = Inr q"
    by (simp add: qualified_parse_def)
qed

lemma qualified_inj:
  assumes "qualified_new (qt_server a) (qt_tool a) = Inr a"
    and "qualified_new (qt_server b) (qt_tool b) = Inr b" and "qualified_name a = qualified_name b"
  shows "a = b"
proof -
  have "split_once (CHR ''.'') (qualified_name a) = Some (qt_server a, qt_tool a)"
    "split_once (CHR ''.'') (qualified_name b) = Some (qt_server b, qt_tool b)"
    using assms(1,2) by (simp_all add: split_once_Some qualified_name_def qualified_new_Inr)
  with assms(3) show ?thesis
    by (simp add: qualified_tool.expand)
qed

text \<open>
  Parsing a qualified tool name and printing it again gives the trimmed input, the printed
  name parses to the same tool, and two inputs name the same tool exactly when they differ
  only in surrounding blanks.
\<close>

theorem qualified_name_roundtrip:
  assumes "qualified_parse raw = Inr q"
  shows "qualified_name q = trim raw \<and> qualified_parse (qualified_name q) = Inr q
    \<and> (qualified_parse other = Inr q \<longleftrightarrow> trim other = trim raw)"
  using assms by (auto simp: qualified_parse_Inr trim_trim) (metis trim_trim)

lemma qualified_parse_plain:
  assumes "visible (hd s)" and "visible (last t)" and "qualified_new s t = Inr q"
  shows "qualified_parse (s @ ''.'' @ t) = Inr q"
proof -
  have "s \<noteq> []" "t \<noteq> []" "q = QualifiedTool s t"
    using assms(3) by (auto simp: qualified_new_Inr)
  then have "trim (s @ ''.'' @ t) = s @ ''.'' @ t"
    using assms by (intro trim_visible) auto
  then show ?thesis
    using assms(3) by (auto simp: qualified_parse_Inr qualified_name_def qualified_new_Inr)
qed

lemmas parse_home_read = qualified_parse_plain [of "''home''" "''read''", simplified]

theorem qualified_name_roundtrip_witness:
  "qualified_parse ''home.read'' = Inr (QualifiedTool ''home'' ''read'')
   \<and> qualified_name (QualifiedTool ''home'' ''read'') = trim ''home.read''"
proof -
  have p: "qualified_parse ''home.read'' = Inr (QualifiedTool ''home'' ''read'')"
    using parse_home_read by (simp add: visible_def qualified_new_def)
  show ?thesis using p qualified_name_roundtrip [OF p] by blast
qed

section \<open>Relative grants\<close>

record relative_grant =
  grant_components :: "string list"

text \<open>The loop over \<open>Path::components\<close> that \<open>RelativeGrant::parse\<close> and
  \<open>relative_components\<close> share up to the wording of the errors.\<close>

fun collect_normal :: "string \<Rightarrow> string \<Rightarrow> string \<Rightarrow> component list \<Rightarrow> string + string list" where
  "collect_normal empty_err parent_err root_err [] = Inr []"
| "collect_normal empty_err parent_err root_err (c # cs) = (case c of
     Normal part \<Rightarrow>
       (if part = [] then Inl empty_err
        else rbind (collect_normal empty_err parent_err root_err cs) (\<lambda>rest. Inr (part # rest)))
   | CurDir \<Rightarrow> collect_normal empty_err parent_err root_err cs
   | ParentDir \<Rightarrow> Inl parent_err
   | RootDir \<Rightarrow> Inl root_err)"

definition grant_parse :: "string \<Rightarrow> string + relative_grant" where
  "grant_parse raw = (let trimmed = trim raw in
     if trimmed = [] \<or> trimmed = ''.'' then Inr \<lparr>grant_components = []\<rparr>
     else if is_absolute trimmed then Inl (''grant `'' @ trimmed @ ''` must be a relative path'')
     else rbind (collect_normal (''grant `'' @ trimmed @ ''` contains an empty segment'')
              (''grant `'' @ trimmed @ ''` must not contain `..`'')
              (''grant `'' @ trimmed @ ''` must be a relative path'') (components trimmed))
            (\<lambda>parts. Inr \<lparr>grant_components = parts\<rparr>))"

definition grant_as_path :: "relative_grant \<Rightarrow> path" where
  "grant_as_path g = (if grant_components g = [] then ''.''
     else foldl path_join [] (grant_components g))"

definition is_within_root :: "path \<Rightarrow> path \<Rightarrow> bool" where
  "is_within_root root candidate \<longleftrightarrow> path_starts_with candidate root"

definition relative_components :: "path \<Rightarrow> string + string list" where
  "relative_components p =
     (if p = [] \<or> components p = [CurDir] then Inr []
      else if is_absolute p then Inl (''path `'' @ p @ ''` must be relative'')
      else collect_normal (''path `'' @ p @ ''` contains an empty segment'')
             (''path `'' @ p @ ''` must not contain `..`'') (''path `'' @ p @ ''` must be relative'')
             (components p))"

definition grant_covers :: "relative_grant \<Rightarrow> string list \<Rightarrow> bool" where
  "grant_covers grant relative =
     (let grant_parts = grant_components grant in
      if grant_parts = [] then True
      else if length relative < length grant_parts then False
      else take (length grant_parts) relative = grant_parts)"

definition any_grant_covers :: "relative_grant list \<Rightarrow> string list \<Rightarrow> bool" where
  "any_grant_covers grants relative = list_ex (\<lambda>grant. grant_covers grant relative) grants"

lemma collect_normal_Inr:
  "[] \<notin> {s. Normal s \<in> set cs} \<Longrightarrow> collect_normal e1 e2 e3 cs = Inr ns \<longleftrightarrow>
     filter (\<lambda>c. c \<noteq> CurDir) cs = map Normal ns"
proof (induction cs arbitrary: ns)
  case (Cons c cs)
  then have IH: "collect_normal e1 e2 e3 cs = Inr ms \<longleftrightarrow> filter (\<lambda>c. c \<noteq> CurDir) cs = map Normal ms"
    for ms by simp
  show ?case
    using Cons.prems by (cases c; cases ns) (auto simp: IH rbind_eq_Inr)
qed auto

lemma relative_components_Inr:
  "relative_components p = Inr ns \<longleftrightarrow>
     \<not> is_absolute p \<and> filter (\<lambda>c. c \<noteq> CurDir) (components p) = map Normal ns"
proof -
  have "[] \<notin> {s. Normal s \<in> set (components p)}"
    using normal_component by blast
  note cn = collect_normal_Inr [OF this]
  have "\<not> is_absolute p" if "components p = [CurDir]"
    using rootdir_component [of p] that by simp
  then show ?thesis
    by (auto simp: relative_components_def cn) (simp add: is_absolute_def)
qed

lemma grant_covers_prefix: "grant_covers g rel \<longleftrightarrow> prefix (grant_components g) rel"
  by (auto simp: grant_covers_def Let_def prefix_def) (metis append_take_drop_id)

section \<open>Scopes\<close>

record path_grant_scope =
  scope_mode :: access_mode
  grants :: "relative_grant list"

definition scope_legacy :: path_grant_scope where
  "scope_legacy = \<lparr>scope_mode = Legacy, grants = []\<rparr>"

definition scope_strict :: "relative_grant list \<Rightarrow> path_grant_scope" where
  "scope_strict gs = \<lparr>scope_mode = Strict, grants = gs\<rparr>"

definition scope_deny_all :: path_grant_scope where
  "scope_deny_all = scope_strict []"

definition display_relative :: "path \<Rightarrow> string" where
  "display_relative p = (if p = [] then ''.'' else p)"

definition allows_relative :: "path_grant_scope \<Rightarrow> path \<Rightarrow> path_operation \<Rightarrow> string + unit" where
  "allows_relative scope relative operation =
     rbind (relative_components relative) (\<lambda>parts.
       if scope_mode scope = Legacy then Inr ()
       else if any_grant_covers (grants scope) parts then Inr ()
       else Inl (show_operation operation @ '' denied for `'' @ display_relative relative
                 @ ''` by access policy''))"

text \<open>
  What a file tool may assume of the gate in front of it: an admitted path is relative and
  has no parent segment. Then joining it below any root stays below that root.
\<close>

locale path_gate =
  fixes admits :: "path \<Rightarrow> bool"
  assumes admits_relative: "admits p \<Longrightarrow> \<not> is_absolute p"
    and admits_no_parent: "admits p \<Longrightarrow> \<not> path_has_parent_component p"
begin

lemma admitted_normalizes:
  assumes "admits p" and "root \<noteq> []"
  obtains ns where "filter (\<lambda>c. c \<noteq> CurDir) (components p) = map Normal ns"
    and "normalize_lexically (path_join root p) = normalize_lexically root @ map Normal ns"
proof -
  obtain ns where ns: "filter (\<lambda>c. c \<noteq> CurDir) (components p) = map Normal ns"
    using relative_normals admits_relative admits_no_parent assms(1) by blast
  then have "components (path_join root p) = components root @ map Normal ns"
    using components_join_relative admits_relative assms by metis
  then have "normalize_lexically (path_join root p) = normalize_lexically root @ map Normal ns"
    unfolding normalize_lexically_def by (simp only: normalize_append)
  with ns show thesis by (rule that)
qed

lemma admitted_stays_within:
  assumes "admits p" and "root \<noteq> []"
  shows "path_is_within root (path_join root p)"
proof -
  obtain ns where "normalize_lexically (path_join root p) = normalize_lexically root @ map Normal ns"
    using admitted_normalizes [OF assms] .
  then show ?thesis by (simp add: path_is_within_def)
qed

end

lemma normals_no_parent:
  "filter (\<lambda>c. c \<noteq> CurDir) cs = map Normal ns \<Longrightarrow> ParentDir \<notin> set cs"
proof
  assume eq: "filter (\<lambda>c. c \<noteq> CurDir) cs = map Normal ns" and "ParentDir \<in> set cs"
  then have "ParentDir \<in> set (filter (\<lambda>c. c \<noteq> CurDir) cs)" unfolding set_filter by blast
  then show False unfolding eq by auto
qed

interpretation scope_gate: path_gate "\<lambda>p. is_ok (allows_relative scope p operation)"
  for scope operation
  by unfold_locales
    (auto simp: allows_relative_def result_iffs relative_components_Inr
      path_has_parent_component_def dest: normals_no_parent)

text \<open>
  A path that a scope admits stays lexically below whatever root it is joined to, and in
  strict mode it lies below one of the declared grants: there is a grant whose components,
  appended to the root's, are a prefix of the normalized path's.
\<close>

theorem scope_admits_confined:
  assumes "allows_relative scope p operation = Inr ()" and "root \<noteq> []"
  shows "path_is_within root (path_join root p)
    \<and> (scope_mode scope = Strict \<longrightarrow> (\<exists>g\<in>set (grants scope).
         prefix (normalize_lexically root @ map Normal (grant_components g))
           (normalize_lexically (path_join root p))))"
proof -
  have ok: "is_ok (allows_relative scope p operation)"
    using assms(1) by simp
  obtain ns where ns: "filter (\<lambda>c. c \<noteq> CurDir) (components p) = map Normal ns"
    and norm: "normalize_lexically (path_join root p) = normalize_lexically root @ map Normal ns"
    using scope_gate.admitted_normalizes [OF ok assms(2)] .
  have "relative_components p = Inr ns"
    using ns scope_gate.admits_relative [OF ok] by (simp add: relative_components_Inr)
  then have "\<exists>g\<in>set (grants scope). prefix (grant_components g) ns" if "scope_mode scope = Strict"
    using assms(1) that
    by (simp add: allows_relative_def any_grant_covers_def list_ex_iff grant_covers_prefix
        split: if_splits)
  then show ?thesis
    using scope_gate.admitted_stays_within [OF ok assms(2)] norm
    by (auto intro: map_mono_prefix)
qed

theorem scope_admits_confined_witness:
  "path_is_within ''/home/a'' (path_join ''/home/a'' ''out/x.txt'')
   \<and> allows_relative (scope_strict [\<lparr>grant_components = [''out'']\<rparr>]) ''outside/x'' Read \<noteq> Inr ()"
proof -
  have a: "allows_relative (scope_strict [\<lparr>grant_components = [''out'']\<rparr>]) ''out/x.txt'' Write = Inr ()"
    by (simp add: allows_relative_def relative_components_def components_def is_absolute_def
        part_component_def scope_strict_def any_grant_covers_def grant_covers_def)
  have "allows_relative (scope_strict [\<lparr>grant_components = [''out'']\<rparr>]) ''outside/x'' Read \<noteq> Inr ()"
    by (simp add: allows_relative_def relative_components_def components_def is_absolute_def
        part_component_def scope_strict_def any_grant_covers_def grant_covers_def)
  then show ?thesis
    using scope_admits_confined [OF a, of "''/home/a''"] by simp
qed

end
