(* ===== verification/Event_Mcp.thy ===== *)
theory Event_Mcp
  imports Access
begin

text \<open>
  Event-MCP middleware (\<open>src/event_mcp/\<close>): handlers that may pass, replace or reject the
  payload of a stage, their configuration, and the dispatcher that runs a stage's chain.
  The MCP transport, the JSON codec and the typed decoding of an outcome are parameters
  (\<open>event_env\<close>); an \<open>McpError\<close> is kept by its display text.
\<close>

section \<open>Stages, envelopes and outcomes\<close>

datatype event_stage = ContextBeforeModel | ModelAfterResponse | RunBeforeOutput

definition stage_str :: "event_stage \<Rightarrow> string" where
  "stage_str ev = (case ev of ContextBeforeModel \<Rightarrow> ''context.before_model''
     | ModelAfterResponse \<Rightarrow> ''model.after_response'' | RunBeforeOutput \<Rightarrow> ''run.before_output'')"

record event_envelope =
  spec_version :: string
  event_id :: string
  env_event :: event_stage
  env_iteration :: "u32 option"
  env_payload :: json

definition envelope_new :: "string \<Rightarrow> event_stage \<Rightarrow> u32 option \<Rightarrow> json \<Rightarrow> event_envelope" where
  "envelope_new i ev it p = \<lparr>spec_version = ''1'', event_id = i, env_event = ev,
     env_iteration = it, env_payload = p\<rparr>"

text \<open>The derived \<open>Serialize\<close>: the fields in order, an absent iteration left out.\<close>

definition envelope_json :: "event_envelope \<Rightarrow> json" where
  "envelope_json e = JObject
     ([(''spec_version'', JString (spec_version e)), (''event_id'', JString (event_id e)),
       (''event'', JString (stage_str (env_event e)))]
      @ (case env_iteration e of None \<Rightarrow> [] | Some n \<Rightarrow> [(''iteration'', JNumber (show_nat (unat n)))])
      @ [(''payload'', env_payload e)])"

datatype event_action = Pass | Replace | Reject

record event_outcome =
  action :: event_action
  payload :: "json option"
  reason :: "string option"

datatype event_mcp_error =
    Configuration string
  | UnknownTarget string string
  | PayloadTooLarge string nat nat
  | OutcomeTooLarge string nat nat
  | Timeout string u64
  | Cancelled event_stage
  | Mcp string string
  | InvalidOutcome string string
  | InvalidPayload event_stage string
  | Rejected event_stage string string

section \<open>Configuration\<close>

datatype event_failure_policy = ContinueOnError | AbortOnError

record event_handler_config =
  hc_id :: string
  hc_target :: string
  hc_timeout_ms :: u64
  hc_on_error :: event_failure_policy

record event_pipeline_config =
  handlers :: "event_handler_config list"

text \<open>The map from stages to pipelines, as its entries in the order of the stages.\<close>

record event_mcp_config =
  events :: "(event_stage \<times> event_pipeline_config) list"
  max_payload_bytes :: nat
  max_outcome_bytes :: nat

definition event_config_default :: event_mcp_config where
  "event_config_default = \<lparr>events = [], max_payload_bytes = 1048576, max_outcome_bytes = 1048576\<rparr>"

fun validate_handlers :: "event_stage \<Rightarrow> string list \<Rightarrow> event_handler_config list \<Rightarrow> string + unit" where
  "validate_handlers ev ids [] = Inr ()"
| "validate_handlers ev ids (h # hs) = (let i = trim (hc_id h) in
     if i = [] then Inl (''event_mcp event `'' @ stage_str ev @ ''` has an empty handler id'')
     else if i \<in> set ids
     then Inl (''event_mcp event `'' @ stage_str ev @ ''` has duplicate handler id `'' @ i @ ''`'')
     else if trim (hc_target h) = []
     then Inl (''event_mcp handler `'' @ i @ ''` for event `'' @ stage_str ev @ ''` has an empty target'')
     else if hc_timeout_ms h = 0
     then Inl (''event_mcp handler `'' @ i @ ''` for event `'' @ stage_str ev
               @ ''` must have timeout_ms greater than zero'')
     else validate_handlers ev (i # ids) hs)"

definition validate_shape :: "event_mcp_config \<Rightarrow> string + unit" where
  "validate_shape c =
     (if max_payload_bytes c = 0 then Inl ''event_mcp.max_payload_bytes must be greater than zero''
      else if max_outcome_bytes c = 0 then Inl ''event_mcp.max_outcome_bytes must be greater than zero''
      else try_all (\<lambda>(ev, pipeline). validate_handlers ev [] (handlers pipeline)) (events c))"

section \<open>The dispatcher\<close>

record compiled_handler =
  h_id :: string
  h_server :: string
  h_tool :: string
  h_target :: string
  h_timeout_ms :: u64
  h_on_error :: event_failure_policy

definition compile_handler ::
  "event_stage \<Rightarrow> string list \<Rightarrow> event_handler_config \<Rightarrow> event_mcp_error + compiled_handler" where
  "compile_handler ev available h = (let target = trim (hc_target h) in
     rbind (map_err (\<lambda>why. Configuration (''event_mcp handler `'' @ hc_id h @ ''` for event `''
              @ stage_str ev @ ''` has invalid target `'' @ target @ ''`: '' @ why))
            (qualified_parse target)) (\<lambda>q.
     if target \<notin> set available then Inl (UnknownTarget (hc_id h) target)
     else Inr \<lparr>h_id = trim (hc_id h), h_server = qt_server q, h_tool = qt_tool q,
               h_target = target, h_timeout_ms = hc_timeout_ms h, h_on_error = hc_on_error h\<rparr>))"

record dispatcher =
  chains :: "(event_stage \<times> compiled_handler list) list"
  d_max_payload_bytes :: nat
  d_max_outcome_bytes :: nat

definition dispatcher_new :: "event_mcp_config \<Rightarrow> string list \<Rightarrow> event_mcp_error + dispatcher" where
  "dispatcher_new c available =
     rbind (map_err Configuration (validate_shape c)) (\<lambda>_.
     rbind (try_map (\<lambda>(ev, pipeline).
              rbind (try_map (compile_handler ev available) (handlers pipeline)) (\<lambda>chain. Inr (ev, chain)))
            (events c)) (\<lambda>cs.
       Inr \<lparr>chains = cs, d_max_payload_bytes = max_payload_bytes c,
            d_max_outcome_bytes = max_outcome_bytes c\<rparr>))"

text \<open>
  One handler call races the cancellation token and the timeout. What a handler sees and what
  is written to the audit log is part of the world \<open>'w\<close>; asking the token or the clock
  may let it advance. \<open>dispatch\<close> also threads the event counter.
\<close>

datatype handler_race = RaceCancelled | RaceTimeout | RaceError string | RaceDone json

record audit =
  a_event :: event_stage
  a_handler :: string
  a_target :: string
  a_ok :: bool
  a_action :: "event_action option"
  a_input_bytes :: "nat option"
  a_output_bytes :: "nat option"
  a_duration_ms :: nat
  a_error :: "event_mcp_error option"

record 'w event_env =
  json_text :: "json \<Rightarrow> string"
  json_parse :: "string \<Rightarrow> string + json"
  decode_outcome :: "json \<Rightarrow> string + event_outcome"
  token_cancelled :: "'w \<Rightarrow> bool \<times> 'w"
  clock_ns :: "'w \<Rightarrow> nat \<times> 'w"
  invoke :: "string \<Rightarrow> string \<Rightarrow> json \<Rightarrow> u64 \<Rightarrow> 'w \<Rightarrow> handler_race \<times> 'w"
  audit_log :: "audit \<Rightarrow> 'w \<Rightarrow> 'w"

definition text_items :: "json list \<Rightarrow> string list" where
  "text_items = List.map_filter (\<lambda>item.
     if Option.bind (json_get item ''type'') json_as_str = Some ''text''
     then Option.bind (json_get item ''text'') json_as_str else None)"

definition outcome_value :: "(string \<Rightarrow> string + json) \<Rightarrow> string \<Rightarrow> json \<Rightarrow> event_mcp_error + json" where
  "outcome_value parse hid response = (case json_get response ''structuredContent'' of
     Some structured \<Rightarrow> Inr structured
   | None \<Rightarrow> (case Option.bind (json_get response ''content'') json_as_array of
       None \<Rightarrow> Inl (InvalidOutcome hid ''expected structuredContent or one JSON text content item'')
     | Some items \<Rightarrow> (case text_items items of
         [] \<Rightarrow> Inl (InvalidOutcome hid ''compatibility result has no text content'')
       | [text] \<Rightarrow> map_err (\<lambda>why. InvalidOutcome hid (''text content is not one JSON object: '' @ why))
                    (parse text)
       | _ \<Rightarrow> Inl (InvalidOutcome hid ''compatibility result must contain exactly one text item''))))"

definition parse_outcome :: "('w, 'x) event_env_scheme \<Rightarrow> string \<Rightarrow> json \<Rightarrow> event_mcp_error + event_outcome" where
  "parse_outcome E hid response =
     (if Option.bind (json_get response ''isError'') json_as_bool = Some True
      then Inl (InvalidOutcome hid ''MCP CallToolResult set isError=true'')
      else rbind (outcome_value (json_parse E) hid response) (\<lambda>v.
             map_err (InvalidOutcome hid) (decode_outcome E v)))"

definition validate_outcome ::
  "event_stage \<Rightarrow> compiled_handler \<Rightarrow> event_outcome \<Rightarrow> event_mcp_error + json option" where
  "validate_outcome ev h out = (case action out of
     Pass \<Rightarrow> (if payload out = None \<and> reason out = None then Inr None
              else Inl (InvalidOutcome (h_id h) ''pass must not include payload or reason''))
   | Replace \<Rightarrow> (if reason out = None
        then (case payload out of Some p \<Rightarrow> Inr (Some p)
              | None \<Rightarrow> Inl (InvalidOutcome (h_id h) ''replace requires payload''))
        else Inl (InvalidOutcome (h_id h) ''replace must include payload and must not include reason''))
   | Reject \<Rightarrow> (if payload out = None
        then Inl (Rejected ev (h_id h) (case reason out of
               Some value \<Rightarrow> (if is_blank value then ''handler rejected the event'' else value)
             | None \<Rightarrow> ''handler rejected the event''))
        else Inl (InvalidOutcome (h_id h) ''reject must not include payload'')))"

definition envelope_text :: "('w, 'x) event_env_scheme \<Rightarrow> event_stage \<Rightarrow> u32 option \<Rightarrow> u64 \<Rightarrow> json \<Rightarrow> string" where
  "envelope_text E ev it n p = json_text E (envelope_json
     (envelope_new (stage_str ev @ '':'' @ show_nat (unat n)) ev it p))"

definition invoke_handler ::
  "('w, 'x) event_env_scheme \<Rightarrow> dispatcher \<Rightarrow> event_stage \<Rightarrow> compiled_handler \<Rightarrow> json \<Rightarrow> u32 option
     \<Rightarrow> u64 \<times> 'w \<Rightarrow> (event_mcp_error + event_outcome \<times> nat \<times> nat \<times> nat) \<times> (u64 \<times> 'w)" where
  "invoke_handler E D ev h p it st = (let (n, w) = st; n' = n + 1;
     encoded = envelope_text E ev it n p; input_bytes = length encoded in
     if d_max_payload_bytes D < input_bytes
     then (Inl (PayloadTooLarge (h_id h) input_bytes (d_max_payload_bytes D)), (n', w))
     else (case json_parse E encoded of
       Inl why \<Rightarrow> (Inl (InvalidPayload ev (''failed to rehydrate event envelope: '' @ why)), (n', w))
     | Inr args \<Rightarrow>
        (let (started, w) = clock_ns E w; (stop, w) = token_cancelled E w in
         if stop then (Inl (Cancelled ev), (n', w))
         else (case invoke E (h_server h) (h_tool h) args (h_timeout_ms h) w of
           (RaceCancelled, w) \<Rightarrow> (Inl (Cancelled ev), (n', w))
         | (RaceTimeout, w) \<Rightarrow> (Inl (Timeout (h_id h) (h_timeout_ms h)), (n', w))
         | (RaceError source, w) \<Rightarrow> (Inl (Mcp (h_id h) source), (n', w))
         | (RaceDone response, w) \<Rightarrow>
             (let outcome_bytes = length (json_text E response) in
              if d_max_outcome_bytes D < outcome_bytes
              then (Inl (OutcomeTooLarge (h_id h) outcome_bytes (d_max_outcome_bytes D)), (n', w))
              else (case parse_outcome E (h_id h) response of
                  Inl e \<Rightarrow> (Inl e, (n', w))
                | Inr out \<Rightarrow> (let (ended, w) = clock_ns E w in
                    (Inr (out, input_bytes, outcome_bytes, (ended - started) div 1000000), (n', w)))))))))"

definition is_rejected :: "event_mcp_error \<Rightarrow> bool" where
  "is_rejected e = (case e of Rejected _ _ _ \<Rightarrow> True | _ \<Rightarrow> False)"

definition is_cancelled_error :: "event_mcp_error \<Rightarrow> bool" where
  "is_cancelled_error e = (case e of Cancelled _ \<Rightarrow> True | _ \<Rightarrow> False)"

definition audit_entry ::
  "event_stage \<Rightarrow> compiled_handler \<Rightarrow> event_action option \<Rightarrow> (nat \<times> nat) option \<Rightarrow> nat
     \<Rightarrow> event_mcp_error option \<Rightarrow> audit" where
  "audit_entry ev h act bytes ms err = \<lparr>a_event = ev, a_handler = h_id h, a_target = h_target h,
     a_ok = (err = None), a_action = act, a_input_bytes = map_option fst bytes,
     a_output_bytes = map_option snd bytes, a_duration_ms = ms, a_error = err\<rparr>"

text \<open>One round of the loop in \<open>dispatch\<close>: the error that ends the chain, or the payload
  the next handler gets.\<close>

definition handle_one ::
  "('w, 'x) event_env_scheme \<Rightarrow> dispatcher \<Rightarrow> event_stage \<Rightarrow> u32 option \<Rightarrow> compiled_handler \<Rightarrow> json
     \<Rightarrow> u64 \<times> 'w \<Rightarrow> (event_mcp_error + json) \<times> (u64 \<times> 'w)" where
  "handle_one E D ev it h current st =
     (let (started, w0) = clock_ns E (snd st) in
      case invoke_handler E D ev h current it (fst st, w0) of
        (Inr (out, inb, outb, ms), (n, w)) \<Rightarrow>
          (case validate_outcome ev h out of
             Inl e \<Rightarrow>
               (let w' = audit_log E (audit_entry ev h (Some (action out)) (Some (inb, outb)) ms (Some e)) w in
                if is_rejected e \<or> h_on_error h = AbortOnError then (Inl e, (n, w'))
                else (Inr current, (n, w')))
           | Inr repl \<Rightarrow>
               (let w' = audit_log E (audit_entry ev h (Some (action out)) (Some (inb, outb)) ms None) w in
                (Inr (case repl of Some r \<Rightarrow> r | None \<Rightarrow> current), (n, w'))))
      | (Inl e, (n, w)) \<Rightarrow>
          (let (ended, w1) = clock_ns E w;
               w' = audit_log E (audit_entry ev h None None ((ended - started) div 1000000) (Some e)) w1 in
           if is_cancelled_error e \<or> h_on_error h = AbortOnError then (Inl e, (n, w'))
           else (Inr current, (n, w'))))"

fun dispatch_chain ::
  "('w, 'x) event_env_scheme \<Rightarrow> dispatcher \<Rightarrow> event_stage \<Rightarrow> u32 option \<Rightarrow> compiled_handler list \<Rightarrow> json
     \<Rightarrow> u64 \<times> 'w \<Rightarrow> (event_mcp_error + json) \<times> (u64 \<times> 'w)" where
  "dispatch_chain E D ev it [] current st = (Inr current, st)"
| "dispatch_chain E D ev it (h # hs) current st =
     (case handle_one E D ev it h current st of
        (Inl e, st') \<Rightarrow> (Inl e, st')
      | (Inr next_payload, st') \<Rightarrow> dispatch_chain E D ev it hs next_payload st')"

definition has_handlers :: "dispatcher \<Rightarrow> event_stage \<Rightarrow> bool" where
  "has_handlers D ev = (case map_of (chains D) ev of None \<Rightarrow> False | Some hs \<Rightarrow> hs \<noteq> [])"

definition dispatch ::
  "('w, 'x) event_env_scheme \<Rightarrow> dispatcher \<Rightarrow> event_stage \<Rightarrow> json \<Rightarrow> u32 option \<Rightarrow> u64 \<times> 'w
     \<Rightarrow> (event_mcp_error + json) \<times> (u64 \<times> 'w)" where
  "dispatch E D ev p it st = (case map_of (chains D) ev of
     None \<Rightarrow> (Inr p, st) | Some hs \<Rightarrow> dispatch_chain E D ev it hs p st)"

definition noop_has_handlers :: "event_stage \<Rightarrow> bool" where
  "noop_has_handlers ev = False"

definition noop_dispatch :: "event_stage \<Rightarrow> json \<Rightarrow> u32 option \<Rightarrow> 's \<Rightarrow> (event_mcp_error + json) \<times> 's" where
  "noop_dispatch ev p it s = (Inr p, s)"

section \<open>The engine's view of a pipeline\<close>

text \<open>
  \<open>PipelineEvents\<close>: a stage without handlers passes its payload and the world through.
  So asking \<open>has_handlers\<close> first, as the engine does, only saves work, and a sequence
  of stages can be run as if every stage were dispatched.
\<close>

locale pipeline_events =
  fixes has :: "event_stage \<Rightarrow> bool"
    and run :: "event_stage \<Rightarrow> json \<Rightarrow> u32 option \<Rightarrow> 's \<Rightarrow> (event_mcp_error + json) \<times> 's"
  assumes quiet: "\<not> has ev \<Longrightarrow> run ev p it s = (Inr p, s)"
begin

definition guarded :: "event_stage \<Rightarrow> json \<Rightarrow> u32 option \<Rightarrow> 's \<Rightarrow> (event_mcp_error + json) \<times> 's" where
  "guarded ev p it s = (if has ev then run ev p it s else (Inr p, s))"

lemma guarded_run: "guarded ev p it s = run ev p it s"
  by (simp add: guarded_def quiet)

end

lemma dispatch_quiet: "\<not> has_handlers D ev \<Longrightarrow> dispatch E D ev p it s = (Inr p, s)"
  by (auto simp: has_handlers_def dispatch_def split: option.splits)

interpretation dispatched: pipeline_events "has_handlers D" "dispatch E D" for E D
  by unfold_locales (rule dispatch_quiet)

interpretation noop: pipeline_events noop_has_handlers noop_dispatch
  by unfold_locales (simp add: noop_dispatch_def)

section \<open>Configuration\<close>

lemma validate_handlers_ok:
  "validate_handlers ev ids hs = Inr () \<longleftrightarrow>
     distinct (map (trim \<circ> hc_id) hs) \<and> set (map (trim \<circ> hc_id) hs) \<inter> set ids = {}
     \<and> (\<forall>h\<in>set hs. trim (hc_id h) \<noteq> [] \<and> trim (hc_target h) \<noteq> [] \<and> hc_timeout_ms h \<noteq> 0)"
  by (induction ev ids hs rule: validate_handlers.induct) (auto simp: Let_def)

lemma compile_handler_Inr:
  "compile_handler ev available h = Inr c \<Longrightarrow>
     h_target c \<in> set available \<and> qualified_parse (h_target c) = Inr (QualifiedTool (h_server c) (h_tool c))
     \<and> h_id c = trim (hc_id h) \<and> h_timeout_ms c = hc_timeout_ms h \<and> h_on_error c = hc_on_error h
     \<and> h_target c = trim (hc_target h)"
  by (auto simp: compile_handler_def Let_def rbind_eq_Inr map_err_eq_Inr split: if_splits)

lemma compiled_ids:
  "list_all2 (\<lambda>h c. compile_handler ev available h = Inr c) hs cs \<Longrightarrow>
     map h_id cs = map (trim \<circ> hc_id) hs"
  by (induction rule: list_all2_induct) (auto dest: compile_handler_Inr)

lemma compiled_handler_from:
  "list_all2 (\<lambda>h c. compile_handler ev available h = Inr c) hs cs \<Longrightarrow> c \<in> set cs \<Longrightarrow>
     \<exists>h\<in>set hs. compile_handler ev available h = Inr c"
  by (induction rule: list_all2_induct) auto

text \<open>
  A dispatcher that compiles only ever calls tools that MCP discovery reported: in each of
  its chains the handlers keep their declared order, have distinct non-blank ids and a positive
  timeout, and each target is a discovered tool that splits into its server and tool.
\<close>

theorem compiled_chains_valid:
  assumes "dispatcher_new c available = Inr D" and "(ev, chain) \<in> set (chains D)"
  shows "\<exists>pipeline. (ev, pipeline) \<in> set (events c)
    \<and> map h_id chain = map (trim \<circ> hc_id) (handlers pipeline) \<and> distinct (map h_id chain)
    \<and> (\<forall>h\<in>set chain. h_id h \<noteq> [] \<and> h_timeout_ms h \<noteq> 0 \<and> h_target h \<in> set available
         \<and> h_target h = h_server h @ ''.'' @ h_tool h)"
proof -
  have shape: "validate_shape c = Inr ()"
    and cs: "list_all2 (\<lambda>x r. \<exists>chain. list_all2 (\<lambda>h k. compile_handler (fst x) available h = Inr k)
        (handlers (snd x)) chain \<and> (fst x, chain) = r) (events c) (chains D)"
    using assms(1) by (auto simp: dispatcher_new_def rbind_eq_Inr map_err_eq_Inr try_map_ok
        split_beta)
  have from_entry: "\<exists>pipeline. (ev, pipeline) \<in> set es \<and> list_all2 (\<lambda>h c. compile_handler ev available h = Inr c)
        (handlers pipeline) chain"
    if "list_all2 (\<lambda>x r. \<exists>chain. list_all2 (\<lambda>h k. compile_handler (fst x) available h = Inr k)
        (handlers (snd x)) chain \<and> (fst x, chain) = r) es ds" and "(ev, chain) \<in> set ds" for es ds
    using that by (induction rule: list_all2_induct) fastforce+
  obtain pipeline where pl: "(ev, pipeline) \<in> set (events c)"
    and chain: "list_all2 (\<lambda>h c. compile_handler ev available h = Inr c) (handlers pipeline) chain"
    using from_entry [OF cs assms(2)] by blast
  have ok: "validate_handlers ev [] (handlers pipeline) = Inr ()"
    using shape pl by (auto simp: validate_shape_def try_all_ok split: if_splits)
  have each: "h_id h \<noteq> [] \<and> h_timeout_ms h \<noteq> 0 \<and> h_target h \<in> set available
      \<and> h_target h = h_server h @ ''.'' @ h_tool h" if hin: "h \<in> set chain" for h
  proof -
    obtain k where k: "k \<in> set (handlers pipeline)" "compile_handler ev available k = Inr h"
      using compiled_handler_from [OF chain hin] by blast
    have "trim (h_target h) = h_target h"
      using compile_handler_Inr [OF k(2)] by (metis trim_trim)
    then show ?thesis
      using compile_handler_Inr [OF k(2)] ok k(1)
      by (auto simp: validate_handlers_ok qualified_parse_Inr qualified_name_def)
  qed
  have "distinct (map h_id chain)"
    using ok compiled_ids [OF chain] by (simp add: validate_handlers_ok)
  with pl compiled_ids [OF chain] each show ?thesis by blast
qed

definition sample_event_config :: event_mcp_config where
  "sample_event_config = event_config_default\<lparr>events := [(ModelAfterResponse,
     \<lparr>handlers = [\<lparr>hc_id = ''redact'', hc_target = ''alpha.redact'', hc_timeout_ms = 5000,
        hc_on_error = AbortOnError\<rparr>]\<rparr>)]\<rparr>"

lemma sample_dispatcher:
  "dispatcher_new sample_event_config [''alpha.redact''] = Inr
     \<lparr>chains = [(ModelAfterResponse, [\<lparr>h_id = ''redact'', h_server = ''alpha'', h_tool = ''redact'',
        h_target = ''alpha.redact'', h_timeout_ms = 5000, h_on_error = AbortOnError\<rparr>])],
      d_max_payload_bytes = 1048576, d_max_outcome_bytes = 1048576\<rparr>"
proof -
  have t: "trim ''redact'' = ''redact''" "trim ''alpha.redact'' = ''alpha.redact''"
    by (simp_all add: trim_visible visible_def)
  have q: "qualified_parse ''alpha.redact'' = Inr (QualifiedTool ''alpha'' ''redact'')"
    using qualified_parse_plain [of "''alpha''" "''redact''"] by (simp add: visible_def qualified_new_def)
  show ?thesis
    by (simp add: dispatcher_new_def validate_shape_def sample_event_config_def t q
        event_config_default_def compile_handler_def)
qed

theorem compiled_chains_valid_witness:
  "\<exists>D chain. dispatcher_new sample_event_config [''alpha.redact''] = Inr D
     \<and> (ModelAfterResponse, chain) \<in> set (chains D) \<and> chain \<noteq> [] \<and> distinct (map h_id chain)"
  using compiled_chains_valid [OF sample_dispatcher, of ModelAfterResponse] sample_dispatcher
  by fastforce

section \<open>Dispatching\<close>

lemma invoke_too_large:
  "d_max_payload_bytes D < length (envelope_text E ev it (fst st) p) \<Longrightarrow>
     invoke_handler E D ev h p it st = (Inl (PayloadTooLarge (h_id h)
       (length (envelope_text E ev it (fst st) p)) (d_max_payload_bytes D)), (fst st + 1, snd st))"
  by (simp add: invoke_handler_def split_beta)

text \<open>
  A handler is never shown more than the configured number of bytes: when the encoded
  envelope is over the limit the call fails before the handler is reached, with the world as it
  was and only the event counter advanced.
\<close>

theorem oversized_payload_not_sent:
  assumes "d_max_payload_bytes D < length (envelope_text E ev it n p)"
  shows "\<exists>actual. invoke_handler E D ev h p it (n, w) =
      (Inl (PayloadTooLarge (h_id h) actual (d_max_payload_bytes D)), (n + 1, w))
    \<and> d_max_payload_bytes D < actual"
  using assms invoke_too_large [of D E ev it "(n, w)" p h] by auto

text \<open>The ways a round can end, by the answer of the handler.\<close>

lemma handle_one_Inl:
  assumes "handle_one E D ev it h cur st = (Inl e, st')"
  shows "is_rejected e \<or> is_cancelled_error e \<or> h_on_error h = AbortOnError"
  using assms
  by (auto simp: handle_one_def Let_def split: prod.splits sum.splits if_splits)

lemma handle_one_Inr:
  assumes "handle_one E D ev it h cur st = (Inr new, st')"
  shows "new = cur \<or> (\<exists>n w out inb outb ms st''. invoke_handler E D ev h cur it (n, w)
      = (Inr (out, inb, outb, ms), st'') \<and> action out = Replace \<and> payload out = Some new)"
  using assms
  by (auto simp: handle_one_def validate_outcome_def Let_def
      split: prod.splits sum.splits if_splits event_action.splits option.splits) blast

lemma dispatch_chain_error:
  "dispatch_chain E D ev it hs cur st = (Inl e, st') \<Longrightarrow>
     is_rejected e \<or> is_cancelled_error e \<or> (\<exists>h\<in>set hs. h_on_error h = AbortOnError)"
  by (induction E D ev it hs cur st rule: dispatch_chain.induct)
    (auto split: prod.splits sum.splits dest: handle_one_Inl)

text \<open>Where the payload of a finished chain comes from.\<close>

inductive replaced_by ::
  "('w, 'x) event_env_scheme \<Rightarrow> dispatcher \<Rightarrow> event_stage \<Rightarrow> u32 option \<Rightarrow> compiled_handler list
     \<Rightarrow> json \<Rightarrow> json \<Rightarrow> bool"
  for E D ev it hs where
  unchanged: "replaced_by E D ev it hs p p"
| replaced: "replaced_by E D ev it hs p q \<Longrightarrow> h \<in> set hs
     \<Longrightarrow> invoke_handler E D ev h q it (n, w) = (Inr (out, inb, outb, ms), st')
     \<Longrightarrow> action out = Replace \<Longrightarrow> payload out = Some r \<Longrightarrow> replaced_by E D ev it hs p r"

lemma dispatch_chain_payload:
  "dispatch_chain E D ev it hs cur st = (Inr r, st') \<Longrightarrow> set hs \<subseteq> set all
     \<Longrightarrow> replaced_by E D ev it all p cur \<Longrightarrow> replaced_by E D ev it all p r"
proof (induction E D ev it hs cur st rule: dispatch_chain.induct)
  case (2 E D ev it h hs cur st)
  then obtain new st1 where one: "handle_one E D ev it h cur st = (Inr new, st1)"
    and rest: "dispatch_chain E D ev it hs new st1 = (Inr r, st')"
    by (auto split: prod.splits sum.splits)
  have "replaced_by E D ev it all p new"
    using handle_one_Inr [OF one] "2.prems" by (auto intro: replaced_by.replaced)
  then show ?case
    using "2.IH" one rest "2.prems"(2) by simp
qed simp


text \<open>
  A rejection ends the chain whatever the handler's error policy: when a handler's valid
  outcome is \<open>reject\<close>, the stage fails with that rejection and no later handler runs.
\<close>

theorem rejection_always_aborts:
  assumes "clock_ns E w = (t, w0)"
    and "invoke_handler E D ev h p it (n, w0) = (Inr (out, inb, outb, ms), st')"
    and "action out = Reject" and "payload out = None"
  shows "\<exists>why w'. dispatch_chain E D ev it (h # hs) p (n, w) = (Inl (Rejected ev (h_id h) why), (fst st', w'))
    \<and> why \<noteq> []"
  using assms
  by (cases st') (auto simp: handle_one_def validate_outcome_def is_rejected_def is_blank_def
      split: option.splits)

text \<open>Handlers whose answer is fixed, for the instances below.\<close>

definition fixed_env :: "event_outcome \<Rightarrow> nat event_env" where
  "fixed_env out = \<lparr>json_text = (\<lambda>_. ''x''), json_parse = (\<lambda>_. Inr JNull),
     decode_outcome = (\<lambda>_. Inr out), token_cancelled = Pair False, clock_ns = Pair 0,
     invoke = (\<lambda>_ _ _ _ w. (RaceDone (JObject [(''structuredContent'', JNull)]), Suc w)),
     audit_log = (\<lambda>_ w. w)\<rparr>"

definition lenient_handler :: compiled_handler where
  "lenient_handler = \<lparr>h_id = ''a'', h_server = ''s'', h_tool = ''t'', h_target = ''s.t'',
     h_timeout_ms = 1, h_on_error = ContinueOnError\<rparr>"

definition one_handler :: "nat \<Rightarrow> dispatcher" where
  "one_handler limit = \<lparr>chains = [(RunBeforeOutput, [lenient_handler])], d_max_payload_bytes = limit,
     d_max_outcome_bytes = 10\<rparr>"

lemma fixed_invocation:
  "invoke_handler (fixed_env out) (one_handler 5) ev h p it (n, w) = (Inr (out, 1, 1, 0), (n + 1, Suc w))"
  by (simp add: invoke_handler_def fixed_env_def one_handler_def envelope_text_def parse_outcome_def
      outcome_value_def)

theorem oversized_payload_not_sent_witness:
  "\<exists>actual. invoke_handler (fixed_env \<lparr>action = Pass, payload = None, reason = None\<rparr>) (one_handler 0)
     RunBeforeOutput lenient_handler JNull None (1, 7)
   = (Inl (PayloadTooLarge ''a'' actual 0), (2, 7)) \<and> 0 < actual"
  using oversized_payload_not_sent [of "one_handler 0" "fixed_env \<lparr>action = Pass, payload = None, reason = None\<rparr>"
      RunBeforeOutput None 1 JNull lenient_handler 7]
  by (simp add: envelope_text_def fixed_env_def one_handler_def lenient_handler_def)


theorem rejection_always_aborts_witness:
  "\<exists>why w'. dispatch_chain (fixed_env \<lparr>action = Reject, payload = None, reason = None\<rparr>) (one_handler 5)
     RunBeforeOutput None [lenient_handler] JNull (1, 0)
     = (Inl (Rejected RunBeforeOutput ''a'' why), (2, w'))"
proof -
  let ?out = "\<lparr>action = Reject, payload = None, reason = None\<rparr>"
  have clock: "clock_ns (fixed_env ?out) 0 = (0, 0)" and hid: "h_id lenient_handler = ''a''"
    by (simp_all add: fixed_env_def lenient_handler_def)
  have inv: "invoke_handler (fixed_env ?out) (one_handler 5) RunBeforeOutput lenient_handler JNull None (1, 0)
      = (Inr (?out, 1, 1, 0), (2, 1))"
    using fixed_invocation [of ?out RunBeforeOutput lenient_handler JNull None 1 0] by simp
  show ?thesis
    using rejection_always_aborts [OF clock inv, of "[]"] by (simp add: hid del: dispatch_chain.simps) blast
qed

end
