(* ===== verification/Access_Resolve.thy ===== *)
theory Access_Resolve
  imports Access
begin

text \<open>
  From declared grants to the run's policy: the raw access section (\<open>src/access/config.rs\<close>),
  its validation and resolution (\<open>src/access/mod.rs\<close>, lines 487 to 878), the protected
  store's rules (\<open>src/access/protected.rs\<close>) and the policies each tool family receives
  (\<open>src/access/paths.rs\<close>). The file system is read only and is the parameter \<open>fs\<close>.
\<close>

section \<open>The declared section\<close>

datatype access_mode_field = FieldStrict | FieldLegacy

record tools_policy_config =
  builtins :: "string list"

record home_fs_policy_config =
  home_read_grants :: "string list"
  home_write_grants :: "string list"

record workspace_policy_config =
  ws_root :: path
  ws_read :: "string list"

record filesystem_policy_config =
  fs_home :: home_fs_policy_config
  fs_workspace :: "workspace_policy_config option"
  fs_input_roots :: "path list"

record program_policy_config =
  prog_name :: string
  prog_executable :: path
  prog_runtime_read_roots :: "path list"
  prog_inherit_env :: "string list"
  prog_allow_children :: bool

record run_policy_config =
  run_programs :: "program_policy_config list"
  run_max_args :: nat
  run_max_arg_chars :: nat
  run_max_output_chars :: nat
  run_max_timeout_ms :: u64
  run_max_processes :: u32

record access_policy_config =
  mode_field :: access_mode_field
  tools_section :: tools_policy_config
  filesystem_section :: filesystem_policy_config
  run_section :: run_policy_config

definition tools_default :: tools_policy_config where
  "tools_default = \<lparr>builtins = []\<rparr>"

definition filesystem_default :: filesystem_policy_config where
  "filesystem_default = \<lparr>fs_home = \<lparr>home_read_grants = [], home_write_grants = []\<rparr>,
     fs_workspace = None, fs_input_roots = []\<rparr>"

definition run_default :: run_policy_config where
  "run_default = \<lparr>run_programs = [], run_max_args = 32, run_max_arg_chars = 4096,
     run_max_output_chars = 200000, run_max_timeout_ms = 120000, run_max_processes = 32\<rparr>"

definition grants_are_default :: "access_policy_config \<Rightarrow> bool" where
  "grants_are_default a \<longleftrightarrow> tools_section a = tools_default
     \<and> filesystem_section a = filesystem_default \<and> run_section a = run_default"

definition minimal_profile :: access_policy_config where
  "minimal_profile = \<lparr>mode_field = FieldStrict,
     tools_section = \<lparr>builtins = [''home.list'', ''home.read'', ''home.write'']\<rparr>,
     filesystem_section = \<lparr>fs_home = \<lparr>home_read_grants = [''in'', ''out''],
        home_write_grants = [''out'']\<rparr>, fs_workspace = None, fs_input_roots = []\<rparr>,
     run_section = run_default\<rparr>"

section \<open>The resolved policy\<close>

record resolved_program_policy =
  rp_alias :: string
  rp_executable :: path
  rp_runtime_read_roots :: "path list"
  rp_inherit_env :: "string list"
  rp_allow_children :: bool

record resolved_workspace_policy =
  rw_root :: path
  rw_read :: "relative_grant list"

record resolved_access_policy =
  mode :: access_mode
  allowed_builtins :: "qualified_tool set"
  home_read :: "relative_grant list"
  home_write :: "relative_grant list"
  workspace :: "resolved_workspace_policy option"
  input_roots :: "path list"
  programs :: "string \<Rightarrow> resolved_program_policy option"
  max_args :: nat
  max_arg_chars :: nat
  max_output_chars :: nat
  max_timeout_ms :: u64
  max_processes :: u32

definition allows_builtin :: "resolved_access_policy \<Rightarrow> qualified_tool \<Rightarrow> bool" where
  "allows_builtin a t \<longleftrightarrow> t \<in> allowed_builtins a"

definition is_legacy :: "resolved_access_policy \<Rightarrow> bool" where
  "is_legacy a \<longleftrightarrow> mode a = Legacy"

text \<open>A name that does not parse is unreachable in the source; every built-in parses.\<close>

definition parse_known_builtins :: "string list \<Rightarrow> qualified_tool set" where
  "parse_known_builtins names =
     set (List.map_filter (\<lambda>n. case qualified_parse n of Inl _ \<Rightarrow> None | Inr t \<Rightarrow> Some t) names)"

definition legacy_policy :: resolved_access_policy where
  "legacy_policy = \<lparr>mode = Legacy, allowed_builtins = parse_known_builtins legacy_builtin_names,
     home_read = [], home_write = [], workspace = None, input_roots = [], programs = (\<lambda>_. None),
     max_args = 32, max_arg_chars = 4096, max_output_chars = 200000, max_timeout_ms = 120000,
     max_processes = 32\<rparr>"

section \<open>The effective allowlist\<close>

record effective_tool_policy =
  tools :: "qualified_tool set"

definition effective_compile ::
  "resolved_access_policy \<Rightarrow> qualified_tool set \<Rightarrow> qualified_tool list \<Rightarrow> effective_tool_policy" where
  "effective_compile access skills_allowed mcp_tools =
     \<lparr>tools = {t \<in> parse_known_builtins known_builtin_names. allows_builtin access t \<and> t \<in> skills_allowed}
        \<union> {t \<in> set mcp_tools. t \<in> skills_allowed}\<rparr>"

definition grant_profile_skills :: "effective_tool_policy \<Rightarrow> effective_tool_policy" where
  "grant_profile_skills p = fold (\<lambda>name pol. case qualified_parse name of
       Inl _ \<Rightarrow> pol | Inr t \<Rightarrow> pol\<lparr>tools := insert t (tools pol)\<rparr>)
     [''profile.list_skill'', ''profile.read_skill''] p"

definition effective_allows :: "effective_tool_policy \<Rightarrow> qualified_tool \<Rightarrow> bool" where
  "effective_allows p t \<longleftrightarrow> t \<in> tools p"

definition allows_server_tool :: "effective_tool_policy \<Rightarrow> string \<Rightarrow> string \<Rightarrow> bool" where
  "allows_server_tool p srv t = (case qualified_new srv t of Inl _ \<Rightarrow> False | Inr q \<Rightarrow> q \<in> tools p)"

definition advertised :: "effective_tool_policy \<Rightarrow> string list" where
  "advertised p = map qualified_name (sorted_list_of_set (tools p))"

definition parse_tool_list :: "string list \<Rightarrow> string + qualified_tool set" where
  "parse_tool_list entries = rbind (try_map qualified_parse entries) (\<lambda>ts. Inr (set ts))"

lemma parse_builtin_name:
  "qualified_parse (s @ ''.'' @ t) = Inr (QualifiedTool s t)"
  if "s \<noteq> []" "t \<noteq> []" "CHR ''.'' \<notin> set s" "CHR ''.'' \<notin> set t" "visible (hd s)" "visible (last t)"
  using qualified_parse_plain [of s t] that by (simp add: qualified_new_def)

lemma builtin_parses:
  "qualified_parse ''home.list'' = Inr (QualifiedTool ''home'' ''list'')"
  "qualified_parse ''home.read'' = Inr (QualifiedTool ''home'' ''read'')"
  "qualified_parse ''home.write'' = Inr (QualifiedTool ''home'' ''write'')"
  "qualified_parse ''home.run'' = Inr (QualifiedTool ''home'' ''run'')"
  "qualified_parse ''local_tools.search_docs'' = Inr (QualifiedTool ''local_tools'' ''search_docs'')"
  "qualified_parse ''local_tools.read_file'' = Inr (QualifiedTool ''local_tools'' ''read_file'')"
  "qualified_parse ''profile.list_skill'' = Inr (QualifiedTool ''profile'' ''list_skill'')"
  "qualified_parse ''profile.read_skill'' = Inr (QualifiedTool ''profile'' ''read_skill'')"
  using parse_builtin_name [of "''home''" "''list''"] parse_builtin_name [of "''home''" "''read''"]
    parse_builtin_name [of "''home''" "''write''"] parse_builtin_name [of "''home''" "''run''"]
    parse_builtin_name [of "''local_tools''" "''search_docs''"]
    parse_builtin_name [of "''local_tools''" "''read_file''"]
    parse_builtin_name [of "''profile''" "''list_skill''"]
    parse_builtin_name [of "''profile''" "''read_skill''"]
  by (simp_all add: visible_def)

lemma known_builtin_tools:
  "parse_known_builtins known_builtin_names =
     {QualifiedTool ''home'' ''list'', QualifiedTool ''home'' ''read'', QualifiedTool ''home'' ''write'',
      QualifiedTool ''home'' ''run'', QualifiedTool ''local_tools'' ''search_docs'',
      QualifiedTool ''local_tools'' ''read_file'', QualifiedTool ''profile'' ''list_skill'',
      QualifiedTool ''profile'' ''read_skill''}"
  by (simp add: parse_known_builtins_def known_names builtin_parses List.map_filter_simps)

lemma legacy_builtin_tools:
  "parse_known_builtins legacy_builtin_names =
     {QualifiedTool ''home'' ''list'', QualifiedTool ''home'' ''read'', QualifiedTool ''home'' ''write'',
      QualifiedTool ''local_tools'' ''search_docs'', QualifiedTool ''local_tools'' ''read_file''}"
  by (simp add: parse_known_builtins_def legacy_names builtin_parses List.map_filter_simps)

lemma tools_grant_profile_skills:
  "tools (grant_profile_skills p) = tools p
     \<union> {QualifiedTool ''profile'' ''list_skill'', QualifiedTool ''profile'' ''read_skill''}"
  by (auto simp: grant_profile_skills_def builtin_parses)

lemma finite_effective: "finite (tools (effective_compile a s m))"
  by (simp add: effective_compile_def known_builtin_tools)

lemma allows_server_tool_iff:
  "allows_server_tool p srv t \<longleftrightarrow> qualified_new srv t = Inr (QualifiedTool srv t)
     \<and> QualifiedTool srv t \<in> tools p"
  by (auto simp: allows_server_tool_def qualified_new_def)

lemma known_builtin_tool:
  assumes "qualified_new s t = Inr q"
  shows "is_known_builtin (s @ ''.'' @ t) \<longleftrightarrow> q \<in> parse_known_builtins known_builtin_names"
proof
  have "split_once (CHR ''.'') (s @ ''.'' @ t) = Some (s, t)"
    using assms by (simp add: split_once_Some qualified_new_Inr)
  moreover assume "is_known_builtin (s @ ''.'' @ t)"
  ultimately have "Some (s, t) \<in> split_once (CHR ''.'') ` set known_builtin_names"
    unfolding known_builtin_iff by (metis imageI)
  then have "(s, t) \<in> (\<lambda>q. (qt_server q, qt_tool q)) ` parse_known_builtins known_builtin_names"
    unfolding known_builtin_tools by (simp add: known_names)
  then show "q \<in> parse_known_builtins known_builtin_names"
    using assms by (auto simp: qualified_new_Inr)
next
  assume "q \<in> parse_known_builtins known_builtin_names"
  then have "qualified_name q \<in> qualified_name ` parse_known_builtins known_builtin_names"
    by simp
  then have "qualified_name q \<in> set known_builtin_names"
    unfolding known_builtin_tools by (simp add: known_names qualified_name_def)
  then show "is_known_builtin (s @ ''.'' @ t)"
    using assms by (simp add: known_builtin_iff qualified_name_def qualified_new_Inr)
qed

text \<open>
  C8: the allowlist is fail-closed. A call \<open>server.tool\<close> passes the compiled policy
  exactly when the name is well formed, a skill lists it, and it is either a tool an MCP server
  really offers or a catalogued built-in that the access section grants; granting the skill
  reader adds the two \<open>profile\<close> tools and nothing else.
\<close>

theorem effective_policy_fail_closed:
  "(allows_server_tool (effective_compile access skills mcp) srv t \<longleftrightarrow>
      is_ok (qualified_new srv t) \<and> QualifiedTool srv t \<in> skills
      \<and> (QualifiedTool srv t \<in> set mcp
         \<or> is_known_builtin (srv @ ''.'' @ t) \<and> allows_builtin access (QualifiedTool srv t)))
   \<and> (allows_server_tool (grant_profile_skills (effective_compile access skills mcp)) srv t \<longleftrightarrow>
      allows_server_tool (effective_compile access skills mcp) srv t
      \<or> srv = ''profile'' \<and> (t = ''list_skill'' \<or> t = ''read_skill''))"
proof -
  have new: "is_ok (qualified_new srv t) \<longleftrightarrow> qualified_new srv t = Inr (QualifiedTool srv t)"
    by (auto simp: is_ok_iff qualified_new_def)
  show ?thesis
    using known_builtin_tool [of srv t "QualifiedTool srv t"]
    by (auto simp: new allows_server_tool_iff tools_grant_profile_skills effective_compile_def
        qualified_new_Inr)
qed

section \<open>The protected store\<close>

definition PROTECTED_DENY_REASON :: string where
  "PROTECTED_DENY_REASON =
     ''path is inside the agent protected store (readable only by agent_Kuibysheff)''"

definition is_denied_protected_path :: "path option \<Rightarrow> path \<Rightarrow> bool" where
  "is_denied_protected_path root_opt canonical_path = (case root_opt of
     None \<Rightarrow> path_contains_protected_segment canonical_path
   | Some root \<Rightarrow> is_protected_path root canonical_path)"

definition WHOLE_ROOT_GRANT_MSG :: string where
  "WHOLE_ROOT_GRANT_MSG = ''access.filesystem.workspace.read grant covering the project root would expose `.kuibysheff/protected`; narrow read grants or set workspace.root outside the project root''"

definition check_workspace_grant :: "path \<Rightarrow> path \<Rightarrow> string \<Rightarrow> string + unit" where
  "check_workspace_grant root workspace_root grant = (let trimmed = trim grant in
     if trimmed = [] \<or> trimmed = ''.''
     then (if path_starts_with (protected_root root) workspace_root
           then Inl WHOLE_ROOT_GRANT_MSG else Inr ())
     else if trimmed = PROTECTED_DIR \<or> starts_with trimmed ''protected/''
          \<or> starts_with trimmed ''.kuibysheff/protected'' \<or> contains_str trimmed ''/protected/''
     then Inl (''access.filesystem.workspace.read must not grant protected store path `''
               @ trimmed @ ''`'')
     else Inr ())"

definition validate_workspace_excludes_protected ::
  "path \<Rightarrow> path \<Rightarrow> string list \<Rightarrow> string + unit" where
  "validate_workspace_excludes_protected root workspace_root read_grants =
     (if is_protected_path root workspace_root
      then Inl (''access.filesystem.workspace.root must not be under `'' @ protected_root root @ ''`'')
      else try_all (check_workspace_grant root workspace_root) read_grants)"

section \<open>Validation without file access\<close>

datatype access_error = Validation string

definition program_alias_parse :: "string \<Rightarrow> string + string" where
  "program_alias_parse raw = (let trimmed = trim raw in
     if trimmed = [] then Inl ''program alias must not be empty'' else Inr trimmed)"

definition MISSING_ACCESS_MSG :: string where
  "MISSING_ACCESS_MSG = ''`access` is required; declare fail-closed grants or set `access: { mode: legacy }` for permissive filesystem semantics''"

definition LEGACY_MIXED_MSG :: string where
  "LEGACY_MIXED_MSG = ''`access.mode: legacy` must not set `tools`, `filesystem`, or `run`; use `access: { mode: legacy }` alone, or switch to strict mode with grants''"

fun validate_builtins_from :: "string list \<Rightarrow> string list \<Rightarrow> access_error + unit" where
  "validate_builtins_from seen [] = Inr ()"
| "validate_builtins_from seen (raw # rest) =
     rbind (map_err (\<lambda>reason. Validation (''access.tools.builtins: '' @ reason)) (qualified_parse raw))
       (\<lambda>t. let q = qualified_name t in
          if \<not> is_known_builtin q
          then Inl (Validation (''unknown built-in tool `'' @ q @ ''` in `access.tools.builtins`''))
          else if q \<in> set seen
          then Inl (Validation (''duplicate built-in tool `'' @ q @ ''` in `access.tools.builtins`''))
          else validate_builtins_from (q # seen) rest)"

definition validate_builtins_list :: "string list \<Rightarrow> access_error + unit" where
  "validate_builtins_list bs = validate_builtins_from [] bs"

definition grant_error :: "string \<Rightarrow> string \<Rightarrow> access_error" where
  "grant_error field reason = Validation (''`access.'' @ field @ ''`: '' @ reason)"

definition validate_relative_grant_list :: "string list \<Rightarrow> string \<Rightarrow> access_error + unit" where
  "validate_relative_grant_list gs field =
     try_all (\<lambda>raw. rbind (map_err (grant_error field) (grant_parse raw)) (\<lambda>_. Inr ())) gs"

definition validate_run_limits :: "run_policy_config \<Rightarrow> access_error + unit" where
  "validate_run_limits r =
     (if run_max_args r = 0 then Inl (Validation ''`access.run.max_args` must be > 0'')
      else if run_max_arg_chars r = 0 then Inl (Validation ''`access.run.max_arg_chars` must be > 0'')
      else if run_max_output_chars r = 0 then Inl (Validation ''`access.run.max_output_chars` must be > 0'')
      else if run_max_timeout_ms r = 0 then Inl (Validation ''`access.run.max_timeout_ms` must be > 0'')
      else if run_max_processes r = 0 then Inl (Validation ''`access.run.max_processes` must be > 0'')
      else Inr ())"

definition check_env_key :: "string \<Rightarrow> string \<Rightarrow> access_error + unit" where
  "check_env_key alias key = (let normalized = trim key in
     if normalized = [] then Inl (Validation (''`access.run.programs['' @ alias
            @ ''].inherit_env` entries must not be empty''))
     else if is_forbidden_inherit_env_key normalized
     then Inl (Validation (''`access.run.programs['' @ alias @ ''].inherit_env` must not include `''
            @ normalized @ ''`''))
     else Inr ())"

definition parse_alias :: "program_policy_config \<Rightarrow> access_error + string" where
  "parse_alias p = map_err (\<lambda>reason. Validation (''`access.run.programs[].name`: '' @ reason))
     (program_alias_parse (prog_name p))"

fun validate_aliases_from :: "string list \<Rightarrow> program_policy_config list \<Rightarrow> access_error + unit" where
  "validate_aliases_from seen [] = Inr ()"
| "validate_aliases_from seen (p # ps) =
     rbind (parse_alias p) (\<lambda>alias.
       if alias \<in> set seen
       then Inl (Validation (''duplicate program alias `'' @ alias @ ''` in `access.run.programs`''))
       else if prog_executable p = []
       then Inl (Validation (''`access.run.programs['' @ alias @ ''].executable` must not be empty''))
       else rbind (try_all (check_env_key alias) (prog_inherit_env p))
              (\<lambda>_. validate_aliases_from (alias # seen) ps))"

definition validate_program_aliases :: "program_policy_config list \<Rightarrow> access_error + unit" where
  "validate_program_aliases ps = validate_aliases_from [] ps"

definition validate_workspace_section :: "workspace_policy_config option \<Rightarrow> access_error + unit" where
  "validate_workspace_section w = (case w of None \<Rightarrow> Inr ()
     | Some ws \<Rightarrow> (if ws_root ws = []
         then Inl (Validation ''`access.filesystem.workspace.root` must not be empty'')
         else validate_relative_grant_list (ws_read ws) ''filesystem.workspace.read''))"

definition validate_access_config ::
  "access_policy_config option \<Rightarrow> string list \<Rightarrow> access_error + unit" where
  "validate_access_config access_opt mcp_names =
     rbind (try_all (\<lambda>name. if is_builtin_server name
              then Inl (Validation (''mcp server name `'' @ name @ ''` is reserved for built-in tools''))
              else Inr ()) mcp_names) (\<lambda>_.
     case access_opt of None \<Rightarrow> Inl (Validation MISSING_ACCESS_MSG)
     | Some access \<Rightarrow>
       if mode_field access = FieldLegacy
       then (if \<not> grants_are_default access then Inl (Validation LEGACY_MIXED_MSG) else Inr ())
       else
         rbind (validate_builtins_list (builtins (tools_section access))) (\<lambda>_.
         rbind (validate_relative_grant_list (home_read_grants (fs_home (filesystem_section access)))
                  ''filesystem.home.read'') (\<lambda>_.
         rbind (validate_relative_grant_list (home_write_grants (fs_home (filesystem_section access)))
                  ''filesystem.home.write'') (\<lambda>_.
         rbind (validate_workspace_section (fs_workspace (filesystem_section access))) (\<lambda>_.
         rbind (try_all (\<lambda>root. if root = []
                  then Inl (Validation ''`access.filesystem.input_roots` entries must not be empty'')
                  else Inr ()) (fs_input_roots (filesystem_section access))) (\<lambda>_.
         rbind (validate_run_limits (run_section access)) (\<lambda>_.
         validate_program_aliases (run_programs (run_section access)))))))))"

section \<open>Resolution\<close>

text \<open>What the host file system answers: \<open>canonicalize\<close> with the error text, and the
  three \<open>Path\<close> predicates.\<close>

record fs_view =
  canonicalize :: "path \<Rightarrow> string + path"
  fs_is_dir :: "path \<Rightarrow> bool"
  fs_is_file :: "path \<Rightarrow> bool"
  fs_exists :: "path \<Rightarrow> bool"

definition canonical_root :: "fs_view \<Rightarrow> path \<Rightarrow> access_error + path" where
  "canonical_root fs p = map_err (\<lambda>source.
     Validation (''failed to canonicalize `'' @ p @ ''`: '' @ source)) (canonicalize fs p)"

definition resolve_against_config_dir :: "path \<Rightarrow> path \<Rightarrow> path" where
  "resolve_against_config_dir config_dir p = (if is_absolute p then p else path_join config_dir p)"

definition resolve_builtins :: "tools_policy_config \<Rightarrow> access_error + qualified_tool set" where
  "resolve_builtins t =
     rbind (validate_builtins_list (builtins t)) (\<lambda>_.
     rbind (try_map (\<lambda>raw. map_err (\<lambda>reason. Validation (''access.tools.builtins: '' @ reason))
              (qualified_parse raw)) (builtins t)) (\<lambda>ts. Inr (set ts)))"

definition resolve_relative_grants :: "string list \<Rightarrow> string \<Rightarrow> access_error + relative_grant list" where
  "resolve_relative_grants gs field = try_map (\<lambda>raw. map_err (grant_error field) (grant_parse raw)) gs"

definition resolve_workspace ::
  "fs_view \<Rightarrow> filesystem_policy_config \<Rightarrow> path \<Rightarrow> access_error + resolved_workspace_policy option" where
  "resolve_workspace fs filesystem config_dir = (case fs_workspace filesystem of
     None \<Rightarrow> Inr None
   | Some ws \<Rightarrow>
       rbind (canonical_root fs (resolve_against_config_dir config_dir (ws_root ws))) (\<lambda>root.
       if \<not> fs_is_dir fs root
       then Inl (Validation (''`access.filesystem.workspace.root` is not a directory: '' @ root))
       else if is_denied_protected_path None root
       then Inl (Validation ''`access.filesystem.workspace.root` must not be inside `.kuibysheff/protected/`'')
       else rbind (resolve_relative_grants (ws_read ws) ''filesystem.workspace.read'') (\<lambda>read.
         let done = Inr (Some \<lparr>rw_root = root, rw_read = read\<rparr>) in
         case validate_workspace_excludes_protected ''.'' root (ws_read ws) of
           Inl reason \<Rightarrow> (if contains_str reason ''must not grant protected''
                          then Inl (Validation reason) else done)
         | Inr _ \<Rightarrow> done)))"

definition resolve_input_roots :: "fs_view \<Rightarrow> path list \<Rightarrow> path \<Rightarrow> access_error + path list" where
  "resolve_input_roots fs roots config_dir =
     try_map (\<lambda>root. rbind (canonical_root fs (resolve_against_config_dir config_dir root)) (\<lambda>c.
       if \<not> fs_is_dir fs c
       then Inl (Validation (''`access.filesystem.input_roots` entry is not a directory: '' @ c))
       else Inr c)) roots"

definition resolve_program ::
  "fs_view \<Rightarrow> path \<Rightarrow> program_policy_config \<Rightarrow> access_error + resolved_program_policy" where
  "resolve_program fs config_dir p =
     rbind (parse_alias p) (\<lambda>alias.
     rbind (canonical_root fs (resolve_against_config_dir config_dir (prog_executable p))) (\<lambda>exe.
     if \<not> fs_is_file fs exe
     then Inl (Validation (''`access.run.programs['' @ alias @ ''].executable` is not a file: '' @ exe))
     else rbind (try_map (\<lambda>root.
              rbind (canonical_root fs (resolve_against_config_dir config_dir root)) (\<lambda>c.
              if \<not> fs_exists fs c
              then Inl (Validation (''`access.run.programs['' @ alias @ ''].runtime_read_roots` missing: '' @ c))
              else Inr c)) (prog_runtime_read_roots p)) (\<lambda>roots.
       Inr \<lparr>rp_alias = alias, rp_executable = exe, rp_runtime_read_roots = roots,
            rp_inherit_env = map trim (prog_inherit_env p),
            rp_allow_children = prog_allow_children p\<rparr>)))"

definition resolve_programs ::
  "fs_view \<Rightarrow> run_policy_config \<Rightarrow> path \<Rightarrow> access_error + (string \<Rightarrow> resolved_program_policy option)" where
  "resolve_programs fs run config_dir =
     rbind (validate_run_limits run) (\<lambda>_.
     rbind (validate_program_aliases (run_programs run)) (\<lambda>_.
     rbind (try_map (resolve_program fs config_dir) (run_programs run)) (\<lambda>ps.
       Inr (fold (\<lambda>p m. m(rp_alias p \<mapsto> p)) ps (\<lambda>_. None)))))"

definition resolve_access_policy ::
  "fs_view \<Rightarrow> access_policy_config option \<Rightarrow> path \<Rightarrow> access_error + resolved_access_policy" where
  "resolve_access_policy fs access_opt config_dir = (case access_opt of
     None \<Rightarrow> Inl (Validation MISSING_ACCESS_MSG)
   | Some access \<Rightarrow>
     if mode_field access = FieldLegacy
     then (if \<not> grants_are_default access then Inl (Validation LEGACY_MIXED_MSG) else Inr legacy_policy)
     else
       rbind (resolve_builtins (tools_section access)) (\<lambda>allowed.
       rbind (resolve_relative_grants (home_read_grants (fs_home (filesystem_section access)))
                ''filesystem.home.read'') (\<lambda>hread.
       rbind (resolve_relative_grants (home_write_grants (fs_home (filesystem_section access)))
                ''filesystem.home.write'') (\<lambda>hwrite.
       rbind (resolve_workspace fs (filesystem_section access) config_dir) (\<lambda>ws.
       rbind (resolve_input_roots fs (fs_input_roots (filesystem_section access)) config_dir) (\<lambda>roots.
       rbind (resolve_programs fs (run_section access) config_dir) (\<lambda>progs.
         Inr \<lparr>mode = Strict, allowed_builtins = allowed, home_read = hread, home_write = hwrite,
              workspace = ws, input_roots = roots, programs = progs,
              max_args = run_max_args (run_section access),
              max_arg_chars = run_max_arg_chars (run_section access),
              max_output_chars = run_max_output_chars (run_section access),
              max_timeout_ms = run_max_timeout_ms (run_section access),
              max_processes = run_max_processes (run_section access)\<rparr>)))))))"

section \<open>The policies of the tool families\<close>

record home_fs_policy =
  hp_read :: path_grant_scope
  hp_write :: path_grant_scope
  hp_programs :: "string \<Rightarrow> resolved_program_policy option"
  hp_max_args :: nat
  hp_max_arg_chars :: nat
  hp_max_output_chars :: nat
  hp_max_timeout_ms :: u64
  hp_max_processes :: u32

definition home_policy_with :: "path_grant_scope \<Rightarrow> path_grant_scope \<Rightarrow> resolved_access_policy \<Rightarrow> home_fs_policy" where
  "home_policy_with r w p = \<lparr>hp_read = r, hp_write = w, hp_programs = programs p,
     hp_max_args = max_args p, hp_max_arg_chars = max_arg_chars p,
     hp_max_output_chars = max_output_chars p, hp_max_timeout_ms = max_timeout_ms p,
     hp_max_processes = max_processes p\<rparr>"

definition home_policy_from_access :: "resolved_access_policy \<Rightarrow> home_fs_policy" where
  "home_policy_from_access p =
     (if is_legacy p then home_policy_with scope_legacy scope_legacy p
      else home_policy_with (scope_strict (home_read p)) (scope_strict (home_write p)) p)"

definition workspace_scope_from_access :: "resolved_access_policy \<Rightarrow> path_grant_scope" where
  "workspace_scope_from_access p =
     (if is_legacy p then scope_legacy
      else (case workspace p of Some ws \<Rightarrow> scope_strict (rw_read ws) | None \<Rightarrow> scope_deny_all))"

record input_files_policy =
  unrestricted :: bool
  ip_roots :: "path list"

definition input_policy_from_access :: "resolved_access_policy \<Rightarrow> input_files_policy" where
  "input_policy_from_access p =
     (if is_legacy p then \<lparr>unrestricted = True, ip_roots = []\<rparr>
      else \<lparr>unrestricted = False, ip_roots = input_roots p\<rparr>)"

definition allows_canonical_file :: "input_files_policy \<Rightarrow> path \<Rightarrow> string + unit" where
  "allows_canonical_file pol canonical =
     (if is_denied_protected_path None canonical then Inl PROTECTED_DENY_REASON
      else if unrestricted pol then Inr ()
      else if list_ex (\<lambda>root. is_within_root root canonical) (ip_roots pol) then Inr ()
      else Inl (''input file `'' @ canonical
                @ ''` is outside configured `access.filesystem.input_roots`''))"

definition workspace_root_for_run ::
  "resolved_access_policy \<Rightarrow> path \<Rightarrow> path option \<Rightarrow> path option \<Rightarrow> path" where
  "workspace_root_for_run access current_dir project config_dir = (case workspace access of
     Some ws \<Rightarrow> rw_root ws
   | None \<Rightarrow> (case project of Some root \<Rightarrow> root
       | None \<Rightarrow> (case config_dir of Some d \<Rightarrow> d | None \<Rightarrow> current_dir)))"

end
