(* ===== verification/Access_Facts.thy ===== *)
theory Access_Facts
  imports Access_Resolve
begin

text \<open>
  What a resolved access policy guarantees: the facts about validation and resolution, and the
  properties of the policies a run is given.
\<close>

section \<open>Validation lists\<close>

lemma validate_builtins_from_ok:
  "validate_builtins_from seen bs = Inr () \<Longrightarrow> raw \<in> set bs \<Longrightarrow>
     \<exists>q. qualified_parse raw = Inr q \<and> is_known_builtin (qualified_name q)"
  by (induction seen bs rule: validate_builtins_from.induct)
    (auto simp: rbind_eq_Inr map_err_eq_Inr Let_def split: if_splits)

lemma validate_aliases_from_ok:
  "validate_aliases_from seen ps = Inr () \<Longrightarrow> p \<in> set ps \<Longrightarrow>
     \<exists>alias. parse_alias p = Inr alias \<and> prog_executable p \<noteq> []
       \<and> try_all (check_env_key alias) (prog_inherit_env p) = Inr ()"
proof (induction seen ps rule: validate_aliases_from.induct)
  case (2 seen q ps)
  from "2.prems"(1) obtain al where a: "parse_alias q = Inr al" "al \<notin> set seen"
      "prog_executable q \<noteq> []" "try_all (check_env_key al) (prog_inherit_env q) = Inr ()"
      "validate_aliases_from (al # seen) ps = Inr ()"
    by (auto simp: rbind_eq_Inr split: if_splits)
  then show ?case using "2.IH" "2.prems"(2) by auto
qed simp

lemma check_env_key_ok:
  "check_env_key alias key = Inr () \<longleftrightarrow> trim key \<noteq> [] \<and> \<not> is_forbidden_inherit_env_key (trim key)"
  by (auto simp: check_env_key_def Let_def)

lemma fold_programs:
  "fold (\<lambda>p m. m(f p \<mapsto> p)) ps m k = Some p \<Longrightarrow> m k = Some p \<or> p \<in> set ps \<and> f p = k"
  by (induction ps arbitrary: m) (fastforce split: if_splits)+

lemma list_all2_set_right: "list_all2 P xs ys \<Longrightarrow> y \<in> set ys \<Longrightarrow> \<exists>x\<in>set xs. P x y"
  by (induction rule: list_all2_induct) auto

lemma resolve_access_strict:
  assumes "resolve_access_policy fs (Some access) dir = Inr r" and "mode_field access = FieldStrict"
  obtains ps where "resolve_builtins (tools_section access) = Inr (allowed_builtins r)"
    and "resolve_relative_grants (home_read_grants (fs_home (filesystem_section access)))
           ''filesystem.home.read'' = Inr (home_read r)"
    and "resolve_relative_grants (home_write_grants (fs_home (filesystem_section access)))
           ''filesystem.home.write'' = Inr (home_write r)"
    and "resolve_workspace fs (filesystem_section access) dir = Inr (workspace r)"
    and "resolve_input_roots fs (fs_input_roots (filesystem_section access)) dir = Inr (input_roots r)"
    and "resolve_programs fs (run_section access) dir = Inr (programs r)"
    and "mode r = Strict" and "max_timeout_ms r = run_max_timeout_ms (run_section access)"
    and "max_args r = run_max_args (run_section access)"
  using assms by (auto simp: resolve_access_policy_def rbind_eq_Inr)

lemma resolve_access_legacy:
  "resolve_access_policy fs (Some access) dir = Inr r \<Longrightarrow> mode_field access = FieldLegacy
     \<Longrightarrow> r = legacy_policy"
  by (auto simp: resolve_access_policy_def split: if_splits)

lemma resolve_builtins_Inr:
  assumes "resolve_builtins t = Inr B" and "q \<in> B"
  shows "q \<in> parse_known_builtins known_builtin_names
    \<and> (\<exists>raw\<in>set (builtins t). qualified_parse raw = Inr q)"
proof -
  obtain ts where v: "validate_builtins_list (builtins t) = Inr ()"
    and ts: "list_all2 (\<lambda>raw q. qualified_parse raw = Inr q) (builtins t) ts" and B: "B = set ts"
    using assms(1) by (auto simp: resolve_builtins_def rbind_eq_Inr try_map_ok map_err_eq_Inr)
  obtain raw where raw: "raw \<in> set (builtins t)" "qualified_parse raw = Inr q"
    using list_all2_set_right [OF ts] assms(2) B by auto
  then have "is_known_builtin (qualified_name q)"
    using validate_builtins_from_ok v by (fastforce simp: validate_builtins_list_def)
  moreover have "qualified_new (qt_server q) (qt_tool q) = Inr q"
    using raw(2) by (simp add: qualified_parse_Inr)
  ultimately show ?thesis
    using known_builtin_tool raw by (auto simp: qualified_name_def)
qed

text \<open>A strict section that grants \<open>home.run\<close> and one program.\<close>

definition sample_access :: access_policy_config where
  "sample_access = minimal_profile\<lparr>tools_section := \<lparr>builtins = [''home.run'']\<rparr>,
     run_section := run_default\<lparr>run_programs := [\<lparr>prog_name = ''git'', prog_executable = ''/bin/git'',
        prog_runtime_read_roots = [], prog_inherit_env = [''PATH''], prog_allow_children = True\<rparr>]\<rparr>\<rparr>"

definition sample_fs :: fs_view where
  "sample_fs = \<lparr>canonicalize = Inr, fs_is_dir = (\<lambda>_. False), fs_is_file = (\<lambda>p. p = ''/bin/git''),
     fs_exists = (\<lambda>_. False)\<rparr>"

lemma trim_examples:
  "trim ''git'' = ''git''" "trim ''PATH'' = ''PATH''" "trim ''in'' = ''in''" "trim ''out'' = ''out''"
  by (simp_all add: trim_visible visible_def)

lemma sample_parts:
  "validate_builtins_list [''home.run''] = Inr ()"
  "grant_parse ''in'' = Inr \<lparr>grant_components = [''in'']\<rparr>"
  "grant_parse ''out'' = Inr \<lparr>grant_components = [''out'']\<rparr>"
  "check_env_key ''git'' ''PATH'' = Inr ()"
  by (simp_all add: validate_builtins_list_def builtin_parses known_builtin_iff known_names
      qualified_name_def grant_parse_def trim_examples is_absolute_def components_def
      part_component_def check_env_key_def is_forbidden_inherit_env_key_def
      FORBIDDEN_INHERIT_ENV_def eq_ignore_ascii_case_def)

lemmas sample_simps = sample_access_def minimal_profile_def run_default_def sample_fs_def sample_parts
  trim_examples parse_alias_def program_alias_parse_def validate_run_limits_def

lemma sample_validates: "validate_access_config (Some sample_access) [''docs''] = Inr ()"
  by (simp add: validate_access_config_def sample_simps builtin_server_iff
      validate_relative_grant_list_def validate_workspace_section_def validate_program_aliases_def)

lemma sample_resolves:
  "\<exists>r. resolve_access_policy sample_fs (Some sample_access) ''/c'' = Inr r
     \<and> allowed_builtins r = {QualifiedTool ''home'' ''run''} \<and> programs r ''git'' \<noteq> None"
  by (simp add: resolve_access_policy_def sample_simps resolve_builtins_def builtin_parses
      resolve_relative_grants_def resolve_workspace_def resolve_input_roots_def resolve_programs_def
      validate_program_aliases_def resolve_program_def canonical_root_def
      resolve_against_config_dir_def is_absolute_def)

section \<open>Properties\<close>

text \<open>
  C4: \<open>home.run\<close> needs an explicit grant. Whatever the skills and the MCP servers offer, as
  long as no MCP server has a reserved name (which validation enforces), the compiled policy
  admits \<open>home.run\<close> only if the access section is strict and lists it among its built-ins.
\<close>

theorem home_run_needs_explicit_grant:
  assumes "validate_access_config (Some access) mcp_names = Inr ()"
    and "resolve_access_policy fs (Some access) dir = Inr r"
    and "qt_server ` set mcp \<subseteq> set mcp_names"
    and "allows_server_tool (grant_profile_skills (effective_compile r skills mcp)) ''home'' ''run''"
  shows "mode r = Strict \<and> mode_field access = FieldStrict
    \<and> (\<exists>raw\<in>set (builtins (tools_section access)). trim raw = ''home.run'')"
proof -
  let ?t = "QualifiedTool ''home'' ''run''"
  have names: "\<not> is_builtin_server n" if "n \<in> set mcp_names" for n
    using assms(1) that by (auto simp: validate_access_config_def rbind_eq_Inr try_all_ok split: if_splits)
  have "?t \<notin> set mcp"
  proof
    assume "?t \<in> set mcp"
    then have "qt_server ?t \<in> set mcp_names" using assms(3) by blast
    with names show False by (auto simp: builtin_server_iff)
  qed
  then have granted: "?t \<in> allowed_builtins r"
    using assms(4) by (auto simp: allows_server_tool_iff tools_grant_profile_skills
        effective_compile_def allows_builtin_def)
  show ?thesis
  proof (cases "mode_field access")
    case FieldStrict
    then obtain raw where "mode r = Strict" "raw \<in> set (builtins (tools_section access))"
      "qualified_parse raw = Inr ?t"
      using resolve_access_strict [OF assms(2)] resolve_builtins_Inr [OF _ granted] by metis
    then show ?thesis
      using FieldStrict by (auto simp: qualified_parse_Inr qualified_name_def)
  next
    case FieldLegacy
    then show ?thesis
      using resolve_access_legacy [OF assms(2)] granted
      by (simp add: legacy_policy_def legacy_builtin_tools)
  qed
qed

theorem home_run_needs_explicit_grant_witness:
  "\<exists>r. allows_server_tool (grant_profile_skills (effective_compile r
        {QualifiedTool ''home'' ''run''} [])) ''home'' ''run'' \<and> mode r = Strict"
proof -
  obtain r where r: "resolve_access_policy sample_fs (Some sample_access) ''/c'' = Inr r"
    "allowed_builtins r = {QualifiedTool ''home'' ''run''}"
    using sample_resolves by blast
  have a: "allows_server_tool (grant_profile_skills (effective_compile r
        {QualifiedTool ''home'' ''run''} [])) ''home'' ''run''"
    using r(2) by (simp add: allows_server_tool_iff qualified_new_Inr tools_grant_profile_skills
        effective_compile_def known_builtin_tools allows_builtin_def)
  show ?thesis
    using home_run_needs_explicit_grant [OF sample_validates r(1) _ a] a by auto
qed

text \<open>
  In a resolved strict policy every \<open>home.run\<close> program is stored under its own
  non-blank alias and inherits no loader-injection variable, whatever the letter case and
  blanks in the configuration, and no run limit is zero.
\<close>

theorem resolved_programs_safe:
  assumes "resolve_access_policy fs (Some access) dir = Inr r"
    and "programs r name = Some p"
  shows "rp_alias p = name \<and> name \<noteq> [] \<and> fs_is_file fs (rp_executable p)
    \<and> (\<forall>key\<in>set (rp_inherit_env p). key \<noteq> [] \<and> \<not> is_forbidden_inherit_env_key key)
    \<and> 0 < max_args r \<and> max_timeout_ms r \<noteq> 0"
proof (cases "mode_field access")
  case FieldStrict
  from resolve_access_strict [OF assms(1) FieldStrict]
  have res: "resolve_programs fs (run_section access) dir = Inr (programs r)"
    and lim: "max_timeout_ms r = run_max_timeout_ms (run_section access)"
      "max_args r = run_max_args (run_section access)" by auto
  let ?run = "run_section access"
  obtain ps where v: "validate_run_limits ?run = Inr ()" "validate_program_aliases (run_programs ?run) = Inr ()"
    and ps: "list_all2 (\<lambda>c p. resolve_program fs dir c = Inr p) (run_programs ?run) ps"
    and m: "programs r = fold (\<lambda>p m. m(rp_alias p \<mapsto> p)) ps (\<lambda>_. None)"
    using res by (auto simp: resolve_programs_def rbind_eq_Inr try_map_ok)
  have p: "p \<in> set ps" "rp_alias p = name"
    using fold_programs [of rp_alias ps "\<lambda>_. None" name p] assms(2) m by auto
  obtain c where c: "c \<in> set (run_programs ?run)" "resolve_program fs dir c = Inr p"
    using list_all2_set_right [OF ps p(1)] by auto
  obtain al where al: "parse_alias c = Inr al" "try_all (check_env_key al) (prog_inherit_env c) = Inr ()"
    using validate_aliases_from_ok v(2) c(1) by (fastforce simp: validate_program_aliases_def)
  have "al \<noteq> []"
    using al(1) by (auto simp: parse_alias_def map_err_eq_Inr program_alias_parse_def Let_def split: if_splits)
  moreover have "rp_alias p = al" "rp_inherit_env p = map trim (prog_inherit_env c)"
    "fs_is_file fs (rp_executable p)"
    using c(2) al(1) by (auto simp: resolve_program_def rbind_eq_Inr split: if_splits)
  moreover have "0 < run_max_args ?run" "run_max_timeout_ms ?run \<noteq> 0"
    using v(1) by (auto simp: validate_run_limits_def split: if_splits)
  ultimately show ?thesis
    using al(2) p(2) lim by (auto simp: try_all_ok check_env_key_ok)
next
  case FieldLegacy
  then show ?thesis
    using resolve_access_legacy [OF assms(1)] assms(2) by (simp add: legacy_policy_def)
qed

theorem resolved_programs_safe_witness:
  "\<exists>(r :: resolved_access_policy) p. programs r ''git'' = Some p \<and> rp_alias p = ''git'' \<and> 0 < max_args r"
proof -
  obtain r p where r: "resolve_access_policy sample_fs (Some sample_access) ''/c'' = Inr r"
    and p: "programs r ''git'' = Some p"
    using sample_resolves by auto
  have "rp_alias p = ''git'' \<and> 0 < max_args r"
    using resolved_programs_safe [OF r p] by simp
  with p have "programs r ''git'' = Some p \<and> rp_alias p = ''git'' \<and> 0 < max_args r" by simp
  then show ?thesis by blast
qed

text \<open>
  No input file policy lets a tool see the protected store, and in strict mode an admitted
  file lies below one of the declared input roots.
\<close>

theorem input_files_confined:
  assumes "allows_canonical_file (input_policy_from_access r) p = Inr ()"
  shows "\<not> path_contains_protected_segment p
    \<and> (mode r = Strict \<longrightarrow> (\<exists>root\<in>set (input_roots r). prefix (components root) (components p)))"
  using assms
  by (cases "mode r")
    (auto simp: allows_canonical_file_def is_denied_protected_path_def input_policy_from_access_def
      is_legacy_def is_within_root_def path_starts_with_def list_ex_iff split: if_splits)

theorem input_files_confined_witness:
  "\<not> path_contains_protected_segment ''/data/a.txt''
   \<and> allows_canonical_file (input_policy_from_access legacy_policy) ''/p/.kuibysheff/protected/x'' \<noteq> Inr ()"
proof -
  have a: "allows_canonical_file (input_policy_from_access legacy_policy) ''/data/a.txt'' = Inr ()"
    and b: "allows_canonical_file (input_policy_from_access legacy_policy) ''/p/.kuibysheff/protected/x''
      = Inl PROTECTED_DENY_REASON"
    by (simp_all add: allows_canonical_file_def is_denied_protected_path_def legacy_policy_def
        path_contains_protected_segment_def components_def is_absolute_def part_component_def
        component_str_def dir_defs input_policy_from_access_def is_legacy_def)
  then show ?thesis using input_files_confined [OF a] by simp
qed

end
