(* ===== verification/Tools.thy ===== *)
theory Tools
  imports Access_Facts
begin

text \<open>
  Tool dispatch (\<open>src/tool_api.rs\<close>, \<open>src/tools/mod.rs\<close>): the error type every executor
  returns, the composite executor that routes a call by its server name, and the policy
  executor in front of it. An executor is a function of the call and of the world \<open>'w\<close>
  (files, processes, MCP servers), which it returns changed.
\<close>

section \<open>Errors\<close>

datatype home_fs_error =
    HPathDenied string string
  | HIo string string string
  | HSandboxUnavailable string
  | HSandbox string
  | HProgramDenied string string
  | HInvalidArguments string
  | HUnknownTool string

datatype profile_skill_error =
    SInvalidArguments string
  | SDenied string
  | SIo string string string
  | SUnknownTool string

datatype local_tools_error =
    LPathDenied string string
  | LIo string string string
  | LInvalidArguments string
  | LUnknownTool string

datatype policy_error = ToolDenied string

datatype external_tool_error =
    UnknownServer string
  | EUnknownTool string string
  | InvalidToolArguments string string
  | Failed string

datatype tool_error =
    TExternal external_tool_error
  | THomeFs home_fs_error
  | TLocalTools local_tools_error
  | TProfileSkill profile_skill_error
  | TPolicy policy_error

text \<open>The \<open>Display\<close> texts derived by \<open>thiserror\<close>.\<close>

definition show_home_fs_error :: "home_fs_error \<Rightarrow> string" where
  "show_home_fs_error e = (case e of
     HPathDenied p err \<Rightarrow> ''path `'' @ p @ ''` is not allowed: '' @ err
   | HIo operation p source \<Rightarrow> ''operation `'' @ operation @ ''` failed for `'' @ p @ ''`: '' @ source
   | HSandboxUnavailable reason \<Rightarrow> ''sandbox unavailable: '' @ reason
   | HSandbox _ \<Rightarrow> ''sandbox failure''
   | HProgramDenied prog reason \<Rightarrow> ''program `'' @ prog @ ''` denied: '' @ reason
   | HInvalidArguments err \<Rightarrow> ''invalid arguments: '' @ err
   | HUnknownTool t \<Rightarrow> ''unknown tool `'' @ t @ ''`'')"

definition show_profile_skill_error :: "profile_skill_error \<Rightarrow> string" where
  "show_profile_skill_error e = (case e of
     SInvalidArguments err \<Rightarrow> ''invalid arguments: '' @ err
   | SDenied err \<Rightarrow> err
   | SIo operation p source \<Rightarrow> ''operation `'' @ operation @ ''` failed for `'' @ p @ ''`: '' @ source
   | SUnknownTool t \<Rightarrow> ''unknown tool `'' @ t @ ''`'')"

definition show_local_tools_error :: "local_tools_error \<Rightarrow> string" where
  "show_local_tools_error e = (case e of
     LPathDenied p err \<Rightarrow> ''path `'' @ p @ ''` is not allowed: '' @ err
   | LIo operation p source \<Rightarrow> ''operation `'' @ operation @ ''` failed for `'' @ p @ ''`: '' @ source
   | LInvalidArguments err \<Rightarrow> ''invalid arguments: '' @ err
   | LUnknownTool t \<Rightarrow> ''unknown tool `'' @ t @ ''`'')"

definition show_policy_error :: "policy_error \<Rightarrow> string" where
  "show_policy_error e = (case e of ToolDenied t \<Rightarrow> ''tool `'' @ t @ ''` denied by access policy'')"

definition show_external_error :: "external_tool_error \<Rightarrow> string" where
  "show_external_error e = (case e of
     UnknownServer s \<Rightarrow> ''unknown server `'' @ s @ ''`''
   | EUnknownTool s t \<Rightarrow> ''tool `'' @ t @ ''` is not exposed by server `'' @ s @ ''`''
   | InvalidToolArguments t err \<Rightarrow> ''invalid arguments for tool `'' @ t @ ''`: '' @ err
   | Failed msg \<Rightarrow> msg)"

definition show_tool_error :: "tool_error \<Rightarrow> string" where
  "show_tool_error e = (case e of
     TExternal x \<Rightarrow> ''external tool error: '' @ show_external_error x
   | THomeFs x \<Rightarrow> ''home filesystem error: '' @ show_home_fs_error x
   | TLocalTools x \<Rightarrow> ''local tools error: '' @ show_local_tools_error x
   | TProfileSkill x \<Rightarrow> ''profile skill error: '' @ show_profile_skill_error x
   | TPolicy x \<Rightarrow> ''policy error: '' @ show_policy_error x)"

section \<open>Executors\<close>

record 'w tool_executor =
  call_tool :: "string \<Rightarrow> string \<Rightarrow> json \<Rightarrow> 'w \<Rightarrow> (tool_error + json) \<times> 'w"
  available_tools :: "string list"

text \<open>The composite's parts: the handlers of the built-in servers and the MCP runtime.\<close>

record 'w composite_tools =
  home_call :: "string \<Rightarrow> json \<Rightarrow> 'w \<Rightarrow> (home_fs_error + json) \<times> 'w"
  local_call :: "string \<Rightarrow> json \<Rightarrow> 'w \<Rightarrow> (local_tools_error + json) \<times> 'w"
  skills_call :: "string \<Rightarrow> json \<Rightarrow> 'w \<Rightarrow> (profile_skill_error + json) \<times> 'w"
  external :: "'w tool_executor"

definition composite_call ::
  "'w composite_tools \<Rightarrow> string \<Rightarrow> string \<Rightarrow> json \<Rightarrow> 'w \<Rightarrow> (tool_error + json) \<times> 'w" where
  "composite_call c srv t args w = (case handler_for_server srv of
     Some Home \<Rightarrow> apfst (map_err THomeFs) (home_call c t args w)
   | Some LocalTools \<Rightarrow> apfst (map_err TLocalTools) (local_call c t args w)
   | Some Profile \<Rightarrow> apfst (map_err TProfileSkill) (skills_call c t args w)
   | None \<Rightarrow> call_tool (external c) srv t args w)"

definition composite_available :: "'w composite_tools \<Rightarrow> string list" where
  "composite_available c = remdups_adj (sort (available_tools (external c) @ known_builtin_names))"

definition composite_executor :: "'w composite_tools \<Rightarrow> 'w tool_executor" where
  "composite_executor c = \<lparr>call_tool = composite_call c, available_tools = composite_available c\<rparr>"

definition policy_call ::
  "'w tool_executor \<Rightarrow> effective_tool_policy \<Rightarrow> string \<Rightarrow> string \<Rightarrow> json \<Rightarrow> 'w
     \<Rightarrow> (tool_error + json) \<times> 'w" where
  "policy_call inner policy srv t args w =
     (if \<not> allows_server_tool policy srv t
      then (Inl (TPolicy (ToolDenied (srv @ ''.'' @ t))), w)
      else call_tool inner srv t args w)"

definition policy_executor :: "'w tool_executor \<Rightarrow> effective_tool_policy \<Rightarrow> 'w tool_executor" where
  "policy_executor inner policy =
     \<lparr>call_tool = policy_call inner policy, available_tools = advertised policy\<rparr>"

section \<open>Gated dispatch\<close>

text \<open>A sequence of calls, one after the other, with the answers in order.\<close>

fun run_calls ::
  "(string \<Rightarrow> string \<Rightarrow> json \<Rightarrow> 'w \<Rightarrow> (tool_error + json) \<times> 'w)
     \<Rightarrow> (string \<times> string \<times> json) list \<Rightarrow> 'w \<Rightarrow> (tool_error + json) list \<times> 'w" where
  "run_calls f [] w = ([], w)"
| "run_calls f ((s, t, a) # cs) w =
     (let (r, w1) = f s t a w; (rs, w2) = run_calls f cs w1 in (r # rs, w2))"

text \<open>
  The contract of a gate over an executor: a denied call answers the policy error without
  touching the world, an admitted call is the inner call.
\<close>

locale gated_executor =
  fixes gate :: "string \<Rightarrow> string \<Rightarrow> bool"
    and inner :: "string \<Rightarrow> string \<Rightarrow> json \<Rightarrow> 'w \<Rightarrow> (tool_error + json) \<times> 'w"
    and outer :: "string \<Rightarrow> string \<Rightarrow> json \<Rightarrow> 'w \<Rightarrow> (tool_error + json) \<times> 'w"
  assumes denied: "\<not> gate s t \<Longrightarrow> outer s t a w = (Inl (TPolicy (ToolDenied (s @ ''.'' @ t))), w)"
    and admitted: "gate s t \<Longrightarrow> outer s t a w = inner s t a w"
begin

definition kept :: "(string \<times> string \<times> json) list \<Rightarrow> (string \<times> string \<times> json) list" where
  "kept cs = filter (\<lambda>(s, t, _). gate s t) cs"

lemma run_calls_world: "snd (run_calls outer cs w) = snd (run_calls inner (kept cs) w)"
proof (induction cs arbitrary: w)
  case (Cons c cs)
  obtain s t a where c: "c = (s, t, a)" by (cases c)
  show ?case
    using Cons.IH by (cases "gate s t") (simp_all add: c kept_def denied admitted split_beta)
qed (simp add: kept_def)

lemma run_calls_length: "length (fst (run_calls outer cs w)) = length cs"
  by (induction cs arbitrary: w) (auto simp: split_beta)

lemma run_calls_denied:
  "i < length cs \<Longrightarrow> cs ! i = (s, t, a) \<Longrightarrow> \<not> gate s t \<Longrightarrow>
     fst (run_calls outer cs w) ! i = Inl (TPolicy (ToolDenied (s @ ''.'' @ t)))"
proof (induction cs arbitrary: w i)
  case (Cons c cs)
  then show ?case
    by (cases i; cases c) (auto simp: denied split_beta)
qed simp

end

interpretation policy_gate: gated_executor "allows_server_tool policy" "call_tool inner"
    "call_tool (policy_executor inner policy)"
  for policy inner
  by unfold_locales (simp_all add: policy_executor_def policy_call_def)

text \<open>
  C3: through the policy executor, any sequence of tool calls leaves the world exactly as the
  inner executor does on the calls the policy admits, and every denied call is answered with
  the policy error naming the tool: a denied call never reaches a tool.
\<close>

theorem denied_calls_never_dispatched:
  "snd (run_calls (call_tool (policy_executor inner policy)) calls w)
     = snd (run_calls (call_tool inner) (filter (\<lambda>(s, t, _). allows_server_tool policy s t) calls) w)
   \<and> (\<forall>i<length calls. \<forall>s t a. calls ! i = (s, t, a) \<and> \<not> allows_server_tool policy s t \<longrightarrow>
       fst (run_calls (call_tool (policy_executor inner policy)) calls w) ! i
         = Inl (TPolicy (ToolDenied (s @ ''.'' @ t))))"
  using policy_gate.run_calls_world [of inner policy calls w]
  by (simp add: policy_gate.kept_def policy_gate.run_calls_denied)

definition echo_executor :: "nat tool_executor" where
  "echo_executor = \<lparr>call_tool = (\<lambda>s t a w. (Inr a, Suc w)), available_tools = []\<rparr>"

theorem denied_calls_never_dispatched_witness:
  "fst (run_calls (call_tool (policy_executor echo_executor \<lparr>tools = {}\<rparr>))
      [(''home'', ''run'', JNull)] 0) ! 0 = Inl (TPolicy (ToolDenied ''home.run''))"
  using denied_calls_never_dispatched [of echo_executor "\<lparr>tools = {}\<rparr>"
      "[(''home'', ''run'', JNull)]" 0, THEN conjunct2]
  by (simp add: allows_server_tool_iff)

text \<open>
  A call that the compiled policy admits is routed by its server name alone: a built-in
  server never reaches the MCP runtime, any other server reaches only it, and an admitted call
  to a built-in server names a catalogued tool.
\<close>

theorem composite_routing:
  assumes "call_tool (policy_executor (composite_executor c) (effective_compile access skills mcp))
      srv t args w = (res, w')"
    and "allows_server_tool (effective_compile access skills mcp) srv t"
    and "\<forall>q\<in>set mcp. \<not> is_builtin_server (qt_server q)"
  shows "(is_builtin_server srv \<longrightarrow> is_known_builtin (srv @ ''.'' @ t)
        \<and> (res, w') = composite_call (c\<lparr>external := e\<rparr>) srv t args w)
    \<and> (\<not> is_builtin_server srv \<longrightarrow> QualifiedTool srv t \<in> set mcp
        \<and> (res, w') = call_tool (external c) srv t args w)"
proof -
  have eff: "QualifiedTool srv t \<in> set mcp
      \<or> QualifiedTool srv t \<in> parse_known_builtins known_builtin_names"
    and new: "qualified_new srv t = Inr (QualifiedTool srv t)"
    using assms(2) by (auto simp: allows_server_tool_iff effective_compile_def)
  have call: "(res, w') = composite_call c srv t args w"
    using assms(1,2) by (simp add: policy_executor_def policy_call_def composite_executor_def)
  have known: "is_builtin_server srv" if "QualifiedTool srv t \<in> parse_known_builtins known_builtin_names"
    using that by (auto simp: known_builtin_tools builtin_server_iff)
  show ?thesis
  proof (cases "is_builtin_server srv")
    case True
    then have "QualifiedTool srv t \<notin> set mcp" using assms(3) by auto
    then show ?thesis
      using True eff call known_builtin_tool [OF new] handler_None [of srv]
      by (auto simp: composite_call_def split: option.splits builtin_handler_id.splits)
  next
    case False
    then show ?thesis
      using eff known call handler_None [of srv] by (auto simp: composite_call_def)
  qed
qed

definition echo_composite :: "nat composite_tools" where
  "echo_composite = \<lparr>home_call = (\<lambda>t a w. (Inr a, w)), local_call = (\<lambda>t a w. (Inr a, w)),
     skills_call = (\<lambda>t a w. (Inr a, w)), external = echo_executor\<rparr>"

theorem composite_routing_witness:
  "(Inr JNull, Suc 0) = call_tool (external echo_composite) ''docs'' ''search'' JNull 0"
proof -
  let ?q = "QualifiedTool ''docs'' ''search''"
  let ?p = "effective_compile legacy_policy {?q} [?q]"
  have a: "allows_server_tool ?p ''docs'' ''search''"
    by (simp add: allows_server_tool_iff effective_compile_def qualified_new_def)
  have call: "call_tool (policy_executor (composite_executor echo_composite) ?p)
      ''docs'' ''search'' JNull 0 = (Inr JNull, Suc 0)"
    using a handler_None [of "''docs''"]
    by (simp add: policy_executor_def policy_call_def composite_executor_def composite_call_def
        builtin_server_iff echo_composite_def echo_executor_def)
  show ?thesis
    using composite_routing [OF call a] by (simp add: builtin_server_iff)
qed

end
