(* ===== verification/Engine_Text.thy ===== *)
theory Engine_Text
  imports Directive History Event_Mcp Tools
begin

text \<open>
  The texts and payloads of the agent loop (\<open>src/agent/loop/engine.rs\<close>, lines 883 to
  1097): the first messages of a run, the pinned-files message, the tracking of home paths
  that are known to be absent, the truncation of tool results, and the decoding of the
  payloads that Event-MCP handlers return. Printing JSON and serde's decoders are parameters.
\<close>

definition REJECTED_ASSISTANT :: string where
  \<open>REJECTED_ASSISTANT = ''{"done":false,"thought":"previous reply was not executed","tool_calls":[],"result":null}''\<close>

definition MODEL_TOOL_RESULT_MAX_CHARS :: nat where "MODEL_TOOL_RESULT_MAX_CHARS = 32000"
definition PINNED_MAX_CHARS :: nat where "PINNED_MAX_CHARS = 12000"

definition PINNED_HEADER :: string where
  "PINNED_HEADER = ''Pinned files (refreshed each turn; do not re-read a path listed here):''"

definition CONTEXT_MARKER :: string where
  "CONTEXT_MARKER = LF # ''...[truncated for model context]''"

section \<open>The first messages\<close>

definition USER_MESSAGE_RULES :: string where
  \<open>USER_MESSAGE_RULES = join_with [LF]
     [[],
      [],
      ''Respond with one JSON object. No markdown fences.'',
      [],
      ''Required response shape:'',
      ''{"done": bool, "thought": string, "tool_calls": [{"server":"home", "tool":"write", "arguments": {"path":"out/file.md", "content":"short text"}}], "result": string|null}'',
      [],
      ''For BSL, XML, or any file with quotes or longer than a few hundred characters, omit content and set "body":"raw". The only text allowed after the JSON object is the file itself:'',
      ''<<<FILE'',
      ''file bytes'',
      ''FILE>>>'',
      ''Use "mode":"append" to continue a file whose previous raw body was cut off. Do not put that file text inside the JSON string.'',
      [],
      ''Rules:'',
      ''- Use done=false and tool_calls while files still need to be written.'',
      ''- Use server="home" for filesystem tools.'',
      ''- One home.write per turn.'',
      ''- Set done=true only after required files were written.'',
      ''- Never describe tool calls in plain text.'']\<close>

definition build_user_message :: "string \<Rightarrow> string \<Rightarrow> string list \<Rightarrow> string" where
  "build_user_message prompt input_files_context available =
     (let attached_files = (if input_files_context = [] then ''Attached input files: none''
        else ''Attached input files (read-only context):'' @ [LF] @ input_files_context)
      in ''Goal: '' @ prompt @ [LF, LF] @ attached_files @ [LF, LF]
         @ ''Available tools: '' @ join_with '', '' available @ USER_MESSAGE_RULES)"

definition apply_current_system_prompt :: "string \<Rightarrow> chat_message list \<Rightarrow> chat_message list" where
  "apply_current_system_prompt system_prompt ms = (case ms of
     first # rest \<Rightarrow> (if role first = System then first\<lparr>content := system_prompt\<rparr> # rest
                       else mk_message System system_prompt # ms)
   | [] \<Rightarrow> [mk_message System system_prompt])"

definition initial_messages ::
  "string \<Rightarrow> string \<Rightarrow> string \<Rightarrow> string list \<Rightarrow> chat_message list option \<Rightarrow> chat_message list" where
  "initial_messages prompt system_prompt input_files_context available resume_messages =
     (let fresh = [mk_message System system_prompt,
                   mk_message User (build_user_message prompt input_files_context available)] in
      case resume_messages of None \<Rightarrow> fresh
      | Some saved \<Rightarrow>
          (if saved = [] then fresh
           else (let ms = apply_current_system_prompt system_prompt saved in
             if \<not> is_blank prompt
             then ms @ [mk_message User (build_user_message prompt input_files_context available)]
             else ms)))"

section \<open>Truncation and home paths\<close>

definition truncate_chars :: "string \<Rightarrow> nat \<Rightarrow> string" where
  "truncate_chars text limit =
     (if chars_count text \<le> limit then text
      else take_chars (limit - chars_count CONTEXT_MARKER) text @ CONTEXT_MARKER)"

definition model_tool_result :: "(json \<Rightarrow> string) \<Rightarrow> json \<Rightarrow> string" where
  "model_tool_result print p = truncate_chars (print p) MODEL_TOOL_RESULT_MAX_CHARS"

function strip_dot_slash :: "string \<Rightarrow> string" where
  "strip_dot_slash s = (case strip_prefix ''./'' s of None \<Rightarrow> s | Some rest \<Rightarrow> strip_dot_slash rest)"
  by pat_completeness auto
termination
  by (relation "measure length") (auto simp: strip_prefix_Some)

declare strip_dot_slash.simps [simp del]

definition normalize_home_path :: "string \<Rightarrow> string" where
  "normalize_home_path p =
     (let normalized = strip_dot_slash (map (\<lambda>c. if c = BACKSLASH then CHR ''/'' else c) (trim p)) in
      if 1 < length normalized \<and> ends_with normalized ''/'' then butlast normalized else normalized)"

definition home_read_path :: "string \<Rightarrow> string \<Rightarrow> json \<Rightarrow> string option" where
  "home_read_path srv t args =
     (if srv \<noteq> ''home'' \<or> (t \<noteq> ''read'' \<and> t \<noteq> ''list'') then None
      else map_option normalize_home_path (Option.bind (json_get args ''path'') json_as_str))"

section \<open>Pinned files\<close>

text \<open>\<open>Vec::insert\<close> panics behind the end: \<open>None\<close>.\<close>

definition upsert_pinned_message :: "chat_message list \<Rightarrow> string \<Rightarrow> chat_message list option" where
  "upsert_pinned_message ms text =
     (let message = mk_message User text in
      if HISTORY_PREFIX_LEN < length ms
         \<and> starts_with (content (ms ! HISTORY_PREFIX_LEN)) PINNED_HEADER
      then Some (ms[HISTORY_PREFIX_LEN := message])
      else if HISTORY_PREFIX_LEN \<le> length ms
      then Some (take HISTORY_PREFIX_LEN ms @ message # drop HISTORY_PREFIX_LEN ms)
      else None)"

definition is_safe_relative :: "path \<Rightarrow> bool" where
  "is_safe_relative p \<longleftrightarrow> p \<noteq> [] \<and> \<not> is_absolute p
     \<and> list_all (\<lambda>c. case c of Normal _ \<Rightarrow> True | _ \<Rightarrow> False) (components p)"

text \<open>The loop of \<open>load_pinned_message\<close>; \<open>read_file\<close> is \<open>read_to_string(..).ok()\<close>.\<close>

fun pinned_loop ::
  "(path \<Rightarrow> 'w \<Rightarrow> string option \<times> 'w) \<Rightarrow> path \<Rightarrow> path list \<Rightarrow> string \<Rightarrow> 'w \<Rightarrow> string \<times> 'w" where
  "pinned_loop read_file h [] out w = (out, w)"
| "pinned_loop read_file h (relative # rest) out w =
     (let out = out @ [LF] @ ''--- '' @ relative @ '' ---'' @ [LF] in
      if \<not> is_safe_relative relative
      then pinned_loop read_file h rest
             (out @ ''(skipped: path must be relative and stay inside home)'' @ [LF]) w
      else (let (text, w) = read_file (path_join h relative) w;
                out = (case text of Some t \<Rightarrow> out @ t | None \<Rightarrow> out @ ''(absent)'' @ [LF]);
                out = (if ends_with out [LF] then out else out @ [LF]) in
            if PINNED_MAX_CHARS \<le> chars_count out then (out, w)
            else pinned_loop read_file h rest out w))"

definition load_pinned_message ::
  "(path \<Rightarrow> 'w \<Rightarrow> string option \<times> 'w) \<Rightarrow> path \<Rightarrow> path list \<Rightarrow> 'w \<Rightarrow> string \<times> 'w" where
  "load_pinned_message read_file h files w =
     (let (out, w) = pinned_loop read_file h files (PINNED_HEADER @ [LF]) w
      in (truncate_chars out PINNED_MAX_CHARS, w))"

section \<open>Payloads of the stages\<close>

definition role_str :: "chat_role \<Rightarrow> string" where
  "role_str r = (case r of System \<Rightarrow> ''system'' | User \<Rightarrow> ''user'' | Assistant \<Rightarrow> ''assistant'')"

definition message_json :: "chat_message \<Rightarrow> json" where
  "message_json m = JObject [(''role'', JString (role_str (role m))), (''content'', JString (content m))]"

definition context_payload :: "chat_message list \<Rightarrow> json" where
  "context_payload ms = JObject [(''messages'', JArray (map message_json ms))]"

definition decode_context_before_model ::
  "(json \<Rightarrow> string + chat_message list) \<Rightarrow> chat_message list \<Rightarrow> json \<Rightarrow> event_mcp_error + chat_message list" where
  "decode_context_before_model decode canonical p =
     rbind (map_err (InvalidPayload ContextBeforeModel) (decode p)) (\<lambda>transformed.
     case canonical of
       [] \<Rightarrow> Inl (InvalidPayload ContextBeforeModel ''canonical message list is empty'')
     | original_system # _ \<Rightarrow> (case transformed of
         [] \<Rightarrow> Inl (InvalidPayload ContextBeforeModel ''messages must not be empty'')
       | transformed_system # _ \<Rightarrow>
           (if role original_system \<noteq> System \<or> role transformed_system \<noteq> System
               \<or> content transformed_system \<noteq> content original_system
            then Inl (InvalidPayload ContextBeforeModel
                   ''the original system message must remain the first message unchanged'')
            else Inr transformed)))"

definition decode_model_after_response ::
  "(json \<Rightarrow> string + string) \<Rightarrow> json \<Rightarrow> event_mcp_error + string" where
  "decode_model_after_response decode p = map_err (InvalidPayload ModelAfterResponse) (decode p)"

definition decode_run_before_output ::
  "(json \<Rightarrow> string + string) \<Rightarrow> json \<Rightarrow> event_mcp_error + string" where
  "decode_run_before_output decode p = map_err (InvalidPayload RunBeforeOutput) (decode p)"

section \<open>Facts\<close>

lemma initial_messages_system:
  "\<exists>rest. initial_messages p sp ctx av resume = mk_message System sp # rest"
  by (auto simp: initial_messages_def Let_def apply_current_system_prompt_def mk_message_def
      split: option.splits list.splits)

lemma decode_context_system:
  "decode_context_before_model decode ms p = Inr out \<Longrightarrow>
     \<exists>m rest. out = m # rest \<and> role m = System \<and> ms \<noteq> [] \<and> content m = content (hd ms)"
proof -
  assume ok: "decode_context_before_model decode ms p = Inr out"
  obtain t where t: "map_err (InvalidPayload ContextBeforeModel) (decode p) = Inr t"
    using ok by (cases "decode p") (auto simp: decode_context_before_model_def)
  show ?thesis
    using ok by (cases ms; cases t) (auto simp: decode_context_before_model_def t split: if_splits)
qed

lemma upsert_pinned_prefix:
  "upsert_pinned_message ms text = Some ms' \<Longrightarrow> take HISTORY_PREFIX_LEN ms' = take HISTORY_PREFIX_LEN ms
     \<and> HISTORY_PREFIX_LEN < length ms' \<and> ms' ! HISTORY_PREFIX_LEN = mk_message User text"
  by (auto simp: upsert_pinned_message_def Let_def nth_append min_def split: if_splits)

lemma chars_context_marker: "chars_count CONTEXT_MARKER = 33"
  by (simp add: CONTEXT_MARKER_def is_cont_def)

lemma truncate_chars_bound: "33 \<le> n \<Longrightarrow> chars_count (truncate_chars s n) \<le> n"
  by (auto simp: truncate_chars_def chars_context_marker)

lemma strip_dot_slash_id: "\<not> prefix ''./'' s \<Longrightarrow> strip_dot_slash s = s"
  by (simp add: strip_dot_slash.simps [of s] strip_prefix_def)

lemma strip_dot_slash_no_prefix: "\<not> prefix ''./'' (strip_dot_slash s)"
proof (induction s rule: strip_dot_slash.induct)
  case (1 s)
  then show ?case
    by (cases "strip_prefix ''./'' s")
      (auto simp: strip_dot_slash.simps [of s] strip_prefix_def split: if_splits)
qed

text \<open>
  Every pinned-files message fits its budget, whatever the files hold, and every result a
  tool returns reaches the model as at most 32000 characters; a text within its budget is
  unchanged.
\<close>

theorem model_context_budgets:
  "chars_count (fst (load_pinned_message read_file h files w)) \<le> PINNED_MAX_CHARS
   \<and> chars_count (model_tool_result print p) \<le> MODEL_TOOL_RESULT_MAX_CHARS
   \<and> (chars_count (print p) \<le> MODEL_TOOL_RESULT_MAX_CHARS \<longrightarrow> model_tool_result print p = print p)"
  using truncate_chars_bound [of PINNED_MAX_CHARS] truncate_chars_bound [of MODEL_TOOL_RESULT_MAX_CHARS]
  by (auto simp: load_pinned_message_def model_tool_result_def split_beta PINNED_MAX_CHARS_def
      MODEL_TOOL_RESULT_MAX_CHARS_def) (simp add: truncate_chars_def)

theorem model_context_budgets_witness:
  "model_tool_result (\<lambda>_. ''ok'') JNull = ''ok''"
  using model_context_budgets [of "\<lambda>_ w. (None, w)" "[]" "[]" "()" "\<lambda>_. ''ok''" JNull]
  by (simp add: MODEL_TOOL_RESULT_MAX_CHARS_def is_cont_def)

end
