(* ===== verification/Limits.thy ===== *)
theory Limits
  imports Rust_Prelude
begin

text \<open>
  Run limits and metrics (\<open>src/limits.rs\<close>). Counters keep their machine width and
  saturate as the code does. A point in time is a number of nanoseconds on the monotonic
  clock; the functions that read \<open>Instant::now()\<close> take it as an argument. The money
  type of \<open>max_cost\<close> is a type parameter here, because the Rust modules
  \<open>limits\<close> and \<open>billing\<close> import each other.
\<close>

record 'm limits_config =
  max_iterations :: u32
  max_tokens :: u64
  max_duration_sec :: u64
  max_cost :: "'m option"

record token_usage =
  prompt_tokens :: u64
  completion_tokens :: u64
  total_tokens :: u64

definition default_usage :: token_usage where
  "default_usage = \<lparr>prompt_tokens = 0, completion_tokens = 0, total_tokens = 0\<rparr>"

record run_metrics =
  started_at :: nat
  iterations :: u32
  token_usage :: token_usage

datatype limit_exceeded = LIterations | LTokens | LDuration

definition metrics_new :: "nat \<Rightarrow> run_metrics" where
  "metrics_new now = \<lparr>started_at = now, iterations = 0, token_usage = default_usage\<rparr>"

definition tokens_limit_hit :: "run_metrics \<Rightarrow> 'm limits_config \<Rightarrow> bool" where
  "tokens_limit_hit m l \<longleftrightarrow> max_tokens l \<le> total_tokens (token_usage m)"

definition duration_limit_hit :: "nat \<Rightarrow> run_metrics \<Rightarrow> 'm limits_config \<Rightarrow> bool" where
  "duration_limit_hit now m l \<longleftrightarrow>
     unat (max_duration_sec l) * 1000000000 \<le> now - started_at m"

definition elapsed_ms :: "nat \<Rightarrow> run_metrics \<Rightarrow> nat" where
  "elapsed_ms now m = (now - started_at m) div 1000000"

definition pre_step_check :: "nat \<Rightarrow> run_metrics \<Rightarrow> 'm limits_config \<Rightarrow> limit_exceeded + unit" where
  "pre_step_check now m l =
     (if max_iterations l \<le> iterations m then Inl LIterations
      else if tokens_limit_hit m l then Inl LTokens
      else if duration_limit_hit now m l then Inl LDuration
      else Inr ())"

definition begin_iteration :: "run_metrics \<Rightarrow> run_metrics" where
  "begin_iteration m = m\<lparr>iterations := saturating_add (iterations m) 1\<rparr>"

definition add_tokens :: "run_metrics \<Rightarrow> token_usage \<Rightarrow> run_metrics" where
  "add_tokens m u = m\<lparr>token_usage :=
     \<lparr>prompt_tokens = saturating_add (prompt_tokens (token_usage m)) (prompt_tokens u),
      completion_tokens = saturating_add (completion_tokens (token_usage m)) (completion_tokens u),
      total_tokens = saturating_add (total_tokens (token_usage m)) (total_tokens u)\<rparr>\<rparr>"

section \<open>Counters\<close>

lemma begin_iteration_frame [simp]:
  "started_at (begin_iteration m) = started_at m"
  "token_usage (begin_iteration m) = token_usage m"
  by (simp_all add: begin_iteration_def)

lemma add_tokens_frame [simp]:
  "started_at (add_tokens m u) = started_at m"
  "iterations (add_tokens m u) = iterations m"
  by (simp_all add: add_tokens_def)

lemma unat_begin_iteration:
  assumes "iterations m < max_iterations l"
  shows "unat (iterations (begin_iteration m)) = Suc (unat (iterations m))"
proof -
  have "unat (iterations m) < unat (max_iterations l)"
    using assms by (simp add: word_less_nat_alt)
  moreover have "unat (max_iterations l) < 2 ^ LENGTH(32)"
    by (rule unsigned_less)
  ultimately show ?thesis
    by (simp add: begin_iteration_def unat_saturating_add)
qed

lemma pre_step_check_ok:
  "pre_step_check now m l = Inr () \<longleftrightarrow>
     iterations m < max_iterations l \<and> \<not> tokens_limit_hit m l \<and> \<not> duration_limit_hit now m l"
  by (auto simp: pre_step_check_def)

text \<open>
  A step that passes the check begins an iteration that stays within the limit, and
  every counter only grows.
\<close>

theorem begin_iteration_within_limit:
  assumes "pre_step_check now m l = Inr ()"
  shows "unat (iterations (begin_iteration m)) = Suc (unat (iterations m))
    \<and> iterations (begin_iteration m) \<le> max_iterations l"
proof -
  have lt: "iterations m < max_iterations l"
    using assms by (simp add: pre_step_check_ok)
  show ?thesis
    using lt unat_begin_iteration [OF lt] by (simp add: word_le_nat_alt word_less_nat_alt)
qed

text \<open>
  Token accounting over a whole run of completions is the saturated sum: no order of
  completions and no overflow can make the recorded total smaller than a limit that the
  true total has reached.
\<close>

definition add_all_tokens :: "run_metrics \<Rightarrow> token_usage list \<Rightarrow> run_metrics" where
  "add_all_tokens m us = foldl add_tokens m us"

lemma unat_total_add_tokens:
  "unat (total_tokens (token_usage (add_tokens m u)))
   = min (unat (total_tokens (token_usage m)) + unat (total_tokens u)) (2 ^ 64 - 1)"
  by (simp add: add_tokens_def unat_saturating_add)

lemma unat_total_add_all:
  "unat (total_tokens (token_usage (add_all_tokens m us)))
   = min (unat (total_tokens (token_usage m)) + (\<Sum>u\<leftarrow>us. unat (total_tokens u))) (2 ^ 64 - 1)"
proof (induction us arbitrary: m)
  case Nil
  have "unat (total_tokens (token_usage m)) < 2 ^ LENGTH(64)"
    by (rule unsigned_less)
  then show ?case by (simp add: add_all_tokens_def)
next
  case (Cons u us)
  have "add_all_tokens m (u # us) = add_all_tokens (add_tokens m u) us"
    by (simp add: add_all_tokens_def)
  then show ?case
    using Cons.IH [of "add_tokens m u"] by (simp add: unat_total_add_tokens)
qed

lemma tokens_limit_hit_after:
  "tokens_limit_hit (add_all_tokens m us) l \<longleftrightarrow>
     unat (max_tokens l)
       \<le> unat (total_tokens (token_usage m)) + (\<Sum>u\<leftarrow>us. unat (total_tokens u))"
proof -
  have "unat (max_tokens l) < 2 ^ LENGTH(64)"
    by (rule unsigned_less)
  then have "unat (max_tokens l) \<le> 2 ^ 64 - 1"
    by simp
  then show ?thesis
    by (simp add: tokens_limit_hit_def word_le_nat_alt unat_total_add_all)
qed

theorem begin_iteration_within_limit_witness:
  "unat (iterations (begin_iteration (metrics_new 0))) = 1 \<and> iterations (begin_iteration (metrics_new 0)) \<le> 3"
  using begin_iteration_within_limit [of 0 "metrics_new 0"
      "\<lparr>max_iterations = 3, max_tokens = 100, max_duration_sec = 1, max_cost = None\<rparr>"]
  by (simp add: pre_step_check_def metrics_new_def default_usage_def tokens_limit_hit_def
      duration_limit_hit_def)

end
