(* ===== verification/Billing.thy ===== *)
theory Billing
  imports Limits
begin

text \<open>
  Exact cost accounting (\<open>src/billing/mod.rs\<close>). The decimal type of the
  \<open>rust_decimal\<close> crate is a type parameter \<open>'d\<close>; the crate's operations that the
  code calls are the fields of \<open>decimal_ops\<close>. A \<open>BTreeMap\<close> is the list of its
  entries in key order. Reading and decoding a catalog file is left to \<open>std::fs\<close> and
  \<open>serde\<close>.
\<close>

record 'd decimal_ops =
  dec_zero :: 'd
  dec_add :: "'d \<Rightarrow> 'd \<Rightarrow> 'd option"
  dec_mul :: "'d \<Rightarrow> 'd \<Rightarrow> 'd option"
  dec_div :: "'d \<Rightarrow> 'd \<Rightarrow> 'd option"
  dec_of_u64 :: "u64 \<Rightarrow> 'd"
  dec_le :: "'d \<Rightarrow> 'd \<Rightarrow> bool"
  dec_from_str_exact :: "string \<Rightarrow> 'd option"
  dec_from_scientific :: "string \<Rightarrow> 'd option"

datatype billing_error =
    InvalidDecimal string
  | InvalidCurrency string
  | ReadCatalog string string
  | ParseCatalog string
  | InvalidCatalog string
  | ArithmeticOverflow

definition billing_error_str :: "billing_error \<Rightarrow> string" where
  "billing_error_str e = (case e of
     InvalidDecimal s \<Rightarrow> ''invalid decimal amount `'' @ s @ ''`''
   | InvalidCurrency s \<Rightarrow> ''invalid currency or unit `'' @ s @ ''`''
   | ReadCatalog p source \<Rightarrow> ''failed to read pricing catalog `'' @ p @ ''`: '' @ source
   | ParseCatalog s \<Rightarrow> ''failed to parse pricing catalog: '' @ s
   | InvalidCatalog s \<Rightarrow> ''invalid pricing catalog: '' @ s
   | ArithmeticOverflow \<Rightarrow> ''decimal arithmetic overflow'')"

section \<open>Money\<close>

record 'd money =
  amount :: 'd
  currency :: string

definition validate_currency :: "string \<Rightarrow> billing_error + unit" where
  "validate_currency v =
     (if 3 \<le> length v \<and> length v \<le> 24
         \<and> list_all (\<lambda>c. is_ascii_alnum c \<or> c = CHR ''_'' \<or> c = CHR ''-'') v
      then Inr () else Inl (InvalidCurrency v))"

definition from_validated :: "'d \<Rightarrow> string \<Rightarrow> 'd money" where
  "from_validated a c = \<lparr>amount = a, currency = c\<rparr>"

definition money_new :: "'d \<Rightarrow> string \<Rightarrow> billing_error + 'd money" where
  "money_new a c = rbind (validate_currency c) (\<lambda>_. Inr (from_validated a c))"

definition parse_decimal :: "'d decimal_ops \<Rightarrow> string \<Rightarrow> billing_error + 'd" where
  "parse_decimal D v =
     (let trimmed = trim v in
      case dec_from_str_exact D trimmed of Some d \<Rightarrow> Inr d
      | None \<Rightarrow> (case dec_from_scientific D trimmed of Some d \<Rightarrow> Inr d
                 | None \<Rightarrow> Inl (InvalidDecimal trimmed)))"

definition decimal_from_value ::
  "(json \<Rightarrow> string) \<Rightarrow> 'd decimal_ops \<Rightarrow> json \<Rightarrow> billing_error + 'd" where
  "decimal_from_value to_string D v = (case v of
     JString text \<Rightarrow> parse_decimal D text
   | JNumber lexeme \<Rightarrow> parse_decimal D lexeme
   | other \<Rightarrow> Inl (InvalidDecimal (to_string other)))"

definition money_parse :: "'d decimal_ops \<Rightarrow> string \<Rightarrow> string \<Rightarrow> billing_error + 'd money" where
  "money_parse D amt c = rbind (parse_decimal D amt) (\<lambda>a. money_new a c)"

definition money_from_str :: "'d decimal_ops \<Rightarrow> string \<Rightarrow> billing_error + 'd money" where
  "money_from_str D v = (case split_once (CHR '':'') v of
     None \<Rightarrow> Inl (InvalidDecimal (v @ '' (expected CURRENCY:AMOUNT, for example USD:1.00)''))
   | Some (c, amt) \<Rightarrow> money_parse D amt c)"

definition money_checked_add ::
  "'d decimal_ops \<Rightarrow> 'd money \<Rightarrow> 'd money \<Rightarrow> billing_error + 'd money" where
  "money_checked_add D x y =
     (if currency x \<noteq> currency y
      then Inl (InvalidCurrency (''cannot add '' @ currency y @ '' to '' @ currency x))
      else (case dec_add D (amount x) (amount y) of
              None \<Rightarrow> Inl ArithmeticOverflow
            | Some a \<Rightarrow> Inr (from_validated a (currency x))))"

section \<open>Meters\<close>

datatype billable_metric =
    InputTokens | CachedInputTokens | CacheWriteInputTokens | OutputTokens | ReasoningTokens
  | AudioInputTokens | AudioOutputTokens | ImageInputTokens | ImageOutputTokens
  | WebSearchRequests | Other string

fun metric_str :: "billable_metric \<Rightarrow> string" where
  "metric_str InputTokens = ''input_tokens''"
| "metric_str CachedInputTokens = ''cached_input_tokens''"
| "metric_str CacheWriteInputTokens = ''cache_write_input_tokens''"
| "metric_str OutputTokens = ''output_tokens''"
| "metric_str ReasoningTokens = ''reasoning_tokens''"
| "metric_str AudioInputTokens = ''audio_input_tokens''"
| "metric_str AudioOutputTokens = ''audio_output_tokens''"
| "metric_str ImageInputTokens = ''image_input_tokens''"
| "metric_str ImageOutputTokens = ''image_output_tokens''"
| "metric_str WebSearchRequests = ''web_search_requests''"
| "metric_str (Other v) = v"

definition metric_char :: "char \<Rightarrow> bool" where
  "metric_char c \<longleftrightarrow> is_ascii_lower c \<or> is_ascii_digit c \<or> c = CHR ''_''"

definition metric_from_str :: "string \<Rightarrow> billing_error + billable_metric" where
  "metric_from_str v =
     (let t = trim v in
      if t = [] \<or> \<not> list_all metric_char t
      then Inl (InvalidCatalog (''invalid billable metric `'' @ v @ ''`''))
      else Inr (if t = ''input_tokens'' then InputTokens
        else if t = ''cached_input_tokens'' then CachedInputTokens
        else if t = ''cache_write_input_tokens'' then CacheWriteInputTokens
        else if t = ''output_tokens'' then OutputTokens
        else if t = ''reasoning_tokens'' then ReasoningTokens
        else if t = ''audio_input_tokens'' then AudioInputTokens
        else if t = ''audio_output_tokens'' then AudioOutputTokens
        else if t = ''image_input_tokens'' then ImageInputTokens
        else if t = ''image_output_tokens'' then ImageOutputTokens
        else if t = ''web_search_requests'' then WebSearchRequests
        else Other t))"

section \<open>Attempts and resolutions\<close>

record 'd reported_cost =
  rc_amount :: 'd
  rc_unit :: "string option"
  rc_source :: string
  rc_details :: "(string \<times> 'd) list"

record 'd attempt_accounting =
  attempt :: u32
  provider_id :: string
  requested_model :: string
  resolved_model :: "string option"
  service_tier :: "string option"
  request_id :: "string option"
  http_status :: "16 word option"
  occurred_at_ms :: u128
  usage_reported :: bool
  usage :: token_usage
  billable_metrics :: "(billable_metric \<times> u64) list"
  reported_cost :: "'d reported_cost option"
  error :: "string option"

definition model_for_pricing :: "'d attempt_accounting \<Rightarrow> string" where
  "model_for_pricing a = (case resolved_model a of Some m \<Rightarrow> m | None \<Rightarrow> requested_model a)"

datatype cost_precision = Actual | Calculated | Estimated

record 'd cost_line_item =
  metric :: billable_metric
  quantity :: u64
  li_amount :: 'd

record 'd priced =
  p_money :: "'d money"
  p_source :: string
  p_precision :: cost_precision
  p_version :: "string option"
  p_line_items :: "'d cost_line_item list"

datatype 'd cost_resolution = Priced "'d priced" | Unpriced string

text \<open>
  A resolver is asynchronous and may call out (the MCP calculator), so it runs in a world
  \<open>'w\<close> that it may change.
\<close>

type_synonym ('d, 'w) resolver = "'d attempt_accounting \<Rightarrow> 'w \<Rightarrow> 'd cost_resolution \<times> 'w"

definition unavailable_resolver :: "string \<Rightarrow> ('d, 'w) resolver" where
  "unavailable_resolver reason a w = (Unpriced reason, w)"

fun chain_loop ::
  "(string \<times> ('d, 'w) resolver) list \<Rightarrow> 'd attempt_accounting \<Rightarrow> 'w \<Rightarrow> string list
   \<Rightarrow> 'd cost_resolution \<times> 'w" where
  "chain_loop [] a w reasons =
     (Unpriced (if reasons = [] then ''no billing sources configured''
                else join_with ''; '' reasons), w)"
| "chain_loop ((name, res) # rs) a w reasons =
     (case res a w of
        (Priced p, w') \<Rightarrow> (Priced p, w')
      | (Unpriced reason, w') \<Rightarrow> chain_loop rs a w' (reasons @ [name @ '': '' @ reason]))"

definition chain_resolve :: "(string \<times> ('d, 'w) resolver) list \<Rightarrow> ('d, 'w) resolver" where
  "chain_resolve rs a w = chain_loop rs a w []"

section \<open>Provider-reported cost\<close>

definition provider_reported_new ::
  "string \<Rightarrow> string option \<Rightarrow> billing_error + string \<times> string option" where
  "provider_reported_new target default_unit =
     rbind (validate_currency target) (\<lambda>_.
       rbind (case default_unit of None \<Rightarrow> Inr () | Some u \<Rightarrow> validate_currency u) (\<lambda>_.
         Inr (target, default_unit)))"

definition provider_reported_resolve ::
  "string \<times> string option \<Rightarrow> 'd attempt_accounting \<Rightarrow> 'd cost_resolution" where
  "provider_reported_resolve r a =
     (let (target_currency, default_unit) = r in
      case reported_cost a of
        None \<Rightarrow> Unpriced ''provider did not report cost''
      | Some reported \<Rightarrow>
          (case (case rc_unit reported of Some u \<Rightarrow> Some u | None \<Rightarrow> default_unit) of
             None \<Rightarrow> Unpriced ''reported amount has no currency/unit mapping''
           | Some u \<Rightarrow>
               (if u \<noteq> target_currency
                then Unpriced (''reported unit `'' @ u @ ''` cannot be aggregated as `''
                       @ target_currency @ ''` without conversion'')
                else (case money_new (rc_amount reported) u of
                  Inr m \<Rightarrow> Priced \<lparr>p_money = m, p_source = rc_source reported,
                     p_precision = Actual, p_version = None,
                     p_line_items = map (\<lambda>(k, v). \<lparr>metric =
                         (case metric_from_str k of Inr mt \<Rightarrow> mt | Inl _ \<Rightarrow> Other k),
                         quantity = 0, li_amount = v\<rparr>) (rc_details reported)\<rparr>
                | Inl e \<Rightarrow> Unpriced (billing_error_str e)))))"

section \<open>The price catalog\<close>

record 'd meter_rate =
  mr_amount :: 'd
  per :: u64

record 'd pricing_rule =
  pr_provider_id :: string
  pr_model :: string
  pr_service_tier :: "string option"
  effective_from_ms :: u128
  effective_until_ms :: "u128 option"
  pr_currency :: string
  fixed_cost :: "'d option"
  rates :: "(billable_metric \<times> 'd meter_rate) list"

record 'd pricing_catalog =
  version :: string
  pc_source :: string
  rules :: "'d pricing_rule list"

definition U128_MAX :: u128 where
  "U128_MAX = - 1"

definition until_or_max :: "'d pricing_rule \<Rightarrow> u128" where
  "until_or_max r = (case effective_until_ms r of None \<Rightarrow> U128_MAX | Some u \<Rightarrow> u)"

definition same_selector :: "'d pricing_rule \<Rightarrow> 'd pricing_rule \<Rightarrow> bool" where
  "same_selector r s \<longleftrightarrow> pr_provider_id r = pr_provider_id s \<and> pr_model r = pr_model s
     \<and> pr_service_tier r = pr_service_tier s"

definition windows_overlap :: "'d pricing_rule \<Rightarrow> 'd pricing_rule \<Rightarrow> bool" where
  "windows_overlap r s \<longleftrightarrow>
     effective_from_ms r < until_or_max s \<and> effective_from_ms s < until_or_max r"

text \<open>The \<open>{:?}\<close> rendering of an optional string, for text without control characters.\<close>

definition debug_opt :: "string option \<Rightarrow> string" where
  "debug_opt s = (case s of None \<Rightarrow> ''None''
   | Some t \<Rightarrow> ''Some('' @ [CHR 0x22]
       @ concat (map (\<lambda>c. if c = CHR 0x22 \<or> c = CHR 0x5C then [CHR 0x5C, c] else [c]) t)
       @ [CHR 0x22] @ '')'')"

text \<open>
  One round of the loop of \<open>PricingCatalog::validate\<close>: the windows seen so far, the rule,
  and the rules after it.
\<close>

definition rule_key :: "'d pricing_rule \<Rightarrow>
    string \<times> string \<times> string option \<times> u128 \<times> u128 option" where
  "rule_key r = (pr_provider_id r, pr_model r, pr_service_tier r, effective_from_ms r,
     effective_until_ms r)"

definition rule_id :: "'d pricing_rule \<Rightarrow> string" where
  "rule_id r = pr_provider_id r @ ''/'' @ pr_model r"

definition validate_rule ::
  "(string \<times> string \<times> string option \<times> u128 \<times> u128 option) list \<Rightarrow> 'd pricing_rule
   \<Rightarrow> 'd pricing_rule list \<Rightarrow> billing_error + unit" where
  "validate_rule seen r later =
     (if is_blank (pr_provider_id r) \<or> is_blank (pr_model r)
      then Inl (InvalidCatalog ''provider_id and model must not be empty'')
      else rbind (validate_currency (pr_currency r)) (\<lambda>_.
        if (case effective_until_ms r of None \<Rightarrow> False | Some u \<Rightarrow> u \<le> effective_from_ms r)
        then Inl (InvalidCatalog (''invalid effective window for '' @ rule_id r))
        else if fixed_cost r = None \<and> rates r = []
        then Inl (InvalidCatalog (''rule '' @ rule_id r @ '' has no fixed_cost or rates''))
        else if rule_key r \<in> set seen
        then Inl (InvalidCatalog (''duplicate pricing window for '' @ rule_id r))
        else rbind (try_all (\<lambda>other. if same_selector r other \<and> windows_overlap r other
              then Inl (InvalidCatalog (''overlapping pricing windows for '' @ rule_id r
                     @ '' tier '' @ debug_opt (pr_service_tier r)))
              else Inr ()) later) (\<lambda>_.
          try_all (\<lambda>(m, rate). if per rate = 0
              then Inl (InvalidCatalog ''meter rate `per` must be greater than zero'')
              else Inr ()) (rates r))))"

fun validate_rules ::
  "(string \<times> string \<times> string option \<times> u128 \<times> u128 option) list \<Rightarrow> 'd pricing_rule list
   \<Rightarrow> billing_error + unit" where
  "validate_rules seen [] = Inr ()"
| "validate_rules seen (r # later) =
     rbind (validate_rule seen r later) (\<lambda>_. validate_rules (rule_key r # seen) later)"

definition catalog_validate :: "'d pricing_catalog \<Rightarrow> billing_error + unit" where
  "catalog_validate c =
     (if is_blank (version c) \<or> is_blank (pc_source c)
      then Inl (InvalidCatalog ''version and source must not be empty'')
      else validate_rules [] (rules c))"

record 'd catalog_resolver =
  catalog :: "'d pricing_catalog"
  target_currency :: string

definition catalog_resolver_new ::
  "'d pricing_catalog \<Rightarrow> string \<Rightarrow> billing_error + 'd catalog_resolver" where
  "catalog_resolver_new c target =
     rbind (catalog_validate c) (\<lambda>_. rbind (validate_currency target) (\<lambda>_.
       Inr \<lparr>catalog = c, target_currency = target\<rparr>))"

definition rule_matches :: "'d attempt_accounting \<Rightarrow> 'd pricing_rule \<Rightarrow> bool" where
  "rule_matches a r \<longleftrightarrow>
     pr_provider_id r = provider_id a \<and> pr_model r = model_for_pricing a
     \<and> pr_service_tier r = service_tier a \<and> effective_from_ms r \<le> occurred_at_ms a
     \<and> (case effective_until_ms r of None \<Rightarrow> True | Some u \<Rightarrow> occurred_at_ms a < u)"

definition matching_rule ::
  "'d catalog_resolver \<Rightarrow> 'd attempt_accounting \<Rightarrow> string + 'd pricing_rule" where
  "matching_rule cr a = (case filter (rule_matches a) (rules (catalog cr)) of
     [r] \<Rightarrow> Inr r
   | [] \<Rightarrow> Inl (''no effective rule for '' @ provider_id a @ ''/'' @ model_for_pricing a
             @ '' tier '' @ debug_opt (service_tier a))
   | _ \<Rightarrow> Inl (''ambiguous effective rules for '' @ provider_id a @ ''/'' @ model_for_pricing a))"

text \<open>The metering loop: the running total and the lines so far, \<open>None\<close> on overflow.\<close>

fun meter_loop ::
  "'d decimal_ops \<Rightarrow> (billable_metric \<times> u64) list \<Rightarrow> (billable_metric \<times> 'd meter_rate) list
   \<Rightarrow> 'd \<Rightarrow> 'd cost_line_item list \<Rightarrow> ('d \<times> 'd cost_line_item list) option" where
  "meter_loop D ms [] tot items = Some (tot, items)"
| "meter_loop D ms ((m, rate) # rs) tot items =
     (let q = (case map_of ms m of None \<Rightarrow> 0 | Some q \<Rightarrow> q) in
      case Option.bind (dec_mul D (mr_amount rate) (dec_of_u64 D q))
             (\<lambda>v. dec_div D v (dec_of_u64 D (per rate))) of
        None \<Rightarrow> None
      | Some amt \<Rightarrow>
          (case dec_add D tot amt of
             None \<Rightarrow> None
           | Some tot' \<Rightarrow> meter_loop D ms rs tot'
               (items @ [\<lparr>metric = m, quantity = q, li_amount = amt\<rparr>])))"

definition catalog_resolve ::
  "'d decimal_ops \<Rightarrow> 'd catalog_resolver \<Rightarrow> 'd attempt_accounting \<Rightarrow> 'd cost_resolution" where
  "catalog_resolve D cr a = (case matching_rule cr a of
     Inl reason \<Rightarrow> Unpriced reason
   | Inr r \<Rightarrow>
       (if pr_currency r \<noteq> target_currency cr
        then Unpriced (''catalog rule currency `'' @ pr_currency r @ ''` differs from target `''
               @ target_currency cr @ ''`'')
        else if \<not> usage_reported a \<and> rates r \<noteq> []
        then Unpriced ''provider usage missing for metered catalog rule''
        else
          (let tot = (case fixed_cost r of None \<Rightarrow> dec_zero D | Some f \<Rightarrow> f);
               items = (case fixed_cost r of None \<Rightarrow> []
                 | Some f \<Rightarrow> [\<lparr>metric = Other ''request'', quantity = 1, li_amount = f\<rparr>]) in
           case meter_loop D (billable_metrics a) (rates r) tot items of
             None \<Rightarrow> Unpriced (billing_error_str ArithmeticOverflow)
           | Some (tot', items') \<Rightarrow>
               (case money_new tot' (pr_currency r) of
                  Inr m \<Rightarrow> Priced \<lparr>p_money = m, p_source = ''catalog:'' @ pc_source (catalog cr),
                     p_precision = Calculated, p_version = Some (version (catalog cr)),
                     p_line_items = items'\<rparr>
                | Inl e \<Rightarrow> Unpriced (billing_error_str e)))))"

section \<open>The run's ledger\<close>

record 'd request_cost =
  q_iteration :: u32
  q_attempt :: u32
  q_provider_id :: string
  q_request_id :: "string option"
  q_model :: string
  q_service_tier :: "string option"
  q_http_status :: "16 word option"
  q_usage_reported :: bool
  q_usage :: token_usage
  q_billable_metrics :: "(billable_metric \<times> u64) list"
  q_amount :: "'d money option"
  q_source :: "string option"
  q_precision :: "cost_precision option"
  q_version :: "string option"
  q_line_items :: "'d cost_line_item list"
  q_reason :: "string option"

datatype cost_report_status = Complete | Partial | Unavailable
datatype budget_status = NotConfigured | Degraded | BudgetLimitReached | Enforced

record 'd run_cost_report =
  status :: cost_report_status
  known_total :: "'d money option"
  priced_requests :: u32
  unpriced_requests :: u32
  budget_status :: budget_status
  requests :: "'d request_cost list"

definition default_cost_report :: "'d run_cost_report" where
  "default_cost_report = \<lparr>status = Unavailable, known_total = None, priced_requests = 0,
     unpriced_requests = 0, budget_status = NotConfigured, requests = []\<rparr>"

record 'd run_cost_tracker =
  t_target :: string
  t_total :: 'd
  t_priced :: u32
  t_unpriced :: u32
  t_requests :: "'d request_cost list"
  t_max_cost :: "'d money option"

definition tracker_new ::
  "'d decimal_ops \<Rightarrow> string \<Rightarrow> 'd money option \<Rightarrow> billing_error + 'd run_cost_tracker" where
  "tracker_new D target limit =
     rbind (validate_currency target) (\<lambda>_.
       if (case limit of None \<Rightarrow> False | Some l \<Rightarrow> currency l \<noteq> target)
       then Inl (InvalidCurrency (''max_cost currency `''
              @ (case limit of None \<Rightarrow> [] | Some l \<Rightarrow> currency l)
              @ ''` differs from target `'' @ target @ ''`''))
       else Inr \<lparr>t_target = target, t_total = dec_zero D, t_priced = 0, t_unpriced = 0,
              t_requests = [], t_max_cost = limit\<rparr>)"

definition request_row :: "u32 \<Rightarrow> 'd attempt_accounting \<Rightarrow> 'd request_cost" where
  "request_row it a = \<lparr>q_iteration = it, q_attempt = attempt a, q_provider_id = provider_id a,
     q_request_id = request_id a, q_model = model_for_pricing a, q_service_tier = service_tier a,
     q_http_status = http_status a, q_usage_reported = usage_reported a, q_usage = usage a,
     q_billable_metrics = billable_metrics a, q_amount = None, q_source = None,
     q_precision = None, q_version = None, q_line_items = [], q_reason = None\<rparr>"

definition record_unpriced ::
  "u32 \<Rightarrow> 'd attempt_accounting \<Rightarrow> string \<Rightarrow> 'd run_cost_tracker \<Rightarrow> 'd run_cost_tracker" where
  "record_unpriced it a reason t = t\<lparr>t_unpriced := saturating_add (t_unpriced t) 1,
     t_requests := t_requests t @ [(request_row it a)\<lparr>q_reason := Some reason\<rparr>]\<rparr>"

definition record_cost ::
  "'d decimal_ops \<Rightarrow> u32 \<Rightarrow> 'd attempt_accounting \<Rightarrow> 'd cost_resolution
   \<Rightarrow> 'd run_cost_tracker \<Rightarrow> 'd run_cost_tracker" where
  "record_cost D it a resolution t = (case resolution of
     Priced p \<Rightarrow>
       (case (if currency (p_money p) = t_target t
              then dec_add D (t_total t) (amount (p_money p)) else None) of
          Some tot \<Rightarrow> t\<lparr>t_total := tot, t_priced := saturating_add (t_priced t) 1,
            t_requests := t_requests t @ [(request_row it a)\<lparr>q_amount := Some (p_money p),
              q_source := Some (p_source p), q_precision := Some (p_precision p),
              q_version := p_version p, q_line_items := p_line_items p\<rparr>]\<rparr>
        | None \<Rightarrow> record_unpriced it a ''currency mismatch or total overflow'' t)
   | Unpriced reason \<Rightarrow> record_unpriced it a reason t)"

definition limit_hit :: "'d decimal_ops \<Rightarrow> 'd run_cost_tracker \<Rightarrow> bool" where
  "limit_hit D t = (case t_max_cost t of None \<Rightarrow> False | Some l \<Rightarrow> dec_le D (amount l) (t_total t))"

definition request_count :: "'d run_cost_tracker \<Rightarrow> nat" where
  "request_count t = length (t_requests t)"

text \<open>\<open>requests.get(start..)\<close> is empty when \<open>start\<close> is past the end, as \<open>drop\<close> is.\<close>

definition requests_since :: "nat \<Rightarrow> 'd run_cost_tracker \<Rightarrow> 'd request_cost list" where
  "requests_since start t = drop start (t_requests t)"

definition cost_report :: "'d decimal_ops \<Rightarrow> 'd run_cost_tracker \<Rightarrow> 'd run_cost_report" where
  "cost_report D t =
     \<lparr>status = (if t_requests t = [] \<or> t_priced t = 0 then Unavailable
               else if t_unpriced t = 0 then Complete else Partial),
      known_total = (if 0 < t_priced t then Some (from_validated (t_total t) (t_target t)) else None),
      priced_requests = t_priced t,
      unpriced_requests = t_unpriced t,
      budget_status = (if t_max_cost t = None then NotConfigured
        else if 0 < t_unpriced t then Degraded
        else if limit_hit D t then BudgetLimitReached else Enforced),
      requests = t_requests t\<rparr>"

section \<open>Meter names round trip\<close>

lemma metric_char_visible: "metric_char c \<Longrightarrow> visible c"
  by (auto simp: metric_char_def visible_def is_ascii_lower_def is_ascii_digit_def)

lemma trim_metric:
  assumes "list_all metric_char v" and "v \<noteq> []"
  shows "trim v = v"
proof (rule trim_visible)
  show "visible (hd v)" and "visible (last v)"
    using assms by (simp_all add: list_all_iff metric_char_visible)
qed (use assms in simp)

definition named_metrics :: "billable_metric list" where
  "named_metrics = [InputTokens, CachedInputTokens, CacheWriteInputTokens, OutputTokens,
     ReasoningTokens, AudioInputTokens, AudioOutputTokens, ImageInputTokens, ImageOutputTokens,
     WebSearchRequests]"

text \<open>A metric is canonical when it is named, or other text that is not a metric's name.\<close>

definition canonical_metric :: "billable_metric \<Rightarrow> bool" where
  "canonical_metric m \<longleftrightarrow> m \<in> set named_metrics
     \<or> (\<exists>v. m = Other v \<and> v \<noteq> [] \<and> list_all metric_char v
          \<and> v \<notin> set (map metric_str named_metrics))"

lemma metric_str_chars:
  "m \<in> set named_metrics \<Longrightarrow> list_all metric_char (metric_str m) \<and> metric_str m \<noteq> []"
  unfolding named_metrics_def set_simps insert_iff
  by (elim disjE) (simp_all add: metric_char_def is_ascii_lower_def is_ascii_digit_def)

text \<open>The result of parsing, as a chain of cases.\<close>

lemma metric_from_str_cases:
  assumes "metric_from_str v = Inr m"
  obtains (named) "m \<in> set named_metrics" "metric_str m = trim v"
  | (other) "m = Other (trim v)" "trim v \<noteq> []" "list_all metric_char (trim v)"
      "trim v \<notin> set (map metric_str named_metrics)"
proof -
  have ok: "trim v \<noteq> []" "list_all metric_char (trim v)"
    using assms by (simp_all add: metric_from_str_def Let_def split: if_split_asm)
  show ?thesis
  proof (cases "trim v \<in> set (map metric_str named_metrics)")
    case True
    then have "m \<in> set named_metrics \<and> metric_str m = trim v"
      using assms ok unfolding named_metrics_def list.map set_simps insert_iff
      by (elim disjE) (simp_all add: metric_from_str_def)
    then show ?thesis using named by simp
  next
    case False
    then have "m = Other (trim v)"
      using assms ok by (simp add: metric_from_str_def named_metrics_def)
    then show ?thesis using other ok False by simp
  qed
qed

lemma metric_from_str_canonical: "metric_from_str v = Inr m \<Longrightarrow> canonical_metric m"
  by (erule metric_from_str_cases) (auto simp: canonical_metric_def)

lemma metric_from_str_text: "metric_from_str v = Inr m \<Longrightarrow> metric_str m = trim v"
  by (erule metric_from_str_cases) auto

lemma metric_from_str_named: "m \<in> set named_metrics \<Longrightarrow> metric_from_str (metric_str m) = Inr m"
proof -
  assume m: "m \<in> set named_metrics"
  then have "trim (metric_str m) = metric_str m"
    using metric_str_chars trim_metric by blast
  with m metric_str_chars [OF m] show ?thesis
    unfolding named_metrics_def set_simps insert_iff
    by (elim disjE) (simp_all add: metric_from_str_def)
qed

text \<open>
  Parsing a meter name yields a metric whose name is the trimmed text, and the name of
  every metric that parsing can produce parses back to it; so the names in a catalog and
  the names in the ledger identify meters unambiguously.
\<close>

theorem metric_name_roundtrip:
  "(metric_from_str v = Inr m \<longrightarrow> metric_str m = trim v \<and> metric_from_str (metric_str m) = Inr m)"
proof
  assume p: "metric_from_str v = Inr m"
  from metric_from_str_canonical [OF p] have "metric_from_str (metric_str m) = Inr m"
    unfolding canonical_metric_def
  proof
    assume "\<exists>v. m = Other v \<and> v \<noteq> [] \<and> list_all metric_char v \<and> v \<notin> set (map metric_str named_metrics)"
    then show ?thesis
      by (auto simp: metric_from_str_def trim_metric named_metrics_def)
  qed (rule metric_from_str_named)
  with metric_from_str_text [OF p]
  show "metric_str m = trim v \<and> metric_from_str (metric_str m) = Inr m" by simp
qed

theorem metric_name_roundtrip_witness:
  "metric_from_str ''output_tokens'' = Inr OutputTokens
   \<and> metric_from_str (metric_str OutputTokens) = Inr OutputTokens"
proof -
  have t: "trim ''output_tokens'' = ''output_tokens''"
    by (rule trim_visible) (simp_all add: visible_def)
  have h: "metric_from_str ''output_tokens'' = Inr OutputTokens"
    by (simp add: metric_from_str_def t metric_char_def is_ascii_lower_def is_ascii_digit_def)
  from h show ?thesis
    using metric_name_roundtrip [of "''output_tokens''" OutputTokens] by blast
qed

section \<open>A validated catalog prices unambiguously\<close>

lemma validate_rules_pairwise:
  "validate_rules seen rs = Inr () \<Longrightarrow>
     sorted_wrt (\<lambda>r s. \<not> (same_selector r s \<and> windows_overlap r s)) rs"
proof (induction rs arbitrary: seen)
  case (Cons r rs)
  then have "validate_rule seen r rs = Inr ()" and "validate_rules (rule_key r # seen) rs = Inr ()"
    by (auto simp: rbind_eq_Inr)
  then show ?case
    using Cons.IH by (auto simp: validate_rule_def rbind_eq_Inr try_all_ok split: if_splits)
qed simp

lemma matching_rules_overlap:
  assumes "rule_matches a r" and "rule_matches a s" and "occurred_at_ms a < U128_MAX"
  shows "same_selector r s \<and> windows_overlap r s"
proof -
  have "occurred_at_ms a < until_or_max r" and "occurred_at_ms a < until_or_max s"
    using assms by (auto simp: rule_matches_def until_or_max_def split: option.splits)
  then show ?thesis
    using assms by (auto simp: rule_matches_def same_selector_def windows_overlap_def
        intro: order.strict_trans1)
qed

lemma filter_matches_short:
  assumes "sorted_wrt (\<lambda>r s. \<not> (same_selector r s \<and> windows_overlap r s)) rs"
    and "occurred_at_ms a < U128_MAX"
  shows "length (filter (rule_matches a) rs) \<le> 1"
  using assms(1)
proof (induction rs)
  case (Cons r rs)
  show ?case
  proof (cases "rule_matches a r")
    case True
    then have "filter (rule_matches a) rs = []"
      using Cons.prems matching_rules_overlap [OF True _ assms(2)]
      by (auto simp: filter_empty_conv)
    then show ?thesis by simp
  next
    case False
    then show ?thesis using Cons by simp
  qed
qed simp

text \<open>
  In a validated catalog at most one rule applies to an attempt, so the resolver never
  answers that the rules are ambiguous: it returns the one rule that matches, or reports
  that there is none. (The attempt's time must be below the last millisecond of
  \<open>u128\<close>, which stands for an open window in the overlap test.)
\<close>

theorem validated_catalog_unambiguous:
  assumes "catalog_resolver_new c target = Inr cr" and "occurred_at_ms a < U128_MAX"
  shows "(\<exists>r. matching_rule cr a = Inr r \<and> r \<in> set (rules c) \<and> rule_matches a r
            \<and> (\<forall>s\<in>set (rules c). rule_matches a s \<longrightarrow> s = r))
       \<or> ((\<forall>s\<in>set (rules c). \<not> rule_matches a s)
            \<and> matching_rule cr a = Inl (''no effective rule for '' @ provider_id a @ ''/''
                @ model_for_pricing a @ '' tier '' @ debug_opt (service_tier a)))"
proof -
  have cr: "catalog cr = c" and val: "catalog_validate c = Inr ()"
    using assms(1) by (auto simp: catalog_resolver_new_def rbind_eq_Inr)
  have "length (filter (rule_matches a) (rules c)) \<le> 1"
    using val validate_rules_pairwise
    by (intro filter_matches_short [OF _ assms(2)]) (auto simp: catalog_validate_def split: if_splits)
  then consider "filter (rule_matches a) (rules c) = []"
    | r where "filter (rule_matches a) (rules c) = [r]"
    by (cases "filter (rule_matches a) (rules c)"; cases "tl (filter (rule_matches a) (rules c))") auto
  then show ?thesis
  proof cases
    case 1
    then show ?thesis
      by (auto simp: matching_rule_def cr filter_empty_conv)
  next
    case (2 r)
    have "set (filter (rule_matches a) (rules c)) = {r}"
      by (simp add: 2)
    then have "r \<in> set (rules c) \<and> rule_matches a r \<and> (\<forall>s\<in>set (rules c). rule_matches a s \<longrightarrow> s = r)"
      by auto
    then show ?thesis
      by (auto simp: matching_rule_def cr 2)
  qed
qed

definition sample_rule :: "u128 \<Rightarrow> u128 option \<Rightarrow> nat pricing_rule" where
  "sample_rule from until = \<lparr>pr_provider_id = ''p'', pr_model = ''m'', pr_service_tier = None,
     effective_from_ms = from, effective_until_ms = until, pr_currency = ''USD'',
     fixed_cost = Some 1, rates = []\<rparr>"

definition sample_catalog :: "nat pricing_rule list \<Rightarrow> nat pricing_catalog" where
  "sample_catalog rs = \<lparr>version = ''1'', pc_source = ''local'', rules = rs\<rparr>"

definition sample_attempt :: "u128 \<Rightarrow> nat attempt_accounting" where
  "sample_attempt at = \<lparr>attempt = 1, provider_id = ''p'', requested_model = ''m'',
     resolved_model = None, service_tier = None, request_id = None, http_status = None,
     occurred_at_ms = at, usage_reported = True, usage = default_usage, billable_metrics = [],
     reported_cost = None, error = None\<rparr>"

lemma not_blank_visible: "visible c \<Longrightarrow> \<not> is_blank (c # s)"
  by (simp add: is_blank_def trim_Cons_visible)

lemmas sample_defs = sample_rule_def sample_catalog_def sample_attempt_def not_blank_visible
  visible_def validate_currency_def is_ascii_alnum_def is_ascii_upper_def is_ascii_lower_def
  is_ascii_digit_def

lemma sample_catalog_valid:
  "catalog_resolver_new (sample_catalog [sample_rule 0 (Some 10), sample_rule 10 None]) ''USD''
   = Inr \<lparr>catalog = sample_catalog [sample_rule 0 (Some 10), sample_rule 10 None],
          target_currency = ''USD''\<rparr>"
  by (simp add: catalog_resolver_new_def catalog_validate_def validate_rule_def rule_key_def
      windows_overlap_def until_or_max_def same_selector_def sample_defs)

theorem validated_catalog_unambiguous_witness:
  "matching_rule \<lparr>catalog = sample_catalog [sample_rule 0 (Some 10), sample_rule 10 None],
      target_currency = ''USD''\<rparr> (sample_attempt 12) = Inr (sample_rule 10 None)"
proof -
  have u: "occurred_at_ms (sample_attempt 12) < U128_MAX"
    by (simp add: sample_attempt_def U128_MAX_def)
  have m: "rule_matches (sample_attempt 12) (sample_rule 10 None)"
    by (simp add: rule_matches_def sample_defs model_for_pricing_def)
  from validated_catalog_unambiguous [OF sample_catalog_valid u] m show ?thesis
    by (auto simp: sample_catalog_def)
qed

section \<open>Resolvers keep to the target currency\<close>

text \<open>
  The interface between the resolvers and the ledger: a resolver for a target currency that
  never prices in another one. The ledger then accepts every priced result whose sum is
  representable. The chain of such resolvers is one itself.
\<close>

locale currency_resolver =
  fixes resolve :: "('d, 'w) resolver" and target :: string
  assumes in_target: "resolve a w = (Priced p, w') \<Longrightarrow> currency (p_money p) = target"
begin

lemma recorded:
  assumes "resolve a w = (Priced p, w')" and "t_target t = target"
    and "dec_add D (t_total t) (amount (p_money p)) = Some tot"
  shows "t_total (record_cost D it a (Priced p) t) = tot
    \<and> t_unpriced (record_cost D it a (Priced p) t) = t_unpriced t"
  using assms in_target [OF assms(1)] by (simp add: record_cost_def)

end

definition pure_resolver ::
  "('d attempt_accounting \<Rightarrow> 'd cost_resolution) \<Rightarrow> ('d, 'w) resolver" where
  "pure_resolver f a w = (f a, w)"

lemma money_new_currency: "money_new x c = Inr m \<Longrightarrow> currency m = c"
  by (auto simp: money_new_def rbind_eq_Inr from_validated_def)

interpretation reported: currency_resolver
  "pure_resolver (provider_reported_resolve (target, unit))" target for target unit
  by unfold_locales
    (auto simp: pure_resolver_def provider_reported_resolve_def Let_def money_new_currency
      split: option.splits if_splits sum.splits)

interpretation catalogued: currency_resolver
  "pure_resolver (catalog_resolve D cr)" "target_currency cr" for D cr
  by unfold_locales
    (auto simp: pure_resolver_def catalog_resolve_def Let_def money_new_currency
      split: option.splits if_splits sum.splits)

interpretation unavailable: currency_resolver "unavailable_resolver reason" target
  for reason target
  by unfold_locales (simp add: unavailable_resolver_def)

lemma chain_loop_in_target:
  assumes "\<forall>(n, r)\<in>set rs. currency_resolver r target"
    and "chain_loop rs a w reasons = (Priced p, w')"
  shows "currency (p_money p) = target"
  using assms
proof (induction rs arbitrary: w reasons)
  case (Cons nr rs)
  obtain n r where nr: "nr = (n, r)" by (cases nr)
  obtain x w'' where x: "r a w = (x, w'')" by (cases "r a w")
  show ?case
  proof (cases x)
    case (Priced q)
    then show ?thesis
      using Cons.prems nr x currency_resolver.in_target [of r target a w q w''] by auto
  next
    case (Unpriced y)
    then show ?thesis
      using Cons.prems Cons.IH nr x by auto
  qed
qed simp

lemma chain_currency_resolver:
  assumes "\<forall>(n, r)\<in>set rs. currency_resolver r target"
  shows "currency_resolver (chain_resolve rs) target"
  by unfold_locales (use chain_loop_in_target [OF assms] in \<open>auto simp: chain_resolve_def\<close>)

text \<open>The two sources that need no server, in the default order.\<close>

definition standard_chain ::
  "'d decimal_ops \<Rightarrow> string \<Rightarrow> string option \<Rightarrow> 'd catalog_resolver
   \<Rightarrow> (string \<times> ('d, 'w) resolver) list" where
  "standard_chain D target unit cr =
     [(''provider_reported'', pure_resolver (provider_reported_resolve (target, unit))),
      (''catalog'', pure_resolver (catalog_resolve D cr))]"

interpretation standard: currency_resolver
  "chain_resolve (standard_chain D (target_currency cr) unit cr)" "target_currency cr" for D unit cr
  by (rule chain_currency_resolver)
    (simp add: standard_chain_def reported.currency_resolver_axioms
      catalogued.currency_resolver_axioms)

text \<open>
  Whatever the provider reports and whatever the catalog says, the chain of the two
  never prices an attempt in a currency other than the run's, so a run whose ledger is kept
  in that currency records every priced attempt unless the sum overflows.
\<close>

theorem standard_chain_recorded:
  assumes "chain_resolve (standard_chain D (target_currency cr) unit cr) a w = (Priced p, w')"
    and "t_target t = target_currency cr"
    and "dec_add D (t_total t) (amount (p_money p)) = Some tot"
  shows "t_total (record_cost D it a (Priced p) t) = tot
    \<and> t_unpriced (record_cost D it a (Priced p) t) = t_unpriced t"
  by (rule standard.recorded [OF assms])

definition nat_decimal :: "nat decimal_ops" where
  "nat_decimal = \<lparr>dec_zero = 0, dec_add = (\<lambda>a b. Some (a + b)), dec_mul = (\<lambda>a b. Some (a * b)),
     dec_div = (\<lambda>a b. if b = 0 then None else Some (a div b)), dec_of_u64 = unat, dec_le = (\<le>),
     dec_from_str_exact = (\<lambda>_. None), dec_from_scientific = (\<lambda>_. None)\<rparr>"

definition sample_tracker :: "nat run_cost_tracker" where
  "sample_tracker = \<lparr>t_target = ''USD'', t_total = 4, t_priced = 0, t_unpriced = 0,
     t_requests = [], t_max_cost = None\<rparr>"

theorem standard_chain_recorded_witness:
  "\<exists>p. chain_resolve (standard_chain nat_decimal ''USD'' None
        \<lparr>catalog = sample_catalog [sample_rule 0 None], target_currency = ''USD''\<rparr>)
        (sample_attempt 3) () = (Priced p, ())
     \<and> t_total (record_cost nat_decimal 1 (sample_attempt 3) (Priced p) sample_tracker) = 5"
proof -
  let ?cr = "\<lparr>catalog = sample_catalog [sample_rule 0 None], target_currency = ''USD''\<rparr>"
  obtain p where p: "chain_resolve (standard_chain nat_decimal (target_currency ?cr) None ?cr)
      (sample_attempt 3) () = (Priced p, ())" and amt: "amount (p_money p) = 1"
    by (simp add: chain_resolve_def standard_chain_def pure_resolver_def catalog_resolve_def
        matching_rule_def rule_matches_def model_for_pricing_def money_new_def from_validated_def
        provider_reported_resolve_def sample_defs)
  have t: "t_target sample_tracker = target_currency ?cr"
    by (simp add: sample_tracker_def)
  have s: "dec_add nat_decimal (t_total sample_tracker) (amount (p_money p)) = Some 5"
    by (simp add: sample_tracker_def nat_decimal_def amt)
  show ?thesis
    using p standard_chain_recorded [OF p t s] by auto
qed

text \<open>The reasons of sources that all decline, and the world they leave.\<close>

fun all_decline ::
  "(string \<times> ('d, 'w) resolver) list \<Rightarrow> 'd attempt_accounting \<Rightarrow> 'w \<Rightarrow> (string list \<times> 'w) option" where
  "all_decline [] a w = Some ([], w)"
| "all_decline ((n, r) # rs) a w =
     (case r a w of
        (Priced p, w') \<Rightarrow> None
      | (Unpriced reason, w') \<Rightarrow>
          map_option (\<lambda>(reasons, v). ((n @ '': '' @ reason) # reasons, v)) (all_decline rs a w'))"

lemma chain_loop_declined:
  "all_decline rs a w = Some (reasons, v) \<Longrightarrow>
     chain_loop (rs @ qs) a w acc = chain_loop qs a v (acc @ reasons)"
  by (induction rs a w arbitrary: reasons v acc rule: all_decline.induct)
    (auto split: prod.splits cost_resolution.splits)

lemma chain_loop_priced:
  "all_decline rs a w = None \<Longrightarrow>
     \<exists>pre n r post reasons v p v'. rs = pre @ (n, r) # post \<and> all_decline pre a w = Some (reasons, v)
        \<and> r a v = (Priced p, v')"
proof (induction rs a w rule: all_decline.induct)
  case (2 n r rs a w)
  obtain x w' where x: "r a w = (x, w')" by (cases "r a w")
  show ?case
  proof (cases x)
    case (Priced p)
    then have "(n, r) # rs = [] @ (n, r) # rs \<and> all_decline [] a w = Some ([], w) \<and> r a w = (Priced p, w')"
      using x by simp
    then show ?thesis by blast
  next
    case (Unpriced reason)
    then have "all_decline rs a w' = None" using "2.prems" x by simp
    then obtain pre m q post reasons v p v' where "rs = pre @ (m, q) # post"
      "all_decline pre a w' = Some (reasons, v)" "q a v = (Priced p, v')"
      using "2.IH" [OF x [symmetric] Unpriced] by blast
    then have "(n, r) # rs = ((n, r) # pre) @ (m, q) # post
        \<and> all_decline ((n, r) # pre) a w = Some ((n @ '': '' @ reason) # reasons, v)
        \<and> q a v = (Priced p, v')"
      using x Unpriced by simp
    then show ?thesis by blast
  qed
qed simp

text \<open>
  The chain asks its sources in order. When all of them decline, it reports every
  reason under the source's name, in order; otherwise it returns the first priced answer,
  and the sources behind that one are not consulted (the world is the one it left).
\<close>

theorem chain_resolve_first_priced:
  "case all_decline rs a w of
     Some (reasons, v) \<Rightarrow> chain_resolve rs a w =
       (Unpriced (if reasons = [] then ''no billing sources configured''
          else join_with ''; '' reasons), v)
   | None \<Rightarrow> \<exists>pre n r post reasons v p v'. rs = pre @ (n, r) # post
       \<and> all_decline pre a w = Some (reasons, v) \<and> r a v = (Priced p, v')
       \<and> chain_resolve rs a w = (Priced p, v')"
proof (cases "all_decline rs a w")
  case (Some rv)
  then show ?thesis
    using chain_loop_declined [of rs a w "fst rv" "snd rv" "[]" "[]"]
    by (auto simp: chain_resolve_def split: prod.splits)
next
  case None
  then obtain pre n r post reasons v p v' where *: "rs = pre @ (n, r) # post"
      "all_decline pre a w = Some (reasons, v)" "r a v = (Priced p, v')"
    using chain_loop_priced [OF None] by (elim exE conjE)
  then have "chain_resolve rs a w = (Priced p, v')"
    using chain_loop_declined [OF *(2), of "(n, r) # post" "[]"] by (simp add: chain_resolve_def)
  then show ?thesis
    unfolding None option.case using * by (intro exI conjI) assumption+
qed

section \<open>The ledger's invariant\<close>

definition ledger_amounts :: "'d run_cost_tracker \<Rightarrow> 'd money list" where
  "ledger_amounts t = List.map_filter q_amount (t_requests t)"

definition unpriced_rows :: "'d run_cost_tracker \<Rightarrow> 'd request_cost list" where
  "unpriced_rows t = filter (\<lambda>q. q_amount q = None) (t_requests t)"

fun sum_checked :: "'d decimal_ops \<Rightarrow> 'd \<Rightarrow> 'd list \<Rightarrow> 'd option" where
  "sum_checked D acc [] = Some acc"
| "sum_checked D acc (x # xs) = Option.bind (dec_add D acc x) (\<lambda>s. sum_checked D s xs)"

lemma sum_checked_append:
  "sum_checked D acc (xs @ ys) = Option.bind (sum_checked D acc xs) (\<lambda>s. sum_checked D s ys)"
  by (induction xs arbitrary: acc) auto

definition tracker_inv :: "'d decimal_ops \<Rightarrow> 'd run_cost_tracker \<Rightarrow> bool" where
  "tracker_inv D t \<longleftrightarrow>
     sum_checked D (dec_zero D) (map amount (ledger_amounts t)) = Some (t_total t)
     \<and> (\<forall>m\<in>set (ledger_amounts t). currency m = t_target t)
     \<and> unat (t_priced t) = min (length (ledger_amounts t)) (2 ^ 32 - 1)
     \<and> unat (t_unpriced t) = min (length (unpriced_rows t)) (2 ^ 32 - 1)
     \<and> (\<forall>q\<in>set (unpriced_rows t). q_reason q \<noteq> None)"

lemma tracker_new_inv: "tracker_new D target limit = Inr t \<Longrightarrow> tracker_inv D t"
  by (auto simp: tracker_new_def rbind_eq_Inr tracker_inv_def ledger_amounts_def unpriced_rows_def
      map_filter_def split: if_splits)

lemma ledger_append:
  assumes "t_requests t' = t_requests t @ [q]"
  shows "ledger_amounts t' = ledger_amounts t @ (case q_amount q of None \<Rightarrow> [] | Some m \<Rightarrow> [m])"
    and "unpriced_rows t' = unpriced_rows t @ (if q_amount q = None then [q] else [])"
  using assms by (auto simp: ledger_amounts_def unpriced_rows_def map_filter_def)

lemma record_unpriced_inv:
  assumes "tracker_inv D t"
  shows "tracker_inv D (record_unpriced it a reason t)"
proof -
  let ?t = "record_unpriced it a reason t"
  have rows: "t_requests ?t = t_requests t @ [(request_row it a)\<lparr>q_reason := Some reason\<rparr>]"
    by (simp add: record_unpriced_def)
  have "t_total ?t = t_total t" "t_target ?t = t_target t" "t_priced ?t = t_priced t"
    "t_unpriced ?t = saturating_add (t_unpriced t) 1"
    by (simp_all add: record_unpriced_def)
  then show ?thesis
    using assms
    by (auto simp: tracker_inv_def ledger_append [OF rows] request_row_def unat_saturating_add)
qed

lemma record_cost_inv:
  assumes "tracker_inv D t"
  shows "tracker_inv D (record_cost D it a res t)"
proof (cases res)
  case (Priced p)
  show ?thesis
  proof (cases "currency (p_money p) = t_target t \<and> dec_add D (t_total t) (amount (p_money p)) \<noteq> None")
    case True
    then obtain s where s: "dec_add D (t_total t) (amount (p_money p)) = Some s"
      and cur: "currency (p_money p) = t_target t" by auto
    let ?q = "(request_row it a)\<lparr>q_amount := Some (p_money p), q_source := Some (p_source p),
      q_precision := Some (p_precision p), q_version := p_version p, q_line_items := p_line_items p\<rparr>"
    let ?t = "record_cost D it a res t"
    have rows: "t_requests ?t = t_requests t @ [?q]"
      and fields: "t_total ?t = s" "t_target ?t = t_target t" "t_unpriced ?t = t_unpriced t"
        "t_priced ?t = saturating_add (t_priced t) 1"
      using s cur Priced by (simp_all add: record_cost_def)
    show ?thesis
      using assms s cur fields
      by (auto simp: tracker_inv_def ledger_append [OF rows] unat_saturating_add sum_checked_append)
  next
    case False
    then have "record_cost D it a res t
        = record_unpriced it a ''currency mismatch or total overflow'' t"
      using Priced by (auto simp: record_cost_def split: option.splits)
    then show ?thesis
      using assms by (simp add: record_unpriced_inv)
  qed
next
  case (Unpriced reason)
  then show ?thesis
    using assms by (simp add: record_cost_def record_unpriced_inv)
qed

text \<open>The ledger after any sequence of attempts.\<close>

definition record_all ::
  "'d decimal_ops \<Rightarrow> (u32 \<times> 'd attempt_accounting \<times> 'd cost_resolution) list
   \<Rightarrow> 'd run_cost_tracker \<Rightarrow> 'd run_cost_tracker" where
  "record_all D steps t = foldl (\<lambda>t (it, a, res). record_cost D it a res t) t steps"

lemma record_cost_frame:
  "t_target (record_cost D it a res t) = t_target t"
  "t_max_cost (record_cost D it a res t) = t_max_cost t"
  "length (t_requests (record_cost D it a res t)) = Suc (length (t_requests t))"
  by (auto simp: record_cost_def record_unpriced_def split: cost_resolution.splits option.splits)

lemma record_all_inv:
  "tracker_inv D t \<Longrightarrow> tracker_inv D (record_all D steps t)
     \<and> length (t_requests (record_all D steps t)) = length (t_requests t) + length steps
     \<and> t_target (record_all D steps t) = t_target t \<and> t_max_cost (record_all D steps t) = t_max_cost t"
  by (induction steps arbitrary: t)
    (auto simp: record_all_def record_cost_inv record_cost_frame split: prod.splits)

lemma rows_partition:
  "length (ledger_amounts t) + length (unpriced_rows t) = length (t_requests t)"
proof -
  have "length (List.map_filter q_amount rs) + length (filter (\<lambda>q. q_amount q = None) rs) = length rs"
    for rs :: "'a request_cost list"
    by (induction rs) (auto simp: map_filter_def)
  then show ?thesis
    by (simp add: ledger_amounts_def unpriced_rows_def)
qed

lemma unat_zero_iff: "(x :: u32) = 0 \<longleftrightarrow> unat x = 0"
  by (simp add: unsigned_eq_0_iff)

text \<open>
  C10: the cost report of a run is exact. Every attempt has its row; the reported total is
  the checked sum, in order, of the amounts of the priced rows, all in the run's currency;
  the report is complete exactly when every attempt was priced, and unavailable exactly
  when none was; every unpriced row says why.
\<close>

theorem cost_report_exact:
  fixes D :: "'d decimal_ops"
    and steps :: "(u32 \<times> 'd attempt_accounting \<times> 'd cost_resolution) list"
  assumes "tracker_new D target limit = Inr t0"
  defines "t \<equiv> record_all D steps t0"
  shows "length (requests (cost_report D t)) = length steps
    \<and> sum_checked D (dec_zero D) (map amount (ledger_amounts t)) = Some (t_total t)
    \<and> (\<forall>m\<in>set (ledger_amounts t). currency m = target)
    \<and> known_total (cost_report D t)
        = (if ledger_amounts t = [] then None else Some \<lparr>amount = t_total t, currency = target\<rparr>)
    \<and> (status (cost_report D t) = Unavailable \<longleftrightarrow> ledger_amounts t = [])
    \<and> (status (cost_report D t) = Complete
        \<longleftrightarrow> steps \<noteq> [] \<and> length (ledger_amounts t) = length steps)
    \<and> (\<forall>q\<in>set (unpriced_rows t). q_reason q \<noteq> None)"
proof -
  have t0: "t_requests t0 = []" "t_target t0 = target"
    using assms(1) by (auto simp: tracker_new_def rbind_eq_Inr split: if_splits)
  have inv: "tracker_inv D t" and len: "length (t_requests t) = length steps" and tgt: "t_target t = target"
    using record_all_inv [OF tracker_new_inv [OF assms(1)], of steps] t0 by (simp_all add: t_def)
  have p0: "t_priced t = 0 \<longleftrightarrow> ledger_amounts t = []"
    using inv by (auto simp: tracker_inv_def unat_zero_iff min_def split: if_splits)
  have u0: "t_unpriced t = 0 \<longleftrightarrow> unpriced_rows t = []"
    using inv by (auto simp: tracker_inv_def unat_zero_iff min_def split: if_splits)
  have part: "length (ledger_amounts t) + length (unpriced_rows t) = length steps"
    using rows_partition [of t] len by simp
  have pos: "0 < t_priced t \<longleftrightarrow> ledger_amounts t \<noteq> []"
    using p0 by (simp add: word_gt_0)
  show ?thesis
    using inv len tgt p0 u0 part pos
    by (auto simp: cost_report_def tracker_inv_def from_validated_def)
qed

theorem cost_report_exact_witness:
  "status (cost_report nat_decimal (record_all nat_decimal
      [(1, sample_attempt 1, Priced \<lparr>p_money = \<lparr>amount = 7, currency = ''USD''\<rparr>, p_source = ''s'',
          p_precision = Actual, p_version = None, p_line_items = []\<rparr>)]
      (sample_tracker\<lparr>t_total := 0\<rparr>))) = Complete"
proof -
  have h: "tracker_new nat_decimal ''USD'' None = Inr (sample_tracker\<lparr>t_total := 0\<rparr>)"
    by (simp add: tracker_new_def sample_tracker_def nat_decimal_def sample_defs)
  show ?thesis
    using cost_report_exact [OF h, of "[(1, sample_attempt 1, Priced \<lparr>p_money = \<lparr>amount = 7,
        currency = ''USD''\<rparr>, p_source = ''s'', p_precision = Actual, p_version = None,
        p_line_items = []\<rparr>)]"]
    by (simp add: record_all_def record_cost_def sample_tracker_def nat_decimal_def
        ledger_amounts_def map_filter_def)
qed

text \<open>
  The budget field of the report: it is degraded exactly when a configured budget meets
  an unpriced attempt, and otherwise it says that the limit is reached exactly when the loop
  would stop for cost.
\<close>

theorem budget_status_spec:
  fixes D :: "'d decimal_ops"
    and steps :: "(u32 \<times> 'd attempt_accounting \<times> 'd cost_resolution) list"
  assumes "tracker_new D target limit = Inr t0"
  defines "t \<equiv> record_all D steps t0"
  shows "(budget_status (cost_report D t) = NotConfigured \<longleftrightarrow> limit = None)
    \<and> (budget_status (cost_report D t) = Degraded \<longleftrightarrow> limit \<noteq> None \<and> unpriced_rows t \<noteq> [])
    \<and> (budget_status (cost_report D t) = BudgetLimitReached
        \<longleftrightarrow> unpriced_rows t = [] \<and> limit_hit D t)
    \<and> (budget_status (cost_report D t) = Enforced
        \<longleftrightarrow> limit \<noteq> None \<and> unpriced_rows t = [] \<and> \<not> limit_hit D t)"
proof -
  have mc: "t_max_cost t = limit"
    using record_all_inv [OF tracker_new_inv [OF assms(1)], of steps] assms(1)
    by (auto simp: t_def tracker_new_def rbind_eq_Inr split: if_splits)
  have "tracker_inv D t"
    using record_all_inv [OF tracker_new_inv [OF assms(1)]] by (simp add: t_def)
  then have u0: "t_unpriced t = 0 \<longleftrightarrow> unpriced_rows t = []"
    by (auto simp: tracker_inv_def unat_zero_iff min_def split: if_splits)
  then have "0 < t_unpriced t \<longleftrightarrow> unpriced_rows t \<noteq> []"
    by (simp add: word_gt_0)
  then show ?thesis
    using mc by (auto simp: cost_report_def limit_hit_def)
qed

theorem budget_status_spec_witness:
  "budget_status (cost_report nat_decimal (record_all nat_decimal
      [(1, sample_attempt 1, Unpriced ''no rule'')]
      (sample_tracker\<lparr>t_total := 0, t_max_cost := Some \<lparr>amount = 9, currency = ''USD''\<rparr>\<rparr>))) = Degraded"
proof -
  have h: "tracker_new nat_decimal ''USD'' (Some \<lparr>amount = 9, currency = ''USD''\<rparr>)
      = Inr (sample_tracker\<lparr>t_total := 0, t_max_cost := Some \<lparr>amount = 9, currency = ''USD''\<rparr>\<rparr>)"
    by (simp add: tracker_new_def sample_tracker_def nat_decimal_def sample_defs)
  show ?thesis
    using budget_status_spec [OF h, of "[(1, sample_attempt 1, Unpriced ''no rule'')]"]
    by (simp add: record_all_def record_cost_def record_unpriced_def unpriced_rows_def
        request_row_def sample_tracker_def)
qed

end
