(* ===== verification/Engine.thy ===== *)
theory Engine
  imports Engine_Text Limits Billing
begin

text \<open>
  The agent loop (\<open>src/agent/loop/engine.rs\<close>, lines 33 to 881), with the run's output
  (\<open>src/output.rs\<close>) and its progress events (\<open>src/agent/events.rs\<close>). The model, the
  tool executor, the Event-MCP pipeline, the cost resolver, the clock, the cancellation token
  and the home files are functions of the world \<open>'w\<close>, which they return changed; asking
  the clock or the token may let the world advance, so two questions need not have the same
  answer. What the loop emits, logs and asks is kept in a journal.
\<close>

section \<open>Outputs, events and errors\<close>

datatype stop_reason = GoalReached | LimitReached | StopError

record 'd usage_report =
  ur_iterations :: u32
  ur_prompt_tokens :: u64
  ur_completion_tokens :: u64
  ur_total_tokens :: u64
  ur_elapsed_ms :: nat
  ur_cost :: "'d run_cost_report"

record log_report =
  ai_log :: "string option"
  mcp_log :: "string option"
  system_log :: "string option"
  chat_log :: "string option"

record 'd run_output =
  out_run_id :: string
  out_result :: string
  out_usage :: "'d usage_report"
  out_stop_reason :: stop_reason
  out_logs :: log_report

datatype 'd agent_event =
    Thought string
  | Message string
  | UsageSummary "'d usage_report"
  | ToolStart string string string json
  | ToolFinish string bool json

datatype agent_error =
    EProvider string
  | ETool tool_error
  | EDirectiveDecode string
  | ELogging string
  | EEventMcp event_mcp_error
  | EBilling billing_error

datatype 'd audit_event =
    AiProviderFailure u32 "'d attempt_accounting list" "'d request_cost list"
  | AiCompletion u32 string token_usage "'d attempt_accounting list" "'d request_cost list"
  | DirectiveParseFailed u32 string nat nat string
  | ToolCallStarted u32 string string
  | ToolCallFailed u32 string string string
  | ToolCallFinished u32 string string
  | RunSummary stop_reason nat u32 u32 bool bool bool "'d run_cost_report"

datatype 'd journal_entry =
    Asked "chat_message list"
  | Called string string json
  | Emitted "'d agent_event"
  | Audited "'d audit_event"
  | Persisted "chat_message list" "'d run_output option"

text \<open>A provider answer: the reply, its usage and the accounting of every attempt, or the
  error text with the attempts made.\<close>

datatype 'd model_outcome =
    Answered string token_usage "'d attempt_accounting list"
  | ModelFailed string "'d attempt_accounting list"

text \<open>
  What the run is given. \<open>ask_model\<close> and \<open>call_tool_async\<close> answer \<open>None\<close> when the token
  is cancelled while the call is in flight.
\<close>

record ('d, 'w) engine_env =
  money_ops :: "'d decimal_ops"
  billing_currency :: string
  run_id :: string
  tool_names :: "string list"
  ask_model :: "chat_message list \<Rightarrow> 'w \<Rightarrow> 'd model_outcome option \<times> 'w"
  call_tool_async :: "string \<Rightarrow> string \<Rightarrow> json \<Rightarrow> 'w \<Rightarrow> (tool_error + json) option \<times> 'w"
  resolve_cost :: "('d, 'w) resolver"
  stage_handled :: "event_stage \<Rightarrow> bool"
  run_stage :: "event_stage \<Rightarrow> json \<Rightarrow> u32 option \<Rightarrow> 'w \<Rightarrow> (event_mcp_error + json) \<times> 'w"
  is_cancelled :: "'w \<Rightarrow> bool \<times> 'w"
  now :: "'w \<Rightarrow> nat \<times> 'w"
  arm_deadline :: "u64 \<Rightarrow> 'w \<Rightarrow> 'w"
  read_home_file :: "path \<Rightarrow> 'w \<Rightarrow> string option \<times> 'w"
  print_json :: "json \<Rightarrow> string"
  decode_directive :: "string \<Rightarrow> string + model_directive"
  decode_messages :: "json \<Rightarrow> string + chat_message list"
  decode_content :: "json \<Rightarrow> string + string"
  decode_result :: "json \<Rightarrow> string + string"
  log_paths :: log_report

record 'd run_request =
  prompt :: string
  system_prompt :: string
  input_files_context :: string
  limits :: "'d money limits_config"
  history :: history_config
  home_dir :: path
  pinned_files :: "path list"
  resume_messages :: "chat_message list option"

record run_diagnostics =
  parse_failures :: u32
  tools_executed :: u32
  home_write_ok :: bool
  home_run_ok :: bool

record ('d, 'w) run_state =
  messages :: "chat_message list"
  full_history :: "chat_message list"
  metrics :: run_metrics
  cost_tracker :: "'d run_cost_tracker"
  final_result :: string
  stop_reason :: stop_reason
  diag :: run_diagnostics
  absent_paths :: "string set"
  journal :: "'d journal_entry list"
  world :: 'w

section \<open>Control flow\<close>

text \<open>
  How a piece of the loop body ends: it falls through with a value, continues or breaks the
  loop, returns the error from the run, or panics.
\<close>

datatype ('a, 's) flow =
    Go 'a 's
  | LoopContinue 's
  | LoopBreak 's
  | ReturnErr agent_error 's
  | Panicked 's

fun flow_bind :: "('a, 's) flow \<Rightarrow> ('a \<Rightarrow> 's \<Rightarrow> ('b, 's) flow) \<Rightarrow> ('b, 's) flow" where
  "flow_bind (Go a s) f = f a s"
| "flow_bind (LoopContinue s) f = LoopContinue s"
| "flow_bind (LoopBreak s) f = LoopBreak s"
| "flow_bind (ReturnErr e s) f = ReturnErr e s"
| "flow_bind (Panicked s) f = Panicked s"

fun flow_state :: "('a, 's) flow \<Rightarrow> 's" where
  "flow_state (Go a s) = s"
| "flow_state (LoopContinue s) = s"
| "flow_state (LoopBreak s) = s"
| "flow_state (ReturnErr e s) = s"
| "flow_state (Panicked s) = s"

definition break_if :: "bool \<times> 's \<Rightarrow> (unit, 's) flow" where
  "break_if r = (if fst r then LoopBreak (snd r) else Go () (snd r))"

section \<open>Small steps\<close>

definition jot :: "'d journal_entry \<Rightarrow> ('d, 'w) run_state \<Rightarrow> ('d, 'w) run_state" where
  "jot e st = st\<lparr>journal := journal st @ [e]\<rparr>"

abbreviation emit :: "'d agent_event \<Rightarrow> ('d, 'w) run_state \<Rightarrow> ('d, 'w) run_state" where
  "emit e \<equiv> jot (Emitted e)"

definition push ::
  "'d run_request \<Rightarrow> chat_role \<Rightarrow> string \<Rightarrow> ('d, 'w) run_state \<Rightarrow> ('d, 'w) run_state" where
  "push req r text st =
     (let (ms, full) = push_message (history req) (mk_message r text) (messages st, full_history st)
      in st\<lparr>messages := ms, full_history := full\<rparr>)"

definition model_prefix :: "'d run_request \<Rightarrow> nat" where
  "model_prefix req = HISTORY_PREFIX_LEN + (if pinned_files req = [] then 0 else 1)"

definition prune :: "'d run_request \<Rightarrow> ('d, 'w) run_state \<Rightarrow> ('d, 'w) run_state" where
  "prune req st = st\<lparr>messages := prune_message_history (history req) (model_prefix req) (messages st)\<rparr>"

definition stop_with :: "string \<Rightarrow> ('d, 'w) run_state \<Rightarrow> ('d, 'w) run_state" where
  "stop_with text st = st\<lparr>final_result := text, stop_reason := LimitReached\<rparr>"

definition should_stop_for_duration ::
  "('d, 'w) engine_env \<Rightarrow> 'd run_request \<Rightarrow> ('d, 'w) run_state \<Rightarrow> bool \<times> ('d, 'w) run_state" where
  "should_stop_for_duration E req st =
     (let (t, w) = now E (world st); st = st\<lparr>world := w\<rparr> in
      if duration_limit_hit t (metrics st) (limits req)
      then (True, stop_with ''Execution stopped due to limit: max_duration_sec'' st)
      else (False, st))"

definition set_cancel_or_duration_stop ::
  "('d, 'w) engine_env \<Rightarrow> 'd run_request \<Rightarrow> ('d, 'w) run_state \<Rightarrow> ('d, 'w) run_state" where
  "set_cancel_or_duration_stop E req st =
     (let (t, w) = now E (world st); st = st\<lparr>world := w\<rparr> in
      if duration_limit_hit t (metrics st) (limits req)
      then stop_with ''Execution stopped due to limit: max_duration_sec'' st
      else stop_with ''Execution cancelled by user'' st)"

definition should_stop_for_cancel ::
  "('d, 'w) engine_env \<Rightarrow> 'd run_request \<Rightarrow> ('d, 'w) run_state \<Rightarrow> bool \<times> ('d, 'w) run_state" where
  "should_stop_for_cancel E req st =
     (let (c, w) = is_cancelled E (world st); st = st\<lparr>world := w\<rparr> in
      if c then (True, set_cancel_or_duration_stop E req st) else (False, st))"

definition should_stop_for_cost ::
  "('d, 'w) engine_env \<Rightarrow> ('d, 'w) run_state \<Rightarrow> bool \<times> ('d, 'w) run_state" where
  "should_stop_for_cost E st =
     (if limit_hit (money_ops E) (cost_tracker st)
      then (True, stop_with ''Execution stopped due to limit: max_cost'' st) else (False, st))"

definition limit_name :: "limit_exceeded \<Rightarrow> string" where
  "limit_name l = (case l of LIterations \<Rightarrow> ''max_iterations'' | LTokens \<Rightarrow> ''max_tokens''
     | LDuration \<Rightarrow> ''max_duration_sec'')"

definition build_usage_report ::
  "nat \<Rightarrow> run_metrics \<Rightarrow> 'd run_cost_report \<Rightarrow> 'd usage_report" where
  "build_usage_report t m c = \<lparr>ur_iterations = iterations m,
     ur_prompt_tokens = prompt_tokens (token_usage m),
     ur_completion_tokens = completion_tokens (token_usage m),
     ur_total_tokens = total_tokens (token_usage m), ur_elapsed_ms = elapsed_ms t m, ur_cost = c\<rparr>"

text \<open>\<open>persist_chat_history(&full_history, None)\<close> and the error return.\<close>

definition fail_run :: "agent_error \<Rightarrow> ('d, 'w) run_state \<Rightarrow> ('a, ('d, 'w) run_state) flow" where
  "fail_run e st = ReturnErr e (jot (Persisted (full_history st) None) st)"

section \<open>The turn up to the model's reply\<close>

definition pinned_phase ::
  "('d, 'w) engine_env \<Rightarrow> 'd run_request \<Rightarrow> ('d, 'w) run_state \<Rightarrow> (unit, ('d, 'w) run_state) flow" where
  "pinned_phase E req st =
     (if pinned_files req = [] then Go () st
      else (let (text, w) = load_pinned_message (read_home_file E) (home_dir req) (pinned_files req) (world st);
                st = st\<lparr>world := w\<rparr> in
            case upsert_pinned_message (messages st) text of
              None \<Rightarrow> Panicked st
            | Some ms \<Rightarrow> Go () (st\<lparr>messages := ms\<rparr>)))"

definition check_step ::
  "('d, 'w) engine_env \<Rightarrow> 'd run_request \<Rightarrow> ('d, 'w) run_state \<Rightarrow> (unit, ('d, 'w) run_state) flow" where
  "check_step E req st =
     (let (t, w) = now E (world st); st = st\<lparr>world := w\<rparr> in
      case pre_step_check t (metrics st) (limits req) of
        Inl l \<Rightarrow> LoopBreak (stop_with (''Execution stopped due to limit: '' @ limit_name l) st)
      | Inr _ \<Rightarrow> Go () (st\<lparr>metrics := begin_iteration (metrics st)\<rparr>))"

definition limits_phase ::
  "('d, 'w) engine_env \<Rightarrow> 'd run_request \<Rightarrow> ('d, 'w) run_state \<Rightarrow> (unit, ('d, 'w) run_state) flow" where
  "limits_phase E req st =
     flow_bind (break_if (should_stop_for_duration E req st)) (\<lambda>_ st.
     flow_bind (break_if (should_stop_for_cancel E req st)) (\<lambda>_ st.
     flow_bind (break_if (should_stop_for_cost E st)) (\<lambda>_ st.
     check_step E req st)))"

text \<open>Dispatching one stage and decoding what its handlers return.\<close>

definition stage_phase ::
  "('d, 'w) engine_env \<Rightarrow> event_stage \<Rightarrow> json \<Rightarrow> u32 option \<Rightarrow> (json \<Rightarrow> event_mcp_error + 'a) \<Rightarrow> 'a
     \<Rightarrow> ('d, 'w) run_state \<Rightarrow> ('a, ('d, 'w) run_state) flow" where
  "stage_phase E ev p it decode unchanged st =
     (if \<not> stage_handled E ev then Go unchanged st
      else (let (res, w) = run_stage E ev p it (world st); st = st\<lparr>world := w\<rparr> in
            case rbind res decode of
              Inl err \<Rightarrow> fail_run (EEventMcp err) st
            | Inr v \<Rightarrow> Go v st))"

definition context_phase ::
  "('d, 'w) engine_env \<Rightarrow> ('d, 'w) run_state \<Rightarrow> (chat_message list, ('d, 'w) run_state) flow" where
  "context_phase E st =
     stage_phase E ContextBeforeModel (context_payload (messages st)) (Some (iterations (metrics st)))
       (decode_context_before_model (decode_messages E) (messages st)) (messages st) st"

fun record_attempts ::
  "('d, 'w) engine_env \<Rightarrow> 'd attempt_accounting list \<Rightarrow> ('d, 'w) run_state \<Rightarrow> ('d, 'w) run_state" where
  "record_attempts E [] st = st"
| "record_attempts E (a # as) st =
     (let (resolution, w) = resolve_cost E a (world st) in
      record_attempts E as (st\<lparr>world := w, cost_tracker :=
        record_cost (money_ops E) (iterations (metrics st)) a resolution (cost_tracker st)\<rparr>))"

text \<open>The biased \<open>select!\<close>: the token is polled before the request is made.\<close>

definition model_phase ::
  "('d, 'w) engine_env \<Rightarrow> 'd run_request \<Rightarrow> chat_message list \<Rightarrow> ('d, 'w) run_state
     \<Rightarrow> (string \<times> token_usage \<times> 'd attempt_accounting list \<times> nat, ('d, 'w) run_state) flow" where
  "model_phase E req provider_messages st =
     (let (c, w) = is_cancelled E (world st); st = st\<lparr>world := w\<rparr> in
      if c then LoopBreak (set_cancel_or_duration_stop E req st)
      else (let st = jot (Asked provider_messages) st;
                (outcome, w) = ask_model E provider_messages (world st); st = st\<lparr>world := w\<rparr>;
                cost_start = request_count (cost_tracker st) in
        case outcome of
          None \<Rightarrow> LoopBreak (set_cancel_or_duration_stop E req st)
        | Some (ModelFailed err attempts) \<Rightarrow>
            (let st = record_attempts E attempts st;
                 st = jot (Audited (AiProviderFailure (iterations (metrics st)) attempts
                        (requests_since cost_start (cost_tracker st)))) st in
             fail_run (EProvider err) st)
        | Some (Answered text u attempts) \<Rightarrow>
            (let st = record_attempts E attempts st;
                 st = st\<lparr>metrics := add_tokens (metrics st) u\<rparr> in
             Go (text, u, attempts, cost_start) st)))"

definition response_phase ::
  "('d, 'w) engine_env \<Rightarrow> string \<times> token_usage \<times> 'd attempt_accounting list \<times> nat
     \<Rightarrow> ('d, 'w) run_state \<Rightarrow> (string, ('d, 'w) run_state) flow" where
  "response_phase E reply st = (let (text, u, attempts, cost_start) = reply in
     flow_bind (stage_phase E ModelAfterResponse (JObject [(''content'', JString text)])
         (Some (iterations (metrics st))) (decode_model_after_response (decode_content E)) text st)
       (\<lambda>text st. Go text (jot (Audited (AiCompletion (iterations (metrics st)) text u attempts
          (requests_since cost_start (cost_tracker st)))) st)))"

definition budget_phase ::
  "('d, 'w) engine_env \<Rightarrow> 'd run_request \<Rightarrow> ('d, 'w) run_state \<Rightarrow> (unit, ('d, 'w) run_state) flow" where
  "budget_phase E req st =
     (if tokens_limit_hit (metrics st) (limits req)
      then LoopBreak (stop_with ''Execution stopped due to limit: max_tokens'' st)
      else
        flow_bind (break_if (should_stop_for_cost E st)) (\<lambda>_ st.
        flow_bind (break_if (should_stop_for_duration E req st)) (\<lambda>_ st.
        break_if (should_stop_for_cancel E req st))))"

section \<open>Acting on the reply\<close>

definition parse_phase ::
  "('d, 'w) engine_env \<Rightarrow> 'd run_request \<Rightarrow> string \<Rightarrow> ('d, 'w) run_state
     \<Rightarrow> (model_directive, ('d, 'w) run_state) flow" where
  "parse_phase E req text st = (case parse_directive (decode_directive E) text of
     Inl err \<Rightarrow>
       (let st = st\<lparr>diag := (diag st)\<lparr>parse_failures := saturating_add (parse_failures (diag st)) 1\<rparr>\<rparr>;
            st = jot (Audited (DirectiveParseFailed (iterations (metrics st)) (message err) (length text)
                   (approx_json_object_count text) (content_preview text 200))) st;
            st = push req Assistant REJECTED_ASSISTANT st;
            st = push req User (print_json E (JObject [(''parse_error'', JString (message err)),
                   (''hint'', JString (hint err))])) st in
        LoopContinue (prune req st))
   | Inr parsed \<Rightarrow>
       (let d = directive parsed;
            st = push req Assistant (parsed_directive.json_text parsed) st;
            st = (case thought d of None \<Rightarrow> st
                  | Some t \<Rightarrow> (if is_blank t then st else emit (Thought t) st)) in
        Go d st))"

definition tool_call_id :: "u32 \<Rightarrow> nat \<Rightarrow> string" where
  "tool_call_id it i = ''tc-'' @ show_nat (unat it) @ ''-'' @ show_nat i"

definition tool_error_json :: "string \<Rightarrow> string \<Rightarrow> string \<Rightarrow> json" where
  "tool_error_json srv t err = JObject [(''tool_result'', JObject [(''server'', JString srv),
     (''tool'', JString t), (''error'', JString err)])]"

definition tool_result_json :: "string \<Rightarrow> string \<Rightarrow> json \<Rightarrow> json" where
  "tool_result_json srv t v = JObject [(''tool_result'', JObject [(''server'', JString srv),
     (''tool'', JString t), (''result'', v)])]"

definition error_json :: "string \<Rightarrow> json" where
  "error_json err = JObject [(''error'', JString err)]"

text \<open>A call that is refused before it is dispatched: the log entry and the pair of events.\<close>

definition refuse_call ::
  "string \<Rightarrow> string \<Rightarrow> string \<Rightarrow> json \<Rightarrow> string \<Rightarrow> ('d, 'w) run_state \<Rightarrow> ('d, 'w) run_state" where
  "refuse_call i srv t args err st =
     (let st = jot (Audited (ToolCallFailed (iterations (metrics st)) srv t err)) st;
          st = emit (ToolStart i srv t args) st in
      emit (ToolFinish i False (error_json err)) st)"

definition is_missing_file_error :: "tool_error \<Rightarrow> bool" where
  "is_missing_file_error e \<longleftrightarrow> contains_str (show_tool_error e) ''os error 2''"

definition tool_failed ::
  "('d, 'w) engine_env \<Rightarrow> 'd run_request \<Rightarrow> string \<Rightarrow> string \<Rightarrow> string \<Rightarrow> string option \<Rightarrow> tool_error
     \<Rightarrow> ('d, 'w) run_state \<Rightarrow> ('d, 'w) run_state" where
  "tool_failed E req i srv t tracked err st =
     (let text = show_tool_error err;
          st = (case tracked of Some p \<Rightarrow>
                   (if is_missing_file_error err then st\<lparr>absent_paths := insert p (absent_paths st)\<rparr> else st)
                | None \<Rightarrow> st);
          st = jot (Audited (ToolCallFailed (iterations (metrics st)) srv t text)) st;
          st = emit (ToolFinish i False (error_json text)) st in
      prune req (push req User (model_tool_result (print_json E) (tool_error_json srv t text)) st))"

definition count_success :: "string \<Rightarrow> string \<Rightarrow> run_diagnostics \<Rightarrow> run_diagnostics" where
  "count_success srv t d = d\<lparr>tools_executed := saturating_add (tools_executed d) 1,
     home_write_ok := home_write_ok d \<or> srv = ''home'' \<and> t = ''write'',
     home_run_ok := home_run_ok d \<or> srv = ''home'' \<and> t = ''run''\<rparr>"

definition tool_succeeded ::
  "('d, 'w) engine_env \<Rightarrow> 'd run_request \<Rightarrow> string \<Rightarrow> string \<Rightarrow> string \<Rightarrow> json \<Rightarrow> ('d, 'w) run_state
     \<Rightarrow> (unit, ('d, 'w) run_state) flow" where
  "tool_succeeded E req i srv t v st =
     (let st = st\<lparr>diag := count_success srv t (diag st)\<rparr>;
          st = jot (Audited (ToolCallFinished (iterations (metrics st)) srv t)) st;
          st = emit (ToolFinish i True v) st in
      flow_bind (break_if (should_stop_for_duration E req st)) (\<lambda>_ st.
      flow_bind (break_if (should_stop_for_cancel E req st)) (\<lambda>_ st.
        LoopContinue (prune req
          (push req User (model_tool_result (print_json E) (tool_result_json srv t v)) st)))))"

text \<open>One round of the loop over the directive's tool calls.\<close>

definition tool_step ::
  "('d, 'w) engine_env \<Rightarrow> 'd run_request \<Rightarrow> nat \<Rightarrow> tool_call_directive \<Rightarrow> ('d, 'w) run_state
     \<Rightarrow> (unit, ('d, 'w) run_state) flow" where
  "tool_step E req idx call st =
     (let it = iterations (metrics st); i = tool_call_id it idx;
          srv = server call; t = tool call; args = arguments call in
      case qualified_new srv t of
        Inl why \<Rightarrow> LoopContinue (prune req (push req User (print_json E (tool_error_json srv t why))
                     (refuse_call i srv t args why st)))
      | Inr q \<Rightarrow>
        (let tracked = home_read_path srv t args in
         case (case tracked of Some p \<Rightarrow> (if p \<in> absent_paths st then Some p else None) | None \<Rightarrow> None) of
           Some p \<Rightarrow>
             (let err = ''path `'' @ p @ ''` is already absent in this run; do not read it again'' in
              LoopContinue (prune req
                (push req User (model_tool_result (print_json E) (tool_error_json srv t err))
                  (refuse_call i srv t args err st))))
         | None \<Rightarrow>
             (let st = jot (Audited (ToolCallStarted it srv t)) st;
                  st = emit (ToolStart i srv t args) st;
                  (c, w) = is_cancelled E (world st); st = st\<lparr>world := w\<rparr>;
                  cancelled = (\<lambda>st. LoopBreak (set_cancel_or_duration_stop E req
                     (emit (ToolFinish i False (error_json ''cancelled''))
                       (jot (Audited (ToolCallFailed it srv t ''cancelled'')) st)))) in
              if c then cancelled st
              else (let st = jot (Called (qt_server q) (qt_tool q) args) st;
                        (res, w) = call_tool_async E (qt_server q) (qt_tool q) args (world st);
                        st = st\<lparr>world := w\<rparr> in
                case res of
                  None \<Rightarrow> cancelled st
                | Some (Inl err) \<Rightarrow> LoopContinue (tool_failed E req i srv t tracked err st)
                | Some (Inr v) \<Rightarrow> tool_succeeded E req i srv t v st))))"

fun tool_loop ::
  "('d, 'w) engine_env \<Rightarrow> 'd run_request \<Rightarrow> nat \<Rightarrow> tool_call_directive list \<Rightarrow> ('d, 'w) run_state
     \<Rightarrow> ('d, 'w) run_state" where
  "tool_loop E req idx [] st = st"
| "tool_loop E req idx (c # cs) st = (case tool_step E req idx c st of
     LoopContinue st' \<Rightarrow> tool_loop E req (Suc idx) cs st'
   | r \<Rightarrow> flow_state r)"

definition done_phase ::
  "'d run_request \<Rightarrow> model_directive \<Rightarrow> ('d, 'w) run_state \<Rightarrow> (unit, ('d, 'w) run_state) flow" where
  "done_phase req d st =
     (if stop_reason st = LimitReached \<and> final_result st \<noteq> [] then LoopBreak st
      else if done_flag d
      then LoopBreak (st\<lparr>final_result := (case result d of Some r \<Rightarrow> r
               | None \<Rightarrow> ''Agent marked done without explicit result''), stop_reason := GoalReached\<rparr>)
      else LoopContinue (prune req st))"

definition act_phase ::
  "('d, 'w) engine_env \<Rightarrow> 'd run_request \<Rightarrow> string \<Rightarrow> ('d, 'w) run_state \<Rightarrow> (unit, ('d, 'w) run_state) flow" where
  "act_phase E req text st =
     flow_bind (parse_phase E req text st) (\<lambda>d st.
       done_phase req d (tool_loop E req 0 (tool_calls d) st))"

section \<open>The loop and the run\<close>

definition engine_turn ::
  "('d, 'w) engine_env \<Rightarrow> 'd run_request \<Rightarrow> ('d, 'w) run_state \<Rightarrow> (unit, ('d, 'w) run_state) flow" where
  "engine_turn E req st =
     flow_bind (pinned_phase E req st) (\<lambda>_ st.
     flow_bind (limits_phase E req st) (\<lambda>_ st.
     flow_bind (context_phase E st) (\<lambda>provider_messages st.
     flow_bind (model_phase E req provider_messages st) (\<lambda>reply st.
     flow_bind (response_phase E reply st) (\<lambda>text st.
     flow_bind (budget_phase E req st) (\<lambda>_ st.
     act_phase E req text st))))))"

text \<open>Only a turn that has begun an iteration can continue the loop.\<close>

lemma flow_bind_LoopContinue:
  "flow_bind m f = LoopContinue s' \<longleftrightarrow> m = LoopContinue s' \<or> (\<exists>a s. m = Go a s \<and> f a s = LoopContinue s')"
  by (cases m) auto

lemma flow_bind_Go: "flow_bind m f = Go b s' \<longleftrightarrow> (\<exists>a s. m = Go a s \<and> f a s = Go b s')"
  by (cases m) auto

lemma break_if_not_continue [simp]: "break_if r \<noteq> LoopContinue s"
  by (simp add: break_if_def)

end
