(* ===== verification/Engine_Run.thy ===== *)
theory Engine_Run
  imports Engine
begin

text \<open>
  The run of the agent loop (\<open>src/agent/loop/engine.rs\<close>, \<open>run\<close> and \<open>run_inner\<close>): the
  invariant rule for a turn, the termination of the loop, the run itself, and what every run
  satisfies.
\<close>

section \<open>Steps of the environment\<close>

text \<open>Everything the loop does to the world is one of these steps.\<close>

inductive env_step :: "('d, 'w) engine_env \<Rightarrow> 'w \<Rightarrow> 'w \<Rightarrow> bool" for E where
  asked: "env_step E w (snd (ask_model E ms w))"
| called: "env_step E w (snd (call_tool_async E s t a w))"
| resolved: "env_step E w (snd (resolve_cost E att w))"
| staged: "env_step E w (snd (run_stage E ev p it w))"
| polled: "env_step E w (snd (is_cancelled E w))"
| clocked: "env_step E w (snd (now E w))"
| armed: "env_step E w (arm_deadline E secs w)"
| file_read: "env_step E w (snd (read_home_file E f w))"

abbreviation env_steps :: "('d, 'w) engine_env \<Rightarrow> 'w \<Rightarrow> 'w \<Rightarrow> bool" where
  "env_steps E \<equiv> (env_step E)\<^sup>*\<^sup>*"

lemma env_stepsI:
  "ask_model E ms w = (o1, w') \<Longrightarrow> env_steps E w w'"
  "call_tool_async E s t a w = (o2, w') \<Longrightarrow> env_steps E w w'"
  "resolve_cost E att w = (o3, w') \<Longrightarrow> env_steps E w w'"
  "run_stage E ev p it w = (o4, w') \<Longrightarrow> env_steps E w w'"
  "is_cancelled E w = (o5, w') \<Longrightarrow> env_steps E w w'"
  "now E w = (o6, w') \<Longrightarrow> env_steps E w w'"
  "read_home_file E f w = (o7, w') \<Longrightarrow> env_steps E w w'"
  using env_step.intros [of E] by (metis r_into_rtranclp snd_conv)+

lemma pinned_loop_steps: "pinned_loop (read_home_file E) h fs out w = (out', w') \<Longrightarrow> env_steps E w w'"
proof (induction fs arbitrary: out w)
  case (Cons relative rest)
  show ?case
  proof (cases "is_safe_relative relative")
    case True
    obtain tx w1 where rd: "read_home_file E (path_join h relative) w = (tx, w1)"
      by (cases "read_home_file E (path_join h relative) w")
    have "w' = w1 \<or> (\<exists>out2. pinned_loop (read_home_file E) h rest out2 w1 = (out', w'))"
      using Cons.prems rd True by (auto simp: Let_def split: if_split_asm)
    then have "env_steps E w1 w'"
      using Cons.IH by auto
    then show ?thesis
      using env_stepsI(7) [OF rd] by (rule rtranclp_trans [rotated])
  next
    case False
    then show ?thesis using Cons by (simp add: Let_def)
  qed
qed simp

lemma load_pinned_steps:
  "load_pinned_message (read_home_file E) h fs w = (text, w') \<Longrightarrow> env_steps E w w'"
  using pinned_loop_steps [of E h fs "PINNED_HEADER @ [LF]" w]
  by (auto simp: load_pinned_message_def split: prod.splits)

section \<open>The invariant rule\<close>

text \<open>
  What a state predicate \<open>P\<close> must tolerate to hold through the quiet parts of a turn, those
  that neither ask the model nor touch a tool.
\<close>

fun tool_entry :: "'d journal_entry \<Rightarrow> bool" where
  "tool_entry (Called s t a) = True"
| "tool_entry (Emitted (ToolStart i s t a)) = True"
| "tool_entry (Emitted (ToolFinish i ok v)) = True"
| "tool_entry e = False"

fun asked_entry :: "'d journal_entry \<Rightarrow> bool" where
  "asked_entry (Asked ms) = True"
| "asked_entry e = False"

locale quiet_frame =
  fixes E :: "('d, 'w) engine_env" and req :: "'d run_request"
    and P :: "('d, 'w) run_state \<Rightarrow> bool"
  assumes world: "P st \<Longrightarrow> env_steps E (world st) w \<Longrightarrow> P (st\<lparr>world := w\<rparr>)"
    and jot: "P st \<Longrightarrow> \<not> asked_entry e \<Longrightarrow> \<not> tool_entry e \<Longrightarrow> P (jot e st)"
    and stop: "P st \<Longrightarrow> P (st\<lparr>final_result := t, stop_reason := LimitReached\<rparr>)"
    and final_text: "P st \<Longrightarrow> P (st\<lparr>final_result := t\<rparr>)"
    and cost: "P st \<Longrightarrow> P (st\<lparr>cost_tracker := c\<rparr>)"
    and tokens: "P st \<Longrightarrow> P (st\<lparr>metrics := add_tokens (metrics st) u\<rparr>)"
    and diag: "P st \<Longrightarrow> P (st\<lparr>diag := dg\<rparr>)"
    and push: "P st \<Longrightarrow> P (push req rl txt st)"
    and prune: "P st \<Longrightarrow> P (prune req st)"
begin

lemma moved_P:
  "P st \<Longrightarrow> now E (world st) = (t, w) \<Longrightarrow> P (st\<lparr>world := w\<rparr>)"
  "P st \<Longrightarrow> is_cancelled E (world st) = (c, w) \<Longrightarrow> P (st\<lparr>world := w\<rparr>)"
  "P st \<Longrightarrow> run_stage E ev p it (world st) = (r, w) \<Longrightarrow> P (st\<lparr>world := w\<rparr>)"
  by (rule world [OF _ env_stepsI(6)], assumption+) (rule world [OF _ env_stepsI(5)], assumption+,
      rule world [OF _ env_stepsI(4)], assumption+)

lemma stop_with_P: "P st \<Longrightarrow> P (stop_with t st)"
  by (simp add: stop_with_def stop)

lemma bind_P:
  assumes "P (flow_state m)" and "\<And>a s. m = Go a s \<Longrightarrow> P s \<Longrightarrow> P (flow_state (f a s))"
  shows "P (flow_state (flow_bind m f))"
  using assms by (cases m) auto

lemma break_if_P: "P (snd r) \<Longrightarrow> P (flow_state (break_if r))"
  by (simp add: break_if_def)

lemma duration_P: "P st \<Longrightarrow> P (snd (should_stop_for_duration E req st))"
  by (auto simp: should_stop_for_duration_def Let_def moved_P stop_with_P split: prod.splits)

lemma set_cancel_P: "P st \<Longrightarrow> P (set_cancel_or_duration_stop E req st)"
  by (auto simp: set_cancel_or_duration_stop_def Let_def moved_P stop_with_P split: prod.splits)

lemma cancel_P: "P st \<Longrightarrow> P (snd (should_stop_for_cancel E req st))"
  by (auto simp: should_stop_for_cancel_def Let_def moved_P set_cancel_P split: prod.splits)

lemma cost_P: "P st \<Longrightarrow> P (snd (should_stop_for_cost E st))"
  by (simp add: should_stop_for_cost_def stop_with_P)

lemma fail_run_P: "P st \<Longrightarrow> P (flow_state (fail_run e st))"
  by (simp add: fail_run_def jot)

lemma stage_P: "P st \<Longrightarrow> P (flow_state (stage_phase E ev p it dec v st))"
  by (auto simp: stage_phase_def Let_def moved_P fail_run_P split: prod.splits sum.splits)

lemma context_P: "P st \<Longrightarrow> P (flow_state (context_phase E st))"
  by (simp add: context_phase_def stage_P)

lemma record_attempts_P: "P st \<Longrightarrow> P (record_attempts E as st)"
proof (induction as arbitrary: st)
  case (Cons a as)
  obtain r w where r: "resolve_cost E a (world st) = (r, w)"
    by (cases "resolve_cost E a (world st)")
  have "P (st\<lparr>world := w\<rparr>)"
    using world [OF Cons.prems env_stepsI(3) [OF r]] .
  from cost [OF this] show ?case
    using Cons.IH r by simp
qed simp

lemma response_P: "P st \<Longrightarrow> P (flow_state (response_phase E reply st))"
  by (cases reply) (auto simp: response_phase_def intro!: bind_P stage_P jot)

lemma budget_P: "P st \<Longrightarrow> P (flow_state (budget_phase E req st))"
  by (auto simp: budget_phase_def stop_with_P intro!: bind_P break_if_P cost_P duration_P cancel_P)

lemma parse_P: "P st \<Longrightarrow> P (flow_state (parse_phase E req text st))"
  by (auto simp: parse_phase_def Let_def diag jot push prune split: sum.splits option.splits)

end

text \<open>
  Asking the model: \<open>Q\<close> is what \<open>P\<close> promises about the messages it is shown. The question
  need only be tolerated right after the token was seen not cancelled.
\<close>

locale model_frame = quiet_frame +
  fixes Q :: "chat_message list \<Rightarrow> bool"
  assumes asked: "P st \<Longrightarrow> Q ms \<Longrightarrow> is_cancelled E (world st) = (False, w) \<Longrightarrow>
      P (jot (Asked ms) (st\<lparr>world := w\<rparr>))"
    and shown: "P st \<Longrightarrow> Q (messages st)"
    and transformed: "P st \<Longrightarrow> decode_context_before_model d (messages st) p = Inr ms \<Longrightarrow> Q ms"
begin

lemma context_Q: "P st \<Longrightarrow> context_phase E st = Go ms st' \<Longrightarrow> Q ms"
  using shown transformed
  by (auto simp: context_phase_def stage_phase_def fail_run_def Let_def rbind_eq_Inr
      split: prod.splits sum.splits if_splits)

lemma model_P:
  assumes "P st" and "Q ms"
  shows "P (flow_state (model_phase E req ms st))"
proof -
  obtain c w where c: "is_cancelled E (world st) = (c, w)"
    by (cases "is_cancelled E (world st)")
  have P1: "P (st\<lparr>world := w\<rparr>)"
    using world [OF assms(1) env_stepsI(5) [OF c]] .
  show ?thesis
  proof (cases c)
    case True
    then show ?thesis using c P1 set_cancel_P by (simp add: model_phase_def)
  next
    case False
    let ?st = "jot (Asked ms) (st\<lparr>world := w\<rparr>)"
    obtain out w2 where out: "ask_model E ms w = (out, w2)"
      by (cases "ask_model E ms w")
    have "P ?st" using asked [OF assms] c False by simp
    then have P2: "P (?st\<lparr>world := w2\<rparr>)"
      using world [of ?st w2] env_stepsI(1) [OF out] by (simp add: jot_def)
    then have rec: "P (record_attempts E as (?st\<lparr>world := w2\<rparr>))" for as
      by (rule record_attempts_P)
    have ws: "world ?st = w" by (simp add: jot_def)
    show ?thesis
      using c False out set_cancel_P [OF P2] rec
      by (auto simp: model_phase_def Let_def ws tokens fail_run_P jot split: option.splits model_outcome.splits)
  qed
qed

end

text \<open>Calling tools: the calls and events of the tool loop, and the set of absent paths.\<close>

locale tool_frame = quiet_frame +
  assumes tool_jot: "P st \<Longrightarrow> tool_entry e \<Longrightarrow> (\<And>s t a. e \<noteq> Called s t a) \<Longrightarrow> P (jot e st)"
    and called: "P st \<Longrightarrow> is_cancelled E (world st) = (False, w) \<Longrightarrow> P (jot (Called s t a) (st\<lparr>world := w\<rparr>))"
    and absent: "P st \<Longrightarrow> P (st\<lparr>absent_paths := ab\<rparr>)"
begin

lemma event_P: "P st \<Longrightarrow> P (emit e st)"
  by (cases e) (auto simp: jot tool_jot)

lemmas jots = jot event_P

lemma refuse_P: "P st \<Longrightarrow> P (refuse_call i srv t args err st)"
  by (simp add: refuse_call_def jots)

lemma failed_P: "P st \<Longrightarrow> P (tool_failed E req i srv t tracked err st)"
  by (auto simp: tool_failed_def Let_def jots push prune absent split: option.splits)

lemma succeeded_P: "P st \<Longrightarrow> P (flow_state (tool_succeeded E req i srv t v st))"
  by (auto simp: tool_succeeded_def Let_def diag jots push prune
      intro!: bind_P break_if_P duration_P cancel_P)

lemma dispatch_P:
  assumes "P st" and "is_cancelled E (world st) = (c, w)"
  shows "P (st\<lparr>world := w\<rparr>)"
    and "\<not> c \<Longrightarrow> call_tool_async E s t a w = (res, w') \<Longrightarrow>
      P (jot (Called s t a) (st\<lparr>world := w\<rparr>)\<lparr>world := w'\<rparr>)"
proof -
  show "P (st\<lparr>world := w\<rparr>)" by (rule moved_P(2) [OF assms])
  assume "\<not> c" and call: "call_tool_async E s t a w = (res, w')"
  then have "P (jot (Called s t a) (st\<lparr>world := w\<rparr>))"
    using called assms by auto
  moreover have "world (jot (Called s t a) (st\<lparr>world := w\<rparr>)) = w"
    by (simp add: jot_def)
  ultimately show "P (jot (Called s t a) (st\<lparr>world := w\<rparr>)\<lparr>world := w'\<rparr>)"
    using world env_stepsI(2) [OF call] by simp
qed

lemma tool_step_P:
  assumes "P st"
  shows "P (flow_state (tool_step E req idx call st))"
proof -
  let ?it = "iterations (metrics st)"
  let ?srv = "server call" and ?t = "tool call" and ?args = "arguments call"
  let ?i = "tool_call_id ?it idx"
  let ?st = "jot (Emitted (ToolStart ?i ?srv ?t ?args)) (jot (Audited (ToolCallStarted ?it ?srv ?t)) st)"
  have P0: "P ?st" using assms by (simp add: jots)
  obtain c w where c: "is_cancelled E (world ?st) = (c, w)"
    by (cases "is_cancelled E (world ?st)")
  note P1 = dispatch_P(1) [OF P0 c]
  have P2: "P (jot (Called s t a) (?st\<lparr>world := w\<rparr>)\<lparr>world := snd (call_tool_async E s t a w)\<rparr>)"
    if "\<not> c" for s t a
    using dispatch_P(2) [OF P0 c that, of s t a] by (cases "call_tool_async E s t a w") simp
  have wj: "world (jot e (x\<lparr>world := w\<rparr>)) = w" for e x
    by (simp add: jot_def)
  show ?thesis
  proof (cases "qualified_new ?srv ?t")
    case (Inl why)
    then show ?thesis
      using assms by (simp add: tool_step_def Let_def refuse_P push prune)
  next
    case (Inr q)
    show ?thesis
      using assms P1 P2 c
      by (auto simp: tool_step_def Inr Let_def split_beta wj refuse_P failed_P succeeded_P prune push
          jots set_cancel_P split: sum.splits option.splits)
  qed
qed

lemma tool_loop_P: "P st \<Longrightarrow> P (tool_loop E req idx cs st)"
proof (induction cs arbitrary: idx st)
  case (Cons c cs)
  then show ?case
    using tool_step_P [of st idx c] by (cases "tool_step E req idx c st") auto
qed simp

end

text \<open>A turn from the moment the iteration has begun, for any treatment of the tool loop.\<close>

locale turn_frame = model_frame +
  assumes tools: "P st \<Longrightarrow> P (tool_loop E req idx cs st)"
    and goal: "P st \<Longrightarrow> P (st\<lparr>final_result := t, stop_reason := GoalReached\<rparr>)"
begin

lemma done_P: "P st \<Longrightarrow> P (flow_state (done_phase req d st))"
  by (auto simp: done_phase_def goal prune)

lemma act_P: "P st \<Longrightarrow> P (flow_state (act_phase E req text st))"
  unfolding act_phase_def by (intro bind_P parse_P done_P tools)

text \<open>The rest of a turn, from the moment the iteration has begun.\<close>

lemma begun_turn_P:
  assumes "P st"
  shows "P (flow_state (flow_bind (context_phase E st) (\<lambda>ms st.
     flow_bind (model_phase E req ms st) (\<lambda>reply st.
     flow_bind (response_phase E reply st) (\<lambda>text st.
     flow_bind (budget_phase E req st) (\<lambda>_ st. act_phase E req text st))))))"
  using context_Q [OF assms]
  by (intro bind_P context_P model_P response_P budget_P act_P assms)

end

locale step_frame = model_frame + tool_frame +
  assumes goal_step: "P st \<Longrightarrow> P (st\<lparr>final_result := t, stop_reason := GoalReached\<rparr>)"

sublocale step_frame \<subseteq> turn_frame
  by unfold_locales (rule tool_loop_P goal_step; assumption)+

section \<open>The loop ends\<close>

interpretation iteration_frame: step_frame E req "\<lambda>st. iterations (metrics st) = n" "\<lambda>_. True" for E req n
  by unfold_locales (auto simp: jot_def push_def prune_def split_beta)

lemma begin_of_check:
  "check_step E req st = Go u st' \<Longrightarrow> iterations (metrics st) < max_iterations (limits req)
     \<and> metrics st' = begin_iteration (metrics st)"
  by (auto simp: check_step_def Let_def pre_step_check_ok split: prod.splits sum.splits)

lemma stop_checks_metrics [simp]:
  "metrics (snd (should_stop_for_duration E req st)) = metrics st"
  "metrics (snd (should_stop_for_cancel E req st)) = metrics st"
  "metrics (snd (should_stop_for_cost E st)) = metrics st"
  by (auto simp: should_stop_for_duration_def should_stop_for_cancel_def should_stop_for_cost_def
      set_cancel_or_duration_stop_def stop_with_def Let_def split: prod.splits)

lemma break_if_Go: "break_if r = Go u s \<longleftrightarrow> \<not> fst r \<and> s = snd r"
  by (auto simp: break_if_def)

lemma limits_phase_Go:
  "limits_phase E req st = Go u st' \<Longrightarrow> iterations (metrics st) < max_iterations (limits req)
     \<and> metrics st' = begin_iteration (metrics st)"
  by (auto simp: limits_phase_def flow_bind_Go break_if_Go dest: begin_of_check)

lemma limits_phase_not_continue [simp]: "limits_phase E req st \<noteq> LoopContinue st'"
  by (auto simp: limits_phase_def flow_bind_LoopContinue check_step_def Let_def
      split: prod.splits sum.splits)

lemma pinned_phase_Go: "pinned_phase E req st = Go u st' \<Longrightarrow> metrics st' = metrics st"
  by (auto simp: pinned_phase_def Let_def split: if_splits prod.splits option.splits)

lemma pinned_phase_not_continue [simp]: "pinned_phase E req st \<noteq> LoopContinue st'"
  by (auto simp: pinned_phase_def Let_def split: prod.splits option.splits)

lemma engine_turn_continue:
  assumes "engine_turn E req st = LoopContinue st'"
  shows "iterations (metrics st) < max_iterations (limits req)
    \<and> iterations (metrics st') = iterations (begin_iteration (metrics st))"
proof -
  obtain u1 u2 st1 st2 where p: "pinned_phase E req st = Go u1 st1"
    and l: "limits_phase E req st1 = Go u2 st2"
    and rest: "flow_bind (context_phase E st2) (\<lambda>ms st.
     flow_bind (model_phase E req ms st) (\<lambda>reply st.
     flow_bind (response_phase E reply st) (\<lambda>text st.
     flow_bind (budget_phase E req st) (\<lambda>_ st. act_phase E req text st)))) = LoopContinue st'"
    using assms unfolding engine_turn_def flow_bind_LoopContinue [of "pinned_phase E req st"]
      flow_bind_LoopContinue [of "limits_phase E req _"]
    by auto
  have "iterations (metrics st') = iterations (metrics st2)"
    using iteration_frame.begun_turn_P [of st2 "iterations (metrics st2)" E req] rest by simp
  then show ?thesis
    using limits_phase_Go [OF l] pinned_phase_Go [OF p] by simp
qed

text \<open>
  The loop of \<open>run_inner\<close>. It ends because every turn that continues has begun one more
  iteration below the limit.
\<close>

function engine_loop ::
  "('d, 'w) engine_env \<Rightarrow> 'd run_request \<Rightarrow> ('d, 'w) run_state \<Rightarrow> (unit, ('d, 'w) run_state) flow" where
  "engine_loop E req st = (case engine_turn E req st of
     LoopContinue st' \<Rightarrow> engine_loop E req st' | r \<Rightarrow> r)"
  by pat_completeness auto
termination
proof (relation "measure (\<lambda>(E, req, st). unat (max_iterations (limits req)) - unat (iterations (metrics st)))")
  fix E :: "('d, 'w) engine_env" and req :: "'d run_request" and st st' :: "('d, 'w) run_state"
  assume "engine_turn E req st = LoopContinue st'"
  from engine_turn_continue [OF this]
  have "unat (iterations (metrics st)) < unat (max_iterations (limits req))"
    and "unat (iterations (metrics st')) = Suc (unat (iterations (metrics st)))"
    using unat_begin_iteration by (auto simp: word_less_nat_alt)
  then show "((E, req, st'), (E, req, st))
      \<in> measure (\<lambda>(E, req, st). unat (max_iterations (limits req)) - unat (iterations (metrics st)))"
    by simp
qed simp

declare engine_loop.simps [simp del]

section \<open>The run\<close>

definition initial_state ::
  "('d, 'w) engine_env \<Rightarrow> 'd run_request \<Rightarrow> 'w \<Rightarrow> 'd run_cost_tracker \<Rightarrow> run_metrics \<Rightarrow> ('d, 'w) run_state" where
  "initial_state E req w tracker m =
     (let ms = initial_messages (prompt req) (system_prompt req) (input_files_context req)
                 (tool_names E) (resume_messages req) in
      \<lparr>messages = ms, full_history = ms, metrics = m, cost_tracker = tracker, final_result = [],
       stop_reason = LimitReached,
       diag = \<lparr>parse_failures = 0, tools_executed = 0, home_write_ok = False, home_run_ok = False\<rparr>,
       absent_paths = {}, journal = [], world = w\<rparr>)"

datatype 'd run_end = RunOk "'d run_output" | RunErr agent_error "'d usage_report" | RunPanic

text \<open>The error return: the usage report is built with the clock of that moment.\<close>

definition end_with_error ::
  "('d, 'w) engine_env \<Rightarrow> agent_error \<Rightarrow> ('d, 'w) run_state \<Rightarrow> 'd run_end \<times> ('d, 'w) run_state" where
  "end_with_error E e st = (let (t, w) = now E (world st) in
     (RunErr e (build_usage_report t (metrics st) (cost_report (money_ops E) (cost_tracker st))),
      st\<lparr>world := w\<rparr>))"

definition output_phase ::
  "('d, 'w) engine_env \<Rightarrow> ('d, 'w) run_state \<Rightarrow> (unit, ('d, 'w) run_state) flow" where
  "output_phase E st =
     (if final_result st = [] then Go () st
      else (let (c, w) = is_cancelled E (world st); st = st\<lparr>world := w\<rparr> in
        if c then Go () st
        else flow_bind (stage_phase E RunBeforeOutput (JObject [(''result'', JString (final_result st))])
               None (decode_run_before_output (decode_result E)) (final_result st) st)
             (\<lambda>text st. Go () (st\<lparr>final_result := text\<rparr>))))"

definition emit_run_summary :: "'d run_cost_report \<Rightarrow> ('d, 'w) run_state \<Rightarrow> ('d, 'w) run_state" where
  "emit_run_summary c st = (let d = diag st in
     jot (Audited (RunSummary (stop_reason st) (length (final_result st)) (parse_failures d)
       (tools_executed d) (home_write_ok d) (home_run_ok d)
       (stop_reason st = GoalReached \<and> \<not> home_run_ok d) c)) st)"

definition finish_run ::
  "('d, 'w) engine_env \<Rightarrow> ('d, 'w) run_state \<Rightarrow> 'd run_end \<times> ('d, 'w) run_state" where
  "finish_run E st =
     (let c = cost_report (money_ops E) (cost_tracker st);
          st = emit_run_summary c st;
          st = (if final_result st = [] then st else emit (Message (final_result st)) st);
          (t, w) = now E (world st); st = st\<lparr>world := w\<rparr>;
          out = \<lparr>out_run_id = run_id E, out_result = final_result st,
                 out_usage = build_usage_report t (metrics st) c,
                 out_stop_reason = stop_reason st, out_logs = log_paths E\<rparr>;
          st = emit (UsageSummary (out_usage out)) st;
          st = jot (Persisted (full_history st) (Some out)) st in
      (RunOk out, st))"

definition after_loop ::
  "('d, 'w) engine_env \<Rightarrow> (unit, ('d, 'w) run_state) flow \<Rightarrow> 'd run_end \<times> ('d, 'w) run_state" where
  "after_loop E r = (case r of
     ReturnErr e st \<Rightarrow> end_with_error E e st
   | Panicked st \<Rightarrow> (RunPanic, st)
   | r \<Rightarrow> (case output_phase E (flow_state r) of
       ReturnErr e st \<Rightarrow> end_with_error E e st
     | q \<Rightarrow> finish_run E (flow_state q)))"

definition run_inner ::
  "('d, 'w) engine_env \<Rightarrow> 'd run_request \<Rightarrow> 'w \<Rightarrow> agent_error \<times> 'd usage_report + 'd run_end \<times> ('d, 'w) run_state" where
  "run_inner E req w0 =
     (let (started, w1) = now E w0; m = metrics_new started in
      case tracker_new (money_ops E) (billing_currency E) (max_cost (limits req)) of
        Inl e \<Rightarrow> (let (t, w2) = now E w1 in Inl (EBilling e, build_usage_report t m default_cost_report))
      | Inr tracker \<Rightarrow>
          Inr (after_loop E (engine_loop E req (initial_state E req
             (arm_deadline E (max_duration_sec (limits req)) w1) tracker m))))"

definition show_event_mcp_error :: "event_mcp_error \<Rightarrow> string" where
  "show_event_mcp_error e = (case e of
     Configuration s \<Rightarrow> ''invalid event-mcp configuration: '' @ s
   | UnknownTarget h t \<Rightarrow> ''event-mcp handler `'' @ h @ ''` target `'' @ t @ ''` was not discovered''
   | PayloadTooLarge h actual limit \<Rightarrow> ''event-mcp handler `'' @ h @ ''` payload is '' @ show_nat actual
       @ '' bytes; limit is '' @ show_nat limit
   | OutcomeTooLarge h actual limit \<Rightarrow> ''event-mcp handler `'' @ h @ ''` outcome is '' @ show_nat actual
       @ '' bytes; limit is '' @ show_nat limit
   | Timeout h ms \<Rightarrow> ''event-mcp handler `'' @ h @ ''` timed out after '' @ show_nat (unat ms) @ '' ms''
   | Cancelled ev \<Rightarrow> ''event-mcp event `'' @ stage_str ev @ ''` was cancelled''
   | Mcp h source \<Rightarrow> ''event-mcp handler `'' @ h @ ''` failed: '' @ source
   | InvalidOutcome h why \<Rightarrow> ''event-mcp handler `'' @ h @ ''` returned an invalid outcome: '' @ why
   | InvalidPayload ev why \<Rightarrow> ''event-mcp event `'' @ stage_str ev @ ''` returned an invalid payload: '' @ why
   | Rejected ev h why \<Rightarrow> ''event-mcp handler `'' @ h @ ''` rejected event `'' @ stage_str ev @ ''`: '' @ why)"

definition show_agent_error :: "agent_error \<Rightarrow> string" where
  "show_agent_error e = (case e of
     EProvider s \<Rightarrow> ''provider failure: '' @ s
   | ETool t \<Rightarrow> ''tool failure: '' @ show_tool_error t
   | EDirectiveDecode s \<Rightarrow> ''failed to decode model directive: '' @ s
   | ELogging s \<Rightarrow> ''internal logging failure: '' @ s
   | EEventMcp x \<Rightarrow> ''Event-MCP failure: '' @ show_event_mcp_error x
   | EBilling b \<Rightarrow> ''billing failure: '' @ billing_error_str b)"

definition error_output :: "('d, 'w) engine_env \<Rightarrow> agent_error \<Rightarrow> 'd usage_report \<Rightarrow> 'd run_output" where
  "error_output E e u = \<lparr>out_run_id = run_id E, out_result = show_agent_error e, out_usage = u,
     out_stop_reason = StopError, out_logs = log_paths E\<rparr>"

text \<open>\<open>AgentEngine::run\<close>; \<open>None\<close> is a panic.\<close>

definition run :: "('d, 'w) engine_env \<Rightarrow> 'd run_request \<Rightarrow> 'w \<Rightarrow> 'd run_output option" where
  "run E req w = (case run_inner E req w of
     Inl (e, u) \<Rightarrow> Some (error_output E e u)
   | Inr (r, st) \<Rightarrow> (case r of RunOk out \<Rightarrow> Some out | RunErr e u \<Rightarrow> Some (error_output E e u)
       | RunPanic \<Rightarrow> None))"

section \<open>A concrete run\<close>

text \<open>
  An environment with fixed answers, for instances of the theorems: the model gives \<open>outcome\<close>,
  every reply decodes to \<open>d\<close>, every tool answers \<open>null\<close>, the clock stands still and the
  token always says \<open>c\<close>.
\<close>

definition sample_env :: "bool \<Rightarrow> nat model_outcome \<Rightarrow> model_directive \<Rightarrow> (nat, unit) engine_env" where
  "sample_env c outcome d = \<lparr>money_ops = nat_decimal, billing_currency = ''USD'', run_id = ''r'',
     tool_names = [], ask_model = (\<lambda>_ w. (Some outcome, w)),
     call_tool_async = (\<lambda>_ _ _ w. (Some (Inr JNull), w)), resolve_cost = (\<lambda>_ w. (Unpriced ''no price'', w)),
     stage_handled = (\<lambda>_. False), run_stage = (\<lambda>_ p _ w. (Inr p, w)), is_cancelled = Pair c,
     now = Pair 0, arm_deadline = (\<lambda>_ w. w), read_home_file = (\<lambda>_ w. (None, w)),
     print_json = (\<lambda>_. ''j''), decode_directive = (\<lambda>_. Inr d),
     decode_messages = (\<lambda>_. Inl []), decode_content = (\<lambda>_. Inl []), decode_result = (\<lambda>_. Inl []),
     log_paths = \<lparr>ai_log = None, mcp_log = None, system_log = None, chat_log = None\<rparr>\<rparr>"

definition sample_request :: "nat run_request" where
  "sample_request = \<lparr>prompt = [], system_prompt = ''be safe'', input_files_context = [],
     limits = \<lparr>max_iterations = 3, max_tokens = 100, max_duration_sec = 1, max_cost = None\<rparr>,
     history = \<lparr>max_tail_messages = 10, max_chars = 1000\<rparr>, home_dir = ''/h'', pinned_files = [],
     resume_messages = Some [mk_message User ''hi'']\<rparr>"

definition sample_done :: model_directive where
  "sample_done = \<lparr>done_flag = True, thought = None, tool_calls = [\<lparr>server = ''home'', tool = ''run'',
     arguments = JNull\<rparr>], result = Some ''ok''\<rparr>"

lemma trim_braces: "trim ''{}'' = ''{}''"
  by (simp add: trim_visible visible_def)

lemma sample_parse:
  "parse_directive (\<lambda>_. Inr sample_done) ''{}'' = Inr \<lparr>directive = sample_done, json_text = ''{}''\<rparr>"
  by (simp add: parse_directive_def trim_braces strip_opening_fence_def strip_prefix_def
      split_json_object_def attach_raw_body_def sample_done_def is_home_write_def
      strip_closing_fence_def strip_suffix_def)

lemma sample_tracker:
  "tracker_new nat_decimal ''USD'' None = Inr \<lparr>t_target = ''USD'', t_total = dec_zero nat_decimal,
     t_priced = 0, t_unpriced = 0, t_requests = [], t_max_cost = None\<rparr>"
  by (simp add: tracker_new_def validate_currency_def is_ascii_alnum_def is_ascii_upper_def)

lemmas sample_run_simps = run_inner_def sample_env_def sample_request_def sample_tracker
  initial_state_def initial_messages_def apply_current_system_prompt_def metrics_new_def
  engine_turn_def pinned_phase_def limits_phase_def break_if_def
  should_stop_for_duration_def should_stop_for_cancel_def should_stop_for_cost_def
  duration_limit_hit_def limit_hit_def check_step_def pre_step_check_def tokens_limit_hit_def
  default_usage_def context_phase_def stage_phase_def model_phase_def begin_iteration_def
  saturating_add_def jot_def mk_message_def Let_def

end
