(* ===== verification/Engine_Facts.thy ===== *)
theory Engine_Facts
  imports Engine_Run
begin

text \<open>
  What every run of the agent loop satisfies, as instances of the invariant rules of
  \<open>Engine_Run\<close>: the system prompt the model sees, the number of requests, the pairing of
  tool events, cancellation, and the meaning of a reached goal.
\<close>

section \<open>Invariants of the whole run\<close>

context quiet_frame
begin

lemma end_with_error_P: "P st \<Longrightarrow> P (snd (end_with_error E e st))"
  by (auto simp: end_with_error_def moved_P split: prod.splits)

lemma output_P: "P st \<Longrightarrow> P (flow_state (output_phase E st))"
  by (auto simp: output_phase_def Let_def moved_P intro!: bind_P stage_P final_text split: prod.splits)

lemma finish_P: "P st \<Longrightarrow> P (snd (finish_run E st))"
  by (auto simp: finish_run_def emit_run_summary_def Let_def jot moved_P split: prod.splits)

lemma after_loop_P:
  assumes "P (flow_state r)"
  shows "P (snd (after_loop E r))"
proof -
  have "P (snd (case output_phase E st of ReturnErr e st \<Rightarrow> end_with_error E e st
      | q \<Rightarrow> finish_run E (flow_state q)))" if "P st" for st
    using output_P [OF that] by (auto split: flow.splits intro: end_with_error_P finish_P)
  then show ?thesis
    using assms by (cases r) (simp_all add: after_loop_def end_with_error_P)
qed

lemma check_step_state:
  assumes "P st" and "\<And>s. P s \<Longrightarrow> P (s\<lparr>metrics := begin_iteration (metrics s)\<rparr>)"
  shows "P (flow_state (check_step E req st))"
proof -
  obtain t w where n: "now E (world st) = (t, w)" by (cases "now E (world st)")
  note P1 = moved_P(1) [OF assms(1) n]
  show ?thesis
    using P1 assms(2) [OF P1] n stop_with_P [OF P1] by (auto simp: check_step_def Let_def split: sum.splits)
qed

end

text \<open>What every turn preserves, the loop preserves.\<close>

lemma engine_loop_rule:
  assumes "\<And>s. P s \<Longrightarrow> P (flow_state (engine_turn E req s))" and "P st"
  shows "P (flow_state (engine_loop E req st))"
  using assms(2)
proof (induction "unat (max_iterations (limits req)) - unat (iterations (metrics st))" arbitrary: st
    rule: less_induct)
  case less
  show ?case
  proof (cases "engine_turn E req st")
    case (LoopContinue st')
    have "P st'" using assms(1) [OF less.prems] LoopContinue by simp
    moreover have "unat (iterations (metrics st)) < unat (max_iterations (limits req))"
      "unat (iterations (metrics st')) = Suc (unat (iterations (metrics st)))"
      using engine_turn_continue [OF LoopContinue] unat_begin_iteration
      by (auto simp: word_less_nat_alt)
    ultimately have "P (flow_state (engine_loop E req st'))"
      by (intro less.hyps) auto
    then show ?thesis using LoopContinue by (simp add: engine_loop.simps [of E req st])
  qed (use assms(1) [OF less.prems] in \<open>simp_all add: engine_loop.simps [of E req st]\<close>)
qed

locale turn_invariant = turn_frame +
  assumes pinned: "P st \<Longrightarrow> upsert_pinned_message (messages st) text = Some ms \<Longrightarrow> P (st\<lparr>messages := ms\<rparr>)"
    and begun: "P st \<Longrightarrow> P (st\<lparr>metrics := begin_iteration (metrics st)\<rparr>)"
begin

lemma pinned_phase_P:
  assumes "P st"
  shows "P (flow_state (pinned_phase E req st))"
proof -
  obtain tx w where l: "load_pinned_message (read_home_file E) (home_dir req) (pinned_files req) (world st) = (tx, w)"
    by (cases "load_pinned_message (read_home_file E) (home_dir req) (pinned_files req) (world st)")
  have "P (st\<lparr>world := w\<rparr>)"
    using world [OF assms load_pinned_steps [OF l]] .
  then show ?thesis
    using assms l pinned [of "st\<lparr>world := w\<rparr>"] by (auto simp: pinned_phase_def Let_def split: option.splits)
qed

lemma limits_phase_P: "P st \<Longrightarrow> P (flow_state (limits_phase E req st))"
  unfolding limits_phase_def
  by (intro bind_P break_if_P duration_P cancel_P cost_P check_step_state begun)

lemma engine_turn_P: "P st \<Longrightarrow> P (flow_state (engine_turn E req st))"
  unfolding engine_turn_def
  by (rule bind_P, rule pinned_phase_P, assumption, rule bind_P, rule limits_phase_P, assumption,
      rule begun_turn_P)

lemma engine_loop_P: "P st \<Longrightarrow> P (flow_state (engine_loop E req st))"
  by (rule engine_loop_rule [of P, OF engine_turn_P])

lemma run_P: "P st \<Longrightarrow> P (snd (after_loop E (engine_loop E req st)))"
  by (intro after_loop_P engine_loop_P)

end

lemma run_inner_state:
  assumes "run_inner E req w0 = Inr (r, st)"
  obtains tracker m w where "(r, st) = after_loop E (engine_loop E req (initial_state E req w tracker m))"
    and "iterations m = 0" and "env_steps E w0 w"
proof -
  obtain t w1 where t: "now E w0 = (t, w1)" by (cases "now E w0")
  have steps: "env_steps E w0 (arm_deadline E (max_duration_sec (limits req)) w1)"
    using env_stepsI(6) [OF t] env_step.armed [of E w1] by (meson rtranclp.rtrancl_into_rtrancl)
  obtain tracker where "after_loop E (engine_loop E req (initial_state E req
      (arm_deadline E (max_duration_sec (limits req)) w1) tracker (metrics_new t))) = (r, st)"
    using assms t by (auto simp: run_inner_def Let_def split: sum.splits prod.splits)
  from this [symmetric] show thesis
    by (rule that) (simp_all add: metrics_new_def steps)
qed

section \<open>The system prompt\<close>

definition system_first :: "string \<Rightarrow> chat_message list \<Rightarrow> bool" where
  "system_first sp ms \<longleftrightarrow> ms \<noteq> [] \<and> role (hd ms) = System \<and> content (hd ms) = sp"

definition asked_messages :: "'d journal_entry list \<Rightarrow> chat_message list list" where
  "asked_messages = List.map_filter (\<lambda>e. case e of Asked ms \<Rightarrow> Some ms | _ \<Rightarrow> None)"

lemma asked_messages_append [simp]: "asked_messages (xs @ ys) = asked_messages xs @ asked_messages ys"
  by (simp add: asked_messages_def map_filter_def)

lemma asked_messages_simps [simp]:
  "asked_messages [] = []"
  "asked_messages (Asked ms # xs) = ms # asked_messages xs"
  "\<not> asked_entry e \<Longrightarrow> asked_messages (e # xs) = asked_messages xs"
  by (simp_all add: asked_messages_def List.map_filter_simps) (cases e; simp)

lemma system_first_append: "system_first sp ms \<Longrightarrow> system_first sp (ms @ ns)"
  by (simp add: system_first_def)

lemma system_first_take:
  "system_first sp ms \<Longrightarrow> take k ms' = take k ms \<Longrightarrow> 0 < k \<Longrightarrow> system_first sp ms'"
  by (cases ms; cases ms'; cases k) (auto simp: system_first_def)

lemma system_first_prune:
  "0 < k \<Longrightarrow> system_first sp ms \<Longrightarrow> system_first sp (prune_message_history h k ms)"
  using system_first_take [OF _ take_prune] .

definition prompt_kept :: "string \<Rightarrow> ('d, 'w) run_state \<Rightarrow> bool" where
  "prompt_kept sp st \<longleftrightarrow> system_first sp (messages st) \<and> list_all (system_first sp) (asked_messages (journal st))"

lemma prompt_kept_push: "prompt_kept sp st \<Longrightarrow> prompt_kept sp (push req r t st)"
  by (simp add: prompt_kept_def push_def push_message_def split_beta system_first_append)

lemma prompt_kept_prune: "prompt_kept sp st \<Longrightarrow> prompt_kept sp (prune req st)"
  by (simp add: prompt_kept_def prune_def system_first_prune model_prefix_def HISTORY_PREFIX_LEN_def)

lemma tool_entry_not_asked: "tool_entry e \<Longrightarrow> \<not> asked_entry e"
  by (cases e) auto

interpretation prompt_steps: step_frame E req "prompt_kept sp" "system_first sp" for E req sp
  by unfold_locales
    (auto simp: prompt_kept_push prompt_kept_prune tool_entry_not_asked,
     auto simp: prompt_kept_def jot_def tool_entry_not_asked system_first_def dest: decode_context_system)

interpretation prompt_run: turn_invariant E req "prompt_kept sp" "system_first sp" for E req sp
proof unfold_locales
  fix st :: "('a, 'b) run_state" and t ms
  assume "prompt_kept sp st" and u: "upsert_pinned_message (messages st) t = Some ms"
  then show "prompt_kept sp (st\<lparr>messages := ms\<rparr>)"
    using system_first_take [of sp "messages st" HISTORY_PREFIX_LEN ms] upsert_pinned_prefix [OF u]
    by (simp add: prompt_kept_def HISTORY_PREFIX_LEN_def)
qed (simp add: prompt_kept_def)

text \<open>
  C1: whatever the model replies, the tools answer, the files hold and the Event-MCP handlers
  rewrite, and however much history is pruned, every request of a run shows the model a message
  list that begins with the configured system prompt, unchanged.
\<close>

theorem system_prompt_always_first:
  assumes "run_inner E req w = Inr (r, st)"
  shows "\<forall>ms\<in>set (asked_messages (journal st)).
    ms \<noteq> [] \<and> role (hd ms) = System \<and> content (hd ms) = system_prompt req"
proof -
  obtain tracker m w' where st: "(r, st) = after_loop E (engine_loop E req (initial_state E req w' tracker m))"
    using run_inner_state [OF assms] by blast
  have "prompt_kept (system_prompt req) (initial_state E req w' tracker m)"
    using initial_messages_system [of "prompt req" "system_prompt req" "input_files_context req"
        "tool_names E" "resume_messages req"]
    by (auto simp: prompt_kept_def initial_state_def Let_def system_first_def mk_message_def)
  then have "prompt_kept (system_prompt req) (snd (r, st))"
    unfolding st by (rule prompt_run.run_P)
  then show ?thesis by (simp add: prompt_kept_def list_all_iff system_first_def)
qed

section \<open>Requests and iterations\<close>

interpretation count_quiet: quiet_frame E req "\<lambda>st. length (asked_messages (journal st)) \<le> n" for E req n
  by unfold_locales (auto simp: jot_def push_def prune_def split_beta)

interpretation count_tools: tool_frame E req "\<lambda>st. length (asked_messages (journal st)) \<le> n" for E req n
  by unfold_locales (auto simp: jot_def tool_entry_not_asked)

lemma record_attempts_journal [simp]: "journal (record_attempts E as st) = journal st"
  by (induction as arbitrary: st) (auto split: prod.splits)

lemma stop_state_journal [simp]: "journal (set_cancel_or_duration_stop E req st) = journal st"
  by (auto simp: set_cancel_or_duration_stop_def stop_with_def Let_def split: prod.splits)

lemma model_phase_asks:
  "length (asked_messages (journal (flow_state (model_phase E req ms st))))
     \<le> Suc (length (asked_messages (journal st)))"
  by (auto simp: model_phase_def fail_run_def jot_def Let_def split: prod.splits option.splits model_outcome.splits)

lemma begun_turn_asks:
  assumes "length (asked_messages (journal st)) \<le> n"
  shows "length (asked_messages (journal (flow_state (flow_bind (context_phase E st) (\<lambda>ms st.
     flow_bind (model_phase E req ms st) (\<lambda>reply st.
     flow_bind (response_phase E reply st) (\<lambda>text st.
     flow_bind (budget_phase E req st) (\<lambda>_ st. act_phase E req text st)))))))) \<le> Suc n"
proof -
  let ?P = "\<lambda>st :: ('a, 'b) run_state. length (asked_messages (journal st)) \<le> Suc n"
  have act: "?P (flow_state (act_phase E req tx s))" if "?P s" for tx s
    unfolding act_phase_def
    by (rule count_quiet.bind_P [OF count_quiet.parse_P [OF that]])
      (auto simp: done_phase_def prune_def intro: count_tools.tool_loop_P)
  have tail: "?P (flow_state (flow_bind (response_phase E reply s) (\<lambda>text s.
     flow_bind (budget_phase E req s) (\<lambda>_ s. act_phase E req text s))))" if "?P s" for reply s
    by (rule count_quiet.bind_P [OF count_quiet.response_P [OF that]],
        rule count_quiet.bind_P [OF count_quiet.budget_P], assumption, rule act)
  have ctx: "length (asked_messages (journal (flow_state (context_phase E st)))) \<le> n"
    by (rule count_quiet.context_P [OF assms])
  show ?thesis
  proof (rule count_quiet.bind_P)
    show "?P (flow_state (context_phase E st))" using ctx by simp
  next
    fix ms s
    assume "context_phase E st = Go ms s"
    then have "length (asked_messages (journal s)) \<le> n" using ctx by simp
    then have "?P (flow_state (model_phase E req ms s))"
      using model_phase_asks [of E req ms s] by linarith
    then show "?P (flow_state (flow_bind (model_phase E req ms s) (\<lambda>reply st.
       flow_bind (response_phase E reply st) (\<lambda>text st.
       flow_bind (budget_phase E req st) (\<lambda>_ st. act_phase E req text st)))))"
      by (rule count_quiet.bind_P) (rule tail)
  qed
qed

text \<open>The requests made so far never outnumber the iterations begun, which respect the limit.\<close>

definition within_limits :: "'d run_request \<Rightarrow> ('d, 'w) run_state \<Rightarrow> bool" where
  "within_limits req st \<longleftrightarrow> length (asked_messages (journal st)) \<le> unat (iterations (metrics st))
     \<and> iterations (metrics st) \<le> max_iterations (limits req)"

interpretation limit_quiet: quiet_frame E req "within_limits req" for E req
  by unfold_locales (auto simp: within_limits_def jot_def push_def prune_def split_beta)

lemma stop_checks_journal [simp]:
  "journal (snd (should_stop_for_duration E req st)) = journal st"
  "journal (snd (should_stop_for_cancel E req st)) = journal st"
  "journal (snd (should_stop_for_cost E st)) = journal st"
  by (auto simp: should_stop_for_duration_def should_stop_for_cancel_def should_stop_for_cost_def
      stop_with_def Let_def split: prod.splits)

lemma check_step_frame:
  "journal (flow_state (check_step E req st)) = journal st"
  "\<nexists>u s. check_step E req st = Go u s \<Longrightarrow> metrics (flow_state (check_step E req st)) = metrics st"
  by (auto simp: check_step_def stop_with_def Let_def split: prod.splits sum.splits)

lemma bind_break_if:
  "flow_bind (break_if r) f = (if fst r then LoopBreak (snd r) else f () (snd r))"
  by (simp add: break_if_def)

lemma limits_phase_journal [simp]: "journal (flow_state (limits_phase E req st)) = journal st"
  by (simp add: limits_phase_def bind_break_if check_step_frame)

lemma limits_phase_metrics:
  "\<nexists>u s. limits_phase E req st = Go u s \<Longrightarrow> metrics (flow_state (limits_phase E req st)) = metrics st"
  by (simp add: limits_phase_def bind_break_if check_step_frame split: if_splits)

lemma pinned_phase_frame [simp]:
  "journal (flow_state (pinned_phase E req st)) = journal st"
  "metrics (flow_state (pinned_phase E req st)) = metrics st"
  by (auto simp: pinned_phase_def Let_def split: prod.splits option.splits)

lemma engine_turn_within:
  assumes "within_limits req st"
  shows "within_limits req (flow_state (engine_turn E req st))"
proof (cases "pinned_phase E req st")
  case p: (Go u st1)
  then have st1: "journal st1 = journal st" "metrics st1 = metrics st"
    using pinned_phase_frame [of E req st] by simp_all
  show ?thesis
  proof (cases "limits_phase E req st1")
    case l: (Go v st2)
    have j2: "journal st2 = journal st"
      using limits_phase_journal [of E req st1] l st1 by simp
    have "unat (iterations (metrics st2)) = Suc (unat (iterations (metrics st)))"
      "iterations (metrics st2) \<le> max_iterations (limits req)"
      using limits_phase_Go [OF l] st1 unat_begin_iteration [of "metrics st" "limits req"]
      by (auto simp: word_less_nat_alt word_le_nat_alt)
    then show ?thesis
      using assms j2 p l begun_turn_asks [of st2 "length (asked_messages (journal st))" E req]
        iteration_frame.begun_turn_P [of st2 "iterations (metrics st2)" E req]
      by (simp add: engine_turn_def within_limits_def)
  qed (use assms p st1 limits_phase_journal [of E req st1] limits_phase_metrics [of E req st1] in
      \<open>simp_all add: engine_turn_def within_limits_def\<close>)
qed (use assms pinned_phase_frame [of E req st] in \<open>simp_all add: engine_turn_def within_limits_def\<close>)

text \<open>
  C11: a run makes at most one model request per iteration it begins and never begins more than
  the configured number of iterations, whatever the model answers and whichever way the run
  ends; the loop itself always ends.
\<close>

theorem requests_within_iteration_limit:
  assumes "run_inner E req w = Inr (r, st)"
  shows "length (asked_messages (journal st)) \<le> unat (iterations (metrics st))
    \<and> iterations (metrics st) \<le> max_iterations (limits req)"
proof -
  obtain tracker m w' where st: "(r, st) = after_loop E (engine_loop E req (initial_state E req w' tracker m))"
    and m: "iterations m = 0"
    using run_inner_state [OF assms] by blast
  have "within_limits req (initial_state E req w' tracker m)"
    by (simp add: within_limits_def initial_state_def Let_def m)
  then have "within_limits req (snd (r, st))"
    unfolding st by (intro limit_quiet.after_loop_P engine_loop_rule [of "within_limits req"] engine_turn_within)
  then show ?thesis by (simp add: within_limits_def)
qed

section \<open>Concrete instances\<close>

lemma sample_failed_run:
  "\<exists>st u ms. run_inner (sample_env False (ModelFailed ''e'' []) sample_done) sample_request ()
     = Inr (RunErr (EProvider ''e'') u, st) \<and> asked_messages (journal st) = [ms]"
  by (simp add: sample_run_simps engine_loop.simps after_loop_def fail_run_def end_with_error_def is_blank_def)

definition sample_state :: "bool \<Rightarrow> (nat, unit) run_state" where
  "sample_state c = initial_state (sample_env c (ModelFailed ''e'' []) sample_done) sample_request ()
     \<lparr>t_target = ''USD'', t_total = 0, t_priced = 0, t_unpriced = 0, t_requests = [], t_max_cost = None\<rparr>
     (metrics_new 0)"

theorem system_prompt_always_first_witness:
  "\<exists>r st ms. run_inner (sample_env False (ModelFailed ''e'' []) sample_done) sample_request () = Inr (r, st)
     \<and> asked_messages (journal st) = [ms] \<and> role (hd ms) = System \<and> content (hd ms) = ''be safe''"
proof -
  obtain st u ms where "run_inner (sample_env False (ModelFailed ''e'' []) sample_done) sample_request ()
      = Inr (RunErr (EProvider ''e'') u, st)" "asked_messages (journal st) = [ms]"
    using sample_failed_run by blast
  then show ?thesis
    using system_prompt_always_first [of "sample_env False (ModelFailed ''e'' []) sample_done" sample_request "()"
        "RunErr (EProvider ''e'') u" st]
    by (auto simp: sample_request_def)
qed

theorem requests_within_iteration_limit_witness:
  "\<exists>r st. run_inner (sample_env False (ModelFailed ''e'' []) sample_done) sample_request () = Inr (r, st)
     \<and> length (asked_messages (journal st)) = 1 \<and> 1 \<le> unat (iterations (metrics st))
     \<and> iterations (metrics st) \<le> 3"
proof -
  obtain st u ms where "run_inner (sample_env False (ModelFailed ''e'' []) sample_done) sample_request ()
      = Inr (RunErr (EProvider ''e'') u, st)" "asked_messages (journal st) = [ms]"
    using sample_failed_run by blast
  then show ?thesis
    using requests_within_iteration_limit [of "sample_env False (ModelFailed ''e'' []) sample_done" sample_request "()"
        "RunErr (EProvider ''e'') u" st]
    by (auto simp: sample_request_def)
qed

end
