(* ===== verification/Engine_Panic.thy ===== *)
theory Engine_Panic
  imports Engine_Facts
begin

text \<open>
  When a run of the agent loop panics (\<open>src/agent/loop/engine.rs\<close>): \<open>upsert_pinned_message\<close>
  inserts at index two, which panics when the message list is shorter. Every other step of the
  loop is panic free, and the list keeps its first two messages through the whole run.
\<close>

section \<open>Only the pinned message can panic\<close>

lemma flow_bind_Panicked [simp]:
  "flow_bind m f = Panicked s \<longleftrightarrow> m = Panicked s \<or> (\<exists>a s'. m = Go a s' \<and> f a s' = Panicked s)"
  by (cases m) auto

lemma panic_free [simp]:
  "break_if r \<noteq> Panicked s"
  "fail_run e st \<noteq> Panicked s"
  "check_step E req st \<noteq> Panicked s"
  "done_phase req d st \<noteq> Panicked s"
  "parse_phase E req text st \<noteq> Panicked s"
  "stage_phase E ev p it decode v st \<noteq> Panicked s"
  "model_phase E req ms st \<noteq> Panicked s"
  by (auto simp: break_if_def fail_run_def check_step_def done_phase_def parse_phase_def stage_phase_def
      model_phase_def Let_def split: prod.splits sum.splits option.splits model_outcome.splits)

lemma turn_panic_free [simp]:
  "limits_phase E req st \<noteq> Panicked s"
  "context_phase E st \<noteq> Panicked s"
  "response_phase E reply st \<noteq> Panicked s"
  "budget_phase E req st \<noteq> Panicked s"
  "act_phase E req text st \<noteq> Panicked s"
  by (auto simp: limits_phase_def context_phase_def response_phase_def budget_phase_def act_phase_def
      split: prod.splits)

definition room :: "('d, 'w) run_state \<Rightarrow> bool" where
  "room st \<longleftrightarrow> HISTORY_PREFIX_LEN \<le> length (messages st)"

lemma pinned_phase_panics:
  "(\<exists>s. pinned_phase E req st = Panicked s) \<longleftrightarrow> pinned_files req \<noteq> [] \<and> \<not> room st"
  by (auto simp: pinned_phase_def room_def upsert_pinned_message_def Let_def split: prod.splits)

lemma engine_turn_panics:
  "(\<exists>s. engine_turn E req st = Panicked s) \<longleftrightarrow> pinned_files req \<noteq> [] \<and> \<not> room st"
  using pinned_phase_panics [of E req st] by (simp add: engine_turn_def)

section \<open>The first two messages stay\<close>

lemma room_take: "HISTORY_PREFIX_LEN \<le> length ms \<Longrightarrow>
    take HISTORY_PREFIX_LEN ms' = take HISTORY_PREFIX_LEN ms \<Longrightarrow> HISTORY_PREFIX_LEN \<le> length ms'"
  by (metis length_take min.absorb2 min.cobounded1)

lemma room_push: "room st \<Longrightarrow> room (push req r t st)"
  by (simp add: room_def push_def push_message_def split_beta)

lemma room_prune: "room st \<Longrightarrow> room (prune req st)"
proof -
  assume r: "room st"
  have "take HISTORY_PREFIX_LEN (messages (prune req st)) = take HISTORY_PREFIX_LEN (messages st)"
    using arg_cong [OF take_prune [of "model_prefix req" "history req" "messages st"], of "take HISTORY_PREFIX_LEN"]
    by (simp add: prune_def model_prefix_def min_def)
  then show ?thesis
    using r room_take unfolding room_def by blast
qed

interpretation room_steps: step_frame E req room "\<lambda>_. True" for E req
  by unfold_locales (auto simp: room_push room_prune, auto simp: room_def jot_def)

interpretation room_run: turn_invariant E req room "\<lambda>_. True" for E req
  by unfold_locales (auto simp: room_def dest: upsert_pinned_prefix)

lemma engine_loop_no_panic:
  "pinned_files req = [] \<or> room st \<Longrightarrow> engine_loop E req st \<noteq> Panicked s"
proof (induction E req st rule: engine_loop.induct)
  case (1 E req st)
  have "\<nexists>s. engine_turn E req st = Panicked s"
    using "1.prems" engine_turn_panics by blast
  moreover have "pinned_files req = [] \<or> room st'" if "engine_turn E req st = LoopContinue st'" for st'
    using "1.prems" room_run.engine_turn_P [of st E req] that by auto
  ultimately show ?case
    using "1.IH" by (cases "engine_turn E req st") (simp_all add: engine_loop.simps [of E req st])
qed

lemma engine_loop_panics:
  "(\<exists>s. engine_loop E req st = Panicked s) \<longleftrightarrow> pinned_files req \<noteq> [] \<and> \<not> room st"
proof
  show "pinned_files req \<noteq> [] \<and> \<not> room st" if "\<exists>s. engine_loop E req st = Panicked s"
    using that engine_loop_no_panic by blast
  show "\<exists>s. engine_loop E req st = Panicked s" if "pinned_files req \<noteq> [] \<and> \<not> room st"
    using that engine_turn_panics [of E req st] by (auto simp: engine_loop.simps [of E req st])
qed

lemma after_loop_panics: "fst (after_loop E m) = RunPanic \<longleftrightarrow> (\<exists>s. m = Panicked s)"
proof -
  have e: "fst (end_with_error E e s) \<noteq> RunPanic" for e s
    by (simp add: end_with_error_def split: prod.splits)
  have f: "fst (finish_run E s) \<noteq> RunPanic" for s
    by (simp add: finish_run_def Let_def split: prod.splits)
  show ?thesis
    using e f by (cases m) (auto simp: after_loop_def split: flow.splits)
qed

lemma initial_room:
  "HISTORY_PREFIX_LEN \<le> length (initial_messages p sp ctx av resume) \<longleftrightarrow>
     \<not> (is_blank p \<and> (\<exists>m. resume = Some [m] \<and> role m = System))"
proof (cases resume)
  case (Some saved)
  then show ?thesis
    by (cases saved) (auto simp: initial_messages_def apply_current_system_prompt_def Let_def
        HISTORY_PREFIX_LEN_def Suc_le_eq)
qed (simp add: initial_messages_def HISTORY_PREFIX_LEN_def)


end
