(* ===== verification/Engine_Safety.thy ===== *)
theory Engine_Safety
  imports Engine_Facts
begin

text \<open>
  Further properties of the agent loop: the tool events are paired, a cancelled run touches
  nothing, absent files are not read again, a rejected reply executes nothing, and a goal
  is reached only by a reply that says so.
\<close>

section \<open>Tool events are paired\<close>

text \<open>The start (\<open>True\<close>) and finish (\<open>False\<close>) events with their call ids.\<close>

fun tool_events :: "'d journal_entry list \<Rightarrow> (bool \<times> string) list" where
  "tool_events [] = []"
| "tool_events (Emitted (ToolStart i s t a) # es) = (True, i) # tool_events es"
| "tool_events (Emitted (ToolFinish i ok v) # es) = (False, i) # tool_events es"
| "tool_events (e # es) = tool_events es"

fun paired :: "(bool \<times> string) list \<Rightarrow> bool" where
  "paired [] = True"
| "paired ((True, i) # (False, j) # es) = (i = j \<and> paired es)"
| "paired _ = False"

lemma tool_events_quiet: "\<not> tool_entry e \<Longrightarrow> tool_events [e] = []"
  by (cases e rule: tool_entry.cases) auto

lemma tool_events_append [simp]: "tool_events (xs @ ys) = tool_events xs @ tool_events ys"
  by (induction xs rule: tool_events.induct) auto

lemma paired_append: "paired xs \<Longrightarrow> paired ys \<Longrightarrow> paired (xs @ ys)"
  by (induction xs rule: paired.induct) auto

lemma frame_journal [simp]:
  "journal (push req r t st) = journal st"
  "journal (prune req st) = journal st"
  "journal (stop_with t st) = journal st"
  "journal (jot e st) = journal st @ [e]"
  by (simp_all add: push_def prune_def stop_with_def jot_def split_beta)

lemma frame_world [simp]:
  "world (push req r t st) = world st"
  "world (prune req st) = world st"
  "world (stop_with t st) = world st"
  "world (jot e st) = world st"
  by (simp_all add: push_def prune_def stop_with_def jot_def split_beta)

lemma frame_metrics [simp]:
  "metrics (push req r t st) = metrics st"
  "metrics (prune req st) = metrics st"
  "metrics (stop_with t st) = metrics st"
  "metrics (jot e st) = metrics st"
  by (simp_all add: push_def prune_def stop_with_def jot_def split_beta)

lemma tool_failed_journal:
  "tool_events (journal (tool_failed E req i srv t tracked err st)) = tool_events (journal st) @ [(False, i)]"
  by (simp add: tool_failed_def Let_def split: option.splits)

lemma tool_succeeded_journal:
  "tool_events (journal (flow_state (tool_succeeded E req i srv t v st)))
     = tool_events (journal st) @ [(False, i)]"
  by (simp add: tool_succeeded_def Let_def bind_break_if)

lemma refuse_call_journal:
  "tool_events (journal (refuse_call i srv t args err st)) = tool_events (journal st) @ [(True, i), (False, i)]"
  by (simp add: refuse_call_def)

text \<open>Every attempted call, refused or not, emits exactly its own pair.\<close>

lemma tool_step_events:
  "tool_events (journal (flow_state (tool_step E req idx call st))) = tool_events (journal st)
     @ [(True, tool_call_id (iterations (metrics st)) idx), (False, tool_call_id (iterations (metrics st)) idx)]"
proof (cases "qualified_new (server call) (tool call)")
  case (Inl why)
  then show ?thesis by (simp add: tool_step_def Let_def refuse_call_journal)
next
  case (Inr q)
  show ?thesis
    by (auto simp: tool_step_def Inr Let_def split_beta refuse_call_journal tool_failed_journal
        tool_succeeded_journal split: option.splits sum.splits)
qed

lemma tool_loop_paired:
  "paired (tool_events (journal st)) \<Longrightarrow> paired (tool_events (journal (tool_loop E req idx cs st)))"
proof (induction cs arbitrary: idx st)
  case (Cons c cs)
  have "paired (tool_events (journal (flow_state (tool_step E req idx c st))))"
    unfolding tool_step_events using Cons.prems by (intro paired_append) auto
  then show ?case
    using Cons.IH by (cases "tool_step E req idx c st") auto
qed simp

interpretation paired_model: model_frame E req "\<lambda>st. paired (tool_events (journal st))" "\<lambda>_. True" for E req
  by unfold_locales (auto simp: tool_events_quiet)

interpretation paired_run: turn_invariant E req "\<lambda>st. paired (tool_events (journal st))" "\<lambda>_. True" for E req
  by unfold_locales (auto intro: tool_loop_paired)

text \<open>
  C13: in the event stream of a run every tool start is followed by the finish of the same call
  before any other tool event, with the same id, also for calls that are refused, fail or are
  cancelled, and whichever way the run ends.
\<close>

theorem tool_events_paired:
  assumes "run_inner E req w = Inr (r, st)"
  shows "paired (tool_events (journal st))"
proof -
  obtain tracker m w' where st: "(r, st) = after_loop E (engine_loop E req (initial_state E req w' tracker m))"
    using run_inner_state [OF assms] by blast
  have "paired (tool_events (journal (initial_state E req w' tracker m)))"
    by (simp add: initial_state_def Let_def)
  then have "paired (tool_events (journal (snd (r, st))))"
    unfolding st by (rule paired_run.run_P)
  then show ?thesis by simp
qed

section \<open>Cancellation\<close>

text \<open>The token is cancelled for good: however the world moves, it answers so.\<close>

definition cancelled_for_good :: "('d, 'w) engine_env \<Rightarrow> 'w \<Rightarrow> bool" where
  "cancelled_for_good E w \<longleftrightarrow> (\<forall>w'. env_steps E w w' \<longrightarrow> fst (is_cancelled E w'))"

definition external_calls :: "'d journal_entry list \<Rightarrow> 'd journal_entry list" where
  "external_calls = filter (\<lambda>e. case e of Asked _ \<Rightarrow> True | Called _ _ _ \<Rightarrow> True | _ \<Rightarrow> False)"

lemma external_calls_other: "\<not> asked_entry e \<Longrightarrow> (\<And>s t a. e \<noteq> Called s t a) \<Longrightarrow> external_calls [e] = []"
  by (cases e) (auto simp: external_calls_def)

definition inert :: "('d, 'w) engine_env \<Rightarrow> 'd journal_entry list \<Rightarrow> ('d, 'w) run_state \<Rightarrow> bool" where
  "inert E calls st \<longleftrightarrow> cancelled_for_good E (world st) \<and> external_calls (journal st) = calls"

lemma cancelled_for_good_step: "cancelled_for_good E w \<Longrightarrow> env_steps E w w' \<Longrightarrow> cancelled_for_good E w'"
  unfolding cancelled_for_good_def by (meson rtranclp_trans)

lemma cancelled_for_good_now: "cancelled_for_good E w \<Longrightarrow> is_cancelled E w \<noteq> (False, w')"
  by (auto simp: cancelled_for_good_def)

lemma inert_jot:
  "inert E calls st \<Longrightarrow> \<not> asked_entry e \<Longrightarrow> (\<And>s t a. e \<noteq> Called s t a) \<Longrightarrow> inert E calls (jot e st)"
  using external_calls_other [of e] by (simp add: inert_def external_calls_def)

lemma not_called: "\<not> tool_entry e \<Longrightarrow> e \<noteq> Called s t a"
  by auto

interpretation inert_steps: step_frame E req "inert E calls" "\<lambda>_. True" for E req calls
  by unfold_locales
    (auto simp: inert_jot not_called tool_entry_not_asked,
     auto simp: inert_def cancelled_for_good_now intro: cancelled_for_good_step)

interpretation inert_run: turn_invariant E req "inert E calls" "\<lambda>_. True" for E req calls
  by unfold_locales (auto simp: inert_def)

text \<open>
  C7: once the run is cancelled no further model request and no further tool call is made, from
  any state of the loop and in the middle of a reply's tool calls: the journal of external calls
  stays as it was, and a turn without pinned files ends the loop with a limit stop.
\<close>

theorem cancelled_run_is_inert:
  assumes "cancelled_for_good E (world st)"
  shows "external_calls (journal (tool_loop E req idx cs st)) = external_calls (journal st)
    \<and> external_calls (journal (snd (after_loop E (engine_loop E req st)))) = external_calls (journal st)
    \<and> (pinned_files req = [] \<longrightarrow> (\<exists>s. engine_loop E req st = LoopBreak s \<and> stop_reason s = LimitReached))"
proof -
  have start: "inert E (external_calls (journal st)) st"
    using assms by (simp add: inert_def)
  have "\<exists>s. engine_turn E req st = LoopBreak s \<and> stop_reason s = LimitReached" if "pinned_files req = []"
  proof -
    obtain t w1 where n: "now E (world st) = (t, w1)" by (cases "now E (world st)")
    have "cancelled_for_good E w1"
      using cancelled_for_good_step [OF assms env_stepsI(6) [OF n]] .
    then have "fst (is_cancelled E w1)" by (simp add: cancelled_for_good_def)
    then obtain w2 where c: "is_cancelled E w1 = (True, w2)"
      by (cases "is_cancelled E w1") auto
    show ?thesis
      using that n c
      by (auto simp: engine_turn_def pinned_phase_def limits_phase_def bind_break_if
          should_stop_for_duration_def should_stop_for_cancel_def set_cancel_or_duration_stop_def
          stop_with_def Let_def split: prod.splits)
  qed
  then have "pinned_files req = [] \<longrightarrow> (\<exists>s. engine_loop E req st = LoopBreak s \<and> stop_reason s = LimitReached)"
    by (auto simp: engine_loop.simps [of E req st])
  then show ?thesis
    using inert_steps.tool_loop_P [OF start] inert_run.run_P [OF start] by (simp add: inert_def)
qed

section \<open>Rejected replies and absent files\<close>

lemma parse_phase_rejects:
  assumes "parse_directive (decode_directive E) reply = Inl err"
  shows "\<exists>st'. act_phase E req reply st = LoopContinue st' \<and> world st' = world st
    \<and> external_calls (journal st') = external_calls (journal st)
    \<and> tool_events (journal st') = tool_events (journal st) \<and> absent_paths st' = absent_paths st
    \<and> tools_executed (diag st') = tools_executed (diag st)"
  using assms
  by (simp add: act_phase_def parse_phase_def Let_def external_calls_def)
    (simp add: push_def prune_def jot_def split_beta)

text \<open>
  A reply that does not parse executes nothing: the turn continues the loop with the world
  untouched, no tool event and no external call, and the two messages it appends are the fixed
  placeholder and the parser's error with its hint, never the rejected text.
\<close>

theorem rejected_reply_executes_nothing:
  assumes "parse_directive (decode_directive E) reply = Inl err"
    and "act_phase E req reply st = r"
  shows "\<exists>st'. r = LoopContinue st' \<and> world st' = world st
    \<and> external_calls (journal st') = external_calls (journal st)
    \<and> tool_events (journal st') = tool_events (journal st)
    \<and> messages st' = prune_message_history (history req) (model_prefix req) (messages st
        @ [mk_message Assistant REJECTED_ASSISTANT,
           mk_message User (print_json E (JObject [(''parse_error'', JString (message err)),
             (''hint'', JString (hint err))]))])"
proof -
  have m: "messages (push req rl t s) = messages s @ [mk_message rl t]"
    "messages (prune req s) = prune_message_history (history req) (model_prefix req) (messages s)"
    for rl t and s :: "('a, 'b) run_state"
    by (simp_all add: push_def prune_def push_message_def split_beta)
  obtain st' where "act_phase E req reply st = LoopContinue st'" "world st' = world st"
    "external_calls (journal st') = external_calls (journal st)"
    "tool_events (journal st') = tool_events (journal st)"
    using parse_phase_rejects [OF assms(1)] by blast
  moreover from this have "messages st' = prune_message_history (history req) (model_prefix req) (messages st
        @ [mk_message Assistant REJECTED_ASSISTANT,
           mk_message User (print_json E (JObject [(''parse_error'', JString (message err)),
             (''hint'', JString (hint err))]))])"
    by (auto simp: act_phase_def parse_phase_def assms(1) Let_def m jot_def)
  ultimately show ?thesis using assms(2) by blast
qed

lemma absent_grows: "absent_paths st \<subseteq> absent_paths (flow_state (tool_step E req idx call st))"
proof -
  have [simp]: "absent_paths (push req r t s) = absent_paths s" "absent_paths (prune req s) = absent_paths s"
    "absent_paths (jot e s) = absent_paths s" "absent_paths (refuse_call i a b c d s) = absent_paths s"
    "absent_paths (set_cancel_or_duration_stop E req s) = absent_paths s"
    for r t e i a b c d and s :: "('a, 'b) run_state"
    by (simp_all add: push_def prune_def jot_def refuse_call_def set_cancel_or_duration_stop_def
        stop_with_def split_beta Let_def)
  have ok: "absent_paths (flow_state (tool_succeeded E req i a b v s)) = absent_paths s"
    for i a b v and s :: "('a, 'b) run_state"
    by (auto simp: tool_succeeded_def Let_def bind_break_if should_stop_for_duration_def
        should_stop_for_cancel_def stop_with_def split: prod.splits)
  have failed: "absent_paths s \<subseteq> absent_paths (tool_failed E req i a b tr err s)"
    for i a b tr err and s :: "('a, 'b) run_state"
    by (auto simp: tool_failed_def Let_def split: option.splits)
  show ?thesis
  proof (cases "qualified_new (server call) (tool call)")
    case (Inl why)
    then show ?thesis by (simp add: tool_step_def Let_def)
  next
    case (Inr q)
    show ?thesis
      using failed
      by (fastforce simp: tool_step_def Inr Let_def split_beta ok split: option.splits sum.splits)
  qed
qed

text \<open>
  Once a \<open>home\<close> path is known to be absent, reading or listing it again in the same run is
  refused without touching the world, under every spelling that normalizes to the same path,
  and no later call of the loop makes the run forget it.
\<close>

theorem absent_path_not_read_again:
  assumes "home_read_path (server call) (tool call) (arguments call) = Some p"
    and "p \<in> absent_paths st"
  shows "p \<in> absent_paths (tool_loop E req i cs st)
    \<and> world (flow_state (tool_step E req idx call st)) = world st
    \<and> external_calls (journal (flow_state (tool_step E req idx call st))) = external_calls (journal st)"
proof -
  have keep: "p \<in> absent_paths s \<Longrightarrow> p \<in> absent_paths (tool_loop E req i cs s)" for s
  proof (induction cs arbitrary: i s)
    case (Cons c cs)
    then show ?case
      using absent_grows [of s E req i c] by (cases "tool_step E req i c s") auto
  qed simp
  show ?thesis
    using keep [OF assms(2)] assms
    by (auto simp: tool_step_def Let_def refuse_call_def external_calls_def split: sum.splits)
qed

section \<open>Reaching the goal\<close>

definition still_open :: "('d, 'w) run_state \<Rightarrow> bool" where
  "still_open st \<longleftrightarrow> stop_reason st = LimitReached"

interpretation open_model: model_frame E req still_open "\<lambda>_. True" for E req
  by unfold_locales (auto simp: still_open_def push_def prune_def jot_def split_beta)

interpretation open_tools: tool_frame E req still_open for E req
  by unfold_locales (auto simp: still_open_def jot_def)

interpretation noted: tool_frame E req "\<lambda>st. e \<in> set (journal st)" for E req e
  by unfold_locales auto

text \<open>A goal is justified by an audited reply that parses to a directive with \<open>done\<close> set.\<close>

definition goal_text :: "model_directive \<Rightarrow> string" where
  "goal_text d = (case result d of Some t \<Rightarrow> t | None \<Rightarrow> ''Agent marked done without explicit result'')"

definition justified :: "('d, 'w) engine_env \<Rightarrow> string \<Rightarrow> 'd journal_entry list \<Rightarrow> bool" where
  "justified E out es \<longleftrightarrow> (\<exists>it reply u atts costs parsed.
     Audited (AiCompletion it reply u atts costs) \<in> set es
     \<and> parse_directive (decode_directive E) reply = Inr parsed \<and> done_flag (directive parsed)
     \<and> out = goal_text (directive parsed))"

lemma justifiedI:
  "Audited (AiCompletion it reply u atts costs) \<in> set es \<Longrightarrow>
     parse_directive (decode_directive E) reply = Inr parsed \<Longrightarrow> done_flag (directive parsed) \<Longrightarrow>
     justified E (goal_text (directive parsed)) es"
  unfolding justified_def by blast

definition open_or_justified :: "('d, 'w) engine_env \<Rightarrow> ('a, ('d, 'w) run_state) flow \<Rightarrow> bool" where
  "open_or_justified E m \<longleftrightarrow> still_open (flow_state m)
     \<or> (\<exists>s. m = LoopBreak s \<and> justified E (final_result s) (journal s))"

lemma bind_open:
  assumes "still_open (flow_state m)"
    and "\<And>a s. m = Go a s \<Longrightarrow> still_open s \<Longrightarrow> open_or_justified E (f a s)"
  shows "open_or_justified E (flow_bind m f)"
  using assms by (cases m) (auto simp: open_or_justified_def)

lemma act_phase_open:
  assumes "still_open st" and "Audited (AiCompletion it reply u atts costs) \<in> set (journal st)"
  shows "open_or_justified E (act_phase E req reply st)"
proof (cases "parse_directive (decode_directive E) reply")
  case (Inl err)
  then show ?thesis
    using open_model.parse_P [OF assms(1), of E req reply]
    by (simp add: act_phase_def open_or_justified_def parse_phase_def Let_def)
next
  case (Inr parsed)
  obtain s where s: "parse_phase E req reply st = Go (directive parsed) s"
    by (simp add: parse_phase_def Inr Let_def)
  have "still_open s" and "Audited (AiCompletion it reply u atts costs) \<in> set (journal s)"
    using open_model.parse_P [OF assms(1), of E req reply] noted.parse_P [OF assms(2), of E req reply] s
    by simp_all
  then have "still_open (tool_loop E req 0 (tool_calls (directive parsed)) s)"
    and "Audited (AiCompletion it reply u atts costs)
      \<in> set (journal (tool_loop E req 0 (tool_calls (directive parsed)) s))"
    by (auto intro: open_tools.tool_loop_P noted.tool_loop_P)
  then show ?thesis
    using s justifiedI [OF _ Inr]
    by (auto simp: act_phase_def done_phase_def open_or_justified_def goal_text_def [symmetric]
        still_open_def prune_def)
qed

lemma response_phase_noted:
  "response_phase E reply st = Go tx s \<Longrightarrow>
     \<exists>it u atts costs. Audited (AiCompletion it tx u atts costs) \<in> set (journal s)"
  by (cases reply) (auto simp: response_phase_def flow_bind_Go, blast)

lemma engine_turn_open:
  assumes "still_open st"
  shows "open_or_justified E (engine_turn E req st)"
  unfolding engine_turn_def
proof (rule bind_open)
  show "still_open (flow_state (pinned_phase E req st))"
    using assms by (auto simp: pinned_phase_def still_open_def Let_def split: prod.splits option.splits)
next
  fix s1 :: "('a, 'b) run_state"
  assume "still_open s1"
  then have limits: "still_open (flow_state (limits_phase E req s1))"
    unfolding limits_phase_def
    by (intro open_model.bind_P open_model.break_if_P open_model.duration_P open_model.cancel_P
        open_model.cost_P open_model.check_step_state) (simp_all add: still_open_def)
  show "open_or_justified E (flow_bind (limits_phase E req s1) (\<lambda>_ st.
     flow_bind (context_phase E st) (\<lambda>provider_messages st.
     flow_bind (model_phase E req provider_messages st) (\<lambda>reply st.
     flow_bind (response_phase E reply st) (\<lambda>text st.
     flow_bind (budget_phase E req st) (\<lambda>_ st. act_phase E req text st))))))"
  proof (rule bind_open [OF limits], rule bind_open [OF open_model.context_P], assumption,
      rule bind_open [OF open_model.model_P], assumption, rule TrueI,
      rule bind_open [OF open_model.response_P], assumption)
    fix reply s4 tx s5
    assume r: "response_phase E reply s4 = Go tx s5" and "still_open s5"
    obtain it u atts costs where e: "Audited (AiCompletion it tx u atts costs) \<in> set (journal s5)"
      using response_phase_noted [OF r] by blast
    show "open_or_justified E (flow_bind (budget_phase E req s5) (\<lambda>_ st. act_phase E req tx st))"
    proof (rule bind_open [OF open_model.budget_P [OF \<open>still_open s5\<close>]])
      fix v s6
      assume "budget_phase E req s5 = Go v s6" and "still_open s6"
      then show "open_or_justified E (act_phase E req tx s6)"
        using act_phase_open noted.budget_P [OF e, of E req] by fastforce
    qed
  qed
qed

lemma engine_loop_open: "still_open st \<Longrightarrow> open_or_justified E (engine_loop E req st)"
proof (induction E req st rule: engine_loop.induct)
  case (1 E req st)
  show ?case
  proof (cases "engine_turn E req st")
    case (LoopContinue s)
    then have "still_open s"
      using engine_turn_open [OF "1.prems", of E req] by (simp add: open_or_justified_def)
    then show ?thesis
      using "1.IH" LoopContinue by (simp add: engine_loop.simps [of E req st])
  qed (use engine_turn_open [OF "1.prems", of E req] in \<open>simp_all add: engine_loop.simps [of E req st]\<close>)
qed

text \<open>The end of the run keeps the journal's entries and the reason; only an output handler
  changes the text.\<close>

lemma after_loop_end:
  assumes "after_loop E m = (RunOk out, st)" and "\<not> stage_handled E RunBeforeOutput"
  shows "out_stop_reason out = stop_reason (flow_state m) \<and> out_result out = final_result (flow_state m)
    \<and> set (journal (flow_state m)) \<subseteq> set (journal st)"
proof -
  have fin: "fst (finish_run E s) = RunOk out \<Longrightarrow> out_stop_reason out = stop_reason s
      \<and> out_result out = final_result s \<and> set (journal s) \<subseteq> set (journal (snd (finish_run E s)))" for s
    by (auto simp: finish_run_def emit_run_summary_def Let_def split: prod.splits) (auto simp: jot_def)
  have op: "\<exists>w. output_phase E s = Go () (s\<lparr>world := w\<rparr>)" for s
  proof (cases "final_result s = []")
    case True
    then have "output_phase E s = Go () (s\<lparr>world := world s\<rparr>)" by (simp add: output_phase_def)
    then show ?thesis by blast
  qed (use assms(2) in \<open>auto simp: output_phase_def stage_phase_def Let_def split: prod.splits\<close>)
  have ends: "end_with_error E e s \<noteq> (RunOk out, x)" for e s x
    by (simp add: end_with_error_def split: prod.splits)
  obtain w where w: "output_phase E (flow_state m) = Go () (flow_state m\<lparr>world := w\<rparr>)"
    using op by blast
  have "after_loop E m = finish_run E (flow_state m\<lparr>world := w\<rparr>)"
    using assms(1) ends w by (cases m) (auto simp: after_loop_def)
  then have f: "finish_run E (flow_state m\<lparr>world := w\<rparr>) = (RunOk out, st)"
    using assms(1) by simp
  show ?thesis
    using fin [of "flow_state m\<lparr>world := w\<rparr>"] unfolding f by simp
qed


section \<open>Concrete instances\<close>

theorem cancelled_run_is_inert_witness:
  "external_calls (journal (snd (after_loop (sample_env True (ModelFailed ''e'' []) sample_done)
       (engine_loop (sample_env True (ModelFailed ''e'' []) sample_done) sample_request (sample_state True))))) = []
   \<and> (\<exists>s. engine_loop (sample_env True (ModelFailed ''e'' []) sample_done) sample_request (sample_state True)
         = LoopBreak s \<and> stop_reason s = LimitReached)"
proof -
  have c: "cancelled_for_good (sample_env True (ModelFailed ''e'' []) sample_done) (world (sample_state True))"
    by (simp add: cancelled_for_good_def sample_env_def)
  have "external_calls (journal (sample_state True)) = []" and "pinned_files sample_request = []"
    by (simp_all add: sample_state_def initial_state_def Let_def external_calls_def sample_request_def)
  then show ?thesis
    using cancelled_run_is_inert [OF c, of sample_request] by auto
qed

lemma sample_no_json:
  "\<exists>e. parse_directive (decode_directive (sample_env c r sample_done)) ''no'' = Inl e"
  by (simp add: sample_env_def parse_directive_def trim_visible visible_def strip_opening_fence_def
      strip_prefix_def split_json_object_def)

theorem rejected_reply_executes_nothing_witness:
  "\<exists>st'. act_phase (sample_env False (ModelFailed ''e'' []) sample_done) sample_request ''no'' (sample_state False)
       = LoopContinue st' \<and> external_calls (journal st') = external_calls (journal (sample_state False))"
proof -
  obtain e where "parse_directive (decode_directive (sample_env False (ModelFailed ''e'' []) sample_done)) ''no'' = Inl e"
    using sample_no_json by blast
  from rejected_reply_executes_nothing [OF this refl, of sample_request "sample_state False"]
  show ?thesis by blast
qed

theorem absent_path_not_read_again_witness:
  "external_calls (journal (flow_state (tool_step (sample_env False (ModelFailed ''e'' []) sample_done)
     sample_request 0 \<lparr>server = ''home'', tool = ''read'', arguments = JObject [(''path'', JString ''a'')]\<rparr>
     (sample_state False\<lparr>absent_paths := {normalize_home_path ''a''}\<rparr>)))) = []"
proof -
  let ?c = "\<lparr>server = ''home'', tool = ''read'', arguments = JObject [(''path'', JString ''a'')]\<rparr>"
  have "home_read_path (server ?c) (tool ?c) (arguments ?c) = Some (normalize_home_path ''a'')"
    by (simp add: home_read_path_def)
  moreover have "external_calls (journal (sample_state False)) = []"
    by (simp add: sample_state_def initial_state_def Let_def external_calls_def)
  ultimately show ?thesis
    using absent_path_not_read_again [of ?c "normalize_home_path ''a''"
        "sample_state False\<lparr>absent_paths := {normalize_home_path ''a''}\<rparr>"] by simp
qed

lemma sample_done_run:
  "\<exists>st out. run_inner (sample_env False (Answered ''{}'' default_usage []) sample_done) sample_request ()
     = Inr (RunOk out, st) \<and> out_stop_reason out = GoalReached
     \<and> tool_events (journal st) = [(True, ''tc-1-0''), (False, ''tc-1-0'')]"
  apply (simp add: sample_run_simps engine_loop.simps after_loop_def is_blank_def response_phase_def
      budget_phase_def act_phase_def parse_phase_def sample_parse)
  apply (simp add: sample_done_def add_tokens_def push_def push_message_def prune_def
      prune_message_history_def prune_by_message_count_def HISTORY_PREFIX_LEN_def
      prune_by_char_budget.simps is_cont_def tool_step_def qualified_new_def home_read_path_def
      tool_succeeded_def done_phase_def jot_def)
  apply (simp add: sample_run_simps model_tool_result_def truncate_chars_def model_prefix_def
      MODEL_TOOL_RESULT_MAX_CHARS_def prune_def push_def push_message_def
      prune_message_history_def prune_by_message_count_def HISTORY_PREFIX_LEN_def
      prune_by_char_budget.simps is_cont_def set_cancel_or_duration_stop_def done_phase_def)
  apply (simp add: char_of_def bit_iff_odd stage_phase_def output_phase_def finish_run_def Let_def emit_run_summary_def jot_def
      tool_call_id_def show_nat.simps)
  done

theorem tool_events_paired_witness:
  "\<exists>r st. run_inner (sample_env False (Answered ''{}'' default_usage []) sample_done) sample_request ()
       = Inr (r, st) \<and> length (tool_events (journal st)) = 2 \<and> paired (tool_events (journal st))"
proof -
  obtain st out where r: "run_inner (sample_env False (Answered ''{}'' default_usage []) sample_done) sample_request ()
      = Inr (RunOk out, st)" and "tool_events (journal st) = [(True, ''tc-1-0''), (False, ''tc-1-0'')]"
    using sample_done_run by blast
  then show ?thesis
    using tool_events_paired [OF r] by simp
qed


end
