(* ===== verification/Utf8.thy ===== *)
theory Utf8
  imports Rust_Prelude
begin

text \<open>
  UTF-8 validation as \<open>std::str::from_utf8\<close> documents it, for the components that decode
  bytes from outside: the longest valid prefix and, behind it, how many bytes form the invalid
  sequence, or that the input merely ends inside a character.
\<close>

section \<open>One character\<close>

definition byte_in :: "nat \<Rightarrow> nat \<Rightarrow> char \<Rightarrow> bool" where
  "byte_in lo hi c \<longleftrightarrow> lo \<le> (of_char c :: nat) \<and> (of_char c :: nat) \<le> hi"

text \<open>A complete character of that many bytes, an invalid sequence of that many bytes, or the
  beginning of a character.\<close>

datatype utf8_step = CharOf nat | BadOf nat | Incomplete

text \<open>The second byte that a given first byte of a three or four byte character allows.\<close>

definition second_of_three :: "char \<Rightarrow> char \<Rightarrow> bool" where
  "second_of_three b x \<longleftrightarrow>
     (if byte_in 0xE0 0xE0 b then byte_in 0xA0 0xBF x
      else if byte_in 0xED 0xED b then byte_in 0x80 0x9F x else byte_in 0x80 0xBF x)"

definition second_of_four :: "char \<Rightarrow> char \<Rightarrow> bool" where
  "second_of_four b x \<longleftrightarrow>
     (if byte_in 0xF0 0xF0 b then byte_in 0x90 0xBF x
      else if byte_in 0xF4 0xF4 b then byte_in 0x80 0x8F x else byte_in 0x80 0xBF x)"

text \<open>\<open>tail_step k n xs\<close>: \<open>k\<close> continuation bytes are still to come after \<open>n\<close> good bytes.\<close>

fun tail_step :: "nat \<Rightarrow> nat \<Rightarrow> string \<Rightarrow> utf8_step" where
  "tail_step 0 n xs = CharOf n"
| "tail_step (Suc k) n [] = Incomplete"
| "tail_step (Suc k) n (x # xs) = (if is_cont x then tail_step k (Suc n) xs else BadOf n)"

fun utf8_next :: "string \<Rightarrow> utf8_step" where
  "utf8_next [] = Incomplete"
| "utf8_next (b # xs) =
     (if byte_in 0 0x7F b then CharOf 1
      else if byte_in 0xC2 0xDF b then tail_step 1 1 xs
      else if byte_in 0xE0 0xEF b then
        (case xs of [] \<Rightarrow> Incomplete
         | x # r \<Rightarrow> (if second_of_three b x then tail_step 1 2 r else BadOf 1))
      else if byte_in 0xF0 0xF4 b then
        (case xs of [] \<Rightarrow> Incomplete
         | x # r \<Rightarrow> (if second_of_four b x then tail_step 2 2 r else BadOf 1))
      else BadOf 1)"

lemma tail_step_char: "tail_step k n xs = CharOf m \<Longrightarrow>
    m = n + k \<and> k \<le> length xs \<and> list_all is_cont (take k xs)"
  by (induction k n xs rule: tail_step.induct) (auto split: if_splits)

lemma tail_step_bad: "tail_step k n xs = BadOf m \<Longrightarrow> n \<le> m \<and> m < n + length xs + 1 \<and> m < n + k"
  by (induction k n xs rule: tail_step.induct) (fastforce split: if_splits)+

lemma tail_step_append: "tail_step k n xs \<noteq> Incomplete \<Longrightarrow> tail_step k n (xs @ ys) = tail_step k n xs"
  by (induction k n xs rule: tail_step.induct) (auto split: if_splits)

lemma tail_step_take: "tail_step k n xs = CharOf m \<Longrightarrow> k \<le> j \<Longrightarrow> tail_step k n (take j xs) = CharOf m"
  by (induction k n xs arbitrary: j rule: tail_step.induct) (auto split: if_splits simp: take_Cons')

lemma second_is_cont: "second_of_three b x \<Longrightarrow> is_cont x" "second_of_four b x \<Longrightarrow> is_cont x"
  by (auto simp: second_of_three_def second_of_four_def byte_in_def is_cont_def split: if_splits)

lemma lead_not_cont:
  "byte_in 0 0x7F b \<or> byte_in 0xC2 0xDF b \<or> byte_in 0xE0 0xEF b \<or> byte_in 0xF0 0xF4 b \<Longrightarrow> \<not> is_cont b"
  by (auto simp: byte_in_def is_cont_def)

lemma utf8_next_char:
  assumes "utf8_next s = CharOf n"
  shows "0 < n \<and> n \<le> length s \<and> \<not> is_cont (hd s) \<and> list_all is_cont (take (n - 1) (tl s))"
proof (cases s)
  case (Cons b xs)
  have lead: "\<not> is_cont b"
    using assms Cons lead_not_cont [of b] by (auto split: if_splits)
  have "0 < n \<and> n \<le> Suc (length xs) \<and> list_all is_cont (take (n - 1) xs)"
    using assms unfolding Cons utf8_next.simps
    by (auto dest!: tail_step_char second_is_cont split: if_splits list.splits simp: numeral_2_eq_2)
  then show ?thesis
    using lead Cons by simp
qed (use assms in simp)

lemma utf8_next_bad:
  assumes "utf8_next s = BadOf n"
  shows "0 < n \<and> n \<le> length s \<and> n \<le> 3"
proof (cases s)
  case (Cons b xs)
  then show ?thesis
    using assms by (fastforce dest!: tail_step_bad split: if_splits list.splits)
qed (use assms in simp)

lemma utf8_next_append: "utf8_next s \<noteq> Incomplete \<Longrightarrow> utf8_next (s @ t) = utf8_next s"
proof (cases s)
  case (Cons b xs)
  assume "utf8_next s \<noteq> Incomplete"
  then show ?thesis
    unfolding Cons append_Cons utf8_next.simps
    by (auto simp: tail_step_append split: if_splits list.splits)
qed simp

lemma utf8_next_take: "utf8_next s = CharOf n \<Longrightarrow> utf8_next (take n s) = CharOf n"
proof (cases s)
  case (Cons b xs)
  assume char: "utf8_next s = CharOf n"
  have sub: "tail_step k 2 r = CharOf (Suc (Suc j)) \<Longrightarrow> tail_step k 2 (take j r) = CharOf (Suc (Suc j))" for k r j
    using tail_step_char [of k 2 r "Suc (Suc j)"] tail_step_take [of k 2 r "Suc (Suc j)" j] by simp
  have sub1: "tail_step k (Suc 0) r = CharOf (Suc j) \<Longrightarrow> tail_step k (Suc 0) (take j r) = CharOf (Suc j)" for k r j
    using tail_step_char [of k "Suc 0" r "Suc j"] tail_step_take [of k "Suc 0" r "Suc j" j] by simp
  obtain m where m: "n = Suc m" using utf8_next_char [OF char] by (cases n) auto
  show ?thesis
    using char unfolding Cons m take_Suc_Cons utf8_next.simps
    by (cases m; cases xs) (auto split: if_splits simp: m intro: sub sub1 dest: tail_step_char)
qed simp

section \<open>Validation\<close>

text \<open>
  \<open>from_utf8\<close>: \<open>None\<close> for valid text, otherwise \<open>valid_up_to\<close> and \<open>error_len\<close> of the error
  (\<open>None\<close> when the input ends inside a character).
\<close>

function from_utf8 :: "string \<Rightarrow> (nat \<times> nat option) option" where
  "from_utf8 s = (if s = [] then None else case utf8_next s of
     CharOf n \<Rightarrow> map_option (\<lambda>(v, e). (v + n, e)) (from_utf8 (drop n s))
   | BadOf n \<Rightarrow> Some (0, Some n)
   | Incomplete \<Rightarrow> Some (0, None))"
  by pat_completeness auto
termination
  by (relation "measure length") (auto dest: utf8_next_char)

declare from_utf8.simps [simp del]

abbreviation utf8_valid :: "string \<Rightarrow> bool" where
  "utf8_valid s \<equiv> from_utf8 s = None"

lemma from_utf8_Nil [simp]: "from_utf8 [] = None"
  by (simp add: from_utf8.simps)

lemma from_utf8_char:
  "s \<noteq> [] \<Longrightarrow> utf8_next s = CharOf n \<Longrightarrow> from_utf8 s = map_option (\<lambda>(v, e). (v + n, e)) (from_utf8 (drop n s))"
  by (subst from_utf8.simps) simp

lemma from_utf8_error:
  "s \<noteq> [] \<Longrightarrow> utf8_next s = BadOf n \<Longrightarrow> from_utf8 s = Some (0, Some n)"
  "s \<noteq> [] \<Longrightarrow> utf8_next s = Incomplete \<Longrightarrow> from_utf8 s = Some (0, None)"
  by (subst from_utf8.simps, simp)+

text \<open>What the error says of the input.\<close>

lemma from_utf8_Some:
  assumes "from_utf8 s = Some (v, e)"
  shows "v < length s \<and> utf8_valid (take v s)
    \<and> (case e of None \<Rightarrow> utf8_next (drop v s) = Incomplete | Some n \<Rightarrow> utf8_next (drop v s) = BadOf n)"
  using assms
proof (induction s arbitrary: v e rule: from_utf8.induct)
  case (1 s)
  then have ne: "s \<noteq> []" by auto
  show ?case
  proof (cases "utf8_next s")
    case (CharOf n)
    then obtain v' where v: "from_utf8 (drop n s) = Some (v', e)" "v = v' + n"
      using "1.prems" ne by (auto simp: from_utf8_char)
    note n = utf8_next_char [OF CharOf]
    have ih: "v' < length (drop n s) \<and> utf8_valid (take v' (drop n s))
        \<and> (case e of None \<Rightarrow> utf8_next (drop v' (drop n s)) = Incomplete
           | Some k \<Rightarrow> utf8_next (drop v' (drop n s)) = BadOf k)"
      using "1.IH" [OF ne CharOf v(1)] .
    have "take v s = take n s @ take v' (drop n s)"
      using v(2) by (simp add: take_add add.commute)
    moreover have st: "utf8_next (take n s @ take v' (drop n s)) = CharOf n"
      using utf8_next_take [OF CharOf] by (simp add: utf8_next_append)
    ultimately have "utf8_valid (take v s)"
      using ih n ne by (simp add: from_utf8_char [OF _ st])
    then show ?thesis
      using ih unfolding v(2) by (auto simp: add.commute split: option.splits)
  qed (use "1.prems" ne in \<open>auto simp: from_utf8_error\<close>)
qed

lemma from_utf8_append: "utf8_valid a \<Longrightarrow> from_utf8 (a @ b) = map_option (\<lambda>(v, e). (v + length a, e)) (from_utf8 b)"
proof (induction a rule: from_utf8.induct)
  case (1 a)
  show ?case
  proof (cases "a = []")
    case False
    then obtain n where n: "utf8_next a = CharOf n" "utf8_valid (drop n a)"
      using "1.prems" by (cases "utf8_next a") (auto simp: from_utf8_error from_utf8_char)
    note len = utf8_next_char [OF n(1)]
    have "utf8_next (a @ b) = CharOf n" using n(1) by (simp add: utf8_next_append)
    then have "from_utf8 (a @ b) = map_option (\<lambda>(v, e). (v + n, e)) (from_utf8 (drop n a @ b))"
      using False len by (simp add: from_utf8_char)
    also have "from_utf8 (drop n a @ b) = map_option (\<lambda>(v, e). (v + length (drop n a), e)) (from_utf8 b)"
      using "1.IH" [OF False n(1) n(2)] .
    finally show ?thesis
      using len by (cases "from_utf8 b") auto
  qed (simp add: option.map_ident split_beta)
qed

lemma utf8_valid_append: "utf8_valid a \<Longrightarrow> utf8_valid b \<Longrightarrow> utf8_valid (a @ b)"
  by (simp add: from_utf8_append)

lemma utf8_valid_tail: "utf8_valid a \<Longrightarrow> utf8_valid (a @ b) \<Longrightarrow> utf8_valid b"
  by (simp add: from_utf8_append)

lemma utf8_valid_boundary:
  assumes "utf8_valid s"
  shows "s = [] \<or> \<not> is_cont (hd s)"
  using assms by (cases "utf8_next s") (auto simp: from_utf8_error dest: utf8_next_char)

text \<open>A piece of valid text is valid up to a character that its end cuts off.\<close>

lemma utf8_piece:
  assumes "utf8_valid (s @ r)"
  shows "utf8_valid s \<or> (\<exists>v. from_utf8 s = Some (v, None))"
proof (cases "from_utf8 s")
  case (Some ve)
  obtain v e where ve: "ve = (v, e)" by (cases ve)
  note err = from_utf8_Some [OF Some [unfolded ve]]
  have "utf8_valid (drop v s @ r)"
    using utf8_valid_tail [of "take v s" "drop v s @ r"] assms err by (simp flip: append_assoc)
  moreover have "drop v s @ r \<noteq> []" using err by simp
  ultimately have "e = None"
    using err by (cases e) (auto simp: from_utf8_error utf8_next_append)
  then show ?thesis using Some ve by simp
qed simp

section \<open>Counting characters\<close>

lemma take_chars_append:
  "b = [] \<or> \<not> is_cont (hd b) \<Longrightarrow> take_chars n (a @ b) = take_chars n a @ take_chars (n - chars_count a) b"
proof (induction n a rule: take_chars.induct)
  case (1 n)
  then show ?case by simp
next
  case (2 n c s)
  then show ?case by (cases n; cases b) (auto split: if_splits)
qed

lemma drop_chars_append:
  "b = [] \<or> \<not> is_cont (hd b) \<Longrightarrow> drop_chars n (a @ b) = drop_chars n a @ drop_chars (n - chars_count a) b"
proof (induction n a rule: drop_chars.induct)
  case (1 n)
  then show ?case by simp
next
  case (2 n c s)
  then show ?case by (cases n; cases b) (auto split: if_splits)
qed

lemma drop_chars_all: "chars_count s \<le> n \<Longrightarrow> drop_chars n s = []"
  by (induction n s rule: drop_chars.induct) (auto split: nat.splits if_splits)

lemma drop_chars_zero: "s = [] \<or> \<not> is_cont (hd s) \<Longrightarrow> drop_chars 0 s = s"
  by (cases s) auto

lemma take_chars_zero: "s = [] \<or> \<not> is_cont (hd s) \<Longrightarrow> take_chars 0 s = []"
  by (cases s) auto

lemma drop_chars_drop_chars:
  "drop_chars m (drop_chars n s) = drop_chars (n + m) s"
  by (induction n s rule: drop_chars.induct) (auto split: nat.splits)

text \<open>Both ends of a cut at a character count of valid text are valid.\<close>

lemma drop_chars_boundary: "drop_chars n s = [] \<or> \<not> is_cont (hd (drop_chars n s))"
  by (induction n s rule: drop_chars.induct) (auto split: nat.splits)

lemma chars_count_zero: "utf8_valid s \<Longrightarrow> chars_count s = 0 \<longleftrightarrow> s = []"
  using utf8_valid_boundary [of s] by (cases s) auto

end
