(* ===== verification/Read_Window.thy ===== *)
theory Read_Window
  imports Utf8
begin

text \<open>
  Windows of a file, addressed by characters (\<open>src/tools/read_window.rs\<close>): the file is read
  in pieces of any size, decoded as the pieces arrive, and never held as a whole. A file is the
  list of what its \<open>read\<close> calls return; an empty piece and the end of the list are the end of
  the file. The vector \<open>pending\<close> with its start index is the live part of the vector.
\<close>

record read_window =
  rw_content :: string
  rw_offset :: nat
  rw_chars_returned :: nat
  rw_truncated :: bool
  rw_next_offset :: "nat option"

type_synonym reads = "(string + string) list"

section \<open>The code\<close>

text \<open>The decoded text, the bytes it took and whether an invalid sequence follows.\<close>

definition decode_pending :: "string \<Rightarrow> string \<times> nat \<times> bool" where
  "decode_pending p = (case from_utf8 p of
     None \<Rightarrow> (p, length p, False)
   | Some (valid_up_to, error_len) \<Rightarrow> (take valid_up_to p, valid_up_to, error_len \<noteq> None))"

definition split_chars :: "string \<Rightarrow> nat \<Rightarrow> string \<times> string \<times> nat" where
  "split_chars text n =
     (if n = 0 then ([], text, 0) else (take_chars n text, drop_chars n text, min n (chars_count text)))"

datatype consume_outcome = NeedMoreInput | WindowFull bool

text \<open>The outcome and the new \<open>skip_remaining\<close>, \<open>content\<close> and \<open>chars_returned\<close>.\<close>

definition consume_chars ::
  "string \<Rightarrow> nat \<Rightarrow> nat \<Rightarrow> string \<Rightarrow> nat \<Rightarrow> consume_outcome \<times> nat \<times> string \<times> nat" where
  "consume_chars text skip max_chars content returned =
     (let (rest, skip') = (if 0 < skip
        then (let (_, leftover, skipped) = split_chars text skip in (leftover, skip - skipped))
        else (text, skip)) in
      if 0 < skip' then (NeedMoreInput, skip', content, returned)
      else (let need = max_chars - returned in
        if need = 0 then (WindowFull (rest \<noteq> []), skip', content, returned)
        else (let (taken, leftover, n) = split_chars rest need; returned' = returned + n in
          (if max_chars \<le> returned' then WindowFull (leftover \<noteq> []) else NeedMoreInput,
           skip', content @ taken, returned'))))"

text \<open>Whether the bytes at hand already show that the file goes on.\<close>

definition shows_more :: "string \<Rightarrow> bool" where
  "shows_more p \<longleftrightarrow> p \<noteq> [] \<and> (let (text, _, invalid) = decode_pending p in invalid \<or> text \<noteq> [])"

fun has_more_chars :: "reads \<Rightarrow> string \<Rightarrow> string + bool" where
  "has_more_chars [] p = Inr (shows_more p)"
| "has_more_chars (Inl e # rs) p = (if shows_more p then Inr True else Inl e)"
| "has_more_chars (Inr bytes # rs) p =
     (if shows_more p then Inr True else if bytes = [] then Inr False else has_more_chars rs (p @ bytes))"

definition INCOMPLETE_MSG :: string where
  "INCOMPLETE_MSG = ''invalid utf-8: incomplete sequence at end of file''"

definition at_eof :: "string \<Rightarrow> string \<Rightarrow> nat \<Rightarrow> string + string \<times> nat \<times> bool" where
  "at_eof p content returned = (if p \<noteq> [] then Inl INCOMPLETE_MSG else Inr (content, returned, False))"

fun read_loop :: "nat \<Rightarrow> reads \<Rightarrow> string \<Rightarrow> nat \<Rightarrow> string \<Rightarrow> nat \<Rightarrow> string + string \<times> nat \<times> bool" where
  "read_loop m [] p skip content returned = at_eof p content returned"
| "read_loop m (Inl e # rs) p skip content returned = Inl e"
| "read_loop m (Inr bytes # rs) p skip content returned =
     (if bytes = [] then at_eof p content returned
      else (let p = p @ bytes; (text, drain_to, invalid) = decode_pending p in
        if text \<noteq> [] then
          (let (outcome, skip, content, returned) = consume_chars text skip m content returned;
               p = drop drain_to p in
           case outcome of
             NeedMoreInput \<Rightarrow> (if invalid then Inl ''invalid utf-8 in file''
                               else read_loop m rs p skip content returned)
           | WindowFull more_in_chunk \<Rightarrow>
               (if more_in_chunk \<or> invalid then Inr (content, returned, True)
                else rbind (has_more_chars rs p) (\<lambda>t. Inr (content, returned, t))))
        else if invalid then Inl ''invalid utf-8 in file''
        else read_loop m rs (drop drain_to p) skip content returned))"

text \<open>The first argument is what \<open>File::open\<close> answers.\<close>

definition read_char_window :: "string + reads \<Rightarrow> nat \<Rightarrow> nat \<Rightarrow> string + read_window" where
  "read_char_window opened off max_chars =
     rbind opened (\<lambda>rs.
     rbind (read_loop (max max_chars 1) rs [] off [] 0) (\<lambda>(content, returned, truncated).
       Inr \<lparr>rw_content = content, rw_offset = off, rw_chars_returned = returned,
            rw_truncated = truncated,
            rw_next_offset = (if truncated then Some (off + returned) else None)\<rparr>))"

section \<open>The window of a valid file\<close>

text \<open>Bytes that are held back because they begin a character.\<close>

definition held :: "string \<Rightarrow> bool" where
  "held p \<longleftrightarrow> p = [] \<or> from_utf8 p = Some (0, None)"

lemma held_valid: "held p \<Longrightarrow> utf8_valid p \<Longrightarrow> p = []"
  by (auto simp: held_def)

lemma shows_more_held: "held p \<Longrightarrow> \<not> shows_more p"
  by (auto simp: held_def shows_more_def decode_pending_def)

lemma decode_piece:
  assumes "utf8_valid (s @ r)"
  obtains t q where "decode_pending s = (t, length t, False)" and "s = t @ q" and "drop (length t) s = q"
    and "utf8_valid t" and "held q" and "utf8_valid (q @ r)"
proof (cases "from_utf8 s")
  case None
  have "utf8_valid r" by (rule utf8_valid_tail [OF None assms])
  then show thesis
    by (intro that [of s "[]"]) (simp_all add: decode_pending_def held_def None)
next
  case (Some ve)
  then obtain v where v: "from_utf8 s = Some (v, None)"
    using utf8_piece [OF assms] by auto
  note err = from_utf8_Some [OF v]
  have "from_utf8 (drop v s) = Some (0, None)"
    using err by (auto intro: from_utf8_error(2))
  moreover have "utf8_valid (drop v s @ r)"
    using utf8_valid_tail [of "take v s" "drop v s @ r"] assms err by (simp flip: append_assoc)
  ultimately show thesis
    by (intro that [of "take v s" "drop v s"]) (use v err in \<open>auto simp: decode_pending_def held_def\<close>)
qed

lemma has_more_chars_exact:
  assumes "held p" and "[] \<notin> set bs" and "utf8_valid (p @ concat bs)"
  shows "has_more_chars (map Inr bs) p = Inr (p @ concat bs \<noteq> [])"
  using assms
proof (induction bs arbitrary: p)
  case Nil
  then show ?case using shows_more_held held_valid by auto
next
  case (Cons b bs)
  have "has_more_chars (map Inr bs) (p @ b) = Inr True"
  proof -
    have "utf8_valid ((p @ b) @ concat bs)" using Cons.prems(3) by simp
    then obtain t q where d: "decode_pending (p @ b) = (t, length t, False)" and tv: "p @ b = t @ q" "held q"
      by (rule decode_piece)
    show ?thesis
    proof (cases "t = []")
      case True
      then have "held (p @ b)" using tv by simp
      then show ?thesis
        using Cons.IH [of "p @ b"] Cons.prems by auto
    next
      case False
      then have "shows_more (p @ b)"
        using d Cons.prems(2) by (auto simp: shows_more_def)
      then show ?thesis by (cases bs) simp_all
    qed
  qed
  then show ?case
    using Cons.prems shows_more_held by auto
qed

text \<open>The state of the loop after the text \<open>d\<close> has been decoded.\<close>

definition window_upto :: "nat \<Rightarrow> nat \<Rightarrow> string \<Rightarrow> string" where
  "window_upto off m d = take_chars m (drop_chars off d)"

lemma window_upto_count: "chars_count (window_upto off m d) = min m (chars_count d - off)"
  by (simp add: window_upto_def)

lemma window_upto_append:
  assumes "utf8_valid t"
  shows "window_upto off m (d @ t) =
    window_upto off m d @ take_chars (m - (chars_count d - off)) (drop_chars (off - chars_count d) t)"
  unfolding window_upto_def
  using drop_chars_append [OF utf8_valid_boundary [OF assms], of off d] drop_chars_boundary
  by (simp add: take_chars_append)

lemma window_upto_full:
  assumes "utf8_valid t" and "off + m \<le> chars_count d"
  shows "window_upto off m (d @ t) = window_upto off m d"
  using assms drop_chars_zero [OF utf8_valid_boundary [OF assms(1)]]
    take_chars_zero [OF utf8_valid_boundary [OF assms(1)]]
  by (simp add: window_upto_append)

lemma drop_chars_Nil: "drop_chars n s = [] \<longleftrightarrow> chars_count s \<le> n"
proof
  assume "drop_chars n s = []"
  then have "chars_count (drop_chars n s) = 0" by simp
  then show "chars_count s \<le> n" by simp
qed (rule drop_chars_all)

lemma consume_chars_exact:
  assumes t: "utf8_valid t" and open_window: "chars_count d < off + m" and "0 < m"
  shows "consume_chars t (off - chars_count d) m (window_upto off m d) (chars_count d - off) =
    (if chars_count (d @ t) < off + m
     then (NeedMoreInput, off - chars_count (d @ t), window_upto off m (d @ t), chars_count (d @ t) - off)
     else (WindowFull (off + m < chars_count (d @ t)), 0, window_upto off m (d @ t), m))"
proof -
  let ?skip = "off - chars_count d" and ?ret = "chars_count d - off"
  have zero: "drop_chars 0 t = t" by (rule drop_chars_zero [OF utf8_valid_boundary [OF t]])
  have rest: "(if 0 < ?skip then (let (_, leftover, skipped) = split_chars t ?skip in (leftover, ?skip - skipped))
      else (t, ?skip)) = (drop_chars ?skip t, ?skip - chars_count t)"
    by (auto simp: split_chars_def zero min_def)
  show ?thesis
  proof (cases "0 < ?skip - chars_count t")
    case True
    then have "window_upto off m (d @ t) = []" and "window_upto off m d = []"
      by (simp_all add: window_upto_def drop_chars_all)
    then show ?thesis
      using True by (simp only: consume_chars_def rest) (simp add: Let_def)
  next
    case False
    let ?need = "m - ?ret"
    have need: "0 < ?need" using open_window \<open>0 < m\<close> by simp
    have sc: "split_chars (drop_chars ?skip t) ?need =
        (take_chars ?need (drop_chars ?skip t), drop_chars (?skip + ?need) t, min ?need (chars_count t - ?skip))"
      using need by (simp add: split_chars_def drop_chars_drop_chars)
    have "m \<le> ?ret + min ?need (chars_count t - ?skip) \<longleftrightarrow> \<not> chars_count (d @ t) < off + m"
      using open_window False by (cases "chars_count d \<le> off") auto
    moreover have "drop_chars (?skip + ?need) t = [] \<longleftrightarrow> \<not> off + m < chars_count (d @ t)"
      using open_window by (cases "chars_count d \<le> off") (auto simp: drop_chars_Nil)
    moreover have "?ret + min ?need (chars_count t - ?skip) = min m (chars_count (d @ t) - off)"
      using open_window False by (cases "chars_count d \<le> off") auto
    ultimately show ?thesis
      using need False by (simp only: consume_chars_def rest sc) (auto simp: sc window_upto_append [OF t] min_def)
  qed
qed

lemma read_loop_exact:
  assumes "held p" and "[] \<notin> set bs" and "utf8_valid (p @ concat bs)" and "chars_count d < off + m" and "0 < m"
  defines "f \<equiv> d @ p @ concat bs"
  shows "read_loop m (map Inr bs) p (off - chars_count d) (window_upto off m d) (chars_count d - off) =
    Inr (window_upto off m f, min m (chars_count f - off), off + m < chars_count f)"
  using assms(1-5) unfolding f_def
proof (induction bs arbitrary: p d)
  case Nil
  then have "p = []" by (auto intro: held_valid)
  then show ?case using Nil by (simp add: at_eof_def)
next
  case (Cons b bs)
  have "utf8_valid ((p @ b) @ concat bs)" using Cons.prems(3) by simp
  then obtain t q where dec: "decode_pending (p @ b) = (t, length t, False)" and split: "p @ b = t @ q"
      "drop (length t) (p @ b) = q" and t: "utf8_valid t" "held q" "utf8_valid (q @ concat bs)"
    by (rule decode_piece)
  have file_eq: "d @ p @ concat (b # bs) = (d @ t) @ q @ concat bs"
    using split(1) by (metis append.assoc concat.simps(2))
  have ne: "b \<noteq> []" "[] \<notin> set bs" using Cons.prems(2) by auto
  show ?case
  proof (cases "t = []")
    case True
    then show ?thesis
      unfolding file_eq using Cons.IH [of q d] t ne dec split(2) Cons.prems(4,5) by simp
  next
    case False
    note eat = consume_chars_exact [OF t(1) Cons.prems(4,5)]
    show ?thesis
    proof (cases "chars_count (d @ t) < off + m")
      case True
      then show ?thesis
        unfolding file_eq using Cons.IH [of q "d @ t"] t ne dec split(2) False eat Cons.prems(5) by simp
    next
      case full: False
      have w: "window_upto off m ((d @ t) @ q @ concat bs) = window_upto off m (d @ t)"
        by (rule window_upto_full [OF t(3)]) (use full in simp)
      have more: "has_more_chars (map Inr bs) q = Inr (q @ concat bs \<noteq> [])"
        using has_more_chars_exact [OF t(2) ne(2) t(3)] .
      have c: "chars_count (q @ concat bs) = 0 \<longleftrightarrow> q @ concat bs = []"
        using chars_count_zero [OF t(3)] .
      have e: "off + m < chars_count ((d @ t) @ q @ concat bs) \<longleftrightarrow>
          off + m < chars_count (d @ t) \<or> q @ concat bs \<noteq> []"
        using full c by (auto simp: chars_count_simps(3) simp del: append_is_Nil_conv)
      have "read_loop m (map Inr (b # bs)) p (off - chars_count d) (window_upto off m d) (chars_count d - off)
          = Inr (window_upto off m (d @ t), m, off + m < chars_count (d @ t) \<or> q @ concat bs \<noteq> [])"
        using ne dec split(2) False eat full more by simp
      moreover have "min m (chars_count ((d @ t) @ q @ concat bs) - off) = m"
        using full by simp
      ultimately show ?thesis
        unfolding file_eq w e by simp
    qed
  qed
qed

text \<open>
  C36: reading a window of a valid file returns exactly the requested characters, whatever pieces
  the file system delivers the bytes in, also when a piece ends inside a character; the window is
  marked as truncated exactly when characters follow it, and the next offset is then the first
  of them, so windows read one after the other neither overlap nor leave a gap.
\<close>

theorem read_char_window_exact:
  assumes "utf8_valid (concat bs)" and "[] \<notin> set bs"
  shows "read_char_window (Inr (map Inr bs)) off n = Inr
    (let m = max n 1; total = chars_count (concat bs) in
     \<lparr>rw_content = take_chars m (drop_chars off (concat bs)), rw_offset = off,
      rw_chars_returned = min m (total - off), rw_truncated = (off + m < total),
      rw_next_offset = (if off + m < total then Some (off + m) else None)\<rparr>)"
proof -
  have "read_loop (max n 1) (map Inr bs) [] off [] 0 =
      Inr (window_upto off (max n 1) (concat bs), min (max n 1) (chars_count (concat bs) - off),
           off + max n 1 < chars_count (concat bs))"
    using read_loop_exact [of "[]" bs "[]" off "max n 1"] assms
    by (simp add: held_def window_upto_def less_max_iff_disj)
  then show ?thesis
    by (auto simp: read_char_window_def window_upto_def Let_def)
qed

theorem read_char_window_exact_witness:
  "\<exists>w. read_char_window (Inr [Inr [CHR 0x61, CHR 0xC3], Inr [CHR 0xA9]]) 1 1 = Inr w
     \<and> rw_content w = [CHR 0xC3, CHR 0xA9] \<and> \<not> rw_truncated w"
proof -
  have "utf8_valid (concat [[CHR 0x61, CHR 0xC3], [CHR 0xA9]])"
    by (simp add: from_utf8.simps byte_in_def is_cont_def)
  from read_char_window_exact [OF this, of 1 1] show ?thesis
    by (simp add: Let_def is_cont_def)
qed

end
