(* ===== verification/Sse.thy ===== *)
theory Sse
  imports Utf8
begin

text \<open>
  Server-sent events of the MCP HTTP transport (\<open>src/mcp/sse.rs\<close>): the decoder that turns
  network chunks into text, and the parser that cuts the text into events.
\<close>

section \<open>Decoding chunks\<close>

definition REPLACEMENT :: string where
  "REPLACEMENT = [CHR 0xEF, CHR 0xBF, CHR 0xBD]"

definition INTERNAL_ERROR :: string where
  "INTERNAL_ERROR = ''internal UTF-8 decode error''"

text \<open>
  \<open>decode_complete_prefix\<close>: the output and the new \<open>pending\<close>. The result is an error when the
  prefix that was reported valid does not validate.
\<close>

function decode_complete_prefix :: "string \<Rightarrow> string \<Rightarrow> string + string \<times> string" where
  "decode_complete_prefix input pending = (case from_utf8 input of
     None \<Rightarrow> Inr (input, pending)
   | Some (valid_up_to, error_len) \<Rightarrow>
       (if valid_up_to = 0 \<and> error_len \<noteq> None
        then rbind (decode_complete_prefix (drop 1 input) pending) (\<lambda>(out, p). Inr (REPLACEMENT @ out, p))
        else (let valid = take valid_up_to input; incomplete = drop valid_up_to input in
          case error_len of
            None \<Rightarrow> (if utf8_valid valid then Inr (valid, pending @ incomplete) else Inl INTERNAL_ERROR)
          | Some bad_len \<Rightarrow>
              (if utf8_valid valid
               then rbind (decode_complete_prefix (drop (valid_up_to + bad_len) input) pending)
                      (\<lambda>(out, p). Inr (valid @ REPLACEMENT @ out, p))
               else Inl INTERNAL_ERROR))))"
  by pat_completeness auto
termination
proof (relation "measure (\<lambda>(input, _). length input)")
  fix input pending :: string and x v e b
  assume "from_utf8 input = Some x" "(v, e) = x"
  then have v: "from_utf8 input = Some (v, e)" by simp
  note err = from_utf8_Some [OF v]
  show "((drop 1 input, pending), (input, pending)) \<in> measure (\<lambda>(input, _). length input)"
    using err by (cases input) auto
  assume "e = Some b"
  then show "((drop (v + b) input, pending), (input, pending)) \<in> measure (\<lambda>(input, _). length input)"
    using err by (auto dest: utf8_next_bad)
qed simp

declare decode_complete_prefix.simps [simp del]

text \<open>The decoder is its \<open>pending\<close> bytes.\<close>

definition decoder_push :: "string \<Rightarrow> string \<Rightarrow> string + string \<times> string" where
  "decoder_push pending chunk =
     (if pending = [] then decode_complete_prefix chunk [] else decode_complete_prefix (pending @ chunk) [])"

text \<open>\<open>String::from_utf8_lossy\<close>: every maximal invalid sequence becomes one replacement.\<close>

function from_utf8_lossy :: "string \<Rightarrow> string" where
  "from_utf8_lossy s = (case from_utf8 s of
     None \<Rightarrow> s
   | Some (v, None) \<Rightarrow> take v s @ REPLACEMENT
   | Some (v, Some n) \<Rightarrow> take v s @ REPLACEMENT @ from_utf8_lossy (drop (v + n) s))"
  by pat_completeness auto
termination
  by (relation "measure length") (auto dest!: from_utf8_Some utf8_next_bad)

declare from_utf8_lossy.simps [simp del]

definition decoder_finish :: "string \<Rightarrow> string" where
  "decoder_finish pending = (if pending = [] then [] else from_utf8_lossy pending)"

text \<open>All pushes of a stream, then \<open>finish\<close>.\<close>

fun decode_stream :: "string \<Rightarrow> string list \<Rightarrow> string + string" where
  "decode_stream pending [] = Inr (decoder_finish pending)"
| "decode_stream pending (c # cs) =
     rbind (decoder_push pending c) (\<lambda>(out, p). map_sum id (\<lambda>rest. out @ rest) (decode_stream p cs))"

lemma decode_total: "\<exists>out p. decode_complete_prefix input pending = Inr (out, p)"
proof (induction input pending rule: decode_complete_prefix.induct)
  case (1 input pending)
  show ?case
  proof (cases "from_utf8 input")
    case None
    then show ?thesis by (simp add: decode_complete_prefix.simps)
  next
    case (Some ve)
    obtain v e where ve: "ve = (v, e)" by (cases ve)
    note err = from_utf8_Some [OF Some [unfolded ve]]
    have start: "\<exists>out p. decode_complete_prefix (drop 1 input) pending = Inr (out, p)"
      if "v = 0" "e = Some k" for k
      using "1.IH"(1) [OF Some ve [symmetric]] that by simp
    have middle: "\<exists>out p. decode_complete_prefix (drop (v + k) input) pending = Inr (out, p)"
      if "0 < v" "e = Some k" for k
      using "1.IH"(2) [OF Some ve [symmetric] _ refl refl that(2)] that err by simp
    show ?thesis
    proof (cases e)
      case None
      then show ?thesis
        using Some ve err by (simp add: decode_complete_prefix.simps [of input])
    next
      case (Some k)
      then show ?thesis
        using start middle \<open>from_utf8 input = Some ve\<close> ve err
        by (cases "v = 0") (auto simp: decode_complete_prefix.simps [of input])
    qed
  qed
qed

lemma decode_piece_exact:
  assumes "utf8_valid (s @ r)"
  shows "\<exists>p. decode_complete_prefix s [] = Inr (take (length s - length p) s, p)
    \<and> s = take (length s - length p) s @ p \<and> utf8_valid (p @ r)"
proof (cases "from_utf8 s")
  case None
  then show ?thesis
    using utf8_valid_tail [OF None assms] by (auto simp: decode_complete_prefix.simps)
next
  case (Some ve)
  then obtain v where v: "from_utf8 s = Some (v, None)"
    using utf8_piece [OF assms] by auto
  note err = from_utf8_Some [OF v]
  have "utf8_valid (drop v s @ r)"
    using utf8_valid_tail [of "take v s" "drop v s @ r"] assms err by (simp flip: append_assoc)
  then show ?thesis
    using v err by (intro exI [of _ "drop v s"]) (simp add: decode_complete_prefix.simps)
qed

lemma decode_stream_exact:
  "utf8_valid (pending @ concat chunks) \<Longrightarrow> decode_stream pending chunks = Inr (pending @ concat chunks)"
proof (induction chunks arbitrary: pending)
  case Nil
  then show ?case by (auto simp: decoder_finish_def from_utf8_lossy.simps)
next
  case (Cons c cs)
  obtain p where p: "decode_complete_prefix (pending @ c) [] =
        Inr (take (length (pending @ c) - length p) (pending @ c), p)"
      "pending @ c = take (length (pending @ c) - length p) (pending @ c) @ p"
      "utf8_valid (p @ concat cs)"
    using decode_piece_exact [of "pending @ c" "concat cs"] Cons.prems by auto
  have push: "decoder_push pending c = decode_complete_prefix (pending @ c) []"
    by (simp add: decoder_push_def)
  have "decode_stream p cs = Inr (p @ concat cs)"
    using Cons.IH p(3) by simp
  then show ?case
    unfolding decode_stream.simps push p(1)
    using p(2) by (simp del: take_append)
qed

text \<open>
  A stream of valid text is decoded exactly, however the network cuts it: the outputs of the
  pushes and of the final flush put together are the text, with no byte lost, repeated or
  replaced, also when chunks end inside a character.
\<close>

theorem utf8_stream_exact:
  assumes "utf8_valid (concat chunks)"
  shows "decode_stream [] chunks = Inr (concat chunks)"
  using decode_stream_exact [of "[]" chunks] assms by simp

theorem utf8_stream_exact_witness:
  "decode_stream [] [[CHR 0x61, CHR 0xC3], [CHR 0xA9]] = Inr [CHR 0x61, CHR 0xC3, CHR 0xA9]"
proof -
  have "utf8_valid (concat [[CHR 0x61, CHR 0xC3], [CHR 0xA9]])"
    by (simp add: from_utf8.simps byte_in_def is_cont_def)
  from utf8_stream_exact [OF this] show ?thesis by simp
qed

text \<open>On invalid input the output depends on the cut: the same bytes give two replacement
  characters in one chunk and one in another.\<close>

lemma decoder_cut_matters:
  "decode_stream [] [[CHR 0x78, CHR 0xE2, CHR 0x82, CHR 0x41]] = Inr (''x'' @ REPLACEMENT @ ''A'')"
  "decode_stream [] [''x'', [CHR 0xE2, CHR 0x82, CHR 0x41]] = Inr (''x'' @ REPLACEMENT @ REPLACEMENT @ ''A'')"
  by (simp_all add: decoder_push_def decode_complete_prefix.simps from_utf8.simps byte_in_def is_cont_def
      second_of_three_def decoder_finish_def)

section \<open>Events\<close>

record sse_event =
  sse_name :: "string option"
  sse_id :: "string option"
  sse_retry_ms :: "u64 option"
  sse_data :: string

definition default_event :: sse_event where
  "default_event = \<lparr>sse_name = None, sse_id = None, sse_retry_ms = None, sse_data = []\<rparr>"

text \<open>One line of a block: the event so far, the data lines and whether a field was seen.\<close>

definition sse_field :: "string \<Rightarrow> string \<times> string" where
  "sse_field line = (case split_once (CHR '':'') line of
     Some (field, rest) \<Rightarrow> (field, (case strip_prefix '' '' rest of Some v \<Rightarrow> v | None \<Rightarrow> rest))
   | None \<Rightarrow> (line, []))"

fun sse_line :: "string \<Rightarrow> sse_event \<times> string list \<times> bool \<Rightarrow> sse_event \<times> string list \<times> bool" where
  "sse_line raw (ev, data_lines, saw) =
     (let line = (case strip_suffix [CR] raw of Some l \<Rightarrow> l | None \<Rightarrow> raw) in
      if line = [] \<or> starts_with line '':'' then (ev, data_lines, saw)
      else (let (field, v) = sse_field line in
        if field = ''event'' then (ev\<lparr>sse_name := Some v\<rparr>, data_lines, True)
        else if field = ''id''
        then (if CHR 0x00 \<in> set v then (ev, data_lines, True) else (ev\<lparr>sse_id := Some v\<rparr>, data_lines, True))
        else if field = ''retry''
        then (case parse_u64 v of Some ms \<Rightarrow> (ev\<lparr>sse_retry_ms := Some ms\<rparr>, data_lines, True)
              | None \<Rightarrow> (ev, data_lines, True))
        else if field = ''data'' then (ev, data_lines @ [v], True)
        else (ev, data_lines, True)))"

definition parse_event_block :: "string \<Rightarrow> sse_event option" where
  "parse_event_block block =
     (let (ev, data_lines, saw) = fold sse_line (split_on LF block) (default_event, [], False) in
      if \<not> saw \<and> data_lines = [] then None else Some (ev\<lparr>sse_data := join_with [LF] data_lines\<rparr>))"

definition find_event_boundary :: "string \<Rightarrow> nat option" where
  "find_event_boundary buf = (case find_sub [CR, LF, CR, LF] buf of
     Some i \<Rightarrow> Some i | None \<Rightarrow> find_sub [LF, LF] buf)"

lemma find_event_boundary_length: "find_event_boundary buf = Some i \<Longrightarrow> i + 2 \<le> length buf"
  by (auto simp: find_event_boundary_def dest!: find_sub_Some_length split: option.splits)

text \<open>The loop of \<open>push\<close>: the events and what stays in the buffer.\<close>

function drain_events :: "string \<Rightarrow> sse_event list \<times> string" where
  "drain_events buf = (case find_event_boundary buf of
     None \<Rightarrow> ([], buf)
   | Some idx \<Rightarrow>
       (let raw = take idx buf;
            skip = (if starts_with (drop idx buf) [CR, LF, CR, LF] then 4 else 2);
            (events, rest) = drain_events (drop (idx + skip) buf) in
        (case parse_event_block raw of Some e \<Rightarrow> e # events | None \<Rightarrow> events, rest)))"
  by pat_completeness auto
termination
  by (relation "measure length") (auto dest!: find_event_boundary_length)

declare drain_events.simps [simp del]

record sse_parser =
  buffer :: string
  max_buffer_bytes :: nat

definition DEFAULT_MAX_BUFFER_BYTES :: nat where
  "DEFAULT_MAX_BUFFER_BYTES = 1024 * 1024"

definition with_max_buffer :: "nat \<Rightarrow> sse_parser" where
  "with_max_buffer n = \<lparr>buffer = [], max_buffer_bytes = max n 1\<rparr>"

definition sse_push :: "sse_parser \<Rightarrow> string \<Rightarrow> string + sse_event list \<times> sse_parser" where
  "sse_push P chunk =
     (if max_buffer_bytes P < length (buffer P) + length chunk
      then Inl (''SSE buffer exceeded '' @ show_nat (max_buffer_bytes P) @ '' bytes without an event boundary'')
      else (let (events, rest) = drain_events (buffer P @ chunk) in Inr (events, P\<lparr>buffer := rest\<rparr>)))"

definition sse_finish :: "sse_parser \<Rightarrow> sse_event option \<times> sse_parser" where
  "sse_finish P =
     (if is_blank (buffer P) then (None, P\<lparr>buffer := []\<rparr>)
      else (parse_event_block (buffer P), P\<lparr>buffer := []\<rparr>))"

definition parse_json_data :: "(string \<Rightarrow> string + json) \<Rightarrow> string \<Rightarrow> json option" where
  "parse_json_data from_str d =
     (let trimmed = trim d in
      if trimmed = [] then None else (case from_str trimmed of Inl _ \<Rightarrow> None | Inr v \<Rightarrow> Some v))"

text \<open>Pushing several chunks.\<close>

fun push_all :: "sse_parser \<Rightarrow> string list \<Rightarrow> string + sse_event list \<times> sse_parser" where
  "push_all P [] = Inr ([], P)"
| "push_all P (c # cs) =
     rbind (sse_push P c) (\<lambda>(events, P').
     rbind (push_all P' cs) (\<lambda>(events', P''). Inr (events @ events', P'')))"

section \<open>What the parser keeps\<close>

lemma drain_events_Some:
  assumes "find_event_boundary buf = Some idx"
  obtains k where "snd (drain_events buf) = snd (drain_events (drop k buf))"
    and "k = idx + (if starts_with (drop idx buf) [CR, LF, CR, LF] then 4 else 2)"
  by (rule that [OF _ refl], subst drain_events.simps) (simp add: assms Let_def split_beta)

lemma drain_events_rest: "find_event_boundary (snd (drain_events buf)) = None
    \<and> length (snd (drain_events buf)) \<le> length buf \<and> set (snd (drain_events buf)) \<subseteq> set buf"
proof (induction buf rule: drain_events.induct)
  case (1 buf)
  show ?case
  proof (cases "find_event_boundary buf")
    case (Some idx)
    obtain k where k: "snd (drain_events buf) = snd (drain_events (drop k buf))"
      and "k = idx + (if starts_with (drop idx buf) [CR, LF, CR, LF] then 4 else 2)"
      using drain_events_Some [OF Some] .
    then have "find_event_boundary (snd (drain_events (drop k buf))) = None
        \<and> length (snd (drain_events (drop k buf))) \<le> length (drop k buf)
        \<and> set (snd (drain_events (drop k buf))) \<subseteq> set (drop k buf)"
      using "1.IH" [OF Some refl refl] by simp
    then show ?thesis
      unfolding k using set_drop_subset [of k buf] by (auto intro: order_trans)
  qed (simp add: drain_events.simps)
qed

text \<open>
  The parser's memory is bounded: whatever is pushed, the buffer never holds more than the
  configured number of bytes, and what it holds never contains a complete event.
\<close>

theorem sse_buffer_bounded:
  assumes "sse_push P chunk = Inr (events, P')"
  shows "length (buffer P') \<le> max_buffer_bytes P' \<and> find_event_boundary (buffer P') = None
    \<and> max_buffer_bytes P' = max_buffer_bytes P"
  using assms drain_events_rest [of "buffer P @ chunk"]
  by (auto simp: sse_push_def Let_def split: if_splits prod.splits)

lemma find_sub_append: "find_sub p s = Some i \<Longrightarrow> find_sub p (s @ t) = Some i"
proof (induction s arbitrary: i)
  case Nil
  then have "p = []" "i = 0" by (auto simp: find_sub.simps [of p "[]"] split: if_splits)
  then show ?case by (simp add: find_sub.simps [of "[]"])
next
  case (Cons c s)
  show ?case
  proof (cases "prefix p (c # s)")
    case True
    then have "prefix p (c # s @ t)" by (metis append_Cons prefix_prefix)
    then show ?thesis
      using True Cons.prems find_sub.simps [of p "c # s"] find_sub.simps [of p "c # s @ t"] by simp
  next
    case False
    then obtain j where j: "find_sub p s = Some j" "i = Suc j"
      using Cons.prems find_sub.simps [of p "c # s"] by auto
    then have "length p \<le> length (c # s)"
      using find_sub_Some_length [OF j(1)] by simp
    then have "\<not> prefix p (c # s @ t)"
      using False by (metis append_Cons prefix_length_prefix prefixI)
    then show ?thesis
      using Cons.IH [OF j(1)] j(2) find_sub.simps [of p "c # s @ t"] by simp
  qed
qed

lemma boundary_without_CR:
  assumes "CR \<notin> set buf"
  shows "find_event_boundary buf = find_sub [LF, LF] buf"
proof -
  have "find_sub [CR, LF, CR, LF] buf = None"
  proof (rule ccontr)
    assume "find_sub [CR, LF, CR, LF] buf \<noteq> None"
    then obtain i where "prefix [CR, LF, CR, LF] (drop i buf)"
      using find_sub_Some_prefix by blast
    then have "CR \<in> set (drop i buf)" by (auto simp: prefix_def)
    then show False using assms by (auto dest: in_set_dropD)
  qed
  then show ?thesis by (simp add: find_event_boundary_def)
qed

lemma drain_events_append:
  assumes "CR \<notin> set (a @ b)"
  shows "drain_events (a @ b) =
    (let (events, rest) = drain_events a; (events', rest') = drain_events (rest @ b) in (events @ events', rest'))"
  using assms
proof (induction a rule: drain_events.induct)
  case (1 a)
  show ?case
  proof (cases "find_event_boundary a")
    case None
    then show ?thesis by (simp add: drain_events.simps [of a])
  next
    case (Some i)
    have i: "find_sub [LF, LF] a = Some i"
      using Some "1.prems" by (simp add: boundary_without_CR)
    have len: "i + 2 \<le> length a" using find_event_boundary_length [OF Some] .
    have whole: "find_event_boundary (a @ b) = Some i"
      using find_sub_append [OF i] "1.prems" by (simp add: boundary_without_CR)
    have nocr: "\<not> starts_with (drop i s) [CR, LF, CR, LF]" if "CR \<notin> set s" for s
      using that by (auto simp: prefix_def dest!: arg_cong [of _ _ set] dest: in_set_dropD)
    have ih: "drain_events (drop (i + 2) a @ b) = (let (events, rest) = drain_events (drop (i + 2) a);
        (events', rest') = drain_events (rest @ b) in (events @ events', rest'))"
      using "1.IH" [OF Some refl refl] "1.prems" nocr [of a] by (auto dest: in_set_dropD)
    have a: "drain_events a = (let (events, rest) = drain_events (drop (i + 2) a) in
        (case parse_event_block (take i a) of Some e \<Rightarrow> e # events | None \<Rightarrow> events, rest))"
      using Some "1.prems" nocr [of a] by (subst drain_events.simps) simp
    have ab: "drain_events (a @ b) = (let (events, rest) = drain_events (drop (i + 2) a @ b) in
        (case parse_event_block (take i a) of Some e \<Rightarrow> e # events | None \<Rightarrow> events, rest))"
      using whole "1.prems" nocr [of "a @ b"] len by (subst drain_events.simps) simp
    show ?thesis
      unfolding ab ih a by (auto simp: Let_def split: prod.splits option.splits)
  qed
qed

lemma push_all_drain:
  assumes "CR \<notin> set (buffer P @ concat cs)" and "length (buffer P @ concat cs) \<le> max_buffer_bytes P"
    and "find_event_boundary (buffer P) = None"
  shows "push_all P cs = Inr (fst (drain_events (buffer P @ concat cs)),
    P\<lparr>buffer := snd (drain_events (buffer P @ concat cs))\<rparr>)"
  using assms
proof (induction cs arbitrary: P)
  case Nil
  then show ?case by (simp add: drain_events.simps)
next
  case (Cons c cs)
  obtain ev rest where d: "drain_events (buffer P @ c) = (ev, rest)"
    by (cases "drain_events (buffer P @ c)")
  have sub: "set rest \<subseteq> set (buffer P @ c) \<and> length rest \<le> length (buffer P @ c) \<and> find_event_boundary rest = None"
    using drain_events_rest [of "buffer P @ c"] d by simp
  have "push_all (P\<lparr>buffer := rest\<rparr>) cs = Inr (fst (drain_events (rest @ concat cs)),
      P\<lparr>buffer := snd (drain_events (rest @ concat cs))\<rparr>)"
    using Cons.IH [of "P\<lparr>buffer := rest\<rparr>"] Cons.prems sub by auto
  then show ?case
    using Cons.prems d drain_events_append [of "buffer P @ c" "concat cs"]
    by (simp add: sse_push_def split_beta)
qed



theorem sse_buffer_bounded_witness:
  "\<exists>events P'. sse_push (with_max_buffer 16) ''data: x'' = Inr (events, P') \<and> length (buffer P') \<le> 16"
proof -
  obtain events P' where p: "sse_push (with_max_buffer 16) ''data: x'' = Inr (events, P')"
    by (cases "drain_events ''data: x''") (auto simp: sse_push_def with_max_buffer_def)
  from sse_buffer_bounded [OF this] p show ?thesis
    by (auto simp: with_max_buffer_def)
qed

section \<open>Sending a payload\<close>

lemma split_on_subset: "l \<in> set (split_on d s) \<Longrightarrow> set l \<subseteq> set s"
proof (induction s arbitrary: l)
  case (Cons c s)
  show ?case
    using Cons.prems Cons.IH by (cases "split_on d s") (fastforce split: if_splits)+
qed simp

lemma sse_line_data: "CR \<notin> set l \<Longrightarrow> sse_line (''data: '' @ l) (ev, ls, saw) = (ev, ls @ [l], True)"
proof -
  assume "CR \<notin> set l"
  then have "strip_suffix [CR] (''data: '' @ l) = None"
    using set_mono_suffix [of "[CR]" "''data: '' @ l"] by (auto simp: strip_suffix_def)
  moreover have "split_once (CHR '':'') (''data: '' @ l) = Some (''data'', '' '' @ l)"
    by (simp add: split_once_Some)
  ultimately show ?thesis
    by (simp add: sse_field_def strip_prefix_def)
qed

lemma fold_sse_data:
  "(\<And>l. l \<in> set ls \<Longrightarrow> CR \<notin> set l) \<Longrightarrow>
     fold sse_line (map (\<lambda>l. ''data: '' @ l) ls) (ev, ds, saw) = (ev, ds @ ls, saw \<or> ls \<noteq> [])"
  by (induction ls arbitrary: ds saw) (simp_all add: sse_line_data del: sse_line.simps append_Cons)

text \<open>
  A payload sent as data lines arrives exactly: the block with one \<open>data:\<close> line for every
  line of a text without carriage returns parses to an event whose data is that text.
\<close>

theorem sse_data_roundtrip:
  assumes "CR \<notin> set d"
  shows "parse_event_block (join_with [LF] (map (\<lambda>l. ''data: '' @ l) (split_on LF d)))
    = Some (default_event\<lparr>sse_data := d\<rparr>)"
proof -
  have lines: "CR \<notin> set l \<and> LF \<notin> set l" if "l \<in> set (split_on LF d)" for l
    using that assms split_on_no_sep [OF that] split_on_subset [OF that] by auto
  then have "split_on LF (join_with [LF] (map (\<lambda>l. ''data: '' @ l) (split_on LF d)))
      = map (\<lambda>l. ''data: '' @ l) (split_on LF d)"
    by (intro split_on_join) auto
  then show ?thesis
    using lines fold_sse_data [of "split_on LF d" default_event "[]" False]
    by (simp add: parse_event_block_def join_split_on)
qed

theorem sse_data_roundtrip_witness:
  "parse_event_block (''data: a'' @ [LF] @ ''data: b'') = Some (default_event\<lparr>sse_data := ''a'' @ [LF] @ ''b''\<rparr>)"
  using sse_data_roundtrip [of "''a'' @ [LF] @ ''b''"] by simp

text \<open>With carriage returns it does matter: a later \<open>CR LF CR LF\<close> is preferred to an earlier
  \<open>LF LF\<close>, and the two events in front of it become one.\<close>

lemma sse_mixed_line_ends_merge:
  "fst (drain_events (''data:a'' @ [LF, LF] @ ''data:b'' @ [CR, LF, CR, LF])) =
     [default_event\<lparr>sse_data := ''a'' @ [LF] @ ''b''\<rparr>]"
  by (simp add: drain_events.simps find_event_boundary_def find_sub.simps parse_event_block_def sse_field_def
      strip_suffix_def strip_prefix_def default_event_def suffix_to_prefix)

end
