(* ===== verification/Run_Cancel.thy ===== *)
theory Run_Cancel
  imports Rust_Prelude
begin

text \<open>
  Cancellation and the wall-clock deadline of a run (\<open>src/agent/run_cancel.rs\<close>) as a
  transition system. \<open>arm_deadline\<close> stores the instant, then takes a generation number and
  starts a sleeper; these are separate steps, so arming from several places interleaves, and the
  sleepers wake in any order once their time has come. Times are nanoseconds on one clock.
\<close>

section \<open>State and operations\<close>

record sleeper =
  sl_generation :: u64
  sl_wakes_at :: nat

record run_cancel =
  token :: bool
  deadline :: "nat option"
  generation :: u64
  arming :: "nat list"
  sleepers :: "sleeper list"
  clock :: nat

definition run_cancel_new :: "nat \<Rightarrow> run_cancel" where
  "run_cancel_new t = \<lparr>token = False, deadline = None, generation = 0, arming = [], sleepers = [], clock = t\<rparr>"

text \<open>The two halves of \<open>arm_deadline\<close>.\<close>

definition arm_store :: "nat \<Rightarrow> run_cancel \<Rightarrow> run_cancel" where
  "arm_store max_duration s = s\<lparr>deadline := Some (clock s + max_duration), arming := max_duration # arming s\<rparr>"

definition arm_register :: "nat \<Rightarrow> run_cancel \<Rightarrow> run_cancel" where
  "arm_register max_duration s =
     (let g = generation s + 1 in
      s\<lparr>generation := g, arming := remove1 max_duration (arming s),
        sleepers := sleepers s @ [\<lparr>sl_generation = g, sl_wakes_at = clock s + max_duration\<rparr>]\<rparr>)"

text \<open>The sleeper's \<open>select!\<close>: its time has come, or the token is cancelled already.\<close>

definition sleeper_wakes :: "sleeper \<Rightarrow> run_cancel \<Rightarrow> run_cancel" where
  "sleeper_wakes l s = s\<lparr>token := token s \<or> generation s = sl_generation l, sleepers := remove1 l (sleepers s)\<rparr>"

definition sleeper_quits :: "sleeper \<Rightarrow> run_cancel \<Rightarrow> run_cancel" where
  "sleeper_quits l s = s\<lparr>sleepers := remove1 l (sleepers s)\<rparr>"

definition cancel :: "run_cancel \<Rightarrow> run_cancel" where
  "cancel s = s\<lparr>token := True\<rparr>"

definition remaining :: "run_cancel \<Rightarrow> nat option" where
  "remaining s = map_option (\<lambda>d. if clock s \<le> d then d - clock s else 1000000) (deadline s)"

datatype cancel_event = Passes nat | Stores nat | Registers nat | Wakes sleeper | Quits sleeper | Cancels

inductive cancel_step :: "run_cancel \<Rightarrow> cancel_event \<Rightarrow> run_cancel \<Rightarrow> bool" where
  passes: "cancel_step s (Passes n) (s\<lparr>clock := clock s + n\<rparr>)"
| stores: "cancel_step s (Stores d) (arm_store d s)"
| registers: "d \<in> set (arming s) \<Longrightarrow> cancel_step s (Registers d) (arm_register d s)"
| wakes: "l \<in> set (sleepers s) \<Longrightarrow> sl_wakes_at l \<le> clock s \<Longrightarrow> cancel_step s (Wakes l) (sleeper_wakes l s)"
| quits: "l \<in> set (sleepers s) \<Longrightarrow> token s \<Longrightarrow> cancel_step s (Quits l) (sleeper_quits l s)"
| cancels: "cancel_step s Cancels (cancel s)"

inductive cancel_run :: "run_cancel \<Rightarrow> cancel_event list \<Rightarrow> run_cancel \<Rightarrow> bool" where
  done_run: "cancel_run s [] s"
| more_run: "cancel_run s es s' \<Longrightarrow> cancel_step s' e s'' \<Longrightarrow> cancel_run s (es @ [e]) s''"

inductive_cases cancel_stepE: "cancel_step s e s'"

text \<open>The time that passes and the deadlines that are registered in a run.\<close>

fun elapsed :: "cancel_event list \<Rightarrow> nat" where
  "elapsed [] = 0"
| "elapsed (Passes n # es) = n + elapsed es"
| "elapsed (e # es) = elapsed es"

fun registered :: "cancel_event list \<Rightarrow> nat" where
  "registered [] = 0"
| "registered (Registers d # es) = Suc (registered es)"
| "registered (e # es) = registered es"

lemma elapsed_append [simp]: "elapsed (xs @ ys) = elapsed xs + elapsed ys"
  by (induction xs rule: elapsed.induct) auto

lemma registered_append [simp]: "registered (xs @ ys) = registered xs + registered ys"
  by (induction xs rule: registered.induct) auto

lemmas cancel_ops = arm_store_def arm_register_def sleeper_wakes_def sleeper_quits_def cancel_def Let_def

lemma cancel_step_clock: "cancel_step s e s' \<Longrightarrow> clock s' = clock s + elapsed [e]"
  by (auto simp: cancel_ops elim!: cancel_stepE)

lemma cancel_run_clock: "cancel_run s es s' \<Longrightarrow> clock s' = clock s + elapsed es"
  by (induction rule: cancel_run.induct) (simp_all add: cancel_step_clock del: elapsed.simps, simp)

section \<open>Generations\<close>

text \<open>After \<open>n\<close> registrations the counter is \<open>n\<close> and every sleeper has a number up to \<open>n\<close>.\<close>

definition numbered :: "nat \<Rightarrow> run_cancel \<Rightarrow> bool" where
  "numbered n s \<longleftrightarrow> generation s = of_nat n \<and> (\<forall>l\<in>set (sleepers s). \<exists>i. 0 < i \<and> i \<le> n \<and> sl_generation l = of_nat i)"

lemma in_remove1: "x \<in> set (remove1 y xs) \<Longrightarrow> x \<in> set xs"
  using set_remove1_subset by fast

lemma numbered_step:
  assumes "cancel_step s e s'" and "numbered n s"
  shows "numbered (n + registered [e]) s'"
proof (cases "\<exists>d. e = Registers d")
  case True
  then obtain d where "s' = arm_register d s" "e = Registers d"
    using assms(1) by (auto elim: cancel_stepE)
  moreover have "\<exists>i>0. i \<le> Suc n \<and> generation s + 1 = of_nat i"
    using assms(2) by (intro exI [of _ "Suc n"]) (simp add: numbered_def add.commute)
  moreover have "\<exists>i>0. i \<le> Suc n \<and> sl_generation l = of_nat i" if "l \<in> set (sleepers s)" for l
    using assms(2) that unfolding numbered_def by (meson le_SucI)
  ultimately show ?thesis
    using assms(2) by (auto simp: numbered_def arm_register_def Let_def add.commute)
next
  case False
  then show ?thesis
    using assms by (auto simp: numbered_def cancel_ops elim!: cancel_stepE dest!: in_remove1)
qed

lemma numbered_run: "cancel_run s0 es s \<Longrightarrow> s0 = run_cancel_new t \<Longrightarrow> numbered (registered es) s"
proof (induction rule: cancel_run.induct)
  case (done_run s)
  then show ?case by (simp add: numbered_def run_cancel_new_def)
next
  case (more_run s es s' e s'')
  then show ?case using numbered_step [OF more_run.hyps(2)] by simp
qed

text \<open>The newest sleeper's generation is new as long as the counter has not wrapped around.\<close>

lemma fresh_generation:
  assumes "numbered n s" and "Suc n < 2 ^ 64" and "l \<in> set (sleepers s)"
  shows "sl_generation l \<noteq> generation s + 1"
proof
  assume eq: "sl_generation l = generation s + 1"
  obtain i where i: "i \<le> n" "sl_generation l = of_nat i"
    using assms unfolding numbered_def by blast
  have "(of_nat i :: u64) = of_nat (Suc n)"
    using eq i assms(1) by (simp add: numbered_def add.commute)
  then have "unat (of_nat i :: u64) = unat (of_nat (Suc n) :: u64)" by (rule arg_cong)
  then have "i = Suc n"
    using i assms(2) by (simp only: unat_of_nat) (simp add: less_Suc_eq_le)
  then show False using i by simp
qed

text \<open>What holds from the moment a deadline is the newest one.\<close>

definition newest :: "u64 \<Rightarrow> nat \<Rightarrow> run_cancel \<Rightarrow> bool" where
  "newest g due s \<longleftrightarrow> generation s = g
     \<and> (\<forall>l\<in>set (sleepers s). sl_generation l = g \<longrightarrow> sl_wakes_at l = due) \<and> (token s \<longrightarrow> due \<le> clock s)"

lemma newest_step:
  "cancel_step s e s' \<Longrightarrow> newest g due s \<Longrightarrow> e \<noteq> Cancels \<Longrightarrow> \<forall>d. e \<noteq> Registers d \<Longrightarrow> newest g due s'"
  by (auto simp: newest_def cancel_ops elim!: cancel_stepE dest: notin_set_remove1)

lemma newest_run:
  "cancel_run s es s' \<Longrightarrow> newest g due s \<Longrightarrow> Cancels \<notin> set es \<Longrightarrow> \<forall>d. Registers d \<notin> set es \<Longrightarrow> newest g due s'"
proof (induction rule: cancel_run.induct)
  case (more_run s es s' e s'')
  then show ?case using newest_step [OF more_run.hyps(2)] by auto
qed simp

text \<open>
  Arming replaces the deadline. Once a deadline has been registered on a token that is not
  cancelled, no sleeper of an earlier deadline can cancel the token, however the sleepers are
  scheduled: without an explicit cancel and without another registration the token stays
  uncancelled until the whole new duration has passed. (The counter has 64 bits; the run so far
  is shorter than its range.)
\<close>

theorem rearm_extends_deadline:
  assumes "cancel_run (run_cancel_new t) before s" and "length before + 1 < 2 ^ 64"
    and "cancel_step s (Registers d) s1" and "\<not> token s"
    and "cancel_run s1 after s2" and "Cancels \<notin> set after" and "\<forall>d. Registers d \<notin> set after"
    and "token s2"
  shows "d \<le> elapsed after"
proof -
  have short: "registered before \<le> length before"
    by (induction "before" rule: registered.induct) auto
  have n: "numbered (registered before) s"
    using numbered_run [OF assms(1) refl] .
  have s1: "s1 = arm_register d s" using assms(3) by (auto elim: cancel_stepE)
  have "newest (generation s + 1) (clock s + d) s1"
    unfolding s1 using fresh_generation [OF n] short assms(2,4) by (auto simp: newest_def cancel_ops)
  then have "newest (generation s + 1) (clock s + d) s2"
    by (rule newest_run [OF assms(5) _ assms(6,7)])
  then have "clock s + d \<le> clock s2"
    using assms(8) by (simp add: newest_def)
  then show ?thesis
    using cancel_run_clock [OF assms(5)] by (simp add: s1 cancel_ops)
qed

section \<open>The deadline fires\<close>

text \<open>Until the token is cancelled the sleeper of the newest deadline is there.\<close>

definition guarded_run :: "run_cancel \<Rightarrow> bool" where
  "guarded_run s \<longleftrightarrow> token s \<or> generation s = 0 \<or> (\<exists>l\<in>set (sleepers s). sl_generation l = generation s)"

lemma guarded_step: "cancel_step s e s' \<Longrightarrow> guarded_run s \<Longrightarrow> guarded_run s'"
  by (auto simp: guarded_run_def cancel_ops elim!: cancel_stepE) (metis in_set_remove1)

lemma guarded_reachable: "cancel_run s0 es s \<Longrightarrow> s0 = run_cancel_new t \<Longrightarrow> guarded_run s"
proof (induction rule: cancel_run.induct)
  case (more_run s es s' e s'')
  then show ?case using guarded_step [OF more_run.hyps(2)] by simp
qed (simp add: guarded_run_def run_cancel_new_def)

text \<open>
  C37: an armed deadline is never lost: in every state that arming, waking, cancelling and the
  passing of time can lead to, if a deadline has been registered and the token is not cancelled,
  the newest sleeper is waiting, and after its remaining time has passed its wake-up cancels the
  token.
\<close>

theorem armed_deadline_fires:
  assumes "cancel_run (run_cancel_new t) es s" and "generation s \<noteq> 0" and "\<not> token s"
  shows "\<exists>l s' s''. l \<in> set (sleepers s) \<and> sl_generation l = generation s
    \<and> cancel_step s (Passes (sl_wakes_at l - clock s)) s' \<and> cancel_step s' (Wakes l) s'' \<and> token s''"
proof -
  obtain l where l: "l \<in> set (sleepers s)" "sl_generation l = generation s"
    using guarded_reachable [OF assms(1) refl] assms(2,3) by (auto simp: guarded_run_def)
  let ?n = "sl_wakes_at l - clock s"
  let ?s = "s\<lparr>clock := clock s + ?n\<rparr>"
  have "cancel_step s (Passes ?n) ?s" by (rule cancel_step.passes)
  moreover have "cancel_step ?s (Wakes l) (sleeper_wakes l ?s)"
    using l by (intro cancel_step.wakes) auto
  moreover have "token (sleeper_wakes l ?s)"
    using l by (simp add: sleeper_wakes_def)
  ultimately have "\<exists>s' s''. cancel_step s (Passes ?n) s' \<and> cancel_step s' (Wakes l) s'' \<and> token s''"
    by blast
  then show ?thesis
    using l by blast
qed

section \<open>Concrete runs\<close>

text \<open>A deadline of five is replaced by one of nine after two time units; the first sleeper
  wakes at five and changes nothing.\<close>

definition sample_armed :: run_cancel where
  "sample_armed = arm_register 5 (arm_store 5 (run_cancel_new 0))"

definition sample_rearmed :: run_cancel where
  "sample_rearmed = arm_register 9 (arm_store 9 (sample_armed\<lparr>clock := 2\<rparr>))"

lemma sample_armed_run: "cancel_run (run_cancel_new 0) [Stores 5, Registers 5] sample_armed"
proof -
  have a: "cancel_run (run_cancel_new 0) ([] @ [Stores 5]) (arm_store 5 (run_cancel_new 0))"
    by (rule cancel_run.more_run [OF cancel_run.done_run cancel_step.stores])
  have "cancel_step (arm_store 5 (run_cancel_new 0)) (Registers 5) sample_armed"
    unfolding sample_armed_def by (rule cancel_step.registers) (simp add: arm_store_def)
  from cancel_run.more_run [OF a this] show ?thesis by simp
qed

theorem armed_deadline_fires_witness:
  "\<exists>l s' s''. cancel_step sample_armed (Passes (sl_wakes_at l - clock sample_armed)) s'
     \<and> cancel_step s' (Wakes l) s'' \<and> token s''"
proof -
  have "generation sample_armed \<noteq> 0" and "\<not> token sample_armed"
    by (simp_all add: sample_armed_def cancel_ops run_cancel_new_def)
  from armed_deadline_fires [OF sample_armed_run this] show ?thesis by blast
qed

theorem rearm_extends_deadline_witness:
  "\<exists>s2. cancel_run sample_rearmed [Passes 9, Wakes \<lparr>sl_generation = 2, sl_wakes_at = 11\<rparr>] s2 \<and> token s2
     \<and> 9 \<le> elapsed [Passes 9, Wakes \<lparr>sl_generation = 2, sl_wakes_at = 11\<rparr>]"
proof -
  let ?l = "\<lparr>sl_generation = 2, sl_wakes_at = 11\<rparr>"
  let ?m = "arm_store 9 (sample_armed\<lparr>clock := 2\<rparr>)"
  have p: "cancel_step sample_armed (Passes 2) (sample_armed\<lparr>clock := 2\<rparr>)"
    using cancel_step.passes [of sample_armed 2] by (simp add: sample_armed_def cancel_ops run_cancel_new_def numeral_2_eq_2)
  have before: "cancel_run (run_cancel_new 0) ((([Stores 5, Registers 5]) @ [Passes 2]) @ [Stores 9]) ?m"
    by (rule cancel_run.more_run [OF cancel_run.more_run [OF sample_armed_run p] cancel_step.stores])
  have reg: "cancel_step ?m (Registers 9) sample_rearmed"
    unfolding sample_rearmed_def by (rule cancel_step.registers) (simp add: arm_store_def)
  have q: "cancel_run sample_rearmed ([] @ [Passes 9]) (sample_rearmed\<lparr>clock := 11\<rparr>)"
    using cancel_run.more_run [OF cancel_run.done_run cancel_step.passes, of sample_rearmed 9]
    by (simp add: sample_rearmed_def sample_armed_def cancel_ops run_cancel_new_def)
  have "cancel_step (sample_rearmed\<lparr>clock := 11\<rparr>) (Wakes ?l) (sleeper_wakes ?l (sample_rearmed\<lparr>clock := 11\<rparr>))"
    by (rule cancel_step.wakes) (simp_all add: sample_rearmed_def sample_armed_def cancel_ops run_cancel_new_def)
  from cancel_run.more_run [OF q this]
  have after: "cancel_run sample_rearmed [Passes 9, Wakes ?l] (sleeper_wakes ?l (sample_rearmed\<lparr>clock := 11\<rparr>))"
    by simp
  have tok: "token (sleeper_wakes ?l (sample_rearmed\<lparr>clock := 11\<rparr>))" and off: "\<not> token ?m"
    by (simp_all add: sample_rearmed_def sample_armed_def cancel_ops run_cancel_new_def)
  have "9 \<le> elapsed [Passes 9, Wakes ?l]"
    by (rule rearm_extends_deadline [OF before _ reg off after _ _ tok]) simp_all
  then show ?thesis using after tok by blast
qed

end
