(* ===== verification/Skills_Dsl.thy ===== *)
theory Skills_Dsl
  imports Access
begin

text \<open>
  The skills file (\<open>src/skills/dsl.rs\<close>): blocks that name a skill, its policy text and the
  qualified tools it allows. The four regular expressions of the code are written out as
  scanners; none of them needs backtracking, because the character behind every repetition
  ends it.
\<close>

section \<open>The patterns\<close>

abbreviation DQ :: char where "DQ \<equiv> CHR 0x22"

text \<open>A match at the head of the text: what was captured, and the text behind the match.\<close>

type_synonym 'a matcher = "string \<Rightarrow> ('a \<times> string) option"

text \<open>\<open>\s+"([^"]+)"\<close> and friends: a quoted text that is not empty.\<close>

definition quoted_text :: "string matcher" where
  "quoted_text s = Option.bind (strip_prefix [DQ] s) (\<lambda>r. case split_once DQ r of
     Some (inner, rest) \<Rightarrow> (if inner = [] then None else Some (inner, rest)) | None \<Rightarrow> None)"

definition match_block :: "(string \<times> string) matcher" where
  "match_block s = Option.bind (strip_prefix ''skill'' s) (\<lambda>r.
     if ws_head r = None then None
     else Option.bind (quoted_text (trim_start r)) (\<lambda>(name, r).
       Option.bind (strip_prefix ''{'' (trim_start r)) (\<lambda>r.
         map_option (\<lambda>(body, rest). ((name, body), rest)) (split_once (CHR ''}'') r))))"

definition match_policy :: "string matcher" where
  "match_policy s = Option.bind (strip_prefix ''policy'' s) (\<lambda>r.
     Option.bind (strip_prefix '':'' (trim_start r)) (\<lambda>r. quoted_text (trim_start r)))"

definition match_tools :: "string matcher" where
  "match_tools s = Option.bind (strip_prefix ''allowed_tools'' s) (\<lambda>r.
     Option.bind (strip_prefix '':'' (trim_start r)) (\<lambda>r.
       Option.bind (strip_prefix ''['' (trim_start r)) (split_once (CHR '']''))))"

text \<open>The leftmost match, and all matches from left to right (\<open>captures\<close>, \<open>captures_iter\<close>).\<close>

fun find_match :: "'a matcher \<Rightarrow> 'a matcher" where
  "find_match m [] = m []"
| "find_match m (c # s) = (case m (c # s) of Some r \<Rightarrow> Some r | None \<Rightarrow> find_match m s)"

function all_matches :: "'a matcher \<Rightarrow> string \<Rightarrow> 'a list" where
  "all_matches m s = (case find_match m s of
     Some (x, rest) \<Rightarrow> (if length rest < length s then x # all_matches m rest else [x])
   | None \<Rightarrow> [])"
  by pat_completeness auto
termination
  by (relation "measure (\<lambda>(m, s). length s)") auto

declare all_matches.simps [simp del]

section \<open>Catalogs\<close>

record skill_definition =
  sk_name :: string
  sk_policy :: string
  sk_tools :: "string list"

datatype skills_error = SkillsParse string | UndeclaredPackage string

definition missing_policy :: "string \<Rightarrow> skills_error" where
  "missing_policy name = SkillsParse (''skill `'' @ name @ ''` missing policy'')"

definition parse_tool_entry :: "string \<Rightarrow> string \<Rightarrow> skills_error + string" where
  "parse_tool_entry name raw = map_sum (\<lambda>reason. SkillsParse (''skill `'' @ name @ ''` allowed_tools: '' @ reason))
     qualified_name (qualified_parse raw)"

definition parse_skill :: "string \<times> string \<Rightarrow> skills_error + skill_definition" where
  "parse_skill captures = (let (raw_name, body) = captures; name = trim raw_name in
     case find_match match_policy body of
       None \<Rightarrow> Inl (missing_policy name)
     | Some (policy, _) \<Rightarrow> (case find_match match_tools body of
         None \<Rightarrow> Inl (SkillsParse (''skill `'' @ name @ ''` missing allowed_tools''))
       | Some (tools_block, _) \<Rightarrow>
           rbind (try_map (parse_tool_entry name) (all_matches quoted_text tools_block)) (\<lambda>tools.
           if tools = [] then Inl (SkillsParse (''skill `'' @ name @ ''` has empty allowed_tools''))
           else Inr \<lparr>sk_name = name, sk_policy = trim policy, sk_tools = tools\<rparr>)))"

definition parse_skills :: "string \<Rightarrow> skills_error + skill_definition list" where
  "parse_skills source =
     rbind (try_map parse_skill (all_matches match_block source)) (\<lambda>skills.
     if skills = [] then Inl (SkillsParse ''no skill blocks were found'') else Inr skills)"

definition render_tools :: "string list \<Rightarrow> string" where
  "render_tools ts = join_with '', '' (map (\<lambda>t. DQ # t @ [DQ]) ts)"

definition render_skill :: "skill_definition \<Rightarrow> string" where
  "render_skill s = ''skill '' @ [DQ] @ sk_name s @ [DQ] @ '' {'' @ [LF] @ ''  policy: '' @ [DQ] @ sk_policy s @ [DQ, LF]
     @ ''  allowed_tools: ['' @ render_tools (sk_tools s) @ '']'' @ [LF] @ ''}''"

definition render_skills :: "skill_definition list \<Rightarrow> string" where
  "render_skills skills = join_with [LF, LF] (map render_skill skills)"

definition allowed_qualified_tools :: "skill_definition list \<Rightarrow> qualified_tool set" where
  "allowed_qualified_tools skills =
     set (List.map_filter (\<lambda>t. case qualified_parse t of Inr q \<Rightarrow> Some q | Inl _ \<Rightarrow> None) (concat (map sk_tools skills)))"

definition allowed_tool_set :: "skill_definition list \<Rightarrow> string set" where
  "allowed_tool_set skills = set (concat (map sk_tools skills))"

definition catalog_line :: "(string \<Rightarrow> nat option) \<Rightarrow> skill_definition \<Rightarrow> string" where
  "catalog_line file_counts s =
     (let files = (case file_counts (sk_name s) of Some n \<Rightarrow> n | None \<Rightarrow> 0);
          instructions = (if 0 < files then ''stored'' else ''none'') in
      ''- skill `'' @ sk_name s @ ''` policy=`'' @ sk_policy s @ ''` instructions='' @ instructions
      @ '' files='' @ show_nat files @ '' allowed_tools='' @ join_with '','' (sk_tools s))"

definition STORED_HINT :: string where
  \<open>STORED_HINT = ''When a skill has instructions=stored, call profile.read_skill {"name":"<skill>"} to read skill.md, then profile.list_skill {"name":"<skill>"} and profile.read_skill {"name":"<skill>","path":"<relative>"} for companion files. The policy line is only a summary. Do not run scripts from the skill folder. Copy a script into the home directory with home.write and run it with home.run only when that tool is allowed.''\<close>

definition build_prompt_fragment :: "(string \<Rightarrow> nat option) \<Rightarrow> skill_definition list \<Rightarrow> string" where
  "build_prompt_fragment file_counts skills =
     (let head = [''Skills available to the agent:'',
                  ''Follow skill policies strictly when deciding tool usage.'',
                  ''Hard tool enforcement uses qualified names only; both built-in and MCP tools must be listed in a skill allowed_tools block.''];
          any_stored = list_ex (\<lambda>s. 0 < (case file_counts (sk_name s) of Some n \<Rightarrow> n | None \<Rightarrow> 0)) skills in
      join_with [LF] (head @ (if any_stored then [STORED_HINT] else []) @ map (catalog_line file_counts) skills))"

section \<open>Scanning for a keyword\<close>

lemma find_match_at: "m s = Some r \<Longrightarrow> find_match m s = Some r"
  by (cases s) auto

lemma prefix_append_sep: "d \<notin> set kw \<Longrightarrow> prefix kw (a @ d # b) \<longleftrightarrow> prefix kw a"
  by (auto simp: prefix_append prefix_Cons)

text \<open>A pattern that starts with a keyword is not found in text without the keyword.\<close>

lemma find_match_behind:
  assumes "\<And>t r. m t = Some r \<Longrightarrow> prefix kw t" and "d \<notin> set kw" and "kw \<noteq> []" and "find_sub kw a = None"
  shows "find_match m (a @ d # b) = find_match m b"
  using assms(4)
proof (induction a)
  case Nil
  have "\<not> prefix kw (d # b)" using assms(2,3) prefix_append_sep [of d kw "[]" b] by simp
  then have "m (d # b) = None" by (cases "m (d # b)") (auto dest: assms(1))
  then show ?case by simp
next
  case (Cons c a)
  then have "\<not> prefix kw (c # a)" and ih: "find_sub kw a = None"
    using find_sub.simps [of kw "c # a"] by (auto split: if_splits)
  then have "\<not> prefix kw (c # a @ d # b)"
    using prefix_append_sep [OF assms(2), of "c # a" b] by simp
  then have "m (c # a @ d # b) = None" by (cases "m (c # a @ d # b)") (auto dest: assms(1))
  then show ?case using Cons.IH [OF ih] by simp
qed

section \<open>Printing and parsing\<close>

text \<open>What a skill must satisfy to be printed faithfully: no character that ends a field early.\<close>

definition printable_tool :: "string \<Rightarrow> bool" where
  "printable_tool t \<longleftrightarrow> DQ \<notin> set t \<and> CHR '']'' \<notin> set t \<and> CHR ''}'' \<notin> set t
     \<and> (\<exists>q. qualified_parse t = Inr q \<and> qualified_name q = t)"

definition printable_skill :: "skill_definition \<Rightarrow> bool" where
  "printable_skill s \<longleftrightarrow> sk_name s \<noteq> [] \<and> trim (sk_name s) = sk_name s \<and> DQ \<notin> set (sk_name s)
     \<and> sk_policy s \<noteq> [] \<and> trim (sk_policy s) = sk_policy s \<and> DQ \<notin> set (sk_policy s)
     \<and> CHR ''}'' \<notin> set (sk_policy s) \<and> find_sub ''allowed_tools'' (sk_policy s) = None
     \<and> sk_tools s \<noteq> [] \<and> list_all printable_tool (sk_tools s)"

lemma quoted_text_quote: "DQ \<notin> set t \<Longrightarrow> t \<noteq> [] \<Longrightarrow> quoted_text (DQ # t @ DQ # r) = Some (t, r)"
proof -
  assume t: "DQ \<notin> set t" "t \<noteq> []"
  have "split_once DQ (t @ DQ # r) = Some (t, r)" using t(1) by (simp add: split_once_Some)
  then show ?thesis using t(2) by (simp add: quoted_text_def strip_prefix_def)
qed

lemma quoted_text_other: "c \<noteq> DQ \<Longrightarrow> quoted_text (c # s) = None"
  by (auto simp: quoted_text_def strip_prefix_def)

lemma qualified_name_nonempty [simp]: "qualified_name q \<noteq> []"
  by (simp add: qualified_name_def)

lemma printable_tool_nonempty: "printable_tool t \<Longrightarrow> t \<noteq> []"
  unfolding printable_tool_def by (metis qualified_name_nonempty)

lemma quoted_text_shorter: "quoted_text s = Some (x, rest) \<Longrightarrow> length rest < length s"
  by (auto simp: quoted_text_def strip_prefix_Some split_once_Some split: bind_splits option.splits if_splits)

lemma find_match_shorter:
  assumes "\<And>t x r. m t = Some (x, r) \<Longrightarrow> length r < length t" and "find_match m s = Some (x, r)"
  shows "length r < length s"
  using assms(2)
proof (induction s)
  case Nil
  then show ?case using assms(1) [of "[]"] by simp
next
  case (Cons c s)
  then show ?case using assms(1) [of "c # s"] by (cases "m (c # s)") force+
qed

lemma all_matches_step:
  assumes "find_match m s = find_match m t" and "length t \<le> length s"
    and "\<And>t x r. m t = Some (x, r) \<Longrightarrow> length r < length t"
  shows "all_matches m s = all_matches m t"
proof -
  have "length r < length t" if "find_match m t = Some (x, r)" for x r
    by (rule find_match_shorter [of m t x r]) (fact assms(3), fact that)
  then show ?thesis
    using assms(1,2) all_matches.simps [of m s] all_matches.simps [of m t]
    by (cases "find_match m t") (auto split: option.splits)
qed

lemma all_matches_tools: "list_all printable_tool ts \<Longrightarrow> all_matches quoted_text (render_tools ts) = ts"
proof (induction ts rule: induct_list012)
  case 1
  then show ?case by (simp add: render_tools_def all_matches.simps quoted_text_def strip_prefix_def)
next
  case (2 t)
  have m: "find_match quoted_text (DQ # t @ [DQ]) = Some (t, [])"
    using 2 by (intro find_match_at quoted_text_quote) (auto simp: printable_tool_def dest: printable_tool_nonempty)
  have e: "all_matches quoted_text [] = []"
    by (simp add: all_matches.simps quoted_text_def strip_prefix_def)
  show ?case
    using m by (simp add: render_tools_def all_matches.simps [of _ "DQ # t @ [DQ]"] e)
next
  case (3 t u us)
  let ?rest = "render_tools (u # us)"
  have shape: "render_tools (t # u # us) = DQ # t @ DQ # '', '' @ ?rest"
    by (simp add: render_tools_def)
  have m: "find_match quoted_text (DQ # t @ DQ # '', '' @ ?rest) = Some (t, '', '' @ ?rest)"
    using 3(3) by (intro find_match_at quoted_text_quote) (auto simp: printable_tool_def dest: printable_tool_nonempty)
  have "all_matches quoted_text ('', '' @ ?rest) = all_matches quoted_text ?rest"
    by (rule all_matches_step) (auto simp: quoted_text_other dest: quoted_text_shorter)
  then show ?case
    using 3 m shape by (simp add: all_matches.simps [of _ "DQ # t @ DQ # _"])
qed

lemma trim_start_length: "length (trim_start s) \<le> length s"
  by (rule suffix_length_le [OF trim_start_suffix])

lemma match_block_shorter:
  assumes "match_block s = Some (x, rest)"
  shows "length rest < length s"
proof -
  obtain r name r' r'' body where m: "s = ''skill'' @ r" "quoted_text (trim_start r) = Some (name, r')"
      "trim_start r' = ''{'' @ r''" "split_once (CHR ''}'') r'' = Some (body, rest)"
    using assms by (auto simp: match_block_def strip_prefix_Some split: bind_splits if_splits)
  have "length r' < length r" using quoted_text_shorter [OF m(2)] trim_start_length [of r] by simp
  moreover have "length r'' < length r'" using m(3) trim_start_length [of r'] by simp
  moreover have "length rest < length r''" using m(4) by (auto simp: split_once_Some)
  ultimately show ?thesis using m(1) by simp
qed

lemma trim_start_space: "visible c \<Longrightarrow> trim_start (CHR '' '' # c # s) = c # s"
  by (subst trim_start.simps) (simp add: ws_head_def ws_chars_def trim_start_visible)

lemma render_tools_clean: "list_all printable_tool ts \<Longrightarrow> CHR '']'' \<notin> set (render_tools ts) \<and> CHR ''}'' \<notin> set (render_tools ts)"
  by (induction ts rule: induct_list012) (auto simp: render_tools_def printable_tool_def)

definition skill_body :: "skill_definition \<Rightarrow> string" where
  "skill_body s = [LF] @ ''  policy: '' @ DQ # sk_policy s @ DQ # [LF] @ ''  allowed_tools: ['' @ render_tools (sk_tools s) @ CHR '']'' # [LF]"

lemma match_rendered:
  assumes "printable_skill s"
  shows "match_block (render_skill s @ rest) = Some ((sk_name s, skill_body s), rest)"
proof -
  have b: "CHR ''}'' \<notin> set (skill_body s)"
    using assms render_tools_clean [of "sk_tools s"] by (auto simp: printable_skill_def skill_body_def)
  have "render_skill s @ rest = ''skill '' @ DQ # sk_name s @ DQ # '' {'' @ skill_body s @ CHR ''}'' # rest"
    by (simp add: render_skill_def skill_body_def)
  moreover have "quoted_text (DQ # sk_name s @ DQ # r) = Some (sk_name s, r)" for r
    using assms by (intro quoted_text_quote) (auto simp: printable_skill_def)
  moreover have "split_once (CHR ''}'') (skill_body s @ CHR ''}'' # rest) = Some (skill_body s, rest)"
    using b by (simp add: split_once_Some)
  moreover have "ws_head (CHR '' '' # r) \<noteq> None" for r
    by (simp add: ws_head_def ws_chars_def)
  moreover have "visible DQ" "visible (CHR ''{'')" by (simp_all add: visible_def)
  ultimately show ?thesis
    by (simp add: match_block_def strip_prefix_def trim_start_space)
qed

lemma find_policy:
  assumes "printable_skill s"
  shows "\<exists>r. find_match match_policy (skill_body s) = Some (sk_policy s, r)"
proof -
  have "quoted_text (DQ # sk_policy s @ DQ # r) = Some (sk_policy s, r)" for r
    using assms by (intro quoted_text_quote) (auto simp: printable_skill_def)
  moreover have "visible DQ" "visible (CHR '':'')" by (simp_all add: visible_def)
  ultimately show ?thesis
    by (simp add: skill_body_def match_policy_def strip_prefix_def trim_start_space trim_start_visible)
qed

lemma find_tools:
  assumes "printable_skill s"
  shows "\<exists>r. find_match match_tools (skill_body s) = Some (render_tools (sk_tools s), r)"
proof -
  let ?tail = "LF # ''  allowed_tools: ['' @ render_tools (sk_tools s) @ CHR '']'' # [LF]"
  have kw: "prefix ''allowed_tools'' t" if "match_tools t = Some r" for t r
    using that by (auto simp: match_tools_def strip_prefix_Some split: bind_splits)
  have "find_match match_tools (skill_body s) = find_match match_tools (sk_policy s @ DQ # ?tail)"
    using find_match_behind [of match_tools "''allowed_tools''" DQ "LF # ''  policy: ''" "sk_policy s @ DQ # ?tail"] kw
    by (simp add: skill_body_def find_sub.simps)
  also have "\<dots> = find_match match_tools ?tail"
    using assms by (intro find_match_behind [of match_tools "''allowed_tools''"]) (auto simp: printable_skill_def intro: kw)
  finally have skip: "find_match match_tools (skill_body s) = find_match match_tools ?tail" .
  have "split_once (CHR '']'') (render_tools (sk_tools s) @ [CHR '']'', LF]) = Some (render_tools (sk_tools s), [LF])"
    using assms render_tools_clean by (auto simp: split_once_Some printable_skill_def)
  moreover have "visible (CHR ''['')" "visible (CHR '':'')" by (simp_all add: visible_def)
  ultimately show ?thesis
    unfolding skip by (simp add: match_tools_def strip_prefix_def trim_start_space trim_start_visible)
qed

lemma parse_rendered:
  assumes "printable_skill s"
  shows "parse_skill (sk_name s, skill_body s) = Inr s"
proof -
  have "try_map (parse_tool_entry n) ts = Inr ts" if "list_all printable_tool ts" for n ts
    using that by (induction ts) (auto simp: printable_tool_def parse_tool_entry_def)
  then show ?thesis
    using find_policy [OF assms] find_tools [OF assms] assms
    by (auto simp: parse_skill_def printable_skill_def all_matches_tools)
qed

lemma all_matches_rendered:
  "list_all printable_skill ss \<Longrightarrow> all_matches match_block (render_skills ss) = map (\<lambda>s. (sk_name s, skill_body s)) ss"
proof (induction ss rule: induct_list012)
  case 1
  then show ?case by (simp add: render_skills_def all_matches.simps match_block_def strip_prefix_def)
next
  case (2 s)
  have "all_matches match_block [] = []" by (simp add: all_matches.simps match_block_def strip_prefix_def)
  then show ?case
    using 2 match_rendered [of s "[]"] match_block_shorter [OF match_rendered, of s "[]"]
    by (simp add: render_skills_def all_matches.simps [of _ "render_skill s"] find_match_at)
next
  case (3 s t ts)
  let ?rest = "render_skills (t # ts)"
  have shape: "render_skills (s # t # ts) = render_skill s @ LF # LF # ?rest"
    by (simp add: render_skills_def)
  have m: "match_block (render_skill s @ LF # LF # ?rest) = Some ((sk_name s, skill_body s), LF # LF # ?rest)"
    using 3(3) match_rendered by simp
  have "all_matches match_block (LF # LF # ?rest) = all_matches match_block ?rest"
    by (rule all_matches_step) (auto simp: match_block_def [of "LF # _"] strip_prefix_def dest: match_block_shorter)
  then show ?case
    using 3 shape find_match_at [of match_block, OF m] match_block_shorter [OF m]
    by (simp add: all_matches.simps [of _ "render_skill s @ _"])
qed

text \<open>
  A skills catalog that is printed and parsed again is the same catalog, whenever it has a
  skill, names and policies are trimmed and free of quotes, no policy holds the closing brace or
  the keyword of the tool list, and every tool is a qualified name without a bracket.
\<close>

theorem skills_render_parse_roundtrip:
  assumes "skills \<noteq> []" and "list_all printable_skill skills"
  shows "parse_skills (render_skills skills) = Inr skills"
proof -
  have "try_map parse_skill (map (\<lambda>s. (sk_name s, skill_body s)) ss) = Inr ss" if "list_all printable_skill ss" for ss
    using that by (induction ss) (simp_all add: parse_rendered)
  then show ?thesis
    using assms by (simp add: parse_skills_def all_matches_rendered)
qed

definition sample_skill :: skill_definition where
  "sample_skill = \<lparr>sk_name = ''edit'', sk_policy = ''small diffs'', sk_tools = [''home.read'', ''home.write'']\<rparr>"

lemma printable_tool_name: "qualified_parse t = Inr q \<Longrightarrow> qualified_name q = t \<Longrightarrow> DQ \<notin> set t \<Longrightarrow>
    CHR '']'' \<notin> set t \<Longrightarrow> CHR ''}'' \<notin> set t \<Longrightarrow> printable_tool t"
  by (auto simp: printable_tool_def)

lemma printable_sample: "printable_skill sample_skill"
proof -
  have "printable_tool ''home.read''"
    by (rule printable_tool_name [of _ "QualifiedTool ''home'' ''read''"]) code_simp+
  moreover have "printable_tool ''home.write''"
    by (rule printable_tool_name [of _ "QualifiedTool ''home'' ''write''"]) code_simp+
  moreover have "trim ''edit'' = ''edit''" "trim ''small diffs'' = ''small diffs''"
      "find_sub ''allowed_tools'' ''small diffs'' = None"
    by code_simp+
  ultimately show ?thesis by (simp add: printable_skill_def sample_skill_def)
qed

theorem skills_render_parse_roundtrip_witness:
  "parse_skills (render_skills [sample_skill, sample_skill]) = Inr [sample_skill, sample_skill]"
  by (rule skills_render_parse_roundtrip) (simp_all add: printable_sample)

text \<open>Every tool of a parsed catalog is a qualified name; the compiled allowlist is read off it.\<close>

lemma try_map_source:
  assumes "try_map f xs = Inr ys" and "y \<in> set ys"
  shows "\<exists>x\<in>set xs. f x = Inr y"
proof -
  have "list_all2 (\<lambda>x y. f x = Inr y) xs ys" using assms(1) by (simp only: try_map_ok)
  then show ?thesis using assms(2) by (induction rule: list_all2_induct) auto
qed

lemma parse_skills_blocks:
  "parse_skills src = Inr skills \<Longrightarrow> try_map parse_skill (all_matches match_block src) = Inr skills"
  by (cases "try_map parse_skill (all_matches match_block src)") (simp_all add: parse_skills_def split: if_split_asm)

lemma parse_skill_tools:
  "parse_skill c = Inr s \<Longrightarrow> \<exists>n raws. try_map (parse_tool_entry n) raws = Inr (sk_tools s)"
proof (cases c)
  case (Pair n body)
  assume p: "parse_skill c = Inr s"
  then obtain pol r tools r' where m: "find_match match_policy body = Some (pol, r)" "find_match match_tools body = Some (tools, r')"
    using Pair by (cases "find_match match_policy body"; cases "find_match match_tools body") (auto simp: parse_skill_def Let_def)
  then show ?thesis
    using p Pair by (cases "try_map (parse_tool_entry (trim n)) (all_matches quoted_text tools)")
      (auto simp: parse_skill_def Let_def m intro!: exI split: if_split_asm)
qed

lemma parsed_tools_qualified:
  assumes "parse_skills src = Inr skills" and "s \<in> set skills" and "t \<in> set (sk_tools s)"
  shows "\<exists>q. qualified_name q = t"
proof -
  obtain c where "parse_skill c = Inr s"
    using try_map_source [OF parse_skills_blocks [OF assms(1)] assms(2)] by blast
  from parse_skill_tools [OF this] obtain n raws where "try_map (parse_tool_entry n) raws = Inr (sk_tools s)"
    by blast
  from try_map_source [OF this assms(3)] obtain raw where "parse_tool_entry n raw = Inr t" by blast
  then show ?thesis
    by (cases "qualified_parse raw") (auto simp: parse_tool_entry_def)
qed

end
