(* ===== verification/Std_Files.thy ===== *)
theory Std_Files
  imports Utf8
begin

text \<open>
  What the components use of \<open>std::path\<close> and \<open>std::fs\<close>: parents, names and extensions of Unix
  paths, the lines of a text, and a store of files in which every operation may fail.
\<close>

section \<open>Parts of a path\<close>

text \<open>
  \<open>Path::parent\<close> cuts the text behind the last component that stays: it is the shortest prefix
  with the remaining components.
\<close>

definition path_parent :: "path \<Rightarrow> path option" where
  "path_parent p = (let cs = components p in
     if cs = [] \<or> last cs = RootDir then None
     else find (\<lambda>q. components q = butlast cs) (prefixes p))"

definition path_file_name :: "path \<Rightarrow> string option" where
  "path_file_name p = (case rev (components p) of Normal s # _ \<Rightarrow> Some s | _ \<Rightarrow> None)"

text \<open>\<open>Path::strip_prefix\<close> of a canonical path: its components behind the root.\<close>

definition path_strip_prefix :: "path \<Rightarrow> path \<Rightarrow> path option" where
  "path_strip_prefix p root = (if path_starts_with p root
     then Some (join_with ''/'' (map component_str (drop (length (components root)) (components p)))) else None)"

text \<open>\<open>Option::unwrap_or\<close>.\<close>

definition option_or :: "'a option \<Rightarrow> 'a \<Rightarrow> 'a" where
  "option_or x d = (case x of Some y \<Rightarrow> y | None \<Rightarrow> d)"

text \<open>\<open>rsplitn(2, '.')\<close> of the file name; a name that starts with its only dot has no extension.\<close>

definition name_extension :: "string \<Rightarrow> string option" where
  "name_extension name = (case split_once (CHR ''.'') (rev name) of
     Some (after, before) \<Rightarrow> (if before = [] then None else Some (rev after)) | None \<Rightarrow> None)"

definition path_extension :: "path \<Rightarrow> string option" where
  "path_extension p = Option.bind (path_file_name p) name_extension"

text \<open>\<open>str::lines\<close>: a carriage return goes with the line feed behind it, not without one.\<close>

definition str_lines :: "string \<Rightarrow> string list" where
  "str_lines s = (let parts = split_on LF s in
     map (\<lambda>l. case strip_suffix [CR] l of Some t \<Rightarrow> t | None \<Rightarrow> l) (butlast parts)
     @ (if last parts = [] then [] else [last parts]))"

lemma path_parent_prefix: "path_parent p = Some q \<Longrightarrow> prefix q p \<and> components q = butlast (components p)"
  by (auto simp: path_parent_def Let_def find_Some_iff simp flip: in_set_prefixes split: if_splits)

lemma str_lines_unlines:
  assumes "\<And>l. l \<in> set ls \<Longrightarrow> LF \<notin> set l \<and> \<not> suffix [CR] l"
  shows "str_lines (concat (map (\<lambda>l. l @ [LF]) ls)) = ls"
proof -
  have "split_on LF (concat (map (\<lambda>l. l @ [LF]) ls)) = ls @ [[]]"
    using assms by (induction ls) (auto simp: split_on_append)
  moreover have "map (\<lambda>l. case strip_suffix [CR] l of Some t \<Rightarrow> t | None \<Rightarrow> l) ls = ls"
    using assms by (intro map_idI) (auto simp: strip_suffix_Some suffix_def split: option.splits)
  ultimately show ?thesis by (simp add: str_lines_def)
qed

lemma str_lines_no_LF: "l \<in> set (str_lines s) \<Longrightarrow> LF \<notin> set l"
proof -
  assume l: "l \<in> set (str_lines s)"
  have "\<exists>p\<in>set (split_on LF s). set l \<subseteq> set p"
  proof (cases "l \<in> set (split_on LF s)")
    case False
    then have "l \<in> (\<lambda>l. case strip_suffix [CR] l of Some t \<Rightarrow> t | None \<Rightarrow> l) ` set (butlast (split_on LF s))"
      using l by (auto simp: str_lines_def Let_def split: if_splits)
    then obtain p where p: "p \<in> set (split_on LF s)" "l = (case strip_suffix [CR] p of Some t \<Rightarrow> t | None \<Rightarrow> p)"
      using in_set_butlastD by fast
    then show ?thesis by (intro bexI [of _ p]) (auto simp: strip_suffix_Some split: option.splits)
  qed blast
  then show ?thesis using split_on_no_sep by blast
qed

section \<open>Effects\<close>

text \<open>The effects of a piece of code, one after the other, and the map of its error.\<close>

definition io_then :: "('w \<Rightarrow> ('e + 'a) \<times> 'w) \<Rightarrow> ('a \<Rightarrow> 'w \<Rightarrow> ('e + 'b) \<times> 'w) \<Rightarrow> 'w \<Rightarrow> ('e + 'b) \<times> 'w" where
  "io_then act k d = (case act d of (Inl e, d) \<Rightarrow> (Inl e, d) | (Inr x, d) \<Rightarrow> k x d)"

definition io_map_err :: "('e \<Rightarrow> 'f) \<Rightarrow> ('w \<Rightarrow> ('e + 'a) \<times> 'w) \<Rightarrow> 'w \<Rightarrow> ('f + 'a) \<times> 'w" where
  "io_map_err f act d = (let (r, d) = act d in (map_err f r, d))"

text \<open>\<open>let _ = act;\<close> and then the error.\<close>

definition io_cleanup :: "('w \<Rightarrow> ('e + 'a) \<times> 'w) \<Rightarrow> 'f \<Rightarrow> 'w \<Rightarrow> ('f + 'b) \<times> 'w" where
  "io_cleanup act e d = (Inl e, snd (act d))"

lemmas io_defs = io_then_def io_map_err_def io_cleanup_def

section \<open>A store of files\<close>

text \<open>
  A disk maps the paths the program names to files and directories. Its \<open>faults\<close> decide for the
  n-th operation whether it fails, with which error text (a fault is never \<open>NotFound\<close>), and what a
  failed write leaves in the file; \<open>performed\<close> counts the operations. Properties quantify over
  the faults.
\<close>

record io_error =
  not_found :: bool
  io_text :: string

datatype entry = FileEntry string | DirEntry

record disk =
  entries :: "path \<Rightarrow> entry option"
  faults :: "nat \<Rightarrow> (string \<times> string option) option"
  performed :: nat

definition NOT_FOUND :: io_error where
  "NOT_FOUND = \<lparr>not_found = True, io_text = ''No such file or directory (os error 2)''\<rparr>"

definition IS_DIR :: io_error where
  "IS_DIR = \<lparr>not_found = False, io_text = ''Is a directory (os error 21)''\<rparr>"

definition INVALID_DATA :: io_error where
  "INVALID_DATA = \<lparr>not_found = False, io_text = ''stream did not contain valid UTF-8''\<rparr>"

definition fs_operation :: "(string option \<Rightarrow> disk \<Rightarrow> disk) \<Rightarrow> (disk \<Rightarrow> (io_error + 'a) \<times> disk) \<Rightarrow> disk \<Rightarrow> (io_error + 'a) \<times> disk" where
  "fs_operation broken act d = (let d' = d\<lparr>performed := Suc (performed d)\<rparr> in
     case faults d (performed d) of Some (e, partial) \<Rightarrow> (Inl \<lparr>not_found = False, io_text = e\<rparr>, broken partial d') | None \<Rightarrow> act d')"

definition put_entry :: "path \<Rightarrow> entry option \<Rightarrow> disk \<Rightarrow> disk" where
  "put_entry p e d = d\<lparr>entries := (entries d)(p := e)\<rparr>"

definition fs_read_to_string :: "path \<Rightarrow> disk \<Rightarrow> (io_error + string) \<times> disk" where
  "fs_read_to_string p = fs_operation (\<lambda>_ d. d) (\<lambda>d. (case entries d p of
     None \<Rightarrow> Inl NOT_FOUND
   | Some DirEntry \<Rightarrow> Inl IS_DIR
   | Some (FileEntry s) \<Rightarrow> (if utf8_valid s then Inr s else Inl INVALID_DATA), d))"

definition fs_write :: "path \<Rightarrow> string \<Rightarrow> disk \<Rightarrow> (io_error + unit) \<times> disk" where
  "fs_write p s = fs_operation
     (\<lambda>partial d. case partial of Some t \<Rightarrow> if entries d p = Some DirEntry then d else put_entry p (Some (FileEntry t)) d | None \<Rightarrow> d)
     (\<lambda>d. if entries d p = Some DirEntry then (Inl IS_DIR, d) else (Inr (), put_entry p (Some (FileEntry s)) d))"

definition fs_remove_file :: "path \<Rightarrow> disk \<Rightarrow> (io_error + unit) \<times> disk" where
  "fs_remove_file p = fs_operation (\<lambda>_ d. d) (\<lambda>d. case entries d p of
     None \<Rightarrow> (Inl NOT_FOUND, d)
   | Some DirEntry \<Rightarrow> (Inl IS_DIR, d)
   | Some (FileEntry _) \<Rightarrow> (Inr (), put_entry p None d))"

text \<open>Renaming a file: it replaces a file, not a directory.\<close>

definition fs_rename :: "path \<Rightarrow> path \<Rightarrow> disk \<Rightarrow> (io_error + unit) \<times> disk" where
  "fs_rename from to = fs_operation (\<lambda>_ d. d) (\<lambda>d. case entries d from of
     None \<Rightarrow> (Inl NOT_FOUND, d)
   | Some e \<Rightarrow> (if entries d to = Some DirEntry then (Inl IS_DIR, d)
               else (Inr (), put_entry to (Some e) (put_entry from None d))))"

text \<open>The directories of the paths in use are not part of the store, so creating them only may fail.\<close>

definition fs_create_dir_all :: "path \<Rightarrow> disk \<Rightarrow> (io_error + unit) \<times> disk" where
  "fs_create_dir_all p = fs_operation (\<lambda>_ d. d) (\<lambda>d. (Inr (), d))"

definition path_exists :: "path \<Rightarrow> disk \<Rightarrow> bool" where
  "path_exists p d \<longleftrightarrow> entries d p \<noteq> None"

lemmas fs_ops = fs_operation_def fs_read_to_string_def fs_write_def fs_remove_file_def fs_rename_def
  fs_create_dir_all_def path_exists_def put_entry_def Let_def

text \<open>What each operation changes; the writers are proved over these facts.\<close>

lemma fs_write_Inr: "fs_write p s d = (Inr u, d') \<Longrightarrow> entries d' = (entries d)(p \<mapsto> FileEntry s)"
  by (auto simp: fs_ops split: option.splits if_splits)

lemma fs_write_Inl: "fs_write p s d = (Inl e, d') \<Longrightarrow> \<exists>x. entries d' = (entries d)(p := x)"
  by (rule exI [of _ "entries d' p"]) (auto simp: fs_ops split: option.splits if_splits)

lemma fs_remove_Inr: "fs_remove_file p d = (Inr u, d') \<Longrightarrow> entries d' = (entries d)(p := None)"
  by (auto simp: fs_ops split: option.splits entry.splits)

lemma fs_remove_Inl: "fs_remove_file p d = (Inl e, d') \<Longrightarrow> entries d' = entries d"
  by (auto simp: fs_ops split: option.splits entry.splits)

lemma fs_remove_other: "q \<noteq> p \<Longrightarrow> entries (snd (fs_remove_file p d)) q = entries d q"
  by (auto simp: fs_ops split: option.splits entry.splits)

lemma fs_rename_Inr:
  "fs_rename from to d = (Inr u, d') \<Longrightarrow> from \<noteq> to \<Longrightarrow> entries d' = (entries d)(from := None, to := entries d from)"
  by (auto simp: fs_ops fun_upd_twist split: option.splits if_splits)

lemma fs_rename_Inl: "fs_rename from to d = (Inl e, d') \<Longrightarrow> entries d' = entries d"
  by (auto simp: fs_ops split: option.splits if_splits)

lemma fs_create_dir_entries: "fs_create_dir_all p d = (r, d') \<Longrightarrow> entries d' = entries d"
  by (auto simp: fs_ops split: option.splits)

lemmas fs_facts = fs_write_Inr fs_write_Inl fs_remove_Inr fs_remove_Inl fs_rename_Inl fs_create_dir_entries

definition healthy :: "disk \<Rightarrow> bool" where
  "healthy d \<longleftrightarrow> (\<forall>n. faults d n = None)"

section \<open>Replacing a file\<close>

text \<open>What a replacement may do to the entries.\<close>

definition replaced :: "path \<Rightarrow> path \<Rightarrow> string \<Rightarrow> ('e + unit) \<times> disk \<Rightarrow> disk \<Rightarrow> bool" where
  "replaced p t c outcome d \<longleftrightarrow> (case fst outcome of
       Inr _ \<Rightarrow> entries (snd outcome) p = Some (FileEntry c)
     | Inl _ \<Rightarrow> entries (snd outcome) p = entries d p \<or> entries (snd outcome) p = None)
     \<and> (\<forall>q. q \<noteq> p \<longrightarrow> q \<noteq> t \<longrightarrow> entries (snd outcome) q = entries d q)"

text \<open>
  The contract of the program's file writers. On success the file has the new contents; after an
  error it is what it was or it is gone, but never a part of the new contents; nothing else
  changes but the writer's temporary file.
\<close>

locale file_replacer =
  fixes save :: "path \<Rightarrow> string \<Rightarrow> disk \<Rightarrow> ('e + unit) \<times> disk"
    and temp :: "path \<Rightarrow> path"
  assumes replaces: "temp p \<noteq> p \<Longrightarrow> replaced p (temp p) c (save p c d) d"
begin

lemma saved: "save p c d = (Inr u, d') \<Longrightarrow> temp p \<noteq> p \<Longrightarrow> entries d' p = Some (FileEntry c)"
  using replaces [of p c d] by (simp add: replaced_def)

lemma kept: "save p c d = (Inl e, d') \<Longrightarrow> temp p \<noteq> p \<Longrightarrow> entries d' p = entries d p \<or> entries d' p = None"
  using replaces [of p c d] by (simp add: replaced_def)

lemma others: "save p c d = (r, d') \<Longrightarrow> temp p \<noteq> p \<Longrightarrow> q \<noteq> p \<Longrightarrow> q \<noteq> temp p \<Longrightarrow> entries d' q = entries d q"
  using replaces [of p c d] by (simp add: replaced_def)

text \<open>Whoever reads the file after a save finds the new text or the old one, never a mixture.\<close>

lemma read_after_save:
  assumes "save p c d = (r, d')" and "temp p \<noteq> p" and "fs_read_to_string p d' = (Inr s, d'')"
  shows "s = c \<or> entries d p = Some (FileEntry s)"
proof -
  have "entries d' p = Some (FileEntry s)"
    using assms(3) by (auto simp: fs_ops split: option.splits entry.splits if_splits)
  then show ?thesis
    using assms(1,2) saved [of p c d] kept [of p c d] by (cases r) auto
qed

end

end
