(* ===== verification/Profile_Files.thy ===== *)
theory Profile_Files
  imports Std_Files Project_Paths
begin

text \<open>
  Writing the files of an agent profile: the settings (\<open>src/settings.rs\<close>), the skill packages'
  writer (\<open>src/skills/package.rs\<close>), the configuration's writer (\<open>src/config/mod.rs\<close>) and the
  \<open>.env\<close> file of the operator's secrets (\<open>src/commands/dotenv_file.rs\<close>).
\<close>

section \<open>Errors\<close>

datatype settings_error =
    SettingsRead path io_error
  | SettingsWrite path io_error
  | EmptyFile path
  | InvalidSkillPackage string

definition show_settings_error :: "settings_error \<Rightarrow> string" where
  "show_settings_error e = (case e of
     SettingsRead p s \<Rightarrow> ''failed to read settings file `'' @ p @ ''`: '' @ io_text s
   | SettingsWrite p s \<Rightarrow> ''failed to write settings file `'' @ p @ ''`: '' @ io_text s
   | EmptyFile p \<Rightarrow> ''settings file `'' @ p @ ''` must not be empty''
   | InvalidSkillPackage m \<Rightarrow> ''invalid skill package: '' @ m)"

section \<open>The writers\<close>

definition temp_path_for :: "path \<Rightarrow> path" where
  "temp_path_for p = p @ ''.tmp''"

definition settings_atomic_write :: "path \<Rightarrow> string \<Rightarrow> disk \<Rightarrow> (io_error + unit) \<times> disk" where
  "settings_atomic_write p content = (let temp_path = temp_path_for p in
     io_then (fs_write temp_path content) (\<lambda>_ d. case fs_rename temp_path p d of
       (Inr _, d) \<Rightarrow> (Inr (), d)
     | (Inl err, d) \<Rightarrow>
         if path_exists p d
         then io_then (fs_remove_file p) (\<lambda>_ d. case fs_rename temp_path p d of
                (Inr _, d) \<Rightarrow> (Inr (), d)
              | (Inl rename_err, d) \<Rightarrow> io_cleanup (fs_remove_file temp_path) rename_err d) d
         else io_cleanup (fs_remove_file temp_path) err d))"

definition package_atomic_write :: "path \<Rightarrow> string \<Rightarrow> disk \<Rightarrow> (settings_error + unit) \<times> disk" where
  "package_atomic_write p content = (let temp_path = temp_path_for p in
     io_then (io_map_err (SettingsWrite p) (fs_write temp_path content)) (\<lambda>_ d. case fs_rename temp_path p d of
       (Inr _, d) \<Rightarrow> (Inr (), d)
     | (Inl err, d) \<Rightarrow>
         if path_exists p d
         then (case fs_remove_file p d of
            (Inl source, d) \<Rightarrow> io_cleanup (fs_remove_file temp_path) (SettingsWrite p source) d
          | (Inr _, d) \<Rightarrow> (case fs_rename temp_path p d of
              (Inr _, d) \<Rightarrow> (Inr (), d)
            | (Inl source, d) \<Rightarrow> io_cleanup (fs_remove_file temp_path) (SettingsWrite p source) d))
         else io_cleanup (fs_remove_file temp_path) (SettingsWrite p err) d))"

text \<open>The configuration's writer; its temporary name holds the process id and the time.\<close>

definition config_parent_dir :: "path \<Rightarrow> path" where
  "config_parent_dir p = (case path_parent p of
     Some parent \<Rightarrow> (if parent = [] then ''.'' else parent) | None \<Rightarrow> ''.'')"

definition config_temp_path :: "nat \<Rightarrow> nat \<Rightarrow> path \<Rightarrow> path" where
  "config_temp_path pid nanos p = (let file_stem = (case path_file_name p of Some name \<Rightarrow> name | None \<Rightarrow> ''config'') in
     path_join (config_parent_dir p) (''.'' @ file_stem @ ''.'' @ show_nat pid @ ''.'' @ show_nat nanos @ ''.tmp''))"

definition config_install :: "path \<Rightarrow> path \<Rightarrow> disk \<Rightarrow> (io_error + unit) \<times> disk" where
  "config_install tmp_path p d =
     (case (if path_exists p d then fs_remove_file p d else (Inr (), d)) of
        (Inl source, d) \<Rightarrow> io_cleanup (fs_remove_file tmp_path) source d
      | (Inr _, d) \<Rightarrow> (case fs_rename tmp_path p d of
          (Inl source, d) \<Rightarrow> io_cleanup (fs_remove_file tmp_path) source d
        | (Inr _, d) \<Rightarrow> (Inr (), d)))"

definition config_atomic_write :: "nat \<Rightarrow> nat \<Rightarrow> path \<Rightarrow> string \<Rightarrow> disk \<Rightarrow> (io_error + unit) \<times> disk" where
  "config_atomic_write pid nanos p contents = (let parent = config_parent_dir p; tmp_path = config_temp_path pid nanos p in
     io_then (if parent \<noteq> [] \<and> parent \<noteq> ''.'' then fs_create_dir_all parent else (\<lambda>d. (Inr (), d))) (\<lambda>_ d.
     case fs_write tmp_path contents d of
       (Inl source, d) \<Rightarrow> io_cleanup (fs_remove_file tmp_path) source d
     | (Inr _, d) \<Rightarrow> config_install tmp_path p d))"

lemmas writer_defs = replaced_def settings_atomic_write_def package_atomic_write_def
  io_defs path_exists_def Let_def

lemma settings_write_replaced: "replaced p (temp_path_for p) c (settings_atomic_write p c d) d"
  by (auto simp: writer_defs temp_path_for_def fs_remove_other
      split: prod.splits sum.splits if_splits dest!: fs_facts fs_rename_Inr)

lemma package_write_replaced: "replaced p (temp_path_for p) c (package_atomic_write p c d) d"
  by (auto simp: writer_defs temp_path_for_def fs_remove_other map_err_def
      split: prod.splits sum.splits if_splits dest!: fs_facts fs_rename_Inr)

lemma config_install_replaced:
  "t \<noteq> p \<Longrightarrow> entries d t = Some (FileEntry c) \<Longrightarrow> replaced p t c (config_install t p d) d"
  by (auto simp: replaced_def config_install_def io_cleanup_def path_exists_def fs_remove_other
      split: prod.splits sum.splits if_splits dest!: fs_facts fs_rename_Inr)

lemma replaced_trans:
  "entries d p = entries d0 p \<Longrightarrow> (\<And>q. q \<noteq> p \<Longrightarrow> q \<noteq> t \<Longrightarrow> entries d q = entries d0 q) \<Longrightarrow>
     replaced p t c r d \<Longrightarrow> replaced p t c r d0"
  by (cases "fst r") (simp_all add: replaced_def)

lemma config_write_replaced:
  assumes "config_temp_path pid nanos p \<noteq> p"
  shows "replaced p (config_temp_path pid nanos p) c (config_atomic_write pid nanos p c d) d"
proof -
  let ?t = "config_temp_path pid nanos p" and ?parent = "config_parent_dir p"
  obtain r1 d1 where dir: "(if ?parent \<noteq> [] \<and> ?parent \<noteq> ''.'' then fs_create_dir_all ?parent else (\<lambda>d. (Inr (), d))) d = (r1, d1)"
    by fastforce
  then have d1: "entries d1 = entries d"
    by (auto split: if_splits dest: fs_create_dir_entries)
  obtain r2 d2 where wr: "fs_write ?t c d1 = (r2, d2)" by fastforce
  have frame: "entries d2 q = entries d q" if "q \<noteq> ?t" for q
    using wr that d1 by (cases r2) (auto dest!: fs_write_Inr fs_write_Inl)
  have "replaced p ?t c (case r2 of Inl source \<Rightarrow> io_cleanup (fs_remove_file ?t) source d2 | Inr _ \<Rightarrow> config_install ?t p d2) d"
  proof (cases r2)
    case (Inl e)
    then show ?thesis using frame assms by (auto simp: replaced_def io_cleanup_def fs_remove_other)
  next
    case (Inr u)
    then have "entries d2 ?t = Some (FileEntry c)" using wr fs_write_Inr by fastforce
    then show ?thesis
      using Inr config_install_replaced [OF assms] frame assms by (auto intro!: replaced_trans [of d2 p d])
  qed
  then show ?thesis
    using d1 by (cases r1) (auto simp: config_atomic_write_def Let_def io_then_def dir wr replaced_def split: sum.splits)
qed

text \<open>The temporary name of the configuration is never the name of the configuration.\<close>

lemma show_nat_digit: "c \<in> set (show_nat n) \<Longrightarrow> is_ascii_digit c"
proof (induction n rule: show_nat.induct)
  case (1 n)
  have "is_ascii_digit (char_of (48 + k))" if "k < 10" for k :: nat
    using that by (simp add: is_ascii_digit_def of_char_of)
  with 1 show ?case
    by (subst (asm) (2) show_nat.simps) (auto split: if_splits)
qed

lemma path_file_name_Some: "path_file_name p = Some s \<Longrightarrow> components p = butlast (components p) @ [Normal s]"
  by (cases "components p" rule: rev_cases) (auto simp: path_file_name_def split: component.splits)

lemma config_temp_differs: "config_temp_path pid nanos p \<noteq> p"
proof -
  let ?stem = "case path_file_name p of Some name \<Rightarrow> name | None \<Rightarrow> ''config''"
  let ?name = "''.'' @ ?stem @ ''.'' @ show_nat pid @ ''.'' @ show_nat nanos @ ''.tmp''"
  have "CHR ''/'' \<notin> set ?stem"
    using path_file_name_Some [of p] normal_component [of _ p] by (cases "path_file_name p") (auto, metis in_set_conv_decomp)
  moreover have "CHR ''/'' \<notin> set (show_nat n)" for n
    using show_nat_digit [of "CHR ''/''" n] by (auto simp: is_ascii_digit_def)
  ultimately have "components (config_temp_path pid nanos p) = components (config_parent_dir p) @ [Normal ?name]"
    unfolding config_temp_path_def Let_def by (intro components_join_plain) auto
  then have "path_file_name (config_temp_path pid nanos p) = Some ?name"
    by (simp add: path_file_name_def)
  then show ?thesis by (cases "path_file_name p") auto
qed

interpretation settings_writer: file_replacer settings_atomic_write temp_path_for
  by unfold_locales (rule settings_write_replaced)

interpretation package_writer: file_replacer package_atomic_write temp_path_for
  by unfold_locales (rule package_write_replaced)

interpretation config_writer: file_replacer "config_atomic_write pid nanos" "config_temp_path pid nanos" for pid nanos
  by unfold_locales (rule config_write_replaced)

text \<open>
  Whatever operation fails, the three writers of the profile never leave a torn file: after a
  success the file holds exactly the new text, after an error it holds what it held or it is gone,
  and apart from the writer's own temporary file no other file changes.
\<close>

theorem profile_writes_never_torn:
  "replaced p (temp_path_for p) c (settings_atomic_write p c d) d
   \<and> replaced p (temp_path_for p) c (package_atomic_write p c d) d
   \<and> replaced p (config_temp_path pid nanos p) c (config_atomic_write pid nanos p c d) d"
  using settings_write_replaced package_write_replaced config_write_replaced [OF config_temp_differs] by blast

text \<open>On a disk without faults, where neither path is a directory, the save succeeds.\<close>

lemma config_write_succeeds:
  assumes "healthy d" and "entries d p \<noteq> Some DirEntry" and "entries d (config_temp_path pid nanos p) \<noteq> Some DirEntry"
  shows "\<exists>d'. config_atomic_write pid nanos p c d = (Inr (), d') \<and> healthy d'"
proof -
  let ?t = "config_temp_path pid nanos p"
  have "\<exists>d'. config_install ?t p d1 = (Inr (), d') \<and> healthy d'"
    if "healthy d1" "entries d1 ?t = Some (FileEntry c)" "entries d1 p \<noteq> Some DirEntry" for d1
    using that config_temp_differs [of pid nanos p]
    by (cases "entries d1 p") (auto simp: config_install_def fs_ops healthy_def split: entry.splits)
  then show ?thesis
    using assms config_temp_differs [of pid nanos p]
    by (auto simp: config_atomic_write_def io_then_def fs_ops healthy_def)
qed

text \<open>The configuration's writer removes the old file before it renames: if the rename fails the
  configuration is gone. The other two rename first.\<close>

lemma config_write_may_lose:
  "\<exists>d d' e. entries d ''a/c'' = Some (FileEntry old)
     \<and> config_atomic_write 1 2 ''a/c'' c d = (Inl e, d') \<and> entries d' ''a/c'' = None"
proof -
  let ?d = "\<lparr>entries = [''a/c'' \<mapsto> FileEntry old], faults = (\<lambda>n. if n = 3 then Some (''EIO'', None) else None), performed = 0\<rparr>"
  have p: "config_parent_dir ''a/c'' = ''a''" by code_simp
  have t: "config_temp_path 1 2 ''a/c'' \<noteq> ''a/c''" by (rule config_temp_differs)
  show ?thesis
    by (rule exI [of _ ?d]) (use t in \<open>simp add: config_atomic_write_def config_install_def io_defs fs_ops p\<close>)
qed

section \<open>The settings\<close>

definition MASTER_PROMPT_FILE :: string where "MASTER_PROMPT_FILE = ''master_prompt.md''"
definition SKILLS_FILE :: string where "SKILLS_FILE = ''skills.dsl''"
definition RULES_FILE :: string where "RULES_FILE = ''rules.md''"

definition read_required :: "path \<Rightarrow> disk \<Rightarrow> (settings_error + string) \<times> disk" where
  "read_required p = io_then (io_map_err (SettingsRead p) (fs_read_to_string p)) (\<lambda>v d.
     (if is_blank v then Inl (EmptyFile p) else Inr v, d))"

definition write_required :: "path \<Rightarrow> string \<Rightarrow> string \<Rightarrow> disk \<Rightarrow> (settings_error + unit) \<times> disk" where
  "write_required sdir file_name content = (let p = path_join sdir file_name in
     if is_blank content then (\<lambda>d. (Inl (EmptyFile p), d))
     else io_map_err (SettingsWrite p) (settings_atomic_write p content))"

definition write_master_prompt :: "path \<Rightarrow> string \<Rightarrow> disk \<Rightarrow> (settings_error + unit) \<times> disk" where
  "write_master_prompt sdir content = write_required sdir MASTER_PROMPT_FILE content"

definition write_skills_source :: "path \<Rightarrow> string \<Rightarrow> disk \<Rightarrow> (settings_error + unit) \<times> disk" where
  "write_skills_source sdir content = write_required sdir SKILLS_FILE content"

definition write_rules :: "path \<Rightarrow> string \<Rightarrow> disk \<Rightarrow> (settings_error + unit) \<times> disk" where
  "write_rules sdir content = (let p = path_join sdir RULES_FILE in
     io_map_err (SettingsWrite p) (settings_atomic_write p content))"

definition clear_rules :: "path \<Rightarrow> disk \<Rightarrow> (settings_error + unit) \<times> disk" where
  "clear_rules sdir d = (let p = path_join sdir RULES_FILE in case fs_remove_file p d of
     (Inr _, d) \<Rightarrow> (Inr (), d)
   | (Inl source, d) \<Rightarrow> (if not_found source then Inr () else Inl (SettingsWrite p source), d))"

record 'p agent_settings =
  master_prompt :: string
  skills_source :: string
  set_rules :: string
  skill_packages :: 'p

definition read_rules :: "path \<Rightarrow> disk \<Rightarrow> (settings_error + string) \<times> disk" where
  "read_rules p d = (case fs_read_to_string p d of
     (Inr v, d) \<Rightarrow> (Inr v, d)
   | (Inl source, d) \<Rightarrow> (if not_found source then Inr [] else Inl (SettingsRead p source), d))"

text \<open>The skill packages are loaded by the argument.\<close>

definition load_settings :: "(disk \<Rightarrow> (settings_error + 'p) \<times> disk) \<Rightarrow> path \<Rightarrow> disk \<Rightarrow> (settings_error + 'p agent_settings) \<times> disk" where
  "load_settings load_skill_packages sdir =
     io_then (read_required (path_join sdir MASTER_PROMPT_FILE)) (\<lambda>master.
     io_then (read_required (path_join sdir SKILLS_FILE)) (\<lambda>skills.
     io_then (read_rules (path_join sdir RULES_FILE)) (\<lambda>rules.
     io_then load_skill_packages (\<lambda>packages d.
       (Inr \<lparr>master_prompt = master, skills_source = skills, set_rules = rules, skill_packages = packages\<rparr>, d)))))"

section \<open>The environment file\<close>

datatype dotenv_file_error = DotenvRead path io_error | DotenvWrite path io_error | InvalidName string

definition show_dotenv_error :: "dotenv_file_error \<Rightarrow> string" where
  "show_dotenv_error e = (case e of
     DotenvRead p s \<Rightarrow> ''failed to read `'' @ p @ ''`: '' @ io_text s
   | DotenvWrite p s \<Rightarrow> ''failed to write `'' @ p @ ''`: '' @ io_text s
   | InvalidName n \<Rightarrow> ''invalid env var name `'' @ n @ ''`: use `[A-Za-z_][A-Za-z0-9_]*`'')"

definition is_ascii_alphabetic :: "char \<Rightarrow> bool" where
  "is_ascii_alphabetic c \<longleftrightarrow> is_ascii_lower c \<or> is_ascii_upper c"

definition validate_env_var_name :: "string \<Rightarrow> dotenv_file_error + unit" where
  "validate_env_var_name name = (case name of
     [] \<Rightarrow> Inl (InvalidName name)
   | first # rest \<Rightarrow>
       if \<not> (is_ascii_alphabetic first \<or> first = CHR ''_'') then Inl (InvalidName name)
       else if \<not> list_all (\<lambda>c. is_ascii_alnum c \<or> c = CHR ''_'') rest then Inl (InvalidName name)
       else Inr ())"

definition line_sets :: "string \<Rightarrow> string \<Rightarrow> bool" where
  "line_sets key line = (let trimmed = trim_start line in
     if trimmed = [] \<or> starts_with trimmed ''#'' then False
     else (case split_once (CHR ''='') trimmed of None \<Rightarrow> False
           | Some (name, v) \<Rightarrow> trim name = key \<and> \<not> is_blank v))"

definition text_sets :: "string \<Rightarrow> string \<Rightarrow> bool" where
  "text_sets key content = list_ex (line_sets key) (str_lines content)"

definition env_var_is_set_in_file :: "path \<Rightarrow> string \<Rightarrow> disk \<Rightarrow> bool \<times> disk" where
  "env_var_is_set_in_file p key d = (case fs_read_to_string p d of
     (Inl _, d) \<Rightarrow> (False, d) | (Inr content, d) \<Rightarrow> (text_sets key content, d))"

definition line_names :: "string \<Rightarrow> string \<Rightarrow> bool" where
  "line_names key line = (let trimmed = trim_start line in
     if trimmed = [] \<or> starts_with trimmed ''#'' then False
     else (case split_once (CHR ''='') trimmed of None \<Rightarrow> trimmed | Some (n, _) \<Rightarrow> trim n) = key)"

definition upserted_lines :: "string \<Rightarrow> string \<Rightarrow> string \<Rightarrow> string list" where
  "upserted_lines key v existing = (let assignment = key @ ''='' @ v; ls = str_lines existing;
       out = map (\<lambda>l. if line_names key l then assignment else l) ls in
     if list_ex (line_names key) ls then out else out @ [assignment])"

definition upserted_body :: "string list \<Rightarrow> string" where
  "upserted_body out = (let body = join_with [LF] out in
     if body \<noteq> [] \<and> \<not> suffix [LF] body then body @ [LF] else body)"

definition read_existing :: "path \<Rightarrow> disk \<Rightarrow> (dotenv_file_error + string) \<times> disk" where
  "read_existing p d = (case fs_read_to_string p d of
     (Inr content, d) \<Rightarrow> (Inr content, d)
   | (Inl e, d) \<Rightarrow> (if not_found e then Inr [] else Inl (DotenvRead p e), d))"

definition upsert_env_var :: "path \<Rightarrow> string \<Rightarrow> string \<Rightarrow> disk \<Rightarrow> (dotenv_file_error + unit) \<times> disk" where
  "upsert_env_var p key v d = (case validate_env_var_name key of
     Inl e \<Rightarrow> (Inl e, d)
   | Inr _ \<Rightarrow> io_then (read_existing p) (\<lambda>existing.
       io_then (case path_parent p of
           Some parent \<Rightarrow> io_map_err (DotenvWrite p) (fs_create_dir_all parent)
         | None \<Rightarrow> (\<lambda>d. (Inr (), d))) (\<lambda>_.
       io_map_err (DotenvWrite p) (fs_write p (upserted_body (upserted_lines key v existing))))) d)"

text \<open>What the assignments of an upserted file say.\<close>

lemma line_sets_names: "line_sets key l \<Longrightarrow> line_names key l"
  by (auto simp: line_sets_def line_names_def Let_def split: if_splits option.splits)

lemma line_names_sets: "line_names key l \<Longrightarrow> q \<noteq> key \<Longrightarrow> \<not> line_sets q l"
  by (auto simp: line_sets_def line_names_def Let_def split: if_splits option.splits)

lemma line_sets_Nil [simp]: "\<not> line_sets key []"
  by (simp add: line_sets_def trim_start_id ws_head_def find_None_iff ws_chars_def)

lemma env_name_chars:
  assumes "validate_env_var_name key = Inr ()"
  shows "key \<noteq> []" and "list_all visible key" and "CHR ''='' \<notin> set key" and "CHR ''#'' \<notin> set key" and "LF \<notin> set key"
  using assms
  by (auto simp: validate_env_var_name_def list_all_iff visible_def is_ascii_alnum_def is_ascii_alphabetic_def is_ascii_lower_def
      is_ascii_upper_def is_ascii_digit_def split: list.splits if_splits)

lemma line_sets_assignment:
  assumes "validate_env_var_name key = Inr ()"
  shows "line_sets q (key @ CHR ''='' # v) \<longleftrightarrow> q = key \<and> \<not> is_blank v"
proof -
  obtain c r where key: "key = c # r" using env_name_chars(1) [OF assms] by (cases key) auto
  have "trim key = key" using env_name_chars(2) [OF assms] env_name_chars(1) [OF assms]
    by (intro trim_visible) (auto simp: list_all_iff)
  moreover have "trim_start (key @ CHR ''='' # v) = key @ CHR ''='' # v"
    using env_name_chars(2) [OF assms] by (simp add: key trim_start_visible)
  moreover have "split_once (CHR ''='') (key @ CHR ''='' # v) = Some (key, v)"
    using env_name_chars(3) [OF assms] by (simp add: split_once_Some)
  ultimately show ?thesis
    using env_name_chars(4) [OF assms] by (auto simp: line_sets_def key)
qed

lemma upserted_lines_sets:
  assumes "validate_env_var_name key = Inr ()"
  shows "list_ex (line_sets q) (upserted_lines key v t) \<longleftrightarrow>
    (if q = key then \<not> is_blank v else text_sets q t)"
proof (cases "q = key")
  case True
  then show ?thesis
    using line_sets_names [of key]
    by (auto simp: upserted_lines_def Let_def list_ex_iff line_sets_assignment [OF assms]
        intro!: bexI [of _ "key @ CHR ''='' # v"])
next
  case False
  then show ?thesis
    using line_names_sets [of key _ q]
    by (auto simp: upserted_lines_def Let_def text_sets_def list_ex_iff line_sets_assignment [OF assms])
qed

lemma text_sets_body:
  assumes "out \<noteq> []" and "\<And>l. l \<in> set out \<Longrightarrow> LF \<notin> set l \<and> \<not> suffix [CR] l"
  shows "text_sets q (upserted_body out) = list_ex (line_sets q) out"
proof -
  have split: "split_on LF (join_with [LF] out) = out"
    using assms by (intro split_on_join) auto
  have clean: "map (\<lambda>l. case strip_suffix [CR] l of Some t \<Rightarrow> t | None \<Rightarrow> l) ls = ls" if "set ls \<subseteq> set out" for ls
    using assms(2) that by (intro map_idI) (force simp: strip_suffix_Some suffix_def split: option.splits)
  show ?thesis
  proof (cases "join_with [LF] out \<noteq> [] \<and> \<not> suffix [LF] (join_with [LF] out)")
    case True
    then have "upserted_body out = join_with [LF] out @ [LF]" by (simp add: upserted_body_def Let_def)
    moreover have "split_on LF (join_with [LF] out @ [LF]) = out @ [[]]"
      using split_on_append_sep [of LF "join_with [LF] out" "[]"] split by simp
    ultimately show ?thesis by (simp add: text_sets_def str_lines_def clean)
  next
    case False
    then have body: "upserted_body out = join_with [LF] out" by (simp add: upserted_body_def Let_def)
    have "last out = []"
    proof (cases "join_with [LF] out = []")
      case True
      then show ?thesis using split by simp (metis last.simps)
    next
      case False
      then obtain r where "join_with [LF] out = r @ LF # []"
        using \<open>\<not> (join_with [LF] out \<noteq> [] \<and> _)\<close> by (auto simp: suffix_def)
      then show ?thesis using split split_on_append_sep [of LF r "[]"] by (metis last_snoc split_on.simps(1))
    qed
    then obtain ls where "out = ls @ [[]]" using assms(1) by (metis append_butlast_last_id)
    moreover from this have "str_lines (upserted_body out) = ls"
      using clean [of ls] unfolding str_lines_def body split Let_def by auto
    ultimately show ?thesis by (simp add: text_sets_def)
  qed
qed

text \<open>
  Setting a secret changes exactly that variable. When the update succeeds the file assigns
  the key as the dotenv reader sees it (unless the value is blank) and every other variable is
  set or unset as before, provided the value is one line and no line of the file ends in a
  carriage return.
\<close>

theorem dotenv_upsert_exact:
  assumes ok: "upsert_env_var p key v d = (Inr (), d')"
    and before: "entries d p = Some (FileEntry t) \<or> entries d p = None \<and> t = []"
    and one_line: "LF \<notin> set v" "\<not> suffix [CR] (key @ ''='' @ v)"
    and unix: "\<And>l. l \<in> set (str_lines t) \<Longrightarrow> \<not> suffix [CR] l"
  shows "\<exists>t'. entries d' p = Some (FileEntry t') \<and>
    (\<forall>q. text_sets q t' = (if q = key then \<not> is_blank v else text_sets q t))"
proof -
  have name: "validate_env_var_name key = Inr ()"
    using ok by (auto simp: upsert_env_var_def split: sum.splits)
  obtain x d1 where rd: "read_existing p d = (x, d1)" by fastforce
  have "x = Inr t \<or> (\<exists>e. x = Inl e)"
    using rd before by (auto simp: read_existing_def fs_ops NOT_FOUND_def INVALID_DATA_def split: option.splits entry.splits if_splits)
  then obtain d2 where wr: "fs_write p (upserted_body (upserted_lines key v t)) d2 = (Inr (), d')"
    using ok rd name by (auto simp: upsert_env_var_def io_defs map_err_def split: option.splits prod.splits sum.splits)
  let ?out = "upserted_lines key v t"
  have "LF \<notin> set l \<and> \<not> suffix [CR] l" if "l \<in> set ?out" for l
  proof -
    have "l = key @ ''='' @ v \<or> l \<in> set (str_lines t)"
      using that by (auto simp: upserted_lines_def Let_def split: if_splits)
    then show ?thesis using str_lines_no_LF env_name_chars(5) [OF name] one_line unix by auto
  qed
  moreover have "?out \<noteq> []" by (auto simp: upserted_lines_def Let_def list_ex_iff split: if_splits)
  ultimately show ?thesis
    using fs_write_Inr [OF wr] by (simp add: text_sets_body upserted_lines_sets [OF name])
qed

definition sample_disk :: disk where
  "sample_disk = \<lparr>entries = [''.env'' \<mapsto> FileEntry (''A=1'' @ [LF] @ ''K=2'' @ [LF])], faults = (\<lambda>_. None), performed = 0\<rparr>"

theorem dotenv_upsert_exact_witness:
  "\<exists>d' t'. upsert_env_var ''.env'' ''K'' ''3'' sample_disk = (Inr (), d') \<and> entries d' ''.env'' = Some (FileEntry t')
     \<and> text_sets ''K'' t'"
proof -
  have t: "str_lines (''A=1'' @ [LF] @ ''K=2'' @ [LF]) = [''A=1'', ''K=2'']" by code_simp
  have u: "utf8_valid (''A=1'' @ [LF] @ ''K=2'' @ [LF])" by code_simp
  have pp: "path_parent ''.env'' = Some []" by code_simp
  obtain d' where ok: "upsert_env_var ''.env'' ''K'' ''3'' sample_disk = (Inr (), d')"
    using u by (simp add: upsert_env_var_def validate_env_var_name_def is_ascii_alphabetic_def is_ascii_upper_def
        read_existing_def io_defs fs_ops sample_disk_def pp)
  have "\<exists>t'. entries d' ''.env'' = Some (FileEntry t') \<and>
      (\<forall>q. text_sets q t' = (if q = ''K'' then \<not> is_blank ''3'' else text_sets q (''A=1'' @ [LF] @ ''K=2'' @ [LF])))"
    by (rule dotenv_upsert_exact [OF ok]) (use t in \<open>auto simp: sample_disk_def suffix_def\<close>)
  moreover have "\<not> is_blank ''3''" by code_simp
  ultimately show ?thesis using ok by auto
qed

end
