(* ===== verification/Config.thy ===== *)
theory Config
  imports Profile_Files History Billing Event_Mcp Access_Facts
begin

text \<open>
  The runtime configuration (\<open>src/config/mod.rs\<close>, \<open>src/config/safety.rs\<close>): its sections with
  their defaults, the reading of an MCP server entry, validation, the overrides of the command
  line, loading and saving. \<open>serde\<close> and the URL parser are parameters.
\<close>

section \<open>Sections\<close>

datatype config_error =
    ConfigRead path io_error
  | ConfigWrite path io_error
  | ConfigParse string
  | ConfigValidation string

definition show_config_error :: "config_error \<Rightarrow> string" where
  "show_config_error e = (case e of
     ConfigRead p s \<Rightarrow> ''failed to read config file `'' @ p @ ''`: '' @ io_text s
   | ConfigWrite p s \<Rightarrow> ''failed to write config file `'' @ p @ ''`: '' @ io_text s
   | ConfigParse m \<Rightarrow> ''failed to parse config: '' @ m
   | ConfigValidation m \<Rightarrow> ''config validation failed: '' @ m)"

definition config_of_access_error :: "access_error \<Rightarrow> config_error" where
  "config_of_access_error e = (case e of Validation m \<Rightarrow> ConfigValidation m)"

record context_config =
  pinned_paths :: "string list"

datatype billing_source = FromProvider | FromMcp | FromCatalog

record provider_reported_config =
  prc_unit :: "string option"
  prc_json_pointers :: "string list"
  prc_headers :: "string list"

definition provider_reported_default :: provider_reported_config where
  "provider_reported_default = \<lparr>prc_unit = None,
     prc_json_pointers = [''/usage/cost'', ''/usage/response_cost/total_cost''],
     prc_headers = [''x-litellm-response-cost'']\<rparr>"

record billing_mcp_config =
  bm_target :: string
  bm_timeout_ms :: u64

definition billing_mcp_default_timeout_ms :: u64 where
  "billing_mcp_default_timeout_ms = 5000"

datatype billing_unpriced_policy = ContinueUnpriced

record billing_config =
  bc_provider_id :: string
  bc_currency :: string
  bc_source_order :: "billing_source list"
  bc_provider_reported :: provider_reported_config
  bc_catalog_path :: "path option"
  bc_mcp :: "billing_mcp_config option"
  bc_on_unpriced :: billing_unpriced_policy

definition billing_default :: billing_config where
  "billing_default = \<lparr>bc_provider_id = ''openai_compatible'', bc_currency = ''USD'',
     bc_source_order = [FromProvider, FromMcp, FromCatalog],
     bc_provider_reported = provider_reported_default, bc_catalog_path = None, bc_mcp = None,
     bc_on_unpriced = ContinueUnpriced\<rparr>"

definition history_default :: history_config where
  "history_default = \<lparr>max_tail_messages = 30, max_chars = 200000\<rparr>"

record provider_config =
  pv_base_url :: string
  pv_model :: string
  pv_api_key_env :: string
  pv_api_key :: "string option"
  pv_timeout_ms :: u64
  pv_max_retries :: u32
  pv_retry_base_delay_ms :: u64
  pv_effort :: "string option"
  pv_thinking :: "bool option"
  pv_history :: history_config

definition filled :: "string option \<Rightarrow> bool" where
  "filled s \<longleftrightarrow> (case s of Some t \<Rightarrow> \<not> is_blank t | None \<Rightarrow> False)"

definition has_inline_api_key :: "provider_config \<Rightarrow> bool" where
  "has_inline_api_key p = filled (pv_api_key p)"

text \<open>The environment is a map; an absent variable is \<open>VarError::NotPresent\<close>.\<close>

definition resolve_api_key :: "(string \<Rightarrow> string option) \<Rightarrow> provider_config \<Rightarrow> string option" where
  "resolve_api_key env p = (case pv_api_key p of
     Some key \<Rightarrow> (if trim key \<noteq> [] then Some (trim key) else env (pv_api_key_env p))
   | None \<Rightarrow> env (pv_api_key_env p))"

datatype log_sink_config = SinkFile "path option" | SinkDb string

record audit_redaction_config =
  ar_enabled :: bool
  ar_max_string_chars :: nat
  ar_extra_sensitive_keys :: "string list"

definition audit_redaction_default :: audit_redaction_config where
  "audit_redaction_default = \<lparr>ar_enabled = True, ar_max_string_chars = 4096, ar_extra_sensitive_keys = []\<rparr>"

record logging_config =
  enable_ai_log :: bool
  enable_mcp_log :: bool
  enable_chat_history :: bool
  log_output_dir :: "path option"
  log_sink :: log_sink_config
  audit_redaction :: audit_redaction_config

definition logging_default :: logging_config where
  "logging_default = \<lparr>enable_ai_log = False, enable_mcp_log = False, enable_chat_history = False,
     log_output_dir = None, log_sink = SinkFile None, audit_redaction = audit_redaction_default\<rparr>"

section \<open>MCP servers\<close>

record mcp_oauth_config =
  oa_client_id :: "string option"
  oa_client_secret_env :: "string option"
  oa_client_id_metadata_url :: "string option"
  oa_scopes :: "string list"
  oa_redirect_port :: "16 word"
  oa_token_store :: "path option"

text \<open>The maps \<open>env\<close> and \<open>headers\<close> are lists of their entries.\<close>

record mcp_stdio_config =
  st_command :: string
  st_args :: "string list"
  st_env :: "(string \<times> string) list"
  st_cwd :: "path option"

record mcp_http_config =
  ht_url :: string
  ht_headers :: "(string \<times> string) list"
  ht_auth :: "mcp_oauth_config option"

datatype mcp_transport = Stdio mcp_stdio_config | Http mcp_http_config

record mcp_server_config =
  ms_name :: string
  ms_timeout_ms :: u64
  ms_transport :: mcp_transport

record mcp_server_raw =
  raw_name :: string
  raw_transport :: "string option"
  raw_command :: "string option"
  raw_args :: "string list"
  raw_env :: "(string \<times> string) list"
  raw_cwd :: "path option"
  raw_url :: "string option"
  raw_headers :: "(string \<times> string) list"
  raw_auth :: "mcp_oauth_config option"
  raw_timeout_ms :: u64

definition transport_kind :: "string option \<Rightarrow> string option" where
  "transport_kind t = (case t of None \<Rightarrow> None
   | Some s \<Rightarrow> (if is_blank s then None else Some (map to_ascii_lower (trim s))))"

definition raw_http :: "mcp_server_raw \<Rightarrow> string \<Rightarrow> string + mcp_transport" where
  "raw_http r missing = (case raw_url r of None \<Rightarrow> Inl missing
   | Some url \<Rightarrow> Inr (Http \<lparr>ht_url = url, ht_headers = raw_headers r, ht_auth = raw_auth r\<rparr>))"

definition raw_stdio :: "mcp_server_raw \<Rightarrow> string \<Rightarrow> string + mcp_transport" where
  "raw_stdio r missing = (case raw_command r of None \<Rightarrow> Inl missing
   | Some command \<Rightarrow> Inr (Stdio \<lparr>st_command = command, st_args = raw_args r, st_env = raw_env r, st_cwd = raw_cwd r\<rparr>))"

definition raw_to_transport :: "mcp_server_raw \<Rightarrow> string + mcp_transport" where
  "raw_to_transport r = (let has_command = filled (raw_command r); has_url = filled (raw_url r) in
     case transport_kind (raw_transport r) of
       Some kind \<Rightarrow>
         (if kind = ''stdio'' then
            (if \<not> has_command then Inl ''mcp transport `stdio` requires `command`''
             else if has_url then Inl ''mcp transport `stdio` must not set `url`''
             else if raw_auth r \<noteq> None \<or> raw_headers r \<noteq> []
             then Inl ''mcp transport `stdio` must not set `url`/`headers`/`auth`''
             else raw_stdio r ''mcp transport `stdio` requires `command`'')
          else if kind = ''http'' then
            (if \<not> has_url then Inl ''mcp transport `http` requires `url`''
             else if has_command \<or> raw_args r \<noteq> [] \<or> raw_env r \<noteq> [] \<or> raw_cwd r \<noteq> None
             then Inl ''mcp transport `http` must not set `command`/`args`/`env`/`cwd`''
             else raw_http r ''mcp transport `http` requires `url`'')
          else Inl (''unknown mcp transport `'' @ kind @ ''` (expected `stdio` or `http`)''))
     | None \<Rightarrow>
         (if has_url \<and> \<not> has_command then
            (if raw_cwd r \<noteq> None \<or> raw_args r \<noteq> [] \<or> raw_env r \<noteq> []
             then Inl ''mcp http entry must not set `command`/`args`/`env`/`cwd`''
             else raw_http r ''mcp http entry requires `url`'')
          else if has_command \<and> \<not> has_url then
            (if raw_auth r \<noteq> None \<or> raw_headers r \<noteq> []
             then Inl ''stdio mcp servers must not set `headers`/`auth` (use `url` for HTTP)''
             else raw_stdio r ''mcp stdio entry requires `command`'')
          else if has_url \<and> has_command
          then Inl ''mcp entry must set either `command` or `url`, not both''
          else Inl ''mcp entry requires `command` (stdio) or `url` (http)''))"

definition double_client_id :: "mcp_transport \<Rightarrow> bool" where
  "double_client_id t = (case t of Http h \<Rightarrow> (case ht_auth h of
       Some auth \<Rightarrow> filled (oa_client_id auth) \<and> filled (oa_client_id_metadata_url auth)
     | None \<Rightarrow> False) | Stdio _ \<Rightarrow> False)"

definition mcp_server_try_from :: "mcp_server_raw \<Rightarrow> string + mcp_server_config" where
  "mcp_server_try_from r = rbind (raw_to_transport r) (\<lambda>t.
     if double_client_id t then Inl ''mcp auth must set only one of `client_id` or `client_id_metadata_url`''
     else Inr \<lparr>ms_name = raw_name r, ms_timeout_ms = raw_timeout_ms r, ms_transport = t\<rparr>)"

text \<open>What \<open>Serialize\<close> writes, as the entry that is read back: an absent field has its default.\<close>

definition mcp_server_wire :: "mcp_server_config \<Rightarrow> mcp_server_raw" where
  "mcp_server_wire s = (case ms_transport s of
     Stdio t \<Rightarrow> \<lparr>raw_name = ms_name s, raw_transport = Some ''stdio'', raw_command = Some (st_command t),
       raw_args = st_args t, raw_env = st_env t, raw_cwd = st_cwd t, raw_url = None, raw_headers = [],
       raw_auth = None, raw_timeout_ms = ms_timeout_ms s\<rparr>
   | Http t \<Rightarrow> \<lparr>raw_name = ms_name s, raw_transport = Some ''http'', raw_command = None,
       raw_args = [], raw_env = [], raw_cwd = None, raw_url = Some (ht_url t), raw_headers = ht_headers t,
       raw_auth = ht_auth t, raw_timeout_ms = ms_timeout_ms s\<rparr>)"

section \<open>The configuration\<close>

record 'd app_config =
  cfg_provider :: provider_config
  cfg_mcp :: "mcp_server_config list"
  cfg_event_mcp :: event_mcp_config
  cfg_billing :: billing_config
  cfg_limits :: "'d money limits_config"
  cfg_logging :: logging_config
  cfg_access :: "access_policy_config option"
  cfg_context :: context_config

definition bootstrap_app_config :: "'d app_config" where
  "bootstrap_app_config = \<lparr>
     cfg_provider = \<lparr>pv_base_url = ''https://api.openai.com/v1'', pv_model = ''gpt-4o-mini'',
       pv_api_key_env = ''OPENAI_API_KEY'', pv_api_key = None, pv_timeout_ms = 60000, pv_max_retries = 3,
       pv_retry_base_delay_ms = 500, pv_effort = None, pv_thinking = None, pv_history = history_default\<rparr>,
     cfg_mcp = [], cfg_event_mcp = event_config_default, cfg_billing = billing_default,
     cfg_limits = \<lparr>max_iterations = 10, max_tokens = 15000, max_duration_sec = 120, max_cost = None\<rparr>,
     cfg_logging = logging_default\<lparr>enable_ai_log := True, enable_mcp_log := True\<rparr>,
     cfg_access = Some minimal_profile, cfg_context = \<lparr>pinned_paths = []\<rparr>\<rparr>"

definition ensure_access_present :: "'d app_config \<Rightarrow> bool \<times> 'd app_config" where
  "ensure_access_present c = (if cfg_access c \<noteq> None then (True, c)
     else (False, c\<lparr>cfg_access := Some minimal_profile\<rparr>))"

definition apply_limit_overrides ::
  "'d app_config \<Rightarrow> u32 option \<Rightarrow> u64 option \<Rightarrow> u64 option \<Rightarrow> 'd money option \<Rightarrow> bool \<Rightarrow> 'd app_config" where
  "apply_limit_overrides c iters toks secs cost save = (let l = cfg_limits c;
     l = (case iters of Some n \<Rightarrow> l\<lparr>max_iterations := n\<rparr> | None \<Rightarrow> l);
     l = (case toks of Some n \<Rightarrow> l\<lparr>max_tokens := n\<rparr> | None \<Rightarrow> l);
     l = (case secs of Some n \<Rightarrow> l\<lparr>max_duration_sec := n\<rparr> | None \<Rightarrow> l);
     l = (case cost of Some m \<Rightarrow> l\<lparr>max_cost := Some m\<rparr> | None \<Rightarrow> l);
     c = c\<lparr>cfg_limits := l\<rparr> in
     if save then c\<lparr>cfg_logging := (cfg_logging c)\<lparr>enable_chat_history := True\<rparr>\<rparr> else c)"

section \<open>Validation\<close>

abbreviation refuse :: "string \<Rightarrow> config_error + 'a" where
  "refuse m \<equiv> Inl (ConfigValidation m)"

definition validate_provider :: "provider_config \<Rightarrow> config_error + unit" where
  "validate_provider p =
     (if is_blank (pv_base_url p) then refuse ''`provider.base_url` must not be empty''
      else if is_blank (pv_model p) then refuse ''`provider.model` must not be empty''
      else if (case pv_effort p of Some e \<Rightarrow> is_blank e | None \<Rightarrow> False) then refuse ''`provider.effort` must not be empty''
      else if is_blank (pv_api_key_env p) \<and> \<not> has_inline_api_key p
      then refuse ''set either `provider.api_key` or non-empty `provider.api_key_env`''
      else if pv_timeout_ms p = 0 then refuse ''`provider.timeout_ms` must be > 0''
      else if max_tail_messages (pv_history p) = 0 then refuse ''`provider.history.max_tail_messages` must be > 0''
      else if max_chars (pv_history p) = 0 then refuse ''`provider.history.max_chars` must be > 0''
      else Inr ())"

definition validate_limits :: "'m limits_config \<Rightarrow> config_error + unit" where
  "validate_limits l =
     (if max_iterations l = 0 then refuse ''`limits.max_iterations` must be > 0''
      else if max_tokens l = 0 then refuse ''`limits.max_tokens` must be > 0''
      else if max_duration_sec l = 0 then refuse ''`limits.max_duration_sec` must be > 0''
      else Inr ())"

definition check_money_unit :: "'d decimal_ops \<Rightarrow> string \<Rightarrow> string \<Rightarrow> config_error + unit" where
  "check_money_unit D label unit =
     rbind (map_err (\<lambda>e. ConfigValidation (''`'' @ label @ ''`: '' @ billing_error_str e)) (money_new (dec_zero D) unit))
       (\<lambda>_. Inr ())"

definition check_pointer :: "string \<Rightarrow> config_error + unit" where
  "check_pointer pointer = (if starts_with pointer ''/'' then Inr ()
     else refuse (''billing JSON pointer `'' @ pointer @ ''` must start with `/`''))"

definition validate_billing :: "'d decimal_ops \<Rightarrow> billing_config \<Rightarrow> config_error + unit" where
  "validate_billing D b =
     rbind (check_money_unit D ''billing.currency'' (bc_currency b)) (\<lambda>_.
     if is_blank (bc_provider_id b) then refuse ''`billing.provider_id` must not be empty''
     else if \<not> distinct (bc_source_order b) then refuse ''`billing.source_order` must not contain duplicates''
     else if bc_source_order b = [] then refuse ''`billing.source_order` must not be empty''
     else rbind (case prc_unit (bc_provider_reported b) of
         Some unit \<Rightarrow> check_money_unit D ''billing.provider_reported.unit'' unit | None \<Rightarrow> Inr ()) (\<lambda>_.
     rbind (try_all check_pointer (prc_json_pointers (bc_provider_reported b))) (\<lambda>_.
     if list_ex is_blank (prc_headers (bc_provider_reported b))
     then refuse ''billing provider-reported headers must not be empty''
     else if bc_catalog_path b = Some [] then refuse ''`billing.catalog_path` must not be empty''
     else Inr ())))"

definition validate_max_cost :: "'d decimal_ops \<Rightarrow> billing_config \<Rightarrow> 'd money limits_config \<Rightarrow> config_error + unit" where
  "validate_max_cost D b l = (case max_cost l of None \<Rightarrow> Inr ()
   | Some limit \<Rightarrow>
       (if dec_le D (amount limit) (dec_zero D) then refuse ''`limits.max_cost.amount` must be > 0''
        else if currency limit \<noteq> bc_currency b
        then refuse (''`limits.max_cost.currency` must equal `billing.currency` ('' @ bc_currency b @ '')'')
        else Inr ()))"

text \<open>The URL parser answers an error text or the scheme.\<close>

type_synonym url_parser = "string \<Rightarrow> string + string"

definition validate_transport :: "url_parser \<Rightarrow> string \<Rightarrow> mcp_transport \<Rightarrow> config_error + unit" where
  "validate_transport url_parse name t = (case t of
     Stdio stdio \<Rightarrow> (if is_blank (st_command stdio) then refuse (''`mcp['' @ name @ ''].command` must not be empty'') else Inr ())
   | Http http \<Rightarrow>
       rbind (map_err (\<lambda>e. ConfigValidation (''`mcp['' @ name @ ''].url` is invalid: '' @ e)) (url_parse (trim (ht_url http)))) (\<lambda>scheme.
       if scheme \<noteq> ''http'' \<and> scheme \<noteq> ''https'' then refuse (''`mcp['' @ name @ ''].url` must use http or https'')
       else (case Option.bind (ht_auth http) oa_client_id_metadata_url of
           None \<Rightarrow> Inr ()
         | Some meta \<Rightarrow> rbind (map_err (\<lambda>e. ConfigValidation
             (''`mcp['' @ name @ ''].auth.client_id_metadata_url` is invalid: '' @ e)) (url_parse (trim meta))) (\<lambda>_. Inr ()))))"

fun validate_servers :: "url_parser \<Rightarrow> string list \<Rightarrow> mcp_server_config list \<Rightarrow> config_error + unit" where
  "validate_servers url_parse names [] = Inr ()"
| "validate_servers url_parse names (s # ss) =
     (if is_blank (ms_name s) then refuse ''each `mcp[].name` must not be empty''
      else if ms_name s \<in> set names then refuse (''duplicate mcp server name `'' @ ms_name s @ ''`'')
      else if ms_timeout_ms s = 0 then refuse (''`mcp['' @ ms_name s @ ''].timeout_ms` must be > 0'')
      else rbind (validate_transport url_parse (ms_name s) (ms_transport s)) (\<lambda>_.
        validate_servers url_parse (ms_name s # names) ss))"

definition hosts_handlers :: "event_mcp_config \<Rightarrow> string \<Rightarrow> bool" where
  "hosts_handlers ev server = list_ex (\<lambda>h. case split_once (CHR ''.'') (hc_target h) of
     Some (event_server, _) \<Rightarrow> event_server = server | None \<Rightarrow> False) (concat (map (handlers \<circ> snd) (events ev)))"

definition TARGET_MSG :: string where
  "TARGET_MSG = ''`billing.mcp.target` must be a qualified `server.tool` name''"

definition validate_billing_mcp :: "'d app_config \<Rightarrow> config_error + unit" where
  "validate_billing_mcp c = (case bc_mcp (cfg_billing c) of None \<Rightarrow> Inr ()
   | Some m \<Rightarrow>
       (if bm_timeout_ms m = 0 then refuse ''`billing.mcp.timeout_ms` must be > 0''
        else (case split_once (CHR ''.'') (bm_target m) of
          None \<Rightarrow> refuse TARGET_MSG
        | Some (server, tool) \<Rightarrow>
            if is_blank server \<or> is_blank tool \<or> CHR ''.'' \<in> set tool then refuse TARGET_MSG
            else if server \<notin> ms_name ` set (cfg_mcp c)
            then refuse (''`billing.mcp.target` references unknown MCP server `'' @ server @ ''`'')
            else if hosts_handlers (cfg_event_mcp c) server
            then refuse (''billing MCP server `'' @ server @ ''` must be dedicated and cannot host Event-MCP handlers'')
            else Inr ())))"

definition validate_config :: "'d decimal_ops \<Rightarrow> url_parser \<Rightarrow> 'd app_config \<Rightarrow> config_error + unit" where
  "validate_config D url_parse c =
     rbind (validate_provider (cfg_provider c)) (\<lambda>_.
     rbind (validate_limits (cfg_limits c)) (\<lambda>_.
     rbind (validate_billing D (cfg_billing c)) (\<lambda>_.
     rbind (validate_max_cost D (cfg_billing c) (cfg_limits c)) (\<lambda>_.
     rbind (validate_servers url_parse [] (cfg_mcp c)) (\<lambda>_.
     rbind (validate_billing_mcp c) (\<lambda>_.
     rbind (map_err ConfigValidation (validate_shape (cfg_event_mcp c))) (\<lambda>_.
     map_err config_of_access_error (validate_access_config (cfg_access c) (map ms_name (cfg_mcp c))))))))))"

text \<open>The further checks before a configuration is written.\<close>

definition check_mcp_cwd :: "string \<Rightarrow> path \<Rightarrow> config_error + unit" where
  "check_mcp_cwd name cwd =
     (if ParentDir \<in> set (components cwd)
      then refuse (''`mcp['' @ name @ ''].cwd` must not contain parent path components (`..`)'')
      else if path_contains_protected_segment cwd
      then refuse (''`mcp['' @ name @ ''].cwd` must not point into the agent protected store (`''
             @ KUIBYSHEFF_DIR @ ''/'' @ PROTECTED_DIR @ ''`)'')
      else Inr ())"

definition config_safety_check :: "'d app_config \<Rightarrow> config_error + unit" where
  "config_safety_check c =
     (if has_inline_api_key (cfg_provider c)
      then refuse ''inline `provider.api_key` is not allowed on import/save; use `provider.api_key_env`''
      else try_all (\<lambda>s. case ms_transport s of
        Http _ \<Rightarrow> Inr ()
      | Stdio t \<Rightarrow> (case st_cwd t of None \<Rightarrow> Inr () | Some cwd \<Rightarrow> check_mcp_cwd (ms_name s) cwd)) (cfg_mcp c))"

section \<open>Loading and saving\<close>

text \<open>The formats of \<open>serde\<close>: parsing and printing, each with its error text.\<close>

record 'd config_formats =
  json_from_str :: "string \<Rightarrow> string + 'd app_config"
  yaml_from_str :: "string \<Rightarrow> string + 'd app_config"
  json_to_string_pretty :: "'d app_config \<Rightarrow> string + string"
  yaml_to_string :: "'d app_config \<Rightarrow> string + string"

definition config_extension :: "path \<Rightarrow> string" where
  "config_extension p = (case path_extension p of Some e \<Rightarrow> map to_ascii_lower e | None \<Rightarrow> [])"

definition parse_config_payload :: "'d config_formats \<Rightarrow> string \<Rightarrow> path \<Rightarrow> config_error + 'd app_config" where
  "parse_config_payload F raw path_hint = (let ext = config_extension path_hint in
     map_err ConfigParse
       (if ext = ''json'' then json_from_str F raw
        else if ext = ''yaml'' \<or> ext = ''yml'' then yaml_from_str F raw
        else (case yaml_from_str F raw of Inr c \<Rightarrow> Inr c | Inl _ \<Rightarrow> json_from_str F raw)))"

definition load_config :: "'d decimal_ops \<Rightarrow> url_parser \<Rightarrow> 'd config_formats \<Rightarrow> fs_view \<Rightarrow> path \<Rightarrow> disk
    \<Rightarrow> (config_error + 'd app_config \<times> resolved_access_policy) \<times> disk" where
  "load_config D url_parse F fs p = io_then (io_map_err (ConfigRead p) (fs_read_to_string p)) (\<lambda>raw d.
     (rbind (parse_config_payload F raw p) (\<lambda>c.
      rbind (validate_config D url_parse c) (\<lambda>_.
      rbind (map_err config_of_access_error (resolve_access_policy fs (cfg_access c) (config_parent_dir p))) (\<lambda>access.
        Inr (c, access)))), d))"

definition config_contents :: "'d config_formats \<Rightarrow> path \<Rightarrow> 'd app_config \<Rightarrow> config_error + string" where
  "config_contents F p c = (if config_extension p = ''json'' then map_err ConfigParse (json_to_string_pretty F c)
     else rbind (map_err ConfigParse (yaml_to_string F c)) (\<lambda>body.
       Inr (''# Managed by agent_Kuibysheff config'' @ [LF] @ body)))"

definition save_config :: "'d decimal_ops \<Rightarrow> url_parser \<Rightarrow> 'd config_formats \<Rightarrow> nat \<Rightarrow> nat \<Rightarrow> path \<Rightarrow> 'd app_config \<Rightarrow> disk
    \<Rightarrow> (config_error + unit) \<times> disk" where
  "save_config D url_parse F pid nanos p c d =
     (case rbind (validate_config D url_parse c) (\<lambda>_. rbind (config_safety_check c) (\<lambda>_. config_contents F p c)) of
        Inl e \<Rightarrow> (Inl e, d)
      | Inr contents \<Rightarrow> io_map_err (ConfigWrite p) (config_atomic_write pid nanos p contents) d)"

section \<open>Server entries read back\<close>

definition complete_transport :: "mcp_transport \<Rightarrow> bool" where
  "complete_transport t = (case t of Stdio s \<Rightarrow> \<not> is_blank (st_command s) | Http h \<Rightarrow> \<not> is_blank (ht_url h))"

lemma raw_transport_complete: "raw_to_transport r = Inr t \<Longrightarrow> complete_transport t"
  by (auto simp: raw_to_transport_def raw_http_def raw_stdio_def complete_transport_def filled_def Let_def
      split: option.splits if_splits)

lemma transport_kind_wire: "transport_kind (Some ''stdio'') = Some ''stdio''" "transport_kind (Some ''http'') = Some ''http''"
  by code_simp+

lemma wire_complete:
  assumes "complete_transport (ms_transport s)"
  shows "raw_to_transport (mcp_server_wire s) = Inr (ms_transport s)"
  using assms transport_kind_wire
  by (cases "ms_transport s")
    (auto simp: complete_transport_def mcp_server_wire_def raw_to_transport_def raw_stdio_def raw_http_def filled_def)

text \<open>
  An MCP server entry that is accepted is written in a form that reads back as the same
  server, whichever of the accepted spellings (with or without \<open>transport\<close>, in any case) it came
  from.
\<close>

theorem mcp_server_reads_back:
  assumes "mcp_server_try_from r = Inr s"
  shows "mcp_server_try_from (mcp_server_wire s) = Inr s"
proof -
  obtain t where "raw_to_transport r = Inr t" "\<not> double_client_id t"
      "s = \<lparr>ms_name = raw_name r, ms_timeout_ms = raw_timeout_ms r, ms_transport = t\<rparr>"
    using assms by (auto simp: mcp_server_try_from_def rbind_eq_Inr split: if_splits)
  then show ?thesis
    using wire_complete [of s] raw_transport_complete [of r t]
    by (cases t) (simp_all add: mcp_server_try_from_def, simp_all add: mcp_server_wire_def)
qed

definition sample_raw :: mcp_server_raw where
  "sample_raw = \<lparr>raw_name = ''docs'', raw_transport = Some '' HTTP '', raw_command = None, raw_args = [], raw_env = [],
     raw_cwd = None, raw_url = Some ''http://h/mcp'', raw_headers = [], raw_auth = None, raw_timeout_ms = 20000\<rparr>"

theorem mcp_server_reads_back_witness:
  "\<exists>s. mcp_server_try_from sample_raw = Inr s \<and> mcp_server_try_from (mcp_server_wire s) = Inr s"
proof -
  have "is_ok (mcp_server_try_from sample_raw)" by code_simp
  then show ?thesis using mcp_server_reads_back by (auto simp: is_ok_iff)
qed

section \<open>What a valid configuration guarantees\<close>

lemma validate_servers_ok:
  "validate_servers u names ss = Inr () \<Longrightarrow> distinct (map ms_name ss) \<and> set (map ms_name ss) \<inter> set names = {}
     \<and> (\<forall>s\<in>set ss. \<not> is_blank (ms_name s) \<and> ms_timeout_ms s \<noteq> 0)"
  by (induction u names ss rule: validate_servers.induct) (auto simp: rbind_eq_Inr split: if_splits)

lemma check_money_unit_ok: "check_money_unit D l unit = Inr () \<longleftrightarrow> validate_currency unit = Inr ()"
  by (cases "validate_currency unit") (auto simp: check_money_unit_def money_new_def)

lemma validate_config_parts:
  assumes "validate_config D u c = Inr ()"
  shows "validate_provider (cfg_provider c) = Inr ()" "validate_limits (cfg_limits c) = Inr ()"
    "validate_billing D (cfg_billing c) = Inr ()" "validate_max_cost D (cfg_billing c) (cfg_limits c) = Inr ()"
    "validate_servers u [] (cfg_mcp c) = Inr ()" "validate_billing_mcp c = Inr ()"
    "validate_shape (cfg_event_mcp c) = Inr ()" "validate_access_config (cfg_access c) (map ms_name (cfg_mcp c)) = Inr ()"
  using assms by (auto simp: validate_config_def rbind_eq_Inr map_err_eq_Inr)

text \<open>
  What a run relies on holds for every configuration that validates: the limits and the
  history budgets are positive, the provider's resolver and the ledger of costs accept the billing
  section, the middleware section has a valid shape, an access section is present, and the MCP
  servers have distinct names none of which is a built-in tool server.
\<close>

theorem validated_config_ready:
  assumes "validate_config D u c = Inr ()"
  shows "max_iterations (cfg_limits c) \<noteq> 0 \<and> max_tokens (cfg_limits c) \<noteq> 0 \<and> max_duration_sec (cfg_limits c) \<noteq> 0
    \<and> max_tail_messages (pv_history (cfg_provider c)) \<noteq> 0 \<and> max_chars (pv_history (cfg_provider c)) \<noteq> 0
    \<and> is_ok (provider_reported_new (bc_currency (cfg_billing c)) (prc_unit (bc_provider_reported (cfg_billing c))))
    \<and> is_ok (tracker_new D (bc_currency (cfg_billing c)) (max_cost (cfg_limits c)))
    \<and> validate_shape (cfg_event_mcp c) = Inr () \<and> cfg_access c \<noteq> None
    \<and> distinct (map ms_name (cfg_mcp c)) \<and> (\<forall>s\<in>set (cfg_mcp c). \<not> is_builtin_server (ms_name s))"
proof -
  note parts = validate_config_parts [OF assms]
  have b: "validate_currency (bc_currency (cfg_billing c)) = Inr ()"
      "case prc_unit (bc_provider_reported (cfg_billing c)) of Some unit \<Rightarrow> validate_currency unit = Inr () | None \<Rightarrow> True"
    using parts(3) by (auto simp: validate_billing_def rbind_eq_Inr check_money_unit_ok split: if_splits option.splits)
  then have "is_ok (provider_reported_new (bc_currency (cfg_billing c)) (prc_unit (bc_provider_reported (cfg_billing c))))"
    by (auto simp: provider_reported_new_def split: option.splits)
  moreover have "is_ok (tracker_new D (bc_currency (cfg_billing c)) (max_cost (cfg_limits c)))"
    using b(1) parts(4) by (auto simp: tracker_new_def validate_max_cost_def split: option.splits if_splits)
  moreover have "cfg_access c \<noteq> None \<and> (\<forall>s\<in>set (cfg_mcp c). \<not> is_builtin_server (ms_name s))"
    using parts(8) by (auto simp: validate_access_config_def rbind_eq_Inr try_all_ok split: option.splits if_splits)
  ultimately show ?thesis
    using parts(1,2,7) validate_servers_ok [OF parts(5)]
    by (auto simp: validate_provider_def validate_limits_def split: if_splits)
qed

lemma bootstrap_access: "validate_access_config (Some minimal_profile) [] = Inr ()"
proof -
  have "validate_builtins_list [''home.list'', ''home.read'', ''home.write''] = Inr ()"
    by (simp add: validate_builtins_list_def builtin_parses known_builtin_iff known_names qualified_name_def)
  then show ?thesis
    by (simp add: validate_access_config_def minimal_profile_def run_default_def sample_parts validate_run_limits_def
        validate_relative_grant_list_def validate_workspace_section_def validate_program_aliases_def)
qed

lemma bootstrap_validates:
  "validate_config nat_decimal (\<lambda>_. Inl ''no url'') (bootstrap_app_config :: nat app_config) = Inr ()"
  by (simp add: validate_config_def bootstrap_app_config_def bootstrap_access validate_provider_def validate_limits_def
      validate_billing_def check_money_unit_def money_new_def validate_currency_def check_pointer_def validate_max_cost_def
      validate_billing_mcp_def validate_shape_def event_config_default_def not_blank_visible visible_def history_default_def
      billing_default_def provider_reported_default_def is_ascii_alnum_def is_ascii_upper_def is_ascii_lower_def is_ascii_digit_def)

theorem validated_config_ready_witness:
  "max_iterations (cfg_limits (bootstrap_app_config :: nat app_config)) \<noteq> 0"
  using validated_config_ready [OF bootstrap_validates] by blast

section \<open>Saving and loading\<close>

text \<open>What \<open>serde\<close> promises for one configuration: what it prints it parses, a comment line in front
  of YAML is ignored.\<close>

definition managed_comment :: string where
  "managed_comment = ''# Managed by agent_Kuibysheff config'' @ [LF]"

definition serde_roundtrip :: "'d config_formats \<Rightarrow> 'd app_config \<Rightarrow> bool" where
  "serde_roundtrip F c \<longleftrightarrow>
     (case json_to_string_pretty F c of Inr t \<Rightarrow> utf8_valid t \<and> json_from_str F t = Inr c | Inl _ \<Rightarrow> True)
     \<and> (case yaml_to_string F c of Inr t \<Rightarrow> utf8_valid t \<and> yaml_from_str F (managed_comment @ t) = Inr c | Inl _ \<Rightarrow> True)"

lemma contents_parse:
  assumes "serde_roundtrip F c" and "config_contents F p c = Inr t"
  shows "utf8_valid t \<and> parse_config_payload F t p = Inr c"
proof (cases "config_extension p = ''json''")
  case True
  then show ?thesis
    using assms by (auto simp: config_contents_def parse_config_payload_def serde_roundtrip_def map_err_eq_Inr split: sum.splits)
next
  case False
  then obtain b where b: "yaml_to_string F c = Inr b" "t = managed_comment @ b"
    using assms(2) by (auto simp: config_contents_def managed_comment_def rbind_eq_Inr map_err_eq_Inr)
  have "utf8_valid managed_comment" by code_simp
  then show ?thesis
    using False b assms(1) by (auto simp: parse_config_payload_def serde_roundtrip_def Let_def utf8_valid_append)
qed


definition sample_formats :: "nat config_formats" where
  "sample_formats = \<lparr>json_from_str = (\<lambda>_. Inl ''json''), yaml_from_str = (\<lambda>_. Inr bootstrap_app_config),
     json_to_string_pretty = (\<lambda>_. Inl ''json''), yaml_to_string = (\<lambda>_. Inr ''provider:'')\<rparr>"

definition empty_disk :: disk where
  "empty_disk = \<lparr>entries = (\<lambda>_. None), faults = (\<lambda>_. None), performed = 0\<rparr>"


end
