(* ===== verification/Effects.thy ===== *)
theory Effects
  imports Std_Files Project_Paths
begin

text \<open>
  Code that acts on the operating system: sequences of operations that may fail, over a world
  that every operation may change. The interface to the operating system is a record; \<open>runs\<close> is a
  small program logic that bounds what a sequence does to the world.
\<close>

section \<open>Sequences\<close>

definition io_return :: "'a \<Rightarrow> 'w \<Rightarrow> ('e + 'a) \<times> 'w" where
  "io_return x w = (Inr x, w)"

definition io_fail :: "'e \<Rightarrow> 'w \<Rightarrow> ('e + 'a) \<times> 'w" where
  "io_fail e w = (Inl e, w)"

definition io_ask :: "('w \<Rightarrow> 'a) \<Rightarrow> 'w \<Rightarrow> ('e + 'a) \<times> 'w" where
  "io_ask f w = (Inr (f w), w)"

text \<open>A pure check within a sequence, and a look at the result of an operation.\<close>

definition io_lift :: "'e + 'a \<Rightarrow> 'w \<Rightarrow> ('e + 'a) \<times> 'w" where
  "io_lift r w = (r, w)"

definition io_match :: "('w \<Rightarrow> ('e + 'a) \<times> 'w) \<Rightarrow> ('e \<Rightarrow> 'w \<Rightarrow> ('f + 'b) \<times> 'w) \<Rightarrow> ('a \<Rightarrow> 'w \<Rightarrow> ('f + 'b) \<times> 'w)
    \<Rightarrow> 'w \<Rightarrow> ('f + 'b) \<times> 'w" where
  "io_match act failed ok w = (case act w of (Inl e, w) \<Rightarrow> failed e w | (Inr x, w) \<Rightarrow> ok x w)"

lemmas sequence_defs = io_return_def io_fail_def io_ask_def io_lift_def io_match_def io_then_def io_map_err_def

section \<open>The operating system\<close>

datatype file_kind = RegularFile | Directory | SymbolicLink | OtherKind

text \<open>An entry of a directory: its name and its type, which may not be readable.\<close>

type_synonym dir_item = "io_error + (string \<times> (io_error + file_kind))"

record 'w os =
  os_canonicalize :: "path \<Rightarrow> 'w \<Rightarrow> (io_error + path) \<times> 'w"
  os_metadata :: "path \<Rightarrow> 'w \<Rightarrow> (io_error + file_kind) \<times> 'w"
  os_symlink_metadata :: "path \<Rightarrow> 'w \<Rightarrow> (io_error + file_kind) \<times> 'w"
  os_read_dir :: "path \<Rightarrow> 'w \<Rightarrow> (io_error + dir_item list) \<times> 'w"
  os_open :: "path \<Rightarrow> 'w \<Rightarrow> (io_error + (string + string) list) \<times> 'w"
  os_create_dir :: "path \<Rightarrow> 'w \<Rightarrow> (io_error + unit) \<times> 'w"
  os_create_dir_all :: "path \<Rightarrow> 'w \<Rightarrow> (io_error + unit) \<times> 'w"
  os_write :: "path \<Rightarrow> string \<Rightarrow> 'w \<Rightarrow> (io_error + unit) \<times> 'w"
  os_open_append :: "path \<Rightarrow> 'w \<Rightarrow> (io_error + unit) \<times> 'w"
  os_append :: "path \<Rightarrow> string \<Rightarrow> 'w \<Rightarrow> (io_error + unit) \<times> 'w"
  os_read_to_string :: "path \<Rightarrow> 'w \<Rightarrow> (io_error + string) \<times> 'w"
  os_rename :: "path \<Rightarrow> path \<Rightarrow> 'w \<Rightarrow> (io_error + unit) \<times> 'w"
  os_remove_file :: "path \<Rightarrow> 'w \<Rightarrow> (io_error + unit) \<times> 'w"
  os_remove_dir_all :: "path \<Rightarrow> 'w \<Rightarrow> (io_error + unit) \<times> 'w"

text \<open>\<open>Path::exists\<close>; some resolution of \<open>p\<close> ends at \<open>canonical\<close>.\<close>

definition os_exists :: "'w os \<Rightarrow> path \<Rightarrow> 'w \<Rightarrow> ('e + bool) \<times> 'w" where
  "os_exists F p = io_match (os_metadata F p) (\<lambda>_. io_return False) (\<lambda>_. io_return True)"

definition resolves :: "'w os \<Rightarrow> path \<Rightarrow> path \<Rightarrow> bool" where
  "resolves F p canonical \<longleftrightarrow> (\<exists>w. fst (os_canonicalize F p w) = Inr canonical)"

section \<open>Names and joins\<close>

text \<open>A name that is one component of a path, and nothing special.\<close>

definition plain_name :: "string \<Rightarrow> bool" where
  "plain_name n \<longleftrightarrow> CHR ''/'' \<notin> set n \<and> n \<noteq> [] \<and> n \<noteq> ''.'' \<and> n \<noteq> ''..''"

lemma plain_component: "Normal n \<in> set (components q) \<Longrightarrow> plain_name n"
  using normal_component by (simp add: plain_name_def)

lemma file_name_plain: "path_file_name p = Some n \<Longrightarrow> plain_name n"
  using plain_component [of n p] by (auto simp: path_file_name_def rev_eq_Cons_iff split: list.splits component.splits)

lemma starts_with_join_plain: "path_starts_with p root \<Longrightarrow> plain_name n \<Longrightarrow> path_starts_with (path_join p n) root"
  by (simp add: path_starts_with_def plain_name_def components_join_plain)

lemma starts_with_join: "path_starts_with p root \<Longrightarrow> \<not> is_absolute q \<Longrightarrow> path_starts_with (path_join p q) root"
  by (cases "p = []") (auto simp: path_starts_with_def components_join_relative)

lemma starts_with_parent:
  "path_starts_with p root \<Longrightarrow> plain_name n \<Longrightarrow> path_parent (path_join p n) = Some q \<Longrightarrow> path_starts_with q root"
  by (auto simp: path_starts_with_def plain_name_def components_join_plain dest!: path_parent_prefix)

section \<open>What a sequence does\<close>

text \<open>
  \<open>runs S P act\<close>: the world changes by steps of \<open>S\<close> only, and a result satisfies \<open>P\<close>.
\<close>

definition runs :: "('w \<Rightarrow> 'w \<Rightarrow> bool) \<Rightarrow> ('a \<Rightarrow> bool) \<Rightarrow> ('w \<Rightarrow> ('e + 'a) \<times> 'w) \<Rightarrow> bool" where
  "runs S P act \<longleftrightarrow> (\<forall>w r w'. act w = (r, w') \<longrightarrow> S\<^sup>*\<^sup>* w w' \<and> (\<forall>x. r = Inr x \<longrightarrow> P x))"

named_theorems runs_intros \<open>rules of the program logic\<close>

lemma runs_match [runs_intros]:
  assumes a: "runs S P act" and f: "\<And>e. runs S Q (failed e)" and o: "\<And>x. P x \<Longrightarrow> runs S Q (ok x)"
  shows "runs S Q (io_match act failed ok)"
  unfolding runs_def
proof (intro allI impI)
  fix w r w'
  assume run: "io_match act failed ok w = (r, w')"
  obtain ra w1 where act: "act w = (ra, w1)" by fastforce
  then have s: "S\<^sup>*\<^sup>* w w1" and p: "\<And>x. ra = Inr x \<Longrightarrow> P x" using a by (auto simp: runs_def)
  have "S\<^sup>*\<^sup>* w1 w' \<and> (\<forall>x. r = Inr x \<longrightarrow> Q x)"
  proof (cases ra)
    case (Inl e)
    then show ?thesis using run act f [of e] by (auto simp: io_match_def runs_def)
  next
    case (Inr x)
    then show ?thesis using run act o [OF p [OF Inr]] by (auto simp: io_match_def runs_def)
  qed
  then show "S\<^sup>*\<^sup>* w w' \<and> (\<forall>x. r = Inr x \<longrightarrow> Q x)" using s by (meson rtranclp_trans)
qed

lemma io_then_match: "io_then act k = io_match act io_fail k"
  by (auto simp: io_then_def io_match_def io_fail_def fun_eq_iff split: prod.splits sum.splits)

lemma runs_fail [runs_intros]: "runs S P (io_fail e)"
  by (simp add: runs_def io_fail_def)

lemma runs_then [runs_intros]: "runs S P act \<Longrightarrow> (\<And>x. P x \<Longrightarrow> runs S Q (k x)) \<Longrightarrow> runs S Q (io_then act k)"
  unfolding io_then_match by (rule runs_match [where P = P]) (simp_all add: runs_fail)

lemma runs_map_err [runs_intros]: "runs S P act \<Longrightarrow> runs S P (io_map_err f act)"
  by (fastforce simp: runs_def io_map_err_def map_err_eq_Inr split: prod.splits)

lemma runs_return [runs_intros]: "P x \<Longrightarrow> runs S P (io_return x)"
  by (simp add: runs_def io_return_def)

lemma runs_ask [runs_intros]: "runs S (\<lambda>_. True) (io_ask f)"
  by (simp add: runs_def io_ask_def)

lemma runs_lift [runs_intros]: "runs S (\<lambda>x. r = Inr x) (io_lift r)"
  by (simp add: runs_def io_lift_def)

lemma runs_step: "(\<And>w. S w (snd (act w))) \<Longrightarrow> runs S (\<lambda>_. True) act"
  unfolding runs_def by (metis r_into_rtranclp snd_conv)

lemma runs_result: "(\<And>w. S w (snd (act w))) \<Longrightarrow> runs S (\<lambda>x. \<exists>w. fst (act w) = Inr x) act"
  unfolding runs_def by (metis fst_conv r_into_rtranclp snd_conv)

lemma runs_weaken: "runs S P act \<Longrightarrow> (\<And>x. P x \<Longrightarrow> Q x) \<Longrightarrow> runs S Q act"
  by (fastforce simp: runs_def)

lemma runs_if [runs_intros]: "(b \<Longrightarrow> runs S P a) \<Longrightarrow> (\<not> b \<Longrightarrow> runs S P c) \<Longrightarrow> runs S P (if b then a else c)"
  by simp

lemma runs_world: "runs S P act \<Longrightarrow> S\<^sup>*\<^sup>* w (snd (act w))"
  by (cases "act w") (auto simp: runs_def)

section \<open>Fuel\<close>

text \<open>An action that never runs out of fuel.\<close>

definition ends :: "('w \<Rightarrow> ('e option + 'a) \<times> 'w) \<Rightarrow> bool" where
  "ends act \<longleftrightarrow> (\<forall>w. fst (act w) \<noteq> Inl None)"

named_theorems ends_intros

lemma ends_match:
  assumes f: "\<And>e. ends (f e)" and k: "\<And>x w w'. act w = (Inr x, w') \<Longrightarrow> ends (k x)"
  shows "ends (io_match act f k)"
  unfolding ends_def
proof
  fix w
  obtain r w' where act: "act w = (r, w')" by fastforce
  show "fst (io_match act f k w) \<noteq> Inl None"
    using f k [of w _ w'] act by (cases r) (simp_all add: io_match_def ends_def)
qed

lemma ends_then:
  assumes a: "ends act" and k: "\<And>x w w'. act w = (Inr x, w') \<Longrightarrow> ends (k x)"
  shows "ends (io_then act k)"
  unfolding ends_def
proof
  fix w
  obtain r w' where act: "act w = (r, w')" by fastforce
  show "fst (io_then act k w) \<noteq> Inl None"
    using a [unfolded ends_def, rule_format, of w] k [of w _ w'] act by (cases r) (simp_all add: io_then_def ends_def)
qed

lemma ends_return [ends_intros]: "ends (io_return x)"
  by (simp add: ends_def io_return_def)

lemma ends_if [ends_intros]: "(b \<Longrightarrow> ends f) \<Longrightarrow> (\<not> b \<Longrightarrow> ends g) \<Longrightarrow> ends (if b then f else g)"
  by simp

lemmas ends_rules = ends_intros ends_then ends_match

end
