(* ===== verification/Skill_Package.thy ===== *)
theory Skill_Package
  imports Effects Project_Paths Skills_Dsl Profile_Files
begin

text \<open>
  Skill folders (\<open>src/skills/package.rs\<close>): where they are, how they are checked and indexed, and the
  commands that write them. \<open>uni\<close> is \<open>char::is_alphanumeric\<close> beyond ASCII. The walk of a folder
  takes fuel, a bound on its depth; the error \<open>None\<close> stands for its end.
\<close>

section \<open>Names and paths\<close>

definition SKILL_PACKAGES_DIR :: string where "SKILL_PACKAGES_DIR = ''skills''"
definition SKILL_BODY_FILE :: string where "SKILL_BODY_FILE = ''skill.md''"

record skill_file_entry =
  sf_relative :: string
  sf_canonical :: path

record skill_package =
  pk_name :: string
  pk_root :: path
  pk_body :: string
  pk_files :: "skill_file_entry list"

type_synonym package_error = "settings_error option"

definition invalid :: "string \<Rightarrow> package_error" where
  "invalid message = Some (InvalidSkillPackage message)"

definition read_failed :: "path \<Rightarrow> io_error \<Rightarrow> package_error" where
  "read_failed p e = Some (SettingsRead p e)"

definition write_failed :: "path \<Rightarrow> io_error \<Rightarrow> package_error" where
  "write_failed p e = Some (SettingsWrite p e)"

definition WINDOWS_RESERVED :: "string list" where
  "WINDOWS_RESERVED = [''CON'', ''PRN'', ''AUX'', ''NUL'', ''COM1'', ''COM2'', ''COM3'', ''COM4'', ''COM5'', ''COM6'',
     ''COM7'', ''COM8'', ''COM9'', ''LPT1'', ''LPT2'', ''LPT3'', ''LPT4'', ''LPT5'', ''LPT6'', ''LPT7'', ''LPT8'', ''LPT9'']"

definition is_windows_reserved :: "string \<Rightarrow> bool" where
  "is_windows_reserved name \<longleftrightarrow>
     list_ex (\<lambda>r. map to_ascii_lower (hd (split_on (CHR ''.'') name)) = map to_ascii_lower r) WINDOWS_RESERVED"

definition NAME_CHARS_MSG :: string where
  "NAME_CHARS_MSG = ''skill directory name must start with a letter or digit and contain only letters, digits, spaces, '' @ [CHR 0x27, CHR ''_'', CHR 0x27] @ '' or '' @ [CHR 0x27, CHR ''-'', CHR 0x27]"

definition validate_skill_dir_name :: "(string \<Rightarrow> bool) \<Rightarrow> string \<Rightarrow> string + unit" where
  "validate_skill_dir_name uni name =
     (if name = [] \<or> name \<noteq> trim name
      then Inl ''skill directory name must not be empty or have surrounding whitespace''
      else (case utf8_chars name of
          [] \<Rightarrow> Inl ''skill directory name must not be empty''
        | first # rest \<Rightarrow>
            (if \<not> is_alphanumeric uni first then Inl NAME_CHARS_MSG
             else if \<not> list_all (\<lambda>c. is_alphanumeric uni c \<or> c = ''_'' \<or> c = ''-'' \<or> c = '' '') rest then Inl NAME_CHARS_MSG
             else if is_windows_reserved name then Inl (''skill directory name `'' @ name @ ''` is reserved'')
             else Inr ())))"

text \<open>\<open>path.split(['/', '\'])\<close>.\<close>

definition split_slashes :: "string \<Rightarrow> string list" where
  "split_slashes p = concat (map (split_on (CHR 0x5C)) (split_on (CHR ''/'') p))"

definition check_skill_part :: "string \<Rightarrow> string + unit" where
  "check_skill_part part =
     (if part = [] \<or> part = ''.'' \<or> part = ''..'' then Inl ''skill file path must stay inside the skill directory''
      else if last part = CHR '' '' \<or> last part = CHR ''.''
      then Inl (''skill file path component `'' @ part @ ''` is not allowed'')
      else if list_ex (\<lambda>c. is_control c \<or> reserved_char c) (utf8_chars part)
      then Inl (''skill file path component `'' @ part @ ''` is not allowed'')
      else if is_windows_reserved part then Inl (''skill file path component `'' @ part @ ''` is reserved'')
      else Inr ())"

definition validate_relative_skill_path :: "path \<Rightarrow> string + unit" where
  "validate_relative_skill_path p =
     (if p = [] \<or> prefix ''/'' p \<or> prefix [CHR 0x5C] p \<or> CHR 0x00 \<in> set p then Inl ''skill file path must be relative''
      else if split_slashes p = [] then Inl ''skill file path must name a file''
      else rbind (try_all check_skill_part (split_slashes p)) (\<lambda>_.
        if is_absolute p \<or> list_ex (\<lambda>c. c = ParentDir \<or> c = RootDir) (components p)
        then Inl ''skill file path must stay inside the skill directory'' else Inr ()))"

text \<open>\<open>runtime_skills_dir_from_settings_dir\<close> reads the path from its end.\<close>

definition parent_named :: "path \<Rightarrow> string \<Rightarrow> path option" where
  "parent_named p name = Option.bind (path_parent p) (\<lambda>q. if path_file_name q = Some name then Some q else None)"

definition runtime_skills_dir_from_settings_dir :: "(string \<Rightarrow> bool) \<Rightarrow> path \<Rightarrow> path option" where
  "runtime_skills_dir_from_settings_dir uni dir =
     Option.bind (path_file_name dir) (\<lambda>agent_id.
       if \<not> utf8_valid agent_id \<or> \<not> is_ok (validate_agent_id uni agent_id) then None
       else Option.bind (parent_named dir AGENTS_DIR) (\<lambda>agents.
         Option.bind (parent_named agents PROTECTED_DIR) (\<lambda>protected.
         Option.bind (parent_named protected KUIBYSHEFF_DIR) (\<lambda>kuibysheff.
         Option.bind (path_parent kuibysheff) (\<lambda>root.
         case agent_runtime_skills_dir uni root agent_id of Inr p \<Rightarrow> Some p | Inl _ \<Rightarrow> None)))))"

definition effective_skill_packages_root :: "(string \<Rightarrow> bool) \<Rightarrow> path \<Rightarrow> path" where
  "effective_skill_packages_root uni dir =
     option_or (runtime_skills_dir_from_settings_dir uni dir) (path_join dir SKILL_PACKAGES_DIR)"

definition skill_dir_for_write :: "(string \<Rightarrow> bool) \<Rightarrow> path \<Rightarrow> string \<Rightarrow> path" where
  "skill_dir_for_write uni dir name = path_join (effective_skill_packages_root uni dir) name"

section \<open>The index\<close>

definition no_symlink :: "path \<Rightarrow> package_error" where
  "no_symlink p = invalid (''`'' @ p @ ''` must not be a symlink'')"

definition folder_of_skills :: "path \<Rightarrow> package_error" where
  "folder_of_skills p = invalid (''`'' @ p @ ''` must be a directory of skill folders'')"

definition packages_root_for_load :: "'w os \<Rightarrow> (string \<Rightarrow> bool) \<Rightarrow> path \<Rightarrow> 'w \<Rightarrow> (package_error + path) \<times> 'w" where
  "packages_root_for_load F uni dir = (let legacy = path_join dir SKILL_PACKAGES_DIR in
     case runtime_skills_dir_from_settings_dir uni dir of
       None \<Rightarrow> io_return legacy
     | Some preferred \<Rightarrow> io_match (os_symlink_metadata F preferred)
         (\<lambda>e. if not_found e then io_return legacy else io_fail (read_failed preferred e))
         (\<lambda>kind. if kind = SymbolicLink then io_fail (no_symlink preferred)
            else if kind \<noteq> Directory then io_fail (folder_of_skills preferred) else io_return preferred))"

text \<open>One entry of a folder: a file of the index, or \<open>None\<close> for a directory to walk.\<close>

definition walk_entry :: "'w os \<Rightarrow> path \<Rightarrow> path \<Rightarrow> string \<Rightarrow> string \<Rightarrow> 'w \<Rightarrow> (package_error + string \<times> path option) \<times> 'w" where
  "walk_entry F root dir pre name = (let p = path_join dir name in
     io_then (io_map_err (read_failed p) (os_symlink_metadata F p)) (\<lambda>kind.
     if kind = SymbolicLink then io_fail (invalid (''skill file `'' @ p @ ''` must not be a symlink''))
     else if \<not> utf8_valid name then io_fail (invalid (''skill file `'' @ p @ ''` is not valid UTF-8''))
     else if name = [] \<or> name = ''.'' \<or> name = ''..'' then io_fail (invalid (''skill file `'' @ p @ ''` has an unsafe name''))
     else (let relative = (if pre = [] then name else pre @ ''/'' @ name) in
       io_then (io_lift (map_err invalid (validate_relative_skill_path relative))) (\<lambda>_.
       if kind = Directory then io_return (relative, None)
       else if kind \<noteq> RegularFile then io_fail (invalid (''skill entry `'' @ p @ ''` is not a file''))
       else io_then (io_map_err (read_failed p) (os_canonicalize F p)) (\<lambda>canonical.
         if \<not> path_starts_with canonical root
         then io_fail (invalid (''skill file `'' @ p @ ''` escapes the skill directory''))
         else io_return (relative, Some canonical))))))"

fun walk_files :: "nat \<Rightarrow> 'w os \<Rightarrow> path \<Rightarrow> path \<Rightarrow> string \<Rightarrow> skill_file_entry list \<Rightarrow> 'w
      \<Rightarrow> (package_error + skill_file_entry list) \<times> 'w"
  and walk_entries :: "nat \<Rightarrow> 'w os \<Rightarrow> path \<Rightarrow> path \<Rightarrow> string \<Rightarrow> dir_item list \<Rightarrow> skill_file_entry list \<Rightarrow> 'w
      \<Rightarrow> (package_error + skill_file_entry list) \<times> 'w" where
  "walk_files 0 F root dir pre out = io_fail None"
| "walk_files (Suc fuel) F root dir pre out =
     io_then (io_map_err (read_failed dir) (os_read_dir F dir)) (\<lambda>items. walk_entries fuel F root dir pre items out)"
| "walk_entries fuel F root dir pre [] out = io_return out"
| "walk_entries fuel F root dir pre (Inl e # items) out = io_fail (read_failed dir e)"
| "walk_entries fuel F root dir pre (Inr (name, k) # items) out =
     io_then (walk_entry F root dir pre name) (\<lambda>(relative, file).
       case file of
         None \<Rightarrow> io_then (walk_files fuel F root (path_join dir name) relative out)
           (\<lambda>out. walk_entries fuel F root dir pre items out)
       | Some canonical \<Rightarrow> walk_entries fuel F root dir pre items
           (out @ [\<lparr>sf_relative = relative, sf_canonical = canonical\<rparr>]))"

definition load_body :: "'w os \<Rightarrow> string \<Rightarrow> path \<Rightarrow> skill_file_entry list \<Rightarrow> 'w \<Rightarrow> (package_error + skill_package) \<times> 'w" where
  "load_body F name root files = (case find (\<lambda>f. sf_relative f = SKILL_BODY_FILE) files of
     None \<Rightarrow> io_fail (invalid (''skill `'' @ name @ ''` is missing '' @ SKILL_BODY_FILE))
   | Some entry \<Rightarrow>
       io_then (io_map_err (read_failed (sf_canonical entry)) (os_read_to_string F (sf_canonical entry))) (\<lambda>body.
       if trim body = [] then io_fail (invalid (''skill `'' @ name @ ''` '' @ SKILL_BODY_FILE @ '' must not be empty''))
       else io_return \<lparr>pk_name = name, pk_root = root, pk_body = body, pk_files = files\<rparr>))"

definition load_one :: "nat \<Rightarrow> 'w os \<Rightarrow> path \<Rightarrow> string \<Rightarrow> 'w \<Rightarrow> (package_error + skill_package) \<times> 'w" where
  "load_one fuel F dir name =
     io_then (io_map_err (read_failed dir) (os_canonicalize F dir)) (\<lambda>root.
     io_then (walk_files fuel F root root [] []) (\<lambda>found. load_body F name root (sort_key sf_relative found)))"

text \<open>A \<open>BTreeMap\<close> by package name, as the list of its entries in order.\<close>

type_synonym skill_packages = "(string \<times> skill_package) list"

definition insert_package :: "skill_package \<Rightarrow> skill_packages \<Rightarrow> skill_packages" where
  "insert_package p m = insort_key fst (pk_name p, p) (filter (\<lambda>kv. fst kv \<noteq> pk_name p) m)"

fun load_entries :: "nat \<Rightarrow> 'w os \<Rightarrow> (string \<Rightarrow> bool) \<Rightarrow> path \<Rightarrow> dir_item list \<Rightarrow> skill_packages \<Rightarrow> 'w
    \<Rightarrow> (package_error + skill_packages) \<times> 'w" where
  "load_entries fuel F uni root [] packages = io_return packages"
| "load_entries fuel F uni root (Inl e # items) packages = io_fail (read_failed root e)"
| "load_entries fuel F uni root (Inr (name, k) # items) packages = (let p = path_join root name in
     io_then (io_map_err (read_failed p) (os_symlink_metadata F p)) (\<lambda>kind.
     if kind = SymbolicLink then io_fail (invalid (''skill entry `'' @ p @ ''` must not be a symlink''))
     else if kind \<noteq> Directory
     then io_fail (invalid (''`'' @ p @ ''` must be a skill directory (skill.md plus companion files)''))
     else if \<not> utf8_valid name then io_fail (invalid (''skill directory `'' @ p @ ''` is not valid UTF-8''))
     else io_then (io_lift (map_err invalid (validate_skill_dir_name uni name))) (\<lambda>_.
       io_then (load_one fuel F p name) (\<lambda>package.
       load_entries fuel F uni root items (insert_package package packages)))))"

definition load_skill_packages :: "nat \<Rightarrow> 'w os \<Rightarrow> (string \<Rightarrow> bool) \<Rightarrow> path \<Rightarrow> 'w \<Rightarrow> (package_error + skill_packages) \<times> 'w" where
  "load_skill_packages fuel F uni dir =
     io_then (packages_root_for_load F uni dir) (\<lambda>root.
     io_match (os_symlink_metadata F root)
       (\<lambda>e. if not_found e then io_return [] else io_fail (read_failed root e))
       (\<lambda>kind. if kind = SymbolicLink then io_fail (no_symlink root)
          else if kind \<noteq> Directory then io_fail (folder_of_skills root)
          else io_then (io_map_err (read_failed root) (os_read_dir F root)) (\<lambda>items.
            load_entries fuel F uni root items [])))"

definition validate_packages_match_catalog :: "skill_packages \<Rightarrow> skill_definition list \<Rightarrow> skills_error + unit" where
  "validate_packages_match_catalog packages skills =
     try_all (\<lambda>(name, _). if list_ex (\<lambda>s. sk_name s = name) skills then Inr () else Inl (UndeclaredPackage name)) packages"

definition catalog_from_settings :: "string \<Rightarrow> skill_packages \<Rightarrow> skills_error + skill_definition list" where
  "catalog_from_settings source packages = rbind (parse_skills source) (\<lambda>skills.
     rbind (validate_packages_match_catalog packages skills) (\<lambda>_. Inr skills))"

section \<open>A loaded package is well formed\<close>

text \<open>Every operation is allowed here: only the results matter.\<close>

abbreviation gives :: "('a \<Rightarrow> bool) \<Rightarrow> ('w \<Rightarrow> ('e + 'a) \<times> 'w) \<Rightarrow> bool" where
  "gives P act \<equiv> runs (\<lambda>_ _. True) P act"

lemma gives_any: "gives (\<lambda>_. True) act"
  by (rule runs_step) simp

lemma gives_result: "gives (\<lambda>x. \<exists>w. fst (act w) = Inr x) act"
  by (rule runs_result) simp

definition indexed :: "'w os \<Rightarrow> path \<Rightarrow> skill_file_entry \<Rightarrow> bool" where
  "indexed F root f \<longleftrightarrow> validate_relative_skill_path (sf_relative f) = Inr () \<and> path_starts_with (sf_canonical f) root
     \<and> (\<exists>p. resolves F p (sf_canonical f))"

definition wf_package :: "'w os \<Rightarrow> skill_package \<Rightarrow> bool" where
  "wf_package F p \<longleftrightarrow> list_all (indexed F (pk_root p)) (pk_files p) \<and> sorted (map sf_relative (pk_files p))
     \<and> trim (pk_body p) \<noteq> [] \<and> (\<exists>f\<in>set (pk_files p). sf_relative f = SKILL_BODY_FILE
          \<and> (\<exists>w. fst (os_read_to_string F (sf_canonical f) w) = Inr (pk_body p)))"

lemma walk_entry_gives: "gives (\<lambda>(relative, file). validate_relative_skill_path relative = Inr ()
    \<and> (\<forall>c. file = Some c \<longrightarrow> path_starts_with c root \<and> (\<exists>p. resolves F p c))) (walk_entry F root dir pre name)"
  unfolding walk_entry_def Let_def resolves_def
  by (rule runs_intros runs_then [OF runs_map_err [OF gives_any]] gives_result | simp add: map_err_eq_Inr | blast)+

lemma walk_gives:
  "list_all (indexed F root) out \<Longrightarrow> gives (list_all (indexed F root)) (walk_files fuel F root dir pre out)"
  "list_all (indexed F root) out \<Longrightarrow> gives (list_all (indexed F root)) (walk_entries fuel F root dir pre items out)"
proof (induction fuel F root dir pre out and fuel F root dir pre items out rule: walk_files_walk_entries.induct)
  case (2 fuel F root dir pre out)
  then show ?case by (auto intro!: runs_then [OF runs_map_err [OF gives_any]])
next
  case (5 fuel F root dir pre name k items out)
  show ?case
    unfolding walk_entries.simps
  proof (rule runs_then [OF walk_entry_gives], clarify)
    fix relative found
    assume v: "validate_relative_skill_path relative = Inr ()"
      and f: "\<forall>c. found = Some c \<longrightarrow> path_starts_with c root \<and> (\<exists>p. resolves F p c)"
    show "gives (list_all (indexed F root)) (case found of
        None \<Rightarrow> io_then (walk_files fuel F root (path_join dir name) relative out)
          (\<lambda>out. walk_entries fuel F root dir pre items out)
      | Some canonical \<Rightarrow> walk_entries fuel F root dir pre items
          (out @ [\<lparr>sf_relative = relative, sf_canonical = canonical\<rparr>]))"
    proof (cases found)
      case None
      have "gives (list_all (indexed F root)) (walk_files fuel F root (path_join dir name) relative out)"
        using "5.IH"(1) "5.prems" None by simp
      moreover have "gives (list_all (indexed F root)) (walk_entries fuel F root dir pre items out')"
        if "list_all (indexed F root) out'" for out'
        using "5.IH"(2) that None by simp
      ultimately show ?thesis unfolding None option.case by (rule runs_then)
    next
      case (Some c)
      have "indexed F root \<lparr>sf_relative = relative, sf_canonical = c\<rparr>"
        using v f Some by (simp add: indexed_def)
      then show ?thesis using "5.IH"(3) "5.prems" Some by simp
    qed
  qed
qed (simp_all add: runs_return runs_fail)

lemma load_body_gives:
  assumes "list_all (indexed F root) files" and "sorted (map sf_relative files)"
  shows "gives (\<lambda>p. wf_package F p \<and> pk_name p = name \<and> pk_root p = root) (load_body F name root files)"
proof (cases "find (\<lambda>f. sf_relative f = SKILL_BODY_FILE) files")
  case (Some entry)
  then have "entry \<in> set files" "sf_relative entry = SKILL_BODY_FILE"
    by (auto simp: find_Some_iff)
  then show ?thesis
    using assms unfolding load_body_def Some option.case
    by (intro runs_then [OF runs_map_err [OF gives_result]] runs_if runs_fail runs_return) (auto simp: wf_package_def)
qed (simp add: load_body_def runs_fail)

lemma load_one_gives: "gives (\<lambda>p. wf_package F p \<and> pk_name p = name) (load_one fuel F dir name)"
  unfolding load_one_def
proof (rule runs_then [OF runs_map_err [OF gives_any]], rule runs_then [OF walk_gives(1)])
  fix root found
  assume "list_all (indexed F root) found"
  then show "gives (\<lambda>p. wf_package F p \<and> pk_name p = name) (load_body F name root (sort_key sf_relative found))"
    by (intro runs_weaken [OF load_body_gives]) (simp_all add: list_all_iff)
qed simp

definition wf_packages :: "'w os \<Rightarrow> (string \<Rightarrow> bool) \<Rightarrow> skill_packages \<Rightarrow> bool" where
  "wf_packages F uni packages \<longleftrightarrow> sorted_wrt (<) (map fst packages) \<and>
     list_all (\<lambda>(name, p). pk_name p = name \<and> validate_skill_dir_name uni name = Inr () \<and> wf_package F p) packages"

lemma wf_insert_package:
  assumes "wf_packages F uni packages" and "wf_package F p" and "validate_skill_dir_name uni (pk_name p) = Inr ()"
  shows "wf_packages F uni (insert_package p packages)"
proof -
  let ?rest = "filter (\<lambda>kv. fst kv \<noteq> pk_name p) packages"
  have "sorted_wrt (<) (map fst packages)" using assms(1) by (simp add: wf_packages_def)
  then have "sorted (map fst ?rest)" "distinct (map fst ?rest)"
    by (auto simp: strict_sorted_iff sorted_filter distinct_map_filter)
  moreover have "pk_name p \<notin> set (map fst ?rest)" by auto
  ultimately have "sorted_wrt (<) (map fst (insert_package p packages))"
    unfolding insert_package_def strict_sorted_iff
    by (simp add: sorted_insort_key distinct_insort_key)
  then show ?thesis
    using assms by (auto simp: wf_packages_def insert_package_def list_all_iff set_insort_key)
qed

lemma load_entries_gives:
  "wf_packages F uni packages \<Longrightarrow> gives (wf_packages F uni) (load_entries fuel F uni root items packages)"
proof (induction fuel F uni root items packages rule: load_entries.induct)
  case (3 fuel F uni root name k items packages)
  show ?case
    unfolding load_entries.simps Let_def
    by (intro runs_then [OF runs_map_err [OF gives_any]] runs_if runs_fail runs_then [OF runs_lift]
        runs_then [OF load_one_gives] "3.IH") (auto simp: map_err_eq_Inr intro: wf_insert_package "3.prems")
qed (simp_all add: runs_return runs_fail)

lemma load_result_wf:
  assumes "load_skill_packages fuel F uni dir w = (Inr packages, w')"
  shows "wf_packages F uni packages"
proof -
  have "gives (wf_packages F uni) (load_skill_packages fuel F uni dir)"
    unfolding load_skill_packages_def
    by (intro runs_then [OF gives_any] runs_match [OF gives_any] runs_if runs_fail runs_return
        runs_then [OF runs_map_err [OF gives_any]] load_entries_gives)
      (simp_all add: wf_packages_def)
  then show ?thesis using assms unfolding runs_def by blast
qed


text \<open>A folder \<open>r\<close> that holds \<open>skill.md\<close>.\<close>

definition one_skill_os :: "unit os" where
  "one_skill_os = (let kind = (\<lambda>p. if p = ''x/skills'' \<or> p = ''x/skills/r'' then Directory else RegularFile) in
     \<lparr>os_canonicalize = (\<lambda>p. io_return p), os_metadata = (\<lambda>p. io_return (kind p)),
      os_symlink_metadata = (\<lambda>p. io_return (kind p)),
      os_read_dir = (\<lambda>p. if 4096 < length p then io_fail INVALID_DATA
        else if p = ''x/skills'' then io_return [Inr (''r'', Inr Directory)] else io_return [Inr (''skill.md'', Inr RegularFile)]),
      os_open = (\<lambda>p. io_return [Inr ''hi'']), os_create_dir = (\<lambda>p. io_return ()), os_create_dir_all = (\<lambda>p. io_return ()),
      os_write = (\<lambda>p s. io_return ()), os_open_append = (\<lambda>p. io_return ()), os_append = (\<lambda>p s. io_return ()),
      os_read_to_string = (\<lambda>p. io_return ''hi''), os_rename = (\<lambda>p q. io_return ()),
      os_remove_file = (\<lambda>p. io_return ()), os_remove_dir_all = (\<lambda>p. io_return ())\<rparr>)"


section \<open>The walk ends\<close>

text \<open>The limit on the length of a path: listing a longer one fails with \<open>ENAMETOOLONG\<close>.\<close>

definition path_max :: "'w os \<Rightarrow> nat \<Rightarrow> bool" where
  "path_max F n \<longleftrightarrow> (\<forall>p w. n < length p \<longrightarrow> \<not> is_ok (fst (os_read_dir F p w)))"

lemma ends_map_err: "ends (io_map_err (\<lambda>e. Some (f e)) act)"
  by (auto simp: ends_def io_map_err_def map_err_def split: prod.splits sum.splits)

lemma ends_read_failed [ends_intros]: "ends (io_map_err (read_failed p) act)"
  using ends_map_err [of "SettingsRead p" act] by (simp add: read_failed_def [abs_def])

lemma ends_fails [ends_intros]: "ends (io_fail (invalid m))" "ends (io_fail (read_failed p e))"
    "ends (io_lift (map_err invalid r))" "ends (io_fail (no_symlink p))" "ends (io_fail (folder_of_skills p))"
  by (cases r; simp add: ends_def io_fail_def io_lift_def invalid_def read_failed_def no_symlink_def folder_of_skills_def)+

lemma walk_entry_ends: "ends (walk_entry F root dir pre name)"
  unfolding walk_entry_def Let_def by (intro ends_intros ends_then)

lemma split_slashes_absolute:
  assumes "validate_relative_skill_path (pre @ ''/'' @ name) = Inr ()"
  shows "\<not> is_absolute name"
proof
  assume "is_absolute name"
  then obtain r where "name = CHR ''/'' # r" by (auto simp: is_absolute_def prefix_def)
  then have "split_on (CHR ''/'') (pre @ ''/'' @ name) = split_on (CHR ''/'') pre @ [] # split_on (CHR ''/'') r"
    using split_on_append_sep [of "CHR ''/''" pre "CHR ''/'' # r"] by simp
  then have "[] \<in> set (split_slashes (pre @ ''/'' @ name))" by (auto simp: split_slashes_def)
  then show False
    using assms by (auto simp: validate_relative_skill_path_def rbind_eq_Inr try_all_ok check_skill_part_def split: if_splits)
qed

lemma walk_entry_deeper:
  assumes "walk_entry F root dir pre name w = (Inr (relative, None), w')"
  shows "length dir < length (path_join dir name)"
proof -
  have "name \<noteq> []" "\<not> is_absolute name"
    using assms split_slashes_absolute [of pre name]
    by (auto simp: walk_entry_def Let_def sequence_defs map_err_eq_Inr validate_relative_skill_path_def is_absolute_def
        split: prod.splits sum.splits if_splits)
  then show ?thesis by (simp add: path_join_def)
qed

lemma walk_ends:
  "path_max F n \<Longrightarrow> 1 \<le> fuel \<Longrightarrow> n + 2 \<le> fuel + length dir \<Longrightarrow> ends (walk_files fuel F root dir pre out)"
  "path_max F n \<Longrightarrow> 1 \<le> fuel \<Longrightarrow> n + 1 \<le> fuel + length dir \<Longrightarrow> ends (walk_entries fuel F root dir pre items out)"
proof (induction fuel F root dir pre out and fuel F root dir pre items out rule: walk_files_walk_entries.induct)
  case (2 fuel F root dir pre out)
  show ?case
    unfolding walk_files.simps
  proof (intro ends_then ends_read_failed)
    fix items w w'
    assume "io_map_err (read_failed dir) (os_read_dir F dir) w = (Inr items, w')"
    then have "is_ok (fst (os_read_dir F dir w))"
      by (auto simp: io_map_err_def map_err_eq_Inr split: prod.splits)
    then have "length dir \<le> n" using "2.prems"(1) by (auto simp: path_max_def not_less)
    then show "ends (walk_entries fuel F root dir pre items out)" using 2 by simp
  qed
next
  case (5 fuel F root dir pre name k items out)
  show ?case
    unfolding walk_entries.simps
  proof (rule ends_then [OF walk_entry_ends], clarify)
    fix relative found w w'
    assume e: "walk_entry F root dir pre name w = (Inr (relative, found), w')"
    show "ends (case found of
        None \<Rightarrow> io_then (walk_files fuel F root (path_join dir name) relative out)
          (\<lambda>out. walk_entries fuel F root dir pre items out)
      | Some canonical \<Rightarrow> walk_entries fuel F root dir pre items
          (out @ [\<lparr>sf_relative = relative, sf_canonical = canonical\<rparr>]))"
    proof (cases found)
      case None
      then have "length dir < length (path_join dir name)" using walk_entry_deeper e by metis
      then have "ends (walk_files fuel F root (path_join dir name) relative out)"
        using "5.IH"(1) "5.prems" None by simp
      moreover have "ends (walk_entries fuel F root dir pre items out')" for out'
        using "5.IH"(2) "5.prems" None by simp
      ultimately show ?thesis unfolding None option.case by (rule ends_then)
    next
      case (Some c)
      then show ?thesis using "5.IH"(3) "5.prems" by simp
    qed
  qed
qed (simp_all add: ends_return ends_fails)

lemma load_one_ends: "path_max F n \<Longrightarrow> n + 2 \<le> fuel \<Longrightarrow> ends (load_one fuel F dir name)"
  unfolding load_one_def load_body_def
  by (intro ends_then ends_read_failed walk_ends(1)) (auto intro!: ends_intros ends_then split: option.splits)

lemma load_entries_end: "path_max F n \<Longrightarrow> n + 2 \<le> fuel \<Longrightarrow> ends (load_entries fuel F uni root items packages)"
proof (induction fuel F uni root items packages rule: load_entries.induct)
  case (3 fuel F uni root name k items packages)
  show ?case
    unfolding load_entries.simps Let_def
    by (intro ends_intros ends_then load_one_ends [OF "3.prems"] "3.IH" "3.prems") (rule refl)+
qed (simp_all add: ends_return ends_fails)

text \<open>
  Loading the skill folders ends: with the system's limit \<open>n\<close> on the length of a path, which the
  walk makes longer with every level, a depth of \<open>n + 2\<close> is never used up, whatever the folders hold and
  however they change.
\<close>

theorem loading_packages_ends:
  assumes "path_max F n" and "n + 2 \<le> fuel"
  shows "fst (load_skill_packages fuel F uni dir w) \<noteq> Inl None"
proof -
  have "ends (packages_root_for_load F uni dir)"
    unfolding packages_root_for_load_def Let_def by (auto intro!: ends_intros ends_match split: option.splits)
  then have "ends (load_skill_packages fuel F uni dir)"
    unfolding load_skill_packages_def
    by (intro ends_then ends_match ends_intros load_entries_end [OF assms])
  then show ?thesis by (simp add: ends_def)
qed

theorem loading_packages_ends_witness:
  "fst (load_skill_packages 4098 one_skill_os (\<lambda>_. False) ''x'' ()) \<noteq> Inl None"
  by (rule loading_packages_ends [of _ 4096]) (simp_all add: path_max_def one_skill_os_def Let_def io_fail_def)

end
