(* ===== verification/Skill_Commands.thy ===== *)
theory Skill_Commands
  imports Skill_Package
begin

text \<open>
  The commands over skill folders (\<open>src/skills/package.rs\<close>): reading, writing and removing the body
  and the companion files of a package. What a write may touch is stated as a step relation.
\<close>

section \<open>Writing a file\<close>

text \<open>The writer of \<open>package_atomic_write\<close>, over the record of system calls.\<close>

definition skill_atomic_write :: "'w os \<Rightarrow> path \<Rightarrow> string \<Rightarrow> 'w \<Rightarrow> (package_error + unit) \<times> 'w" where
  "skill_atomic_write F p content = (let temp_path = temp_path_for p;
       give_up = (\<lambda>e. io_cleanup (os_remove_file F temp_path) (write_failed p e)) in
     io_then (io_map_err (write_failed p) (os_write F temp_path content)) (\<lambda>_.
     io_match (os_rename F temp_path p) (\<lambda>err.
       io_then (os_exists F p) (\<lambda>there.
         if there
         then io_match (os_remove_file F p) give_up (\<lambda>_. io_match (os_rename F temp_path p) give_up io_return)
         else give_up err))
       io_return))"

definition reject_existing_symlink :: "'w os \<Rightarrow> path \<Rightarrow> 'w \<Rightarrow> (package_error + unit) \<times> 'w" where
  "reject_existing_symlink F p = io_match (os_symlink_metadata F p)
     (\<lambda>e. if not_found e then io_return () else io_fail (read_failed p e))
     (\<lambda>kind. if kind = SymbolicLink then io_fail (no_symlink p) else io_return ())"

text \<open>The loop of \<open>resolve_new_file\<close> over the directories of the relative path.\<close>

fun resolve_dirs :: "'w os \<Rightarrow> path \<Rightarrow> string list \<Rightarrow> path \<Rightarrow> 'w \<Rightarrow> (package_error + path) \<times> 'w" where
  "resolve_dirs F root [] current = io_return current"
| "resolve_dirs F root (dir_name # dirs) current = (let next_dir = path_join current dir_name in
     io_then (os_exists F next_dir) (\<lambda>there.
     if \<not> there then resolve_dirs F root dirs next_dir
     else io_then (io_map_err (read_failed next_dir) (os_symlink_metadata F next_dir)) (\<lambda>kind.
       if kind \<noteq> Directory
       then io_fail (invalid (''`'' @ next_dir @ ''` is not a directory inside the skill folder''))
       else io_then (io_map_err (read_failed next_dir) (os_canonicalize F next_dir)) (\<lambda>canonical.
         if \<not> path_starts_with canonical root
         then io_fail (invalid (''`'' @ canonical @ ''` escapes the skill directory''))
         else resolve_dirs F root dirs canonical))))"

definition resolve_new_file :: "'w os \<Rightarrow> path \<Rightarrow> string \<Rightarrow> 'w \<Rightarrow> (package_error + path) \<times> 'w" where
  "resolve_new_file F skill_root relative =
     io_then (io_map_err (read_failed skill_root) (os_canonicalize F skill_root)) (\<lambda>root.
     let parts = split_on (CHR ''/'') relative in
     io_then (resolve_dirs F root (butlast parts) root) (\<lambda>current. io_return (path_join current (last parts))))"

definition ensure_parent_inside :: "'w os \<Rightarrow> path \<Rightarrow> path \<Rightarrow> 'w \<Rightarrow> (package_error + unit) \<times> 'w" where
  "ensure_parent_inside F skill_root dest =
     io_then (io_map_err (read_failed skill_root) (os_canonicalize F skill_root)) (\<lambda>root.
     case path_parent dest of
       None \<Rightarrow> io_fail (invalid ''skill file has no parent directory'')
     | Some parent \<Rightarrow> io_then (io_map_err (read_failed parent) (os_canonicalize F parent)) (\<lambda>parent.
         if \<not> path_starts_with parent root then io_fail (invalid (''`'' @ dest @ ''` escapes the skill directory''))
         else io_return ()))"

definition save_body :: "'w os \<Rightarrow> path \<Rightarrow> string \<Rightarrow> 'w \<Rightarrow> (package_error + unit) \<times> 'w" where
  "save_body F d content = (let p = path_join d SKILL_BODY_FILE in
     io_then (io_map_err (write_failed d) (os_create_dir_all F d)) (\<lambda>_.
     io_then (reject_existing_symlink F p) (\<lambda>_. skill_atomic_write F p content)))"

definition write_body :: "'w os \<Rightarrow> (string \<Rightarrow> bool) \<Rightarrow> path \<Rightarrow> string \<Rightarrow> string \<Rightarrow> 'w \<Rightarrow> (package_error + unit) \<times> 'w" where
  "write_body F uni dir name content =
     io_then (io_lift (map_err invalid (validate_skill_dir_name uni name))) (\<lambda>_.
     if trim content = [] then io_fail (invalid (''skill `'' @ name @ ''` skill.md must not be empty''))
     else save_body F (skill_dir_for_write uni dir name) content)"

definition has_body :: "'w os \<Rightarrow> path \<Rightarrow> 'w \<Rightarrow> (package_error + bool) \<times> 'w" where
  "has_body F d = io_match (os_metadata F (path_join d SKILL_BODY_FILE)) (\<lambda>_. io_return False)
     (\<lambda>kind. io_return (kind = RegularFile))"

definition save_file :: "'w os \<Rightarrow> path \<Rightarrow> string \<Rightarrow> string \<Rightarrow> 'w \<Rightarrow> (package_error + unit) \<times> 'w" where
  "save_file F d relative content =
     io_then (resolve_new_file F d relative) (\<lambda>dest.
     io_then (case path_parent dest of None \<Rightarrow> io_return ()
        | Some parent \<Rightarrow> io_map_err (write_failed parent) (os_create_dir_all F parent)) (\<lambda>_.
     io_then (reject_existing_symlink F dest) (\<lambda>_.
     io_then (ensure_parent_inside F d dest) (\<lambda>_. skill_atomic_write F dest content))))"

definition write_package_file ::
  "'w os \<Rightarrow> (string \<Rightarrow> bool) \<Rightarrow> path \<Rightarrow> string \<Rightarrow> string \<Rightarrow> string \<Rightarrow> 'w \<Rightarrow> (package_error + unit) \<times> 'w" where
  "write_package_file F uni dir name relative content =
     (if relative = SKILL_BODY_FILE then io_fail (invalid ''use `skill body set` to write skill.md'')
      else io_then (io_lift (map_err invalid (validate_skill_dir_name uni name))) (\<lambda>_.
        io_then (io_lift (map_err invalid (validate_relative_skill_path relative))) (\<lambda>_.
        let d = skill_dir_for_write uni dir name in
        io_then (has_body F d) (\<lambda>has_body.
        if \<not> has_body then io_fail (invalid (''skill `'' @ name @ ''` has no skill.md; set the body before adding files''))
        else save_file F d relative content))))"

section \<open>Reading and removing\<close>

definition skill_dir_for_load :: "'w os \<Rightarrow> (string \<Rightarrow> bool) \<Rightarrow> path \<Rightarrow> string \<Rightarrow> 'w \<Rightarrow> (package_error + path) \<times> 'w" where
  "skill_dir_for_load F uni dir name = io_then (packages_root_for_load F uni dir) (\<lambda>root. io_return (path_join root name))"

definition require_file :: "nat \<Rightarrow> 'w os \<Rightarrow> (string \<Rightarrow> bool) \<Rightarrow> path \<Rightarrow> string \<Rightarrow> string \<Rightarrow> 'w
    \<Rightarrow> (package_error + skill_file_entry) \<times> 'w" where
  "require_file fuel F uni dir name relative =
     io_then (io_lift (map_err invalid (validate_skill_dir_name uni name))) (\<lambda>_.
     io_then (io_lift (map_err invalid (validate_relative_skill_path relative))) (\<lambda>_.
     io_then (skill_dir_for_load F uni dir name) (\<lambda>d.
     io_then (os_exists F d) (\<lambda>there.
     if \<not> there then io_fail (invalid (''skill `'' @ name @ ''` has no folder''))
     else io_then (load_one fuel F d name) (\<lambda>package.
       case find (\<lambda>f. sf_relative f = relative) (pk_files package) of
         Some f \<Rightarrow> io_return f
       | None \<Rightarrow> io_fail (invalid (''`'' @ relative @ ''` is not in skill `'' @ name @ ''`'')))))))"

definition read_package_file :: "nat \<Rightarrow> 'w os \<Rightarrow> (string \<Rightarrow> bool) \<Rightarrow> path \<Rightarrow> string \<Rightarrow> string \<Rightarrow> 'w
    \<Rightarrow> (package_error + string) \<times> 'w" where
  "read_package_file fuel F uni dir name relative =
     (if relative = SKILL_BODY_FILE then io_fail (invalid ''use `skill body get` to read skill.md'')
      else io_then (require_file fuel F uni dir name relative) (\<lambda>entry.
        io_map_err (read_failed (sf_relative entry)) (os_read_to_string F (sf_canonical entry))))"

definition remove_package_file :: "nat \<Rightarrow> 'w os \<Rightarrow> (string \<Rightarrow> bool) \<Rightarrow> path \<Rightarrow> string \<Rightarrow> string \<Rightarrow> 'w
    \<Rightarrow> (package_error + unit) \<times> 'w" where
  "remove_package_file fuel F uni dir name relative =
     (if relative = SKILL_BODY_FILE then io_fail (invalid ''use `skill body clear` to remove skill.md'')
      else io_then (require_file fuel F uni dir name relative) (\<lambda>entry.
        io_map_err (write_failed (sf_relative entry)) (os_remove_file F (sf_canonical entry))))"

definition list_package_files :: "nat \<Rightarrow> 'w os \<Rightarrow> (string \<Rightarrow> bool) \<Rightarrow> path \<Rightarrow> string \<Rightarrow> 'w
    \<Rightarrow> (package_error + string list) \<times> 'w" where
  "list_package_files fuel F uni dir name =
     (if \<not> is_ok (validate_skill_dir_name uni name) then io_return []
      else io_then (skill_dir_for_load F uni dir name) (\<lambda>d.
        io_then (os_exists F d) (\<lambda>there. if \<not> there then io_return []
        else io_then (load_one fuel F d name) (\<lambda>package. io_return (map sf_relative (pk_files package))))))"

definition read_body :: "nat \<Rightarrow> 'w os \<Rightarrow> (string \<Rightarrow> bool) \<Rightarrow> path \<Rightarrow> string \<Rightarrow> 'w
    \<Rightarrow> (package_error + string option) \<times> 'w" where
  "read_body fuel F uni dir name =
     (if \<not> is_ok (validate_skill_dir_name uni name) then io_return None
      else io_then (skill_dir_for_load F uni dir name) (\<lambda>d.
        io_then (os_exists F d) (\<lambda>there. if \<not> there then io_return None
        else io_then (load_one fuel F d name) (\<lambda>package. io_return (Some (pk_body package))))))"

definition clear_body_dir :: "nat \<Rightarrow> 'w os \<Rightarrow> string \<Rightarrow> path \<Rightarrow> 'w \<Rightarrow> (package_error + unit) \<times> 'w" where
  "clear_body_dir fuel F name d =
     io_then (load_one fuel F d name) (\<lambda>package.
     if list_ex (\<lambda>f. sf_relative f \<noteq> SKILL_BODY_FILE) (pk_files package)
     then io_fail (invalid (''skill `'' @ name @ ''` still has companion files; remove them before clearing skill.md''))
     else io_map_err (write_failed d) (os_remove_dir_all F d))"

definition clear_body :: "nat \<Rightarrow> 'w os \<Rightarrow> (string \<Rightarrow> bool) \<Rightarrow> path \<Rightarrow> string \<Rightarrow> 'w \<Rightarrow> (package_error + unit) \<times> 'w" where
  "clear_body fuel F uni dir name =
     (let d = skill_dir_for_write uni dir name; legacy = path_join (path_join dir SKILL_PACKAGES_DIR) name;
        clear_target = (\<lambda>target.
          io_then (clear_body_dir fuel F name target) (\<lambda>_.
          if components legacy = components target then io_return ()
          else io_then (os_exists F legacy) (\<lambda>there.
            if there then io_map_err (write_failed legacy) (os_remove_dir_all F legacy) else io_return ()))) in
      io_then (io_lift (map_err invalid (validate_skill_dir_name uni name))) (\<lambda>_.
      io_then (os_exists F d) (\<lambda>there.
      if there then clear_target d
      else io_then (skill_dir_for_load F uni dir name) (\<lambda>loaded.
        io_then (os_exists F loaded) (\<lambda>there.
        if \<not> there then io_return () else clear_target loaded)))))"

definition remove_skill_dir :: "'w os \<Rightarrow> path \<Rightarrow> 'w \<Rightarrow> (package_error + unit) \<times> 'w" where
  "remove_skill_dir F d = io_match (os_symlink_metadata F d)
     (\<lambda>e. if not_found e then io_return () else io_fail (write_failed d e))
     (\<lambda>kind. if kind = SymbolicLink then io_fail (invalid (''refusing to remove symlink skill directory `'' @ d @ ''`''))
        else io_map_err (write_failed d) (os_remove_dir_all F d))"

definition remove_package_dir :: "'w os \<Rightarrow> (string \<Rightarrow> bool) \<Rightarrow> path \<Rightarrow> string \<Rightarrow> 'w \<Rightarrow> (package_error + unit) \<times> 'w" where
  "remove_package_dir F uni dir name =
     (if \<not> is_ok (validate_skill_dir_name uni name) then io_return ()
      else (let d = skill_dir_for_write uni dir name; legacy = path_join (path_join dir SKILL_PACKAGES_DIR) name in
        io_then (remove_skill_dir F d) (\<lambda>_.
        if components legacy = components d then io_return () else remove_skill_dir F legacy)))"

section \<open>What a command may do\<close>

definition skill_folder :: "(string \<Rightarrow> bool) \<Rightarrow> path \<Rightarrow> string \<Rightarrow> path \<Rightarrow> bool" where
  "skill_folder uni dir name d \<longleftrightarrow> validate_skill_dir_name uni name = Inr ()
     \<and> (d = path_join (path_join dir SKILL_PACKAGES_DIR) name \<or> d = skill_dir_for_write uni dir name)"

definition in_skill :: "'w os \<Rightarrow> (string \<Rightarrow> bool) \<Rightarrow> path \<Rightarrow> string \<Rightarrow> path \<Rightarrow> bool" where
  "in_skill F uni dir name p \<longleftrightarrow> (\<exists>d root. skill_folder uni dir name d \<and> resolves F d root \<and> path_starts_with p root)"

definition skill_target :: "'w os \<Rightarrow> (string \<Rightarrow> bool) \<Rightarrow> path \<Rightarrow> string \<Rightarrow> path \<Rightarrow> bool" where
  "skill_target F uni dir name p \<longleftrightarrow> in_skill F uni dir name p
     \<or> (\<exists>d. skill_folder uni dir name d \<and> p = path_join d SKILL_BODY_FILE)"

inductive package_effect :: "'w os \<Rightarrow> (string \<Rightarrow> bool) \<Rightarrow> path \<Rightarrow> string \<Rightarrow> 'w \<Rightarrow> 'w \<Rightarrow> bool"
  for F uni dir name where
  canonicalizes: "package_effect F uni dir name w (snd (os_canonicalize F p w))"
| stats: "package_effect F uni dir name w (snd (os_metadata F p w))"
| lstats: "package_effect F uni dir name w (snd (os_symlink_metadata F p w))"
| lists: "in_skill F uni dir name p \<Longrightarrow> package_effect F uni dir name w (snd (os_read_dir F p w))"
| reads: "in_skill F uni dir name p \<Longrightarrow> package_effect F uni dir name w (snd (os_read_to_string F p w))"
| makes: "skill_folder uni dir name p \<or> in_skill F uni dir name p \<Longrightarrow>
    package_effect F uni dir name w (snd (os_create_dir_all F p w))"
| writes: "skill_target F uni dir name p \<Longrightarrow> package_effect F uni dir name w (snd (os_write F (temp_path_for p) s w))"
| renames: "skill_target F uni dir name p \<Longrightarrow> package_effect F uni dir name w (snd (os_rename F (temp_path_for p) p w))"
| unlinks: "skill_target F uni dir name p \<Longrightarrow> q = p \<or> q = temp_path_for p \<Longrightarrow>
    package_effect F uni dir name w (snd (os_remove_file F q w))"
| removes: "skill_folder uni dir name d \<Longrightarrow> package_effect F uni dir name w (snd (os_remove_dir_all F d w))"

lemma effect_lookups [runs_intros]:
  "runs (package_effect F uni dir name) (\<lambda>_. True) (os_metadata F p)"
  "runs (package_effect F uni dir name) (\<lambda>_. True) (os_symlink_metadata F p)"
  by (rule runs_step, rule package_effect.intros)+

lemma effect_canonicalize [runs_intros]: "runs (package_effect F uni dir name) (resolves F p) (os_canonicalize F p)"
  unfolding resolves_def by (rule runs_result) (rule package_effect.canonicalizes)

lemma effect_granted:
  "in_skill F uni dir name p \<Longrightarrow> runs (package_effect F uni dir name) (\<lambda>_. True) (os_read_dir F p)"
  "in_skill F uni dir name p \<Longrightarrow> runs (package_effect F uni dir name) (\<lambda>_. True) (os_read_to_string F p)"
  "skill_folder uni dir name p \<or> in_skill F uni dir name p \<Longrightarrow> runs (package_effect F uni dir name) (\<lambda>_. True) (os_create_dir_all F p)"
  "skill_target F uni dir name p \<Longrightarrow> runs (package_effect F uni dir name) (\<lambda>_. True) (os_write F (temp_path_for p) s)"
  "skill_target F uni dir name p \<Longrightarrow> runs (package_effect F uni dir name) (\<lambda>_. True) (os_rename F (temp_path_for p) p)"
  "skill_folder uni dir name p \<Longrightarrow> runs (package_effect F uni dir name) (\<lambda>_. True) (os_remove_dir_all F p)"
  by (rule runs_step, erule package_effect.intros)+

lemma effect_unlinks:
  "skill_target F uni dir name p \<Longrightarrow> q = p \<or> q = temp_path_for p \<Longrightarrow>
     runs (package_effect F uni dir name) (\<lambda>_. True) (os_remove_file F q)"
  by (rule runs_step, erule package_effect.unlinks)

lemma effect_exists: "runs (package_effect F uni dir name) (\<lambda>_. True) (os_exists F p)"
  unfolding os_exists_def by (rule runs_match [OF effect_lookups(1)]) (simp_all add: runs_return)

lemma runs_cleanup: "runs S P act \<Longrightarrow> runs S Q (io_cleanup act e)"
  by (auto simp: runs_def io_cleanup_def) (metis prod.collapse)

lemma atomic_write_runs:
  assumes "skill_target F uni dir name p"
  shows "runs (package_effect F uni dir name) (\<lambda>_. True) (skill_atomic_write F p content)"
proof -
  have give_up: "runs (package_effect F uni dir name) (\<lambda>_. True) (io_cleanup (os_remove_file F (temp_path_for p)) e)" for e
    by (rule runs_cleanup, rule effect_unlinks [OF assms]) simp
  have unlink: "runs (package_effect F uni dir name) (\<lambda>_. True) (os_remove_file F p)"
    by (rule effect_unlinks [OF assms]) simp
  show ?thesis
    unfolding skill_atomic_write_def Let_def
    by (intro runs_then [OF runs_map_err [OF effect_granted(4) [OF assms]]] runs_match [OF effect_granted(5) [OF assms]]
        runs_then [OF effect_exists] runs_if runs_match [OF unlink] give_up runs_return TrueI)
qed

lemma reject_symlink_runs: "runs (package_effect F uni dir name) (\<lambda>_. True) (reject_existing_symlink F p)"
  unfolding reject_existing_symlink_def
  by (intro runs_match [OF effect_lookups(2)] runs_if runs_fail runs_return TrueI)

text \<open>A checked relative path has plain parts.\<close>

lemma relative_parts:
  assumes "validate_relative_skill_path p = Inr ()" and "part \<in> set (split_on (CHR ''/'') p)"
  shows "plain_name part"
proof -
  have ok: "check_skill_part q = Inr ()" if "q \<in> set (split_on (CHR 0x5C) part)" for q
    using assms that by (auto simp: validate_relative_skill_path_def rbind_eq_Inr try_all_ok split_slashes_def split: if_splits)
  have "part \<notin> {[], ''.'', ''..''}"
    using ok [of part] by (auto simp: check_skill_part_def split: if_splits)
  moreover have "CHR ''/'' \<notin> set part" using split_on_no_sep assms(2) by fast
  ultimately show ?thesis by (simp add: plain_name_def)
qed

lemma resolve_dirs_runs:
  "path_starts_with current root \<Longrightarrow> list_all plain_name parts \<Longrightarrow>
     runs (package_effect F uni dir name) (\<lambda>p. path_starts_with p root) (resolve_dirs F root parts current)"
proof (induction parts arbitrary: current)
  case (Cons part parts)
  have next_dir: "path_starts_with (path_join current part) root"
    using Cons.prems by (simp add: starts_with_join_plain)
  show ?case
    unfolding resolve_dirs.simps Let_def
    by (intro runs_then [OF effect_exists] runs_if runs_fail runs_then [OF runs_map_err [OF effect_lookups(2)]]
        runs_then [OF runs_map_err [OF effect_canonicalize]] Cons.IH next_dir) (use Cons.prems in simp_all)
qed (simp add: runs_return)

definition new_file :: "'w os \<Rightarrow> (string \<Rightarrow> bool) \<Rightarrow> path \<Rightarrow> string \<Rightarrow> path \<Rightarrow> bool" where
  "new_file F uni dir name p \<longleftrightarrow> in_skill F uni dir name p
     \<and> (\<forall>parent. path_parent p = Some parent \<longrightarrow> in_skill F uni dir name parent)"

lemma resolve_new_file_runs:
  assumes d: "skill_folder uni dir name d" and v: "validate_relative_skill_path relative = Inr ()"
  shows "runs (package_effect F uni dir name) (new_file F uni dir name) (resolve_new_file F d relative)"
proof -
  let ?parts = "split_on (CHR ''/'') relative"
  have plain: "list_all plain_name (butlast ?parts)" "plain_name (last ?parts)"
    using relative_parts [OF v] by (auto simp: list_all_iff dest: in_set_butlastD)
  have dest: "new_file F uni dir name (path_join current (last ?parts))"
    if "resolves F d root" "path_starts_with current root" for root current
    using that d starts_with_join_plain [OF that(2) plain(2)] starts_with_parent [OF that(2) plain(2)]
    by (auto simp: new_file_def in_skill_def)
  show ?thesis
    unfolding resolve_new_file_def Let_def
  proof (rule runs_then [OF runs_map_err [OF effect_canonicalize]])
    fix root
    assume root: "resolves F d root"
    have "path_starts_with root root" by (simp add: path_starts_with_def)
    then show "runs (package_effect F uni dir name) (new_file F uni dir name)
        (io_then (resolve_dirs F root (butlast ?parts) root) (\<lambda>current. io_return (path_join current (last ?parts))))"
      using plain(1) dest [OF root] by (intro runs_then [OF resolve_dirs_runs] runs_return)
  qed
qed

lemma ensure_parent_runs: "runs (package_effect F uni dir name) (\<lambda>_. True) (ensure_parent_inside F d dest)"
proof -
  have "runs (package_effect F uni dir name) (\<lambda>_. True) (case path_parent dest of
       None \<Rightarrow> io_fail e
     | Some parent \<Rightarrow> io_then (io_map_err (read_failed parent) (os_canonicalize F parent)) (\<lambda>parent.
         if \<not> path_starts_with parent root then io_fail e' else io_return ()))" for root e e'
    by (cases "path_parent dest")
      (simp_all add: runs_fail, intro runs_then [OF runs_map_err [OF effect_canonicalize]] runs_if runs_fail runs_return TrueI)
  then show ?thesis
    unfolding ensure_parent_inside_def by (rule runs_then [OF runs_map_err [OF effect_canonicalize]])
qed

lemma save_body_runs:
  assumes "skill_folder uni dir name d"
  shows "runs (package_effect F uni dir name) (\<lambda>_. True) (save_body F d content)"
proof -
  have "runs (package_effect F uni dir name) (\<lambda>_. True) (os_create_dir_all F d)"
    by (rule effect_granted(3)) (simp add: assms)
  moreover have "skill_target F uni dir name (path_join d SKILL_BODY_FILE)"
    using assms by (auto simp: skill_target_def)
  ultimately show ?thesis
    unfolding save_body_def Let_def
    by (intro runs_then [OF runs_map_err] runs_then [OF reject_symlink_runs] atomic_write_runs)
qed

lemma save_file_runs:
  assumes "skill_folder uni dir name d" and "validate_relative_skill_path relative = Inr ()"
  shows "runs (package_effect F uni dir name) (\<lambda>_. True) (save_file F d relative content)"
  unfolding save_file_def
proof (rule runs_then [OF resolve_new_file_runs [OF assms]])
  fix dest
  assume dest: "new_file F uni dir name dest"
  then have aim: "skill_target F uni dir name dest" by (simp add: new_file_def skill_target_def)
  have make: "runs (package_effect F uni dir name) (\<lambda>_. True) (case path_parent dest of None \<Rightarrow> io_return ()
      | Some parent \<Rightarrow> io_map_err (write_failed parent) (os_create_dir_all F parent))"
    using dest by (cases "path_parent dest")
      (simp_all add: runs_return new_file_def, intro runs_map_err effect_granted(3), simp)
  show "runs (package_effect F uni dir name) (\<lambda>_. True)
      (io_then (case path_parent dest of None \<Rightarrow> io_return ()
        | Some parent \<Rightarrow> io_map_err (write_failed parent) (os_create_dir_all F parent)) (\<lambda>_.
       io_then (reject_existing_symlink F dest) (\<lambda>_.
       io_then (ensure_parent_inside F d dest) (\<lambda>_. skill_atomic_write F dest content))))"
    by (intro runs_then [OF make] runs_then [OF reject_symlink_runs] runs_then [OF ensure_parent_runs] atomic_write_runs aim)
qed

lemma write_folder: "validate_skill_dir_name uni name = Inr () \<Longrightarrow> skill_folder uni dir name (skill_dir_for_write uni dir name)"
  by (simp add: skill_folder_def)

lemma legacy_folder: "validate_skill_dir_name uni name = Inr () \<Longrightarrow> skill_folder uni dir name (path_join (path_join dir SKILL_PACKAGES_DIR) name)"
  by (simp add: skill_folder_def)

lemma has_body_runs: "runs (package_effect F uni dir name) (\<lambda>_. True) (has_body F d)"
  unfolding has_body_def by (intro runs_match [OF effect_lookups(1)] runs_return TrueI)

lemma write_body_runs: "runs (package_effect F uni dir name) (\<lambda>_. True) (write_body F uni dir name content)"
  unfolding write_body_def
  by (intro runs_then [OF runs_lift] runs_if runs_fail save_body_runs write_folder) (simp add: map_err_eq_Inr)

lemma write_file_runs: "runs (package_effect F uni dir name) (\<lambda>_. True) (write_package_file F uni dir name relative content)"
  unfolding write_package_file_def Let_def
  by (intro runs_then [OF runs_lift] runs_if runs_fail runs_then [OF has_body_runs] save_file_runs write_folder)
    (simp_all add: map_err_eq_Inr)

lemma walk_entry_runs: "runs (package_effect F uni dir name) (\<lambda>(relative, found). \<not> is_absolute n
     \<and> (\<forall>c. found = Some c \<longrightarrow> path_starts_with c root)) (walk_entry F root d pre n)"
proof -
  have rel: "\<not> is_absolute n" if "validate_relative_skill_path (if pre = [] then n else pre @ ''/'' @ n) = Inr ()"
    using that split_slashes_absolute [of pre n]
    by (auto simp: validate_relative_skill_path_def is_absolute_def split: if_splits)
  show ?thesis
    unfolding walk_entry_def Let_def
    by (intro runs_then [OF runs_map_err [OF effect_lookups(2)]] runs_if runs_fail runs_then [OF runs_lift]
        runs_then [OF runs_map_err [OF effect_canonicalize]] runs_return)
      (use rel in \<open>auto simp: map_err_eq_Inr\<close>)
qed

definition rooted :: "path \<Rightarrow> skill_file_entry \<Rightarrow> bool" where
  "rooted root f \<longleftrightarrow> path_starts_with (sf_canonical f) root"

lemma walk_runs:
  "\<lbrakk>skill_folder uni dir name d0; resolves F d0 root; path_starts_with d root; list_all (rooted root) out\<rbrakk> \<Longrightarrow>
      runs (package_effect F uni dir name) (list_all (rooted root)) (walk_files fuel F root d pre out)"
  "\<lbrakk>skill_folder uni dir name d0; resolves F d0 root; path_starts_with d root; list_all (rooted root) out\<rbrakk> \<Longrightarrow>
      runs (package_effect F uni dir name) (list_all (rooted root)) (walk_entries fuel F root d pre items out)"
proof (induction fuel F root d pre out and fuel F root d pre items out rule: walk_files_walk_entries.induct)
  case (2 fuel F root d pre out)
  have "in_skill F uni dir name d" using "2.prems" by (auto simp: in_skill_def)
  then show ?case
    unfolding walk_files.simps by (intro runs_then [OF runs_map_err [OF effect_granted(1)]] "2.IH" "2.prems")
next
  case (5 fuel F root d pre n k items out)
  have entries: "runs (package_effect F uni dir name) (list_all (rooted root)) (case found of
        None \<Rightarrow> io_then (walk_files fuel F root (path_join d n) relative out)
          (\<lambda>out. walk_entries fuel F root d pre items out)
      | Some canonical \<Rightarrow> walk_entries fuel F root d pre items
          (out @ [\<lparr>sf_relative = relative, sf_canonical = canonical\<rparr>]))"
    if "\<not> is_absolute n" "\<forall>c. found = Some c \<longrightarrow> path_starts_with c root" for relative found
  proof (cases found)
    case None
    have "path_starts_with (path_join d n) root" using that(1) "5.prems"(3) by (simp add: starts_with_join)
    then have "runs (package_effect F uni dir name) (list_all (rooted root)) (walk_files fuel F root (path_join d n) relative out)"
      using "5.IH"(1) "5.prems" None by simp
    moreover have "runs (package_effect F uni dir name) (list_all (rooted root)) (walk_entries fuel F root d pre items out')"
      if "list_all (rooted root) out'" for out'
      using "5.IH"(2) "5.prems" None that by simp
    ultimately show ?thesis unfolding None option.case by (rule runs_then)
  next
    case (Some c)
    then have "rooted root \<lparr>sf_relative = relative, sf_canonical = c\<rparr>" using that(2) by (simp add: rooted_def)
    then show ?thesis using "5.IH"(3) "5.prems" Some by simp
  qed
  show ?case
    unfolding walk_entries.simps by (rule runs_then [OF walk_entry_runs]) (use entries in auto)
qed (simp_all add: runs_return runs_fail)

definition owned :: "'w os \<Rightarrow> (string \<Rightarrow> bool) \<Rightarrow> path \<Rightarrow> string \<Rightarrow> skill_package \<Rightarrow> bool" where
  "owned F uni dir name p \<longleftrightarrow> list_all (\<lambda>f. in_skill F uni dir name (sf_canonical f)) (pk_files p)"

lemma load_body_runs:
  assumes "list_all (\<lambda>f. in_skill F uni dir name (sf_canonical f)) files"
  shows "runs (package_effect F uni dir name) (owned F uni dir name) (load_body F n root files)"
proof (cases "find (\<lambda>f. sf_relative f = SKILL_BODY_FILE) files")
  case (Some entry)
  then have "in_skill F uni dir name (sf_canonical entry)"
    using assms by (auto simp: find_Some_iff list_all_length)
  then show ?thesis
    unfolding load_body_def Some option.case
    by (intro runs_then [OF runs_map_err [OF effect_granted(2)]] runs_if runs_fail runs_return)
      (simp_all add: owned_def assms)
qed (simp add: load_body_def runs_fail)

lemma load_one_runs:
  assumes "skill_folder uni dir name d"
  shows "runs (package_effect F uni dir name) (owned F uni dir name) (load_one fuel F d n)"
  unfolding load_one_def
proof (rule runs_then [OF runs_map_err [OF effect_canonicalize]], rule runs_then [OF walk_runs(1) [OF assms]])
  fix root found
  assume "resolves F d root" and "list_all (rooted root) found"
  then show "runs (package_effect F uni dir name) (owned F uni dir name) (load_body F n root (sort_key sf_relative found))"
    using assms by (intro load_body_runs) (auto simp: list_all_iff rooted_def in_skill_def)
qed (simp_all add: path_starts_with_def)

lemma load_folder_runs:
  "validate_skill_dir_name uni name = Inr () \<Longrightarrow>
     runs (package_effect F uni dir name) (skill_folder uni dir name) (skill_dir_for_load F uni dir name)"
proof -
  assume v: "validate_skill_dir_name uni name = Inr ()"
  have "runs (package_effect F uni dir name) (\<lambda>root. skill_folder uni dir name (path_join root name)) (packages_root_for_load F uni dir)"
  proof (cases "runtime_skills_dir_from_settings_dir uni dir")
    case None
    then show ?thesis using legacy_folder [OF v, of dir]
      by (simp add: packages_root_for_load_def Let_def runs_return)
  next
    case (Some preferred)
    then have "skill_folder uni dir name (path_join preferred name)"
      using write_folder [OF v, of dir] by (simp add: skill_dir_for_write_def effective_skill_packages_root_def option_or_def)
    then show ?thesis
      using legacy_folder [OF v, of dir] unfolding packages_root_for_load_def Let_def Some option.case
      by (intro runs_match [OF effect_lookups(2)] runs_if runs_return runs_fail)
  qed
  then show ?thesis unfolding skill_dir_for_load_def by (rule runs_then) (rule runs_return)
qed

lemma require_file_runs:
  "runs (package_effect F uni dir name) (\<lambda>f. in_skill F uni dir name (sf_canonical f)) (require_file fuel F uni dir name relative)"
proof -
  have pick: "runs (package_effect F uni dir name) (\<lambda>f. in_skill F uni dir name (sf_canonical f))
      (case find (\<lambda>f. sf_relative f = relative) (pk_files p) of Some f \<Rightarrow> io_return f | None \<Rightarrow> io_fail e)"
    if "owned F uni dir name p" for p e
    using that by (auto simp: owned_def list_all_length find_Some_iff intro!: runs_return runs_fail split: option.splits)
  show ?thesis
    unfolding require_file_def
    by (intro runs_then [OF runs_lift] runs_then [OF load_folder_runs] runs_then [OF effect_exists] runs_if runs_fail
        runs_then [OF load_one_runs] pick) (simp_all add: map_err_eq_Inr)
qed

lemma query_runs:
  "runs (package_effect F uni dir name) (\<lambda>_. True) (read_package_file fuel F uni dir name relative)"
  "runs (package_effect F uni dir name) (\<lambda>_. True) (list_package_files fuel F uni dir name)"
  "runs (package_effect F uni dir name) (\<lambda>_. True) (read_body fuel F uni dir name)"
  unfolding read_package_file_def list_package_files_def read_body_def is_ok_iff
  by (intro runs_if runs_fail runs_return runs_then [OF require_file_runs] runs_map_err [OF effect_granted(2)]
      runs_then [OF load_folder_runs] runs_then [OF effect_exists] runs_then [OF load_one_runs] TrueI; simp)+

lemma remove_file_runs: "runs (package_effect F uni dir name) (\<lambda>_. True) (remove_package_file fuel F uni dir name relative)"
proof -
  have "runs (package_effect F uni dir name) (\<lambda>_. True) (os_remove_file F p)" if "in_skill F uni dir name p" for p
    using that by (intro effect_unlinks [of F uni dir name p]) (simp_all add: skill_target_def)
  then show ?thesis
    unfolding remove_package_file_def by (intro runs_if runs_fail runs_then [OF require_file_runs] runs_map_err)
qed

lemma clear_dir_runs:
  "skill_folder uni dir name d \<Longrightarrow> runs (package_effect F uni dir name) (\<lambda>_. True) (clear_body_dir fuel F name d)"
  unfolding clear_body_dir_def
  by (intro runs_then [OF load_one_runs] runs_if runs_fail runs_map_err [OF effect_granted(6)])

lemma remove_dir_runs:
  "skill_folder uni dir name d \<Longrightarrow> runs (package_effect F uni dir name) (\<lambda>_. True) (remove_skill_dir F d)"
  unfolding remove_skill_dir_def
  by (intro runs_match [OF effect_lookups(2)] runs_if runs_fail runs_return TrueI runs_map_err [OF effect_granted(6)])

lemma clear_body_runs: "runs (package_effect F uni dir name) (\<lambda>_. True) (clear_body fuel F uni dir name)"
  unfolding clear_body_def Let_def
  by (intro runs_then [OF runs_lift] runs_then [OF effect_exists] runs_if runs_fail runs_return TrueI
      runs_then [OF clear_dir_runs] runs_then [OF load_folder_runs] runs_map_err [OF effect_granted(6)])
    (simp_all add: map_err_eq_Inr write_folder legacy_folder)

lemma remove_package_runs: "runs (package_effect F uni dir name) (\<lambda>_. True) (remove_package_dir F uni dir name)"
  unfolding remove_package_dir_def Let_def is_ok_iff
  by (intro runs_if runs_return TrueI runs_then [OF remove_dir_runs] remove_dir_runs)
    (auto simp: write_folder legacy_folder)


end
