(* ===== verification/Sandbox.thy ===== *)
theory Sandbox
  imports Effects Sse Read_Window Access_Resolve
begin

text \<open>
  The sandbox front end (\<open>src/sandbox/mod.rs\<close>, \<open>src/sandbox/collect.rs\<close>): what is checked before
  a payload is launched, the environment it is given, and the bounded reading of its output. The
  backend, which makes the system calls, is a parameter.
\<close>

section \<open>Specifications\<close>

record sandbox_spec =
  sx_alias :: string
  sx_executable :: path
  sx_argv :: "string list"
  sx_cwd :: path
  sx_env :: "(string \<times> string) list"
  sx_home_read :: "path list"
  sx_home_write :: "path list"
  sx_runtime_read_roots :: "path list"
  sx_deadline_ms :: nat
  sx_max_output_chars :: nat
  sx_allow_children :: bool
  sx_max_processes :: u32

record sandbox_output =
  so_stdout :: string
  so_stderr :: string
  so_stdout_truncated :: bool
  so_stderr_truncated :: bool
  so_exit_code :: "int option"
  so_timed_out :: bool

datatype sandbox_error =
    SandboxUnavailable string
  | SandboxPolicyDenied string
  | SandboxSetup string string
  | SandboxIo string
  | SandboxTimeoutCleanup string

definition show_sandbox_error :: "sandbox_error \<Rightarrow> string" where
  "show_sandbox_error e = (case e of
     SandboxUnavailable reason \<Rightarrow> ''sandbox unavailable: '' @ reason
   | SandboxPolicyDenied reason \<Rightarrow> ''sandbox policy denied: '' @ reason
   | SandboxSetup stage reason \<Rightarrow> ''sandbox setup failed at stage `'' @ stage @ ''`: '' @ reason
   | SandboxIo reason \<Rightarrow> ''sandbox I/O error: '' @ reason
   | SandboxTimeoutCleanup reason \<Rightarrow> ''sandbox timed out and process-tree cleanup failed: '' @ reason)"

definition absolute_grant_path :: "path \<Rightarrow> relative_grant \<Rightarrow> path" where
  "absolute_grant_path home_root grant = (let relative = grant_as_path grant in
     if relative = [] \<or> components relative = [CurDir] then home_root else path_join home_root relative)"

definition absolute_home_grants :: "path \<Rightarrow> path_grant_scope \<Rightarrow> path list" where
  "absolute_home_grants home_root scope =
     (if scope_mode scope = Legacy then [home_root] else map (absolute_grant_path home_root) (grants scope))"

definition reject_protected_sandbox_path :: "path \<Rightarrow> sandbox_error + unit" where
  "reject_protected_sandbox_path p =
     (if is_denied_protected_path None p then Inl (SandboxPolicyDenied PROTECTED_DENY_REASON) else Inr ())"

definition check_env_entry :: "string \<times> string \<Rightarrow> sandbox_error + unit" where
  "check_env_entry kv = (if is_forbidden_inherit_env_key (fst kv)
     then Inl (SandboxPolicyDenied (''environment key `'' @ fst kv @ ''` is forbidden in sandbox'')) else Inr ())"

definition validate_spec :: "sandbox_spec \<Rightarrow> sandbox_error + unit" where
  "validate_spec spec =
     (if sx_executable spec = [] then Inl (SandboxPolicyDenied ''executable path must not be empty'')
      else if list_ex (\<lambda>arg. CHR 0x00 \<in> set arg) (sx_argv spec)
      then Inl (SandboxPolicyDenied ''argv must not contain NUL bytes'')
      else rbind (reject_protected_sandbox_path (sx_cwd spec)) (\<lambda>_.
        rbind (try_all reject_protected_sandbox_path (sx_home_read spec @ sx_home_write spec @ [sx_executable spec])) (\<lambda>_.
        rbind (try_all reject_protected_sandbox_path (sx_runtime_read_roots spec)) (\<lambda>_.
        rbind (try_all check_env_entry (sx_env spec)) (\<lambda>_.
        if sx_deadline_ms spec = 0 then Inl (SandboxPolicyDenied ''deadline must be > 0'')
        else if sx_max_output_chars spec = 0 then Inl (SandboxPolicyDenied ''max_output_chars must be > 0'')
        else Inr ())))))"

section \<open>The environment of a payload\<close>

definition GIT_ENV :: "(string \<times> string) list" where
  "GIT_ENV = [(''GIT_TERMINAL_PROMPT'', ''0''), (''GIT_CONFIG_COUNT'', ''1''),
     (''GIT_CONFIG_KEY_0'', ''safe.directory''), (''GIT_CONFIG_VALUE_0'', ''*'')]"

definition apply_git_sandbox_env :: "path \<Rightarrow> (string \<times> string) list \<Rightarrow> (string \<times> string) list" where
  "apply_git_sandbox_env executable env = (case path_file_name executable of
     None \<Rightarrow> env
   | Some name \<Rightarrow> (if \<not> eq_ignore_ascii_case name ''git'' \<and> \<not> eq_ignore_ascii_case name ''git.exe'' then env
       else fold (\<lambda>(k, v). assoc_insert k v) GIT_ENV env))"

text \<open>\<open>std::env::var\<close> is the first argument.\<close>

definition inherit_key :: "(string \<Rightarrow> string option) \<Rightarrow> string \<Rightarrow> (string \<times> string) list \<Rightarrow> (string \<times> string) list" where
  "inherit_key var key env =
     (if is_forbidden_inherit_env_key key \<or> eq_ignore_ascii_case key ''PATH'' then env
      else (case var key of Some v \<Rightarrow> assoc_insert key v env | None \<Rightarrow> env))"

definition base_env :: "path \<Rightarrow> (string \<times> string) list" where
  "base_env hroot = fold (\<lambda>(k, v). assoc_insert k v) [(''HOME'', hroot), (''TMP'', path_join hroot ''tmp''),
     (''TEMP'', path_join hroot ''tmp''), (''PATH'', ''/usr/bin:/bin'')] []"

definition build_sandbox_env :: "(string \<Rightarrow> string option) \<Rightarrow> path \<Rightarrow> string list \<Rightarrow> path \<Rightarrow> (string \<times> string) list" where
  "build_sandbox_env var hroot inherit_keys executable =
     apply_git_sandbox_env executable (fold (inherit_key var) inherit_keys (base_env hroot))"

section \<open>The runner\<close>

record 'w sandbox_backend =
  sb_probe :: "'w \<Rightarrow> (sandbox_error + unit) \<times> 'w"
  sb_run :: "sandbox_spec \<Rightarrow> 'w \<Rightarrow> (sandbox_error + sandbox_output) \<times> 'w"

definition sandbox_run :: "'w sandbox_backend \<Rightarrow> sandbox_spec \<Rightarrow> 'w \<Rightarrow> (sandbox_error + sandbox_output) \<times> 'w" where
  "sandbox_run B spec = io_then (sb_probe B) (\<lambda>_. io_then (io_lift (validate_spec spec)) (\<lambda>_. sb_run B spec))"

definition unavailable_backend :: "string \<Rightarrow> 'w sandbox_backend" where
  "unavailable_backend reason = \<lparr>sb_probe = io_fail (SandboxUnavailable reason),
     sb_run = (\<lambda>_. io_fail (SandboxUnavailable reason))\<rparr>"

section \<open>Collecting output\<close>

definition truncate_utf8_chars :: "string \<Rightarrow> nat \<Rightarrow> string \<times> bool" where
  "truncate_utf8_chars text n = (if n < chars_count text then (take_chars n text, True) else (text, False))"

text \<open>The loop over what the reader's calls return: \<open>kept\<close> and \<open>truncated\<close>.\<close>

fun collect_loop :: "nat \<Rightarrow> (string + string) list \<Rightarrow> string \<Rightarrow> bool \<Rightarrow> string + string \<times> bool" where
  "collect_loop n [] kept truncated = Inr (kept, truncated)"
| "collect_loop n (Inl e # rs) kept truncated = Inl e"
| "collect_loop n (Inr buf # rs) kept truncated =
     (if buf = [] then Inr (kept, truncated)
      else if truncated then collect_loop n rs kept truncated
      else (let kept = kept @ buf; text = from_utf8_lossy kept in
        if n < chars_count text then collect_loop n rs (take_chars n text) True
        else collect_loop n rs kept False))"

definition collect_utf8_bounded :: "(string + string) list \<Rightarrow> nat \<Rightarrow> string + string \<times> bool" where
  "collect_utf8_bounded rs n = rbind (collect_loop n rs [] False) (\<lambda>(kept, truncated).
     (let (text, also_truncated) = truncate_utf8_chars (from_utf8_lossy kept) n in
      Inr (text, truncated \<or> also_truncated)))"

lemma char_head:
  assumes "s \<noteq> []" and "utf8_valid s"
  obtains n where "0 < n" and "n \<le> length s" and "chars_count (take n s) = 1" and "utf8_valid (take n s)" and "utf8_valid (drop n s)"
proof -
  obtain n where n: "utf8_next s = CharOf n" "utf8_valid (drop n s)"
    using assms by (cases "utf8_next s") (auto simp: from_utf8_error from_utf8_char)
  note len = utf8_next_char [OF n(1)]
  then have t: "take n s \<noteq> []" by auto
  have "utf8_valid (take n s)"
    using utf8_next_take [OF n(1)] t len by (simp add: from_utf8_char [OF t])
  moreover have "chars_count (take n s) = 1"
    using len by (cases s; cases n) (auto simp: chars_count_def filter_empty_conv list_all_iff)
  ultimately show thesis using that [of n] n len by blast
qed

lemma take_chars_char:
  assumes "chars_count a = 1" and "0 < n" and "utf8_valid b"
  shows "take_chars n (a @ b) = a @ take_chars (n - 1) b"
proof -
  have "take_chars n a = a" using assms by (intro take_chars_all) simp
  then show ?thesis using take_chars_append [OF utf8_valid_boundary [OF assms(3)], of n a] assms(1) by simp
qed

lemma utf8_valid_take_chars: "utf8_valid s \<Longrightarrow> utf8_valid (take_chars n s)"
proof (induction "length s" arbitrary: s n rule: less_induct)
  case less
  show ?case
  proof (cases "s = [] \<or> n = 0")
    case True
    then show ?thesis using take_chars_zero [OF utf8_valid_boundary [OF less.prems]] by (cases "n = 0") simp_all
  next
    case False
    then have "s \<noteq> []" by simp
    then obtain k where k: "0 < k" "k \<le> length s" "chars_count (take k s) = 1" "utf8_valid (take k s)" "utf8_valid (drop k s)"
      by (rule char_head [OF _ less.prems])
    have "take_chars n (take k s @ drop k s) = take k s @ take_chars (n - 1) (drop k s)"
      using k(3,5) False by (intro take_chars_char) simp_all
    moreover have "utf8_valid (take_chars (n - 1) (drop k s))"
      using k(1,5) \<open>s \<noteq> []\<close> by (intro less.hyps) simp_all
    ultimately show ?thesis using utf8_valid_append [OF k(4)] by simp
  qed
qed

lemma lossy_valid [simp]: "utf8_valid s \<Longrightarrow> from_utf8_lossy s = s"
  by (simp add: from_utf8_lossy.simps)

lemma collect_loop_full: "collect_loop n (map Inr bs) kept True = Inr (kept, True)"
  by (induction bs) simp_all

lemma collect_loop_exact:
  assumes "[] \<notin> set bs" and "utf8_valid (kept @ concat bs)"
  shows "collect_loop n (map Inr bs) kept False = Inr (kept @ concat bs, False)
    \<or> (collect_loop n (map Inr bs) kept False = Inr (take_chars n (kept @ concat bs), True) \<and> n < chars_count (kept @ concat bs))"
  using assms
proof (induction bs arbitrary: kept)
  case Nil
  then show ?case by simp
next
  case (Cons b bs)
  have "utf8_valid ((kept @ b) @ concat bs)" using Cons.prems(2) by simp
  then obtain t q where d: "decode_pending (kept @ b) = (t, length t, False)" "kept @ b = t @ q" "utf8_valid t" "held q"
      "utf8_valid (q @ concat bs)"
    by (rule decode_piece) blast
  let ?total = "kept @ b @ concat bs" and ?text = "from_utf8_lossy (kept @ b)"
  have total: "?total = t @ q @ concat bs" using d(2) by simp
  have shown: "?text = (if q = [] then t else t @ REPLACEMENT)"
    using d by (auto simp: held_def from_utf8_lossy.simps from_utf8_append)
  show ?case
  proof (cases "n < chars_count ?text")
    case True
    have rep: "chars_count REPLACEMENT = 1" "\<not> is_cont (hd REPLACEMENT)" by code_simp+
    have tail: "q @ concat bs = [] \<or> \<not> is_cont (hd (q @ concat bs))" using utf8_valid_boundary [OF d(5)] by blast
    have le: "n \<le> chars_count t" using True rep(1) by (auto simp: shown split: if_splits)
    have z: "take_chars 0 REPLACEMENT = []" using rep(2) take_chars_zero by blast
    have "take_chars n ?text = take_chars n t"
      using le rep(2) z by (auto simp: shown take_chars_append)
    moreover have "take_chars n ?total = take_chars n t"
      unfolding total using take_chars_append [OF tail, of n t] take_chars_zero [OF tail] le by simp
    moreover have "n < chars_count ?total"
    proof (cases "q = []")
      case False
      then have "0 < chars_count (q @ concat bs)" using chars_count_zero [OF d(5)] by (metis append_is_Nil_conv neq0_conv)
      then show ?thesis unfolding total using le by auto
    qed (use True in \<open>simp add: total shown\<close>)
    ultimately show ?thesis
      using True Cons.prems(1) by (auto simp: Let_def collect_loop_full)
  next
    case False
    then show ?thesis
      using Cons.IH [of "kept @ b"] Cons.prems by (auto simp: Let_def)
  qed
qed

text \<open>
  The captured output of a payload is exact: for valid text, in whatever pieces the pipe
  delivers it and wherever they cut a character, the result is the first \<open>max_chars\<close> characters of
  the whole output, and it is marked truncated exactly when there were more.
\<close>

theorem collected_output_exact:
  assumes "[] \<notin> set bs" and "utf8_valid (concat bs)"
  shows "collect_utf8_bounded (map Inr bs) n = Inr (take_chars n (concat bs), n < chars_count (concat bs))"
proof -
  have v: "utf8_valid (take_chars n (concat bs))" by (rule utf8_valid_take_chars [OF assms(2)])
  show ?thesis
    using collect_loop_exact [of bs "[]" n] assms v
    by (auto simp: collect_utf8_bounded_def truncate_utf8_chars_def take_chars_all)
qed

theorem collected_output_exact_witness:
  "collect_utf8_bounded [Inr [CHR ''a'', CHR 0xD1], Inr [CHR 0x8F, CHR ''b'']] 2 = Inr ([CHR ''a'', CHR 0xD1, CHR 0x8F], True)"
proof -
  have "utf8_valid (concat [[CHR ''a'', CHR 0xD1], [CHR 0x8F, CHR ''b'']])" by code_simp
  from collected_output_exact [OF _ this, of 2] show ?thesis
    by (simp add: chars_count_def is_cont_def)
qed

section \<open>The environment is clean\<close>

definition clean_env :: "(string \<times> string) list \<Rightarrow> bool" where
  "clean_env env \<longleftrightarrow> list_all (\<lambda>kv. \<not> is_forbidden_inherit_env_key (fst kv)) env \<and> map_of env ''PATH'' = Some ''/usr/bin:/bin''"

lemma clean_assoc_insert:
  assumes "clean_env env" and "\<not> is_forbidden_inherit_env_key k" and "k \<noteq> ''PATH''"
  shows "clean_env (assoc_insert k v env)"
proof -
  have "list_all (\<lambda>kv. \<not> is_forbidden_inherit_env_key (fst kv)) (assoc_insert k v env)"
    using assms(1,2) by (simp add: clean_env_def list_all_iff assoc_insert_def assoc_remove_def)
  then show ?thesis using assms(1,3) by (simp add: clean_env_def)
qed

lemma clean_fold:
  "clean_env env \<Longrightarrow> list_all (\<lambda>kv. \<not> is_forbidden_inherit_env_key (fst kv) \<and> fst kv \<noteq> ''PATH'') kvs \<Longrightarrow>
     clean_env (fold (\<lambda>(k, v). assoc_insert k v) kvs env)"
proof (induction kvs arbitrary: env)
  case (Cons kv kvs)
  then show ?case using clean_assoc_insert by (cases kv) simp
qed simp

lemma eq_ignore_ascii_case_refl: "eq_ignore_ascii_case s s"
  by (simp add: eq_ignore_ascii_case_def)

lemma clean_inherit: "clean_env env \<Longrightarrow> clean_env (inherit_key var key env)"
  using eq_ignore_ascii_case_refl [of "''PATH''"] clean_assoc_insert [of env key]
  by (cases "key = ''PATH''") (auto simp: inherit_key_def split: option.splits)

lemma clean_inherits: "clean_env env \<Longrightarrow> clean_env (fold (inherit_key var) keys env)"
  by (induction keys arbitrary: env) (simp_all add: clean_inherit)

lemma not_forbidden_length: "length k \<notin> length ` set FORBIDDEN_INHERIT_ENV \<Longrightarrow> \<not> is_forbidden_inherit_env_key k"
  by (auto simp: is_forbidden_inherit_env_key_def list_ex_iff eq_ignore_ascii_case_def dest: map_eq_imp_length_eq)

lemma build_sandbox_env_clean: "clean_env (build_sandbox_env var hroot keys executable)"
proof -
  have fixed: "clean_env (base_env hroot)"
  proof -
    have "\<not> is_forbidden_inherit_env_key ''HOME''" "\<not> is_forbidden_inherit_env_key ''TMP''"
        "\<not> is_forbidden_inherit_env_key ''TEMP''" "\<not> is_forbidden_inherit_env_key ''PATH''"
      by (rule not_forbidden_length, simp add: FORBIDDEN_INHERIT_ENV_def)+
    then show ?thesis by (simp add: base_env_def clean_env_def assoc_insert_def assoc_remove_def)
  qed
  have git: "list_all (\<lambda>kv. \<not> is_forbidden_inherit_env_key (fst kv) \<and> fst kv \<noteq> ''PATH'') GIT_ENV"
    by (simp add: GIT_ENV_def not_forbidden_length FORBIDDEN_INHERIT_ENV_def)
  show ?thesis
    using clean_fold [OF clean_inherits [OF fixed] git] clean_inherits [OF fixed]
    unfolding build_sandbox_env_def apply_git_sandbox_env_def by (simp split: option.splits)
qed

text \<open>
  A payload never gets a loader-injection variable and always gets the fixed search path,
  whatever keys the profile inherits and whatever the process environment holds; so the
  environment passes the check before the launch.
\<close>

theorem sandbox_env_clean:
  "clean_env (build_sandbox_env var hroot keys executable)
   \<and> try_all check_env_entry (build_sandbox_env var hroot keys executable) = Inr ()"
  using build_sandbox_env_clean [of var hroot keys executable]
  unfolding clean_env_def try_all_ok list_all_iff by (simp add: check_env_entry_def)

end
