(* ===== verification/Home_Fs.thy ===== *)
theory Home_Fs
  imports Sandbox Tools
begin

text \<open>
  The tools of the agent's home directory (\<open>src/tools/fs_home.rs\<close>): \<open>home.list\<close>, \<open>home.read\<close>,
  \<open>home.write\<close> and \<open>home.run\<close> with their path guards, over an operating system in which the world
  may change at every operation. The argument decoders are what \<open>serde\<close> derives.
\<close>

section \<open>The component\<close>

definition DEFAULT_MAX_CHARS :: nat where "DEFAULT_MAX_CHARS = 50000"
definition MAX_READ_CHARS :: nat where "MAX_READ_CHARS = 200000"
definition DEFAULT_RUN_TIMEOUT_MS :: nat where "DEFAULT_RUN_TIMEOUT_MS = 30000"

datatype write_mode = CreateMode | AppendMode

definition write_mode_str :: "write_mode \<Rightarrow> string" where
  "write_mode_str m = (case m of CreateMode \<Rightarrow> ''create'' | AppendMode \<Rightarrow> ''append'')"

record home_decoders =
  list_args :: "json \<Rightarrow> string + path"
  read_args :: "json \<Rightarrow> string + (path \<times> nat option \<times> nat option)"
  write_args :: "json \<Rightarrow> string + (path \<times> string \<times> write_mode)"
  run_args :: "json \<Rightarrow> string + (string \<times> string list \<times> nat option)"

text \<open>The root is canonical; \<open>hf_remaining\<close> is \<open>RunCancel::remaining\<close> in nanoseconds.\<close>

record 'w home_fs =
  hf_root :: path
  hf_policy :: home_fs_policy
  hf_os :: "'w os"
  hf_sandbox :: "'w sandbox_backend"
  hf_remaining :: "'w \<Rightarrow> nat option"
  hf_var :: "string \<Rightarrow> string option"
  hf_decoders :: home_decoders

definition invalid_path :: "path \<Rightarrow> string \<Rightarrow> home_fs_error" where
  "invalid_path p e = HPathDenied p e"

definition home_io :: "string \<Rightarrow> path \<Rightarrow> io_error \<Rightarrow> home_fs_error" where
  "home_io operation p e = HIo operation p (io_text e)"

definition map_sandbox_error :: "sandbox_error \<Rightarrow> home_fs_error" where
  "map_sandbox_error e = (case e of
     SandboxUnavailable reason \<Rightarrow> HSandboxUnavailable reason
   | SandboxPolicyDenied reason \<Rightarrow> HProgramDenied ''home.run'' reason
   | other \<Rightarrow> HSandbox (show_sandbox_error other))"

definition decode_home_args :: "string \<Rightarrow> string + 'a \<Rightarrow> home_fs_error + 'a" where
  "decode_home_args tool r = map_err (\<lambda>e. HInvalidArguments (''home.'' @ tool @ '': '' @ e)) r"

section \<open>Guards\<close>

definition ensure_within_home :: "path \<Rightarrow> path \<Rightarrow> path \<Rightarrow> home_fs_error + unit" where
  "ensure_within_home root canonical requested =
     (if is_denied_protected_path None canonical then Inl (invalid_path requested PROTECTED_DENY_REASON)
      else if is_within_root root canonical then Inr ()
      else Inl (invalid_path requested ''path resolves outside home''))"

definition home_scope :: "home_fs_policy \<Rightarrow> path_operation \<Rightarrow> path_grant_scope" where
  "home_scope p operation = (case operation of Write \<Rightarrow> hp_write p | _ \<Rightarrow> hp_read p)"

definition ensure_grant_for_canonical :: "'w home_fs \<Rightarrow> path \<Rightarrow> path_operation \<Rightarrow> path \<Rightarrow> home_fs_error + unit" where
  "ensure_grant_for_canonical H canonical operation requested = (case path_strip_prefix canonical (hf_root H) of
     None \<Rightarrow> Inl (invalid_path requested ''path resolves outside home'')
   | Some relative \<Rightarrow> map_err (invalid_path requested)
       (allows_relative (home_scope (hf_policy H) operation) relative operation))"

definition resolve_existing :: "'w home_fs \<Rightarrow> path \<Rightarrow> path_operation \<Rightarrow> 'w \<Rightarrow> (home_fs_error + path) \<times> 'w" where
  "resolve_existing H relative operation =
     io_then (io_lift (map_err (invalid_path relative) (relative_components relative))) (\<lambda>_.
     let candidate = path_join (hf_root H) relative in
     io_then (io_map_err (home_io ''canonicalize'' candidate) (os_canonicalize (hf_os H) candidate)) (\<lambda>canonical.
     io_then (io_lift (ensure_within_home (hf_root H) canonical relative)) (\<lambda>_.
     io_then (io_lift (ensure_grant_for_canonical H canonical operation relative)) (\<lambda>_.
     io_return canonical))))"

text \<open>The loop of \<open>ensure_directories\<close> over the components of the parent.\<close>

fun directories_loop :: "'w home_fs \<Rightarrow> path \<Rightarrow> component list \<Rightarrow> path \<Rightarrow> 'w \<Rightarrow> (home_fs_error + path) \<times> 'w" where
  "directories_loop H requested [] current = io_return current"
| "directories_loop H requested (Normal part # cs) current =
     (let next_dir = path_join current part; F = hf_os H in
      io_match (os_symlink_metadata F next_dir)
        (\<lambda>e. if \<not> not_found e then io_fail (home_io ''symlink_metadata'' next_dir e)
          else io_then (io_map_err (home_io ''create_dir'' next_dir) (os_create_dir F next_dir)) (\<lambda>_.
            io_then (io_map_err (home_io ''canonicalize'' next_dir) (os_canonicalize F next_dir)) (\<lambda>created.
            io_then (io_lift (ensure_within_home (hf_root H) created requested)) (\<lambda>_.
              directories_loop H requested cs created))))
        (\<lambda>kind. if kind = SymbolicLink then io_fail (invalid_path requested ''symlink parent components are not allowed'')
          else io_then (io_map_err (home_io ''canonicalize'' next_dir) (os_canonicalize F next_dir)) (\<lambda>canonical.
            io_then (io_lift (ensure_within_home (hf_root H) canonical requested)) (\<lambda>_.
            io_then (io_map_err (home_io ''metadata'' canonical) (os_metadata F canonical)) (\<lambda>meta.
            if meta \<noteq> Directory then io_fail (invalid_path requested ''parent component is not a directory'')
            else directories_loop H requested cs canonical)))))"
| "directories_loop H requested (_ # cs) current = directories_loop H requested cs current"

definition ensure_directories :: "'w home_fs \<Rightarrow> path \<Rightarrow> 'w \<Rightarrow> (home_fs_error + path) \<times> 'w" where
  "ensure_directories H relative =
     io_then (io_lift (map_err (invalid_path relative) (relative_components relative))) (\<lambda>_.
       directories_loop H relative (components relative) (hf_root H))"

section \<open>The tools\<close>

definition kind_str :: "file_kind \<Rightarrow> string" where
  "kind_str k = (case k of Directory \<Rightarrow> ''directory'' | RegularFile \<Rightarrow> ''file'' | SymbolicLink \<Rightarrow> ''symlink'' | OtherKind \<Rightarrow> ''other'')"

definition list_entry :: "path \<Rightarrow> dir_item \<Rightarrow> home_fs_error + (string \<times> string)" where
  "list_entry p item = (case item of
     Inl e \<Rightarrow> Inl (home_io ''read_dir'' p e)
   | Inr (name, Inl e) \<Rightarrow> Inl (home_io ''file_type'' (path_join p name) e)
   | Inr (name, Inr k) \<Rightarrow> Inr (name, kind_str k))"

definition home_list :: "'w home_fs \<Rightarrow> path \<Rightarrow> 'w \<Rightarrow> (home_fs_error + json) \<times> 'w" where
  "home_list H relative =
     io_then (io_lift (map_err (invalid_path relative) (allows_relative (hp_read (hf_policy H)) relative Read))) (\<lambda>_.
     io_then (resolve_existing H relative Read) (\<lambda>p.
     io_then (io_map_err (home_io ''metadata'' p) (os_metadata (hf_os H) p)) (\<lambda>meta.
     if meta \<noteq> Directory then io_fail (HPathDenied relative ''path is not a directory'')
     else io_then (io_map_err (home_io ''read_dir'' p) (os_read_dir (hf_os H) p)) (\<lambda>items.
       io_then (io_lift (try_map (list_entry p) items)) (\<lambda>found.
       io_return (JObject [(''path'', JString (display_relative relative)),
         (''entries'', JArray (map (\<lambda>(name, kind). JObject [(''name'', JString name), (''kind'', JString kind)])
            (sort_key fst found)))]))))))"

definition window_json :: "(string \<times> json) list \<Rightarrow> read_window \<Rightarrow> json" where
  "window_json head w = JObject (head @ [(''content'', JString (rw_content w)), (''offset'', JNumber (show_nat (rw_offset w))),
     (''chars_returned'', JNumber (show_nat (rw_chars_returned w))), (''truncated'', JBool (rw_truncated w)),
     (''next_offset'', case rw_next_offset w of Some n \<Rightarrow> JNumber (show_nat n) | None \<Rightarrow> JNull)])"

definition clamp_chars :: "nat option \<Rightarrow> nat" where
  "clamp_chars n = max 1 (min MAX_READ_CHARS (option_or n DEFAULT_MAX_CHARS))"

definition home_read :: "'w home_fs \<Rightarrow> path \<Rightarrow> nat option \<Rightarrow> nat option \<Rightarrow> 'w \<Rightarrow> (home_fs_error + json) \<times> 'w" where
  "home_read H relative off max_chars =
     io_then (io_lift (map_err (invalid_path relative) (allows_relative (hp_read (hf_policy H)) relative Read))) (\<lambda>_.
     io_then (resolve_existing H relative Read) (\<lambda>p.
     io_then (io_map_err (home_io ''read_char_window'' p) (os_open (hf_os H) p)) (\<lambda>rs.
     io_then (io_lift (map_err (HIo ''read_char_window'' p)
        (read_char_window (Inr rs) (option_or off 0) (clamp_chars max_chars)))) (\<lambda>w.
     io_return (window_json [(''path'', JString (display_relative relative))] w)))))"

definition check_destination :: "'w home_fs \<Rightarrow> path \<Rightarrow> path \<Rightarrow> 'w \<Rightarrow> (home_fs_error + unit) \<times> 'w" where
  "check_destination H relative destination = (let F = hf_os H in
     io_match (os_symlink_metadata F destination) (\<lambda>_. io_return ()) (\<lambda>_.
       io_then (io_map_err (home_io ''canonicalize'' destination) (os_canonicalize F destination)) (\<lambda>canonical.
       io_then (io_lift (ensure_within_home (hf_root H) canonical relative)) (\<lambda>_.
       io_then (io_lift (ensure_grant_for_canonical H canonical Write relative)) (\<lambda>_.
       io_then (io_map_err (home_io ''metadata'' canonical) (os_metadata F canonical)) (\<lambda>meta.
       if meta = Directory then io_fail (invalid_path relative ''path is a directory'') else io_return ()))))))"

definition home_write :: "'w home_fs \<Rightarrow> path \<Rightarrow> string \<Rightarrow> write_mode \<Rightarrow> 'w \<Rightarrow> (home_fs_error + json) \<times> 'w" where
  "home_write H relative content wmode =
     io_then (io_lift (map_err (invalid_path relative) (allows_relative (hp_write (hf_policy H)) relative Write))) (\<lambda>_.
     io_then (io_lift (map_err (invalid_path relative) (relative_components relative))) (\<lambda>_.
     io_then (io_lift (case path_file_name relative of Some n \<Rightarrow> Inr n | None \<Rightarrow> Inl (invalid_path relative ''path must name a file''))) (\<lambda>file_name.
     io_then (ensure_directories H (option_or (path_parent relative) [])) (\<lambda>parent.
     let destination = path_join parent file_name in
     io_then (check_destination H relative destination) (\<lambda>_.
     io_then (case wmode of
         CreateMode \<Rightarrow> io_map_err (home_io ''write'' destination) (os_write (hf_os H) destination content)
       | AppendMode \<Rightarrow> io_then (io_map_err (home_io ''open'' destination) (os_open_append (hf_os H) destination)) (\<lambda>_.
           io_map_err (home_io ''write'' destination) (os_append (hf_os H) destination content))) (\<lambda>_.
     io_return (JObject [(''path'', JString (display_relative relative)),
       (''bytes_written'', JNumber (show_nat (length content))), (''mode'', JString (write_mode_str wmode))])))))))"

definition show_int :: "int \<Rightarrow> string" where
  "show_int i = (if i < 0 then ''-'' @ show_nat (nat (- i)) else show_nat (nat i))"

text \<open>The checks of the arguments, with the running total of characters (a \<open>usize\<close>, saturating).\<close>

fun check_run_args :: "nat \<Rightarrow> nat \<Rightarrow> string list \<Rightarrow> home_fs_error + unit" where
  "check_run_args limit tot [] = Inr ()"
| "check_run_args limit tot (arg # args) =
     (if CHR 0x00 \<in> set arg then Inl (HInvalidArguments ''`args` must not contain NUL bytes'')
      else (let tot = min (2 ^ 64 - 1) (tot + chars_count arg) in
        if limit < tot then Inl (HInvalidArguments (''`args` exceed access.run.max_arg_chars '' @ show_nat limit))
        else check_run_args limit tot args))"

text \<open>The timeout in milliseconds; \<open>remaining\<close> is in nanoseconds.\<close>

definition run_timeout_ms :: "nat \<Rightarrow> nat option \<Rightarrow> nat option \<Rightarrow> nat" where
  "run_timeout_ms max_ms requested left =
     (let ms = max 1 (min max_ms (option_or requested DEFAULT_RUN_TIMEOUT_MS)) in
      case left of None \<Rightarrow> ms | Some ns \<Rightarrow> min ms (max 1 (min (2 ^ 64 - 1) (ns div 1000000))))"

definition run_spec :: "'w home_fs \<Rightarrow> string \<Rightarrow> resolved_program_policy \<Rightarrow> string list \<Rightarrow> nat \<Rightarrow> sandbox_spec" where
  "run_spec H alias prog args timeout_ms = \<lparr>sx_alias = alias, sx_executable = rp_executable prog, sx_argv = args,
     sx_cwd = hf_root H, sx_env = build_sandbox_env (hf_var H) (hf_root H) (rp_inherit_env prog) (rp_executable prog),
     sx_home_read = absolute_home_grants (hf_root H) (hp_read (hf_policy H)),
     sx_home_write = absolute_home_grants (hf_root H) (hp_write (hf_policy H)),
     sx_runtime_read_roots = rp_runtime_read_roots prog, sx_deadline_ms = timeout_ms,
     sx_max_output_chars = hp_max_output_chars (hf_policy H), sx_allow_children = rp_allow_children prog,
     sx_max_processes = hp_max_processes (hf_policy H)\<rparr>"

definition sandbox_output_json :: "sandbox_output \<Rightarrow> json" where
  "sandbox_output_json out = JObject [(''stdout'', JString (so_stdout out)), (''stderr'', JString (so_stderr out)),
     (''stdout_truncated'', JBool (so_stdout_truncated out)), (''stderr_truncated'', JBool (so_stderr_truncated out)),
     (''exit_code'', case so_exit_code out of Some c \<Rightarrow> JNumber (show_int c) | None \<Rightarrow> JNull),
     (''timed_out'', JBool (so_timed_out out))]"

definition home_run :: "'w home_fs \<Rightarrow> string \<Rightarrow> string list \<Rightarrow> nat option \<Rightarrow> 'w \<Rightarrow> (home_fs_error + json) \<times> 'w" where
  "home_run H program args timeout_ms =
     (let pol = hf_policy H in
      if trim program = [] then io_fail (HInvalidArguments ''`program` must not be empty'')
      else io_then (io_lift (map_err HInvalidArguments (program_alias_parse program))) (\<lambda>alias.
        io_then (io_lift (case hp_programs pol alias of
            None \<Rightarrow> Inl (HProgramDenied alias ''not configured in access policy'') | Some prog \<Rightarrow> Inr prog)) (\<lambda>prog.
        if hp_max_args pol < length args
        then io_fail (HInvalidArguments (''`args` length '' @ show_nat (length args) @ '' exceeds access.run.max_args ''
          @ show_nat (hp_max_args pol)))
        else io_then (io_lift (check_run_args (hp_max_arg_chars pol) 0 args)) (\<lambda>_.
          io_then (io_ask (hf_remaining H)) (\<lambda>left.
          io_then (io_map_err map_sandbox_error (sandbox_run (hf_sandbox H)
              (run_spec H alias prog args (run_timeout_ms (unat (hp_max_timeout_ms pol)) timeout_ms left)))) (\<lambda>out.
          io_return (sandbox_output_json out)))))))"

section \<open>Construction and dispatch\<close>

text \<open>A \<open>BTreeSet\<close> of paths lists them in the order of their components.\<close>

definition component_less :: "component \<Rightarrow> component \<Rightarrow> bool" where
  "component_less a b = (case (a, b) of
     (RootDir, RootDir) \<Rightarrow> False | (RootDir, _) \<Rightarrow> True | (_, RootDir) \<Rightarrow> False
   | (CurDir, CurDir) \<Rightarrow> False | (CurDir, _) \<Rightarrow> True | (_, CurDir) \<Rightarrow> False
   | (ParentDir, ParentDir) \<Rightarrow> False | (ParentDir, _) \<Rightarrow> True | (_, ParentDir) \<Rightarrow> False
   | (Normal x, Normal y) \<Rightarrow> x < y)"

fun path_less :: "component list \<Rightarrow> component list \<Rightarrow> bool" where
  "path_less [] bs = (bs \<noteq> [])"
| "path_less (a # as) [] = False"
| "path_less (a # as) (b # bs) = (component_less a b \<or> a = b \<and> path_less as bs)"

fun insert_path :: "path \<Rightarrow> path list \<Rightarrow> path list" where
  "insert_path p [] = [p]"
| "insert_path p (q # qs) =
     (if components p = components q then q # qs
      else if path_less (components p) (components q) then p # q # qs
      else q # insert_path p qs)"

definition grant_dirs :: "home_fs_policy \<Rightarrow> path list" where
  "grant_dirs pol =
     (if scope_mode (hp_read pol) = Legacy \<or> scope_mode (hp_write pol) = Legacy then [''in'', ''out'']
      else fold (\<lambda>g seen. if grant_components g = [] then seen else insert_path (grant_as_path g) seen)
        (grants (hp_read pol) @ grants (hp_write pol)) [])"

fun ensure_grant_dirs :: "'w os \<Rightarrow> path \<Rightarrow> path list \<Rightarrow> 'w \<Rightarrow> (home_fs_error + unit) \<times> 'w" where
  "ensure_grant_dirs F root [] = io_return ()"
| "ensure_grant_dirs F root (rel # dirs) =
     io_then (io_map_err (home_io ''create_dir_all'' (path_join root rel)) (os_create_dir_all F (path_join root rel)))
       (\<lambda>_. ensure_grant_dirs F root dirs)"

text \<open>
  \<open>HomeFs::new\<close>: \<open>H\<close> holds the arguments, its root the requested one; \<open>no_programs\<close> tells whether
  the policy's map of programs is empty.
\<close>

definition home_fs_new :: "'w home_fs \<Rightarrow> bool \<Rightarrow> 'w \<Rightarrow> (home_fs_error + 'w home_fs) \<times> 'w" where
  "home_fs_new H no_programs = (let F = hf_os H; root = hf_root H in
     io_then (io_map_err (home_io ''create_dir_all'' root) (os_create_dir_all F root)) (\<lambda>_.
     io_then (io_map_err (home_io ''canonicalize'' root) (os_canonicalize F root)) (\<lambda>canonical.
     io_then (io_map_err (home_io ''metadata'' canonical) (os_metadata F canonical)) (\<lambda>meta.
     if meta \<noteq> Directory then io_fail (HPathDenied canonical ''home is not a directory'')
     else io_then (ensure_grant_dirs F canonical (grant_dirs (hf_policy H))) (\<lambda>_.
       io_then (if no_programs then io_return () else io_map_err map_sandbox_error (sb_probe (hf_sandbox H))) (\<lambda>_.
       io_return (H\<lparr>hf_root := canonical\<rparr>)))))))"

definition home_fs_call :: "'w home_fs \<Rightarrow> string \<Rightarrow> json \<Rightarrow> 'w \<Rightarrow> (home_fs_error + json) \<times> 'w" where
  "home_fs_call H t arguments = (let D = hf_decoders H in
     if t = ''list'' then io_then (io_lift (decode_home_args t (list_args D arguments))) (\<lambda>p. home_list H p)
     else if t = ''read'' then io_then (io_lift (decode_home_args t (read_args D arguments)))
       (\<lambda>(p, off, chars). home_read H p off chars)
     else if t = ''write'' then io_then (io_lift (decode_home_args t (write_args D arguments)))
       (\<lambda>(p, content, wmode). home_write H p content wmode)
     else if t = ''run'' then io_then (io_lift (decode_home_args t (run_args D arguments)))
       (\<lambda>(program, args, timeout_ms). home_run H program args timeout_ms)
     else io_fail (HUnknownTool t))"

section \<open>What a call may do\<close>

text \<open>
  A path that the policy lets an operation use: below the root, outside the protected store, and
  covered by the scope of the operation.
\<close>

definition granted_path :: "'w home_fs \<Rightarrow> path_operation \<Rightarrow> path \<Rightarrow> bool" where
  "granted_path H operation p \<longleftrightarrow> is_within_root (hf_root H) p \<and> \<not> path_contains_protected_segment p
     \<and> (case path_strip_prefix p (hf_root H) of None \<Rightarrow> False
        | Some rel \<Rightarrow> allows_relative (home_scope (hf_policy H) operation) rel operation = Inr ())"

text \<open>The specification of a launch: a configured program with the policy's confinement.\<close>

definition allowed_launch :: "'w home_fs \<Rightarrow> sandbox_spec \<Rightarrow> bool" where
  "allowed_launch H spec \<longleftrightarrow> validate_spec spec = Inr ()
     \<and> (\<exists>prog. hp_programs (hf_policy H) (sx_alias spec) = Some prog \<and> sx_executable spec = rp_executable prog
          \<and> sx_runtime_read_roots spec = rp_runtime_read_roots prog \<and> sx_allow_children spec = rp_allow_children prog)
     \<and> sx_cwd spec = hf_root H \<and> clean_env (sx_env spec)
     \<and> sx_home_read spec = absolute_home_grants (hf_root H) (hp_read (hf_policy H))
     \<and> sx_home_write spec = absolute_home_grants (hf_root H) (hp_write (hf_policy H))
     \<and> length (sx_argv spec) \<le> hp_max_args (hf_policy H)
     \<and> sx_deadline_ms spec \<le> max 1 (unat (hp_max_timeout_ms (hf_policy H)))"

inductive home_effect :: "'w home_fs \<Rightarrow> 'w \<Rightarrow> 'w \<Rightarrow> bool" for H where
  canonicalizes: "home_effect H w (snd (os_canonicalize (hf_os H) p w))"
| stats: "home_effect H w (snd (os_metadata (hf_os H) p w))"
| lstats: "home_effect H w (snd (os_symlink_metadata (hf_os H) p w))"
| lists: "granted_path H Read p \<Longrightarrow> home_effect H w (snd (os_read_dir (hf_os H) p w))"
| opens: "granted_path H Read p \<Longrightarrow> home_effect H w (snd (os_open (hf_os H) p w))"
| creates: "is_within_root (hf_root H) p \<Longrightarrow> home_effect H w (snd (os_create_dir (hf_os H) p w))"
| writes: "is_within_root (hf_root H) p \<Longrightarrow> home_effect H w (snd (os_write (hf_os H) p s w))"
| extends: "is_within_root (hf_root H) p \<Longrightarrow> home_effect H w (snd (os_open_append (hf_os H) p w))"
| appends: "is_within_root (hf_root H) p \<Longrightarrow> home_effect H w (snd (os_append (hf_os H) p s w))"
| probes: "home_effect H w (snd (sb_probe (hf_sandbox H) w))"
| launches: "allowed_launch H spec \<Longrightarrow> home_effect H w (snd (sb_run (hf_sandbox H) spec w))"

lemmas home_lookups = home_effect.canonicalizes home_effect.stats home_effect.lstats home_effect.probes

text \<open>The operations in the program logic: lookups are free, the others need their grant.\<close>

lemma runs_lookups [runs_intros]:
  "runs (home_effect H) (\<lambda>_. True) (os_canonicalize (hf_os H) p)"
  "runs (home_effect H) (\<lambda>_. True) (os_metadata (hf_os H) p)"
  "runs (home_effect H) (\<lambda>_. True) (os_symlink_metadata (hf_os H) p)"
  "runs (home_effect H) (\<lambda>_. True) (sb_probe (hf_sandbox H))"
  by (rule runs_step, rule home_lookups)+

lemma runs_granted:
  "granted_path H Read p \<Longrightarrow> runs (home_effect H) (\<lambda>_. True) (os_read_dir (hf_os H) p)"
  "granted_path H Read p \<Longrightarrow> runs (home_effect H) (\<lambda>_. True) (os_open (hf_os H) p)"
  "is_within_root (hf_root H) p \<Longrightarrow> runs (home_effect H) (\<lambda>_. True) (os_create_dir (hf_os H) p)"
  "is_within_root (hf_root H) p \<Longrightarrow> runs (home_effect H) (\<lambda>_. True) (os_write (hf_os H) p s)"
  "is_within_root (hf_root H) p \<Longrightarrow> runs (home_effect H) (\<lambda>_. True) (os_open_append (hf_os H) p)"
  "is_within_root (hf_root H) p \<Longrightarrow> runs (home_effect H) (\<lambda>_. True) (os_append (hf_os H) p s)"
  "allowed_launch H spec \<Longrightarrow> runs (home_effect H) (\<lambda>_. True) (sb_run (hf_sandbox H) spec)"
  by (rule runs_step, erule home_effect.intros)+

lemma within_home: "ensure_within_home root p requested = Inr () \<longleftrightarrow> is_within_root root p \<and> \<not> path_contains_protected_segment p"
  by (simp add: ensure_within_home_def is_denied_protected_path_def)

lemma grant_for_canonical:
  assumes "ensure_within_home (hf_root H) p requested = Inr ()"
    and "ensure_grant_for_canonical H p operation requested = Inr ()"
  shows "granted_path H operation p"
  using assms by (auto simp: granted_path_def within_home ensure_grant_for_canonical_def map_err_eq_Inr split: option.splits)

lemma resolve_runs: "runs (home_effect H) (granted_path H operation) (resolve_existing H relative operation)"
  unfolding resolve_existing_def Let_def
  by (rule runs_intros | simp add: grant_for_canonical)+

lemma within_join: "is_within_root root p \<Longrightarrow> plain_name n \<Longrightarrow> is_within_root root (path_join p n)"
  by (simp add: is_within_root_def path_starts_with_def plain_name_def components_join_plain)

lemma directories_runs:
  "is_within_root (hf_root H) current \<Longrightarrow> (\<And>n. Normal n \<in> set cs \<Longrightarrow> plain_name n) \<Longrightarrow>
     runs (home_effect H) (is_within_root (hf_root H)) (directories_loop H requested cs current)"
proof (induction H requested cs current rule: directories_loop.induct)
  case (2 H requested part cs current)
  have inside: "is_within_root (hf_root H) (path_join current part)"
    using 2 by (simp add: within_join)
  show ?case
    unfolding directories_loop.simps Let_def
    by (rule runs_intros runs_granted inside "2.IH" | simp add: within_home "2.prems")+
qed (auto intro: runs_intros)

lemma list_runs: "runs (home_effect H) (\<lambda>_. True) (home_list H relative)"
  unfolding home_list_def by (rule runs_intros runs_granted resolve_runs | simp)+

lemma read_runs: "runs (home_effect H) (\<lambda>_. True) (home_read H relative off n)"
  unfolding home_read_def by (rule runs_intros runs_granted resolve_runs | simp)+

lemma check_destination_runs: "runs (home_effect H) (\<lambda>_. True) (check_destination H relative p)"
  unfolding check_destination_def Let_def by (rule runs_intros | simp)+

lemma ensure_directories_runs: "runs (home_effect H) (is_within_root (hf_root H)) (ensure_directories H relative)"
  unfolding ensure_directories_def
  by (rule runs_intros directories_runs | simp add: plain_component is_within_root_def path_starts_with_def)+

lemma write_runs: "runs (home_effect H) (\<lambda>_. True) (home_write H relative content m)"
proof -
  have put: "runs (home_effect H) (\<lambda>_. True) (case m of
       CreateMode \<Rightarrow> io_map_err e1 (os_write (hf_os H) p content)
     | AppendMode \<Rightarrow> io_then (io_map_err e2 (os_open_append (hf_os H) p)) (\<lambda>_. io_map_err e1 (os_append (hf_os H) p content)))"
    if "is_within_root (hf_root H) p" for e1 e2 p
    using that by (cases m; simp) (rule runs_intros runs_granted | assumption)+
  show ?thesis
    unfolding home_write_def Let_def
    by (rule runs_intros ensure_directories_runs check_destination_runs put
      | force intro: within_join file_name_plain split: option.splits)+
qed

lemma sandbox_runs:
  "(validate_spec spec = Inr () \<Longrightarrow> allowed_launch H spec) \<Longrightarrow>
     runs (home_effect H) (\<lambda>_. True) (sandbox_run (hf_sandbox H) spec)"
  unfolding sandbox_run_def by (rule runs_intros runs_granted | simp)+

lemma run_timeout_bounded: "run_timeout_ms m t left \<le> max 1 m"
  by (auto simp: run_timeout_ms_def Let_def split: option.splits)

lemma run_runs: "runs (home_effect H) (\<lambda>_. True) (home_run H program args timeout_ms)"
proof -
  have launch: "runs (home_effect H) (\<lambda>_. True) (sandbox_run (hf_sandbox H) (run_spec H al prog args
      (run_timeout_ms (unat (hp_max_timeout_ms (hf_policy H))) timeout_ms left)))"
    if "hp_programs (hf_policy H) al = Some prog" "length args \<le> hp_max_args (hf_policy H)" for al prog left
    using that run_timeout_bounded
    by (intro sandbox_runs) (simp add: allowed_launch_def run_spec_def build_sandbox_env_clean)
  show ?thesis
    unfolding home_run_def Let_def
    by (rule runs_intros launch | force split: option.splits)+
qed

lemma call_runs: "runs (home_effect H) (\<lambda>_. True) (home_fs_call H t arguments)"
  unfolding home_fs_call_def Let_def split_beta
  by (rule runs_intros list_runs read_runs write_runs run_runs)+


end
