(* ===== verification/Local_Tools.thy ===== *)
theory Local_Tools
  imports Home_Fs
begin

text \<open>
  The repository tools (\<open>src/tools/local_tools.rs\<close>): \<open>local_tools.search_docs\<close>, a search through
  the granted directories, and \<open>local_tools.read_file\<close>. An error of type \<open>None\<close> stands for a search
  that has used up its fuel, which is a bound on the directories it visits.
\<close>

section \<open>The component\<close>

definition SKIP_DIRS :: "string list" where
  "SKIP_DIRS = [''.git'', ''node_modules'', ''target'', ''logs'', ''.cursor'', ''protected'']"

definition SKIP_EXTENSIONS :: "string list" where
  "SKIP_EXTENSIONS = [''exe'', ''dll'', ''so'', ''dylib'', ''png'', ''jpg'', ''jpeg'', ''gif'', ''webp'', ''ico'',
     ''pdf'', ''zip'', ''gz'', ''7z'', ''tar'', ''rar'', ''woff'', ''woff2'', ''ttf'', ''otf'', ''bin'', ''lock'',
     ''pyc'', ''class'', ''o'', ''a'', ''rlib'']"

definition DEFAULT_MAX_RESULTS :: nat where "DEFAULT_MAX_RESULTS = 8"
definition MIN_MAX_RESULTS :: nat where "MIN_MAX_RESULTS = 1"
definition MAX_MAX_RESULTS :: nat where "MAX_MAX_RESULTS = 100"
definition DEFAULT_READ_CHARS :: nat where "DEFAULT_READ_CHARS = 6000"
definition MIN_READ_CHARS :: nat where "MIN_READ_CHARS = 1"
definition LOCAL_MAX_READ_CHARS :: nat where "LOCAL_MAX_READ_CHARS = 200000"
definition MAX_SNIPPET_CHARS :: nat where "MAX_SNIPPET_CHARS = 300"

text \<open>\<open>lt_lower\<close> is \<open>str::to_lowercase\<close>, which follows the Unicode tables.\<close>

record 'w local_tools =
  lt_root :: path
  lt_read :: path_grant_scope
  lt_os :: "'w os"
  lt_lower :: "string \<Rightarrow> string"
  lt_search_args :: "json \<Rightarrow> string + (string \<times> nat option)"
  lt_read_args :: "json \<Rightarrow> string + (path \<times> nat option \<times> nat option)"

type_synonym local_error = "local_tools_error option"

definition local_path :: "path \<Rightarrow> string \<Rightarrow> local_error" where
  "local_path p e = Some (LPathDenied p e)"

definition local_io :: "string \<Rightarrow> path \<Rightarrow> io_error \<Rightarrow> local_error" where
  "local_io operation p e = Some (LIo operation p (io_text e))"

definition invalid_args :: "string \<Rightarrow> string \<Rightarrow> local_error" where
  "invalid_args t e = Some (LInvalidArguments (t @ '': '' @ e))"

definition decode_local_args :: "string \<Rightarrow> string + 'a \<Rightarrow> local_error + 'a" where
  "decode_local_args t r = map_err (\<lambda>e. Some (LInvalidArguments (''local_tools.'' @ t @ '': '' @ e))) r"

definition clamp_usize :: "nat option \<Rightarrow> nat \<Rightarrow> nat \<Rightarrow> nat \<Rightarrow> nat" where
  "clamp_usize v d lo hi = max lo (min hi (option_or v d))"

definition display_relative_path :: "path \<Rightarrow> path \<Rightarrow> string" where
  "display_relative_path root p =
     map (\<lambda>c. if c = CHR 0x5C then CHR ''/'' else c) (option_or (path_strip_prefix p root) p)"

definition is_skipped_extension :: "path \<Rightarrow> bool" where
  "is_skipped_extension p = (case path_extension p of None \<Rightarrow> False
     | Some ext \<Rightarrow> list_ex (\<lambda>skipped. eq_ignore_ascii_case ext skipped) SKIP_EXTENSIONS)"

section \<open>Guards\<close>

definition ensure_within_root :: "path \<Rightarrow> path \<Rightarrow> path \<Rightarrow> local_error + unit" where
  "ensure_within_root root canonical requested =
     (if is_denied_protected_path None canonical then Inl (local_path requested PROTECTED_DENY_REASON)
      else if is_within_root root canonical then Inr ()
      else Inl (local_path requested ''path escapes repository root''))"

definition ensure_read_grant :: "'w local_tools \<Rightarrow> path \<Rightarrow> path \<Rightarrow> local_error + unit" where
  "ensure_read_grant L canonical requested = (case path_strip_prefix canonical (lt_root L) of
     None \<Rightarrow> Inl (local_path requested ''path escapes repository root'')
   | Some relative \<Rightarrow> map_err (local_path requested) (allows_relative (lt_read L) relative Read))"

definition check_file :: "'w local_tools \<Rightarrow> path \<Rightarrow> path \<Rightarrow> string \<Rightarrow> 'w \<Rightarrow> (local_error + path) \<times> 'w" where
  "check_file L relative candidate not_file =
     io_then (io_map_err (local_io ''canonicalize'' candidate) (os_canonicalize (lt_os L) candidate)) (\<lambda>canonical.
     io_then (io_lift (ensure_within_root (lt_root L) canonical relative)) (\<lambda>_.
     io_then (io_lift (ensure_read_grant L canonical relative)) (\<lambda>_.
     io_then (io_map_err (local_io ''metadata'' canonical) (os_metadata (lt_os L) canonical)) (\<lambda>meta.
     if meta \<noteq> RegularFile then io_fail (local_path relative not_file) else io_return canonical))))"

definition resolve_existing_file :: "'w local_tools \<Rightarrow> path \<Rightarrow> 'w \<Rightarrow> (local_error + path) \<times> 'w" where
  "resolve_existing_file L relative =
     io_then (io_lift (map_err (local_path relative) (relative_components relative))) (\<lambda>_.
     let candidate = path_join (lt_root L) relative in
     io_then (io_map_err (local_io ''symlink_metadata'' candidate) (os_symlink_metadata (lt_os L) candidate)) (\<lambda>kind.
     if kind = SymbolicLink then check_file L relative candidate ''symlink target is not a file''
     else check_file L relative candidate ''path is not a file''))"

definition local_read_file :: "'w local_tools \<Rightarrow> path \<Rightarrow> nat option \<Rightarrow> nat option \<Rightarrow> 'w \<Rightarrow> (local_error + json) \<times> 'w" where
  "local_read_file L relative off max_chars =
     (if trim relative = [] then io_fail (invalid_args ''local_tools.read_file'' ''`path` must not be empty'')
      else io_then (io_lift (map_err (local_path relative) (allows_relative (lt_read L) relative Read))) (\<lambda>_.
        io_then (resolve_existing_file L relative) (\<lambda>p.
        io_then (io_map_err (local_io ''read_char_window'' p) (os_open (lt_os L) p)) (\<lambda>rs.
        io_then (io_lift (map_err (\<lambda>e. Some (LIo ''read_char_window'' p e)) (read_char_window (Inr rs) (option_or off 0)
          (clamp_usize max_chars DEFAULT_READ_CHARS MIN_READ_CHARS LOCAL_MAX_READ_CHARS)))) (\<lambda>w.
        io_return (window_json [(''path'', JString (display_relative_path (lt_root L) p))] w))))))"

section \<open>Matching a file\<close>

text \<open>\<open>BufRead::lines\<close> over what the reads return: the lines, or the errors, in order.\<close>

definition finish_line :: "string \<Rightarrow> string + string" where
  "finish_line s = (if utf8_valid s then Inr s else Inl ''stream did not contain valid UTF-8'')"

definition strip_cr :: "string \<Rightarrow> string" where
  "strip_cr s = (if s \<noteq> [] \<and> last s = CHR 0x0D then butlast s else s)"

fun feed_line :: "string \<Rightarrow> string \<Rightarrow> (string + string) list \<times> string" where
  "feed_line acc [] = ([], acc)"
| "feed_line acc (c # cs) = (if c = LF then (let (ls, rest) = feed_line [] cs in
       (map_sum id strip_cr (finish_line acc) # ls, rest)) else feed_line (acc @ [c]) cs)"

fun buf_lines :: "string \<Rightarrow> (string + string) list \<Rightarrow> (string + string) list" where
  "buf_lines acc [] = (if acc = [] then [] else [finish_line acc])"
| "buf_lines acc (Inl e # rs) = Inl e # buf_lines [] rs"
| "buf_lines acc (Inr buf # rs) = (let (ls, rest) = feed_line acc buf in ls @ buf_lines rest rs)"

definition is_ascii_str :: "string \<Rightarrow> bool" where
  "is_ascii_str s = list_all (\<lambda>c. of_char c < (128::nat)) s"

fun contains_ignore_ascii_case :: "string \<Rightarrow> string \<Rightarrow> bool" where
  "contains_ignore_ascii_case [] needle = (needle = [])"
| "contains_ignore_ascii_case (c # hay) needle =
     (eq_ignore_ascii_case (take (length needle) (c # hay)) needle \<or> contains_ignore_ascii_case hay needle)"

definition line_matches :: "(string \<Rightarrow> string) \<Rightarrow> string \<Rightarrow> string \<Rightarrow> bool" where
  "line_matches lower line query_lower =
     (if is_ascii_str query_lower \<and> is_ascii_str line then contains_ignore_ascii_case line query_lower
      else contains_str (lower line) query_lower)"

fun first_match :: "(string \<Rightarrow> bool) \<Rightarrow> nat \<Rightarrow> (string + string) list \<Rightarrow> (nat \<times> string) option" where
  "first_match f i [] = None"
| "first_match f i (Inl e # ls) = first_match f (Suc i) ls"
| "first_match f i (Inr l # ls) = (if f l then Some (Suc i, l) else first_match f (Suc i) ls)"

definition match_json :: "path \<Rightarrow> path \<Rightarrow> nat \<Rightarrow> string \<Rightarrow> json" where
  "match_json root p n l = JObject [(''file'', JString (display_relative_path root p)), (''line'', JNumber (show_nat n)),
     (''snippet'', JString (take_chars MAX_SNIPPET_CHARS (trim l)))]"

definition match_file :: "'w local_tools \<Rightarrow> string \<Rightarrow> path \<Rightarrow> 'w \<Rightarrow> (local_error + json option) \<times> 'w" where
  "match_file L query_lower p = io_match (os_open (lt_os L) p) (\<lambda>_. io_return None)
     (\<lambda>rs. io_return (map_option (\<lambda>(n, l). match_json (lt_root L) p n l)
        (first_match (\<lambda>l. line_matches (lt_lower L) l query_lower) 0 (buf_lines [] rs))))"

section \<open>The search\<close>

definition directory_allowed :: "'w local_tools \<Rightarrow> path \<Rightarrow> 'w \<Rightarrow> (local_error + bool) \<times> 'w" where
  "directory_allowed L dir = io_match (os_canonicalize (lt_os L) dir) (\<lambda>_. io_return False) (\<lambda>canonical.
     io_return (is_within_root (lt_root L) canonical \<and> (case path_strip_prefix canonical (lt_root L) of
        None \<Rightarrow> False | Some relative \<Rightarrow> is_ok (allows_relative (lt_read L) relative Read))))"

definition may_read :: "'w local_tools \<Rightarrow> path \<Rightarrow> path \<Rightarrow> bool" where
  "may_read L canonical requested \<longleftrightarrow> is_ok (ensure_within_root (lt_root L) canonical requested)
     \<and> is_ok (ensure_read_grant L canonical requested)"

definition file_allowed :: "'w local_tools \<Rightarrow> path \<Rightarrow> 'w \<Rightarrow> (local_error + bool) \<times> 'w" where
  "file_allowed L p = io_match (os_canonicalize (lt_os L) p) (\<lambda>_. io_return False)
     (\<lambda>canonical. io_return (may_read L canonical p))"

definition match_symlink_file :: "'w local_tools \<Rightarrow> string \<Rightarrow> path \<Rightarrow> 'w \<Rightarrow> (local_error + json option) \<times> 'w" where
  "match_symlink_file L query_lower p = io_match (os_canonicalize (lt_os L) p) (\<lambda>_. io_return None) (\<lambda>canonical.
     if \<not> may_read L canonical p then io_return None
     else io_match (os_metadata (lt_os L) canonical) (\<lambda>_. io_return None) (\<lambda>meta.
       if meta \<noteq> RegularFile \<or> is_skipped_extension canonical then io_return None
       else match_file L query_lower canonical))"

text \<open>One entry: what it adds to the matches and to the stack.\<close>

definition search_entry ::
  "'w local_tools \<Rightarrow> string \<Rightarrow> path \<Rightarrow> string \<Rightarrow> file_kind \<Rightarrow> 'w \<Rightarrow> (local_error + json list \<times> path list) \<times> 'w" where
  "search_entry L query_lower dir name kind = (let p = path_join dir name in
     if kind = SymbolicLink then io_then (match_symlink_file L query_lower p) (\<lambda>found.
       io_return (case found of Some m \<Rightarrow> [m] | None \<Rightarrow> [], []))
     else if kind = Directory then
       (if name \<in> set SKIP_DIRS then io_return ([], [])
        else io_then (directory_allowed L p) (\<lambda>ok. io_return ([], if ok then [p] else [])))
     else if kind \<noteq> RegularFile \<or> is_skipped_extension p then io_return ([], [])
     else io_then (file_allowed L p) (\<lambda>ok.
       if \<not> ok then io_return ([], [])
       else io_then (match_file L query_lower p) (\<lambda>found.
         io_return (case found of Some m \<Rightarrow> [m] | None \<Rightarrow> [], []))))"

fun search_entries ::
  "'w local_tools \<Rightarrow> string \<Rightarrow> nat \<Rightarrow> path \<Rightarrow> dir_item list \<Rightarrow> json list \<Rightarrow> path list \<Rightarrow> 'w
     \<Rightarrow> (local_error + json list \<times> path list) \<times> 'w" where
  "search_entries L q n dir [] matches stack = io_return (matches, stack)"
| "search_entries L q n dir (item # items) matches stack =
     (if n \<le> length matches then io_return (matches, stack)
      else (case item of
        Inr (name, Inr kind) \<Rightarrow> io_then (search_entry L q dir name kind) (\<lambda>(found, dirs).
          search_entries L q n dir items (matches @ found) (stack @ dirs))
      | _ \<Rightarrow> search_entries L q n dir items matches stack))"

fun search_loop ::
  "nat \<Rightarrow> 'w local_tools \<Rightarrow> string \<Rightarrow> nat \<Rightarrow> path list \<Rightarrow> json list \<Rightarrow> 'w \<Rightarrow> (local_error + json list) \<times> 'w" where
  "search_loop 0 L q n stack matches = (if stack = [] then io_return matches else io_fail None)"
| "search_loop (Suc fuel) L q n stack matches =
     (if stack = [] then io_return matches
      else (let dir = last stack; stack = butlast stack in
        if n \<le> length matches then io_return matches
        else io_then (directory_allowed L dir) (\<lambda>ok.
          if \<not> ok then search_loop fuel L q n stack matches
          else io_match (os_read_dir (lt_os L) dir) (\<lambda>_. search_loop fuel L q n stack matches) (\<lambda>items.
            io_then (search_entries L q n dir items matches stack) (\<lambda>(matches, stack).
              search_loop fuel L q n stack matches)))))"

definition path_is_dir :: "'w local_tools \<Rightarrow> path \<Rightarrow> 'w \<Rightarrow> (local_error + bool) \<times> 'w" where
  "path_is_dir L p = io_match (os_metadata (lt_os L) p) (\<lambda>_. io_return False) (\<lambda>kind. io_return (kind = Directory))"

fun initial_dirs :: "'w local_tools \<Rightarrow> relative_grant list \<Rightarrow> 'w \<Rightarrow> (local_error + path list) \<times> 'w" where
  "initial_dirs L [] = io_return []"
| "initial_dirs L (g # gs) = (let p = if grant_components g = [] then lt_root L else path_join (lt_root L) (grant_as_path g) in
     io_then (path_is_dir L p) (\<lambda>is_dir.
     io_then (initial_dirs L gs) (\<lambda>dirs. io_return (if is_dir then p # dirs else dirs))))"

definition initial_search_dirs :: "'w local_tools \<Rightarrow> 'w \<Rightarrow> (local_error + path list) \<times> 'w" where
  "initial_search_dirs L = (if scope_mode (lt_read L) = Legacy then io_return [lt_root L]
     else initial_dirs L (grants (lt_read L)))"

definition search_docs_blocking :: "nat \<Rightarrow> 'w local_tools \<Rightarrow> string \<Rightarrow> nat \<Rightarrow> 'w \<Rightarrow> (local_error + json list) \<times> 'w" where
  "search_docs_blocking fuel L query n = io_then (initial_search_dirs L) (\<lambda>dirs.
     search_loop fuel L (lt_lower L query) n dirs [])"

definition search_docs :: "nat \<Rightarrow> 'w local_tools \<Rightarrow> string \<Rightarrow> nat option \<Rightarrow> 'w \<Rightarrow> (local_error + json) \<times> 'w" where
  "search_docs fuel L query max_results =
     (if trim query = [] then io_fail (invalid_args ''local_tools.search_docs'' ''`query` must not be empty'')
      else io_then (search_docs_blocking fuel L (trim query)
          (clamp_usize max_results DEFAULT_MAX_RESULTS MIN_MAX_RESULTS MAX_MAX_RESULTS)) (\<lambda>matches.
        io_return (JObject [(''query'', JString (trim query)), (''total_matches'', JNumber (show_nat (length matches))),
          (''matches'', JArray matches)])))"

definition local_tools_call :: "nat \<Rightarrow> 'w local_tools \<Rightarrow> string \<Rightarrow> json \<Rightarrow> 'w \<Rightarrow> (local_error + json) \<times> 'w" where
  "local_tools_call fuel L t arguments =
     (if t = ''search_docs'' then io_then (io_lift (decode_local_args t (lt_search_args L arguments)))
        (\<lambda>(query, n). search_docs fuel L query n)
      else if t = ''read_file'' then io_then (io_lift (decode_local_args t (lt_read_args L arguments)))
        (\<lambda>(p, off, n). local_read_file L p off n)
      else io_fail (Some (LUnknownTool t)))"

definition local_tools_new :: "'w local_tools \<Rightarrow> 'w \<Rightarrow> (local_error + 'w local_tools) \<times> 'w" where
  "local_tools_new L = (let F = lt_os L; root = lt_root L in
     io_then (io_map_err (local_io ''create_dir_all'' root) (os_create_dir_all F root)) (\<lambda>_.
     io_then (io_map_err (local_io ''canonicalize'' root) (os_canonicalize F root)) (\<lambda>canonical.
     io_then (io_map_err (local_io ''metadata'' canonical) (os_metadata F canonical)) (\<lambda>meta.
     if meta \<noteq> Directory then io_fail (local_path canonical ''root is not a directory'')
     else io_return (L\<lparr>lt_root := canonical\<rparr>)))))"

section \<open>What a call may do\<close>

definition searchable :: "'w local_tools \<Rightarrow> path \<Rightarrow> bool" where
  "searchable L canonical \<longleftrightarrow> is_within_root (lt_root L) canonical \<and> (\<exists>relative.
     path_strip_prefix canonical (lt_root L) = Some relative \<and> allows_relative (lt_read L) relative Read = Inr ())"

definition readable :: "'w local_tools \<Rightarrow> path \<Rightarrow> bool" where
  "readable L canonical \<longleftrightarrow> searchable L canonical \<and> \<not> path_contains_protected_segment canonical"

text \<open>A match that a search may report: the first matching line of a file it may read.\<close>

definition genuine :: "'w local_tools \<Rightarrow> string \<Rightarrow> json \<Rightarrow> bool" where
  "genuine L query m \<longleftrightarrow> (\<exists>q c p w rs n l. resolves (lt_os L) q c \<and> readable L c \<and> (p = c \<or> p = q)
     \<and> fst (os_open (lt_os L) p w) = Inr rs
     \<and> first_match (\<lambda>l. line_matches (lt_lower L) l query) 0 (buf_lines [] rs) = Some (n, l)
     \<and> m = match_json (lt_root L) p n l)"

inductive local_effect :: "'w local_tools \<Rightarrow> 'w \<Rightarrow> 'w \<Rightarrow> bool" for L where
  canonicalizes: "local_effect L w (snd (os_canonicalize (lt_os L) p w))"
| stats: "local_effect L w (snd (os_metadata (lt_os L) p w))"
| lstats: "local_effect L w (snd (os_symlink_metadata (lt_os L) p w))"
| searches: "resolves (lt_os L) p c \<Longrightarrow> searchable L c \<Longrightarrow> local_effect L w (snd (os_read_dir (lt_os L) p w))"
| opens: "resolves (lt_os L) q c \<Longrightarrow> readable L c \<Longrightarrow> p = c \<or> p = q \<Longrightarrow>
     local_effect L w (snd (os_open (lt_os L) p w))"

lemma runs_canonicalize: "runs (local_effect L) (resolves (lt_os L) p) (os_canonicalize (lt_os L) p)"
  unfolding resolves_def by (rule runs_result) (rule local_effect.canonicalizes)

lemma runs_local_lookups:
  "runs (local_effect L) (\<lambda>_. True) (os_metadata (lt_os L) p)"
  "runs (local_effect L) (\<lambda>_. True) (os_symlink_metadata (lt_os L) p)"
  by (rule runs_step, rule local_effect.stats local_effect.lstats)+

lemma runs_search: "resolves (lt_os L) p c \<Longrightarrow> searchable L c \<Longrightarrow>
    runs (local_effect L) (\<lambda>_. True) (os_read_dir (lt_os L) p)"
  by (rule runs_step) (rule local_effect.searches)

lemma runs_open: "resolves (lt_os L) q c \<Longrightarrow> readable L c \<Longrightarrow> p = c \<or> p = q \<Longrightarrow>
    runs (local_effect L) (\<lambda>rs. \<exists>w. fst (os_open (lt_os L) p w) = Inr rs) (os_open (lt_os L) p)"
  by (rule runs_result) (rule local_effect.opens)

lemma within_root_ok: "ensure_within_root root p requested = Inr () \<longleftrightarrow> is_within_root root p \<and> \<not> path_contains_protected_segment p"
  by (simp add: ensure_within_root_def is_denied_protected_path_def)

lemma read_grant_ok: "ensure_read_grant L p requested = Inr () \<longleftrightarrow> (\<exists>relative.
    path_strip_prefix p (lt_root L) = Some relative \<and> allows_relative (lt_read L) relative Read = Inr ())"
  by (auto simp: ensure_read_grant_def map_err_eq_Inr split: option.splits)

lemma readable_iff: "readable L p \<longleftrightarrow> ensure_within_root (lt_root L) p requested = Inr () \<and> ensure_read_grant L p requested = Inr ()"
  by (auto simp: readable_def searchable_def within_root_ok read_grant_ok)

lemma may_read_iff: "may_read L p requested \<longleftrightarrow> readable L p"
  by (simp add: may_read_def is_ok_iff readable_iff [of L p requested])

lemmas runs_local = runs_intros runs_local_lookups runs_canonicalize runs_search

lemma match_file_runs:
  assumes "resolves (lt_os L) q c" and "readable L c" and "p = c \<or> p = q"
  shows "runs (local_effect L) (\<lambda>r. \<forall>m. r = Some m \<longrightarrow> genuine L query m) (match_file L query p)"
  unfolding match_file_def
proof (rule runs_match [OF runs_open [OF assms]])
  fix rs
  assume "\<exists>w. fst (os_open (lt_os L) p w) = Inr rs"
  then show "runs (local_effect L) (\<lambda>r. \<forall>m. r = Some m \<longrightarrow> genuine L query m) (io_return (map_option
      (\<lambda>(n, l). match_json (lt_root L) p n l)
      (first_match (\<lambda>l. line_matches (lt_lower L) l query) 0 (buf_lines [] rs))))"
    using assms by (intro runs_return) (fastforce simp: genuine_def)
qed (simp add: runs_return)

lemma check_file_runs: "runs (local_effect L) (\<lambda>c. readable L c \<and> resolves (lt_os L) p c) (check_file L relative p e)"
  unfolding check_file_def by (rule runs_local | simp add: readable_iff [of L _ relative])+

lemma resolve_file_runs: "runs (local_effect L) (\<lambda>c. readable L c \<and> (\<exists>p. resolves (lt_os L) p c)) (resolve_existing_file L relative)"
  unfolding resolve_existing_file_def Let_def
  by (rule runs_local runs_weaken [OF check_file_runs] | blast)+

lemma open_resolved_runs:
  "readable L c \<and> (\<exists>p. resolves (lt_os L) p c) \<Longrightarrow> runs (local_effect L) (\<lambda>_. True) (os_open (lt_os L) c)"
  using runs_open [of L _ c c] by (auto intro: runs_weaken)

lemma read_file_runs: "runs (local_effect L) (\<lambda>_. True) (local_read_file L relative off n)"
  unfolding local_read_file_def
  by (intro runs_if runs_fail runs_then [OF runs_lift] runs_then [OF resolve_file_runs]
      runs_then [OF runs_map_err [OF open_resolved_runs]] runs_return TrueI)

lemma directory_allowed_runs:
  "runs (local_effect L) (\<lambda>ok. ok \<longrightarrow> (\<exists>c. resolves (lt_os L) p c \<and> searchable L c)) (directory_allowed L p)"
  unfolding directory_allowed_def
  by (rule runs_local | force simp: searchable_def is_ok_iff split: option.splits)+

lemma file_allowed_runs:
  "runs (local_effect L) (\<lambda>ok. ok \<longrightarrow> (\<exists>c. resolves (lt_os L) p c \<and> readable L c)) (file_allowed L p)"
  unfolding file_allowed_def may_read_iff by (rule runs_local | blast)+

lemma match_symlink_runs:
  "runs (local_effect L) (\<lambda>r. \<forall>m. r = Some m \<longrightarrow> genuine L query m) (match_symlink_file L query p)"
  unfolding match_symlink_file_def may_read_iff
  by (rule runs_local match_file_runs | assumption | simp | blast)+

lemma match_allowed_runs: "\<exists>c. resolves (lt_os L) p c \<and> readable L c \<Longrightarrow>
    runs (local_effect L) (\<lambda>r. \<forall>m. r = Some m \<longrightarrow> genuine L query m) (match_file L query p)"
  using match_file_runs by blast

lemma search_entry_runs:
  "runs (local_effect L) (\<lambda>(found, dirs). list_all (genuine L query) found) (search_entry L query dir name kind)"
  unfolding search_entry_def Let_def
  by (intro runs_if runs_return runs_then [OF match_symlink_runs] runs_then [OF directory_allowed_runs]
      runs_then [OF file_allowed_runs] runs_then [OF match_allowed_runs])
    (simp_all split: option.splits)

lemma search_entries_runs:
  "list_all (genuine L query) matches \<Longrightarrow>
     runs (local_effect L) (\<lambda>(ms, st). list_all (genuine L query) ms) (search_entries L query n dir items matches stack)"
proof (induction items arbitrary: matches stack)
  case (Cons item items)
  have "runs (local_effect L) (\<lambda>(ms, st). list_all (genuine L query) ms) (case item of Inr (name, Inr kind) \<Rightarrow>
      io_then (search_entry L query dir name kind) (\<lambda>(found, dirs).
        search_entries L query n dir items (matches @ found) (stack @ dirs))
    | _ \<Rightarrow> search_entries L query n dir items matches stack)"
    using Cons.prems by (auto split: sum.splits intro!: Cons.IH runs_then [OF search_entry_runs])
  then show ?case using Cons.prems by (auto intro: runs_intros)
qed (simp add: runs_return)

lemma read_dir_allowed_runs:
  "\<exists>c. resolves (lt_os L) p c \<and> searchable L c \<Longrightarrow> runs (local_effect L) (\<lambda>_. True) (os_read_dir (lt_os L) p)"
  using runs_search by blast

lemma search_loop_runs: "list_all (genuine L query) matches \<Longrightarrow>
    runs (local_effect L) (list_all (genuine L query)) (search_loop fuel L query n stack matches)"
proof (induction fuel arbitrary: stack matches)
  case (Suc fuel)
  show ?case
    using Suc.prems unfolding search_loop.simps Let_def split_beta
    by (intro runs_if runs_return runs_then [OF directory_allowed_runs] runs_match [OF read_dir_allowed_runs]
        runs_then [OF search_entries_runs] Suc.IH TrueI) (simp_all add: split_beta)
qed (simp add: runs_return runs_fail)

lemma path_is_dir_runs: "runs (local_effect L) (\<lambda>_. True) (path_is_dir L p)"
  unfolding path_is_dir_def by (rule runs_match [OF runs_local_lookups(1)]) (simp_all add: runs_return)

lemma initial_dirs_runs: "runs (local_effect L) (\<lambda>_. True) (initial_dirs L gs)"
proof (induction gs)
  case (Cons g gs)
  show ?case
    unfolding initial_dirs.simps Let_def
    by (rule runs_then [OF path_is_dir_runs] runs_then [OF Cons.IH] runs_return TrueI)+
qed (simp add: runs_return)

lemma search_blocking_runs:
  "runs (local_effect L) (list_all (genuine L (lt_lower L query))) (search_docs_blocking fuel L query n)"
proof -
  have "runs (local_effect L) (\<lambda>_. True) (initial_search_dirs L)"
    by (simp add: initial_search_dirs_def runs_return initial_dirs_runs)
  then show ?thesis unfolding search_docs_blocking_def by (rule runs_then) (simp add: search_loop_runs)
qed

lemma local_call_runs: "runs (local_effect L) (\<lambda>_. True) (local_tools_call fuel L t arguments)"
  unfolding local_tools_call_def search_docs_def split_beta
  by (intro runs_if runs_fail runs_then [OF runs_lift] runs_then [OF search_blocking_runs]
      runs_return read_file_runs TrueI)

text \<open>
  C12: whatever the model calls and with whatever arguments, a repository tool only reads, and only
  what the policy grants: a directory is listed only if it resolves below the root and inside a
  read grant, and a file is opened only if it resolves below the root, inside a read grant and
  outside the protected store, symbolic links included.
\<close>

theorem local_calls_confined:
  "(local_effect L)\<^sup>*\<^sup>* w (snd (local_tools_call fuel L t arguments w))"
  by (rule runs_world [OF local_call_runs])


section \<open>The search is bounded and ends\<close>

lemma search_entry_result:
  "search_entry L query dir name kind w = (Inr (found, dirs), w') \<Longrightarrow>
     length found \<le> 1 \<and> (dirs = [] \<or> dirs = [path_join dir name] \<and> kind = Directory)"
  by (auto simp: search_entry_def Let_def sequence_defs split: if_splits prod.splits sum.splits option.splits)

lemma search_entries_bounded:
  "search_entries L query n dir items matches stack w = (Inr (ms, st), w') \<Longrightarrow> length matches \<le> n \<Longrightarrow> length ms \<le> n"
proof (induction items arbitrary: matches stack w)
  case (Cons item items)
  then show ?case
    by (fastforce simp: sequence_defs split: if_splits sum.splits prod.splits dest: search_entry_result)
qed (simp add: io_return_def)

lemma search_loop_bounded:
  "search_loop fuel L query n stack matches w = (Inr ms, w') \<Longrightarrow> length matches \<le> n \<Longrightarrow> length ms \<le> n"
proof (induction fuel arbitrary: stack matches w)
  case (Suc fuel)
  then show ?case
    by (auto simp: sequence_defs Let_def split: if_splits sum.splits prod.splits dest: search_entries_bounded)
qed (auto simp: sequence_defs split: if_splits)

text \<open>
  A search reports at most the requested number of matches, never more than a hundred, and
  every one is genuine: the file is readable under the policy, the line is the first of the file
  that contains the query regardless of case, and the snippet is its beginning.
\<close>

theorem search_reports_genuine_matches:
  assumes "search_docs fuel L query k w = (Inr j, w')"
  shows "\<exists>ms. j = JObject [(''query'', JString (trim query)), (''total_matches'', JNumber (show_nat (length ms))),
       (''matches'', JArray ms)]
     \<and> length ms \<le> max 1 (min 100 (option_or k 8)) \<and> list_all (genuine L (lt_lower L (trim query))) ms"
proof -
  let ?n = "clamp_usize k DEFAULT_MAX_RESULTS MIN_MAX_RESULTS MAX_MAX_RESULTS"
  obtain ms w1 where b: "search_docs_blocking fuel L (trim query) ?n w = (Inr ms, w1)"
    and j: "j = JObject [(''query'', JString (trim query)), (''total_matches'', JNumber (show_nat (length ms))),
       (''matches'', JArray ms)]"
    using assms by (auto simp: search_docs_def sequence_defs split: if_splits sum.splits prod.splits)
  have "list_all (genuine L (lt_lower L (trim query))) ms"
    using search_blocking_runs [of L "trim query" fuel ?n] b unfolding runs_def by blast
  moreover have "length ms \<le> ?n"
    using b search_loop_bounded [of fuel L _ ?n _ "[]"]
    by (auto simp: search_docs_blocking_def sequence_defs split: sum.splits prod.splits)
  ultimately show ?thesis
    using j by (simp add: clamp_usize_def MIN_MAX_RESULTS_def MAX_MAX_RESULTS_def DEFAULT_MAX_RESULTS_def)
qed

text \<open>A repository of one file.\<close>

definition sample_os :: "unit os" where
  "sample_os = \<lparr>os_canonicalize = (\<lambda>p. io_return p),
     os_metadata = (\<lambda>p. io_return (if p = ''/r'' then Directory else RegularFile)),
     os_symlink_metadata = (\<lambda>p. io_return (if p = ''/r'' then Directory else RegularFile)),
     os_read_dir = (\<lambda>p. io_return [Inr (''a'', Inr RegularFile)]), os_open = (\<lambda>p. io_return [Inr ''xy'']),
     os_create_dir = (\<lambda>p. io_return ()), os_create_dir_all = (\<lambda>p. io_return ()), os_write = (\<lambda>p s. io_return ()),
     os_open_append = (\<lambda>p. io_return ()), os_append = (\<lambda>p s. io_return ()),
     os_read_to_string = (\<lambda>p. io_return ''xy''), os_rename = (\<lambda>p q. io_return ()),
     os_remove_file = (\<lambda>p. io_return ()), os_remove_dir_all = (\<lambda>p. io_return ())\<rparr>"

definition sample_tools :: "unit local_tools" where
  "sample_tools = \<lparr>lt_root = ''/r'', lt_read = scope_legacy, lt_os = sample_os, lt_lower = id,
     lt_search_args = (\<lambda>_. Inl []), lt_read_args = (\<lambda>_. Inl [])\<rparr>"

theorem search_reports_genuine_matches_witness:
  "\<exists>ms. search_docs 3 sample_tools ''y'' None () = (Inr (JObject [(''query'', JString ''y''), (''total_matches'', JNumber ''1''),
     (''matches'', JArray ms)]), ()) \<and> length ms = 1 \<and> list_all (genuine sample_tools ''y'') ms"
proof -
  let ?m = "JObject [(''file'', JString ''a''), (''line'', JNumber ''1''), (''snippet'', JString ''xy'')]"
  have run: "search_docs 3 sample_tools ''y'' None () = (Inr (JObject [(''query'', JString ''y''),
      (''total_matches'', JNumber ''1''), (''matches'', JArray [?m])]), ())"
    by code_simp
  have "trim ''y'' = ''y''" "show_nat (Suc 0) = ''1''" by code_simp+
  moreover have "lt_lower sample_tools = id" by (simp add: sample_tools_def)
  ultimately have "list_all (genuine sample_tools ''y'') [?m]"
    using search_reports_genuine_matches [OF run] by simp
  then show ?thesis using run by (intro exI [of _ "[?m]"]) simp
qed

text \<open>
  A ranking of directories: a listing ranks below the directory it lists. It exists whenever the
  directory tree is finite.
\<close>

definition ranked :: "'w os \<Rightarrow> (path \<Rightarrow> nat) \<Rightarrow> bool" where
  "ranked F rank \<longleftrightarrow> (\<forall>p w items. fst (os_read_dir F p w) = Inr items \<longrightarrow>
     sum_list (map (\<lambda>item. case item of Inr (name, Inr Directory) \<Rightarrow> Suc (rank (path_join p name)) | _ \<Rightarrow> 0) items) \<le> rank p)"

abbreviation stack_rank :: "(path \<Rightarrow> nat) \<Rightarrow> path list \<Rightarrow> nat" where
  "stack_rank rank stack \<equiv> sum_list (map (\<lambda>p. Suc (rank p)) stack)"

abbreviation items_rank :: "(path \<Rightarrow> nat) \<Rightarrow> path \<Rightarrow> dir_item list \<Rightarrow> nat" where
  "items_rank rank p items \<equiv>
     sum_list (map (\<lambda>item. case item of Inr (name, Inr Directory) \<Rightarrow> Suc (rank (path_join p name)) | _ \<Rightarrow> 0) items)"

lemma search_entries_rank:
  "search_entries L query n dir items matches stack w = (Inr (ms, st), w') \<Longrightarrow>
     stack_rank rank st \<le> stack_rank rank stack + items_rank rank dir items"
proof (induction items arbitrary: matches stack w)
  case (Cons item items)
  show ?case
  proof (cases "n \<le> length matches \<or> \<not> (\<exists>name kind. item = Inr (name, Inr kind))")
    case True
    then show ?thesis
      using Cons by (fastforce simp: sequence_defs split: if_splits sum.splits prod.splits)
  next
    case False
    then obtain name kind where item: "item = Inr (name, Inr kind)" by blast
    then obtain found dirs w1 where e: "search_entry L query dir name kind w = (Inr (found, dirs), w1)"
      and s: "search_entries L query n dir items (matches @ found) (stack @ dirs) w1 = (Inr (ms, st), w')"
      using Cons.prems False by (auto simp: sequence_defs split: sum.splits prod.splits)
    then show ?thesis
      using Cons.IH [OF s] search_entry_result [OF e] by (auto simp: item)
  qed
qed (simp add: io_return_def)

lemma match_file_ends: "ends (match_file L query p)"
  unfolding match_file_def by (intro ends_rules)

lemma lookups_end: "ends (directory_allowed L p)" "ends (file_allowed L p)" "ends (path_is_dir L p)"
  unfolding directory_allowed_def file_allowed_def path_is_dir_def by (intro ends_rules)+

lemma search_entry_ends: "ends (search_entry L query dir name kind)"
  unfolding search_entry_def match_symlink_file_def Let_def
  by (intro ends_rules match_file_ends lookups_end)

lemma search_entries_end: "ends (search_entries L query n dir items matches stack)"
proof (induction items arbitrary: matches stack)
  case (Cons item items)
  have "ends (case item of Inr (name, Inr kind) \<Rightarrow>
      io_then (search_entry L query dir name kind) (\<lambda>(found, dirs).
        search_entries L query n dir items (matches @ found) (stack @ dirs))
    | _ \<Rightarrow> search_entries L query n dir items matches stack)"
    by (auto split: sum.splits intro!: Cons.IH ends_then search_entry_ends)
  then show ?case by (simp add: ends_return)
qed (simp add: ends_return)

lemma search_loop_ends:
  "ranked (lt_os L) rank \<Longrightarrow> stack_rank rank stack \<le> fuel \<Longrightarrow> ends (search_loop fuel L query n stack matches)"
proof (induction fuel arbitrary: stack matches)
  case (Suc fuel)
  show ?case
  proof (cases "stack = []")
    case False
    then obtain dirs dir where stack: "stack = dirs @ [dir]" by (metis append_butlast_last_id)
    then have fuel: "stack_rank rank dirs \<le> fuel" "stack_rank rank dirs + rank dir \<le> fuel"
      using Suc.prems(2) by simp_all
    have "stack_rank rank st \<le> fuel"
      if "os_read_dir (lt_os L) dir w = (Inr items, w1)"
        and "search_entries L query n dir items matches dirs w2 = (Inr (ms, st), w3)" for w items w1 w2 ms st w3
    proof -
      have "items_rank rank dir items \<le> rank dir"
        using Suc.prems(1) that(1) unfolding ranked_def by (metis fst_conv)
      then show ?thesis using search_entries_rank [OF that(2), of rank] fuel(2) by linarith
    qed
    then show ?thesis
      unfolding search_loop.simps Let_def stack
      by (auto intro!: ends_rules lookups_end search_entries_end Suc.IH [OF Suc.prems(1)] fuel split: prod.splits)
  qed (simp add: ends_return)
qed (auto simp: ends_return)

lemma initial_dirs_ends: "ends (initial_dirs L gs)"
proof (induction gs)
  case (Cons g gs)
  then show ?case unfolding initial_dirs.simps Let_def by (intro ends_rules lookups_end)
qed (simp add: ends_return)

lemma initial_dirs_result:
  "initial_dirs L gs w = (Inr dirs, w') \<Longrightarrow> stack_rank rank dirs \<le> sum_list (map (\<lambda>g.
     Suc (rank (if grant_components g = [] then lt_root L else path_join (lt_root L) (grant_as_path g)))) gs)"
  by (induction gs arbitrary: w dirs) (fastforce simp: sequence_defs Let_def split: sum.splits prod.splits if_splits)+



end
