(* ===== verification/Profile_Skills.thy ===== *)
theory Profile_Skills
  imports Skill_Package Tools Read_Window
begin

text \<open>
  The tools that read the indexed skill folders (\<open>src/tools/profile_skills.rs\<close>):
  \<open>profile.list_skill\<close> and \<open>profile.read_skill\<close>. The argument decoders are what \<open>serde\<close> derives.
\<close>

definition SKILL_DEFAULT_MAX_CHARS :: nat where "SKILL_DEFAULT_MAX_CHARS = 50000"
definition SKILL_MAX_READ_CHARS :: nat where "SKILL_MAX_READ_CHARS = 200000"

record skill_decoders =
  name_args :: "json \<Rightarrow> string + string"
  skill_read_args :: "json \<Rightarrow> string + (string \<times> string option \<times> nat option \<times> nat option)"

definition decode_skill_args :: "string \<Rightarrow> string + 'a \<Rightarrow> profile_skill_error + 'a" where
  "decode_skill_args t r = map_err (\<lambda>e. SInvalidArguments (t @ '': '' @ e)) r"

definition find_package :: "skill_packages \<Rightarrow> string \<Rightarrow> profile_skill_error + skill_package" where
  "find_package packages name = (case map_of packages name of
     Some p \<Rightarrow> Inr p | None \<Rightarrow> Inl (SDenied (''skill `'' @ name @ ''` has no folder'')))"

definition skill_list :: "skill_packages \<Rightarrow> string \<Rightarrow> profile_skill_error + json" where
  "skill_list packages name = rbind (find_package packages name) (\<lambda>p.
     Inr (JObject [(''name'', JString name), (''files'', JArray (map (\<lambda>f. JString (sf_relative f)) (pk_files p)))]))"

definition ensure_still_inside :: "'w os \<Rightarrow> path \<Rightarrow> path \<Rightarrow> 'w \<Rightarrow> (string + unit) \<times> 'w" where
  "ensure_still_inside F root p =
     io_then (io_map_err io_text (os_symlink_metadata F p)) (\<lambda>kind.
     if kind = SymbolicLink then io_fail ''skill file must not be a symlink''
     else io_then (io_map_err io_text (os_canonicalize F p)) (\<lambda>canonical.
       io_then (io_map_err io_text (os_canonicalize F root)) (\<lambda>root.
       if \<not> path_starts_with canonical root then io_fail ''skill file escapes the skill directory'' else io_return ())))"

definition read_inside :: "'w os \<Rightarrow> path \<Rightarrow> path \<Rightarrow> nat \<Rightarrow> nat \<Rightarrow> 'w \<Rightarrow> (string + read_window) \<times> 'w" where
  "read_inside F root p off n = io_then (ensure_still_inside F root p) (\<lambda>_.
     io_then (io_map_err io_text (os_open F p)) (\<lambda>rs. io_lift (read_char_window (Inr rs) off n)))"

definition skill_read :: "'w os \<Rightarrow> skill_packages \<Rightarrow> string \<Rightarrow> string option \<Rightarrow> nat option \<Rightarrow> nat option \<Rightarrow> 'w
    \<Rightarrow> (profile_skill_error + json) \<times> 'w" where
  "skill_read F packages name p off max_chars =
     io_then (io_lift (find_package packages name)) (\<lambda>package.
     let relative = option_or p SKILL_BODY_FILE in
     io_then (io_lift (case find (\<lambda>f. sf_relative f = relative) (pk_files package) of
         Some f \<Rightarrow> Inr f | None \<Rightarrow> Inl (SDenied (''`'' @ relative @ ''` is not in skill `'' @ name @ ''`'')))) (\<lambda>entry.
     io_then (io_map_err (SIo ''read_skill'' (sf_relative entry)) (read_inside F (pk_root package) (sf_canonical entry)
         (option_or off 0) (max 1 (min SKILL_MAX_READ_CHARS (option_or max_chars SKILL_DEFAULT_MAX_CHARS))))) (\<lambda>w.
     io_return (JObject [(''name'', JString name), (''path'', JString (sf_relative entry)),
       (''content'', JString (rw_content w)), (''offset'', JNumber (show_nat (rw_offset w))),
       (''chars_returned'', JNumber (show_nat (rw_chars_returned w))), (''truncated'', JBool (rw_truncated w)),
       (''next_offset'', case rw_next_offset w of Some n \<Rightarrow> JNumber (show_nat n) | None \<Rightarrow> JNull)]))))"

definition skill_library_call :: "'w os \<Rightarrow> skill_decoders \<Rightarrow> skill_packages \<Rightarrow> string \<Rightarrow> json \<Rightarrow> 'w
    \<Rightarrow> (profile_skill_error + json) \<times> 'w" where
  "skill_library_call F D packages t arguments =
     (if t = ''list_skill'' then io_then (io_lift (decode_skill_args t (name_args D arguments)))
        (\<lambda>name. io_lift (skill_list packages name))
      else if t = ''read_skill'' then io_then (io_lift (decode_skill_args t (skill_read_args D arguments)))
        (\<lambda>(name, p, off, n). skill_read F packages name p off n)
      else io_fail (SUnknownTool t))"

section \<open>What a call may do\<close>

text \<open>
  A skill tool opens only a file of the index whose canonical path lies below its folder's canonical
  root: both at the time of the index and, resolved again, at the time of the call.
\<close>

definition skill_file :: "'w os \<Rightarrow> (string \<Rightarrow> bool) \<Rightarrow> skill_packages \<Rightarrow> path \<Rightarrow> bool" where
  "skill_file F uni packages p \<longleftrightarrow> (\<exists>(name, package)\<in>set packages. \<exists>f\<in>set (pk_files package).
     p = sf_canonical f \<and> path_starts_with p (pk_root package) \<and> validate_skill_dir_name uni name = Inr ()
     \<and> validate_relative_skill_path (sf_relative f) = Inr ()
     \<and> (\<exists>c r. resolves F p c \<and> resolves F (pk_root package) r \<and> path_starts_with c r))"

inductive skill_effect :: "'w os \<Rightarrow> (string \<Rightarrow> bool) \<Rightarrow> skill_packages \<Rightarrow> 'w \<Rightarrow> 'w \<Rightarrow> bool" for F uni packages where
  canonicalizes: "skill_effect F uni packages w (snd (os_canonicalize F p w))"
| lstats: "skill_effect F uni packages w (snd (os_symlink_metadata F p w))"
| opens: "skill_file F uni packages p \<Longrightarrow> skill_effect F uni packages w (snd (os_open F p w))"

lemma skill_lookups:
  "runs (skill_effect F uni packages) (\<lambda>_. True) (os_symlink_metadata F p)"
  "runs (skill_effect F uni packages) (resolves F p) (os_canonicalize F p)"
  "skill_file F uni packages p \<Longrightarrow> runs (skill_effect F uni packages) (\<lambda>_. True) (os_open F p)"
  unfolding resolves_def
  by (rule runs_step, rule skill_effect.lstats) (rule runs_result, rule skill_effect.canonicalizes,
      rule runs_step, erule skill_effect.opens)

lemma still_inside_runs: "runs (skill_effect F uni packages)
    (\<lambda>_. \<exists>c r. resolves F p c \<and> resolves F root r \<and> path_starts_with c r) (ensure_still_inside F root p)"
  unfolding ensure_still_inside_def
  by (intro runs_then [OF runs_map_err [OF skill_lookups(1)]] runs_if runs_fail
      runs_then [OF runs_map_err [OF skill_lookups(2)]] runs_return) auto

lemma skill_call_runs:
  assumes wf: "wf_packages F uni packages"
  shows "runs (skill_effect F uni packages) (\<lambda>_. True) (skill_library_call F D packages t arguments)"
proof -
  have granted: "skill_file F uni packages (sf_canonical f)"
    if p: "find_package packages name = Inr p" and f: "(case find g (pk_files p) of Some f \<Rightarrow> Inr f | None \<Rightarrow> Inl e) = Inr f"
      and inside: "\<exists>c r. resolves F (sf_canonical f) c \<and> resolves F (pk_root p) r \<and> path_starts_with c r" for name p g e f
  proof -
    have "(name, p) \<in> set packages" using p by (auto simp: find_package_def split: option.splits dest: map_of_SomeD)
    moreover have "f \<in> set (pk_files p)" using f by (auto simp: find_Some_iff split: option.splits)
    ultimately show ?thesis
      using wf inside by (fastforce simp: skill_file_def wf_packages_def wf_package_def indexed_def list_all_iff)
  qed
  show ?thesis
    unfolding skill_library_call_def skill_read_def read_inside_def Let_def split_beta
    by (intro runs_if runs_fail runs_then [OF runs_lift] runs_weaken [OF runs_lift] TrueI runs_return
        runs_then [OF runs_map_err [OF runs_then [OF still_inside_runs runs_then [OF runs_map_err [OF skill_lookups(3)]]]]])
      (auto intro: granted)
qed

text \<open>
  A skill tool reads only what was indexed: with the folders as \<open>load_skill_packages\<close> returns them,
  every call opens at most files of the index, whose relative paths were checked and whose canonical
  paths lie below their folder, both at load time and when they are resolved again before the read.
\<close>

theorem skill_tools_read_indexed_only:
  assumes "load_skill_packages fuel F uni dir w0 = (Inr packages, w1)"
  shows "(skill_effect F uni packages)\<^sup>*\<^sup>* w (snd (skill_library_call F D packages t arguments w))"
proof -
  have "wf_packages F uni packages"
    using assms by (rule load_result_wf)
  then show ?thesis by (rule runs_world [OF skill_call_runs])
qed

definition fixed_decoders :: skill_decoders where
  "fixed_decoders = \<lparr>name_args = (\<lambda>_. Inr ''r''), skill_read_args = (\<lambda>_. Inr (''r'', None, None, None))\<rparr>"

theorem skill_tools_read_indexed_only_witness:
  "\<exists>packages. load_skill_packages 3 one_skill_os (\<lambda>_. False) ''x'' () = (Inr packages, ())
     \<and> (skill_effect one_skill_os (\<lambda>_. False) packages)\<^sup>*\<^sup>* ()
         (snd (skill_library_call one_skill_os fixed_decoders packages ''read_skill'' JNull ()))"
proof -
  have "is_ok (fst (load_skill_packages 3 one_skill_os (\<lambda>_. False) ''x'' ()))" by code_simp
  then obtain packages where run: "load_skill_packages 3 one_skill_os (\<lambda>_. False) ''x'' () = (Inr packages, ())"
    by (cases "load_skill_packages 3 one_skill_os (\<lambda>_. False) ''x'' ()") (auto simp: is_ok_iff)
  then show ?thesis using skill_tools_read_indexed_only [OF run] by blast
qed

end
