(* ===== verification/Builtin_Tools.thy ===== *)
theory Builtin_Tools
  imports Local_Tools Profile_Skills
begin

text \<open>
  The built-in tools together, behind the policy: the composite executor of \<open>Tools\<close> over the home
  tools, the repository tools and the skill tools, and what any sequence of calls may do.
\<close>

text \<open>The repository tools as the composite calls them; \<open>fuel\<close> is enough when the error is one of theirs.\<close>

definition local_handler :: "nat \<Rightarrow> 'w local_tools \<Rightarrow> string \<Rightarrow> json \<Rightarrow> 'w \<Rightarrow> (local_tools_error + json) \<times> 'w" where
  "local_handler fuel L t arguments w = apfst (map_err the) (local_tools_call fuel L t arguments w)"

definition builtin_tools ::
  "'w home_fs \<Rightarrow> nat \<Rightarrow> 'w local_tools \<Rightarrow> 'w os \<Rightarrow> skill_decoders \<Rightarrow> skill_packages \<Rightarrow> 'w tool_executor \<Rightarrow> 'w composite_tools" where
  "builtin_tools H fuel L F D packages mcp = \<lparr>home_call = home_fs_call H, local_call = local_handler fuel L,
     skills_call = skill_library_call F D packages, external = mcp\<rparr>"

inductive agent_effect ::
  "effective_tool_policy \<Rightarrow> 'w home_fs \<Rightarrow> 'w local_tools \<Rightarrow> 'w os \<Rightarrow> (string \<Rightarrow> bool) \<Rightarrow> skill_packages \<Rightarrow> 'w tool_executor
     \<Rightarrow> 'w \<Rightarrow> 'w \<Rightarrow> bool" for policy H L F uni packages mcp where
  by_home: "allows_server_tool policy srv t \<Longrightarrow> handler_for_server srv = Some Home \<Longrightarrow> home_effect H w w' \<Longrightarrow>
     agent_effect policy H L F uni packages mcp w w'"
| by_local: "allows_server_tool policy srv t \<Longrightarrow> handler_for_server srv = Some LocalTools \<Longrightarrow> local_effect L w w' \<Longrightarrow>
     agent_effect policy H L F uni packages mcp w w'"
| by_skills: "allows_server_tool policy srv t \<Longrightarrow> handler_for_server srv = Some Profile \<Longrightarrow> skill_effect F uni packages w w' \<Longrightarrow>
     agent_effect policy H L F uni packages mcp w w'"
| by_mcp: "allows_server_tool policy srv t \<Longrightarrow> \<not> is_builtin_server srv \<Longrightarrow>
     agent_effect policy H L F uni packages mcp w (snd (call_tool mcp srv t a w))"

lemma rtranclp_lift: "S\<^sup>*\<^sup>* w w' \<Longrightarrow> (\<And>x y. S x y \<Longrightarrow> T x y) \<Longrightarrow> T\<^sup>*\<^sup>* w w'"
  by (induction rule: rtranclp_induct) (auto intro: rtranclp.rtrancl_into_rtrancl)

lemma composite_effects:
  assumes "wf_packages F uni packages" and "allows_server_tool policy srv t"
  shows "(agent_effect policy H L F uni packages mcp)\<^sup>*\<^sup>* w
    (snd (composite_call (builtin_tools H fuel L F D packages mcp) srv t a w))"
proof (cases "handler_for_server srv")
  case None
  then have "\<not> is_builtin_server srv" using handler_None by simp
  with assms(2) have "agent_effect policy H L F uni packages mcp w (snd (call_tool mcp srv t a w))"
    by (rule agent_effect.by_mcp)
  then show ?thesis using None by (simp add: composite_call_def builtin_tools_def r_into_rtranclp)
next
  case (Some h)
  note by_home = agent_effect.by_home [OF assms(2), of H _ _ L F uni packages mcp]
    and by_local = agent_effect.by_local [OF assms(2), of L _ _ H F uni packages mcp]
    and by_skills = agent_effect.by_skills [OF assms(2), of F uni packages _ _ H L mcp]
  show ?thesis
  proof (cases h)
    case Home
    have "(home_effect H)\<^sup>*\<^sup>* w (snd (home_fs_call H t a w))" by (rule runs_world [OF call_runs])
    then show ?thesis
      using Some Home by_home
      by (simp add: composite_call_def builtin_tools_def rtranclp_lift)
  next
    case LocalTools
    have "(local_effect L)\<^sup>*\<^sup>* w (snd (local_tools_call fuel L t a w))" by (rule runs_world [OF local_call_runs])
    then show ?thesis
      using Some LocalTools by_local
      by (simp add: composite_call_def builtin_tools_def local_handler_def rtranclp_lift)
  next
    case Profile
    have "(skill_effect F uni packages)\<^sup>*\<^sup>* w (snd (skill_library_call F D packages t a w))"
      by (rule runs_world [OF skill_call_runs [OF assms(1)]])
    then show ?thesis
      using Some Profile by_skills
      by (simp add: composite_call_def builtin_tools_def rtranclp_lift)
  qed
qed



end
