(* ===== verification/Provider_Usage.thy ===== *)
theory Provider_Usage
  imports Billing "HOL-Library.List_Lexorder" "HOL-Library.Char_ord"
begin

text \<open>
  What the provider client reads out of an answer
  (\<open>src/provider/openai_compat.rs\<close>, from \<open>extract_usage\<close> to \<open>insert_optional_metric\<close>):
  the token usage, the billable meters, the cost the provider reports, and the identifiers of
  the request. A \<open>BTreeMap\<close> is the list of its entries in key order. The headers of an answer
  are the function \<open>HeaderMap::get\<close>, which yields no value, or a value that may not be text.
\<close>

section \<open>Saturation\<close>

definition saturating_sub :: "'a::len word \<Rightarrow> 'a word \<Rightarrow> 'a word" where
  "saturating_sub a b = (if b \<le> a then a - b else 0)"

definition saturating_mul :: "'a::len word \<Rightarrow> 'a word \<Rightarrow> 'a word" where
  "saturating_mul a b = (if unat a * unat b < 2 ^ LENGTH('a) then a * b else - 1)"

lemma unat_saturating_sub: "unat (saturating_sub a (b :: 'a::len word)) = unat a - unat b"
  by (simp add: saturating_sub_def unat_sub word_le_nat_alt)

lemma unat_saturating_mul:
  "unat (saturating_mul a (b :: 'a::len word)) = min (unat a * unat b) (2 ^ LENGTH('a) - 1)"
proof (cases "unat a * unat b < 2 ^ LENGTH('a)")
  case True
  then show ?thesis by (simp add: saturating_mul_def unat_word_ariths)
next
  case False
  then show ?thesis by (simp add: saturating_mul_def unsigned_minus_1_eq_mask mask_eq_exp_minus_1)
qed

section \<open>Maps in key order\<close>

fun btree_insert :: "'k::linorder \<Rightarrow> 'v \<Rightarrow> ('k \<times> 'v) list \<Rightarrow> ('k \<times> 'v) list" where
  "btree_insert k v [] = [(k, v)]"
| "btree_insert k v ((k', v') # kvs) =
     (if k < k' then (k, v) # (k', v') # kvs
      else if k = k' then (k, v) # kvs
      else (k', v') # btree_insert k v kvs)"

lemma set_btree_insert: "fst ` set (btree_insert k v kvs) = insert k (fst ` set kvs)"
proof (induction kvs)
  case (Cons e kvs)
  then show ?case by (cases e) (simp add: insert_commute)
qed simp

lemma btree_insert_sorted:
  "sorted_wrt (<) (map fst kvs) \<Longrightarrow> sorted_wrt (<) (map fst (btree_insert k v kvs))"
proof (induction kvs)
  case (Cons e kvs)
  obtain k' v' where e: "e = (k', v')" by (cases e)
  have "fst ` set (btree_insert k v kvs) = insert k (fst ` set kvs)" by (rule set_btree_insert)
  then show ?case using Cons by (auto simp: e)
qed simp

lemma map_of_btree_insert: "sorted_wrt (<) (map fst kvs) \<Longrightarrow> map_of (btree_insert k v kvs) = (map_of kvs)(k \<mapsto> v)"
proof (induction kvs)
  case (Cons e kvs)
  then show ?case
    by (cases e) (auto simp: fun_eq_iff fun_upd_def)
qed simp

text \<open>The derived \<open>Ord\<close> of \<open>BillableMetric\<close>: by variant, then by the name of an \<open>Other\<close>.\<close>

definition metric_rank :: "billable_metric \<Rightarrow> nat \<times> string" where
  "metric_rank m = (case m of
     InputTokens \<Rightarrow> (0, []) | CachedInputTokens \<Rightarrow> (1, []) | CacheWriteInputTokens \<Rightarrow> (2, [])
   | OutputTokens \<Rightarrow> (3, []) | ReasoningTokens \<Rightarrow> (4, []) | AudioInputTokens \<Rightarrow> (5, [])
   | AudioOutputTokens \<Rightarrow> (6, []) | ImageInputTokens \<Rightarrow> (7, []) | ImageOutputTokens \<Rightarrow> (8, [])
   | WebSearchRequests \<Rightarrow> (9, []) | Other v \<Rightarrow> (10, v))"

lemma metric_rank_inj: "metric_rank a = metric_rank b \<longleftrightarrow> a = b"
  by (cases a; cases b) (simp_all add: metric_rank_def)

instantiation billable_metric :: linorder
begin

definition less_eq_billable_metric :: "billable_metric \<Rightarrow> billable_metric \<Rightarrow> bool" where
  "less_eq_billable_metric a b \<longleftrightarrow> fst (metric_rank a) < fst (metric_rank b)
     \<or> (fst (metric_rank a) = fst (metric_rank b) \<and> snd (metric_rank a) \<le> snd (metric_rank b))"

definition less_billable_metric :: "billable_metric \<Rightarrow> billable_metric \<Rightarrow> bool" where
  "less_billable_metric a b \<longleftrightarrow> fst (metric_rank a) < fst (metric_rank b)
     \<or> (fst (metric_rank a) = fst (metric_rank b) \<and> snd (metric_rank a) < snd (metric_rank b))"

instance
  by standard (auto simp: less_eq_billable_metric_def less_billable_metric_def metric_rank_inj [symmetric] prod_eq_iff)

end

section \<open>JSON pointers\<close>

text \<open>
  \<open>serde_json\<close>'s \<open>Value::pointer\<close> (RFC 6901): reference tokens behind slashes, where \<open>~1\<close>
  stands for a slash and \<open>~0\<close> for a tilde; an array is indexed by plain decimal digits.
\<close>

fun replace_tilde :: "char \<Rightarrow> char \<Rightarrow> string \<Rightarrow> string" where
  "replace_tilde d r (c # c' # s) =
     (if c = CHR ''~'' \<and> c' = d then r # replace_tilde d r s else c # replace_tilde d r (c' # s))"
| "replace_tilde d r s = s"

definition pointer_tokens :: "string \<Rightarrow> string list" where
  "pointer_tokens p =
     map (\<lambda>t. replace_tilde (CHR ''0'') (CHR ''~'') (replace_tilde (CHR ''1'') (CHR ''/'') t)) (tl (split_on (CHR ''/'') p))"

definition array_index :: "string \<Rightarrow> nat option" where
  "array_index s =
     (if starts_with s ''+'' \<or> (starts_with s ''0'' \<and> length s \<noteq> 1) then None
      else parse_unsigned (2 ^ 64) s)"

fun pointer_walk :: "json \<Rightarrow> string list \<Rightarrow> json option" where
  "pointer_walk v [] = Some v"
| "pointer_walk v (t # ts) = (case v of
     JObject kvs \<Rightarrow> Option.bind (map_of kvs t) (\<lambda>u. pointer_walk u ts)
   | JArray us \<Rightarrow> Option.bind (array_index t) (\<lambda>i. if i < length us then pointer_walk (us ! i) ts else None)
   | _ \<Rightarrow> None)"

definition json_pointer :: "json \<Rightarrow> string \<Rightarrow> json option" where
  "json_pointer v p = (if p = [] then Some v
     else if \<not> starts_with p ''/'' then None else pointer_walk v (pointer_tokens p))"

fun json_as_u64 :: "json \<Rightarrow> u64 option" where
  "json_as_u64 (JNumber lexeme) = parse_u64 lexeme"
| "json_as_u64 _ = None"

fun json_as_object :: "json \<Rightarrow> (string \<times> json) list option" where
  "json_as_object (JObject kvs) = Some kvs"
| "json_as_object _ = None"

fun find_map :: "('a \<Rightarrow> 'b option) \<Rightarrow> 'a list \<Rightarrow> 'b option" where
  "find_map f [] = None"
| "find_map f (x # xs) = (case f x of Some y \<Rightarrow> Some y | None \<Rightarrow> find_map f xs)"

definition string_at :: "json \<Rightarrow> string \<Rightarrow> string option" where
  "string_at v p = Option.bind (json_pointer v p) json_as_str"

definition u64_at_any :: "json \<Rightarrow> string list \<Rightarrow> u64 option" where
  "u64_at_any v ps = find_map (\<lambda>p. Option.bind (json_pointer v p) json_as_u64) ps"

section \<open>Usage\<close>

record extracted_usage =
  xu_usage :: token_usage
  xu_reported :: bool
  xu_metrics :: "(billable_metric \<times> u64) list"

definition default_extracted :: extracted_usage where
  "default_extracted = \<lparr>xu_usage = default_usage, xu_reported = False, xu_metrics = []\<rparr>"

definition or_zero :: "u64 option \<Rightarrow> u64" where
  "or_zero n = (case n of Some k \<Rightarrow> k | None \<Rightarrow> 0)"

definition insert_optional_metric ::
  "billable_metric \<Rightarrow> u64 option \<Rightarrow> (billable_metric \<times> u64) list \<Rightarrow> (billable_metric \<times> u64) list" where
  "insert_optional_metric m q ms = (case q of Some k \<Rightarrow> btree_insert m k ms | None \<Rightarrow> ms)"

definition positive :: "u64 \<Rightarrow> u64 option" where
  "positive n = (if n > 0 then Some n else None)"

text \<open>
  The two halves of \<open>extract_usage\<close>: the counters of the usage object, and the totals and
  meters computed from them.
\<close>

record usage_counts =
  uc_aggregate_prompt :: "u64 option"
  uc_anthropic_input :: "u64 option"
  uc_cached :: u64
  uc_cache_write :: u64
  uc_visible_output :: u64
  uc_reasoning :: u64
  uc_separate_thinking :: bool
  uc_total :: "u64 option"
  uc_audio_input :: u64
  uc_image_input :: u64
  uc_audio_output :: u64
  uc_image_output :: u64
  uc_web_search :: "u64 option"

definition usage_counts_of :: "json \<Rightarrow> usage_counts" where
  "usage_counts_of u = \<lparr>
     uc_aggregate_prompt = u64_at_any u [''/prompt_tokens'', ''/promptTokenCount'', ''/prompt_token_count''],
     uc_anthropic_input = u64_at_any u [''/input_tokens''],
     uc_cached = or_zero (u64_at_any u [''/prompt_tokens_details/cached_tokens'',
       ''/input_tokens_details/cached_tokens'', ''/cache_read_input_tokens'',
       ''/cachedContentTokenCount'', ''/cached_content_token_count'']),
     uc_cache_write = or_zero (u64_at_any u [''/prompt_tokens_details/cache_write_tokens'',
       ''/cache_creation_input_tokens'']),
     uc_visible_output = or_zero (u64_at_any u [''/completion_tokens'', ''/output_tokens'',
       ''/candidatesTokenCount'', ''/candidates_token_count'', ''/responseTokenCount'']),
     uc_reasoning = or_zero (u64_at_any u [''/completion_tokens_details/reasoning_tokens'',
       ''/output_tokens_details/reasoning_tokens'', ''/thoughtsTokenCount'', ''/thoughts_token_count'']),
     uc_separate_thinking = (json_get u ''thoughtsTokenCount'' \<noteq> None \<or> json_get u ''thoughts_token_count'' \<noteq> None),
     uc_total = u64_at_any u [''/total_tokens'', ''/totalTokenCount'', ''/total_token_count''],
     uc_audio_input = or_zero (u64_at_any u [''/prompt_tokens_details/audio_tokens'',
       ''/input_tokens_details/audio_tokens'']),
     uc_image_input = or_zero (u64_at_any u [''/prompt_tokens_details/image_tokens'',
       ''/input_tokens_details/image_tokens'']),
     uc_audio_output = or_zero (u64_at_any u [''/completion_tokens_details/audio_tokens'',
       ''/output_tokens_details/audio_tokens'']),
     uc_image_output = or_zero (u64_at_any u [''/completion_tokens_details/image_tokens'',
       ''/output_tokens_details/image_tokens'']),
     uc_web_search = u64_at_any u [''/server_tool_use/web_search_requests'',
       ''/server_tool_use_details/web_search_requests'']\<rparr>"

definition counted_prompt :: "usage_counts \<Rightarrow> u64" where
  "counted_prompt c = (case uc_aggregate_prompt c of Some p \<Rightarrow> p
     | None \<Rightarrow> saturating_add (saturating_add (or_zero (uc_anthropic_input c)) (uc_cached c)) (uc_cache_write c))"

definition counted_completion :: "usage_counts \<Rightarrow> u64" where
  "counted_completion c = (if uc_separate_thinking c
     then saturating_add (uc_visible_output c) (uc_reasoning c) else uc_visible_output c)"

definition uncached_input :: "usage_counts \<Rightarrow> u64" where
  "uncached_input c = (if uc_aggregate_prompt c \<noteq> None
     then saturating_sub (saturating_sub (counted_prompt c) (uc_cached c)) (uc_cache_write c)
     else (case uc_anthropic_input c of Some n \<Rightarrow> n | None \<Rightarrow> counted_prompt c))"

definition usage_meters :: "usage_counts \<Rightarrow> (billable_metric \<times> u64) list" where
  "usage_meters c =
     (let ms = btree_insert InputTokens
                (saturating_sub (saturating_sub (uncached_input c) (uc_audio_input c)) (uc_image_input c)) [];
          ms = btree_insert CachedInputTokens (uc_cached c) ms;
          ms = btree_insert CacheWriteInputTokens (uc_cache_write c) ms;
          ms = btree_insert OutputTokens
                (saturating_sub (saturating_sub (uc_visible_output c) (uc_audio_output c)) (uc_image_output c)) ms;
          ms = (if uc_separate_thinking c then btree_insert ReasoningTokens (uc_reasoning c) ms else ms);
          ms = insert_optional_metric AudioInputTokens (positive (uc_audio_input c)) ms;
          ms = insert_optional_metric ImageInputTokens (positive (uc_image_input c)) ms;
          ms = insert_optional_metric AudioOutputTokens (positive (uc_audio_output c)) ms;
          ms = insert_optional_metric ImageOutputTokens (positive (uc_image_output c)) ms
      in insert_optional_metric WebSearchRequests (uc_web_search c) ms)"

definition extract_usage :: "json \<Rightarrow> extracted_usage" where
  "extract_usage payload =
     (case (case json_get payload ''usage'' of Some u \<Rightarrow> Some u | None \<Rightarrow> json_get payload ''usageMetadata'') of
        None \<Rightarrow> default_extracted
      | Some u \<Rightarrow>
          (let c = usage_counts_of u; prompt = counted_prompt c; completion = counted_completion c in
           \<lparr>xu_usage = \<lparr>prompt_tokens = prompt, completion_tokens = completion,
              total_tokens = (case uc_total c of Some t \<Rightarrow> t | None \<Rightarrow> saturating_add prompt completion)\<rparr>,
            xu_reported = True, xu_metrics = usage_meters c\<rparr>))"

section \<open>Reported cost\<close>

record accounting_options =
  ao_provider_id :: string
  ao_reported_cost_unit :: "string option"
  ao_cost_json_pointers :: "string list"
  ao_cost_headers :: "string list"

definition default_accounting_options :: accounting_options where
  "default_accounting_options = \<lparr>ao_provider_id = ''openai_compatible'', ao_reported_cost_unit = None,
     ao_cost_json_pointers = [''/usage/cost'', ''/usage/response_cost/total_cost''],
     ao_cost_headers = [''x-litellm-response-cost'']\<rparr>"

type_synonym header_map = "string \<Rightarrow> string option option"

definition header_text :: "header_map \<Rightarrow> string \<Rightarrow> string option" where
  "header_text headers name = (case headers name of Some (Some t) \<Rightarrow> Some t | _ \<Rightarrow> None)"

definition ok_amount :: "(json \<Rightarrow> string) \<Rightarrow> 'd decimal_ops \<Rightarrow> json \<Rightarrow> 'd option" where
  "ok_amount to_string D v = (case decimal_from_value to_string D v of Inr d \<Rightarrow> Some d | Inl _ \<Rightarrow> None)"

definition extract_reported_cost_details ::
  "(json \<Rightarrow> string) \<Rightarrow> 'd decimal_ops \<Rightarrow> json \<Rightarrow> (string \<times> 'd) list" where
  "extract_reported_cost_details to_string D payload =
     fold (\<lambda>(name, v) ds. case ok_amount to_string D v of Some d \<Rightarrow> btree_insert name d ds | None \<Rightarrow> ds)
       (concat (List.map_filter (\<lambda>p. Option.bind (json_pointer payload p) json_as_object)
          [''/usage/cost_details'', ''/usage/response_cost'', ''/cost_details''])) []"

definition cost_from_pointer ::
  "(json \<Rightarrow> string) \<Rightarrow> 'd decimal_ops \<Rightarrow> accounting_options \<Rightarrow> json \<Rightarrow> string \<Rightarrow> 'd reported_cost option" where
  "cost_from_pointer to_string D opts payload p =
     Option.bind (json_pointer payload p) (\<lambda>v. Option.bind (ok_amount to_string D v) (\<lambda>d.
       Some \<lparr>rc_amount = d, rc_unit = ao_reported_cost_unit opts, rc_source = ''provider_json:'' @ p,
         rc_details = extract_reported_cost_details to_string D payload\<rparr>))"

definition cost_from_header ::
  "'d decimal_ops \<Rightarrow> accounting_options \<Rightarrow> header_map \<Rightarrow> string \<Rightarrow> 'd reported_cost option" where
  "cost_from_header D opts headers name =
     Option.bind (header_text headers name) (\<lambda>t. case parse_decimal D t of
       Inr d \<Rightarrow> Some \<lparr>rc_amount = d, rc_unit = ao_reported_cost_unit opts,
         rc_source = ''provider_header:'' @ map to_ascii_lower name, rc_details = []\<rparr>
     | Inl _ \<Rightarrow> None)"

definition extract_reported_cost ::
  "(json \<Rightarrow> string) \<Rightarrow> 'd decimal_ops \<Rightarrow> json option \<Rightarrow> header_map \<Rightarrow> accounting_options \<Rightarrow> 'd reported_cost option" where
  "extract_reported_cost to_string D payload headers opts =
     (case Option.bind payload (\<lambda>v. find_map (cost_from_pointer to_string D opts v) (ao_cost_json_pointers opts)) of
        Some c \<Rightarrow> Some c
      | None \<Rightarrow> find_map (cost_from_header D opts headers) (ao_cost_headers opts))"

definition request_id_from_headers :: "header_map \<Rightarrow> string option" where
  "request_id_from_headers headers =
     find_map (header_text headers) [''x-request-id'', ''request-id'', ''x-openai-request-id'']"

section \<open>Every token is billed\<close>

definition meter :: "(billable_metric \<times> u64) list \<Rightarrow> billable_metric \<Rightarrow> nat" where
  "meter ms m = (case map_of ms m of Some q \<Rightarrow> unat q | None \<Rightarrow> 0)"

definition input_billed :: "(billable_metric \<times> u64) list \<Rightarrow> nat" where
  "input_billed ms = meter ms InputTokens + meter ms CachedInputTokens + meter ms CacheWriteInputTokens
     + meter ms AudioInputTokens + meter ms ImageInputTokens"

definition output_billed :: "(billable_metric \<times> u64) list \<Rightarrow> nat" where
  "output_billed ms = meter ms OutputTokens + meter ms ReasoningTokens
     + meter ms AudioOutputTokens + meter ms ImageOutputTokens"

lemma sorted_nil: "sorted_wrt (<) (map fst [])"
  by simp

lemma sorted_insert_optional:
  "sorted_wrt (<) (map fst ms) \<Longrightarrow> sorted_wrt (<) (map fst (insert_optional_metric m q ms))"
  by (simp add: insert_optional_metric_def btree_insert_sorted split: option.split)

lemma map_of_insert_optional:
  "sorted_wrt (<) (map fst ms) \<Longrightarrow>
     map_of (insert_optional_metric m q ms) = (case q of Some k \<Rightarrow> (map_of ms)(m \<mapsto> k) | None \<Rightarrow> map_of ms)"
  by (simp add: insert_optional_metric_def map_of_btree_insert split: option.split)

lemma sorted_thinking:
  "sorted_wrt (<) (map fst ms) \<Longrightarrow> sorted_wrt (<) (map fst (if b then btree_insert m q ms else ms))"
  by (simp add: btree_insert_sorted)

lemma map_of_thinking:
  "sorted_wrt (<) (map fst ms) \<Longrightarrow>
     map_of (if b then btree_insert m q ms else ms) = (if b then (map_of ms)(m \<mapsto> q) else map_of ms)"
  by (simp add: map_of_btree_insert)

lemmas sorted_meters = sorted_insert_optional btree_insert_sorted sorted_thinking

lemma usage_meters_sorted: "sorted_wrt (<) (map fst (usage_meters c))"
  unfolding usage_meters_def Let_def by (intro sorted_meters) simp

lemma meter_insert:
  "sorted_wrt (<) (map fst ms) \<Longrightarrow> meter (btree_insert m q ms) x = (if x = m then unat q else meter ms x)"
  by (simp add: meter_def map_of_btree_insert)

lemma meter_insert_optional:
  "sorted_wrt (<) (map fst ms) \<Longrightarrow> meter (insert_optional_metric m q ms) x =
     (if x = m then (case q of Some k \<Rightarrow> unat k | None \<Rightarrow> meter ms m) else meter ms x)"
  by (simp add: meter_def map_of_insert_optional split: option.split)

lemma meter_thinking:
  "sorted_wrt (<) (map fst ms) \<Longrightarrow> meter (if b then btree_insert m q ms else ms) x =
     (if b \<and> x = m then unat q else meter ms x)"
  by (simp add: meter_insert)

lemma positive_cases: "(case positive n of Some q \<Rightarrow> unat q | None \<Rightarrow> 0) = unat n"
  by (auto simp: positive_def word_neq_0_conv [symmetric])

lemma meter_nil: "meter [] x = 0"
  by (simp add: meter_def)

lemmas meter_rules = meter_insert meter_insert_optional meter_thinking meter_nil sorted_meters sorted_nil
  billable_metric.distinct positive_cases unat_saturating_sub

lemma meter_values:
  "meter (usage_meters c) InputTokens = unat (uncached_input c) - unat (uc_audio_input c) - unat (uc_image_input c)"
  "meter (usage_meters c) CachedInputTokens = unat (uc_cached c)"
  "meter (usage_meters c) CacheWriteInputTokens = unat (uc_cache_write c)"
  "meter (usage_meters c) OutputTokens = unat (uc_visible_output c) - unat (uc_audio_output c) - unat (uc_image_output c)"
  "meter (usage_meters c) ReasoningTokens = (if uc_separate_thinking c then unat (uc_reasoning c) else 0)"
  "meter (usage_meters c) AudioInputTokens = unat (uc_audio_input c)"
  "meter (usage_meters c) ImageInputTokens = unat (uc_image_input c)"
  "meter (usage_meters c) AudioOutputTokens = unat (uc_audio_output c)"
  "meter (usage_meters c) ImageOutputTokens = unat (uc_image_output c)"
  unfolding usage_meters_def Let_def by (simp_all only: meter_rules if_True if_False simp_thms)

lemma unat_counted_completion_le:
  "unat (counted_completion c) \<le> unat (uc_visible_output c) + (if uc_separate_thinking c then unat (uc_reasoning c) else 0)"
  by (simp add: counted_completion_def unat_saturating_add)

lemma unat_counted_prompt_le:
  "uc_aggregate_prompt c = None \<Longrightarrow>
     unat (counted_prompt c) \<le> unat (or_zero (uc_anthropic_input c)) + unat (uc_cached c) + unat (uc_cache_write c)"
  by (simp add: counted_prompt_def unat_saturating_add)

lemma unat_uncached_input:
  "unat (uncached_input c) = (case uc_aggregate_prompt c of
     Some p \<Rightarrow> unat p - unat (uc_cached c) - unat (uc_cache_write c)
   | None \<Rightarrow> (case uc_anthropic_input c of Some n \<Rightarrow> unat n | None \<Rightarrow> unat (counted_prompt c)))"
  by (simp add: uncached_input_def unat_saturating_sub counted_prompt_def split: option.split)

lemma input_covered: "unat (counted_prompt c) \<le> input_billed (usage_meters c)"
proof (cases "uc_aggregate_prompt c")
  case None
  then show ?thesis using unat_counted_prompt_le [OF None]
    by (cases "uc_anthropic_input c") (simp_all add: input_billed_def meter_values unat_uncached_input or_zero_def)
next
  case (Some p)
  then show ?thesis by (simp add: input_billed_def meter_values unat_uncached_input counted_prompt_def)
qed

lemma output_covered: "unat (counted_completion c) \<le> output_billed (usage_meters c)"
  using unat_counted_completion_le [of c] by (simp add: output_billed_def meter_values)

lemma input_exact:
  assumes p: "uc_aggregate_prompt c = Some p"
    and le: "unat (uc_cached c) + unat (uc_cache_write c) + unat (uc_audio_input c) + unat (uc_image_input c) \<le> unat p"
  shows "input_billed (usage_meters c) = unat p"
  using le by (simp add: input_billed_def meter_values unat_uncached_input p)

lemma output_exact:
  assumes le: "unat (uc_audio_output c) + unat (uc_image_output c) \<le> unat (uc_visible_output c)"
    and fits: "unat (uc_visible_output c) + unat (uc_reasoning c) < 2 ^ 64"
  shows "output_billed (usage_meters c) = unat (counted_completion c)"
  using le fits by (simp add: output_billed_def meter_values counted_completion_def unat_saturating_add)

definition usage_object :: "json \<Rightarrow> json option" where
  "usage_object payload = (case json_get payload ''usage'' of Some u \<Rightarrow> Some u | None \<Rightarrow> json_get payload ''usageMetadata'')"

lemma extract_usage_eq:
  "extract_usage payload = (case usage_object payload of None \<Rightarrow> default_extracted
     | Some u \<Rightarrow> (let c = usage_counts_of u in
         \<lparr>xu_usage = \<lparr>prompt_tokens = counted_prompt c, completion_tokens = counted_completion c,
            total_tokens = (case uc_total c of Some t \<Rightarrow> t | None \<Rightarrow> saturating_add (counted_prompt c) (counted_completion c))\<rparr>,
          xu_reported = True, xu_metrics = usage_meters c\<rparr>))"
  by (simp add: extract_usage_def usage_object_def Let_def split: option.split)

text \<open>
  C28: whatever usage object a provider sends, the meters the client bills never fall short of
  the prompt and completion tokens it reports to the run: every token is in some meter. The
  meters are in key order, each once.
\<close>

theorem every_token_is_billed:
  "let x = extract_usage payload in
     unat (prompt_tokens (xu_usage x)) \<le> input_billed (xu_metrics x)
   \<and> unat (completion_tokens (xu_usage x)) \<le> output_billed (xu_metrics x)
   \<and> sorted_wrt (<) (map fst (xu_metrics x))"
proof (cases "usage_object payload")
  case None
  then show ?thesis
    by (simp add: extract_usage_eq default_extracted_def default_usage_def)
next
  case (Some u)
  then show ?thesis by (simp add: extract_usage_eq Let_def input_covered output_covered usage_meters_sorted)
qed

text \<open>
  No token is billed twice for a usage object that states its prompt total: if the cached,
  cache-write, audio and image tokens fit into the totals they are part of, the input meters
  add up to the prompt tokens and the output meters to the completion tokens.
\<close>

theorem no_token_billed_twice:
  assumes "usage_object payload = Some u" and "uc_aggregate_prompt (usage_counts_of u) = Some p"
    and "unat (uc_cached (usage_counts_of u)) + unat (uc_cache_write (usage_counts_of u))
       + unat (uc_audio_input (usage_counts_of u)) + unat (uc_image_input (usage_counts_of u)) \<le> unat p"
    and "unat (uc_audio_output (usage_counts_of u)) + unat (uc_image_output (usage_counts_of u))
       \<le> unat (uc_visible_output (usage_counts_of u))"
    and "unat (uc_visible_output (usage_counts_of u)) + unat (uc_reasoning (usage_counts_of u)) < 2 ^ 64"
  shows "input_billed (xu_metrics (extract_usage payload)) = unat (prompt_tokens (xu_usage (extract_usage payload)))
     \<and> output_billed (xu_metrics (extract_usage payload)) = unat (completion_tokens (xu_usage (extract_usage payload)))"
  using assms by (simp add: extract_usage_eq Let_def input_exact output_exact counted_prompt_def)

lemmas usage_eval = usage_counts_of_def u64_at_any_def json_pointer_def pointer_tokens_def parse_u64_def
  parse_unsigned_def decimal_value_def is_ascii_digit_def or_zero_def

definition sample_usage :: json where
  "sample_usage = JObject [(''prompt_tokens'', JNumber ''100''), (''completion_tokens'', JNumber ''20''),
     (''prompt_tokens_details'', JObject [(''cached_tokens'', JNumber ''40''), (''audio_tokens'', JNumber ''5'')])]"

lemma sample_usage_counts:
  "usage_counts_of sample_usage = \<lparr>uc_aggregate_prompt = Some 100, uc_anthropic_input = None, uc_cached = 40,
     uc_cache_write = 0, uc_visible_output = 20, uc_reasoning = 0, uc_separate_thinking = False, uc_total = None,
     uc_audio_input = 5, uc_image_input = 0, uc_audio_output = 0, uc_image_output = 0, uc_web_search = None\<rparr>"
  by (simp add: sample_usage_def usage_eval)

theorem no_token_billed_twice_witness:
  "input_billed (xu_metrics (extract_usage (JObject [(''usage'', sample_usage)])))
       = unat (prompt_tokens (xu_usage (extract_usage (JObject [(''usage'', sample_usage)]))))
     \<and> output_billed (xu_metrics (extract_usage (JObject [(''usage'', sample_usage)])))
       = unat (completion_tokens (xu_usage (extract_usage (JObject [(''usage'', sample_usage)]))))"
  by (rule no_token_billed_twice [of _ sample_usage 100]) (simp_all add: sample_usage_counts usage_object_def)

text \<open>
  An object in the form of the OpenAI Responses API counts its cached tokens within
  \<open>input_tokens\<close>. It is read like one of Anthropic's, whose cached tokens come on top: the 40
  cached tokens of this one, of 100, are counted and billed a second time.
\<close>

definition responses_usage :: json where
  "responses_usage = JObject [(''input_tokens'', JNumber ''100''), (''output_tokens'', JNumber ''20''),
     (''input_tokens_details'', JObject [(''cached_tokens'', JNumber ''40'')]), (''total_tokens'', JNumber ''120'')]"

lemma responses_usage_counts:
  "usage_counts_of responses_usage = \<lparr>uc_aggregate_prompt = None, uc_anthropic_input = Some 100, uc_cached = 40,
     uc_cache_write = 0, uc_visible_output = 20, uc_reasoning = 0, uc_separate_thinking = False, uc_total = Some 120,
     uc_audio_input = 0, uc_image_input = 0, uc_audio_output = 0, uc_image_output = 0, uc_web_search = None\<rparr>"
  by (simp add: responses_usage_def usage_eval)

theorem responses_usage_billed_twice:
  "let x = extract_usage (JObject [(''usage'', responses_usage)]) in
     prompt_tokens (xu_usage x) = 140 \<and> total_tokens (xu_usage x) = 120 \<and> input_billed (xu_metrics x) = 140"
  by (simp add: extract_usage_eq usage_object_def responses_usage_counts Let_def counted_prompt_def or_zero_def
      saturating_add_def input_billed_def meter_values uncached_input_def)

end
