(* ===== verification/Provider.thy ===== *)
theory Provider
  imports Provider_Usage Config History
begin

text \<open>
  The OpenAI-compatible client (\<open>src/provider/mod.rs\<close>,
  \<open>src/provider/openai_compat.rs\<close>): the trusted origin, the completion with its retries and the
  accounting of every physical attempt, and the probe. The HTTP client, the URL parser, the JSON
  decoder, the clock and the random numbers are parameters that act on a world \<open>'w\<close>; the text of
  an error of these crates is the error.
\<close>

section \<open>Errors and messages\<close>

datatype provider_error =
    MissingApiKey string
  | InvalidBaseUrl string
  | HttpError string
  | HttpStatus "16 word" string
  | Decode string
  | EmptyChoices

record model_response =
  mr_content :: string
  mr_usage :: token_usage

record 'd accounted_response =
  ar_response :: model_response
  ar_attempts :: "'d attempt_accounting list"

record 'd accounted_error =
  ae_error :: provider_error
  ae_attempts :: "'d attempt_accounting list"

text \<open>The accounting a client without one of its own receives (\<open>ModelClient::complete_accounted\<close>).\<close>

definition default_complete_accounted ::
  "('w \<Rightarrow> u128 option) \<Rightarrow> (chat_message list \<Rightarrow> 'w \<Rightarrow> (provider_error + model_response) \<times> 'w)
     \<Rightarrow> chat_message list \<Rightarrow> 'w \<Rightarrow> ('d accounted_error + 'd accounted_response) \<times> 'w" where
  "default_complete_accounted clock complete ms w = (case complete ms w of
     (Inr response, w) \<Rightarrow>
       (let u = mr_usage response in
        (Inr \<lparr>ar_response = response, ar_attempts = [\<lparr>attempt = 1, provider_id = ''custom'',
           requested_model = ''unknown'', resolved_model = None, service_tier = None, request_id = None,
           http_status = None, occurred_at_ms = (case clock w of None \<Rightarrow> 0 | Some t \<Rightarrow> t),
           usage_reported = (total_tokens u > 0), usage = u,
           billable_metrics = [(InputTokens, prompt_tokens u), (OutputTokens, completion_tokens u)],
           reported_cost = None, error = None\<rparr>]\<rparr>, w))
   | (Inl e, w) \<Rightarrow> (Inl \<lparr>ae_error = e, ae_attempts = []\<rparr>, w))"

section \<open>The trusted origin\<close>

text \<open>A parsed URL: its text, its scheme, its host and \<open>port_or_known_default\<close>.\<close>

record url =
  url_str :: string
  url_scheme :: string
  url_host :: "string option"
  url_port :: "16 word option"

definition origin_parse :: "(string \<Rightarrow> string + url) \<Rightarrow> string \<Rightarrow> provider_error + url" where
  "origin_parse parse raw = (let trimmed = trim raw in
     if trimmed = [] then Inl (InvalidBaseUrl ''provider.base_url must not be empty'')
     else rbind (map_err (\<lambda>e. InvalidBaseUrl (''failed to parse `'' @ trimmed @ ''`: '' @ e)) (parse trimmed)) (\<lambda>base.
       if url_scheme base \<noteq> ''http'' \<and> url_scheme base \<noteq> ''https''
       then Inl (InvalidBaseUrl (''provider.base_url must use http or https, got `'' @ url_scheme base @ ''`''))
       else if url_host base = None then Inl (InvalidBaseUrl ''provider.base_url must include a host'')
       else Inr base))"

definition trim_end_slashes :: "string \<Rightarrow> string" where
  "trim_end_slashes s = rev (dropWhile (\<lambda>c. c = CHR ''/'') (rev s))"

definition join_path :: "(string \<Rightarrow> string + url) \<Rightarrow> url \<Rightarrow> string \<Rightarrow> provider_error + url" where
  "join_path parse base endpoint = (let trimmed = trim_end_slashes (url_str base) in
     map_err (\<lambda>e. InvalidBaseUrl (''failed to build `'' @ endpoint @ ''` URL from `'' @ trimmed @ ''`: '' @ e))
       (parse (trimmed @ ''/'' @ endpoint)))"

definition chat_completions_url :: "(string \<Rightarrow> string + url) \<Rightarrow> url \<Rightarrow> provider_error + url" where
  "chat_completions_url parse base = join_path parse base ''chat/completions''"

definition models_url :: "(string \<Rightarrow> string + url) \<Rightarrow> url \<Rightarrow> provider_error + url" where
  "models_url parse base = join_path parse base ''models''"

definition same_origin :: "url \<Rightarrow> url \<Rightarrow> bool" where
  "same_origin base u \<longleftrightarrow> url_scheme base = url_scheme u \<and> url_host base = url_host u \<and> url_port base = url_port u"

text \<open>The redirect policy the client is built with: a redirect is followed or refused.\<close>

definition redirect_policy :: "url \<Rightarrow> url \<Rightarrow> string + unit" where
  "redirect_policy origin u = (if same_origin origin u then Inr ()
     else Inl (''cross-origin redirect to `'' @ url_str u @ ''` denied by trusted provider origin''))"

record openai_client =
  oc_origin :: url
  oc_endpoint :: url
  oc_cfg :: provider_config
  oc_api_key :: string
  oc_accounting :: accounting_options
  oc_timeout_ms :: u64
  oc_redirect :: "url \<Rightarrow> string + unit"

text \<open>\<open>build\<close> is \<open>ClientBuilder::build\<close>, which may fail.\<close>

definition new_with_accounting ::
  "(string \<Rightarrow> string option) \<Rightarrow> (string \<Rightarrow> string + url) \<Rightarrow> string option \<Rightarrow> provider_config \<Rightarrow> accounting_options
     \<Rightarrow> provider_error + openai_client" where
  "new_with_accounting env parse build_error cfg accounting =
     (case resolve_api_key env cfg of
        None \<Rightarrow> Inl (MissingApiKey (pv_api_key_env cfg))
      | Some key \<Rightarrow>
          rbind (origin_parse parse (pv_base_url cfg)) (\<lambda>origin.
          rbind (chat_completions_url parse origin) (\<lambda>endpoint.
          (case build_error of Some e \<Rightarrow> Inl (HttpError e) | None \<Rightarrow>
             Inr \<lparr>oc_origin = origin, oc_endpoint = endpoint, oc_cfg = cfg, oc_api_key = key,
               oc_accounting = accounting, oc_timeout_ms = pv_timeout_ms cfg, oc_redirect = redirect_policy origin\<rparr>))))"

definition new_client ::
  "(string \<Rightarrow> string option) \<Rightarrow> (string \<Rightarrow> string + url) \<Rightarrow> string option \<Rightarrow> provider_config
     \<Rightarrow> provider_error + openai_client" where
  "new_client env parse build_error cfg = new_with_accounting env parse build_error cfg default_accounting_options"

section \<open>HTTP\<close>

type_synonym status_code = "16 word"

definition is_success :: "status_code \<Rightarrow> bool" where
  "is_success s \<longleftrightarrow> 200 \<le> s \<and> s < 300"

definition is_server_error :: "status_code \<Rightarrow> bool" where
  "is_server_error s \<longleftrightarrow> 500 \<le> s \<and> s < 600"

record chat_completion_request =
  cr_model :: string
  cr_messages :: "chat_message list"
  cr_temperature :: nat
  cr_stream :: bool
  cr_reasoning_effort :: "string option"
  cr_thinking :: "bool option"

text \<open>A request goes to the text of a URL under the bearer key.\<close>

datatype http_request =
    GetRequest (rq_url: string) (rq_key: string)
  | PostRequest (rq_url: string) (rq_key: string) (rq_body: chat_completion_request)

record http_response =
  rs_status :: status_code
  rs_headers :: header_map

record content_part =
  cp_kind :: string
  cp_text :: "string option"

datatype message_content = TextContent string | PartsContent "content_part list"

text \<open>
  What the client is given. \<open>np_json\<close> is \<open>serde_json::from_str\<close>; \<open>np_choices\<close> decodes a value as
  \<open>ChatCompletionResponse\<close> and yields the message content of each choice; \<open>np_random n\<close> draws
  from \<open>0..=n\<close>; \<open>np_status_text\<close> shows a status code with its reason.
\<close>

record ('d, 'w) net =
  np_send :: "openai_client \<Rightarrow> http_request \<Rightarrow> 'w \<Rightarrow> (string + http_response) \<times> 'w"
  np_text :: "http_response \<Rightarrow> 'w \<Rightarrow> (string + string) \<times> 'w"
  np_clock :: "'w \<Rightarrow> u128 option"
  np_random :: "u64 \<Rightarrow> 'w \<Rightarrow> u64 \<times> 'w"
  np_sleep :: "u64 \<Rightarrow> 'w \<Rightarrow> 'w"
  np_json :: "string \<Rightarrow> string + json"
  np_choices :: "json \<Rightarrow> string + message_content list"
  np_show_json :: "json \<Rightarrow> string"
  np_status_text :: "status_code \<Rightarrow> string"
  np_decimals :: "'d decimal_ops"

definition now_ms :: "('d, 'w) net \<Rightarrow> 'w \<Rightarrow> u128" where
  "now_ms N w = (case np_clock N w of None \<Rightarrow> 0 | Some t \<Rightarrow> t)"

definition truncate_body :: "string \<Rightarrow> nat \<Rightarrow> string" where
  "truncate_body body limit = (let trimmed = trim body in
     if chars_count trimmed \<le> limit then trimmed
     else take_chars limit trimmed @ [CHR 0xE2, CHR 0x80, CHR 0xA6])"

definition extract_content :: "message_content \<Rightarrow> string" where
  "extract_content message = (case message of
     TextContent t \<Rightarrow> t
   | PartsContent parts \<Rightarrow> join_with [LF]
       (map (\<lambda>part. case cp_text part of Some t \<Rightarrow> t | None \<Rightarrow> [])
         (filter (\<lambda>part. cp_kind part = ''text'') parts)))"

section \<open>The probe\<close>

definition ARROW :: string where
  "ARROW = [CHR 0xE2, CHR 0x86, CHR 0x92]"

definition probe :: "('d, 'w) net \<Rightarrow> (string \<Rightarrow> string + url) \<Rightarrow> openai_client \<Rightarrow> 'w \<Rightarrow> (provider_error + string) \<times> 'w" where
  "probe N parse C w = (case models_url parse (oc_origin C) of
     Inl e \<Rightarrow> (Inl e, w)
   | Inr u \<Rightarrow> (case np_send N C (GetRequest (url_str u) (oc_api_key C)) w of
       (Inl e, w) \<Rightarrow> (Inl (HttpError e), w)
     | (Inr response, w) \<Rightarrow>
         (let (text, w) = np_text N response w;
              body = (case text of Inr t \<Rightarrow> t | Inl _ \<Rightarrow> []);
              code = rs_status response in
          if is_success code then (Inr (''GET /models '' @ ARROW @ '' '' @ np_status_text N code), w)
          else if code = 401 \<or> code = 403 then (Inl (HttpStatus code (truncate_body body 200)), w)
          else (Inr (''host reachable (GET /models '' @ ARROW @ '' '' @ np_status_text N code
                 @ ''; chat endpoint may still work)''), w))))"

section \<open>A completion\<close>

definition backoff_raw :: "provider_config \<Rightarrow> u32 \<Rightarrow> u64" where
  "backoff_raw cfg n = saturating_mul (max (pv_retry_base_delay_ms cfg) 1) (2 ^ unat (min n 10))"

definition backoff_with_jitter :: "('d, 'w) net \<Rightarrow> openai_client \<Rightarrow> u32 \<Rightarrow> 'w \<Rightarrow> u64 \<times> 'w" where
  "backoff_with_jitter N C n w =
     (let raw = backoff_raw (oc_cfg C) n; (jitter, w) = np_random N (raw div 4 + 1) w in
      (saturating_add raw jitter, w))"

record 'd attempt_draft =
  ad_attempt :: u32
  ad_occurred_at_ms :: u128
  ad_status :: "status_code option"
  ad_request_id :: "string option"
  ad_resolved_model :: "string option"
  ad_service_tier :: "string option"
  ad_usage :: token_usage
  ad_usage_reported :: bool
  ad_billable_metrics :: "(billable_metric \<times> u64) list"
  ad_reported_cost :: "'d reported_cost option"
  ad_error :: "string option"

definition accounting_attempt :: "openai_client \<Rightarrow> 'd attempt_draft \<Rightarrow> 'd attempt_accounting" where
  "accounting_attempt C d = \<lparr>attempt = ad_attempt d, provider_id = ao_provider_id (oc_accounting C),
     requested_model = pv_model (oc_cfg C), resolved_model = ad_resolved_model d, service_tier = ad_service_tier d,
     request_id = ad_request_id d, http_status = ad_status d, occurred_at_ms = ad_occurred_at_ms d,
     usage_reported = ad_usage_reported d, usage = ad_usage d, billable_metrics = ad_billable_metrics d,
     reported_cost = ad_reported_cost d, error = ad_error d\<rparr>"

text \<open>A draft without anything the provider said: of a failed request or of an unreadable body.\<close>

definition silent_draft ::
  "u32 \<Rightarrow> u128 \<Rightarrow> status_code option \<Rightarrow> string option \<Rightarrow> string \<Rightarrow> 'd attempt_draft" where
  "silent_draft n at code rid message = \<lparr>ad_attempt = n, ad_occurred_at_ms = at, ad_status = code,
     ad_request_id = rid, ad_resolved_model = None, ad_service_tier = None, ad_usage = default_usage,
     ad_usage_reported = False, ad_billable_metrics = [], ad_reported_cost = None, ad_error = Some message\<rparr>"

definition completion_request :: "openai_client \<Rightarrow> chat_message list \<Rightarrow> chat_completion_request" where
  "completion_request C ms = \<lparr>cr_model = pv_model (oc_cfg C), cr_messages = ms, cr_temperature = 0, cr_stream = False,
     cr_reasoning_effort = Option.bind (pv_effort (oc_cfg C)) (\<lambda>e. if trim e = [] then None else Some (trim e)),
     cr_thinking = pv_thinking (oc_cfg C)\<rparr>"

text \<open>
  What one request of the loop came to: an attempt record, and an error after which the loop may
  try again, or the result the loop returns.
\<close>

datatype 'd round =
    Retryable provider_error "'d attempt_accounting"
  | Finished "provider_error + model_response" "'d attempt_accounting"

text \<open>What follows an answer whose body was read.\<close>

definition answer_draft ::
  "('d, 'w) net \<Rightarrow> openai_client \<Rightarrow> u32 \<Rightarrow> u128 \<Rightarrow> http_response \<Rightarrow> json option \<Rightarrow> 'd attempt_draft" where
  "answer_draft N C n at response answer =
     (let x = (case answer of Some v \<Rightarrow> extract_usage v | None \<Rightarrow> default_extracted) in
      \<lparr>ad_attempt = n, ad_occurred_at_ms = at, ad_status = Some (rs_status response),
       ad_request_id = (case Option.bind answer (\<lambda>v. string_at v ''/id'') of Some i \<Rightarrow> Some i
          | None \<Rightarrow> request_id_from_headers (rs_headers response)),
       ad_resolved_model = Option.bind answer (\<lambda>v. string_at v ''/model''),
       ad_service_tier = Option.bind answer (\<lambda>v. string_at v ''/service_tier''),
       ad_usage = xu_usage x, ad_usage_reported = xu_reported x, ad_billable_metrics = xu_metrics x,
       ad_reported_cost = extract_reported_cost (np_show_json N) (np_decimals N) answer (rs_headers response) (oc_accounting C),
       ad_error = None\<rparr>)"

definition read_answer ::
  "('d, 'w) net \<Rightarrow> openai_client \<Rightarrow> u32 \<Rightarrow> u128 \<Rightarrow> http_response \<Rightarrow> string \<Rightarrow> 'd round" where
  "read_answer N C n at response text =
     (let parsed = np_json N text;
          answer = (case parsed of Inr v \<Rightarrow> Some v | Inl _ \<Rightarrow> None);
          draft = answer_draft N C n at response answer;
          code = rs_status response in
      if \<not> is_success code
      then (let a = accounting_attempt C (draft\<lparr>ad_error := Some (''provider returned HTTP '' @ np_status_text N code)\<rparr>) in
            if code = 429 \<or> is_server_error code then Retryable (HttpStatus code text) a
            else Finished (Inl (HttpStatus code text)) a)
      else (case parsed of
        Inl e \<Rightarrow> Finished (Inl (Decode e)) (accounting_attempt C (draft\<lparr>ad_usage := default_usage,
            ad_usage_reported := False, ad_billable_metrics := [], ad_error := Some e\<rparr>))
      | Inr v \<Rightarrow> (case np_choices N v of
          Inl e \<Rightarrow> Finished (Inl (Decode e)) (accounting_attempt C (draft\<lparr>ad_error := Some e\<rparr>))
        | Inr [] \<Rightarrow> Finished (Inl EmptyChoices) (accounting_attempt C (draft\<lparr>ad_error := Some ''provider response has no choices''\<rparr>))
        | Inr (choice # _) \<Rightarrow> Finished (Inr \<lparr>mr_content = extract_content choice, mr_usage = ad_usage draft\<rparr>)
            (accounting_attempt C draft))))"

definition completion_round ::
  "('d, 'w) net \<Rightarrow> openai_client \<Rightarrow> chat_message list \<Rightarrow> u32 \<Rightarrow> 'w \<Rightarrow> 'd round \<times> 'w" where
  "completion_round N C ms n w =
     (let at = now_ms N w in
      case np_send N C (PostRequest (url_str (oc_endpoint C)) (oc_api_key C) (completion_request C ms)) w of
        (Inl e, w) \<Rightarrow> (Retryable (HttpError e) (accounting_attempt C (silent_draft n at None None e)), w)
      | (Inr response, w) \<Rightarrow> (case np_text N response w of
          (Inl e, w) \<Rightarrow> (Finished (Inl (HttpError e)) (accounting_attempt C (silent_draft n at (Some (rs_status response))
              (request_id_from_headers (rs_headers response)) e)), w)
        | (Inr text, w) \<Rightarrow> (read_answer N C n at response text, w)))"

lemma unat_next: "i < (m :: u32) \<Longrightarrow> unat (i + 1) = unat i + 1"
  using unsigned_less [of m, where 'a = nat] by (simp add: unat_word_ariths word_less_nat_alt)

text \<open>The loop: \<open>retry_index\<close>, the attempts made, the world.\<close>

function completion_loop ::
  "('d, 'w) net \<Rightarrow> openai_client \<Rightarrow> chat_message list \<Rightarrow> u32 \<Rightarrow> 'd attempt_accounting list \<Rightarrow> 'w
     \<Rightarrow> ('d accounted_error + 'd accounted_response) \<times> 'w" where
  "completion_loop N C ms i as w = (case completion_round N C ms (i + 1) w of
     (Finished (Inr response) a, w) \<Rightarrow> (Inr \<lparr>ar_response = response, ar_attempts = as @ [a]\<rparr>, w)
   | (Finished (Inl e) a, w) \<Rightarrow> (Inl \<lparr>ae_error = e, ae_attempts = as @ [a]\<rparr>, w)
   | (Retryable e a, w) \<Rightarrow>
       (if pv_max_retries (oc_cfg C) \<le> i then (Inl \<lparr>ae_error = e, ae_attempts = as @ [a]\<rparr>, w)
        else (let (delay, w) = backoff_with_jitter N C i w in
              completion_loop N C ms (i + 1) (as @ [a]) (np_sleep N delay w))))"
  by pat_completeness auto
termination
proof (relation "measure (\<lambda>(N, C, ms, i, as, w). unat (pv_max_retries (oc_cfg C)) - unat i)", goal_cases)
  case (2 N C ms i)
  then have "i < pv_max_retries (oc_cfg C)" by simp
  then show ?case by (simp add: unat_next word_less_nat_alt)
qed simp

declare completion_loop.simps [simp del]

definition complete_accounted ::
  "('d, 'w) net \<Rightarrow> openai_client \<Rightarrow> chat_message list \<Rightarrow> 'w
     \<Rightarrow> ('d accounted_error + 'd accounted_response) \<times> 'w" where
  "complete_accounted N C ms w = completion_loop N C ms 0 [] w"

definition complete ::
  "('d, 'w) net \<Rightarrow> openai_client \<Rightarrow> chat_message list \<Rightarrow> 'w \<Rightarrow> (provider_error + model_response) \<times> 'w" where
  "complete N C ms w = (case complete_accounted N C ms w of
     (Inr accounted, w) \<Rightarrow> (Inr (ar_response accounted), w)
   | (Inl failure, w) \<Rightarrow> (Inl (ae_error failure), w))"

section \<open>What a completion did\<close>

definition attempts_of :: "'d accounted_error + 'd accounted_response \<Rightarrow> 'd attempt_accounting list" where
  "attempts_of r = (case r of Inl f \<Rightarrow> ae_attempts f | Inr a \<Rightarrow> ar_attempts a)"

definition round_attempt :: "'d round \<Rightarrow> 'd attempt_accounting" where
  "round_attempt r = (case r of Retryable e a \<Rightarrow> a | Finished x a \<Rightarrow> a)"

text \<open>An attempt worth another: no answer, too many requests, or a failure of the server.\<close>

definition worth_retrying :: "'d attempt_accounting \<Rightarrow> bool" where
  "worth_retrying a \<longleftrightarrow> error a \<noteq> None
     \<and> (case http_status a of None \<Rightarrow> True | Some s \<Rightarrow> s = 429 \<or> is_server_error s)"

lemmas attempt_defs = accounting_attempt_def silent_draft_def answer_draft_def

lemma read_answer_attempt:
  "attempt (round_attempt (read_answer N C n at response text)) = n"
  by (auto simp: read_answer_def round_attempt_def attempt_defs Let_def split: sum.split list.split)

lemma completion_round_attempt: "attempt (round_attempt (fst (completion_round N C ms n w))) = n"
  by (auto simp: completion_round_def Let_def read_answer_attempt round_attempt_def [of "Retryable _ _"]
      round_attempt_def [of "Finished _ _"] attempt_defs split: prod.split sum.split)

lemma completion_round_retryable:
  "fst (completion_round N C ms n w) = Retryable e a \<Longrightarrow> worth_retrying a"
  by (auto simp: completion_round_def Let_def read_answer_def worth_retrying_def attempt_defs
      split: prod.splits sum.splits if_splits list.splits)

lemma completion_round_finished:
  "fst (completion_round N C ms n w) = Finished r a \<Longrightarrow>
     (case r of Inr m \<Rightarrow> error a = None \<and> usage a = mr_usage m \<and> http_status a \<noteq> None
      | Inl e \<Rightarrow> error a \<noteq> None \<and> http_status a \<noteq> None
          \<and> (case e of HttpStatus s t \<Rightarrow> \<not> (s = 429 \<or> is_server_error s) | _ \<Rightarrow> True))"
  by (auto simp: completion_round_def Let_def read_answer_def attempt_defs
      split: prod.splits sum.splits if_splits list.splits)

text \<open>
  How the attempts \<open>bs\<close>, the first after \<open>i\<close> retries, led to the result \<open>r\<close>: numbered in order,
  at most one more than the retries allowed, every one but the last worth retrying; the last
  failed if and only if the completion failed; and the client gave up on an error worth retrying
  only when no retry was left.
\<close>

definition gave_up :: "'d accounted_error + 'd accounted_response \<Rightarrow> 'd attempt_accounting \<Rightarrow> bool" where
  "gave_up r a \<longleftrightarrow> http_status a = None
     \<or> (case r of Inl f \<Rightarrow> (case ae_error f of HttpStatus s t \<Rightarrow> s = 429 \<or> is_server_error s | _ \<Rightarrow> False) | Inr _ \<Rightarrow> False)"

definition led_to ::
  "u32 \<Rightarrow> nat \<Rightarrow> 'd attempt_accounting list \<Rightarrow> 'd accounted_error + 'd accounted_response \<Rightarrow> bool" where
  "led_to most i bs r \<longleftrightarrow> bs \<noteq> [] \<and> i + length bs \<le> unat most + 1
     \<and> map attempt bs = map of_nat [i + 1..<i + length bs + 1]
     \<and> list_all worth_retrying (butlast bs)
     \<and> (case r of Inr a \<Rightarrow> error (last bs) = None \<and> usage (last bs) = mr_usage (ar_response a)
        | Inl f \<Rightarrow> error (last bs) \<noteq> None)
     \<and> (gave_up r (last bs) \<longrightarrow> i + length bs = unat most + 1)"

lemma led_to_one:
  assumes "unat i \<le> unat most" "attempt a = i + 1"
    "case r of Inr x \<Rightarrow> error a = None \<and> usage a = mr_usage (ar_response x) | Inl f \<Rightarrow> error a \<noteq> None"
    "gave_up r a \<Longrightarrow> i = most"
  shows "led_to most (unat i) [a] r"
  using assms by (auto simp: led_to_def split: sum.split)

lemma led_to_Cons:
  assumes "led_to most (unat i + 1) bs r" "attempt a = i + 1" "worth_retrying a"
  shows "led_to most (unat i) (a # bs) r"
proof -
  have ne: "bs \<noteq> []" using assms(1) by (simp add: led_to_def)
  then have l: "last (a # bs) = last bs" "butlast (a # bs) = a # butlast bs" by simp_all
  have up: "[unat i + 1..<unat i + length (a # bs) + 1] = (unat i + 1) # [unat i + 1 + 1..<unat i + 1 + length bs + 1]"
    by (subst upt_conv_Cons) simp_all
  show ?thesis using assms(1) assms(2,3) unfolding led_to_def l up by simp
qed

lemma completion_loop_led_to:
  "i \<le> pv_max_retries (oc_cfg C) \<Longrightarrow>
     \<exists>bs. attempts_of (fst (completion_loop N C ms i as w)) = as @ bs
        \<and> led_to (pv_max_retries (oc_cfg C)) (unat i) bs (fst (completion_loop N C ms i as w))"
proof (induction N C ms i as w rule: completion_loop.induct)
  case (1 N C ms i as w)
  obtain rd w1 where rd: "completion_round N C ms (i + 1) w = (rd, w1)" by fastforce
  have n: "attempt (round_attempt rd) = i + 1" using completion_round_attempt [of N C ms "i + 1" w] rd by simp
  show ?case
  proof (cases rd)
    case (Finished x a)
    then have x: "case x of Inr m \<Rightarrow> error a = None \<and> usage a = mr_usage m \<and> http_status a \<noteq> None
      | Inl e \<Rightarrow> error a \<noteq> None \<and> http_status a \<noteq> None
          \<and> (case e of HttpStatus s t \<Rightarrow> \<not> (s = 429 \<or> is_server_error s) | _ \<Rightarrow> True)"
      using completion_round_finished [of N C ms "i + 1" w x a] rd by simp
    show ?thesis
      using "1.prems" rd Finished n x
      by (cases x) (auto simp: completion_loop.simps [of N C ms i] attempts_of_def round_attempt_def word_le_nat_alt
          gave_up_def split: provider_error.splits intro!: led_to_one)
  next
    case (Retryable e a)
    then have a: "worth_retrying a" using completion_round_retryable [of N C ms "i + 1" w e a] rd by simp
    show ?thesis
    proof (cases "pv_max_retries (oc_cfg C) \<le> i")
      case True
      then have i: "i = pv_max_retries (oc_cfg C)" using "1.prems" by simp
      then have "completion_loop N C ms i as w = (Inl \<lparr>ae_error = e, ae_attempts = as @ [a]\<rparr>, w1)"
        using rd Retryable by (subst completion_loop.simps) simp
      then show ?thesis
        using n a Retryable i by (auto simp: attempts_of_def round_attempt_def worth_retrying_def intro!: led_to_one)
    next
      case False
      obtain delay w2 where d: "backoff_with_jitter N C i w1 = (delay, w2)" by fastforce
      have lt: "i < pv_max_retries (oc_cfg C)" using False by simp
      then have i: "i + 1 \<le> pv_max_retries (oc_cfg C)" "unat (i + 1) = unat i + 1"
        using unat_next [OF lt] by (simp_all add: word_le_nat_alt word_less_nat_alt)
      have step: "completion_loop N C ms i as w = completion_loop N C ms (i + 1) (as @ [a]) (np_sleep N delay w2)"
        using False rd Retryable d by (simp add: completion_loop.simps [of N C ms i])
      obtain bs where "attempts_of (fst (completion_loop N C ms i as w)) = (as @ [a]) @ bs"
        and "led_to (pv_max_retries (oc_cfg C)) (unat i + 1) bs (fst (completion_loop N C ms i as w))"
        unfolding step using "1.IH" [OF rd [symmetric] Retryable False d [symmetric] refl i(1)] i(2) by auto
      then show ?thesis using led_to_Cons [OF _ _ a] n Retryable by (force simp: round_attempt_def)
    qed
  qed
qed


section \<open>Where requests go\<close>

text \<open>
  The steps a completion may take in the world: its own request to the endpoint under the key,
  reading an answer, drawing the jitter, and a sleep.
\<close>

inductive completion_step ::
  "('d, 'w) net \<Rightarrow> openai_client \<Rightarrow> chat_message list \<Rightarrow> 'w \<Rightarrow> 'w \<Rightarrow> bool" for N C ms where
  post: "completion_step N C ms w
    (snd (np_send N C (PostRequest (url_str (oc_endpoint C)) (oc_api_key C) (completion_request C ms)) w))"
| read_body: "completion_step N C ms w (snd (np_text N response w))"
| draw: "completion_step N C ms w (snd (np_random N n w))"
| pause: "completion_step N C ms w (np_sleep N delay w)"

inductive probe_step :: "('d, 'w) net \<Rightarrow> (string \<Rightarrow> string + url) \<Rightarrow> openai_client \<Rightarrow> 'w \<Rightarrow> 'w \<Rightarrow> bool" for N parse C where
  get: "models_url parse (oc_origin C) = Inr u \<Longrightarrow>
    probe_step N parse C w (snd (np_send N C (GetRequest (url_str u) (oc_api_key C)) w))"
| read_body: "probe_step N parse C w (snd (np_text N response w))"

lemma completion_round_steps: "(completion_step N C ms)\<^sup>*\<^sup>* w (snd (completion_round N C ms n w))"
proof -
  let ?q = "PostRequest (url_str (oc_endpoint C)) (oc_api_key C) (completion_request C ms)"
  obtain r w1 where send: "np_send N C ?q w = (r, w1)" by fastforce
  then have one: "(completion_step N C ms)\<^sup>*\<^sup>* w w1" using completion_step.post [of N C ms w] by auto
  show ?thesis
  proof (cases r)
    case (Inl e)
    then show ?thesis using one send by (simp add: completion_round_def Let_def)
  next
    case (Inr response)
    obtain t w2 where body: "np_text N response w1 = (t, w2)" by fastforce
    then have "completion_step N C ms w1 w2" using completion_step.read_body [of N C ms w1 response] by simp
    then have "(completion_step N C ms)\<^sup>*\<^sup>* w w2" using one by simp
    then show ?thesis using send Inr body by (cases t) (simp_all add: completion_round_def Let_def)
  qed
qed

lemma completion_loop_steps: "(completion_step N C ms)\<^sup>*\<^sup>* w (snd (completion_loop N C ms i as w))"
proof (induction N C ms i as w rule: completion_loop.induct)
  case (1 N C ms i as w)
  obtain rd w1 where rd: "completion_round N C ms (i + 1) w = (rd, w1)" by fastforce
  then have one: "(completion_step N C ms)\<^sup>*\<^sup>* w w1" using completion_round_steps [of N C ms w "i + 1"] by simp
  show ?case
  proof (cases rd)
    case (Finished x a)
    then show ?thesis using one rd by (cases x) (simp_all add: completion_loop.simps [of N C ms i])
  next
    case (Retryable e a)
    show ?thesis
    proof (cases "pv_max_retries (oc_cfg C) \<le> i")
      case True
      then show ?thesis using one rd Retryable by (simp add: completion_loop.simps [of N C ms i])
    next
      case False
      obtain delay w2 where d: "backoff_with_jitter N C i w1 = (delay, w2)" by fastforce
      have "completion_step N C ms w1 w2"
        using d completion_step.draw [of N C ms w1 "backoff_raw (oc_cfg C) i div 4 + 1"]
        by (auto simp: backoff_with_jitter_def Let_def split: prod.splits)
      moreover have "completion_step N C ms w2 (np_sleep N delay w2)" by (rule completion_step.pause)
      ultimately have "(completion_step N C ms)\<^sup>*\<^sup>* w (np_sleep N delay w2)" using one by simp
      moreover have "completion_loop N C ms i as w = completion_loop N C ms (i + 1) (as @ [a]) (np_sleep N delay w2)"
        using False rd Retryable d by (simp add: completion_loop.simps [of N C ms i])
      ultimately show ?thesis
        using "1.IH" [OF rd [symmetric] Retryable False d [symmetric] refl] by simp
    qed
  qed
qed

lemma probe_steps: "(probe_step N parse C)\<^sup>*\<^sup>* w (snd (probe N parse C w))"
proof (cases "models_url parse (oc_origin C)")
  case (Inr u)
  obtain r w1 where send: "np_send N C (GetRequest (url_str u) (oc_api_key C)) w = (r, w1)" by fastforce
  then have one: "probe_step N parse C w w1" using probe_step.get [OF Inr, of N w] by simp
  show ?thesis
  proof (cases r)
    case (Inl e)
    then show ?thesis using one Inr send by (simp add: probe_def)
  next
    case (Inr response)
    obtain t w2 where body: "np_text N response w1 = (t, w2)" by fastforce
    then have "probe_step N parse C w1 w2" using probe_step.read_body [of N parse C w1 response] by simp
    then show ?thesis using one Inr send body \<open>models_url parse (oc_origin C) = Inr u\<close>
      by (auto simp: probe_def Let_def)
  qed
qed (simp add: probe_def)

lemma origin_parse_http:
  "origin_parse parse raw = Inr u \<Longrightarrow>
     parse (trim raw) = Inr u \<and> url_scheme u \<in> {''http'', ''https''} \<and> url_host u \<noteq> None"
  by (auto simp: origin_parse_def Let_def rbind_eq_Inr map_err_eq_Inr split: if_splits)

lemma new_with_accounting_Inr:
  "new_with_accounting env parse build cfg opts = Inr C \<Longrightarrow>
     origin_parse parse (pv_base_url cfg) = Inr (oc_origin C) \<and> chat_completions_url parse (oc_origin C) = Inr (oc_endpoint C)
   \<and> oc_redirect C = redirect_policy (oc_origin C) \<and> resolve_api_key env cfg = Some (oc_api_key C) \<and> oc_cfg C = cfg"
  by (auto simp: new_with_accounting_def rbind_eq_Inr split: option.splits)

text \<open>
  C16: a client built from a configuration has an \<open>http\<close> or \<open>https\<close> base URL with a host, follows a
  redirect exactly when its target has the scheme, the host and the port of that URL, and sends,
  for a completion, its own request to the chat endpoint and nothing else; for a probe, a request
  to the models endpoint and nothing else. Both URLs come from the base URL by adding a path.
\<close>

theorem requests_go_to_trusted_origin:
  assumes "new_with_accounting env parse build cfg opts = Inr C"
  shows "url_scheme (oc_origin C) \<in> {''http'', ''https''} \<and> url_host (oc_origin C) \<noteq> None
    \<and> parse (trim (pv_base_url cfg)) = Inr (oc_origin C)
    \<and> parse (trim_end_slashes (url_str (oc_origin C)) @ ''/chat/completions'') = Inr (oc_endpoint C)
    \<and> (\<forall>u. oc_redirect C u = Inr () \<longleftrightarrow>
         (url_scheme u, url_host u, url_port u) = (url_scheme (oc_origin C), url_host (oc_origin C), url_port (oc_origin C)))
    \<and> (completion_step N C ms)\<^sup>*\<^sup>* w (snd (complete_accounted N C ms w))
    \<and> (probe_step N parse C)\<^sup>*\<^sup>* w (snd (probe N parse C w))"
  using new_with_accounting_Inr [OF assms] origin_parse_http [of parse "pv_base_url cfg" "oc_origin C"]
  by (auto simp: complete_accounted_def completion_loop_steps probe_steps redirect_policy_def same_origin_def
      chat_completions_url_def join_path_def map_err_eq_Inr Let_def)

section \<open>The pause before a retry\<close>

lemma unat_two_power: "n \<le> 10 \<Longrightarrow> unat ((2 :: u64) ^ n) = 2 ^ n"
proof -
  assume "n \<le> 10"
  then have "(2 :: nat) ^ n < 2 ^ LENGTH(64)" by (intro power_strict_increasing) auto
  then have "unat (word_of_nat (2 ^ n) :: u64) = 2 ^ n" by (simp only: unsigned_of_nat take_bit_nat_eq_self of_nat_id)
  then show ?thesis by (metis of_nat_numeral of_nat_power)
qed

lemma unat_max_one: "unat (max (b :: u64) 1) = max (unat b) 1"
  by (simp add: max_def word_le_nat_alt)

lemma unat_backoff_raw:
  "unat (backoff_raw cfg n) = min (max (unat (pv_retry_base_delay_ms cfg)) 1 * 2 ^ min (unat n) 10) (2 ^ 64 - 1)"
proof -
  have "unat (min n 10) = min (unat n) 10" by (simp add: min_def word_le_nat_alt)
  then show ?thesis by (simp add: backoff_raw_def unat_saturating_mul unat_two_power unat_max_one)
qed

lemma capped_pause:
  assumes "r = min R M" and "j \<le> r div 4 + 1"
  shows "min R M \<le> min (r + j) M \<and> min (r + j) M \<le> R + R div 4 + (1 :: nat)"
proof -
  have "r \<le> R" "r \<le> M" using assms(1) by simp_all
  moreover have "r div 4 \<le> R div 4" using \<open>r \<le> R\<close> by (rule div_le_mono)
  ultimately show ?thesis using assms by simp
qed

text \<open>
  The pause before the retry with index \<open>n\<close> is the base delay, at least one millisecond,
  doubled \<open>n\<close> times and at most ten times, plus a jitter of at most a quarter of it and one
  millisecond, everything capped at the largest 64-bit value; it never wraps around.
\<close>

theorem retry_pause_bounds:
  assumes jitter: "\<And>n w. fst (np_random N n w) \<le> n"
  shows "let raw = max (unat (pv_retry_base_delay_ms (oc_cfg C))) 1 * 2 ^ min (unat n) 10;
             pause = unat (fst (backoff_with_jitter N C n w)) in
         min raw (2 ^ 64 - 1) \<le> pause \<and> pause \<le> raw + raw div 4 + 1"
proof -
  let ?raw = "backoff_raw (oc_cfg C) n"
  let ?j = "fst (np_random N (?raw div 4 + 1) w)"
  have lt: "unat ?raw div 4 + 1 < 2 ^ 64" using unsigned_less [of ?raw, where 'a = nat] by simp
  have "unat ?j \<le> unat (?raw div 4 + 1)" using jitter by (simp add: word_le_nat_alt)
  then have j: "unat ?j \<le> unat ?raw div 4 + 1" using lt by (simp add: unat_word_ariths unat_div)
  have p: "unat (fst (backoff_with_jitter N C n w)) = min (unat ?raw + unat ?j) (2 ^ 64 - 1)"
    by (simp add: backoff_with_jitter_def Let_def unat_saturating_add split: prod.split)
  show ?thesis unfolding Let_def p by (rule capped_pause [OF unat_backoff_raw j])
qed

section \<open>What a client owes to the run\<close>

text \<open>
  The run bills every attempt it is handed and charges its token limit with the usage of the
  response. An accounted client therefore numbers its attempts, and of those of a success the last
  alone is without error and carries the usage of the response.
\<close>

locale accounted_client =
  fixes call :: "chat_message list \<Rightarrow> 'w \<Rightarrow> ('d accounted_error + 'd accounted_response) \<times> 'w"
  assumes numbered: "map attempt (attempts_of (fst (call ms w)))
      = map of_nat [1..<length (attempts_of (fst (call ms w))) + 1]"
    and success: "fst (call ms w) = Inr a \<Longrightarrow> \<exists>bs b. ar_attempts a = bs @ [b]
      \<and> list_all (\<lambda>x. error x \<noteq> None) bs \<and> error b = None \<and> usage b = mr_usage (ar_response a)"
begin

lemma charged_once:
  assumes "fst (call ms w) = Inr a"
  shows "map usage (filter (\<lambda>x. error x = None) (ar_attempts a)) = [mr_usage (ar_response a)]"
proof -
  obtain bs b where bs: "ar_attempts a = bs @ [b]" "list_all (\<lambda>x. error x \<noteq> None) bs"
    and b: "error b = None" "usage b = mr_usage (ar_response a)"
    using success [OF assms] by blast
  have "filter (\<lambda>x. error x = None) bs = []" using bs(2) by (simp add: list_all_iff filter_empty_conv)
  then show ?thesis by (simp add: bs(1) b)
qed

lemma attempt_at:
  assumes "i < length (attempts_of (fst (call ms w)))"
  shows "attempt (attempts_of (fst (call ms w)) ! i) = of_nat (i + 1)"
proof -
  have "map attempt (attempts_of (fst (call ms w))) ! i = map of_nat [1..<length (attempts_of (fst (call ms w))) + 1] ! i"
    by (simp only: numbered)
  then show ?thesis using assms by (simp del: upt_Suc)
qed

end

lemma complete_accounted_led_to:
  "led_to (pv_max_retries (oc_cfg C)) 0 (attempts_of (fst (complete_accounted N C ms w))) (fst (complete_accounted N C ms w))"
  using completion_loop_led_to [of 0 C N ms "[]" w] by (auto simp: complete_accounted_def)

interpretation openai: accounted_client "complete_accounted N C"
proof unfold_locales
  fix ms w
  show "map attempt (attempts_of (fst (complete_accounted N C ms w)))
      = map of_nat [1..<length (attempts_of (fst (complete_accounted N C ms w))) + 1]"
    using complete_accounted_led_to [of C N ms w] by (simp add: led_to_def del: upt_Suc)
next
  fix ms w a
  assume "fst (complete_accounted N C ms w) = Inr a"
  then have "led_to (pv_max_retries (oc_cfg C)) 0 (ar_attempts a) (Inr a)"
    using complete_accounted_led_to [of C N ms w] by (simp add: attempts_of_def)
  then show "\<exists>bs b. ar_attempts a = bs @ [b] \<and> list_all (\<lambda>x. error x \<noteq> None) bs
      \<and> error b = None \<and> usage b = mr_usage (ar_response a)"
    by (intro exI [of _ "butlast (ar_attempts a)"] exI [of _ "last (ar_attempts a)"])
      (auto simp: led_to_def worth_retrying_def list_all_iff)
qed

interpretation basic: accounted_client "default_complete_accounted clock act"
proof unfold_locales
  fix ms w
  show "map attempt (attempts_of (fst (default_complete_accounted clock act ms w)))
      = map of_nat [1..<length (attempts_of (fst (default_complete_accounted clock act ms w))) + 1]"
    by (auto simp: default_complete_accounted_def attempts_of_def Let_def split: prod.split sum.split)
next
  fix ms w a
  assume "fst (default_complete_accounted clock act ms w) = Inr a"
  then show "\<exists>bs b. ar_attempts a = bs @ [b] \<and> list_all (\<lambda>x. error x \<noteq> None) bs
      \<and> error b = None \<and> usage b = mr_usage (ar_response a)"
    by (auto simp: default_complete_accounted_def Let_def split: prod.splits sum.splits
        intro!: exI [of _ "[]"])
qed

text \<open>
  Of the attempts a completion hands to the run, exactly one is without error when it
  succeeds, and its usage is the usage the run is charged, so no usage is charged twice or lost
  between the run's token limit and its bill.
\<close>

theorem usage_charged_once:
  assumes "fst (complete_accounted N C ms w) = Inr a"
  shows "map usage (filter (\<lambda>x. error x = None) (ar_attempts a)) = [mr_usage (ar_response a)]"
  by (rule openai.charged_once [OF assms])

section \<open>A sample\<close>

definition sample_parse :: "string \<Rightarrow> string + url" where
  "sample_parse s = Inr \<lparr>url_str = s, url_scheme = ''https'', url_host = Some ''host'', url_port = Some 443\<rparr>"

definition sample_provider :: provider_config where
  "sample_provider = \<lparr>pv_base_url = ''https://host/v1'', pv_model = ''m'', pv_api_key_env = ''KEY'', pv_api_key = None,
     pv_timeout_ms = 1000, pv_max_retries = 2, pv_retry_base_delay_ms = 100, pv_effort = None, pv_thinking = None,
     pv_history = history_default\<rparr>"

definition sample_client :: openai_client where
  "sample_client = \<lparr>oc_origin = \<lparr>url_str = ''https://host/v1'', url_scheme = ''https'', url_host = Some ''host'',
       url_port = Some 443\<rparr>,
     oc_endpoint = \<lparr>url_str = ''https://host/v1/chat/completions'', url_scheme = ''https'', url_host = Some ''host'',
       url_port = Some 443\<rparr>,
     oc_cfg = sample_provider, oc_api_key = ''secret'', oc_accounting = default_accounting_options,
     oc_timeout_ms = 1000, oc_redirect = redirect_policy \<lparr>url_str = ''https://host/v1'', url_scheme = ''https'',
       url_host = Some ''host'', url_port = Some 443\<rparr>\<rparr>"

text \<open>A provider that answers; the world counts requests.\<close>

definition sample_net :: "(nat, nat) net" where
  "sample_net = \<lparr>
     np_send = (\<lambda>C q n. (Inr \<lparr>rs_status = 200, rs_headers = (\<lambda>_. None)\<rparr>, n + 1)),
     np_text = (\<lambda>r w. (Inr ''{}'', w)), np_clock = (\<lambda>w. None), np_random = (\<lambda>n w. (0, w)),
     np_sleep = (\<lambda>d n. n), np_json = (\<lambda>s. Inr (JObject [])),
     np_choices = (\<lambda>v. Inr [TextContent ''hello'']), np_show_json = (\<lambda>v. []), np_status_text = (\<lambda>s. []),
     np_decimals = \<lparr>dec_zero = 0, dec_add = (\<lambda>a b. Some (a + b)), dec_mul = (\<lambda>a b. Some (a * b)),
       dec_div = (\<lambda>a b. Some (a div b)), dec_of_u64 = unat, dec_le = (\<le>),
       dec_from_str_exact = (\<lambda>_. None), dec_from_scientific = (\<lambda>_. None)\<rparr>\<rparr>"

lemma sample_trim: "trim ''https://host/v1'' = ''https://host/v1''"
  by code_simp

lemma sample_new:
  "new_with_accounting (\<lambda>_. Some ''secret'') sample_parse None sample_provider default_accounting_options = Inr sample_client"
  by (simp add: new_with_accounting_def resolve_api_key_def sample_provider_def origin_parse_def sample_trim sample_parse_def
      chat_completions_url_def join_path_def trim_end_slashes_def sample_client_def)

theorem requests_go_to_trusted_origin_witness:
  "url_scheme (oc_origin sample_client) \<in> {''http'', ''https''} \<and> url_host (oc_origin sample_client) \<noteq> None
    \<and> sample_parse (trim (pv_base_url sample_provider)) = Inr (oc_origin sample_client)
    \<and> sample_parse (trim_end_slashes (url_str (oc_origin sample_client)) @ ''/chat/completions'') = Inr (oc_endpoint sample_client)
    \<and> (\<forall>u. oc_redirect sample_client u = Inr () \<longleftrightarrow> (url_scheme u, url_host u, url_port u)
         = (url_scheme (oc_origin sample_client), url_host (oc_origin sample_client), url_port (oc_origin sample_client)))
    \<and> (completion_step sample_net sample_client [])\<^sup>*\<^sup>* 0 (snd (complete_accounted sample_net sample_client [] 0))
    \<and> (probe_step sample_net sample_parse sample_client)\<^sup>*\<^sup>* 0 (snd (probe sample_net sample_parse sample_client 0))"
  by (rule requests_go_to_trusted_origin [OF sample_new])

theorem retry_pause_bounds_witness:
  "let raw = max (unat (pv_retry_base_delay_ms (oc_cfg sample_client))) 1 * 2 ^ min (unat (3 :: u32)) 10;
       pause = unat (fst (backoff_with_jitter sample_net sample_client 3 0)) in
   min raw (2 ^ 64 - 1) \<le> pause \<and> pause \<le> raw + raw div 4 + 1"
  by (rule retry_pause_bounds) (simp add: sample_net_def)

definition sample_response :: "nat accounted_response" where
  "sample_response = \<lparr>ar_response = \<lparr>mr_content = ''hello'', mr_usage = default_usage\<rparr>,
     ar_attempts = [accounting_attempt sample_client (answer_draft sample_net sample_client 1 0
       \<lparr>rs_status = 200, rs_headers = (\<lambda>_. None)\<rparr> (Some (JObject [])))]\<rparr>"

lemma sample_completion: "fst (complete_accounted sample_net sample_client [] 0) = Inr sample_response"
  by (subst complete_accounted_def, subst completion_loop.simps)
    (simp add: completion_round_def sample_net_def read_answer_def now_ms_def is_success_def extract_content_def
      sample_response_def answer_draft_def extract_usage_def default_extracted_def)

theorem usage_charged_once_witness:
  "map usage (filter (\<lambda>x. error x = None) (ar_attempts sample_response)) = [mr_usage (ar_response sample_response)]"
  by (rule usage_charged_once [OF sample_completion])

end
