(* ===== verification/Prompting.thy ===== *)
theory Prompting
  imports Tools Effects Access_Resolve Utf8
begin

text \<open>
  The text the model is given besides the conversation: the runtime rules
  (\<open>src/prompt.rs\<close>) and the context of the input files (\<open>src/context.rs\<close>).
\<close>

section \<open>The runtime rules\<close>

definition program_aliases :: "resolved_access_policy \<Rightarrow> string list" where
  "program_aliases access = sorted_list_of_set (dom (programs access))"

definition prompt_line_for :: "tool_descriptor \<Rightarrow> resolved_access_policy \<Rightarrow> path \<Rightarrow> string option" where
  \<open>prompt_line_for d access ws = (case td_prompt d of
     StaticArgs args \<Rightarrow> Some (''- '' @ td_name d @ '' '' @ args)
   | HomeRun \<Rightarrow>
       (let aliases = program_aliases access; example = (case aliases of a # _ \<Rightarrow> a | [] \<Rightarrow> ''python'') in
        Some (''- '' @ td_name d @ '' {"program":"'' @ example @ ''","args":["solution.py"],"timeout_ms":30000} (available programs: ''
          @ join_with '', '' aliases @ '')''))
   | HomeWrite \<Rightarrow> Some (''- home.write {"path":"out/file.md","content":"short text"} for a short file. For BSL, XML, or any text with quotes or longer than a few hundred characters, omit content and use {"path":"out/src/Module.bsl","body":"raw","mode":"create"}. After the JSON object write <<<FILE, a newline, the file bytes, a newline, and FILE>>>. Use mode append when a previous raw body was cut off.'')
   | HomeRead \<Rightarrow> Some (''- '' @ td_name d @ '' {"path":"relative/path","offset":0,"max_chars":50000}. Reads a character window from the agent home directory. If truncated, continue with next_offset.'')
   | WorkspaceReadFile \<Rightarrow> Some (''- '' @ td_name d @ '' {"path":"relative/path","offset":0,"max_chars":6000}. Reads a character window from the workspace root (`''
        @ ws @ ''`), not from home. If truncated, continue with next_offset.''))\<close>

definition program_line :: "string \<Rightarrow> resolved_program_policy \<Rightarrow> string" where
  "program_line alias_name p = ''- program `'' @ alias_name @ ''` executable `'' @ rp_executable p @ ''`''
     @ (if rp_runtime_read_roots p = [] then [] else ''; runtime_read_roots: '' @ join_with '', '' (rp_runtime_read_roots p))"

definition home_run_sandbox_contract :: "resolved_access_policy \<Rightarrow> string list" where
  "home_run_sandbox_contract access =
     [''home.run sandbox contract:'',
      ''- home.run may use the network; only the listed program aliases may be used.'']
     @ List.map_filter (\<lambda>a. map_option (program_line a) (programs access a)) (program_aliases access)
     @ [''- The program may read and execute its install tree and runtime_read_roots. It may read home read grants and write home write grants. The user profile, SSH keys, and global git config are unreachable.'',
        ''- On tool error containing `sandbox failure` or `sandbox unavailable`: do not retry the same call; prefer an MCP tool for the same job if available, else stop and record.'']"

text \<open>The descriptors that get a line, and the other tools of the allowlist.\<close>

definition described :: "effective_tool_policy \<Rightarrow> resolved_access_policy \<Rightarrow> tool_descriptor list" where
  "described effective access = filter (\<lambda>d. allows_server_tool effective (td_server d) (td_tool d)
     \<and> \<not> (requires_programs d \<and> dom (programs access) = {})) BUILTINS"

definition mcp_lines :: "effective_tool_policy \<Rightarrow> string list" where
  "mcp_lines effective = map (\<lambda>t. ''- '' @ qt_server t @ ''.'' @ qt_tool t)
     (filter (\<lambda>t. \<not> is_builtin_server (qt_server t)) (sorted_list_of_set (tools effective)))"

definition runtime_rules_lines :: "effective_tool_policy \<Rightarrow> resolved_access_policy \<Rightarrow> path \<Rightarrow> path \<Rightarrow> string list" where
  \<open>runtime_rules_lines effective access home_path ws =
     (let ds = described effective access;
          lines = List.map_filter (\<lambda>d. prompt_line_for d access ws) ds;
          home_run = list_ex (\<lambda>d. td_server d = ''home'' \<and> td_tool d = ''run'' \<and> prompt_line_for d access ws \<noteq> None) ds
      in [''Runtime rules:'', ''- Stay within configured limits.'',
          ''- The home directory is `'' @ home_path @ ''`. All file writes must use home.write and paths relative to this directory.'',
          ''- Input files are read-only context and are not copied into home automatically.'']
       @ (if lines = [] then [] else ''Available built-in tools:'' # lines)
       @ (if home_run then home_run_sandbox_contract access else [])
       @ (if mcp_lines effective = [] then [] else ''Available MCP tools:'' # mcp_lines effective)
       @ (if allows_server_tool effective ''home'' ''write'' then
           [''- For coding tasks, write deliverables under out/ and create out/manifest.json according to the orchestrator contract in the supplied rules.'',
            ''- Put short files in home.write arguments.content. Put BSL, XML, and any text with quotes or longer than a few hundred characters in a raw <<<FILE body after the JSON object (arguments.body = "raw"). One home.write per turn.'']
          else [])
       @ [''- When the goal is achieved, return done=true and fill `result`.'',
          ''- Return strict JSON and never use markdown.''])\<close>

definition build_runtime_rules :: "effective_tool_policy \<Rightarrow> resolved_access_policy \<Rightarrow> path \<Rightarrow> path \<Rightarrow> string" where
  "build_runtime_rules effective access home_path ws = join_with [LF] (runtime_rules_lines effective access home_path ws)"

section \<open>Input files\<close>

definition MAX_INPUT_FILE_CHARS :: nat where
  "MAX_INPUT_FILE_CHARS = 50000"

definition MAX_INPUT_FILE_BYTES :: nat where
  "MAX_INPUT_FILE_BYTES = MAX_INPUT_FILE_CHARS * 4 + 4"

datatype input_context_error = ReadFile path string | Denied path string

text \<open>The reading loop: the bytes kept and whether the file went on.\<close>

fun prefix_loop :: "(string + string) list \<Rightarrow> string \<Rightarrow> string + string \<times> bool" where
  "prefix_loop [] bytes = Inr (bytes, False)"
| "prefix_loop (Inl e # rs) bytes = Inl e"
| "prefix_loop (Inr chunk # rs) bytes =
     (if chunk = [] then Inr (bytes, False)
      else (let remaining = MAX_INPUT_FILE_BYTES - length bytes in
        if remaining = 0 then Inr (bytes, True)
        else (let keep = min remaining (length chunk); bytes = bytes @ take keep chunk in
          if keep < length chunk then Inr (bytes, True) else prefix_loop rs bytes)))"

definition show_utf8_error :: "nat \<Rightarrow> nat option \<Rightarrow> string" where
  "show_utf8_error valid_up_to error_len = (case error_len of
     Some n \<Rightarrow> ''invalid utf-8 sequence of '' @ show_nat n @ '' bytes from index '' @ show_nat valid_up_to
   | None \<Rightarrow> ''incomplete utf-8 byte sequence from index '' @ show_nat valid_up_to)"

definition read_utf8_prefix :: "path \<Rightarrow> (string + string) list \<Rightarrow> input_context_error + string \<times> bool" where
  "read_utf8_prefix p rs = rbind (map_err (ReadFile p) (prefix_loop rs [])) (\<lambda>(bytes, truncated).
     (case from_utf8 bytes of
        None \<Rightarrow> Inr (bytes, truncated)
      | Some (valid_up_to, error_len) \<Rightarrow>
          (if truncated \<and> error_len = None then Inr (take valid_up_to bytes, truncated)
           else Inl (ReadFile p (show_utf8_error valid_up_to error_len)))))"

definition format_content :: "path \<Rightarrow> string \<Rightarrow> bool \<Rightarrow> string" where
  "format_content p content truncated_by_bytes =
     (let total_chars = chars_count content;
          truncated = (truncated_by_bytes \<or> MAX_INPUT_FILE_CHARS < total_chars);
          content = (if MAX_INPUT_FILE_CHARS < total_chars then take_chars MAX_INPUT_FILE_CHARS content else content)
      in ''--- file: '' @ p @ '' ---'' @ [LF] @ content
         @ (if truncated then LF # ''[truncated at 50000 characters]'' else []) @ [LF] @ ''--- end file ---'')"

definition format_file :: "'w os \<Rightarrow> path \<Rightarrow> 'w \<Rightarrow> (input_context_error + string) \<times> 'w" where
  "format_file F p = io_then (io_map_err (\<lambda>e. ReadFile p (io_text e)) (os_open F p)) (\<lambda>rs.
     io_then (io_lift (read_utf8_prefix p rs)) (\<lambda>(content, truncated). io_return (format_content p content truncated)))"

definition canonicalize_input ::
  "'w os \<Rightarrow> input_files_policy \<Rightarrow> path \<Rightarrow> 'w \<Rightarrow> (input_context_error + path) \<times> 'w" where
  "canonicalize_input F pol p =
     io_then (io_map_err (\<lambda>e. ReadFile p (io_text e)) (os_canonicalize F p)) (\<lambda>canonical.
     io_then (io_lift (map_err (Denied p) (allows_canonical_file pol canonical))) (\<lambda>_. io_return canonical))"

fun input_sections ::
  "'w os \<Rightarrow> input_files_policy \<Rightarrow> path list \<Rightarrow> path list \<Rightarrow> string list \<Rightarrow> 'w \<Rightarrow> (input_context_error + string list) \<times> 'w" where
  "input_sections F pol [] seen sections = io_return sections"
| "input_sections F pol (p # ps) seen sections =
     io_then (canonicalize_input F pol p) (\<lambda>canonical.
       if canonical \<in> set seen then input_sections F pol ps seen sections
       else io_then (format_file F canonical) (\<lambda>section.
         input_sections F pol ps (canonical # seen) (sections @ [section])))"

definition build_input_files_context ::
  "'w os \<Rightarrow> path list \<Rightarrow> input_files_policy \<Rightarrow> 'w \<Rightarrow> (input_context_error + string) \<times> 'w" where
  "build_input_files_context F paths pol =
     io_then (input_sections F pol paths [] []) (\<lambda>sections. io_return (join_with [LF, LF] sections))"

section \<open>The rules describe what may be called\<close>

lemma td_qualified: "d \<in> set BUILTINS \<Longrightarrow> td_name d = td_server d @ ''.'' @ td_tool d"
  by (auto simp: BUILTINS_def descriptor_defs)

definition names_tool :: "tool_descriptor \<Rightarrow> string \<Rightarrow> bool" where
  "names_tool d line \<longleftrightarrow> prefix (''- '' @ td_name d @ '' '') line"

lemma prefix_word: "CHR '' '' \<notin> set a \<Longrightarrow> CHR '' '' \<notin> set b \<Longrightarrow> prefix (a @ '' '') (b @ '' '' @ r) \<longleftrightarrow> a = b"
proof (induction a arbitrary: b)
  case Nil
  then show ?case by (cases b) auto
next
  case (Cons c a)
  then show ?case by (cases b) auto
qed

lemma builtin_names:
  "list_all (\<lambda>d. CHR '' '' \<notin> set (td_name d)) BUILTINS" "distinct (map td_name BUILTINS)"
  "list_all (\<lambda>d. td_name d = td_server d @ ''.'' @ td_tool d) BUILTINS"
  by (simp_all add: BUILTINS_def descriptor_defs)

lemma same_builtin: "d \<in> set BUILTINS \<Longrightarrow> e \<in> set BUILTINS \<Longrightarrow> td_name d = td_name e \<longleftrightarrow> d = e"
  using builtin_names(2) by (auto simp: distinct_map inj_on_def)

lemma no_space: "d \<in> set BUILTINS \<Longrightarrow> CHR '' '' \<notin> set (td_name d)"
  using builtin_names(1) by (simp add: list_all_iff)

lemma names_tool_line:
  assumes "e \<in> set BUILTINS" and "CHR '' '' \<notin> set n"
  shows "names_tool e (''- '' @ n @ '' '' @ rest) \<longleftrightarrow> td_name e = n"
  using prefix_word [OF no_space [OF assms(1)] assms(2), of rest] by (simp add: names_tool_def)

lemma prompt_line_shape:
  assumes "d \<in> set BUILTINS"
  shows "\<exists>rest. prompt_line_for d access ws = Some (''- '' @ td_name d @ '' '' @ rest)"
proof (cases "td_prompt d")
  case HomeWrite
  then have "td_name d = ''home.write''" using assms by (auto simp: BUILTINS_def descriptor_defs)
  then show ?thesis using HomeWrite by (simp add: prompt_line_for_def)
qed (simp_all add: prompt_line_for_def Let_def)

lemma prompt_line_name:
  assumes "d \<in> set BUILTINS" and "e \<in> set BUILTINS"
  shows "\<exists>line. prompt_line_for d access ws = Some line \<and> (names_tool e line \<longleftrightarrow> e = d)"
  using prompt_line_shape [OF assms(1), of access ws] names_tool_line [OF assms(2) no_space [OF assms(1)]]
    same_builtin [OF assms(2,1)] by auto

lemma prefix_dot: "CHR ''.'' \<notin> set a \<Longrightarrow> CHR ''.'' \<notin> set b \<Longrightarrow> prefix (a @ ''.'' @ r) (b @ ''.'' @ r') \<Longrightarrow> a = b"
proof (induction a arbitrary: b)
  case Nil
  then show ?case by (cases b) auto
next
  case (Cons c a)
  then show ?case by (cases b) auto
qed

lemma server_dot: "e \<in> set BUILTINS \<Longrightarrow> CHR ''.'' \<notin> set (td_server e)"
  by (auto simp: BUILTINS_def descriptor_defs)

lemma mcp_line_names:
  assumes "\<And>t. t \<in> tools effective \<Longrightarrow> CHR ''.'' \<notin> set (qt_server t)" and "line \<in> set (mcp_lines effective)" and "e \<in> set BUILTINS"
  shows "\<not> names_tool e line"
proof
  assume names: "names_tool e line"
  obtain t where t: "t \<in> set (sorted_list_of_set (tools effective))" "\<not> is_builtin_server (qt_server t)"
    and line: "line = ''- '' @ qt_server t @ ''.'' @ qt_tool t"
    using assms(2) by (auto simp: mcp_lines_def)
  have "t \<in> tools effective" using t(1) by (cases "finite (tools effective)") auto
  then have dot: "CHR ''.'' \<notin> set (qt_server t)" by (rule assms(1))
  have "td_name e = td_server e @ ''.'' @ td_tool e" using builtin_names(3) assms(3) by (simp add: list_all_iff)
  then have "prefix (td_server e @ ''.'' @ td_tool e @ '' '') (qt_server t @ ''.'' @ qt_tool t)"
    using names by (simp add: names_tool_def line)
  then have "td_server e = qt_server t" using prefix_dot [OF server_dot [OF assms(3)] dot] by blast
  then show False using t(2) assms(3) by (auto simp: is_builtin_server_def list_ex_iff)
qed

lemma described_builtin: "d \<in> set (described effective access) \<Longrightarrow> d \<in> set BUILTINS"
  by (simp add: described_def)

text \<open>The lines that are the same for every run, by their first letters.\<close>

definition fixed_line :: "string \<Rightarrow> bool" where
  "fixed_line line \<longleftrightarrow> take 3 line \<notin> {''- h'', ''- l'', ''- p''}"

lemma names_tool_start:
  assumes "e \<in> set BUILTINS" and "names_tool e line"
  shows "take 3 line \<in> {''- h'', ''- l'', ''- p''}"
proof -
  obtain rest where "line = ''- '' @ td_name e @ rest" using assms(2) by (auto simp: names_tool_def prefix_def)
  moreover have "td_name e \<noteq> [] \<and> hd (td_name e) \<in> set ''hlp''"
    using assms(1) by (auto simp: BUILTINS_def descriptor_defs)
  ultimately show ?thesis by (cases "td_name e") auto
qed

lemma builtin_name_set: "e \<in> set BUILTINS \<Longrightarrow> td_name e \<in> set known_builtin_names"
  by (simp add: known_builtin_names_def)

lemma run_name: "home_run_tool \<in> set BUILTINS" "td_name home_run_tool = ''home.run''"
  by (simp_all add: BUILTINS_def home_run_tool_def)

lemma program_line_names: "e \<in> set BUILTINS \<Longrightarrow> \<not> names_tool e (program_line a p)"
  using names_tool_line [of e "''program''"] builtin_name_set [of e] by (auto simp: program_line_def known_names)

lemma contract_names:
  assumes line: "line \<in> set (home_run_sandbox_contract access)" and e: "e \<in> set BUILTINS" and names: "names_tool e line"
  shows "e = home_run_tool"
proof -
  have may: "td_name e = ''home.run''" if "line = ''- home.run may use the network; only the listed program aliases may be used.''"
    using names names_tool_line [OF e, of "''home.run''"] that by simp
  have "td_name e = ''home.run''"
    using line unfolding home_run_sandbox_contract_def set_append Un_iff set_simps insert_iff empty_iff
  proof (elim disjE, goal_cases)
    case 4
    then show ?case using program_line_names [OF e] names by (auto simp: map_filter_def)
  qed (use names_tool_start [OF e names] may in simp_all)
  then show ?thesis using same_builtin [OF e run_name(1)] run_name(2) by simp
qed

lemma home_run_only:
  assumes "d \<in> set BUILTINS" "td_server d = ''home''" "td_tool d = ''run''"
  shows "d = home_run_tool"
proof -
  have "td_name d = ''home.run''" using builtin_names(3) assms by (simp add: list_all_iff)
  then show ?thesis using same_builtin [OF assms(1) run_name(1)] run_name(2) by simp
qed

lemma fixed_line_names: "fixed_line line \<Longrightarrow> e \<in> set BUILTINS \<Longrightarrow> \<not> names_tool e line"
  using names_tool_start by (auto simp: fixed_line_def)

lemma home_run_listed:
  "list_ex (\<lambda>d. td_server d = ''home'' \<and> td_tool d = ''run'' \<and> P d) (described effective access)
     \<Longrightarrow> home_run_tool \<in> set (described effective access)"
  using home_run_only described_builtin by (fastforce simp: list_ex_iff)

lemma headed_list: "x \<in> set (if xs = [] then [] else h # xs) \<Longrightarrow> x = h \<or> x \<in> set xs"
  by (auto split: if_splits)

lemma rules_lines_set:
  "line \<in> set (runtime_rules_lines effective access home_path ws) \<Longrightarrow>
     line \<in> set (List.map_filter (\<lambda>d. prompt_line_for d access ws) (described effective access))
     \<or> (home_run_tool \<in> set (described effective access) \<and> line \<in> set (home_run_sandbox_contract access))
     \<or> line \<in> set (mcp_lines effective) \<or> fixed_line line"
  unfolding runtime_rules_lines_def Let_def set_append Un_iff
proof (elim disjE, goal_cases)
  case 1
  then have "fixed_line line" unfolding set_simps insert_iff empty_iff by (elim disjE) (simp_all add: fixed_line_def)
  then show ?case by simp
next
  case 2
  then have "fixed_line line \<or> line \<in> set (List.map_filter (\<lambda>d. prompt_line_for d access ws) (described effective access))"
    by (elim headed_list [THEN disjE]) (simp_all add: fixed_line_def)
  then show ?case by blast
next
  case 3
  then show ?case using home_run_listed [of "\<lambda>d. prompt_line_for d access ws \<noteq> None" effective access]
    by (simp split: if_splits)
next
  case 4
  then have "fixed_line line \<or> line \<in> set (mcp_lines effective)" by (elim headed_list [THEN disjE]) (simp_all add: fixed_line_def)
  then show ?case by blast
next
  case 5
  then have "fixed_line line" unfolding set_simps insert_iff empty_iff by (auto simp add: fixed_line_def split: if_splits)
  then show ?case by simp
next
  case 6
  then have "fixed_line line" unfolding set_simps insert_iff empty_iff by (elim disjE) (simp_all add: fixed_line_def)
  then show ?case by simp
qed

lemma builtin_lines_listed:
  "line \<in> set (List.map_filter (\<lambda>d. prompt_line_for d access ws) (described effective access))
     \<Longrightarrow> line \<in> set (runtime_rules_lines effective access home_path ws)"
  unfolding runtime_rules_lines_def Let_def set_append Un_iff by (rule disjI2, rule disjI1) auto

text \<open>
  C30: the system prompt names exactly the built-in tools the run may call. A line of the runtime
  rules starts with the name of a built-in tool if and only if the effective allowlist admits the
  tool and, for a tool that needs programs, the profile grants one.
\<close>

theorem rules_name_exactly_allowed_tools:
  assumes wf: "\<And>t. t \<in> tools effective \<Longrightarrow> CHR ''.'' \<notin> set (qt_server t)" and e: "e \<in> set BUILTINS"
  shows "(\<exists>line\<in>set (runtime_rules_lines effective access home_path ws). names_tool e line)
     \<longleftrightarrow> allows_server_tool effective (td_server e) (td_tool e)
       \<and> (requires_programs e \<longrightarrow> (\<exists>a p. programs access a = Some p))"
proof -
  let ?ds = "described effective access"
  have "(\<exists>line\<in>set (runtime_rules_lines effective access home_path ws). names_tool e line) \<longleftrightarrow> e \<in> set ?ds"
  proof
    assume "\<exists>line\<in>set (runtime_rules_lines effective access home_path ws). names_tool e line"
    then obtain line where line: "line \<in> set (runtime_rules_lines effective access home_path ws)" "names_tool e line"
      by blast
    then consider "line \<in> set (List.map_filter (\<lambda>d. prompt_line_for d access ws) ?ds)"
      | "home_run_tool \<in> set ?ds" "line \<in> set (home_run_sandbox_contract access)"
      | "line \<in> set (mcp_lines effective)" | "fixed_line line"
      using rules_lines_set by blast
    then show "e \<in> set ?ds"
    proof cases
      case 1
      then obtain d where d: "d \<in> set ?ds" "prompt_line_for d access ws = Some line" by (auto simp: map_filter_def)
      then show ?thesis using prompt_line_name [OF described_builtin [OF d(1)] e, of access ws] line(2) by auto
    next
      case 2
      then show ?thesis using contract_names [OF _ e line(2)] by blast
    next
      case 3
      then show ?thesis using mcp_line_names [OF wf _ e] line(2) by blast
    next
      case 4
      then show ?thesis using fixed_line_names [OF _ e] line(2) by blast
    qed
  next
    assume d: "e \<in> set ?ds"
    obtain line where line: "prompt_line_for e access ws = Some line" "names_tool e line"
      using prompt_line_name [OF e e, of access ws] by auto
    then have "line \<in> set (List.map_filter (\<lambda>d. prompt_line_for d access ws) ?ds)"
      using d by (force simp: map_filter_def)
    then show "\<exists>line\<in>set (runtime_rules_lines effective access home_path ws). names_tool e line"
      using builtin_lines_listed line(2) by blast
  qed
  also have "e \<in> set ?ds \<longleftrightarrow> allows_server_tool effective (td_server e) (td_tool e)
      \<and> (requires_programs e \<longrightarrow> (\<exists>a p. programs access a = Some p))"
    using e by (auto simp: described_def)
  finally show ?thesis .
qed

theorem rules_name_exactly_allowed_tools_witness:
  "(\<exists>line\<in>set (runtime_rules_lines (effective_compile legacy_policy {QualifiedTool ''home'' ''read''} []) legacy_policy ''/h'' ''/w'').
      names_tool home_read_tool line)
     \<longleftrightarrow> allows_server_tool (effective_compile legacy_policy {QualifiedTool ''home'' ''read''} []) ''home'' ''read''"
  using rules_name_exactly_allowed_tools [of "effective_compile legacy_policy {QualifiedTool ''home'' ''read''} []" home_read_tool
      legacy_policy "''/h''" "''/w''"]
  by (simp add: effective_compile_def BUILTINS_def home_read_tool_def)

section \<open>What the model sees of a file\<close>

lemma prefix_loop_pieces:
  "[] \<notin> set bs \<Longrightarrow> length acc \<le> MAX_INPUT_FILE_BYTES \<Longrightarrow>
     prefix_loop (map Inr bs) acc
       = Inr (take MAX_INPUT_FILE_BYTES (acc @ concat bs), MAX_INPUT_FILE_BYTES < length (acc @ concat bs))"
proof (induction bs arbitrary: acc)
  case (Cons b bs)
  show ?case
  proof (cases "length acc + length b \<le> MAX_INPUT_FILE_BYTES")
    case True
    then have "prefix_loop (map Inr bs) (acc @ b) = Inr (take MAX_INPUT_FILE_BYTES ((acc @ b) @ concat bs),
        MAX_INPUT_FILE_BYTES < length ((acc @ b) @ concat bs))"
      using Cons.prems by (intro Cons.IH) simp_all
    then show ?thesis using True Cons.prems by (auto simp: Let_def min_def)
  next
    case False
    then show ?thesis using Cons.prems by (auto simp: Let_def)
  qed
qed simp

lemma tail_step_incomplete: "tail_step k n xs = Incomplete \<Longrightarrow> length xs < k"
  by (induction k n xs rule: tail_step.induct) (auto split: if_splits)

lemma incomplete_short: "utf8_next s = Incomplete \<Longrightarrow> length s \<le> 3"
  by (cases s) (auto dest!: tail_step_incomplete split: if_splits list.splits)

lemma char_short: "utf8_next s = CharOf n \<Longrightarrow> n \<le> 4"
  by (cases s) (auto dest!: tail_step_char split: if_splits list.splits)

lemma chars_count_append: "chars_count (a @ b) = chars_count a + chars_count b"
  by (simp add: chars_count_def)

lemma valid_length: "utf8_valid s \<Longrightarrow> length s \<le> 4 * chars_count s"
proof (induction s rule: from_utf8.induct)
  case (1 s)
  show ?case
  proof (cases "s = []")
    case False
    then obtain n where n: "utf8_next s = CharOf n" "utf8_valid (drop n s)"
      using "1.prems" by (cases "utf8_next s") (auto simp: from_utf8_error from_utf8_char)
    note char = utf8_next_char [OF n(1)]
    obtain c r where s: "s = c # r" using False by (cases s) auto
    have "1 \<le> chars_count (take n s)" using char s by (cases n) (auto simp: chars_count_def)
    moreover have "chars_count s = chars_count (take n s) + chars_count (drop n s)"
      by (metis append_take_drop_id chars_count_append)
    moreover have "length (drop n s) \<le> 4 * chars_count (drop n s)" using "1.IH" [OF False n(1) n(2)] .
    ultimately show ?thesis using char_short [OF n(1)] by simp
  qed simp
qed

text \<open>A file that is read in pieces, as long as the loop reads.\<close>

lemma read_utf8_prefix_pieces:
  assumes bs: "[] \<notin> set bs" and valid: "utf8_valid (concat bs)"
  shows "\<exists>content rest. read_utf8_prefix p (map Inr bs) = Inr (content, MAX_INPUT_FILE_BYTES < length (concat bs))
     \<and> concat bs = content @ rest \<and> utf8_valid content \<and> utf8_valid rest
     \<and> (rest \<noteq> [] \<longrightarrow> MAX_INPUT_FILE_CHARS < chars_count content)
     \<and> (MAX_INPUT_FILE_BYTES < length (concat bs) \<longrightarrow> MAX_INPUT_FILE_CHARS < chars_count content)"
proof -
  let ?d = "concat bs" and ?t = "take MAX_INPUT_FILE_BYTES (concat bs)"
  have loop: "prefix_loop (map Inr bs) [] = Inr (?t, MAX_INPUT_FILE_BYTES < length ?d)"
    using prefix_loop_pieces [OF bs, of "[]"] by simp
  show ?thesis
  proof (cases "MAX_INPUT_FILE_BYTES < length ?d")
    case False
    then show ?thesis using valid by (intro exI [of _ ?d] exI [of _ "[]"]) (simp add: read_utf8_prefix_def loop)
  next
    case True
    have many: "MAX_INPUT_FILE_CHARS < chars_count c" if "utf8_valid c" "MAX_INPUT_FILE_BYTES - 3 \<le> length c" for c
      using valid_length [OF that(1)] that(2) by (simp add: MAX_INPUT_FILE_BYTES_def MAX_INPUT_FILE_CHARS_def)
    have piece: "utf8_valid ?t \<or> (\<exists>v. from_utf8 ?t = Some (v, None))"
      using utf8_piece [of ?t "drop MAX_INPUT_FILE_BYTES ?d"] valid by simp
    obtain content where read: "read_utf8_prefix p (map Inr bs) = Inr (content, True)"
      and content: "utf8_valid content" "prefix content ?d" "MAX_INPUT_FILE_BYTES - 3 \<le> length content"
    proof (cases "from_utf8 ?t")
      case None
      then show thesis using that [of ?t] True by (simp add: read_utf8_prefix_def loop take_is_prefix)
    next
      case (Some ve)
      then obtain v where v: "from_utf8 ?t = Some (v, None)" using piece by auto
      note err = from_utf8_Some [OF v]
      have "utf8_valid (take v ?t)" "v < length ?t" using err by blast+
      moreover have "length (drop v ?t) \<le> 3" using err by (intro incomplete_short) simp
      moreover have "prefix (take v ?t) ?d" by (meson prefix_order.trans take_is_prefix)
      ultimately show thesis using that [of "take v ?t"] True v by (simp add: read_utf8_prefix_def loop)
    qed
    obtain rest where rest: "?d = content @ rest" using content(2) by (auto simp: prefix_def)
    then have "utf8_valid rest" using utf8_valid_tail [of content rest] content(1) valid by simp
    then show ?thesis using read content(1) rest many [OF content(1,3)] True by auto
  qed
qed

text \<open>
  The model sees the beginning of an input file exactly. However the operating system
  cuts a file of valid UTF-8 into pieces, its section of the prompt holds the first 50000
  characters, no character broken, and the mark of truncation if and only if there are more.
\<close>

theorem input_section_exact:
  assumes "os_open F p w = (Inr (map Inr bs), w')" and "[] \<notin> set bs" and "utf8_valid (concat bs)"
  shows "format_file F p w = (Inr (''--- file: '' @ p @ '' ---'' @ [LF] @ take_chars 50000 (concat bs)
     @ (if 50000 < chars_count (concat bs) then LF # ''[truncated at 50000 characters]'' else [])
     @ [LF] @ ''--- end file ---''), w')"
proof -
  obtain content rest where read: "read_utf8_prefix p (map Inr bs) = Inr (content, MAX_INPUT_FILE_BYTES < length (concat bs))"
    and d: "concat bs = content @ rest" "utf8_valid rest"
    and more: "rest \<noteq> [] \<longrightarrow> MAX_INPUT_FILE_CHARS < chars_count content"
      "MAX_INPUT_FILE_BYTES < length (concat bs) \<longrightarrow> MAX_INPUT_FILE_CHARS < chars_count content"
    using read_utf8_prefix_pieces [OF assms(2,3), of p] by blast
  have "take_chars MAX_INPUT_FILE_CHARS (concat bs)
      = (if MAX_INPUT_FILE_CHARS < chars_count content then take_chars MAX_INPUT_FILE_CHARS content else content)"
  proof (cases "MAX_INPUT_FILE_CHARS < chars_count content")
    case True
    then show ?thesis using utf8_valid_boundary [OF d(2)] by (simp add: d(1) take_chars_append take_chars_zero)
  next
    case False
    then show ?thesis using more(1) by (auto simp: d(1) take_chars_all)
  qed
  moreover have "MAX_INPUT_FILE_CHARS < chars_count (concat bs)
      \<longleftrightarrow> MAX_INPUT_FILE_BYTES < length (concat bs) \<or> MAX_INPUT_FILE_CHARS < chars_count content"
    using more by (cases "rest = []") (auto simp: d(1) chars_count_append chars_count_def)
  ultimately show ?thesis
    using assms(1) by (simp add: format_file_def sequence_defs read format_content_def Let_def MAX_INPUT_FILE_CHARS_def)
qed

section \<open>Which files are read\<close>

text \<open>What building the context does: it resolves paths, and it opens files the policy allows.\<close>

inductive input_effect :: "'w os \<Rightarrow> input_files_policy \<Rightarrow> 'w \<Rightarrow> 'w \<Rightarrow> bool" for F pol where
  resolves: "input_effect F pol w (snd (os_canonicalize F p w))"
| opens: "allows_canonical_file pol p = Inr () \<Longrightarrow> input_effect F pol w (snd (os_open F p w))"

text \<open>The sections shown are those of the given files, newest last.\<close>

definition sections_of :: "input_files_policy \<Rightarrow> path list \<Rightarrow> string list \<Rightarrow> bool" where
  "sections_of pol cs sections \<longleftrightarrow> distinct cs \<and> list_all (\<lambda>c. allows_canonical_file pol c = Inr ()) cs
     \<and> list_all2 (\<lambda>c s. prefix (''--- file: '' @ c @ '' ---'' @ [LF]) s) (rev cs) sections"

lemma canonicalize_input_runs:
  "runs (input_effect F pol) (\<lambda>c. allows_canonical_file pol c = Inr ()) (canonicalize_input F pol p)"
proof -
  have "runs (input_effect F pol) (\<lambda>_. True) (os_canonicalize F p)"
    by (rule runs_step) (rule input_effect.resolves)
  moreover have "runs (input_effect F pol) (\<lambda>_. allows_canonical_file pol c = Inr ())
      (io_lift (map_err (Denied p) (allows_canonical_file pol c)))" for c
    by (rule runs_weaken [OF runs_lift]) (simp add: map_err_eq_Inr)
  ultimately show ?thesis unfolding canonicalize_input_def
    by (intro runs_then [OF runs_map_err [of _ "\<lambda>_. True"]] runs_then [of _ "\<lambda>_. allows_canonical_file pol _ = Inr ()"] runs_return)
qed

lemma format_file_runs:
  assumes "allows_canonical_file pol p = Inr ()"
  shows "runs (input_effect F pol) (prefix (''--- file: '' @ p @ '' ---'' @ [LF])) (format_file F p)"
proof -
  have "runs (input_effect F pol) (\<lambda>_. True) (os_open F p)"
    by (rule runs_step) (rule input_effect.opens [OF assms])
  then have open_file: "runs (input_effect F pol) (\<lambda>_. True) (io_map_err (\<lambda>e. ReadFile p (io_text e)) (os_open F p))"
    by (rule runs_map_err)
  show ?thesis unfolding format_file_def
    by (rule runs_then [OF open_file], rule runs_then [OF runs_lift]) (auto simp: format_content_def Let_def intro: runs_return)
qed

lemma input_sections_runs:
  "sections_of pol seen sections \<Longrightarrow>
     runs (input_effect F pol) (\<lambda>out. \<exists>cs. sections_of pol cs out) (input_sections F pol ps seen sections)"
proof (induction F pol ps seen sections rule: input_sections.induct)
  case (1 F pol seen sections)
  then show ?case by (auto intro: runs_return)
next
  case (2 F pol p ps seen sections)
  show ?case unfolding input_sections.simps
  proof (rule runs_then [OF canonicalize_input_runs], rule runs_if)
    fix c assume "allows_canonical_file pol c = Inr ()" "c \<in> set seen"
    then show "runs (input_effect F pol) (\<lambda>out. \<exists>cs. sections_of pol cs out) (input_sections F pol ps seen sections)"
      using "2.IH"(1) "2.prems" by blast
  next
    fix c assume c: "allows_canonical_file pol c = Inr ()" "c \<notin> set seen"
    show "runs (input_effect F pol) (\<lambda>out. \<exists>cs. sections_of pol cs out)
        (io_then (format_file F c) (\<lambda>section. input_sections F pol ps (c # seen) (sections @ [section])))"
    proof (rule runs_then [OF format_file_runs [OF c(1)]])
      fix s assume "prefix (''--- file: '' @ c @ '' ---'' @ [LF]) s"
      then have "sections_of pol (c # seen) (sections @ [s])"
        using c "2.prems" by (auto simp: sections_of_def intro!: list_all2_appendI)
      then show "runs (input_effect F pol) (\<lambda>out. \<exists>cs. sections_of pol cs out)
          (input_sections F pol ps (c # seen) (sections @ [s]))"
        using "2.IH"(2) [OF c(2)] by blast
    qed
  qed
qed

text \<open>
  Whatever the caller names and whatever the file system does in between, building the input
  context opens no file that the input policy refuses (outside the configured roots, or in a
  protected profile directory), and the text it yields shows each resolved file once, each one
  allowed.
\<close>

theorem input_context_confined:
  "(input_effect F pol)\<^sup>*\<^sup>* w (snd (build_input_files_context F paths pol w))
   \<and> (case fst (build_input_files_context F paths pol w) of Inl _ \<Rightarrow> True
      | Inr t \<Rightarrow> \<exists>cs sections. sections_of pol cs sections \<and> t = join_with [LF, LF] sections)"
proof -
  have "runs (input_effect F pol) (\<lambda>t. \<exists>cs sections. sections_of pol cs sections \<and> t = join_with [LF, LF] sections)
      (build_input_files_context F paths pol)"
    unfolding build_input_files_context_def
    by (rule runs_then [OF input_sections_runs]) (auto simp: sections_of_def intro: runs_return)
  then show ?thesis by (cases "build_input_files_context F paths pol w") (auto simp: runs_def split: sum.split)
qed

text \<open>A system with one file, read in two pieces that cut a character.\<close>

definition one_file_os :: "nat os" where
  "one_file_os = 
     \<lparr>os_canonicalize = (\<lambda>p w. (Inr p, w + 1)), os_metadata = (\<lambda>p w. (Inl NOT_FOUND, w + 1)), os_symlink_metadata = (\<lambda>p w. (Inl NOT_FOUND, w + 1)),
      os_read_dir = (\<lambda>p w. (Inl NOT_FOUND, w + 1)),
      os_open = (\<lambda>p w. (Inr (map Inr [[CHR ''h'', CHR 0xC3], [CHR 0xA9, CHR ''!'']]), w + 1)),
      os_create_dir = (\<lambda>p w. (Inl NOT_FOUND, w + 1)), os_create_dir_all = (\<lambda>p w. (Inl NOT_FOUND, w + 1)), os_write = (\<lambda>p c w. (Inl NOT_FOUND, w + 1)), os_open_append = (\<lambda>p w. (Inl NOT_FOUND, w + 1)),
      os_append = (\<lambda>p c w. (Inl NOT_FOUND, w + 1)), os_read_to_string = (\<lambda>p w. (Inl NOT_FOUND, w + 1)), os_rename = (\<lambda>p q w. (Inl NOT_FOUND, w + 1)), os_remove_file = (\<lambda>p w. (Inl NOT_FOUND, w + 1)),
      os_remove_dir_all = (\<lambda>p w. (Inl NOT_FOUND, w + 1))\<rparr>"

theorem input_section_exact_witness:
  "format_file one_file_os ''/d/a'' 0 = (Inr (''--- file: '' @ ''/d/a'' @ '' ---'' @ [LF]
     @ take_chars 50000 (concat [[CHR ''h'', CHR 0xC3], [CHR 0xA9, CHR ''!'']])
     @ (if 50000 < chars_count (concat [[CHR ''h'', CHR 0xC3], [CHR 0xA9, CHR ''!'']])
        then LF # ''[truncated at 50000 characters]'' else [])
     @ [LF] @ ''--- end file ---''), 1)"
proof (rule input_section_exact)
  show "os_open one_file_os ''/d/a'' 0 = (Inr (map Inr [[CHR ''h'', CHR 0xC3], [CHR 0xA9, CHR ''!'']]), 1)"
    by (simp add: one_file_os_def)
  show "utf8_valid (concat [[CHR ''h'', CHR 0xC3], [CHR 0xA9, CHR ''!'']])" by code_simp
qed simp

end
