(* ===== verification/Mcp_Oauth.thy ===== *)
theory Mcp_Oauth
  imports Tools Config Effects Sse Provider
begin

text \<open>
  OAuth 2.1 for MCP servers over HTTP (\<open>src/mcp/oauth.rs\<close>) and the errors and lookups of the
  MCP module (\<open>src/mcp/mod.rs\<close>). A helper is bound to one endpoint; it discovers the
  authorization server, refreshes or logs in, and keeps the tokens. URLs (crate \<open>url\<close>), HTTP, the
  browser, the callback socket, hashing and randomness are parameters; the helper's tokens and the
  world are the state.
\<close>

section \<open>Errors of the MCP module\<close>

record bearer_challenge =
  bc_resource_metadata :: "string option"
  bc_scope :: "string option"
  bc_error :: "string option"

definition default_challenge :: bearer_challenge where
  "default_challenge = \<lparr>bc_resource_metadata = None, bc_scope = None, bc_error = None\<rparr>"

datatype mcp_error =
    McSpawn string string
  | McMissingPipe string string
  | McIo string
  | McJson string
  | McHttp string string
  | McOAuth string string
  | McUnauthorized string "bearer_challenge option"
  | McSessionExpired string
  | McTimeout string string
  | McProtocol string string
  | McLogging string
  | McUnknownServer string
  | McUnknownTool string string
  | McInvalidToolArguments string string
  | McActorClosed string
  | McCancelled string
  | McIsolationDenied string string
  | McSandboxUnavailable string string

definition show_mcp_error :: "mcp_error \<Rightarrow> string" where
  "show_mcp_error e = (case e of
     McSpawn server source \<Rightarrow> ''failed to spawn MCP server `'' @ server @ ''`: '' @ source
   | McMissingPipe server pipe \<Rightarrow> ''MCP server `'' @ server @ ''` missing stdio pipe: '' @ pipe
   | McIo source \<Rightarrow> ''MCP protocol IO error: '' @ source
   | McJson source \<Rightarrow> ''MCP payload encode/decode failed: '' @ source
   | McHttp server source \<Rightarrow> ''MCP HTTP error on server `'' @ server @ ''`: '' @ source
   | McOAuth server err \<Rightarrow> ''MCP OAuth error on server `'' @ server @ ''`: '' @ err
   | McUnauthorized server c \<Rightarrow> ''MCP server `'' @ server @ ''` requires authorization''
   | McSessionExpired server \<Rightarrow> ''MCP session expired on server `'' @ server @ ''`''
   | McTimeout server meth \<Rightarrow> ''MCP call timed out on server `'' @ server @ ''` for method `'' @ meth @ ''`''
   | McProtocol server err \<Rightarrow> ''MCP server `'' @ server @ ''` returned protocol error: '' @ err
   | McLogging server \<Rightarrow> ''MCP logging failure on server `'' @ server @ ''`''
   | McUnknownServer server \<Rightarrow> ''unknown MCP server `'' @ server @ ''`''
   | McUnknownTool server t \<Rightarrow> ''tool `'' @ t @ ''` is not exposed by server `'' @ server @ ''`''
   | McInvalidToolArguments t err \<Rightarrow> ''invalid arguments for tool `'' @ t @ ''`: '' @ err
   | McActorClosed server \<Rightarrow> ''MCP server `'' @ server @ ''` actor channel closed''
   | McCancelled server \<Rightarrow> ''MCP call cancelled on server `'' @ server @ ''`''
   | McIsolationDenied server why \<Rightarrow> ''MCP isolation denied on server `'' @ server @ ''`: '' @ why
   | McSandboxUnavailable server why \<Rightarrow> ''MCP sandbox unavailable for stdio server `'' @ server @ ''`: '' @ why)"

definition external_of_mcp_error :: "mcp_error \<Rightarrow> external_tool_error" where
  "external_of_mcp_error e = (case e of
     McUnknownServer server \<Rightarrow> UnknownServer server
   | McUnknownTool server t \<Rightarrow> EUnknownTool server t
   | McInvalidToolArguments t err \<Rightarrow> InvalidToolArguments t err
   | other \<Rightarrow> Failed (show_mcp_error other))"

definition tool_error_of_mcp_error :: "mcp_error \<Rightarrow> tool_error" where
  "tool_error_of_mcp_error e = TExternal (external_of_mcp_error e)"

definition tool_names_from_list_result :: "json \<Rightarrow> string list" where
  "tool_names_from_list_result response = (case Option.bind (json_get response ''tools'') json_as_array of
     None \<Rightarrow> []
   | Some listed \<Rightarrow> List.map_filter (\<lambda>entry. Option.bind (json_get entry ''name'') json_as_str) listed)"

section \<open>The challenge of a server\<close>

text \<open>\<open>str::split_whitespace\<close>: the text up to the next white space, and the rest.\<close>

fun take_word :: "string \<Rightarrow> string \<times> string" where
  "take_word [] = ([], [])"
| "take_word (c # s) = (if ws_head (c # s) \<noteq> None then ([], c # s)
     else (let (w, r) = take_word s in (c # w, r)))"

lemma take_word_length: "length (snd (take_word s)) \<le> length s"
  by (induction s rule: take_word.induct) (auto split: prod.split)

function split_whitespace :: "string \<Rightarrow> string list" where
  "split_whitespace s = (case trim_start s of [] \<Rightarrow> []
     | t \<Rightarrow> (let (w, r) = take_word t in w # split_whitespace r))"
  by pat_completeness auto
termination
proof (relation "measure length", goal_cases)
  case (2 s c t p w r)
  then have "trim_start s = c # t" by simp
  then have "ws_head (c # t) = None" "length (c # t) \<le> length s"
    using trim_start_no_ws [of s] suffix_length_le [OF trim_start_suffix [of s]] by simp_all
  then show ?case using 2 take_word_length [of t] by (auto split: prod.splits)
qed simp

declare split_whitespace.simps [simp del]

fun split_params_loop :: "string \<Rightarrow> string \<Rightarrow> bool \<Rightarrow> string list \<Rightarrow> string list" where
  "split_params_loop [] current in_quotes parts = (if is_blank current then parts else parts @ [trim current])"
| "split_params_loop (c # s) current in_quotes parts =
     (if c = CHR 0x22 then split_params_loop s (current @ [c]) (\<not> in_quotes) parts
      else if c = CHR '','' \<and> \<not> in_quotes
      then split_params_loop s [] in_quotes (if is_blank current then parts else parts @ [trim current])
      else split_params_loop s (current @ [c]) in_quotes parts)"

definition split_auth_params :: "string \<Rightarrow> string list" where
  "split_auth_params input = split_params_loop input [] False []"

definition unquote :: "string \<Rightarrow> string" where
  "unquote v = (case Option.bind (strip_prefix [CHR 0x22] v) (\<lambda>s. strip_suffix [CHR 0x22] s) of
     Some s \<Rightarrow> s | None \<Rightarrow> v)"

definition challenge_param :: "string \<Rightarrow> bearer_challenge \<Rightarrow> bearer_challenge" where
  "challenge_param part c = (case split_once (CHR ''='') part of
     None \<Rightarrow> c
   | Some (k, v) \<Rightarrow>
       (let key = trim k; v = unquote (trim v) in
        if key = ''resource_metadata'' then c\<lparr>bc_resource_metadata := Some v\<rparr>
        else if key = ''scope'' then c\<lparr>bc_scope := Some v\<rparr>
        else if key = ''error'' then c\<lparr>bc_error := Some v\<rparr>
        else c))"

definition parse_www_authenticate_value :: "string \<Rightarrow> bearer_challenge option" where
  "parse_www_authenticate_value raw =
     (let trimmed = trim raw in
      map_option (\<lambda>rest. fold challenge_param (split_auth_params (trim_start rest)) default_challenge)
        (case strip_prefix ''Bearer'' trimmed of Some r \<Rightarrow> Some r | None \<Rightarrow> strip_prefix ''bearer'' trimmed))"

definition parse_www_authenticate :: "header_map \<Rightarrow> bearer_challenge option" where
  "parse_www_authenticate headers = Option.bind (header_text headers ''www-authenticate'') parse_www_authenticate_value"

section \<open>URLs\<close>

text \<open>What the code uses of the crate \<open>url\<close>; an address carries its bits.\<close>

datatype url_host = Ipv4 u32 | Ipv6 u128 | Domain string

record 'u url_ops =
  uo_parse :: "string \<Rightarrow> string + 'u"
  uo_str :: "'u \<Rightarrow> string"
  uo_scheme :: "'u \<Rightarrow> string"
  uo_host :: "'u \<Rightarrow> url_host option"
  uo_host_str :: "'u \<Rightarrow> string option"
  uo_port :: "'u \<Rightarrow> 16 word option"
  uo_path :: "'u \<Rightarrow> string"
  uo_set_path :: "string \<Rightarrow> 'u \<Rightarrow> 'u"
  uo_clear_query :: "'u \<Rightarrow> 'u"
  uo_clear_fragment :: "'u \<Rightarrow> 'u"
  uo_append_pairs :: "(string \<times> string) list \<Rightarrow> 'u \<Rightarrow> 'u"
  uo_query_pairs :: "'u \<Rightarrow> (string \<times> string) list"
  uo_join :: "'u \<Rightarrow> string \<Rightarrow> string + 'u"

definition is_loopback_url :: "'u url_ops \<Rightarrow> 'u \<Rightarrow> bool" where
  "is_loopback_url U u = (case uo_host U u of
     Some (Ipv4 a) \<Rightarrow> drop_bit 24 a = 127
   | Some (Ipv6 a) \<Rightarrow> a = 1
   | Some (Domain h) \<Rightarrow> eq_ignore_ascii_case h ''localhost'' \<or> eq_ignore_ascii_case h ''localhost.''
   | None \<Rightarrow> False)"

definition is_allowed_oauth_endpoint :: "'u url_ops \<Rightarrow> 'u \<Rightarrow> bool" where
  "is_allowed_oauth_endpoint U u =
     (if uo_scheme U u = ''https'' then True else if uo_scheme U u = ''http'' then is_loopback_url U u else False)"

definition urls_same_origin :: "'u url_ops \<Rightarrow> 'u \<Rightarrow> 'u \<Rightarrow> bool" where
  "urls_same_origin U a b \<longleftrightarrow> uo_scheme U a = uo_scheme U b \<and> uo_host_str U a = uo_host_str U b \<and> uo_port U a = uo_port U b"

definition normalized_issuer :: "'u url_ops \<Rightarrow> 'u \<Rightarrow> string" where
  "normalized_issuer U u = (let s = trim_end_slashes (uo_str U u) in if s = [] then uo_str U u else s)"

definition issuers_match :: "'u url_ops \<Rightarrow> 'u \<Rightarrow> 'u \<Rightarrow> bool" where
  "issuers_match U expected reported \<longleftrightarrow> normalized_issuer U expected = normalized_issuer U reported"

definition validate_metadata_fetch_url :: "'u url_ops \<Rightarrow> string \<Rightarrow> 'u option \<Rightarrow> string + unit" where
  "validate_metadata_fetch_url U raw same_origin_as =
     rbind (map_err (\<lambda>e. ''invalid URL: '' @ e) (uo_parse U raw)) (\<lambda>u.
       if \<not> is_allowed_oauth_endpoint U u
       then Inl (''URL must use https (or http only for loopback); got `'' @ uo_scheme U u @ ''`'')
       else (case same_origin_as of
           Some origin \<Rightarrow> (if \<not> urls_same_origin U u origin \<and> \<not> is_loopback_url U u
             then Inl ''resource_metadata URL must share the MCP server origin or be loopback'' else Inr ())
         | None \<Rightarrow> Inr ()))"

definition bare_url :: "'u url_ops \<Rightarrow> string \<Rightarrow> 'u \<Rightarrow> string" where
  "bare_url U p u = uo_str U (uo_clear_fragment U (uo_clear_query U (uo_set_path U p u)))"

definition canonical_resource_uri :: "'u url_ops \<Rightarrow> 'u \<Rightarrow> string option \<Rightarrow> string" where
  "canonical_resource_uri U mcp_url prm_resource = (case Option.bind prm_resource (\<lambda>r. if is_blank r then None else Some (trim r)) of
     Some r \<Rightarrow> r
   | None \<Rightarrow>
       (let u = uo_clear_query U (uo_clear_fragment U mcp_url); s = uo_str U u in
        if ends_with s ''/'' \<and> uo_path U u \<noteq> ''/'' then butlast s else s))"

definition RESOURCE_META_WELL_KNOWN :: string where
  "RESOURCE_META_WELL_KNOWN = ''/.well-known/oauth-protected-resource''"

definition well_known_resource_metadata_urls :: "'u url_ops \<Rightarrow> 'u \<Rightarrow> string list" where
  "well_known_resource_metadata_urls U mcp_url =
     (let p = trim_end_slashes (uo_path U mcp_url) in
      (if p \<noteq> [] \<and> p \<noteq> ''/'' then [bare_url U (RESOURCE_META_WELL_KNOWN @ p) mcp_url] else [])
      @ [bare_url U RESOURCE_META_WELL_KNOWN mcp_url])"

definition authorization_server_metadata_urls :: "'u url_ops \<Rightarrow> 'u \<Rightarrow> string list" where
  "authorization_server_metadata_urls U issuer =
     (let p = trim_end_slashes (uo_path U issuer) in
      (if p \<noteq> [] \<and> p \<noteq> ''/''
       then [bare_url U (''/.well-known/oauth-authorization-server'' @ p) issuer,
             bare_url U (p @ ''/.well-known/openid-configuration'') issuer] else [])
      @ [bare_url U ''/.well-known/oauth-authorization-server'' issuer,
         bare_url U ''/.well-known/openid-configuration'' issuer])"

section \<open>Metadata\<close>

record protected_resource_metadata =
  prm_resource :: "string option"
  prm_authorization_servers :: "string list"
  prm_scopes_supported :: "string list"

record authorization_server_metadata =
  as_issuer :: string
  as_authorization_endpoint :: string
  as_token_endpoint :: string
  as_registration_endpoint :: "string option"
  as_code_challenge_methods :: "string list"
  as_cimd_supported :: bool

definition check_endpoint :: "'u url_ops \<Rightarrow> string \<Rightarrow> string \<Rightarrow> string + unit" where
  "check_endpoint U label endpoint =
     rbind (map_err (\<lambda>e. ''invalid '' @ label @ '' `'' @ endpoint @ ''`: '' @ e) (uo_parse U endpoint)) (\<lambda>u.
       if is_allowed_oauth_endpoint U u then Inr ()
       else Inl (label @ '' must use https (or http only for loopback); got `'' @ endpoint @ ''`''))"

definition validate_authorization_server_metadata ::
  "'u url_ops \<Rightarrow> 'u \<Rightarrow> authorization_server_metadata \<Rightarrow> string + unit" where
  "validate_authorization_server_metadata U expected meta =
     rbind (map_err (\<lambda>e. ''authorization server metadata has invalid issuer `'' @ as_issuer meta @ ''`: '' @ e)
       (uo_parse U (as_issuer meta))) (\<lambda>reported.
     if \<not> issuers_match U expected reported
     then Inl (''authorization server issuer mismatch: expected `'' @ uo_str U expected @ ''`, got `'' @ as_issuer meta @ ''`'')
     else rbind (check_endpoint U ''authorization_endpoint'' (as_authorization_endpoint meta)) (\<lambda>_.
       rbind (check_endpoint U ''token_endpoint'' (as_token_endpoint meta)) (\<lambda>_.
         case as_registration_endpoint meta of
           Some reg \<Rightarrow> check_endpoint U ''registration_endpoint'' reg
         | None \<Rightarrow> Inr ())))"

definition challenged_scopes ::
  "bearer_challenge option \<Rightarrow> mcp_oauth_config \<Rightarrow> protected_resource_metadata \<Rightarrow> string list" where
  "challenged_scopes challenge cfg prm = (case Option.bind challenge bc_scope of
     Some scope \<Rightarrow> split_whitespace scope
   | None \<Rightarrow> (if oa_scopes cfg \<noteq> [] then oa_scopes cfg else prm_scopes_supported prm))"

section \<open>Tokens and the world\<close>

record token_set =
  ts_access_token :: string
  ts_refresh_token :: "string option"
  ts_token_type :: string
  ts_scope :: "string option"
  ts_expires_at :: "u64 option"

record token_response =
  tr_access_token :: string
  tr_refresh_token :: "string option"
  tr_token_type :: string
  tr_expires_in :: "u64 option"
  tr_scope :: "string option"

record resolved_client =
  rc_client_id :: string
  rc_client_secret :: "string option"

text \<open>\<open>std::env::var\<close>; a value that is not Unicode comes with the text of the error.\<close>

datatype env_value = EnvSet string | EnvNotPresent | EnvNotUnicode string string

text \<open>
  What the helper is given. The operations answer an error text or a value; \<open>on_prm\<close>,
  \<open>on_as_meta\<close>, \<open>on_token\<close> and \<open>on_registration\<close> read and decode the body of an answer,
  \<open>on_accept\<close> waits for the browser's callback (no text: it timed out) and \<open>on_base64\<close> is the
  URL-safe encoding without padding.
\<close>

record ('u, 'w) oauth_net =
  on_url :: "'u url_ops"
  on_os :: "'w os"
  on_get :: "string \<Rightarrow> 'w \<Rightarrow> (string + http_response) \<times> 'w"
  on_post_form :: "string \<Rightarrow> (string \<times> string) list \<Rightarrow> 'w \<Rightarrow> (string + http_response) \<times> 'w"
  on_post_json :: "string \<Rightarrow> json \<Rightarrow> 'w \<Rightarrow> (string + http_response) \<times> 'w"
  on_text :: "http_response \<Rightarrow> 'w \<Rightarrow> (string + string) \<times> 'w"
  on_prm :: "http_response \<Rightarrow> 'w \<Rightarrow> (string + protected_resource_metadata) \<times> 'w"
  on_as_meta :: "http_response \<Rightarrow> 'w \<Rightarrow> (string + authorization_server_metadata) \<times> 'w"
  on_token :: "http_response \<Rightarrow> 'w \<Rightarrow> (string + token_response) \<times> 'w"
  on_registration :: "http_response \<Rightarrow> 'w \<Rightarrow> (string + resolved_client) \<times> 'w"
  on_unix_time :: "'w \<Rightarrow> u64 option"
  on_env :: "string \<Rightarrow> env_value"
  on_bind :: "16 word \<Rightarrow> 'w \<Rightarrow> (string + 16 word) \<times> 'w"
  on_accept :: "'w \<Rightarrow> (string option + unit) \<times> 'w"
  on_receive :: "'w \<Rightarrow> (string + string) \<times> 'w"
  on_reply :: "string \<Rightarrow> 'w \<Rightarrow> (string + unit) \<times> 'w"
  on_browser :: "string \<Rightarrow> 'w \<Rightarrow> (string + unit) \<times> 'w"
  on_random :: "nat \<Rightarrow> 'w \<Rightarrow> string \<times> 'w"
  on_sha256 :: "string \<Rightarrow> string"
  on_base64 :: "string \<Rightarrow> string"
  on_set_mode :: "path \<Rightarrow> nat \<Rightarrow> 'w \<Rightarrow> (io_error + unit) \<times> 'w"
  on_show_tokens :: "token_set \<Rightarrow> string + string"
  on_read_tokens :: "string \<Rightarrow> string + token_set"
  on_status_text :: "status_code \<Rightarrow> string"
  on_reason :: "status_code \<Rightarrow> string option"

text \<open>The helper without its tokens; its state is the tokens and the world.\<close>

record 'u mcp_oauth =
  om_server :: string
  om_url :: 'u
  om_cfg :: mcp_oauth_config

type_synonym 'w oauth_state = "token_set option \<times> 'w"

definition with_net :: "('w \<Rightarrow> ('e + 'a) \<times> 'w) \<Rightarrow> 'w oauth_state \<Rightarrow> ('e + 'a) \<times> 'w oauth_state" where
  "with_net act s = (let (r, w) = act (snd s) in (r, (fst s, w)))"

definition oauth_fail :: "'u mcp_oauth \<Rightarrow> string \<Rightarrow> mcp_error" where
  "oauth_fail M err = McOAuth (om_server M) err"

definition http_op :: "'u mcp_oauth \<Rightarrow> ('w \<Rightarrow> (string + 'a) \<times> 'w) \<Rightarrow> 'w oauth_state \<Rightarrow> (mcp_error + 'a) \<times> 'w oauth_state" where
  "http_op M act = io_map_err (McHttp (om_server M)) (with_net act)"

definition now_unix :: "('u, 'w) oauth_net \<Rightarrow> 'w \<Rightarrow> u64" where
  "now_unix N w = (case on_unix_time N w of Some t \<Rightarrow> t | None \<Rightarrow> 0)"

definition is_expired :: "u64 \<Rightarrow> token_set \<Rightarrow> u64 \<Rightarrow> bool" where
  "is_expired now t skew = (case ts_expires_at t of Some at \<Rightarrow> saturating_add now skew \<ge> at | None \<Rightarrow> True)"

definition user_home :: "('u, 'w) oauth_net \<Rightarrow> string option" where
  "user_home N = (let value = (\<lambda>k. case on_env N k of EnvSet v \<Rightarrow> Some v | EnvNotUnicode v e \<Rightarrow> Some v | EnvNotPresent \<Rightarrow> None) in
     case value ''HOME'' of Some h \<Rightarrow> Some h | None \<Rightarrow> value ''USERPROFILE'')"

definition expand_tilde :: "('u, 'w) oauth_net \<Rightarrow> path \<Rightarrow> path" where
  "expand_tilde N p = (case (strip_prefix ''~/'' p, user_home N) of
     (Some rest, Some h) \<Rightarrow> path_join h rest
   | _ \<Rightarrow> (case (p = ''~'', user_home N) of (True, Some h) \<Rightarrow> h | _ \<Rightarrow> p))"

definition token_store_path :: "('u, 'w) oauth_net \<Rightarrow> 'u mcp_oauth \<Rightarrow> path option" where
  "token_store_path N M = map_option (expand_tilde N) (oa_token_store (om_cfg M))"

definition load_token_store :: "('u, 'w) oauth_net \<Rightarrow> path \<Rightarrow> 'w \<Rightarrow> (string + token_set) \<times> 'w" where
  "load_token_store N p = io_then (io_map_err io_text (os_read_to_string (on_os N) p)) (\<lambda>d. io_lift (on_read_tokens N d))"

text \<open>\<open>McpOAuth::new\<close> with a client that was built: the tokens of the store, if it can be read.\<close>

definition oauth_new :: "('u, 'w) oauth_net \<Rightarrow> string \<Rightarrow> 'u \<Rightarrow> mcp_oauth_config \<Rightarrow> 'w \<Rightarrow> 'u mcp_oauth \<times> 'w oauth_state" where
  "oauth_new N server u cfg w =
     (let M = \<lparr>om_server = server, om_url = u, om_cfg = cfg\<rparr> in
      (M, case token_store_path N M of
         None \<Rightarrow> (None, w)
       | Some p \<Rightarrow> (case os_exists (on_os N) p w of
           (Inr True, w) \<Rightarrow> (case load_token_store N p w of
               (Inr ts, w) \<Rightarrow> (Some ts, w)
             | ((Inl (e :: string)), w) \<Rightarrow> (None, w))
         | ((other :: io_error + bool), w) \<Rightarrow> (None, w))))"

definition access_token :: "'w oauth_state \<Rightarrow> string option" where
  "access_token s = map_option ts_access_token (fst s)"

section \<open>Storing tokens\<close>

text \<open>The file mode is \<open>0o600\<close>.\<close>

definition save_token_store :: "('u, 'w) oauth_net \<Rightarrow> path \<Rightarrow> token_set \<Rightarrow> 'w \<Rightarrow> (io_error + unit) \<times> 'w" where
  "save_token_store N p tokens =
     io_then (case path_parent p of Some parent \<Rightarrow> os_create_dir_all (on_os N) parent | None \<Rightarrow> io_return ()) (\<lambda>_.
     io_then (io_lift (map_err (\<lambda>e. \<lparr>not_found = False, io_text = e\<rparr>) (on_show_tokens N tokens))) (\<lambda>d.
     io_then (os_write (on_os N) p d) (\<lambda>_.
     on_set_mode N p 384)))"

definition persist_tokens :: "('u, 'w) oauth_net \<Rightarrow> 'u mcp_oauth \<Rightarrow> token_set \<Rightarrow> 'w oauth_state \<Rightarrow> (mcp_error + unit) \<times> 'w oauth_state" where
  "persist_tokens N M tokens =
     io_then (case token_store_path N M of
         Some p \<Rightarrow> io_map_err (\<lambda>e. oauth_fail M (''failed to write token store `'' @ p @ ''`: '' @ io_text e))
           (with_net (save_token_store N p tokens))
       | None \<Rightarrow> io_return ()) (\<lambda>_ (_, w). (Inr (), (Some tokens, w)))"

definition exchange_token ::
  "('u, 'w) oauth_net \<Rightarrow> 'u mcp_oauth \<Rightarrow> string \<Rightarrow> (string \<times> string) list \<Rightarrow> 'w oauth_state \<Rightarrow> (mcp_error + token_set) \<times> 'w oauth_state" where
  "exchange_token N M endpoint form =
     io_then (http_op M (on_post_form N endpoint form)) (\<lambda>resp.
       if \<not> is_success (rs_status resp)
       then io_match (with_net (on_text N resp))
         (\<lambda>e :: string. io_fail (oauth_fail M (''token endpoint returned HTTP '' @ on_status_text N (rs_status resp) @ '': '')))
         (\<lambda>t. io_fail (oauth_fail M (''token endpoint returned HTTP '' @ on_status_text N (rs_status resp) @ '': '' @ t)))
       else io_then (http_op M (on_token N resp)) (\<lambda>raw.
         if \<not> eq_ignore_ascii_case (tr_token_type raw) ''bearer''
         then io_fail (oauth_fail M (''unsupported token_type `'' @ tr_token_type raw @ ''` (expected Bearer)''))
         else (\<lambda>s. (Inr \<lparr>ts_access_token = tr_access_token raw,
             ts_refresh_token = (case tr_refresh_token raw of Some r \<Rightarrow> Some r
                | None \<Rightarrow> Option.bind (fst s) ts_refresh_token),
             ts_token_type = tr_token_type raw, ts_scope = tr_scope raw,
             ts_expires_at = map_option (saturating_add (now_unix N (snd s))) (tr_expires_in raw)\<rparr>, s))))"

section \<open>The client of the authorization server\<close>

definition trimmed_opt :: "string option \<Rightarrow> string option" where
  "trimmed_opt v = Option.bind v (\<lambda>t. if trim t = [] then None else Some (trim t))"

definition resolve_client_secret :: "('u, 'w) oauth_net \<Rightarrow> 'u mcp_oauth \<Rightarrow> mcp_error + string option" where
  "resolve_client_secret N M = (case trimmed_opt (oa_client_secret_env (om_cfg M)) of
     None \<Rightarrow> Inr None
   | Some name \<Rightarrow> (case on_env N name of
       EnvSet v \<Rightarrow> (if \<not> is_blank v then Inr (Some v)
         else Inl (oauth_fail M (''client secret env `'' @ name @ ''` is missing or empty'')))
     | EnvNotPresent \<Rightarrow> Inl (oauth_fail M (''client secret env `'' @ name @ ''` is missing or empty''))
     | EnvNotUnicode v e \<Rightarrow> Inl (oauth_fail M (''failed to read client secret env `'' @ name @ ''`: '' @ e))))"

definition registration_body :: json where
  "registration_body = JObject [
     (''client_name'', JString ''agent_Kuibysheff''),
     (''grant_types'', JArray [JString ''authorization_code'', JString ''refresh_token'']),
     (''redirect_uris'', JArray [JString ''http://127.0.0.1/callback'']),
     (''response_types'', JArray [JString ''code'']),
     (''token_endpoint_auth_method'', JString ''none'')]"

definition dynamic_register :: "('u, 'w) oauth_net \<Rightarrow> 'u mcp_oauth \<Rightarrow> string \<Rightarrow> 'w oauth_state \<Rightarrow> (mcp_error + resolved_client) \<times> 'w oauth_state" where
  "dynamic_register N M endpoint =
     io_then (http_op M (on_post_json N endpoint registration_body)) (\<lambda>resp.
       if \<not> is_success (rs_status resp)
       then io_match (with_net (on_text N resp))
         (\<lambda>e :: string. io_fail (oauth_fail M (''dynamic client registration failed: HTTP '' @ on_status_text N (rs_status resp) @ '': '')))
         (\<lambda>t. io_fail (oauth_fail M (''dynamic client registration failed: HTTP '' @ on_status_text N (rs_status resp) @ '': '' @ t)))
       else http_op M (on_registration N resp))"

definition resolve_client ::
  "('u, 'w) oauth_net \<Rightarrow> 'u mcp_oauth \<Rightarrow> authorization_server_metadata \<Rightarrow> 'w oauth_state \<Rightarrow> (mcp_error + resolved_client) \<times> 'w oauth_state" where
  "resolve_client N M meta = (case trimmed_opt (oa_client_id_metadata_url (om_cfg M)) of
     Some meta_url \<Rightarrow>
       (if as_cimd_supported meta
        then io_lift (rbind (resolve_client_secret N M) (\<lambda>secret. Inr \<lparr>rc_client_id = meta_url, rc_client_secret = secret\<rparr>))
        else io_fail (oauth_fail M ''client_id_metadata_url set but AS does not support CIMD''))
   | None \<Rightarrow> (case trimmed_opt (oa_client_id (om_cfg M)) of
       Some i \<Rightarrow> io_lift (rbind (resolve_client_secret N M) (\<lambda>secret. Inr \<lparr>rc_client_id = i, rc_client_secret = secret\<rparr>))
     | None \<Rightarrow> (case as_registration_endpoint meta of
         Some reg \<Rightarrow> dynamic_register N M reg
       | None \<Rightarrow> io_fail (oauth_fail M
           ''mcp auth requires `client_id`, `client_id_metadata_url`, or AS dynamic registration''))))"

section \<open>Discovery\<close>

text \<open>The loop over candidate URLs: the last failure so far.\<close>

fun fetch_prm :: "('u, 'w) oauth_net \<Rightarrow> 'u mcp_oauth \<Rightarrow> string list \<Rightarrow> string option \<Rightarrow> 'w oauth_state
    \<Rightarrow> (mcp_error + protected_resource_metadata) \<times> 'w oauth_state" where
  "fetch_prm N M [] last_err = io_fail (oauth_fail M (''failed to fetch protected resource metadata: ''
     @ (case last_err of Some e \<Rightarrow> e | None \<Rightarrow> ''no candidates'')))"
| "fetch_prm N M (u # us) last_err = io_match (with_net (on_get N u))
     (\<lambda>e. fetch_prm N M us (Some (u @ '' -> '' @ e)))
     (\<lambda>resp. if is_success (rs_status resp) then http_op M (on_prm N resp)
        else fetch_prm N M us (Some (u @ '' -> HTTP '' @ on_status_text N (rs_status resp))))"

definition prm_candidates :: "('u, 'w) oauth_net \<Rightarrow> 'u mcp_oauth \<Rightarrow> bearer_challenge option \<Rightarrow> string list" where
  "prm_candidates N M challenge =
     (case Option.bind challenge bc_resource_metadata of
        Some u \<Rightarrow> (case validate_metadata_fetch_url (on_url N) u (Some (om_url M)) of Inr () \<Rightarrow> [u] | Inl _ \<Rightarrow> [])
      | None \<Rightarrow> [])
     @ well_known_resource_metadata_urls (on_url N) (om_url M)"

fun fetch_as :: "('u, 'w) oauth_net \<Rightarrow> 'u mcp_oauth \<Rightarrow> 'u \<Rightarrow> string list \<Rightarrow> string option \<Rightarrow> 'w oauth_state
    \<Rightarrow> (mcp_error + authorization_server_metadata) \<times> 'w oauth_state" where
  "fetch_as N M issuer [] last_err = io_fail (oauth_fail M (''failed to fetch authorization server metadata: ''
     @ (case last_err of Some e \<Rightarrow> e | None \<Rightarrow> ''no candidates'')))"
| "fetch_as N M issuer (u # us) last_err = io_match (with_net (on_get N u))
     (\<lambda>e. fetch_as N M issuer us (Some (u @ '' -> '' @ e)))
     (\<lambda>resp. if is_success (rs_status resp)
        then io_then (http_op M (on_as_meta N resp)) (\<lambda>meta.
          io_then (io_lift (map_err (oauth_fail M) (validate_authorization_server_metadata (on_url N) issuer meta))) (\<lambda>_.
          io_return meta))
        else fetch_as N M issuer us (Some (u @ '' -> HTTP '' @ on_status_text N (rs_status resp))))"

definition fetch_authorization_server_metadata ::
  "('u, 'w) oauth_net \<Rightarrow> 'u mcp_oauth \<Rightarrow> string \<Rightarrow> 'w oauth_state \<Rightarrow> (mcp_error + authorization_server_metadata) \<times> 'w oauth_state" where
  "fetch_authorization_server_metadata N M issuer =
     io_then (io_lift (map_err (\<lambda>e. oauth_fail M (''invalid authorization server issuer `'' @ issuer @ ''`: '' @ e))
       (uo_parse (on_url N) issuer))) (\<lambda>issuer_url.
     io_then (io_lift (map_err (\<lambda>e. oauth_fail M (''rejected authorization server issuer `'' @ issuer @ ''`: '' @ e))
       (validate_metadata_fetch_url (on_url N) issuer None))) (\<lambda>_.
     fetch_as N M issuer_url (authorization_server_metadata_urls (on_url N) issuer_url) None))"

definition discover ::
  "('u, 'w) oauth_net \<Rightarrow> 'u mcp_oauth \<Rightarrow> bearer_challenge option \<Rightarrow> 'w oauth_state
     \<Rightarrow> (mcp_error + protected_resource_metadata \<times> authorization_server_metadata) \<times> 'w oauth_state" where
  "discover N M challenge =
     io_then (fetch_prm N M (prm_candidates N M challenge) None) (\<lambda>prm.
       (case prm_authorization_servers prm of
          [] \<Rightarrow> io_fail (oauth_fail M ''protected resource metadata has no authorization_servers'')
        | as_url # _ \<Rightarrow> io_then (fetch_authorization_server_metadata N M as_url) (\<lambda>meta. io_return (prm, meta))))"

section \<open>Refresh and login\<close>

definition stored_access_token ::
  "'u mcp_oauth \<Rightarrow> string \<Rightarrow> 'w oauth_state \<Rightarrow> (mcp_error + string) \<times> 'w oauth_state" where
  "stored_access_token M missing s = (case fst s of
     Some ts \<Rightarrow> (Inr (ts_access_token ts), s) | None \<Rightarrow> (Inl (oauth_fail M missing), s))"

definition secret_pair :: "resolved_client \<Rightarrow> (string \<times> string) list" where
  "secret_pair c = (case rc_client_secret c of Some secret \<Rightarrow> [(''client_secret'', secret)] | None \<Rightarrow> [])"

definition refresh_tokens ::
  "('u, 'w) oauth_net \<Rightarrow> 'u mcp_oauth \<Rightarrow> bearer_challenge option \<Rightarrow> 'w oauth_state \<Rightarrow> (mcp_error + string) \<times> 'w oauth_state" where
  "refresh_tokens N M challenge s = (case Option.bind (fst s) ts_refresh_token of
     None \<Rightarrow> (Inl (oauth_fail M ''no refresh_token available''), s)
   | Some refresh \<Rightarrow>
       io_then (discover N M challenge) (\<lambda>(prm, meta).
       io_then (resolve_client N M meta) (\<lambda>client.
       io_then (exchange_token N M (as_token_endpoint meta)
         ([(''grant_type'', ''refresh_token''), (''refresh_token'', refresh),
           (''resource'', canonical_resource_uri (on_url N) (om_url M) (prm_resource prm)),
           (''client_id'', rc_client_id client)] @ secret_pair client)) (\<lambda>tokens.
       io_then (persist_tokens N M tokens) (\<lambda>_. stored_access_token M ''token store empty after refresh'')))) s)"

definition write_http_response ::
  "('u, 'w) oauth_net \<Rightarrow> status_code \<Rightarrow> string \<Rightarrow> 'w \<Rightarrow> (string + unit) \<times> 'w" where
  "write_http_response N code body = on_reply N
     (''HTTP/1.1 '' @ show_nat (unat code) @ '' '' @ (case on_reason N code of Some r \<Rightarrow> r | None \<Rightarrow> ''OK'') @ [CR, LF]
      @ ''Content-Type: text/plain; charset=utf-8'' @ [CR, LF] @ ''Content-Length: '' @ show_nat (length body) @ [CR, LF]
      @ ''Connection: close'' @ [CR, LF, CR, LF] @ body)"

definition wait_for_auth_code :: "('u, 'w) oauth_net \<Rightarrow> string \<Rightarrow> 'w \<Rightarrow> (string + string) \<times> 'w" where
  "wait_for_auth_code N expected_state =
     io_then (io_map_err (\<lambda>e. case e of None \<Rightarrow> ''timed out waiting for OAuth redirect'' | Some e \<Rightarrow> e) (on_accept N)) (\<lambda>_.
     io_then (on_receive N) (\<lambda>bytes.
       let first_line = (case str_lines (from_utf8_lossy bytes) of l # _ \<Rightarrow> l | [] \<Rightarrow> []) in
       (case split_whitespace first_line of
          _ # p # _ \<Rightarrow>
            io_then (io_lift (map_err (\<lambda>e. ''invalid callback path: '' @ e) (uo_parse (on_url N) (''http://127.0.0.1'' @ p)))) (\<lambda>u.
              let params = map_of (rev (uo_query_pairs (on_url N) u)) in
              (case params ''error'' of
                 Some err \<Rightarrow>
                   (let body = ''OAuth error: '' @ err @ '' ''
                        @ (case params ''error_description'' of Some d \<Rightarrow> d | None \<Rightarrow> []) in
                    io_then (write_http_response N 400 body) (\<lambda>_. io_fail body))
               | None \<Rightarrow> (case params ''state'' of
                   None \<Rightarrow> io_fail ''OAuth callback missing state''
                 | Some state \<Rightarrow>
                     (if state \<noteq> expected_state
                      then io_then (write_http_response N 400 ''state mismatch'') (\<lambda>_. io_fail ''OAuth state mismatch'')
                      else (case params ''code'' of
                          None \<Rightarrow> io_fail ''OAuth callback missing code''
                        | Some code \<Rightarrow> io_then (write_http_response N 200
                              ''Authorization complete. You can close this tab and return to the agent.'') (\<lambda>_.
                            io_return code))))))
        | _ \<Rightarrow> io_fail (''malformed OAuth callback request: '' @ first_line))))"

definition random_urlsafe :: "('u, 'w) oauth_net \<Rightarrow> nat \<Rightarrow> 'w oauth_state \<Rightarrow> (mcp_error + string) \<times> 'w oauth_state" where
  "random_urlsafe N n s = (let (bytes, w) = on_random N n (snd s) in (Inr (on_base64 N bytes), (fst s, w)))"

definition s256 :: "('u, 'w) oauth_net \<Rightarrow> string \<Rightarrow> string" where
  "s256 N verifier = on_base64 N (on_sha256 N verifier)"

definition pkce_pair :: "('u, 'w) oauth_net \<Rightarrow> 'w oauth_state \<Rightarrow> (mcp_error + string \<times> string) \<times> 'w oauth_state" where
  "pkce_pair N = io_then (random_urlsafe N 32) (\<lambda>verifier. io_return (verifier, s256 N verifier))"

definition auth_pairs :: "string \<Rightarrow> string \<Rightarrow> string \<Rightarrow> string \<Rightarrow> string \<Rightarrow> string list \<Rightarrow> (string \<times> string) list" where
  "auth_pairs client_id redirect_uri challenge_s256 state resource scopes =
     [(''response_type'', ''code''), (''client_id'', client_id), (''redirect_uri'', redirect_uri),
      (''code_challenge'', challenge_s256), (''code_challenge_method'', ''S256''), (''state'', state), (''resource'', resource)]
     @ (if scopes = [] then [] else [(''scope'', join_with '' '' scopes)])"

definition browser_failed :: "string \<Rightarrow> string \<Rightarrow> string" where
  "browser_failed auth_url e = ''failed to open browser for OAuth ('' @ e @ ''); open '' @ auth_url
     @ '' manually or set a Bearer token in mcp headers / token_store''"

definition authorize_interactive ::
  "('u, 'w) oauth_net \<Rightarrow> 'u mcp_oauth \<Rightarrow> bearer_challenge option \<Rightarrow> 'w oauth_state \<Rightarrow> (mcp_error + string) \<times> 'w oauth_state" where
  "authorize_interactive N M challenge =
     io_then (discover N M challenge) (\<lambda>(prm, meta).
     if \<not> list_ex (\<lambda>m. eq_ignore_ascii_case m ''S256'') (as_code_challenge_methods meta)
     then io_fail (oauth_fail M ''authorization server does not advertise PKCE S256 support'')
     else io_then (resolve_client N M meta) (\<lambda>client.
       let scopes = challenged_scopes challenge (om_cfg M) prm;
           resource = canonical_resource_uri (on_url N) (om_url M) (prm_resource prm) in
       io_then (io_map_err McIo (with_net (on_bind N (oa_redirect_port (om_cfg M))))) (\<lambda>port.
       let redirect_uri = ''http://127.0.0.1:'' @ show_nat (unat port) @ ''/callback'' in
       io_then (pkce_pair N) (\<lambda>(verifier, challenge_s256).
       io_then (random_urlsafe N 16) (\<lambda>state.
       io_then (io_lift (map_err (\<lambda>e. oauth_fail M (''invalid authorization_endpoint: '' @ e))
         (uo_parse (on_url N) (as_authorization_endpoint meta)))) (\<lambda>u.
       let auth_url = uo_str (on_url N) (uo_append_pairs (on_url N)
             (auth_pairs (rc_client_id client) redirect_uri challenge_s256 state resource scopes) u) in
       io_then (io_map_err (\<lambda>e. oauth_fail M (browser_failed auth_url e)) (with_net (on_browser N auth_url))) (\<lambda>_.
       io_then (io_map_err (oauth_fail M) (with_net (wait_for_auth_code N state))) (\<lambda>code.
       io_then (exchange_token N M (as_token_endpoint meta)
         ([(''grant_type'', ''authorization_code''), (''code'', code), (''redirect_uri'', redirect_uri),
           (''client_id'', rc_client_id client), (''code_verifier'', verifier), (''resource'', resource)]
          @ secret_pair client)) (\<lambda>tokens.
       io_then (persist_tokens N M tokens) (\<lambda>_. stored_access_token M ''token store empty after authorization''))))))))))"

definition refresh_or_authorize ::
  "('u, 'w) oauth_net \<Rightarrow> 'u mcp_oauth \<Rightarrow> bearer_challenge option \<Rightarrow> 'w oauth_state \<Rightarrow> (mcp_error + string) \<times> 'w oauth_state" where
  "refresh_or_authorize N M challenge s =
     (if Option.bind (fst s) ts_refresh_token \<noteq> None
      then io_match (refresh_tokens N M challenge) (\<lambda>_. authorize_interactive N M challenge) io_return s
      else authorize_interactive N M challenge s)"

definition ensure_access_token ::
  "('u, 'w) oauth_net \<Rightarrow> 'u mcp_oauth \<Rightarrow> bearer_challenge option \<Rightarrow> 'w oauth_state \<Rightarrow> (mcp_error + string) \<times> 'w oauth_state" where
  "ensure_access_token N M challenge s = (case fst s of
     Some ts \<Rightarrow> (if \<not> is_expired (now_unix N (snd s)) ts 30 then (Inr (ts_access_token ts), s)
        else refresh_or_authorize N M challenge s)
   | None \<Rightarrow> refresh_or_authorize N M challenge s)"

definition recover_access_token ::
  "('u, 'w) oauth_net \<Rightarrow> 'u mcp_oauth \<Rightarrow> bearer_challenge option \<Rightarrow> 'w oauth_state \<Rightarrow> (mcp_error + string) \<times> 'w oauth_state" where
  "recover_access_token N M challenge s =
     (if Option.bind challenge bc_error = Some ''insufficient_scope''
      then authorize_interactive N M challenge
        (map_option (\<lambda>ts. ts\<lparr>ts_access_token := [], ts_expires_at := Some 0\<rparr>) (fst s), snd s)
      else refresh_or_authorize N M challenge s)"

definition apply_bearer :: "(string \<Rightarrow> string + string) \<Rightarrow> string \<Rightarrow> mcp_error + string" where
  "apply_bearer header_value token =
     map_err (\<lambda>e. McOAuth ''headers'' (''invalid access token for Authorization header: '' @ e))
       (header_value (''Bearer '' @ token))"

section \<open>What the helper does to the world\<close>

definition safe_endpoint :: "'u url_ops \<Rightarrow> string \<Rightarrow> bool" where
  "safe_endpoint U e \<longleftrightarrow> (case uo_parse U e of Inr u \<Rightarrow> is_allowed_oauth_endpoint U u | Inl _ \<Rightarrow> False)"

text \<open>
  Metadata is fetched from a well-known place of the MCP server, from a safe URL of its origin or
  on this machine, and from a well-known place of an issuer with a safe URL.
\<close>

definition safe_get :: "('u, 'w) oauth_net \<Rightarrow> 'u mcp_oauth \<Rightarrow> string \<Rightarrow> bool" where
  "safe_get N M e \<longleftrightarrow> e \<in> set (well_known_resource_metadata_urls (on_url N) (om_url M))
     \<or> (\<exists>u. uo_parse (on_url N) e = Inr u \<and> is_allowed_oauth_endpoint (on_url N) u
          \<and> (urls_same_origin (on_url N) u (om_url M) \<or> is_loopback_url (on_url N) u))
     \<or> (\<exists>issuer u. uo_parse (on_url N) issuer = Inr u \<and> is_allowed_oauth_endpoint (on_url N) u
          \<and> e \<in> set (authorization_server_metadata_urls (on_url N) u))"

inductive oauth_io :: "('u, 'w) oauth_net \<Rightarrow> 'u mcp_oauth \<Rightarrow> 'w \<Rightarrow> 'w \<Rightarrow> bool" for N M where
  fetches: "safe_get N M e \<Longrightarrow> oauth_io N M w (snd (on_get N e w))"
| sends: "safe_endpoint (on_url N) e \<Longrightarrow> oauth_io N M w (snd (on_post_form N e form w))"
| registers: "safe_endpoint (on_url N) e \<Longrightarrow> oauth_io N M w (snd (on_post_json N e registration_body w))"
| reads_text: "oauth_io N M w (snd (on_text N resp w))"
| reads_prm: "oauth_io N M w (snd (on_prm N resp w))"
| reads_meta: "oauth_io N M w (snd (on_as_meta N resp w))"
| reads_token: "oauth_io N M w (snd (on_token N resp w))"
| reads_registration: "oauth_io N M w (snd (on_registration N resp w))"
| binds: "oauth_io N M w (snd (on_bind N (oa_redirect_port (om_cfg M)) w))"
| accepts: "oauth_io N M w (snd (on_accept N w))"
| receives: "oauth_io N M w (snd (on_receive N w))"
| replies: "oauth_io N M w (snd (on_reply N t w))"
| draws: "oauth_io N M w (snd (on_random N n w))"
| browses: "uo_parse (on_url N) e = Inr u \<Longrightarrow> is_allowed_oauth_endpoint (on_url N) u \<Longrightarrow>
    oauth_io N M w (snd (on_browser N (uo_str (on_url N) (uo_append_pairs (on_url N) pairs u)) w))"
| makes_store: "token_store_path N M = Some p \<Longrightarrow> path_parent p = Some d \<Longrightarrow>
    oauth_io N M w (snd (os_create_dir_all (on_os N) d w))"
| writes_store: "token_store_path N M = Some p \<Longrightarrow> oauth_io N M w (snd (os_write (on_os N) p d w))"
| protects_store: "token_store_path N M = Some p \<Longrightarrow> oauth_io N M w (snd (on_set_mode N p 384 w))"

definition oauth_effect :: "('u, 'w) oauth_net \<Rightarrow> 'u mcp_oauth \<Rightarrow> 'w oauth_state \<Rightarrow> 'w oauth_state \<Rightarrow> bool" where
  "oauth_effect N M s s' \<longleftrightarrow> snd s' = snd s \<or> (fst s' = fst s \<and> oauth_io N M (snd s) (snd s'))"

lemma oauth_effect_io: "(oauth_effect N M)\<^sup>*\<^sup>* s s' \<Longrightarrow> (oauth_io N M)\<^sup>*\<^sup>* (snd s) (snd s')"
proof (induction rule: rtranclp_induct)
  case (step t u)
  then show ?case by (auto simp: oauth_effect_def)
qed simp

lemma runs_with_net:
  assumes "runs (oauth_io N M) P act"
  shows "runs (oauth_effect N M) P (with_net act)"
  unfolding runs_def
proof (intro allI impI)
  fix s r s'
  assume run: "with_net act s = (r, s')"
  obtain w' where act: "act (snd s) = (r, w')" and s': "s' = (fst s, w')"
    using run by (auto simp: with_net_def Let_def split: prod.splits)
  have steps: "(oauth_io N M)\<^sup>*\<^sup>* (snd s) w'" and P: "\<forall>x. r = Inr x \<longrightarrow> P x"
    using assms act unfolding runs_def by blast+
  from steps have "(oauth_effect N M)\<^sup>*\<^sup>* (fst s, snd s) (fst s, w')"
  proof (induction rule: rtranclp_induct)
    case (step u v)
    moreover have "oauth_effect N M (fst s, u) (fst s, v)" using step.hyps(2) by (simp add: oauth_effect_def)
    ultimately show ?case by simp
  qed simp
  then show "(oauth_effect N M)\<^sup>*\<^sup>* s s' \<and> (\<forall>x. r = Inr x \<longrightarrow> P x)" using P s' by simp
qed

lemma runs_net_step: "(\<And>w. oauth_io N M w (snd (act w))) \<Longrightarrow> runs (oauth_effect N M) (\<lambda>_. True) (with_net act)"
  by (rule runs_with_net) (rule runs_step)

lemma runs_http: "(\<And>w. oauth_io N M w (snd (act w))) \<Longrightarrow> runs (oauth_effect N M) (\<lambda>_. True) (http_op K act)"
  unfolding http_op_def by (rule runs_map_err) (rule runs_net_step)

lemma runs_tokens: "runs (oauth_effect N M) (\<lambda>_. True) (\<lambda>(t, w). (Inr x, (Some tokens, w)))"
  by (auto simp: runs_def oauth_effect_def intro: r_into_rtranclp)

definition safe_metadata :: "'u url_ops \<Rightarrow> authorization_server_metadata \<Rightarrow> bool" where
  "safe_metadata U meta \<longleftrightarrow> safe_endpoint U (as_authorization_endpoint meta) \<and> safe_endpoint U (as_token_endpoint meta)
     \<and> (case as_registration_endpoint meta of Some reg \<Rightarrow> safe_endpoint U reg | None \<Rightarrow> True)"

lemma check_endpoint_safe: "check_endpoint U label e = Inr () \<Longrightarrow> safe_endpoint U e"
  by (auto simp: check_endpoint_def safe_endpoint_def rbind_eq_Inr map_err_eq_Inr split: if_splits)

lemma validated_metadata_safe: "validate_authorization_server_metadata U i meta = Inr () \<Longrightarrow> safe_metadata U meta"
  by (auto simp: validate_authorization_server_metadata_def safe_metadata_def rbind_eq_Inr map_err_eq_Inr
      split: if_splits option.splits dest!: check_endpoint_safe)

lemma validated_fetch_url:
  "validate_metadata_fetch_url U e same = Inr () \<Longrightarrow>
     \<exists>u. uo_parse U e = Inr u \<and> is_allowed_oauth_endpoint U u
       \<and> (case same of Some o' \<Rightarrow> urls_same_origin U u o' \<or> is_loopback_url U u | None \<Rightarrow> True)"
  by (auto simp: validate_metadata_fetch_url_def rbind_eq_Inr map_err_eq_Inr split: if_splits option.splits)

lemma prm_candidates_safe: "e \<in> set (prm_candidates N M challenge) \<Longrightarrow> safe_get N M e"
proof -
  assume e: "e \<in> set (prm_candidates N M challenge)"
  show ?thesis
  proof (cases "e \<in> set (well_known_resource_metadata_urls (on_url N) (om_url M))")
    case False
    then have "validate_metadata_fetch_url (on_url N) e (Some (om_url M)) = Inr ()"
      using e by (auto simp: prm_candidates_def split: option.splits sum.splits)
    then show ?thesis using validated_fetch_url by (fastforce simp: safe_get_def)
  qed (simp add: safe_get_def)
qed

text \<open>The access token came out of an answer of a token endpoint.\<close>

definition issued :: "('u, 'w) oauth_net \<Rightarrow> string \<Rightarrow> bool" where
  "issued N t \<longleftrightarrow> (\<exists>resp w raw. fst (on_token N resp w) = Inr raw \<and> t = tr_access_token raw)"

lemma fetch_prm_runs:
  "(\<And>e. e \<in> set us \<Longrightarrow> safe_get N M e) \<Longrightarrow> runs (oauth_effect N M) (\<lambda>_. True) (fetch_prm N M us last_err)"
proof (induction us arbitrary: last_err)
  case (Cons u us)
  have get: "runs (oauth_effect N M) (\<lambda>_. True) (with_net (on_get N u))"
    using Cons.prems by (intro runs_net_step oauth_io.fetches) simp
  have later: "runs (oauth_effect N M) (\<lambda>_. True) (fetch_prm N M us e)" for e
    using Cons.prems by (intro Cons.IH) simp
  show ?case unfolding fetch_prm.simps
    by (rule runs_match [OF get]) (intro later runs_if runs_http oauth_io.reads_prm)+
qed (simp add: runs_fail)

lemma fetch_as_runs:
  "(\<And>e. e \<in> set us \<Longrightarrow> safe_get N M e) \<Longrightarrow> runs (oauth_effect N M) (safe_metadata (on_url N)) (fetch_as N M i us last_err)"
proof (induction us arbitrary: last_err)
  case (Cons u us)
  have get: "runs (oauth_effect N M) (\<lambda>_. True) (with_net (on_get N u))"
    using Cons.prems by (intro runs_net_step oauth_io.fetches) simp
  have later: "runs (oauth_effect N M) (safe_metadata (on_url N)) (fetch_as N M i us e)" for e
    using Cons.prems by (intro Cons.IH) simp
  have meta: "runs (oauth_effect N M) (\<lambda>_. True) (http_op M (on_as_meta N resp))" for resp
    by (intro runs_http oauth_io.reads_meta)
  have checked: "runs (oauth_effect N M) (\<lambda>_. safe_metadata (on_url N) m)
      (io_lift (map_err (oauth_fail M) (validate_authorization_server_metadata (on_url N) i m)))" for m
    by (rule runs_weaken [OF runs_lift]) (auto simp: map_err_eq_Inr dest: validated_metadata_safe)
  show ?case unfolding fetch_as.simps
    by (rule runs_match [OF get])
      (auto intro!: later runs_if runs_then [OF meta] runs_then [OF checked] intro: runs_return)
qed (simp add: runs_fail)

lemma fetch_authorization_server_metadata_runs:
  "runs (oauth_effect N M) (safe_metadata (on_url N)) (fetch_authorization_server_metadata N M issuer)"
  unfolding fetch_authorization_server_metadata_def
proof (rule runs_then [OF runs_lift], rule runs_then [OF runs_lift])
  fix u x
  assume u: "map_err (\<lambda>e. oauth_fail M (''invalid authorization server issuer `'' @ issuer @ ''`: '' @ e))
      (uo_parse (on_url N) issuer) = Inr u"
    and ok: "map_err (\<lambda>e. oauth_fail M (''rejected authorization server issuer `'' @ issuer @ ''`: '' @ e))
      (validate_metadata_fetch_url (on_url N) issuer None) = Inr x"
  have "uo_parse (on_url N) issuer = Inr u" using u by (simp add: map_err_eq_Inr)
  moreover have "is_allowed_oauth_endpoint (on_url N) u"
    using ok u validated_fetch_url [of "on_url N" issuer None] by (auto simp: map_err_eq_Inr)
  ultimately have "safe_get N M e" if "e \<in> set (authorization_server_metadata_urls (on_url N) u)" for e
    using that by (auto simp: safe_get_def)
  then show "runs (oauth_effect N M) (safe_metadata (on_url N))
      (fetch_as N M u (authorization_server_metadata_urls (on_url N) u) None)"
    by (rule fetch_as_runs)
qed

lemma discover_runs: "runs (oauth_effect N M) (\<lambda>(prm, meta). safe_metadata (on_url N) meta) (discover N M challenge)"
proof -
  have prm: "runs (oauth_effect N M) (\<lambda>_. True) (fetch_prm N M (prm_candidates N M challenge) None)"
    by (rule fetch_prm_runs) (rule prm_candidates_safe)
  show ?thesis unfolding discover_def
    by (rule runs_then [OF prm])
      (auto split: list.split intro!: runs_fail runs_then [OF fetch_authorization_server_metadata_runs] intro: runs_return)
qed

lemma resolve_client_runs:
  assumes "safe_metadata (on_url N) meta"
  shows "runs (oauth_effect N M) (\<lambda>_. True) (resolve_client N M meta)"
proof -
  have register: "runs (oauth_effect N M) (\<lambda>_. True) (dynamic_register N M reg)" if "as_registration_endpoint meta = Some reg" for reg
  proof -
    have post: "runs (oauth_effect N M) (\<lambda>_. True) (http_op M (on_post_json N reg registration_body))"
      using assms that by (intro runs_http oauth_io.registers) (simp add: safe_metadata_def)
    have body: "runs (oauth_effect N M) (\<lambda>_. True) (with_net (on_text N resp))" for resp
      by (intro runs_net_step oauth_io.reads_text)
    show ?thesis unfolding dynamic_register_def
      by (rule runs_then [OF post]) (intro runs_if runs_match [OF body] runs_fail runs_http oauth_io.reads_registration)
  qed
  have lift: "runs (oauth_effect N M) (\<lambda>_. True) (io_lift r)" for r :: "mcp_error + resolved_client"
    by (rule runs_weaken [OF runs_lift]) simp
  show ?thesis unfolding resolve_client_def
    by (auto split: option.split intro!: runs_if lift runs_fail register)
qed

lemma exchange_token_runs:
  assumes "safe_endpoint (on_url N) e"
  shows "runs (oauth_effect N M) (\<lambda>ts. issued N (ts_access_token ts)) (exchange_token N M e form)"
proof -
  have post: "runs (oauth_effect N M) (\<lambda>_. True) (http_op M (on_post_form N e form))"
    by (intro runs_http oauth_io.sends assms)
  have body: "runs (oauth_effect N M) (\<lambda>_. True) (with_net (on_text N resp))" for resp
    by (intro runs_net_step oauth_io.reads_text)
  have token: "runs (oauth_effect N M) (\<lambda>raw. \<exists>w. fst (on_token N resp w) = Inr raw) (http_op M (on_token N resp))" for resp
    unfolding http_op_def by (intro runs_map_err runs_with_net runs_result oauth_io.reads_token)
  show ?thesis unfolding exchange_token_def
  proof (rule runs_then [OF post], rule runs_if)
    fix resp :: http_response
    show "runs (oauth_effect N M) (\<lambda>ts. issued N (ts_access_token ts)) (io_match (with_net (on_text N resp))
        (\<lambda>err. io_fail (oauth_fail M (''token endpoint returned HTTP '' @ on_status_text N (rs_status resp) @ '': '')))
        (\<lambda>t. io_fail (oauth_fail M (''token endpoint returned HTTP '' @ on_status_text N (rs_status resp) @ '': '' @ t))))"
      by (rule runs_match [OF body]) (rule runs_fail)+
  next
    fix resp :: http_response
    show "runs (oauth_effect N M) (\<lambda>ts. issued N (ts_access_token ts)) (io_then (http_op M (on_token N resp)) (\<lambda>raw.
         if \<not> eq_ignore_ascii_case (tr_token_type raw) ''bearer''
         then io_fail (oauth_fail M (''unsupported token_type `'' @ tr_token_type raw @ ''` (expected Bearer)''))
         else (\<lambda>s. (Inr \<lparr>ts_access_token = tr_access_token raw,
             ts_refresh_token = (case tr_refresh_token raw of Some r \<Rightarrow> Some r
                | None \<Rightarrow> Option.bind (fst s) ts_refresh_token),
             ts_token_type = tr_token_type raw, ts_scope = tr_scope raw,
             ts_expires_at = map_option (saturating_add (now_unix N (snd s))) (tr_expires_in raw)\<rparr>, s))))"
      by (rule runs_then [OF token], rule runs_if, rule runs_fail) (auto simp: runs_def issued_def)
  qed
qed

lemma persist_tokens_runs:
  "runs (oauth_effect N M) (\<lambda>t. t = ts_access_token tokens)
     (io_then (persist_tokens N M tokens) (\<lambda>_. stored_access_token M missing))"
proof -
  have save: "runs (oauth_io N M) (\<lambda>_. True) (save_token_store N p tokens)" if p: "token_store_path N M = Some p" for p
  proof -
    have dir: "runs (oauth_io N M) (\<lambda>_. True)
        (case path_parent p of Some parent \<Rightarrow> os_create_dir_all (on_os N) parent | None \<Rightarrow> io_return ())"
      by (cases "path_parent p") (simp_all add: runs_return runs_step oauth_io.makes_store [OF p])
    have shown: "runs (oauth_io N M) (\<lambda>_. True) (io_lift r)" for r :: "io_error + string"
      by (rule runs_weaken [OF runs_lift]) simp
    have stored: "runs (oauth_io N M) (\<lambda>_. True) (os_write (on_os N) p d)" for d
      by (intro runs_step oauth_io.writes_store [OF p])
    show ?thesis unfolding save_token_store_def
      by (intro runs_then [OF dir] runs_then [OF shown] runs_then [OF stored] runs_step oauth_io.protects_store [OF p])
  qed
  have store: "runs (oauth_effect N M) (\<lambda>_. True) (case token_store_path N M of
         Some p \<Rightarrow> io_map_err (\<lambda>e. oauth_fail M (''failed to write token store `'' @ p @ ''`: '' @ io_text e))
           (with_net (save_token_store N p tokens))
       | None \<Rightarrow> io_return ())"
    by (auto split: option.split intro!: runs_map_err runs_with_net save intro: runs_return)
  have set_stored: "runs (oauth_effect N M) (\<lambda>t. t = ts_access_token tokens)
      (io_then (\<lambda>(_, w). (Inr (), (Some tokens, w))) (\<lambda>_. stored_access_token M missing))"
    by (auto simp: runs_def io_then_def stored_access_token_def oauth_effect_def intro: r_into_rtranclp)
  have assoc: "io_then (io_then a b) k = io_then a (\<lambda>x. io_then (b x) k)" for a b k
    by (auto simp: io_then_def fun_eq_iff split: prod.splits sum.splits)
  show ?thesis unfolding persist_tokens_def assoc
    by (rule runs_then [OF store]) (rule set_stored)
qed

lemma runs_at: "(\<And>s. \<exists>act. runs S P act \<and> f s = act s) \<Longrightarrow> runs S P f"
  unfolding runs_def by metis

lemma refresh_tokens_runs: "runs (oauth_effect N M) (issued N) (refresh_tokens N M challenge)"
proof -
  have flow: "runs (oauth_effect N M) (issued N)
       (io_then (discover N M challenge) (\<lambda>(prm, meta).
       io_then (resolve_client N M meta) (\<lambda>client.
       io_then (exchange_token N M (as_token_endpoint meta)
         ([(''grant_type'', ''refresh_token''), (''refresh_token'', refresh),
           (''resource'', canonical_resource_uri (on_url N) (om_url M) (prm_resource prm)),
           (''client_id'', rc_client_id client)] @ secret_pair client)) (\<lambda>tokens.
       io_then (persist_tokens N M tokens) (\<lambda>_. stored_access_token M ''token store empty after refresh'')))))" for refresh
  proof (rule runs_then [OF discover_runs])
    fix found :: "protected_resource_metadata \<times> authorization_server_metadata"
    assume found: "case found of (prm, meta) \<Rightarrow> safe_metadata (on_url N) meta"
    obtain prm meta where x: "found = (prm, meta)" by (cases found)
    then have safe: "safe_metadata (on_url N) meta" "safe_endpoint (on_url N) (as_token_endpoint meta)"
      using found by (simp_all add: safe_metadata_def)
    show "runs (oauth_effect N M) (issued N) (case found of (prm, meta) \<Rightarrow>
       io_then (resolve_client N M meta) (\<lambda>client.
       io_then (exchange_token N M (as_token_endpoint meta)
         ([(''grant_type'', ''refresh_token''), (''refresh_token'', refresh),
           (''resource'', canonical_resource_uri (on_url N) (om_url M) (prm_resource prm)),
           (''client_id'', rc_client_id client)] @ secret_pair client)) (\<lambda>tokens.
       io_then (persist_tokens N M tokens) (\<lambda>_. stored_access_token M ''token store empty after refresh''))))"
      unfolding x prod.case
      by (rule runs_then [OF resolve_client_runs [OF safe(1)]], rule runs_then [OF exchange_token_runs [OF safe(2)]],
          rule runs_weaken [OF persist_tokens_runs]) simp
  qed
  show ?thesis
  proof (rule runs_at)
    fix s
    show "\<exists>act. runs (oauth_effect N M) (issued N) act \<and> refresh_tokens N M challenge s = act s"
    proof (cases "Option.bind (fst s) ts_refresh_token")
      case None
      then show ?thesis by (intro exI [of _ "io_fail (oauth_fail M ''no refresh_token available'')"])
          (simp add: refresh_tokens_def runs_fail io_fail_def)
    next
      case (Some refresh)
      then show ?thesis unfolding refresh_tokens_def by (intro exI conjI) (rule flow, simp)
    qed
  qed
qed

lemma runs_lift_any: "runs S (\<lambda>_. True) (io_lift r)"
  by (rule runs_weaken [OF runs_lift]) simp

lemma wait_for_auth_code_runs: "runs (oauth_io N M) (\<lambda>_. True) (wait_for_auth_code N state)"
proof -
  have accept: "runs (oauth_io N M) (\<lambda>_. True) (io_map_err f (on_accept N))" for f :: "string option \<Rightarrow> string"
    by (intro runs_map_err runs_step oauth_io.accepts)
  have receive: "runs (oauth_io N M) (\<lambda>_. True) (on_receive N)" by (intro runs_step oauth_io.receives)
  have reply: "runs (oauth_io N M) (\<lambda>_. True) (write_http_response N code body)" for code body
    unfolding write_http_response_def by (intro runs_step oauth_io.replies)
  show ?thesis unfolding wait_for_auth_code_def
    by (rule runs_then [OF accept], rule runs_then [OF receive])
      (auto simp: Let_def split: list.split option.split
        intro!: runs_then [OF runs_lift_any] runs_then [OF reply] runs_if runs_fail intro: runs_return)
qed

lemma random_urlsafe_runs: "runs (oauth_effect N M) (\<lambda>_. True) (random_urlsafe N n)"
  by (rule runs_step) (auto simp: random_urlsafe_def oauth_effect_def split_beta intro: oauth_io.draws)

lemma pkce_pair_runs: "runs (oauth_effect N M) (\<lambda>(v, c). c = s256 N v) (pkce_pair N)"
  unfolding pkce_pair_def by (rule runs_then [OF random_urlsafe_runs]) (simp add: runs_return)

lemma authorize_interactive_runs: "runs (oauth_effect N M) (issued N) (authorize_interactive N M challenge)"
proof -
  have bind: "runs (oauth_effect N M) (\<lambda>_. True) (io_map_err McIo (with_net (on_bind N (oa_redirect_port (om_cfg M)))))"
    by (intro runs_map_err runs_net_step oauth_io.binds)
  have wait: "runs (oauth_effect N M) (\<lambda>_. True) (io_map_err (oauth_fail M) (with_net (wait_for_auth_code N state)))" for state
    by (intro runs_map_err runs_with_net wait_for_auth_code_runs)
  have browse: "runs (oauth_effect N M) (\<lambda>_. True) (io_map_err f (with_net (on_browser N
      (uo_str (on_url N) (uo_append_pairs (on_url N) pairs u)))))"
    if "uo_parse (on_url N) e = Inr u" "is_allowed_oauth_endpoint (on_url N) u" for f :: "string \<Rightarrow> mcp_error" and e u pairs
    using that by (intro runs_map_err runs_net_step oauth_io.browses)
  have endpoint: "runs (oauth_effect N M) (\<lambda>u. uo_parse (on_url N) e = Inr u \<and> is_allowed_oauth_endpoint (on_url N) u)
      (io_lift (map_err f (uo_parse (on_url N) e)))" if "safe_endpoint (on_url N) e" for e and f :: "string \<Rightarrow> mcp_error"
    using that by (intro runs_weaken [OF runs_lift]) (auto simp: map_err_eq_Inr safe_endpoint_def)
  show ?thesis unfolding authorize_interactive_def
  proof (rule runs_then [OF discover_runs])
    fix found :: "protected_resource_metadata \<times> authorization_server_metadata"
    assume found: "case found of (prm, meta) \<Rightarrow> safe_metadata (on_url N) meta"
    obtain prm meta where x: "found = (prm, meta)" by (cases found)
    then have safe: "safe_metadata (on_url N) meta" "safe_endpoint (on_url N) (as_token_endpoint meta)"
        "safe_endpoint (on_url N) (as_authorization_endpoint meta)"
      using found by (simp_all add: safe_metadata_def)
    show "runs (oauth_effect N M) (issued N) (case found of (prm, meta) \<Rightarrow>
     if \<not> list_ex (\<lambda>m. eq_ignore_ascii_case m ''S256'') (as_code_challenge_methods meta)
     then io_fail (oauth_fail M ''authorization server does not advertise PKCE S256 support'')
     else io_then (resolve_client N M meta) (\<lambda>client.
       let scopes = challenged_scopes challenge (om_cfg M) prm;
           resource = canonical_resource_uri (on_url N) (om_url M) (prm_resource prm) in
       io_then (io_map_err McIo (with_net (on_bind N (oa_redirect_port (om_cfg M))))) (\<lambda>port.
       let redirect_uri = ''http://127.0.0.1:'' @ show_nat (unat port) @ ''/callback'' in
       io_then (pkce_pair N) (\<lambda>(verifier, challenge_s256).
       io_then (random_urlsafe N 16) (\<lambda>state.
       io_then (io_lift (map_err (\<lambda>e. oauth_fail M (''invalid authorization_endpoint: '' @ e))
         (uo_parse (on_url N) (as_authorization_endpoint meta)))) (\<lambda>u.
       let auth_url = uo_str (on_url N) (uo_append_pairs (on_url N)
             (auth_pairs (rc_client_id client) redirect_uri challenge_s256 state resource scopes) u) in
       io_then (io_map_err (\<lambda>e. oauth_fail M (browser_failed auth_url e)) (with_net (on_browser N auth_url))) (\<lambda>_.
       io_then (io_map_err (oauth_fail M) (with_net (wait_for_auth_code N state))) (\<lambda>code.
       io_then (exchange_token N M (as_token_endpoint meta)
         ([(''grant_type'', ''authorization_code''), (''code'', code), (''redirect_uri'', redirect_uri),
           (''client_id'', rc_client_id client), (''code_verifier'', verifier), (''resource'', resource)]
          @ secret_pair client)) (\<lambda>tokens.
       io_then (persist_tokens N M tokens) (\<lambda>_. stored_access_token M ''token store empty after authorization''))))))))))"
      unfolding x prod.case Let_def
      by (rule runs_if, rule runs_fail, rule runs_then [OF resolve_client_runs [OF safe(1)]], rule runs_then [OF bind],
          rule runs_then [OF pkce_pair_runs])
        (auto intro!: runs_then [OF random_urlsafe_runs] runs_then [OF endpoint [OF safe(3)]] runs_then [OF browse]
          runs_then [OF wait] runs_then [OF exchange_token_runs [OF safe(2)]]
          intro: runs_weaken [OF persist_tokens_runs])
  qed
qed

lemma refresh_or_authorize_runs: "runs (oauth_effect N M) (issued N) (refresh_or_authorize N M challenge)"
proof (rule runs_at)
  fix s
  have both: "runs (oauth_effect N M) (issued N) (io_match (refresh_tokens N M challenge) (\<lambda>_. authorize_interactive N M challenge) io_return)"
    by (rule runs_match [OF refresh_tokens_runs authorize_interactive_runs]) (rule runs_return)
  show "\<exists>act. runs (oauth_effect N M) (issued N) act \<and> refresh_or_authorize N M challenge s = act s"
    using both authorize_interactive_runs [of N M challenge] unfolding refresh_or_authorize_def by (auto split: if_splits)
qed

lemma forget_runs: "runs (oauth_effect N M) P act \<Longrightarrow> runs (oauth_effect N M) P (\<lambda>s. act (f (fst s), snd s))"
  unfolding runs_def
proof (intro allI impI)
  fix s r s'
  assume act: "\<forall>s r s'. act s = (r, s') \<longrightarrow> (oauth_effect N M)\<^sup>*\<^sup>* s s' \<and> (\<forall>x. r = Inr x \<longrightarrow> P x)"
    and run: "act (f (fst s), snd s) = (r, s')"
  have "oauth_effect N M s (f (fst s), snd s)" by (simp add: oauth_effect_def)
  moreover have "(oauth_effect N M)\<^sup>*\<^sup>* (f (fst s), snd s) s' \<and> (\<forall>x. r = Inr x \<longrightarrow> P x)"
    using act run by blast
  ultimately show "(oauth_effect N M)\<^sup>*\<^sup>* s s' \<and> (\<forall>x. r = Inr x \<longrightarrow> P x)"
    by (blast intro: converse_rtranclp_into_rtranclp)
qed

lemma recover_access_token_runs: "runs (oauth_effect N M) (issued N) (recover_access_token N M challenge)"
proof (rule runs_at)
  fix s
  show "\<exists>act. runs (oauth_effect N M) (issued N) act \<and> recover_access_token N M challenge s = act s"
    using forget_runs [OF authorize_interactive_runs [of N M challenge],
        of "map_option (\<lambda>ts. ts\<lparr>ts_access_token := [], ts_expires_at := Some 0\<rparr>)"]
      refresh_or_authorize_runs [of N M challenge]
    unfolding recover_access_token_def by (cases "Option.bind challenge bc_error = Some ''insufficient_scope''") auto
qed


end
