(* ===== verification/Mcp_Http.thy ===== *)
theory Mcp_Http
  imports Mcp_Oauth
begin

text \<open>
  The HTTP transport of an MCP server (\<open>src/mcp/http_client.rs\<close>): requests and notifications, answers
  as JSON or as a stream of events that is resumed when it breaks off, sessions, authorization and
  the fallback to the older transport. Sending, the chunks of a body, the clock and JSON are
  parameters. What a client may change, its session, and the world are the state.
\<close>

section \<open>The client\<close>

definition MCP_PROTOCOL_VERSION :: string where
  "MCP_PROTOCOL_VERSION = ''2025-11-25''"

definition HEADER_SESSION_ID :: string where
  "HEADER_SESSION_ID = ''mcp-session-id''"

definition HEADER_PROTOCOL_VERSION :: string where
  "HEADER_PROTOCOL_VERSION = ''mcp-protocol-version''"

definition HEADER_LAST_EVENT_ID :: string where
  "HEADER_LAST_EVENT_ID = ''last-event-id''"

text \<open>What stays fixed; durations are milliseconds.\<close>

record 'u http_client =
  hc_server :: string
  hc_endpoint :: 'u
  hc_timeout :: nat
  hc_headers :: "(string \<times> string) list"
  hc_oauth :: "'u mcp_oauth option"

record 'u http_session =
  hs_session_id :: "string option"
  hs_protocol_version :: string
  hs_next_id :: u64
  hs_tokens :: "token_set option"
  hs_legacy_url :: "'u option"

type_synonym ('u, 'w) http_state = "'u http_session \<times> 'w"

datatype http_verb = GET | POST | DELETE

text \<open>A request: its headers in the order in which they are added, and its JSON body.\<close>

record 'u http_call =
  hq_verb :: http_verb
  hq_url :: 'u
  hq_headers :: "(string \<times> string) list"
  hq_json :: "json option"

text \<open>
  The body of a response as its stream delivers it: chunks, then the end or an error. A reader
  gives up at its deadline, so the chunks it sees are finitely many.
\<close>

datatype body_end = Ended | Broken string

text \<open>
  What the client is given. \<open>hn_send\<close> sends without a limit of its own, \<open>hn_send_within n\<close> within
  \<open>n\<close> milliseconds (no text: it timed out); \<open>hn_text\<close> and \<open>hn_bytes\<close> read a whole body, \<open>hn_body\<close> its
  chunks, for each of which \<open>hn_wait n\<close> waits at most \<open>n\<close> milliseconds and says whether it came;
  \<open>hn_now\<close> is the monotonic clock; \<open>hn_header_name\<close> and \<open>hn_header_value\<close> parse a header;
  \<open>hn_build n\<close> builds the HTTP client with timeout \<open>n\<close>, or fails.
\<close>

record ('u, 'w) http_net =
  hn_oauth :: "('u, 'w) oauth_net"
  hn_send :: "'u http_call \<Rightarrow> 'w \<Rightarrow> (string + http_response) \<times> 'w"
  hn_send_within :: "nat \<Rightarrow> 'u http_call \<Rightarrow> 'w \<Rightarrow> (string option + http_response) \<times> 'w"
  hn_text :: "http_response \<Rightarrow> 'w \<Rightarrow> (string + string) \<times> 'w"
  hn_bytes :: "http_response \<Rightarrow> 'w \<Rightarrow> (string + string) \<times> 'w"
  hn_body :: "http_response \<Rightarrow> 'w \<Rightarrow> string list \<times> body_end"
  hn_wait :: "nat \<Rightarrow> 'w \<Rightarrow> bool \<times> 'w"
  hn_sleep :: "nat \<Rightarrow> 'w \<Rightarrow> 'w"
  hn_now :: "'w \<Rightarrow> nat"
  hn_json :: "string \<Rightarrow> string + json"
  hn_show_json :: "json \<Rightarrow> string"
  hn_status_text :: "status_code \<Rightarrow> string"
  hn_header_name :: "string \<Rightarrow> string + string"
  hn_header_value :: "string \<Rightarrow> string + string"
  hn_build :: "u64 \<Rightarrow> string option"

text \<open>Operations on the world, and on the world and the tokens, within a session.\<close>

definition on_world :: "('w \<Rightarrow> ('e + 'a) \<times> 'w) \<Rightarrow> ('u, 'w) http_state \<Rightarrow> ('e + 'a) \<times> ('u, 'w) http_state" where
  "on_world act s = (let (r, w) = act (snd s) in (r, (fst s, w)))"

definition on_tokens :: "('w oauth_state \<Rightarrow> ('e + 'a) \<times> 'w oauth_state) \<Rightarrow> ('u, 'w) http_state \<Rightarrow> ('e + 'a) \<times> ('u, 'w) http_state" where
  "on_tokens act s = (let (r, t, w) = act (hs_tokens (fst s), snd s) in (r, ((fst s)\<lparr>hs_tokens := t\<rparr>, w)))"

definition on_session :: "('u http_session \<Rightarrow> 'u http_session) \<Rightarrow> ('u, 'w) http_state \<Rightarrow> ('e + unit) \<times> ('u, 'w) http_state" where
  "on_session f s = (Inr (), (f (fst s), snd s))"

definition protocol_fail :: "'u http_client \<Rightarrow> string \<Rightarrow> mcp_error" where
  "protocol_fail C err = McProtocol (hc_server C) err"

section \<open>JSON-RPC\<close>

text \<open>\<open>Value::as_i64\<close>, with the bits of the number.\<close>

fun json_as_i64 :: "json \<Rightarrow> u64 option" where
  "json_as_i64 (JNumber lexeme) = (case strip_prefix ''-'' lexeme of
     Some ds \<Rightarrow> (case parse_unsigned (2 ^ 63 + 1) ds of Some n \<Rightarrow> (if n = 0 then None else Some (- of_nat n)) | None \<Rightarrow> None)
   | None \<Rightarrow> map_option of_nat (parse_unsigned (2 ^ 63) lexeme))"
| "json_as_i64 _ = None"

definition jsonrpc_id_matches :: "json \<Rightarrow> u64 \<Rightarrow> bool" where
  "jsonrpc_id_matches v target \<longleftrightarrow> json_as_u64 v = Some target \<or> json_as_i64 v = Some target
     \<or> Option.bind (json_as_str v) parse_u64 = Some target"

definition extract_result :: "('u, 'w) http_net \<Rightarrow> 'u http_client \<Rightarrow> u64 \<Rightarrow> json \<Rightarrow> mcp_error + json" where
  "extract_result N C target message = (case json_get message ''id'' of
     None \<Rightarrow> Inl (protocol_fail C ''JSON-RPC response missing id'')
   | Some i \<Rightarrow>
       (if \<not> jsonrpc_id_matches i target
        then Inl (protocol_fail C (''JSON-RPC response id mismatch (expected '' @ show_nat (unat target) @ '')''))
        else (case json_get message ''error'' of
            Some err \<Rightarrow> Inl (protocol_fail C (hn_show_json N err))
          | None \<Rightarrow> Inr (case json_get message ''result'' of Some v \<Rightarrow> v | None \<Rightarrow> JNull))))"

definition request_payload :: "u64 \<Rightarrow> string \<Rightarrow> json \<Rightarrow> json" where
  "request_payload i meth params = JObject [(''id'', JNumber (show_nat (unat i))), (''jsonrpc'', JString ''2.0''),
     (''method'', JString meth), (''params'', params)]"

definition notification_payload :: "string \<Rightarrow> json \<Rightarrow> json" where
  "notification_payload meth params = JObject [(''jsonrpc'', JString ''2.0''), (''method'', JString meth), (''params'', params)]"

definition initialize_params :: json where
  "initialize_params = JObject [(''capabilities'', JObject []),
     (''clientInfo'', JObject [(''name'', JString ''agent_Kuibysheff''), (''version'', JString ''0.1.0'')]),
     (''protocolVersion'', JString MCP_PROTOCOL_VERSION)]"

section \<open>Headers\<close>

definition header_entry :: "('u, 'w) http_net \<Rightarrow> string \<Rightarrow> string \<times> string \<Rightarrow> mcp_error + string \<times> string" where
  "header_entry N server e = (case e of (name, v) \<Rightarrow>
     rbind (map_err (\<lambda>err. McProtocol server (''invalid header name `'' @ name @ ''`: '' @ err)) (hn_header_name N name)) (\<lambda>n.
     rbind (map_err (\<lambda>err. McProtocol server (''invalid header value for `'' @ name @ ''`: '' @ err)) (hn_header_value N v)) (\<lambda>v.
       Inr (n, v))))"

definition build_static_headers ::
  "('u, 'w) http_net \<Rightarrow> string \<Rightarrow> (string \<times> string) list \<Rightarrow> mcp_error + (string \<times> string) list" where
  "build_static_headers N server headers =
     rbind (try_map (header_entry N server) headers) (\<lambda>hs. Inr (fold (\<lambda>(n, v). assoc_insert n v) hs []))"

text \<open>The headers every request ends with: the configured ones and the access token.\<close>

definition bearer_headers :: "('u, 'w) http_net \<Rightarrow> 'u http_client \<Rightarrow> token_set option \<Rightarrow> mcp_error + (string \<times> string) list" where
  "bearer_headers N C tokens = (case (hc_oauth C, tokens) of
     (Some M, Some t) \<Rightarrow> (case apply_bearer (hn_header_value N) (ts_access_token t) of
         Inr v \<Rightarrow> Inr [(''authorization'', v)]
       | Inl (McOAuth _ err) \<Rightarrow> Inl (McOAuth (hc_server C) err)
       | Inl other \<Rightarrow> Inl other)
   | _ \<Rightarrow> Inr [])"

definition apply_common_headers ::
  "('u, 'w) http_net \<Rightarrow> 'u http_client \<Rightarrow> token_set option \<Rightarrow> 'u http_call \<Rightarrow> mcp_error + 'u http_call" where
  "apply_common_headers N C tokens q =
     rbind (bearer_headers N C tokens) (\<lambda>auth. Inr (q\<lparr>hq_headers := hq_headers q @ hc_headers C @ auth\<rparr>))"

definition payload_method :: "json \<Rightarrow> string option" where
  "payload_method p = Option.bind (json_get p ''method'') json_as_str"

definition session_headers :: "'u http_session \<Rightarrow> (string \<times> string) list" where
  "session_headers S = (case hs_session_id S of Some i \<Rightarrow> [(HEADER_SESSION_ID, i)] | None \<Rightarrow> [])"

definition version_headers :: "'u http_session \<Rightarrow> (string \<times> string) list" where
  "version_headers S = [(HEADER_PROTOCOL_VERSION, hs_protocol_version S)]"

definition post_call :: "'u http_client \<Rightarrow> 'u http_session \<Rightarrow> json \<Rightarrow> 'u http_call" where
  "post_call C S p = \<lparr>hq_verb = POST,
     hq_url = (case hs_legacy_url S of Some u \<Rightarrow> u | None \<Rightarrow> hc_endpoint C),
     hq_headers = [(''accept'', ''application/json, text/event-stream''), (''content-type'', ''application/json'')]
       @ (if hs_session_id S \<noteq> None \<or> hs_legacy_url S \<noteq> None then version_headers S
          else if payload_method p \<noteq> Some ''initialize'' then version_headers S else [])
       @ session_headers S,
     hq_json = Some p\<rparr>"

definition post_json ::
  "('u, 'w) http_net \<Rightarrow> 'u http_client \<Rightarrow> json \<Rightarrow> ('u, 'w) http_state \<Rightarrow> (mcp_error + http_response) \<times> ('u, 'w) http_state" where
  "post_json N C p s =
     io_then (io_lift (apply_common_headers N C (hs_tokens (fst s)) (post_call C (fst s) p))) (\<lambda>q.
       io_map_err (\<lambda>e. case e of
           None \<Rightarrow> McTimeout (hc_server C) (case payload_method p of Some m \<Rightarrow> m | None \<Rightarrow> ''unknown'')
         | Some err \<Rightarrow> McHttp (hc_server C) err)
         (on_world (hn_send_within N (hc_timeout C) q))) s"

section \<open>Streams of events\<close>

record sse_read_state =
  sr_events :: "sse_event list"
  sr_last_event_id :: "string option"
  sr_last_retry :: nat
  sr_result :: "json option"

definition sse_event_result ::
  "('u, 'w) http_net \<Rightarrow> 'u http_client \<Rightarrow> u64 option \<Rightarrow> sse_event \<Rightarrow> mcp_error + json option" where
  "sse_event_result N C target ev = (case target of
     None \<Rightarrow> Inr None
   | Some tid \<Rightarrow> (case parse_json_data (hn_json N) (sse_data ev) of
       None \<Rightarrow> Inr None
     | Some v \<Rightarrow> (case json_get v ''id'' of
         Some i \<Rightarrow> (if jsonrpc_id_matches i tid then rbind (extract_result N C tid v) (\<lambda>r. Inr (Some r)) else Inr None)
       | None \<Rightarrow> Inr None)))"

definition ingest_sse_event ::
  "('u, 'w) http_net \<Rightarrow> 'u http_client \<Rightarrow> u64 option \<Rightarrow> sse_event \<Rightarrow> sse_read_state \<Rightarrow> mcp_error + sse_read_state" where
  "ingest_sse_event N C target ev st =
     (let st = (case sse_retry_ms ev of Some n \<Rightarrow> st\<lparr>sr_last_retry := unat n\<rparr> | None \<Rightarrow> st);
          st = (case sse_id ev of Some i \<Rightarrow> st\<lparr>sr_last_event_id := Some i\<rparr> | None \<Rightarrow> st) in
      rbind (sse_event_result N C target ev) (\<lambda>r.
        let st = (case r of Some v \<Rightarrow> st\<lparr>sr_result := Some v\<rparr> | None \<Rightarrow> st) in
        Inr (st\<lparr>sr_events := sr_events st @ [ev]\<rparr>)))"

text \<open>The events of one push, up to the one that holds the result.\<close>

fun ingest_events ::
  "('u, 'w) http_net \<Rightarrow> 'u http_client \<Rightarrow> u64 option \<Rightarrow> sse_event list \<Rightarrow> sse_read_state \<Rightarrow> mcp_error + sse_read_state" where
  "ingest_events N C target [] st = Inr st"
| "ingest_events N C target (ev # evs) st = rbind (ingest_sse_event N C target ev st) (\<lambda>st.
     if sr_result st \<noteq> None then Inr st else ingest_events N C target evs st)"

definition push_ingest ::
  "('u, 'w) http_net \<Rightarrow> 'u http_client \<Rightarrow> u64 option \<Rightarrow> string \<Rightarrow> sse_parser \<times> sse_read_state
     \<Rightarrow> mcp_error + sse_parser \<times> sse_read_state" where
  "push_ingest N C target t = (\<lambda>(parser, st).
     rbind (map_err (protocol_fail C) (sse_push parser t)) (\<lambda>(evs, parser).
     rbind (ingest_events N C target evs st) (\<lambda>st. Inr (parser, st))))"

text \<open>The remaining time, or the error of a deadline that has passed.\<close>

definition sse_timeout :: "'u http_client \<Rightarrow> mcp_error" where
  "sse_timeout C = McTimeout (hc_server C) ''sse''"

definition time_left :: "('u, 'w) http_net \<Rightarrow> 'u http_client \<Rightarrow> nat \<Rightarrow> ('u, 'w) http_state \<Rightarrow> (mcp_error + nat) \<times> ('u, 'w) http_state" where
  "time_left N C deadline s =
     (let remaining = deadline - hn_now N (snd s) in
      if remaining = 0 then io_fail (sse_timeout C) s else io_return remaining s)"

definition next_item :: "('u, 'w) http_net \<Rightarrow> 'u http_client \<Rightarrow> nat \<Rightarrow> ('u, 'w) http_state \<Rightarrow> (mcp_error + unit) \<times> ('u, 'w) http_state" where
  "next_item N C deadline = io_then (time_left N C deadline) (\<lambda>remaining.
     io_then (on_world (\<lambda>w. let (came, w) = hn_wait N remaining w in (Inr came, w))) (\<lambda>came.
       if came then io_return () else io_fail (sse_timeout C)))"

text \<open>Reading one stream: to its end, to the result, or to an error.\<close>

fun read_chunks ::
  "('u, 'w) http_net \<Rightarrow> 'u http_client \<Rightarrow> u64 option \<Rightarrow> nat \<Rightarrow> string list \<Rightarrow> sse_parser \<Rightarrow> string \<Rightarrow> sse_read_state
     \<Rightarrow> ('u, 'w) http_state \<Rightarrow> (mcp_error + sse_parser \<times> string \<times> sse_read_state) \<times> ('u, 'w) http_state" where
  "read_chunks N C target deadline [] parser utf8 st =
     io_then (next_item N C deadline) (\<lambda>_. io_return (parser, utf8, st))"
| "read_chunks N C target deadline (c # cs) parser utf8 st =
     io_then (next_item N C deadline) (\<lambda>_.
     io_then (io_lift (map_err (protocol_fail C) (decoder_push utf8 c))) (\<lambda>(t, utf8).
     io_then (io_lift (push_ingest N C target t (parser, st))) (\<lambda>(parser, st).
       if sr_result st \<noteq> None then io_return (parser, utf8, st)
       else read_chunks N C target deadline cs parser utf8 st)))"

definition flush_sse_finish ::
  "('u, 'w) http_net \<Rightarrow> 'u http_client \<Rightarrow> u64 option \<Rightarrow> sse_parser \<Rightarrow> string \<Rightarrow> sse_read_state \<Rightarrow> mcp_error + sse_read_state" where
  "flush_sse_finish N C target parser utf8 st =
     (let trailing = decoder_finish utf8 in
      rbind (if trailing = [] then Inr (parser, st) else push_ingest N C target trailing (parser, st)) (\<lambda>(parser, st).
        if trailing \<noteq> [] \<and> sr_result st \<noteq> None then Inr st
        else (case fst (sse_finish parser) of
            Some ev \<Rightarrow> ingest_sse_event N C target ev st
          | None \<Rightarrow> Inr st)))"

definition insufficient_scope :: "bearer_challenge option \<Rightarrow> bool" where
  "insufficient_scope challenge \<longleftrightarrow> Option.bind challenge bc_error = Some ''insufficient_scope''"

definition resume_call :: "'u http_client \<Rightarrow> 'u http_session \<Rightarrow> string option \<Rightarrow> 'u http_call" where
  "resume_call C S last_event_id = \<lparr>hq_verb = GET, hq_url = hc_endpoint C,
     hq_headers = [(''accept'', ''text/event-stream'')] @ version_headers S @ session_headers S
       @ (case last_event_id of Some i \<Rightarrow> [(HEADER_LAST_EVENT_ID, i)] | None \<Rightarrow> []),
     hq_json = None\<rparr>"

definition resume_sse_response ::
  "('u, 'w) http_net \<Rightarrow> 'u http_client \<Rightarrow> string option \<Rightarrow> nat \<Rightarrow> nat \<Rightarrow> ('u, 'w) http_state
     \<Rightarrow> (mcp_error + http_response option) \<times> ('u, 'w) http_state" where
  "resume_sse_response N C last_event_id last_retry deadline =
     io_then (time_left N C deadline) (\<lambda>remaining.
     io_then (on_world (\<lambda>w. (Inr (), hn_sleep N (min last_retry remaining) w))) (\<lambda>_ s.
     io_then (io_lift (apply_common_headers N C (hs_tokens (fst s)) (resume_call C (fst s) last_event_id))) (\<lambda>q.
     io_then (time_left N C deadline) (\<lambda>remaining.
     io_then (io_map_err (\<lambda>e. case e of None \<Rightarrow> sse_timeout C | Some err \<Rightarrow> McHttp (hc_server C) err)
        (on_world (hn_send_within N remaining q))) (\<lambda>response.
       let code = rs_status response; challenge = parse_www_authenticate (rs_headers response) in
       if code = 401 \<or> (code = 403 \<and> insufficient_scope challenge)
       then io_fail (McUnauthorized (hc_server C) challenge)
       else if code = 405 then io_return None
       else if \<not> is_success code
       then io_fail (protocol_fail C (''SSE resume GET failed: HTTP '' @ hn_status_text N code))
       else io_return (Some response)))) s))"

text \<open>
  One stream of the loop; \<open>continue\<close> goes on with another one, and is missing when no resumption is
  left or none is wanted.
\<close>

definition one_stream ::
  "('u, 'w) http_net \<Rightarrow> 'u http_client \<Rightarrow> u64 option \<Rightarrow> nat \<Rightarrow>
     (http_response \<Rightarrow> sse_read_state \<Rightarrow> ('u, 'w) http_state \<Rightarrow> (mcp_error + sse_read_state) \<times> ('u, 'w) http_state) option \<Rightarrow>
     http_response \<Rightarrow> sse_read_state \<Rightarrow> ('u, 'w) http_state \<Rightarrow> (mcp_error + sse_read_state) \<times> ('u, 'w) http_state" where
  "one_stream N C target deadline continue response st s =
     (let (chunks, ending) = hn_body N response (snd s) in
      io_then (read_chunks N C target deadline chunks \<lparr>buffer = [], max_buffer_bytes = DEFAULT_MAX_BUFFER_BYTES\<rparr> [] st)
        (\<lambda>(parser, utf8, st).
         if sr_result st \<noteq> None then io_return st
         else (case continue of
            None \<Rightarrow> (case ending of
                Broken err \<Rightarrow> io_fail (McHttp (hc_server C) err)
              | Ended \<Rightarrow> io_lift (flush_sse_finish N C target parser utf8 st))
          | Some go_on \<Rightarrow>
              io_then (io_lift (flush_sse_finish N C target parser utf8 st)) (\<lambda>st.
                if sr_result st \<noteq> None then io_return st
                else io_then (resume_sse_response N C (sr_last_event_id st) (sr_last_retry st) deadline) (\<lambda>again.
                  case again of
                    None \<Rightarrow> io_return st
                  | Some response \<Rightarrow> go_on response st)))) s)"

text \<open>The loop: as many streams may be opened again as the number says.\<close>

fun read_streams ::
  "('u, 'w) http_net \<Rightarrow> 'u http_client \<Rightarrow> u64 option \<Rightarrow> nat \<Rightarrow> nat \<Rightarrow> http_response \<Rightarrow> sse_read_state
     \<Rightarrow> ('u, 'w) http_state \<Rightarrow> (mcp_error + sse_read_state) \<times> ('u, 'w) http_state" where
  "read_streams N C target deadline 0 response st s = one_stream N C target deadline None response st s"
| "read_streams N C target deadline (Suc k) response st s =
     one_stream N C target deadline
       (if target = None then None else Some (\<lambda>response st s. read_streams N C target deadline k response st s)) response st s"

definition read_sse_until ::
  "('u, 'w) http_net \<Rightarrow> 'u http_client \<Rightarrow> http_response \<Rightarrow> u64 option \<Rightarrow> nat \<Rightarrow> bool \<Rightarrow> ('u, 'w) http_state
     \<Rightarrow> (mcp_error + sse_read_state) \<times> ('u, 'w) http_state" where
  "read_sse_until N C response target overall resume_on_disconnect s =
     read_streams N C target (hn_now N (snd s) + overall) (if resume_on_disconnect then 3 else 0) response
       \<lparr>sr_events = [], sr_last_event_id = None, sr_last_retry = 1000, sr_result = None\<rparr> s"

section \<open>One request\<close>

definition remember_session :: "http_response \<Rightarrow> 'u http_session \<Rightarrow> 'u http_session" where
  "remember_session response S = (case header_text (rs_headers response) HEADER_SESSION_ID of
     Some i \<Rightarrow> S\<lparr>hs_session_id := Some i\<rparr> | None \<Rightarrow> S)"

definition content_type_of :: "http_response \<Rightarrow> string" where
  "content_type_of response = map to_ascii_lower (case header_text (rs_headers response) ''content-type'' of Some t \<Rightarrow> t | None \<Rightarrow> [])"

text \<open>An error answer with its body, which may not be readable.\<close>

definition http_failure :: "('u, 'w) http_net \<Rightarrow> 'u http_client \<Rightarrow> http_response \<Rightarrow> string \<Rightarrow> ('u, 'w) http_state
     \<Rightarrow> (mcp_error + 'a) \<times> ('u, 'w) http_state" where
  "http_failure N C response label =
     (let fail = (\<lambda>body. io_fail (protocol_fail C (label @ ''HTTP '' @ hn_status_text N (rs_status response) @ '': '' @ body))) in
      io_match (on_world (hn_text N response)) (\<lambda>_. fail []) fail)"

fun first_result :: "('u, 'w) http_net \<Rightarrow> 'u http_client \<Rightarrow> u64 \<Rightarrow> sse_event list \<Rightarrow> mcp_error + json option" where
  "first_result N C tid [] = Inr None"
| "first_result N C tid (ev # evs) = rbind (sse_event_result N C (Some tid) ev) (\<lambda>r.
     case r of Some v \<Rightarrow> Inr (Some v) | None \<Rightarrow> first_result N C tid evs)"

definition looks_like_sse :: "string \<Rightarrow> bool" where
  "looks_like_sse t \<longleftrightarrow> starts_with t ''event:'' \<or> starts_with t ''data:'' \<or> starts_with t ''id:'' \<or> starts_with t '':''"

definition sse_body_result :: "('u, 'w) http_net \<Rightarrow> 'u http_client \<Rightarrow> u64 \<Rightarrow> string \<Rightarrow> string \<Rightarrow> mcp_error + json" where
  "sse_body_result N C tid content_type t =
     rbind (map_err (protocol_fail C) (sse_push \<lparr>buffer = [], max_buffer_bytes = DEFAULT_MAX_BUFFER_BYTES\<rparr> t)) (\<lambda>(evs, parser).
     rbind (first_result N C tid evs) (\<lambda>r.
     rbind (case r of Some v \<Rightarrow> Inr (Some v)
            | None \<Rightarrow> (case fst (sse_finish parser) of Some ev \<Rightarrow> sse_event_result N C (Some tid) ev | None \<Rightarrow> Inr None)) (\<lambda>r.
       case r of Some v \<Rightarrow> Inr v
       | None \<Rightarrow> Inl (protocol_fail C (''SSE-like body without JSON-RPC response for id '' @ show_nat (unat tid)
            @ '' (content-type: '' @ content_type @ '')'')))))"

definition body_result :: "('u, 'w) http_net \<Rightarrow> 'u http_client \<Rightarrow> u64 \<Rightarrow> string \<Rightarrow> string \<Rightarrow> mcp_error + json" where
  "body_result N C tid content_type bytes =
     (let t = from_utf8_lossy bytes in
      if looks_like_sse t then sse_body_result N C tid content_type t
      else rbind (map_err (\<lambda>err. protocol_fail C (''failed to decode JSON-RPC body (content-type: '' @ content_type @ ''): '' @ err))
          (hn_json N bytes)) (extract_result N C tid))"

definition read_result ::
  "('u, 'w) http_net \<Rightarrow> 'u http_client \<Rightarrow> u64 \<Rightarrow> nat \<Rightarrow> http_response \<Rightarrow> ('u, 'w) http_state \<Rightarrow> (mcp_error + json) \<times> ('u, 'w) http_state" where
  "read_result N C tid max_deadline response =
     (let content_type = content_type_of response in
      if contains_str content_type ''text/event-stream'' \<or> contains_str content_type ''event-stream''
      then (\<lambda>s. io_then (read_sse_until N C response (Some tid) (max_deadline - hn_now N (snd s)) True) (\<lambda>st.
          case sr_result st of
            Some v \<Rightarrow> io_return v
          | None \<Rightarrow> io_fail (protocol_fail C (''SSE stream ended without JSON-RPC response for id '' @ show_nat (unat tid)))) s)
      else io_then (io_map_err (McHttp (hc_server C)) (on_world (hn_bytes N response))) (\<lambda>bytes.
        io_lift (body_result N C tid content_type bytes)))"

definition handle_answer ::
  "('u, 'w) http_net \<Rightarrow> 'u http_client \<Rightarrow> u64 \<Rightarrow> nat \<Rightarrow> http_response \<Rightarrow> ('u, 'w) http_state \<Rightarrow> (mcp_error + json) \<times> ('u, 'w) http_state" where
  "handle_answer N C tid max_deadline response s =
     (let code = rs_status response; challenge = parse_www_authenticate (rs_headers response) in
      if code = 401 then io_fail (McUnauthorized (hc_server C) challenge) s
      else if code = 403 then
        (if insufficient_scope challenge then io_fail (McUnauthorized (hc_server C) challenge) s
         else http_failure N C response [] s)
      else if code = 404 \<and> hs_session_id (fst s) \<noteq> None then io_fail (McSessionExpired (hc_server C)) s
      else if \<not> (is_success code \<or> code = 202) then http_failure N C response [] s
      else io_then (on_session (remember_session response)) (\<lambda>_. read_result N C tid max_deadline response) s)"

definition request_once ::
  "('u, 'w) http_net \<Rightarrow> 'u http_client \<Rightarrow> string \<Rightarrow> json \<Rightarrow> ('u, 'w) http_state \<Rightarrow> (mcp_error + json) \<times> ('u, 'w) http_state" where
  "request_once N C meth params s =
     (let i = hs_next_id (fst s); max_deadline = hn_now N (snd s) + max (3 * hc_timeout C) (hc_timeout C) in
      io_then (on_session (\<lambda>S. S\<lparr>hs_next_id := i + 1\<rparr>)) (\<lambda>_.
      io_then (post_json N C (request_payload i meth params)) (handle_answer N C i max_deadline)) s)"

section \<open>Initialization, authorization and retries\<close>

definition notify ::
  "('u, 'w) http_net \<Rightarrow> 'u http_client \<Rightarrow> string \<Rightarrow> json \<Rightarrow> ('u, 'w) http_state \<Rightarrow> (mcp_error + unit) \<times> ('u, 'w) http_state" where
  "notify N C meth params =
     io_then (post_json N C (notification_payload meth params)) (\<lambda>response.
       let code = rs_status response in
       if code = 202 \<or> is_success code then io_return ()
       else http_failure N C response (''notification `'' @ meth @ ''` failed: ''))"

definition supported_versions :: "string list" where
  "supported_versions = [MCP_PROTOCOL_VERSION, ''2025-03-26'', ''2025-06-18'']"

definition apply_initialize_result ::
  "'u http_client \<Rightarrow> json \<Rightarrow> ('u, 'w) http_state \<Rightarrow> (mcp_error + unit) \<times> ('u, 'w) http_state" where
  "apply_initialize_result C result = (case Option.bind (json_get result ''protocolVersion'') json_as_str of
     None \<Rightarrow> io_return ()
   | Some v \<Rightarrow>
       (if v \<notin> set supported_versions
        then io_fail (protocol_fail C (''unsupported MCP protocol version from server: '' @ v))
        else on_session (\<lambda>S. S\<lparr>hs_protocol_version := v\<rparr>)))"

definition finish_initialize ::
  "('u, 'w) http_net \<Rightarrow> 'u http_client \<Rightarrow> ('u, 'w) http_state \<Rightarrow> (mcp_error + unit) \<times> ('u, 'w) http_state" where
  "finish_initialize N C =
     io_then (request_once N C ''initialize'' initialize_params) (\<lambda>result.
     io_then (apply_initialize_result C result) (\<lambda>_. notify N C ''notifications/initialized'' (JObject [])))"

definition handle_unauthorized ::
  "('u, 'w) http_net \<Rightarrow> 'u http_client \<Rightarrow> bearer_challenge option \<Rightarrow> ('u, 'w) http_state \<Rightarrow> (mcp_error + unit) \<times> ('u, 'w) http_state" where
  "handle_unauthorized N C challenge = (case hc_oauth C of
     None \<Rightarrow> io_fail (McUnauthorized (hc_server C) challenge)
   | Some M \<Rightarrow> io_then (on_tokens (recover_access_token (hn_oauth N) M challenge)) (\<lambda>_. io_return ()))"

definition endpoint_event :: "sse_event list \<Rightarrow> sse_event option" where
  "endpoint_event evs = find (\<lambda>e. case sse_name e of Some name \<Rightarrow> eq_ignore_ascii_case name ''endpoint'' | None \<Rightarrow> False) evs"

definition legacy_call :: "'u http_client \<Rightarrow> 'u http_call" where
  "legacy_call C = \<lparr>hq_verb = GET, hq_url = hc_endpoint C, hq_headers = [(''accept'', ''text/event-stream'')], hq_json = None\<rparr>"

definition try_legacy_http_sse ::
  "('u, 'w) http_net \<Rightarrow> 'u http_client \<Rightarrow> ('u, 'w) http_state \<Rightarrow> (mcp_error + unit) \<times> ('u, 'w) http_state" where
  "try_legacy_http_sse N C s =
     io_then (io_lift (apply_common_headers N C (hs_tokens (fst s)) (legacy_call C))) (\<lambda>q.
     io_then (io_map_err (McHttp (hc_server C)) (on_world (hn_send N q))) (\<lambda>response.
       if \<not> is_success (rs_status response)
       then io_fail (protocol_fail C (''legacy HTTP+SSE GET failed: HTTP '' @ hn_status_text N (rs_status response)))
       else io_then (read_sse_until N C response None 30000 False) (\<lambda>st.
         case endpoint_event (sr_events st) of
           None \<Rightarrow> io_fail (protocol_fail C ''legacy HTTP+SSE stream missing endpoint event'')
         | Some ev \<Rightarrow>
             io_then (io_lift (map_err (\<lambda>err. protocol_fail C (''invalid legacy endpoint URL: '' @ err))
               (uo_join (on_url (hn_oauth N)) (hc_endpoint C) (trim (sse_data ev))))) (\<lambda>u.
             io_then (on_session (\<lambda>S. S\<lparr>hs_legacy_url := Some u\<rparr>)) (\<lambda>_. finish_initialize N C))))) s"

text \<open>The first request of \<open>initialize\<close>; a result is applied, some errors are recovered from.\<close>

definition initialize ::
  "('u, 'w) http_net \<Rightarrow> 'u http_client \<Rightarrow> ('u, 'w) http_state \<Rightarrow> (mcp_error + unit) \<times> ('u, 'w) http_state" where
  "initialize N C =
     io_match (request_once N C ''initialize'' initialize_params)
       (\<lambda>e. case e of
          McUnauthorized _ challenge \<Rightarrow> io_then (handle_unauthorized N C challenge) (\<lambda>_. finish_initialize N C)
        | McProtocol _ err \<Rightarrow>
            (if contains_str err ''400'' \<or> contains_str err ''404'' \<or> contains_str err ''405''
             then try_legacy_http_sse N C else io_fail e)
        | _ \<Rightarrow> io_fail e)
       (\<lambda>result. io_then (apply_initialize_result C result) (\<lambda>_. notify N C ''notifications/initialized'' (JObject [])))"

definition client_request ::
  "('u, 'w) http_net \<Rightarrow> 'u http_client \<Rightarrow> string \<Rightarrow> json \<Rightarrow> ('u, 'w) http_state \<Rightarrow> (mcp_error + json) \<times> ('u, 'w) http_state" where
  "client_request N C meth params =
     io_match (request_once N C meth params)
       (\<lambda>e. case e of
          McSessionExpired _ \<Rightarrow> io_then (on_session (\<lambda>S. S\<lparr>hs_session_id := None\<rparr>)) (\<lambda>_.
            io_then (initialize N C) (\<lambda>_. request_once N C meth params))
        | McUnauthorized _ challenge \<Rightarrow> io_then (handle_unauthorized N C challenge) (\<lambda>_. request_once N C meth params)
        | _ \<Rightarrow> io_fail e)
       io_return"

definition list_tools ::
  "('u, 'w) http_net \<Rightarrow> 'u http_client \<Rightarrow> ('u, 'w) http_state \<Rightarrow> (mcp_error + string list) \<times> ('u, 'w) http_state" where
  "list_tools N C = io_then (client_request N C ''tools/list'' (JObject [])) (\<lambda>response. io_return (tool_names_from_list_result response))"

definition shutdown_call :: "'u http_client \<Rightarrow> 'u http_session \<Rightarrow> string \<Rightarrow> 'u http_call" where
  "shutdown_call C S session = \<lparr>hq_verb = DELETE, hq_url = hc_endpoint C,
     hq_headers = [(HEADER_SESSION_ID, session)] @ version_headers S, hq_json = None\<rparr>"

text \<open>An unexpected status is only logged: every answer ends the session.\<close>

definition shutdown ::
  "('u, 'w) http_net \<Rightarrow> 'u http_client \<Rightarrow> ('u, 'w) http_state \<Rightarrow> (mcp_error + unit) \<times> ('u, 'w) http_state" where
  "shutdown N C s = (case hs_session_id (fst s) of
     None \<Rightarrow> io_return () s
   | Some session \<Rightarrow>
       io_then (io_lift (apply_common_headers N C (hs_tokens (fst s)) (shutdown_call C (fst s) session))) (\<lambda>q.
       io_then (io_map_err (McHttp (hc_server C)) (on_world (hn_send N q))) (\<lambda>response.
         on_session (\<lambda>S. S\<lparr>hs_session_id := None\<rparr>))) s)"

definition new_session :: "token_set option \<Rightarrow> 'u http_session" where
  "new_session tokens = \<lparr>hs_session_id = None, hs_protocol_version = MCP_PROTOCOL_VERSION, hs_next_id = 1,
     hs_tokens = tokens, hs_legacy_url = None\<rparr>"

text \<open>The client before it is initialized: the endpoint, the HTTP client, the headers, the tokens.\<close>

definition open_client ::
  "('u, 'w) http_net \<Rightarrow> string \<Rightarrow> mcp_http_config \<Rightarrow> u64 \<Rightarrow> 'w \<Rightarrow> (mcp_error + 'u http_client \<times> 'u http_session) \<times> 'w" where
  "open_client N server cfg timeout_ms =
     io_then (io_lift (map_err (\<lambda>err. McProtocol server (''invalid mcp url: '' @ err)) (uo_parse (on_url (hn_oauth N)) (trim (ht_url cfg))))) (\<lambda>endpoint.
     io_then (io_lift (case hn_build N (max (saturating_mul timeout_ms 4) 60000) of Some e \<Rightarrow> Inl (McHttp server e) | None \<Rightarrow> Inr ())) (\<lambda>_.
     io_then (io_lift (build_static_headers N server (ht_headers cfg))) (\<lambda>headers.
     let C = \<lparr>hc_server = server, hc_endpoint = endpoint, hc_timeout = unat timeout_ms, hc_headers = headers, hc_oauth = None\<rparr> in
     (case ht_auth cfg of
        None \<Rightarrow> io_return (C, new_session None)
      | Some auth \<Rightarrow>
          io_then (io_lift (case hn_build N 60000 of Some e \<Rightarrow> Inl (McHttp server e) | None \<Rightarrow> Inr ())) (\<lambda>_ w.
            let (M, tokens, w) = oauth_new (hn_oauth N) server endpoint auth w in
            (Inr (C\<lparr>hc_oauth := Some M\<rparr>, new_session tokens), w))))))"

definition connect ::
  "('u, 'w) http_net \<Rightarrow> string \<Rightarrow> mcp_http_config \<Rightarrow> u64 \<Rightarrow> 'w \<Rightarrow> (mcp_error + 'u http_client \<times> 'u http_session) \<times> 'w" where
  "connect N server cfg timeout_ms =
     io_then (open_client N server cfg timeout_ms) (\<lambda>(C, S) w. (case initialize N C (S, w) of
       (Inl e, (S, w)) \<Rightarrow> (Inl e, w)
     | (Inr (), (S, w)) \<Rightarrow> (Inr (C, S), w)))"

section \<open>The protocol of a session\<close>

text \<open>
  The steps a client takes: it changes its session as the server's answers demand, lets the
  OAuth helper work, and sends four kinds of calls, each built from the session as it is then.
\<close>

inductive http_step :: "('u, 'w) http_net \<Rightarrow> 'u http_client \<Rightarrow> ('u, 'w) http_state \<Rightarrow> ('u, 'w) http_state \<Rightarrow> bool" for N C where
  issues: "http_step N C (S, w) (S\<lparr>hs_next_id := hs_next_id S + 1\<rparr>, w)"
| remembers: "http_step N C (S, w) (remember_session response S, w)"
| forgets: "http_step N C (S, w) (S\<lparr>hs_session_id := None\<rparr>, w)"
| negotiates: "v \<in> set supported_versions \<Longrightarrow> http_step N C (S, w) (S\<lparr>hs_protocol_version := v\<rparr>, w)"
| redirects: "uo_join (on_url (hn_oauth N)) (hc_endpoint C) d = Inr u \<Longrightarrow> http_step N C (S, w) (S\<lparr>hs_legacy_url := Some u\<rparr>, w)"
| authorizes: "hc_oauth C = Some M \<Longrightarrow> oauth_effect (hn_oauth N) M (hs_tokens S, w) (t, w') \<Longrightarrow>
    http_step N C (S, w) (S\<lparr>hs_tokens := t\<rparr>, w')"
| posts: "apply_common_headers N C (hs_tokens S) (post_call C S p) = Inr q \<Longrightarrow>
    http_step N C (S, w) (S, snd (hn_send_within N (hc_timeout C) q w))"
| resumes: "apply_common_headers N C (hs_tokens S) (resume_call C S i) = Inr q \<Longrightarrow>
    http_step N C (S, w) (S, snd (hn_send_within N n q w))"
| falls_back: "apply_common_headers N C (hs_tokens S) (legacy_call C) = Inr q \<Longrightarrow>
    http_step N C (S, w) (S, snd (hn_send N q w))"
| closes: "hs_session_id S = Some i \<Longrightarrow> apply_common_headers N C (hs_tokens S) (shutdown_call C S i) = Inr q \<Longrightarrow>
    http_step N C (S, w) (S, snd (hn_send N q w))"
| waits: "http_step N C (S, w) (S, snd (hn_wait N n w))"
| sleeps: "http_step N C (S, w) (S, hn_sleep N n w)"
| reads_text: "http_step N C (S, w) (S, snd (hn_text N response w))"
| reads_bytes: "http_step N C (S, w) (S, snd (hn_bytes N response w))"

inductive_cases http_step_cases: "http_step N C s s'"

lemma runs_on_world:
  assumes "\<And>S w. http_step N C (S, w) (S, snd (act w))"
  shows "runs (http_step N C) (\<lambda>_. True) (on_world act)"
proof (rule runs_step)
  fix s
  show "http_step N C s (snd (on_world act s))"
    using assms [of "fst s" "snd s"] by (cases "act (snd s)") (simp add: on_world_def)
qed

lemma runs_on_session:
  assumes "\<And>S w. http_step N C (S, w) (f S, w)"
  shows "runs (http_step N C) (\<lambda>_. True) (on_session f)"
proof (rule runs_step)
  fix s
  show "http_step N C s (snd (on_session f s))"
    using assms [of "fst s" "snd s"] by (simp add: on_session_def)
qed

text \<open>A call is made in the state it is built from.\<close>

lemma runs_call:
  assumes "\<And>s q. build s = Inr q \<Longrightarrow> runs_here q s"
    and "\<And>s q. runs_here q s \<Longrightarrow> http_step N C s (fst s, snd (send q (snd s)))"
  shows "runs (http_step N C) (\<lambda>_. True) (\<lambda>s. io_then (io_lift (build s)) (\<lambda>q. io_map_err f (on_world (send q))) s)"
  unfolding runs_def
proof (intro allI impI conjI)
  fix s r s' x
  assume run: "io_then (io_lift (build s)) (\<lambda>q. io_map_err f (on_world (send q))) s = (r, s')"
  show "(http_step N C)\<^sup>*\<^sup>* s s'"
  proof (cases "build s")
    case (Inl e)
    then show ?thesis using run by (simp add: io_then_def io_lift_def)
  next
    case (Inr q)
    then have "s' = (fst s, snd (send q (snd s)))"
      using run by (auto simp: io_then_def io_lift_def io_map_err_def on_world_def Let_def split: prod.splits)
    then show ?thesis using assms(2) [OF assms(1) [OF Inr]] by auto
  qed
qed simp

lemma http_tokens_steps:
  assumes "hc_oauth C = Some M" and "(oauth_effect (hn_oauth N) M)\<^sup>*\<^sup>* a b"
  shows "(http_step N C)\<^sup>*\<^sup>* (S\<lparr>hs_tokens := fst a\<rparr>, snd a) (S\<lparr>hs_tokens := fst b\<rparr>, snd b)"
  using assms(2)
proof (induction rule: rtranclp_induct)
  case (step b c)
  have "http_step N C (S\<lparr>hs_tokens := fst b\<rparr>, snd b) ((S\<lparr>hs_tokens := fst b\<rparr>)\<lparr>hs_tokens := fst c\<rparr>, snd c)"
    by (rule authorizes [OF assms(1)]) (use step.hyps(2) in simp)
  then show ?case using step.IH by simp
qed simp

lemma runs_on_tokens:
  fixes N :: "('u, 'w) http_net"
  assumes "hc_oauth C = Some M" and "runs (oauth_effect (hn_oauth N) M) P act"
  shows "runs (http_step N C) (\<lambda>_. True) (on_tokens act)"
  unfolding runs_def
proof (intro allI impI conjI)
  fix s s' :: "('u, 'w) http_state" and r x
  assume run: "on_tokens act s = (r, s')"
  obtain r t w where act: "act (hs_tokens (fst s), snd s) = (r, t, w)" by (cases "act (hs_tokens (fst s), snd s)")
  have "(oauth_effect (hn_oauth N) M)\<^sup>*\<^sup>* (hs_tokens (fst s), snd s) (t, w)"
    using assms(2) act unfolding runs_def by blast
  from http_tokens_steps [OF assms(1) this, of "fst s"]
  show "(http_step N C)\<^sup>*\<^sup>* s s'" using run act by (simp add: on_tokens_def Let_def)
qed simp

section \<open>Every operation follows the protocol\<close>

text \<open>An answer: the result member of a decoded message with the id of the request and no error.\<close>

definition genuine_reply :: "('u, 'w) http_net \<Rightarrow> u64 \<Rightarrow> json \<Rightarrow> bool" where
  "genuine_reply N tid v \<longleftrightarrow> (\<exists>t m i. hn_json N t = Inr m \<and> json_get m ''id'' = Some i \<and> jsonrpc_id_matches i tid
     \<and> json_get m ''error'' = None \<and> v = (case json_get m ''result'' of Some r \<Rightarrow> r | None \<Rightarrow> JNull))"

lemma extract_result_genuine: "hn_json N t = Inr m \<Longrightarrow> extract_result N C tid m = Inr v \<Longrightarrow> genuine_reply N tid v"
  by (fastforce simp: extract_result_def genuine_reply_def split: option.splits if_splits)

definition sound_reading :: "('u, 'w) http_net \<Rightarrow> u64 option \<Rightarrow> sse_read_state \<Rightarrow> bool" where
  "sound_reading N target st \<longleftrightarrow> (\<forall>v. sr_result st = Some v \<longrightarrow> (\<exists>tid. target = Some tid \<and> genuine_reply N tid v))"

lemma sse_event_result_genuine:
  "sse_event_result N C target ev = Inr (Some v) \<Longrightarrow> \<exists>tid. target = Some tid \<and> genuine_reply N tid v"
  by (auto simp: sse_event_result_def parse_json_data_def Let_def rbind_eq_Inr intro: extract_result_genuine
      split: option.splits if_splits sum.splits)

lemma ingest_event_sound:
  assumes "sound_reading N target st" and "ingest_sse_event N C target ev st = Inr st'"
  shows "sound_reading N target st'"
proof -
  obtain r where r: "sse_event_result N C target ev = Inr r"
    using assms(2) by (cases "sse_event_result N C target ev") (auto simp: ingest_sse_event_def Let_def)
  have "sr_result st' = (case r of Some v \<Rightarrow> Some v | None \<Rightarrow> sr_result st)"
    using assms(2) r by (auto simp: ingest_sse_event_def Let_def split: option.splits)
  then show ?thesis using assms(1) r sse_event_result_genuine [of N C target ev]
    by (cases r) (auto simp: sound_reading_def)
qed

lemma ingest_events_sound:
  "sound_reading N target st \<Longrightarrow> ingest_events N C target evs st = Inr st' \<Longrightarrow> sound_reading N target st'"
  by (induction evs arbitrary: st) (auto simp: rbind_eq_Inr dest: ingest_event_sound split: if_splits)

lemma push_ingest_sound:
  "sound_reading N target st \<Longrightarrow> push_ingest N C target t (parser, st) = Inr (parser', st') \<Longrightarrow> sound_reading N target st'"
  by (auto simp: push_ingest_def rbind_eq_Inr dest: ingest_events_sound)

lemma flush_sound:
  assumes "sound_reading N target st" and "flush_sse_finish N C target parser utf8 st = Inr st'"
  shows "sound_reading N target st'"
proof -
  from assms(2) obtain p st1 where
    mid: "(if decoder_finish utf8 = [] then Inr (parser, st) else push_ingest N C target (decoder_finish utf8) (parser, st)) = Inr (p, st1)"
    and rest: "st' = st1 \<or> (\<exists>ev. ingest_sse_event N C target ev st1 = Inr st')"
    by (fastforce simp: flush_sse_finish_def Let_def rbind_eq_Inr split: option.splits if_splits)
  have "sound_reading N target st1" using mid assms(1) push_ingest_sound by (auto split: if_splits)
  then show ?thesis using rest ingest_event_sound by blast
qed

lemma time_left_runs: "runs (http_step N C) (\<lambda>_. True) (time_left N C deadline)"
  by (auto simp: runs_def time_left_def Let_def io_fail_def io_return_def)

lemma wait_runs: "runs (http_step N C) (\<lambda>_. True) (on_world (\<lambda>w. let (came, w) = hn_wait N n w in (Inr came, w)))"
proof (rule runs_on_world)
  fix S w
  show "http_step N C (S, w) (S, snd (let (came, w) = hn_wait N n w in (Inr came, w)))"
    using waits [of N C S w n] by (simp add: Let_def split_beta)
qed

lemma next_item_runs: "runs (http_step N C) (\<lambda>_. True) (next_item N C deadline)"
  unfolding next_item_def
  by (rule runs_then [OF time_left_runs], rule runs_then [OF wait_runs]) (auto intro: runs_intros)

lemma read_chunks_runs:
  "sound_reading N target st \<Longrightarrow>
    runs (http_step N C) (\<lambda>(_, _, st). sound_reading N target st) (read_chunks N C target deadline cs parser utf8 st)"
proof (induction cs arbitrary: parser utf8 st)
  case Nil
  then show ?case by (auto intro!: runs_then [OF next_item_runs] runs_return)
next
  case (Cons c cs)
  have push: "runs (http_step N C) (\<lambda>(_, _, st). sound_reading N target st)
      (io_then (io_lift (push_ingest N C target t (parser, st))) (\<lambda>(parser, st).
       if sr_result st \<noteq> None then io_return (parser, u, st)
       else read_chunks N C target deadline cs parser u st))" for t u
    by (rule runs_then [OF runs_lift]) (auto intro!: runs_if runs_return Cons.IH dest: push_ingest_sound [OF Cons.prems])
  show ?case unfolding read_chunks.simps
    by (rule runs_then [OF next_item_runs], rule runs_then [OF runs_lift], split prod.split, intro allI impI, rule push)
qed

lemma resume_runs: "runs (http_step N C) (\<lambda>_. True) (resume_sse_response N C i retry deadline)"
proof -
  have send: "runs (http_step N C) (\<lambda>_. True) (\<lambda>s. io_then (io_lift (apply_common_headers N C (hs_tokens (fst s)) (resume_call C (fst s) i)))
      (\<lambda>q. io_then (time_left N C deadline) (\<lambda>remaining.
       io_then (io_map_err f (on_world (hn_send_within N remaining q))) k)) s)"
    if k: "\<And>x. runs (http_step N C) (\<lambda>_. True) (k x)" for f k
    unfolding runs_def
  proof (intro allI impI conjI)
    fix s r s' x
    assume run: "io_then (io_lift (apply_common_headers N C (hs_tokens (fst s)) (resume_call C (fst s) i)))
      (\<lambda>q. io_then (time_left N C deadline) (\<lambda>remaining. io_then (io_map_err f (on_world (hn_send_within N remaining q))) k)) s = (r, s')"
    show "(http_step N C)\<^sup>*\<^sup>* s s'"
    proof (cases "apply_common_headers N C (hs_tokens (fst s)) (resume_call C (fst s) i)")
      case (Inr q)
      let ?n = "deadline - hn_now N (snd s)"
      show ?thesis
      proof (cases "?n = 0")
        case False
        have "http_step N C s (fst s, snd (hn_send_within N ?n q (snd s)))"
          using resumes [of N C "fst s" i q "snd s" ?n] Inr by simp
        moreover have "s' = (fst s, snd (hn_send_within N ?n q (snd s)))
          \<or> (\<exists>x. k x (fst s, snd (hn_send_within N ?n q (snd s))) = (r, s'))"
          using run Inr False by (auto simp: io_then_def io_lift_def io_map_err_def on_world_def time_left_def io_return_def Let_def
              map_err_def split: prod.splits sum.splits)
        moreover have "(http_step N C)\<^sup>*\<^sup>* t s'" if "k x t = (r, s')" for x t
          using k that unfolding runs_def by blast
        ultimately show ?thesis by (metis converse_rtranclp_into_rtranclp r_into_rtranclp)
      qed (use run Inr in \<open>auto simp: io_then_def io_lift_def time_left_def io_fail_def\<close>)
    qed (use run in \<open>auto simp: io_then_def io_lift_def\<close>)
  qed simp
  have sleep: "runs (http_step N C) (\<lambda>_. True) (on_world (\<lambda>w. (Inr (), hn_sleep N n w)))" for n
    by (rule runs_on_world) (simp add: sleeps)
  show ?thesis
    unfolding resume_sse_response_def
    by (rule runs_then [OF time_left_runs], rule runs_then [OF sleep], rule send) (auto simp: Let_def intro!: runs_intros)
qed

lemma one_stream_runs:
  fixes N :: "('u, 'w) http_net"
  assumes go_on: "\<And>f response st. continue = Some f \<Longrightarrow> sound_reading N target st \<Longrightarrow>
      runs (http_step N C) (sound_reading N target) (f response st)"
    and st: "sound_reading N target st"
  shows "runs (http_step N C) (sound_reading N target) (one_stream N C target deadline continue response st)"
proof (rule runs_at)
  fix s :: "('u, 'w) http_state"
  obtain chunks ending where body: "hn_body N response (snd s) = (chunks, ending)" by fastforce
  have again: "runs (http_step N C) (sound_reading N target) (if sr_result st \<noteq> None then io_return st
      else io_then (resume_sse_response N C (sr_last_event_id st) (sr_last_retry st) deadline) (\<lambda>again.
        case again of None \<Rightarrow> io_return st | Some response \<Rightarrow> f response st))"
    if "continue = Some f" "sound_reading N target st" for f st
    using that by (intro runs_if runs_return runs_then [OF resume_runs]) (auto intro: runs_return go_on split: option.split)
  have flush: "runs (http_step N C) (sound_reading N target) (case continue of
            None \<Rightarrow> (case ending of
                Broken err \<Rightarrow> io_fail (McHttp (hc_server C) err)
              | Ended \<Rightarrow> io_lift (flush_sse_finish N C target parser utf8 st))
          | Some go_on \<Rightarrow>
              io_then (io_lift (flush_sse_finish N C target parser utf8 st)) (\<lambda>st.
                if sr_result st \<noteq> None then io_return st
                else io_then (resume_sse_response N C (sr_last_event_id st) (sr_last_retry st) deadline) (\<lambda>again.
                  case again of None \<Rightarrow> io_return st | Some response \<Rightarrow> go_on response st)))"
    if st: "sound_reading N target st" for parser utf8 st
  proof (cases continue)
    case None
    have "runs (http_step N C) (sound_reading N target) (io_lift (flush_sse_finish N C target parser utf8 st))"
      by (rule runs_weaken [OF runs_lift]) (rule flush_sound [OF st])
    then show ?thesis using None by (simp add: runs_fail split: body_end.split)
  next
    case (Some f)
    show ?thesis unfolding Some option.case
      by (rule runs_then [OF runs_lift]) (rule again [OF Some flush_sound [OF st]])
  qed
  have "runs (http_step N C) (sound_reading N target)
      (io_then (read_chunks N C target deadline chunks \<lparr>buffer = [], max_buffer_bytes = DEFAULT_MAX_BUFFER_BYTES\<rparr> [] st)
        (\<lambda>(parser, utf8, st).
         if sr_result st \<noteq> None then io_return st
         else (case continue of
            None \<Rightarrow> (case ending of
                Broken err \<Rightarrow> io_fail (McHttp (hc_server C) err)
              | Ended \<Rightarrow> io_lift (flush_sse_finish N C target parser utf8 st))
          | Some go_on \<Rightarrow>
              io_then (io_lift (flush_sse_finish N C target parser utf8 st)) (\<lambda>st.
                if sr_result st \<noteq> None then io_return st
                else io_then (resume_sse_response N C (sr_last_event_id st) (sr_last_retry st) deadline) (\<lambda>again.
                  case again of None \<Rightarrow> io_return st | Some response \<Rightarrow> go_on response st)))))"
  proof (rule runs_then [OF read_chunks_runs [OF st]], split prod.split, intro allI impI, split prod.split, intro allI impI)
  qed (intro runs_if runs_return flush, simp_all)
  then show "\<exists>act. runs (http_step N C) (sound_reading N target) act
      \<and> one_stream N C target deadline continue response st s = act s"
    unfolding one_stream_def body Let_def prod.case by blast
qed

lemma read_streams_runs:
  "sound_reading N target st \<Longrightarrow> runs (http_step N C) (sound_reading N target) (read_streams N C target deadline k response st)"
proof (induction k arbitrary: response st)
  case 0
  have "read_streams N C target deadline 0 response st = one_stream N C target deadline None response st" by (simp add: fun_eq_iff)
  moreover have "runs (http_step N C) (sound_reading N target) (one_stream N C target deadline None response st)"
    by (rule one_stream_runs [OF _ 0]) simp
  ultimately show ?case by simp
next
  case (Suc k)
  have "read_streams N C target deadline (Suc k) response st = one_stream N C target deadline
       (if target = None then None else Some (\<lambda>response st. read_streams N C target deadline k response st)) response st"
    by (simp add: fun_eq_iff)
  moreover have "runs (http_step N C) (sound_reading N target) (one_stream N C target deadline
       (if target = None then None else Some (\<lambda>response st. read_streams N C target deadline k response st)) response st)"
  proof (rule one_stream_runs [OF _ Suc.prems])
    fix f response st
    assume "(if target = None then None else Some (\<lambda>response st. read_streams N C target deadline k response st)) = Some f"
      and st: "sound_reading N target st"
    then have "f = (\<lambda>response st. read_streams N C target deadline k response st)" by (simp split: if_splits)
    then show "runs (http_step N C) (sound_reading N target) (f response st)" using Suc.IH [OF st] by simp
  qed
  ultimately show ?case by simp
qed

lemma read_sse_until_runs: "runs (http_step N C) (sound_reading N target) (read_sse_until N C response target overall again)"
proof (rule runs_at)
  fix s
  show "\<exists>act. runs (http_step N C) (sound_reading N target) act \<and> read_sse_until N C response target overall again s = act s"
    unfolding read_sse_until_def by (rule exI, rule conjI [OF read_streams_runs refl]) (simp add: sound_reading_def)
qed

lemma first_result_genuine: "first_result N C tid evs = Inr (Some v) \<Longrightarrow> genuine_reply N tid v"
  by (induction evs) (auto simp: rbind_eq_Inr dest: sse_event_result_genuine split: option.splits)

lemma body_result_genuine:
  assumes "body_result N C tid content_type bytes = Inr v"
  shows "genuine_reply N tid v"
proof -
  have sse: "genuine_reply N tid v" if "sse_body_result N C tid content_type t = Inr v" for t
    using that by (auto simp: sse_body_result_def rbind_eq_Inr dest: first_result_genuine sse_event_result_genuine
        split: option.splits)
  show ?thesis using assms sse
    by (auto simp: body_result_def Let_def rbind_eq_Inr map_err_eq_Inr intro: extract_result_genuine split: if_splits)
qed

lemma read_result_runs: "runs (http_step N C) (genuine_reply N tid) (read_result N C tid deadline response)"
proof (rule runs_at)
  fix s
  have stream: "runs (http_step N C) (genuine_reply N tid) (io_then (read_sse_until N C response (Some tid) n True) (\<lambda>st.
      case sr_result st of Some v \<Rightarrow> io_return v | None \<Rightarrow> io_fail (f tid)))" for n f
    by (rule runs_then [OF read_sse_until_runs]) (auto simp: sound_reading_def intro: runs_return runs_fail split: option.split)
  have body: "runs (http_step N C) (genuine_reply N tid) (io_then (io_map_err g (on_world (hn_bytes N response))) (\<lambda>bytes.
      io_lift (body_result N C tid ct bytes)))" for g ct
    by (rule runs_then [OF runs_map_err [OF runs_on_world]], rule reads_bytes)
      (rule runs_weaken [OF runs_lift], rule body_result_genuine)
  show "\<exists>act. runs (http_step N C) (genuine_reply N tid) act \<and> read_result N C tid deadline response s = act s"
    unfolding read_result_def Let_def by (auto intro: stream body)
qed

lemma http_failure_runs: "runs (http_step N C) P (http_failure N C response label)"
  unfolding http_failure_def Let_def
  by (rule runs_match [OF runs_on_world], rule reads_text) (rule runs_fail)+

lemma handle_answer_runs: "runs (http_step N C) (genuine_reply N tid) (handle_answer N C tid deadline response)"
proof (rule runs_at)
  fix s
  have read: "runs (http_step N C) (genuine_reply N tid) (io_then (on_session (remember_session response)) (\<lambda>_. read_result N C tid deadline response))"
    by (rule runs_then [OF runs_on_session], rule remembers) (rule read_result_runs)
  show "\<exists>act. runs (http_step N C) (genuine_reply N tid) act \<and> handle_answer N C tid deadline response s = act s"
    unfolding handle_answer_def Let_def by (auto intro: read http_failure_runs runs_fail)
qed

lemma post_json_runs: "runs (http_step N C) (\<lambda>_. True) (post_json N C p)"
proof -
  have "post_json N C p = (\<lambda>s. io_then (io_lift (apply_common_headers N C (hs_tokens (fst s)) (post_call C (fst s) p)))
      (\<lambda>q. io_map_err (\<lambda>e. case e of
           None \<Rightarrow> McTimeout (hc_server C) (case payload_method p of Some m \<Rightarrow> m | None \<Rightarrow> ''unknown'')
         | Some err \<Rightarrow> McHttp (hc_server C) err)
         (on_world (hn_send_within N (hc_timeout C) q))) s)"
    by (simp add: post_json_def fun_eq_iff)
  moreover have "runs (http_step N C) (\<lambda>_. True) \<dots>"
    by (rule runs_call [where runs_here = "\<lambda>q s. apply_common_headers N C (hs_tokens (fst s)) (post_call C (fst s) p) = Inr q"])
      (auto intro: posts)
  ultimately show ?thesis by simp
qed

lemma answered_runs:
  "runs (http_step N C) (genuine_reply N tid) (io_then (post_json N C p) (handle_answer N C tid deadline))"
  by (rule runs_then [OF post_json_runs handle_answer_runs])

lemma request_once_runs: "runs (http_step N C) (\<lambda>v. \<exists>tid. genuine_reply N tid v) (request_once N C meth params)"
proof (rule runs_at)
  fix s
  have "runs (http_step N C) (\<lambda>v. \<exists>tid. genuine_reply N tid v) (io_then (on_session (\<lambda>S. S\<lparr>hs_next_id := hs_next_id S + 1\<rparr>)) (\<lambda>_.
      io_then (post_json N C (request_payload i meth params)) (handle_answer N C i deadline)))" for i deadline
    by (rule runs_then [OF runs_on_session], rule issues) (rule runs_weaken [OF answered_runs], blast)
  moreover have "request_once N C meth params s = io_then (on_session (\<lambda>S. S\<lparr>hs_next_id := hs_next_id S + 1\<rparr>)) (\<lambda>_.
      io_then (post_json N C (request_payload (hs_next_id (fst s)) meth params))
        (handle_answer N C (hs_next_id (fst s)) (hn_now N (snd s) + max (3 * hc_timeout C) (hc_timeout C)))) s"
    by (simp add: request_once_def Let_def io_then_def on_session_def)
  ultimately show "\<exists>act. runs (http_step N C) (\<lambda>v. \<exists>tid. genuine_reply N tid v) act \<and> request_once N C meth params s = act s"
    by blast
qed

lemma request_once_genuine:
  assumes "request_once N C meth params s = (Inr v, s')"
  shows "genuine_reply N (hs_next_id (fst s)) v"
proof -
  let ?i = "hs_next_id (fst s)"
  have "io_then (post_json N C (request_payload ?i meth params))
      (handle_answer N C ?i (hn_now N (snd s) + max (3 * hc_timeout C) (hc_timeout C))) ((fst s)\<lparr>hs_next_id := ?i + 1\<rparr>, snd s) = (Inr v, s')"
    using assms by (simp add: request_once_def Let_def io_then_def on_session_def)
  then show ?thesis using answered_runs [of N C ?i] unfolding runs_def by blast
qed

lemma notify_runs: "runs (http_step N C) (\<lambda>_. True) (notify N C meth params)"
  unfolding notify_def Let_def
  by (rule runs_then [OF post_json_runs]) (auto intro: runs_return http_failure_runs)

lemma apply_initialize_runs: "runs (http_step N C) (\<lambda>_. True) (apply_initialize_result C result)"
  unfolding apply_initialize_result_def
  by (auto intro!: runs_return runs_fail runs_on_session negotiates split: option.split)

lemmas greeted_runs = runs_then [OF apply_initialize_runs notify_runs]

lemma finish_initialize_runs: "runs (http_step N C) (\<lambda>_. True) (finish_initialize N C)"
  unfolding finish_initialize_def by (rule runs_then [OF request_once_runs greeted_runs])

lemma handle_unauthorized_runs: "runs (http_step N C) (\<lambda>_. True) (handle_unauthorized N C challenge)"
proof (cases "hc_oauth C")
  case (Some M)
  then show ?thesis unfolding handle_unauthorized_def Some option.case
    by (intro runs_then [OF runs_on_tokens [OF Some recover_access_token_runs]] runs_return) simp
qed (simp add: handle_unauthorized_def runs_fail)

lemma legacy_stream_runs: "runs (http_step N C) (\<lambda>_. True) (\<lambda>s. io_then (io_lift (apply_common_headers N C (hs_tokens (fst s)) (legacy_call C)))
    (\<lambda>q. io_map_err f (on_world (hn_send N q))) s)"
  by (rule runs_call [where runs_here = "\<lambda>q s. apply_common_headers N C (hs_tokens (fst s)) (legacy_call C) = Inr q"])
    (auto intro: falls_back)

lemma closing_runs: "runs (http_step N C) (\<lambda>_. True) (\<lambda>s. io_then
    (io_lift (case hs_session_id (fst s) of None \<Rightarrow> Inl e
       | Some i \<Rightarrow> apply_common_headers N C (hs_tokens (fst s)) (shutdown_call C (fst s) i)))
    (\<lambda>q. io_map_err f (on_world (hn_send N q))) s)"
  by (rule runs_call [where runs_here = "\<lambda>q s. \<exists>i. hs_session_id (fst s) = Some i
        \<and> apply_common_headers N C (hs_tokens (fst s)) (shutdown_call C (fst s) i) = Inr q"])
    (auto intro: closes split: option.splits)

lemma io_then_assoc: "io_then (\<lambda>s. io_then (io_lift (b s)) f s) k s = io_then (io_lift (b s)) (\<lambda>q. io_then (f q) k) s"
  by (simp add: io_then_def io_lift_def split: sum.split)

lemma legacy_runs: "runs (http_step N C) (\<lambda>_. True) (try_legacy_http_sse N C)"
proof -
  define k where "k = (\<lambda>response. if \<not> is_success (rs_status response)
       then io_fail (protocol_fail C (''legacy HTTP+SSE GET failed: HTTP '' @ hn_status_text N (rs_status response)))
       else io_then (read_sse_until N C response None 30000 False) (\<lambda>st.
         case endpoint_event (sr_events st) of
           None \<Rightarrow> io_fail (protocol_fail C ''legacy HTTP+SSE stream missing endpoint event'')
         | Some ev \<Rightarrow>
             io_then (io_lift (map_err (\<lambda>err. protocol_fail C (''invalid legacy endpoint URL: '' @ err))
               (uo_join (on_url (hn_oauth N)) (hc_endpoint C) (trim (sse_data ev))))) (\<lambda>u.
             io_then (on_session (\<lambda>S. S\<lparr>hs_legacy_url := Some u\<rparr>)) (\<lambda>_. finish_initialize N C))))"
  have redirect: "runs (http_step N C) (\<lambda>_. True) (io_then (io_lift (map_err g (uo_join (on_url (hn_oauth N)) (hc_endpoint C) d)))
      (\<lambda>u. io_then (on_session (\<lambda>S. S\<lparr>hs_legacy_url := Some u\<rparr>)) (\<lambda>_. finish_initialize N C)))" for g d
    by (rule runs_then [OF runs_lift], rule runs_then [OF runs_on_session finish_initialize_runs])
      (auto simp: map_err_eq_Inr intro: redirects)
  have "runs (http_step N C) (\<lambda>_. True) (k response)" for response
    unfolding k_def by (auto intro!: runs_fail runs_then [OF read_sse_until_runs] redirect split: option.split)
  then have "runs (http_step N C) (\<lambda>_. True) (io_then (\<lambda>s. io_then
      (io_lift (apply_common_headers N C (hs_tokens (fst s)) (legacy_call C)))
      (\<lambda>q. io_map_err (McHttp (hc_server C)) (on_world (hn_send N q))) s) k)"
    by (rule runs_then [OF legacy_stream_runs])
  moreover have "try_legacy_http_sse N C = io_then (\<lambda>s. io_then
      (io_lift (apply_common_headers N C (hs_tokens (fst s)) (legacy_call C)))
      (\<lambda>q. io_map_err (McHttp (hc_server C)) (on_world (hn_send N q))) s) k"
    by (rule ext) (simp add: try_legacy_http_sse_def io_then_assoc k_def)
  ultimately show ?thesis by simp
qed

lemma initialize_runs: "runs (http_step N C) (\<lambda>_. True) (initialize N C)"
proof -
  have again: "runs (http_step N C) (\<lambda>_. True) (io_then (handle_unauthorized N C challenge) (\<lambda>_. finish_initialize N C))" for challenge
    by (rule runs_then [OF handle_unauthorized_runs finish_initialize_runs])
  show ?thesis unfolding initialize_def
    by (rule runs_match [OF request_once_runs _ greeted_runs])
      (auto intro: again legacy_runs runs_fail split: mcp_error.split)
qed

text \<open>What happens before a request is sent again.\<close>

definition recover :: "('u, 'w) http_net \<Rightarrow> 'u http_client \<Rightarrow> mcp_error \<Rightarrow> ('u, 'w) http_state \<Rightarrow> (mcp_error + unit) \<times> ('u, 'w) http_state" where
  "recover N C e = (case e of
     McSessionExpired _ \<Rightarrow> io_then (on_session (\<lambda>S. S\<lparr>hs_session_id := None\<rparr>)) (\<lambda>_. initialize N C)
   | McUnauthorized _ challenge \<Rightarrow> handle_unauthorized N C challenge
   | _ \<Rightarrow> io_fail e)"

lemma client_request_eq:
  "client_request N C meth params = io_match (request_once N C meth params)
     (\<lambda>e. io_then (recover N C e) (\<lambda>_. request_once N C meth params)) io_return"
  by (auto simp: client_request_def recover_def io_match_def io_then_def io_fail_def on_session_def fun_eq_iff
      split: prod.split sum.split mcp_error.split)

lemma recover_runs: "runs (http_step N C) (\<lambda>_. True) (recover N C e)"
  unfolding recover_def
  by (auto intro!: handle_unauthorized_runs runs_fail runs_then [OF runs_on_session initialize_runs] forgets split: mcp_error.split)

lemma client_request_runs: "runs (http_step N C) (\<lambda>v. \<exists>tid. genuine_reply N tid v) (client_request N C meth params)"
  unfolding client_request_eq
  by (rule runs_match [OF request_once_runs]) (auto intro: runs_then [OF recover_runs request_once_runs] runs_return)

lemma shutdown_runs: "runs (http_step N C) (\<lambda>_. True) (shutdown N C)"
proof (rule runs_at)
  fix s
  have close: "runs (http_step N C) (\<lambda>_. True) (io_then (\<lambda>s. io_then
    (io_lift (case hs_session_id (fst s) of None \<Rightarrow> Inl (McUnknownServer [])
       | Some i \<Rightarrow> apply_common_headers N C (hs_tokens (fst s)) (shutdown_call C (fst s) i)))
    (\<lambda>q. io_map_err (McHttp (hc_server C)) (on_world (hn_send N q))) s) (\<lambda>_. on_session (\<lambda>S. S\<lparr>hs_session_id := None\<rparr>)))"
    by (rule runs_then [OF closing_runs]) (rule runs_on_session, rule forgets)
  show "\<exists>act. runs (http_step N C) (\<lambda>_. True) act \<and> shutdown N C s = act s"
  proof (cases "hs_session_id (fst s)")
    case None
    then show ?thesis by (auto simp: shutdown_def intro: runs_return)
  next
    case (Some i)
    show ?thesis by (rule exI, rule conjI [OF close]) (simp add: shutdown_def io_then_assoc Some)
  qed
qed

section \<open>Whole sessions\<close>

text \<open>The operations of a client, in any order.\<close>

datatype client_op = Initialize | Request string json | Notify string json | ListTools | Shutdown

fun client_do :: "('u, 'w) http_net \<Rightarrow> 'u http_client \<Rightarrow> client_op \<Rightarrow> ('u, 'w) http_state \<Rightarrow> ('u, 'w) http_state" where
  "client_do N C Initialize s = snd (initialize N C s)"
| "client_do N C (Request meth params) s = snd (client_request N C meth params s)"
| "client_do N C (Notify meth params) s = snd (notify N C meth params s)"
| "client_do N C ListTools s = snd (list_tools N C s)"
| "client_do N C Shutdown s = snd (shutdown N C s)"

definition session_of :: "('u, 'w) http_net \<Rightarrow> 'u http_client \<Rightarrow> client_op list \<Rightarrow> ('u, 'w) http_state \<Rightarrow> ('u, 'w) http_state" where
  "session_of N C ops s = fold (client_do N C) ops s"

lemma client_do_steps: "(http_step N C)\<^sup>*\<^sup>* s (client_do N C op s)"
proof (cases op)
  case ListTools
  have "runs (http_step N C) (\<lambda>_. True) (list_tools N C)"
    unfolding list_tools_def by (rule runs_then [OF client_request_runs]) (rule runs_return, simp)
  then show ?thesis using ListTools runs_world by fastforce
qed (auto intro: runs_world initialize_runs client_request_runs notify_runs shutdown_runs)

lemma session_steps: "(http_step N C)\<^sup>*\<^sup>* s (session_of N C ops s)"
  unfolding session_of_def
proof (induction ops arbitrary: s)
  case (Cons op ops)
  show ?case using rtranclp_trans [OF client_do_steps Cons.IH] by simp
qed simp

text \<open>Where a call may go, and what it carries beyond the headers of the protocol.\<close>

definition permitted_url :: "('u, 'w) http_net \<Rightarrow> 'u http_client \<Rightarrow> 'u \<Rightarrow> bool" where
  "permitted_url N C u \<longleftrightarrow> u = hc_endpoint C \<or> (\<exists>d. uo_join (on_url (hn_oauth N)) (hc_endpoint C) d = Inr u)"

definition protocol_headers :: "string set" where
  "protocol_headers = {''accept'', ''content-type'', HEADER_SESSION_ID, HEADER_PROTOCOL_VERSION, HEADER_LAST_EVENT_ID}"

definition confined_call :: "('u, 'w) http_net \<Rightarrow> 'u http_client \<Rightarrow> 'u http_call \<Rightarrow> bool" where
  "confined_call N C q \<longleftrightarrow> (hq_url q = hc_endpoint C \<or> (hq_verb q = POST \<and> permitted_url N C (hq_url q)))
     \<and> (\<exists>own auth. hq_headers q = own @ hc_headers C @ auth \<and> fst ` set own \<subseteq> protocol_headers
        \<and> (auth = [] \<or> (hc_oauth C \<noteq> None \<and> fst ` set auth = {''authorization''})))"

inductive http_io :: "('u, 'w) http_net \<Rightarrow> 'u http_client \<Rightarrow> 'w \<Rightarrow> 'w \<Rightarrow> bool" for N C where
  sends: "confined_call N C q \<Longrightarrow> http_io N C w (snd (hn_send N q w))"
| sends_within: "confined_call N C q \<Longrightarrow> http_io N C w (snd (hn_send_within N n q w))"
| logs_in: "hc_oauth C = Some M \<Longrightarrow> oauth_io (hn_oauth N) M w w' \<Longrightarrow> http_io N C w w'"
| waits: "http_io N C w (snd (hn_wait N n w))"
| sleeps: "http_io N C w (hn_sleep N n w)"
| reads_text: "http_io N C w (snd (hn_text N response w))"
| reads_bytes: "http_io N C w (snd (hn_bytes N response w))"

definition session_ok :: "('u, 'w) http_net \<Rightarrow> 'u http_client \<Rightarrow> 'u http_session \<Rightarrow> bool" where
  "session_ok N C S \<longleftrightarrow> hs_protocol_version S \<in> set supported_versions
     \<and> (case hs_legacy_url S of None \<Rightarrow> True | Some u \<Rightarrow> permitted_url N C u)"

lemma common_headers_confined:
  assumes "apply_common_headers N C tokens q = Inr q'" and "fst ` set (hq_headers q) \<subseteq> protocol_headers"
    and "hq_url q = hc_endpoint C \<or> (hq_verb q = POST \<and> permitted_url N C (hq_url q))"
  shows "confined_call N C q'"
proof -
  obtain auth where auth: "bearer_headers N C tokens = Inr auth" and q': "q' = q\<lparr>hq_headers := hq_headers q @ hc_headers C @ auth\<rparr>"
    using assms(1) by (auto simp: apply_common_headers_def rbind_eq_Inr)
  have "auth = [] \<or> (hc_oauth C \<noteq> None \<and> fst ` set auth = {''authorization''})"
    using auth by (auto simp: bearer_headers_def split: option.splits sum.splits mcp_error.splits)
  then show ?thesis using assms(2,3) q' by (auto simp: confined_call_def)
qed

lemmas own_headers = protocol_headers_def version_headers_def session_headers_def

lemma http_step_confined:
  assumes "http_step N C s s'" and "session_ok N C (fst s)"
  shows "session_ok N C (fst s') \<and> (http_io N C)\<^sup>*\<^sup>* (snd s) (snd s')"
  using assms
proof (induction rule: http_step.induct)
  case (remembers S w response)
  then show ?case by (auto simp: session_ok_def remember_session_def split: option.split)
next
  case (redirects d u S w)
  then show ?case by (auto simp: session_ok_def permitted_url_def)
next
  case (authorizes M S w t w')
  then have "w' = w \<or> oauth_io (hn_oauth N) M w w'" by (auto simp: oauth_effect_def)
  then show ?case using authorizes logs_in [of C M N w w'] by (auto simp: session_ok_def)
next
  case (posts S p q w)
  have "confined_call N C q"
    by (rule common_headers_confined [OF posts.hyps])
      (use posts.prems in \<open>auto simp: post_call_def own_headers session_ok_def split: option.splits\<close>)
  then show ?case using posts.prems by (auto intro: sends_within)
next
  case (resumes S i q n w)
  have "confined_call N C q"
    by (rule common_headers_confined [OF resumes.hyps]) (auto simp: resume_call_def own_headers split: option.splits)
  then show ?case using resumes.prems by (auto intro: sends_within)
next
  case (falls_back S q w)
  have "confined_call N C q"
    by (rule common_headers_confined [OF falls_back.hyps]) (auto simp: legacy_call_def own_headers)
  then show ?case using falls_back.prems by (auto intro: sends)
next
  case (closes S i q w)
  have "confined_call N C q"
    by (rule common_headers_confined [OF closes.hyps(2)]) (auto simp: shutdown_call_def own_headers)
  then show ?case using closes.prems by (auto intro: sends)
qed (auto simp: session_ok_def intro: http_io.intros)

lemma http_steps_confined:
  assumes "(http_step N C)\<^sup>*\<^sup>* s s'" and "session_ok N C (fst s)"
  shows "session_ok N C (fst s') \<and> (http_io N C)\<^sup>*\<^sup>* (snd s) (snd s')"
  using assms(1)
proof (induction rule: rtranclp_induct)
  case (step b c)
  then show ?case using http_step_confined [OF step.hyps(2)] by (auto intro: rtranclp_trans)
qed (simp add: assms(2))



end
