(* ===== verification/Mcp_Stdio.thy ===== *)
theory Mcp_Stdio
  imports Mcp_Http
begin

text \<open>
  The stdio transport of an MCP server (\<open>src/mcp/stdio_client/process.rs\<close>): where its child runs
  and with what environment, newline-delimited JSON frames over its pipes with a limit on their
  size, the wait for the answer of a request, and the shutdown of the child. Starting and stopping
  processes are parameters; what the child prints is a list of pieces that may be cut anywhere.
\<close>

section \<open>Where the child runs\<close>

definition MAX_STDIO_FRAME_BYTES :: nat where
  "MAX_STDIO_FRAME_BYTES = 1024 * 1024"

record mcp_isolation =
  iso_project_root :: "path option"
  iso_agent_id :: string

text \<open>
  What the child is given. \<open>sn_env\<close> is the environment of the agent, \<open>sn_probe\<close> the probe of the
  operating system's sandbox, \<open>sn_spawn\<close> starts a child and says which of its three pipes it has;
  \<open>sn_wait n\<close> waits at most \<open>n\<close> milliseconds for its end.
\<close>

record child_spec =
  ch_program :: path
  ch_args :: "string list"
  ch_cwd :: path
  ch_env :: "(string \<times> string) list"

datatype wait_outcome = Exited | WaitFailed string | StillRunning

record 'w stdio_net =
  sn_env :: "string \<Rightarrow> string option"
  sn_temp_dir :: path
  sn_uni :: "string \<Rightarrow> bool"
  sn_probe :: "string + unit"
  sn_create_dir_all :: "path \<Rightarrow> 'w \<Rightarrow> (string + unit) \<times> 'w"
  sn_spawn :: "child_spec \<Rightarrow> 'w \<Rightarrow> (string + bool \<times> bool \<times> bool) \<times> 'w"
  sn_write_all :: "string \<Rightarrow> 'w \<Rightarrow> (string + unit) \<times> 'w"
  sn_flush :: "'w \<Rightarrow> (string + unit) \<times> 'w"
  sn_wait :: "nat \<Rightarrow> 'w \<Rightarrow> wait_outcome \<times> 'w"
  sn_kill :: "'w \<Rightarrow> (string + unit) \<times> 'w"
  sn_json :: "string \<Rightarrow> string + json"
  sn_show_json :: "json \<Rightarrow> string"
  sn_encode :: "json \<Rightarrow> string + string"

definition ensure_stdio_sandbox_available :: "'w stdio_net \<Rightarrow> mcp_isolation \<Rightarrow> mcp_error + unit" where
  "ensure_stdio_sandbox_available N ctx =
     (if iso_project_root ctx = None then Inr ()
      else if sn_env N ''KUIBYSHEFF_ALLOW_UNSANDBOXED_MCP'' \<noteq> None then Inr ()
      else map_err (McSandboxUnavailable (if iso_agent_id ctx = [] then ''stdio'' else iso_agent_id ctx)) (sn_probe N))"

definition show_agent_path_error :: "agent_path_error \<Rightarrow> string" where
  "show_agent_path_error e = (case e of
     InvalidAgentId v \<Rightarrow> ''invalid agent id `'' @ v @ ''`: use letters/digits (any language), spaces, `_` or `-`; no path separators or reserved characters (`<>:''
       @ [CHR 0x22] @ ''/'' @ [CHR 0x5C] @ ''|?*`)''
   | InvalidHomePath \<Rightarrow> ''`--home` must be relative under `.kuibysheff/` and must not be under `protected/`''
   | HomeNotAllowed v \<Rightarrow> ''home path escapes `.kuibysheff/` or enters `protected/`: '' @ v
   | InvalidMcpServerName v \<Rightarrow> ''invalid MCP server name for runtime dir `'' @ v @ ''`'')"

definition resolve_isolated_cwd :: "'w stdio_net \<Rightarrow> string \<Rightarrow> mcp_stdio_config \<Rightarrow> mcp_isolation \<Rightarrow> mcp_error + path" where
  "resolve_isolated_cwd N server cfg ctx = (case iso_project_root ctx of
     None \<Rightarrow> (case st_cwd cfg of Some cwd \<Rightarrow> Inr cwd
       | None \<Rightarrow> Inr (path_join (path_join (sn_temp_dir N) ''kuibysheff-mcp'') server))
   | Some root \<Rightarrow>
       (if iso_agent_id ctx = [] then Inl (McIsolationDenied server ''agent id required for MCP runtime cwd'')
        else rbind (map_err (\<lambda>e. McIsolationDenied server (show_agent_path_error e))
               (mcp_runtime_dir (sn_uni N) root (iso_agent_id ctx) server)) (\<lambda>runtime.
          case st_cwd cfg of
            None \<Rightarrow> Inr runtime
          | Some configured \<Rightarrow>
              (let resolved = (if is_absolute configured then configured else path_join runtime configured) in
               if is_protected_path root resolved
               then Inl (McIsolationDenied server ''mcp.cwd must not point into the protected agent store'')
               else if \<not> path_is_within runtime resolved
               then Inl (McIsolationDenied server ''mcp.cwd must resolve under mcp-runtime for this agent'')
               else Inr resolved))))"

definition reject_protected_paths :: "string \<Rightarrow> mcp_stdio_config \<Rightarrow> path \<Rightarrow> mcp_isolation \<Rightarrow> mcp_error + unit" where
  "reject_protected_paths server cfg child_cwd ctx = (case iso_project_root ctx of
     None \<Rightarrow> Inr ()
   | Some root \<Rightarrow>
       (if is_protected_path root child_cwd
        then Inl (McIsolationDenied server ''MCP cwd is inside the protected agent store'')
        else if is_absolute (st_command cfg) \<and> is_protected_path root (st_command cfg)
        then Inl (McIsolationDenied server ''MCP command path is inside the protected agent store'')
        else Inr ()))"

section \<open>Command and arguments\<close>

definition resolve_child_cwd :: "mcp_stdio_config \<Rightarrow> path option \<Rightarrow> path option" where
  "resolve_child_cwd cfg config_dir = (case st_cwd cfg of
     Some p \<Rightarrow> Some (if is_absolute p then p else (case config_dir of Some d \<Rightarrow> path_join d p | None \<Rightarrow> p))
   | None \<Rightarrow> config_dir)"

definition resolve_against_base :: "string \<Rightarrow> path option \<Rightarrow> path" where
  "resolve_against_base raw base =
     (if is_absolute raw then raw else (case base of Some d \<Rightarrow> path_join d raw | None \<Rightarrow> raw))"

definition stdio_command_is_path_like :: "string \<Rightarrow> bool" where
  "stdio_command_is_path_like command \<longleftrightarrow> is_absolute command \<or> length (components command) > 1"

definition stdio_arg_is_path_like :: "string \<Rightarrow> bool" where
  "stdio_arg_is_path_like arg \<longleftrightarrow> is_absolute arg \<or> CHR ''/'' \<in> set arg \<or> CHR 0x5C \<in> set arg"

definition split_alias_path_arg :: "string \<Rightarrow> (string \<times> string) option" where
  "split_alias_path_arg arg = (case split_once (CHR ''='') arg of
     None \<Rightarrow> None
   | Some (name, p) \<Rightarrow>
       (if name = [] \<or> CHR ''/'' \<in> set name \<or> CHR 0x5C \<in> set name then None
        else if \<not> stdio_arg_is_path_like p then None else Some (name, p)))"

definition resolve_stdio_command :: "string \<Rightarrow> path option \<Rightarrow> string" where
  "resolve_stdio_command command child_cwd =
     (if stdio_command_is_path_like command then resolve_against_base command child_cwd else command)"

definition resolve_stdio_arg :: "string \<Rightarrow> path option \<Rightarrow> string" where
  "resolve_stdio_arg arg child_cwd = (case split_alias_path_arg arg of
     Some (name, p) \<Rightarrow> name @ ''='' @ resolve_against_base p child_cwd
   | None \<Rightarrow> (if stdio_arg_is_path_like arg then resolve_against_base arg child_cwd else arg))"

section \<open>Starting the child\<close>

text \<open>\<open>sc_open\<close>: the pipes are there; \<open>sc_child\<close>: the child is.\<close>

record stdio_client =
  sc_server :: string
  sc_timeout :: nat
  sc_child :: bool
  sc_open :: bool
  sc_next_id :: u64

text \<open>The environment before the configured variables: what is inherited, and the child's own places.\<close>

definition base_child_env :: "'w stdio_net \<Rightarrow> path \<Rightarrow> (string \<times> string) list" where
  "base_child_env N cwd =
     List.map_filter (\<lambda>k. map_option (Pair k) (sn_env N k)) [''PATH'', ''SystemRoot'', ''WINDIR'']
     @ [(''HOME'', cwd), (''TMP'', cwd), (''TEMP'', cwd)]"

fun add_child_env :: "string \<Rightarrow> (string \<times> string) list \<Rightarrow> (string \<times> string) list \<Rightarrow> mcp_error + (string \<times> string) list" where
  "add_child_env server [] env = Inr env"
| "add_child_env server ((k, v) # kvs) env =
     (if is_forbidden_inherit_env_key k then Inl (McIsolationDenied server (''forbidden MCP env key `'' @ k @ ''`''))
      else add_child_env server kvs (assoc_insert k v env))"

definition connect_isolated ::
  "'w stdio_net \<Rightarrow> string \<Rightarrow> mcp_stdio_config \<Rightarrow> u64 \<Rightarrow> mcp_isolation \<Rightarrow> 'w \<Rightarrow> (mcp_error + stdio_client) \<times> 'w" where
  "connect_isolated N server cfg timeout_ms ctx =
     io_then (io_lift (resolve_isolated_cwd N server cfg ctx)) (\<lambda>child_cwd.
     io_then (io_lift (reject_protected_paths server cfg child_cwd ctx)) (\<lambda>_.
     io_then (io_map_err (McSpawn server) (sn_create_dir_all N child_cwd)) (\<lambda>_.
     io_then (io_lift (add_child_env server (st_env cfg) (base_child_env N child_cwd))) (\<lambda>env.
     io_then (io_map_err (McSpawn server) (sn_spawn N \<lparr>
         ch_program = resolve_stdio_command (st_command cfg) (Some child_cwd),
         ch_args = map (\<lambda>arg. resolve_stdio_arg arg (Some child_cwd)) (st_args cfg),
         ch_cwd = child_cwd, ch_env = env\<rparr>)) (\<lambda>(stdin, stdout, stderr).
       if \<not> stdin then io_fail (McMissingPipe server ''stdin'')
       else if \<not> stdout then io_fail (McMissingPipe server ''stdout'')
       else if \<not> stderr then io_fail (McMissingPipe server ''stderr'')
       else io_return \<lparr>sc_server = server, sc_timeout = unat timeout_ms, sc_child = True, sc_open = True,
         sc_next_id = 1\<rparr>)))))"

section \<open>Frames\<close>

definition protocol_error :: "string \<Rightarrow> string \<Rightarrow> mcp_error" where
  "protocol_error server err = McProtocol server err"

definition FRAME_TOO_LONG :: string where
  "FRAME_TOO_LONG = ''MCP stdio frame exceeds max size''"

definition encode_ndjson_frame :: "'w stdio_net \<Rightarrow> json \<Rightarrow> string \<Rightarrow> mcp_error + string" where
  "encode_ndjson_frame N message server =
     rbind (map_err McJson (sn_encode N message)) (\<lambda>body.
       if length body + 1 > MAX_STDIO_FRAME_BYTES then Inl (protocol_error server FRAME_TOO_LONG)
       else Inr (body @ [LF]))"

definition strip_trailing_line_ending :: "string \<Rightarrow> string" where
  "strip_trailing_line_ending line =
     (let line = (if line \<noteq> [] \<and> last line = LF then butlast line else line) in
      if line \<noteq> [] \<and> last line = CR then butlast line else line)"

definition is_ascii_whitespace :: "char \<Rightarrow> bool" where
  "is_ascii_whitespace c \<longleftrightarrow> c = CHR '' '' \<or> c = CHR 0x09 \<or> c = LF \<or> c = CHR 0x0C \<or> c = CR"

definition trim_ascii_whitespace_start :: "string \<Rightarrow> string" where
  "trim_ascii_whitespace_start bytes = dropWhile is_ascii_whitespace bytes"

definition looks_like_content_length_framing :: "string \<Rightarrow> bool" where
  "looks_like_content_length_framing line =
     (let trimmed = trim_ascii_whitespace_start line; n = length ''content-length:'' in
      n \<le> length trimmed \<and> eq_ignore_ascii_case (take n trimmed) ''content-length:'')"

definition decode_ndjson_line :: "'w stdio_net \<Rightarrow> string \<Rightarrow> string \<Rightarrow> mcp_error + json" where
  "decode_ndjson_line N line server =
     (let line = strip_trailing_line_ending line in
      if looks_like_content_length_framing line
      then Inl (protocol_error server ''expected NDJSON, got Content-Length framing'')
      else map_err McJson (sn_json N line))"

text \<open>
  What the child prints, as \<open>fill_buf\<close> finds it: pieces, errors, and silence until the request that
  waits runs out of time. The end of the list, like an empty piece, is the end of the file. A
  failure without an error is the timeout of the request.
\<close>

datatype pipe_item = Bytes string | ReadFailed string | Silence

type_synonym pipe = "pipe_item list"

fun read_ndjson_line :: "string \<Rightarrow> string \<Rightarrow> pipe \<Rightarrow> (mcp_error option + string) \<times> pipe" where
  "read_ndjson_line server buf [] =
     (if buf = [] then Inl (Some (protocol_error server ''unexpected EOF from MCP server'')) else Inr buf, [])"
| "read_ndjson_line server buf (Silence # ps) = (Inl None, ps)"
| "read_ndjson_line server buf (ReadFailed e # ps) = (Inl (Some (McIo e)), ps)"
| "read_ndjson_line server buf (Bytes piece # ps) =
     (if piece = [] then
        (if buf = [] then Inl (Some (protocol_error server ''unexpected EOF from MCP server'')) else Inr buf, ps)
      else if LF \<in> set piece then
        (let line = takeWhile (\<lambda>c. c \<noteq> LF) piece @ [LF]; rest = drop (length line) piece in
         if length buf + length line > MAX_STDIO_FRAME_BYTES
         then (Inl (Some (protocol_error server FRAME_TOO_LONG)), Bytes piece # ps)
         else (Inr (buf @ line), if rest = [] then ps else Bytes rest # ps))
      else if length buf + length piece > MAX_STDIO_FRAME_BYTES
      then (Inl (Some (protocol_error server FRAME_TOO_LONG)), Bytes piece # ps)
      else read_ndjson_line server (buf @ piece) ps)"

definition pipe_bytes :: "pipe \<Rightarrow> nat" where
  "pipe_bytes ps = (\<Sum>p\<leftarrow>ps. case p of Bytes b \<Rightarrow> length b | _ \<Rightarrow> 0)"

lemma pipe_bytes_simps [simp]:
  "pipe_bytes [] = 0" "pipe_bytes (Bytes b # ps) = length b + pipe_bytes ps"
  "pipe_bytes (Silence # ps) = pipe_bytes ps" "pipe_bytes (ReadFailed e # ps) = pipe_bytes ps"
  by (simp_all add: pipe_bytes_def)

lemma takeWhile_line: "LF \<in> set piece \<Longrightarrow> piece = takeWhile (\<lambda>c. c \<noteq> LF) piece @ [LF] @ drop (Suc (length (takeWhile (\<lambda>c. c \<noteq> LF) piece))) piece"
proof (induction piece)
  case (Cons c piece)
  then show ?case by (cases "c = LF") auto
qed simp

lemma read_line_consumes:
  "read_ndjson_line server buf ps = (Inr line, ps') \<Longrightarrow> line \<noteq> [] \<and> length line + pipe_bytes ps' = length buf + pipe_bytes ps"
proof (induction server buf ps rule: read_ndjson_line.induct)
  case (4 server buf piece ps)
  show ?case
  proof (cases "piece \<noteq> [] \<and> LF \<in> set piece")
    case True
    have "length piece = Suc (length (takeWhile (\<lambda>c. c \<noteq> LF) piece)) + length (drop (Suc (length (takeWhile (\<lambda>c. c \<noteq> LF) piece))) piece)"
      using takeWhile_line [of piece] True by (metis append.assoc length_append length_append_singleton)
    then show ?thesis using 4(2) True by (auto simp: Let_def split: if_splits)
  next
    case False
    then show ?thesis using 4 by (auto split: if_splits)
  qed
qed (auto split: if_splits)

section \<open>The wait for an answer\<close>

definition read_frame :: "'w stdio_net \<Rightarrow> string \<Rightarrow> pipe \<Rightarrow> (mcp_error option + json) \<times> pipe" where
  "read_frame N server ps = (case read_ndjson_line server [] ps of
     (Inl e, ps) \<Rightarrow> (Inl e, ps)
   | (Inr line, ps) \<Rightarrow> (map_err Some (decode_ndjson_line N line server), ps))"

lemma read_frame_consumes:
  assumes "read_frame N server ps = (Inr m, ps')"
  shows "pipe_bytes ps' < pipe_bytes ps"
proof -
  obtain line where "read_ndjson_line server [] ps = (Inr line, ps')"
    using assms by (auto simp: read_frame_def split: prod.splits sum.splits)
  then have "line \<noteq> []" "length line + pipe_bytes ps' = pipe_bytes ps" using read_line_consumes [of server "[]" ps] by auto
  then show ?thesis by (cases line) auto
qed

function wait_for_response :: "'w stdio_net \<Rightarrow> string \<Rightarrow> u64 \<Rightarrow> pipe \<Rightarrow> (mcp_error option + json) \<times> pipe" where
  "wait_for_response N server target ps = (case read_frame N server ps of
     (Inl e, ps) \<Rightarrow> (Inl e, ps)
   | (Inr message, ps) \<Rightarrow>
       (if Option.bind (json_get message ''id'') json_as_u64 \<noteq> Some target then wait_for_response N server target ps
        else (case json_get message ''error'' of
            Some err \<Rightarrow> (Inl (Some (protocol_error server (sn_show_json N err))), ps)
          | None \<Rightarrow> (Inr (case json_get message ''result'' of Some v \<Rightarrow> v | None \<Rightarrow> JNull), ps))))"
  by pat_completeness auto
termination
  by (relation "measure (\<lambda>(N, server, target, ps). pipe_bytes ps)") (auto dest!: sym [where s = "(Inr _, _)"] read_frame_consumes)

declare wait_for_response.simps [simp del]

section \<open>The client\<close>

text \<open>The state: the client, what the child will print, the world.\<close>

type_synonym 'w stdio_state = "stdio_client \<times> pipe \<times> 'w"

definition on_child :: "('w \<Rightarrow> (string + 'a) \<times> 'w) \<Rightarrow> 'w stdio_state \<Rightarrow> (mcp_error + 'a) \<times> 'w stdio_state" where
  "on_child act = (\<lambda>(C, ps, w). let (r, w) = act w in (map_err McIo r, (C, ps, w)))"

definition write_frame :: "'w stdio_net \<Rightarrow> json \<Rightarrow> 'w stdio_state \<Rightarrow> (mcp_error + unit) \<times> 'w stdio_state" where
  "write_frame N message s =
     io_then (io_lift (encode_ndjson_frame N message (sc_server (fst s)))) (\<lambda>frame.
       if \<not> sc_open (fst s) then io_fail (protocol_error (sc_server (fst s)) ''stdio client already shut down'')
       else io_then (on_child (sn_write_all N frame)) (\<lambda>_. on_child (sn_flush N))) s"

definition stdio_notify :: "'w stdio_net \<Rightarrow> string \<Rightarrow> json \<Rightarrow> 'w stdio_state \<Rightarrow> (mcp_error + unit) \<times> 'w stdio_state" where
  "stdio_notify N meth params = write_frame N (notification_payload meth params)"

text \<open>Reading is only tried after a write, so the pipes are open.\<close>

definition await_answer :: "'w stdio_net \<Rightarrow> string \<Rightarrow> u64 \<Rightarrow> 'w stdio_state \<Rightarrow> (mcp_error + json) \<times> 'w stdio_state" where
  "await_answer N meth i = (\<lambda>(C, ps, w). (case wait_for_response N (sc_server C) i ps of
     (Inr v, ps) \<Rightarrow> (Inr v, (C, ps, w))
   | (Inl (Some e), ps) \<Rightarrow> (Inl e, (C, ps, w))
   | (Inl None, ps) \<Rightarrow> (Inl (McTimeout (sc_server C) meth), (C, ps, w))))"

definition stdio_request :: "'w stdio_net \<Rightarrow> string \<Rightarrow> json \<Rightarrow> 'w stdio_state \<Rightarrow> (mcp_error + json) \<times> 'w stdio_state" where
  "stdio_request N meth params s =
     (let i = sc_next_id (fst s); s = ((fst s)\<lparr>sc_next_id := i + 1\<rparr>, snd s) in
      io_then (write_frame N (request_payload i meth params)) (\<lambda>_. await_answer N meth i) s)"

definition stdio_initialize_params :: json where
  "stdio_initialize_params = JObject [(''capabilities'', JObject []),
     (''clientInfo'', JObject [(''name'', JString ''agent_Kuibysheff''), (''version'', JString ''0.1.0'')]),
     (''protocolVersion'', JString ''2024-11-05'')]"

definition stdio_initialize :: "'w stdio_net \<Rightarrow> 'w stdio_state \<Rightarrow> (mcp_error + unit) \<times> 'w stdio_state" where
  "stdio_initialize N = io_then (stdio_request N ''initialize'' stdio_initialize_params) (\<lambda>_.
     stdio_notify N ''notifications/initialized'' (JObject []))"

definition stdio_list_tools :: "'w stdio_net \<Rightarrow> 'w stdio_state \<Rightarrow> (mcp_error + string list) \<times> 'w stdio_state" where
  "stdio_list_tools N = io_then (stdio_request N ''tools/list'' (JObject [])) (\<lambda>response.
     io_return (tool_names_from_list_result response))"

definition shutdown_stdio_child :: "'w stdio_net \<Rightarrow> nat \<Rightarrow> 'w \<Rightarrow> 'w" where
  "shutdown_stdio_child N grace w = (case sn_wait N grace w of
     (StillRunning, w) \<Rightarrow> (case sn_kill N w of
         (Inl e, w) \<Rightarrow> w
       | (Inr (), w) \<Rightarrow> snd (sn_wait N grace w))
   | (_, w) \<Rightarrow> w)"

definition stdio_shutdown :: "'w stdio_net \<Rightarrow> 'w stdio_state \<Rightarrow> 'w stdio_state" where
  "stdio_shutdown N = (\<lambda>(C, ps, w). let C' = C\<lparr>sc_open := False, sc_child := False\<rparr> in
     if \<not> sc_child C then (C', ps, w) else (C', ps, shutdown_stdio_child N (sc_timeout C) w))"

section \<open>Pieces and frames\<close>

lemma prefix_before_LF:
  assumes eq: "piece @ others = line @ LF # rest" and LF: "LF \<notin> set line"
  shows "LF \<in> set piece \<Longrightarrow> takeWhile (\<lambda>c. c \<noteq> LF) piece = line \<and> drop (Suc (length line)) piece @ others = rest"
    and "LF \<notin> set piece \<Longrightarrow> \<exists>line'. line = piece @ line' \<and> others = line' @ LF # rest"
proof -
  from eq have cases: "(\<exists>us. piece = line @ us \<and> us @ others = LF # rest) \<or> (\<exists>us. piece @ us = line \<and> others = us @ LF # rest)"
    by (auto simp: append_eq_append_conv2)
  show "takeWhile (\<lambda>c. c \<noteq> LF) piece = line \<and> drop (Suc (length line)) piece @ others = rest" if piece: "LF \<in> set piece"
  proof -
    obtain us where us: "piece = line @ us" "us @ others = LF # rest" using cases piece LF by auto
    then obtain vs where "us = LF # vs" using piece LF by (cases us) auto
    moreover have "takeWhile (\<lambda>c. c \<noteq> LF) (line @ LF # vs) = line"
      by (subst takeWhile_append2) (use LF in auto)
    ultimately show ?thesis using us by auto
  qed
  show "\<exists>line'. line = piece @ line' \<and> others = line' @ LF # rest" if piece: "LF \<notin> set piece"
  proof -
    consider us where "piece = line @ us" "us @ others = LF # rest" | us where "piece @ us = line" "others = us @ LF # rest"
      using cases by blast
    then show ?thesis
    proof cases
      case 1
      then show ?thesis using piece by (cases us) auto
    qed auto
  qed
qed

lemma read_line_pieces:
  assumes "concat pieces = line @ LF # rest" "LF \<notin> set line" "[] \<notin> set pieces"
    "length buf + length line + 1 \<le> MAX_STDIO_FRAME_BYTES"
  shows "\<exists>pieces'. read_ndjson_line server buf (map Bytes pieces @ ps) = (Inr (buf @ line @ [LF]), map Bytes pieces' @ ps)
     \<and> concat pieces' = rest \<and> [] \<notin> set pieces'"
  using assms
proof (induction pieces arbitrary: buf line)
  case (Cons piece pieces)
  have eq: "piece @ concat pieces = line @ LF # rest" and ne: "piece \<noteq> []" "[] \<notin> set pieces" using Cons.prems by auto
  show ?case
  proof (cases "LF \<in> set piece")
    case True
    note found = prefix_before_LF(1) [OF eq Cons.prems(2) True]
    let ?rest = "drop (Suc (length line)) piece"
    show ?thesis
      by (rule exI [of _ "if ?rest = [] then pieces else ?rest # pieces"])
        (use True found ne Cons.prems(4) in \<open>auto simp: Let_def\<close>)
  next
    case False
    then obtain line' where line': "line = piece @ line'" "concat pieces = line' @ LF # rest"
      using prefix_before_LF(2) [OF eq Cons.prems(2)] by blast
    then show ?thesis using Cons.IH [of line' "buf @ piece"] Cons.prems ne False by auto
  qed
qed simp

text \<open>\<open>t\<close> is a line for message \<open>m\<close>.\<close>

definition line_of :: "'w stdio_net \<Rightarrow> string \<Rightarrow> json \<Rightarrow> bool" where
  "line_of N t m \<longleftrightarrow> sn_json N t = Inr m \<and> LF \<notin> set t \<and> (t = [] \<or> last t \<noteq> CR)
     \<and> \<not> looks_like_content_length_framing t \<and> length t + 1 \<le> MAX_STDIO_FRAME_BYTES"

lemma line_of_decodes: "line_of N t m \<Longrightarrow> decode_ndjson_line N (t @ [LF]) server = Inr m"
  by (auto simp: line_of_def decode_ndjson_line_def strip_trailing_line_ending_def Let_def)

definition answers :: "u64 \<Rightarrow> json \<Rightarrow> bool" where
  "answers target m \<longleftrightarrow> Option.bind (json_get m ''id'') json_as_u64 = Some target"

definition answer_of :: "'w stdio_net \<Rightarrow> string \<Rightarrow> json \<Rightarrow> mcp_error option + json" where
  "answer_of N server m = (case json_get m ''error'' of
     Some err \<Rightarrow> Inl (Some (protocol_error server (sn_show_json N err)))
   | None \<Rightarrow> Inr (case json_get m ''result'' of Some v \<Rightarrow> v | None \<Rightarrow> JNull))"

definition printed :: "(string \<times> json) list \<Rightarrow> string" where
  "printed lines = concat (map (\<lambda>(t, m). t @ [LF]) lines)"

lemma read_frame_pieces:
  assumes "concat pieces = t @ LF # rest" "line_of N t m" "[] \<notin> set pieces"
  shows "\<exists>pieces'. read_frame N server (map Bytes pieces @ ps) = (Inr m, map Bytes pieces' @ ps)
     \<and> concat pieces' = rest \<and> [] \<notin> set pieces'"
proof -
  obtain pieces' where "read_ndjson_line server [] (map Bytes pieces @ ps) = (Inr (t @ [LF]), map Bytes pieces' @ ps)"
    "concat pieces' = rest" "[] \<notin> set pieces'"
    using read_line_pieces [of pieces t rest "[]" server ps] assms by (auto simp: line_of_def)
  then show ?thesis using line_of_decodes [OF assms(2)] by (auto simp: read_frame_def map_err_def)
qed

text \<open>
  The wait for an answer is a search through the messages. However the operating system cuts
  what the child prints, waiting for the answer to a request skips whole messages without its id,
  notifications and late answers to earlier requests among them, takes the first with its id, and
  leaves exactly what was printed behind it for the next request; if there is none, it goes on with
  what comes after.
\<close>

theorem stdio_wait_is_search:
  assumes "list_all (\<lambda>(t, m). line_of N t m) lines" "concat pieces = printed lines" "[] \<notin> set pieces"
  shows "case dropWhile (\<lambda>(t, m). \<not> answers target m) lines of
     [] \<Rightarrow> wait_for_response N server target (map Bytes pieces @ ps) = wait_for_response N server target ps
   | (t, m) # later \<Rightarrow> (\<exists>pieces'. wait_for_response N server target (map Bytes pieces @ ps)
        = (answer_of N server m, map Bytes pieces' @ ps) \<and> concat pieces' = printed later \<and> [] \<notin> set pieces')"
  using assms
proof (induction lines arbitrary: pieces)
  case Nil
  then have "pieces = []" by (cases pieces) (auto simp: printed_def)
  then show ?case by simp
next
  case (Cons e lines)
  obtain t m where e: "e = (t, m)" by fastforce
  have "concat pieces = t @ LF # printed lines" and line: "line_of N t m" using Cons.prems e by (auto simp: printed_def)
  then obtain pieces' where read: "read_frame N server (map Bytes pieces @ ps) = (Inr m, map Bytes pieces' @ ps)"
    and rest: "concat pieces' = printed lines" "[] \<notin> set pieces'"
    using read_frame_pieces [of pieces t "printed lines" N m server ps] Cons.prems(3) by blast
  show ?case
  proof (cases "answers target m")
    case True
    then show ?thesis using read rest e
      by (auto simp: wait_for_response.simps [of N server target "map Bytes pieces @ ps"] answers_def answer_of_def
          split: option.split)
  next
    case False
    then have "wait_for_response N server target (map Bytes pieces @ ps) = wait_for_response N server target (map Bytes pieces' @ ps)"
      using read by (simp add: wait_for_response.simps [of N server target "map Bytes pieces @ ps"] answers_def)
    moreover have "dropWhile (\<lambda>(t, m). \<not> answers target m) (e # lines) = dropWhile (\<lambda>(t, m). \<not> answers target m) lines"
      using e False by simp
    ultimately show ?thesis using Cons.IH [OF _ rest] Cons.prems(1) by (simp only: list.pred_inject)
  qed
qed

text \<open>A late answer to request 1 and the answer to request 2, printed in two pieces.\<close>

definition late_answer :: json where
  "late_answer = JObject [(''id'', JNumber ''1''), (''result'', JString ''old'')]"

definition own_answer :: json where
  "own_answer = JObject [(''id'', JNumber ''2''), (''result'', JString ''new'')]"

definition sample_stdio_net :: "nat stdio_net" where
  "sample_stdio_net = \<lparr>sn_env = (\<lambda>k. None), sn_temp_dir = ''/tmp'', sn_uni = (\<lambda>c. False), sn_probe = Inr (),
     sn_create_dir_all = (\<lambda>p w. (Inr (), w)), sn_spawn = (\<lambda>c w. (Inr (True, True, True), w)),
     sn_write_all = (\<lambda>b w. (Inr (), w)), sn_flush = (\<lambda>w. (Inr (), w)), sn_wait = (\<lambda>n w. (Exited, w)),
     sn_kill = (\<lambda>w. (Inr (), w)),
     sn_json = (\<lambda>t. if t = ''one'' then Inr late_answer else if t = ''two'' then Inr own_answer else Inl ''bad''),
     sn_show_json = (\<lambda>v. []), sn_encode = (\<lambda>v. Inr ''x'')\<rparr>"

theorem stdio_wait_is_search_witness:
  "\<exists>pieces'. wait_for_response sample_stdio_net ''s'' 2 (map Bytes [''on'', ''e'' @ [LF] @ ''tw'', ''o'' @ [LF]] @ [])
     = (Inr (JString ''new''), map Bytes pieces' @ []) \<and> concat pieces' = [] \<and> [] \<notin> set pieces'"
  using stdio_wait_is_search [where N = sample_stdio_net and lines = "[(''one'', late_answer), (''two'', own_answer)]"
      and pieces = "[''on'', ''e'' @ [LF] @ ''tw'', ''o'' @ [LF]]" and target = 2 and server = "''s''" and ps = "[]"]
  by (simp add: sample_stdio_net_def line_of_def printed_def answers_def answer_of_def late_answer_def own_answer_def
      looks_like_content_length_framing_def trim_ascii_whitespace_start_def is_ascii_whitespace_def MAX_STDIO_FRAME_BYTES_def
      parse_u64_def parse_unsigned_def decimal_value_def is_ascii_digit_def)

section \<open>Isolation\<close>

text \<open>What may be started for a server: its place, its program and its environment.\<close>

definition isolated_spec ::
  "'w stdio_net \<Rightarrow> path \<Rightarrow> path \<Rightarrow> mcp_stdio_config \<Rightarrow> child_spec \<Rightarrow> bool" where
  "isolated_spec N root runtime cfg c \<longleftrightarrow>
     path_is_within runtime (ch_cwd c) \<and> \<not> is_protected_path root (ch_cwd c)
     \<and> (is_absolute (st_command cfg) \<longrightarrow> ch_program c = st_command cfg \<and> \<not> is_protected_path root (ch_program c))
     \<and> (\<forall>(k, v) \<in> set (ch_env c).
          (k \<in> {''PATH'', ''SystemRoot'', ''WINDIR''} \<and> sn_env N k = Some v)
        \<or> (k \<in> {''HOME'', ''TMP'', ''TEMP''} \<and> v = ch_cwd c)
        \<or> ((k, v) \<in> set (st_env cfg) \<and> \<not> is_forbidden_inherit_env_key k))"

inductive child_io ::
  "'w stdio_net \<Rightarrow> path \<Rightarrow> mcp_isolation \<Rightarrow> string \<Rightarrow> mcp_stdio_config \<Rightarrow> 'w \<Rightarrow> 'w \<Rightarrow> bool" for N root ctx server cfg where
  makes_dir: "mcp_runtime_dir (sn_uni N) root (iso_agent_id ctx) server = Inr runtime \<Longrightarrow>
    path_is_within runtime d \<Longrightarrow> \<not> is_protected_path root d \<Longrightarrow>
    child_io N root ctx server cfg w (snd (sn_create_dir_all N d w))"
| starts: "mcp_runtime_dir (sn_uni N) root (iso_agent_id ctx) server = Inr runtime \<Longrightarrow>
    isolated_spec N root runtime cfg c \<Longrightarrow> child_io N root ctx server cfg w (snd (sn_spawn N c w))"

lemma set_assoc_insert: "e \<in> set (assoc_insert k v kvs) \<Longrightarrow> e = (k, v) \<or> e \<in> set kvs"
  by (auto simp: assoc_insert_def assoc_remove_def)

lemma added_env:
  "add_child_env server kvs env = Inr env' \<Longrightarrow> (k, v) \<in> set env' \<Longrightarrow>
     (k, v) \<in> set env \<or> ((k, v) \<in> set kvs \<and> \<not> is_forbidden_inherit_env_key k)"
  by (induction server kvs env rule: add_child_env.induct) (auto split: if_splits dest: set_assoc_insert)

lemma in_map_filter: "e \<in> set (List.map_filter f xs) \<longleftrightarrow> (\<exists>x \<in> set xs. f x = Some e)"
  by (induction xs) (auto simp: List.map_filter_simps split: option.splits)

lemma base_env:
  "(k, v) \<in> set (base_child_env N cwd) \<Longrightarrow>
     (k \<in> {''PATH'', ''SystemRoot'', ''WINDIR''} \<and> sn_env N k = Some v) \<or> (k \<in> {''HOME'', ''TMP'', ''TEMP''} \<and> v = cwd)"
  unfolding base_child_env_def set_append Un_iff in_map_filter by auto

lemma isolated_cwd:
  assumes "iso_project_root ctx = Some root" "resolve_isolated_cwd N server cfg ctx = Inr cwd"
    "reject_protected_paths server cfg cwd ctx = Inr ()"
  obtains runtime where "mcp_runtime_dir (sn_uni N) root (iso_agent_id ctx) server = Inr runtime"
    "path_is_within runtime cwd" "\<not> is_protected_path root cwd"
    "is_absolute (st_command cfg) \<longrightarrow> \<not> is_protected_path root (st_command cfg)"
  using assms by (auto simp: resolve_isolated_cwd_def reject_protected_paths_def rbind_eq_Inr map_err_eq_Inr Let_def
      path_is_within_def split: if_splits option.splits)

text \<open>
  C21: the child of a stdio server is kept apart from the agent. Under a project, connecting to a
  server makes only its working directory and starts only a child that runs in the server's own
  runtime directory, outside the protected store; an absolute program lies outside that store; and
  the child's environment holds nothing of the agent's but its search path and system directories:
  every other variable names the child's directory or was configured for this server and cannot
  inject a library.
\<close>

theorem stdio_child_isolated:
  "case iso_project_root ctx of
     Some root \<Rightarrow> (child_io N root ctx server cfg)\<^sup>*\<^sup>* w (snd (connect_isolated N server cfg timeout_ms ctx w))
   | None \<Rightarrow> True"
proof (cases "iso_project_root ctx")
  case root: (Some root)
  let ?R = "child_io N root ctx server cfg"
  have spawn: "runs ?R (\<lambda>_. True) (io_map_err f (sn_spawn N c))"
    if "mcp_runtime_dir (sn_uni N) root (iso_agent_id ctx) server = Inr runtime" "isolated_spec N root runtime cfg c" for c f runtime
    by (rule runs_map_err, rule runs_step) (rule starts [OF that])
  have "runs ?R (\<lambda>_. True) (connect_isolated N server cfg timeout_ms ctx)"
    unfolding connect_isolated_def
  proof (rule runs_then [OF runs_lift], rule runs_then [OF runs_lift])
    fix cwd u
    assume "resolve_isolated_cwd N server cfg ctx = Inr cwd" "reject_protected_paths server cfg cwd ctx = Inr u"
    then obtain runtime where dir: "mcp_runtime_dir (sn_uni N) root (iso_agent_id ctx) server = Inr runtime"
      and cwd: "path_is_within runtime cwd" "\<not> is_protected_path root cwd"
      and program: "is_absolute (st_command cfg) \<longrightarrow> \<not> is_protected_path root (st_command cfg)"
      using isolated_cwd [OF root] by (metis old.unit.exhaust)
    have make: "runs ?R (\<lambda>_. True) (io_map_err f (sn_create_dir_all N cwd))" for f :: "string \<Rightarrow> mcp_error"
      by (rule runs_map_err, rule runs_step) (rule makes_dir [OF dir cwd])
    have spec: "isolated_spec N root runtime cfg \<lparr>ch_program = resolve_stdio_command (st_command cfg) (Some cwd),
         ch_args = args, ch_cwd = cwd, ch_env = env\<rparr>"
      if "add_child_env server (st_env cfg) (base_child_env N cwd) = Inr env" for env args
      using cwd program added_env [OF that] base_env [of _ _ N cwd]
      by (fastforce simp: isolated_spec_def resolve_stdio_command_def resolve_against_base_def stdio_command_is_path_like_def)
    show "runs ?R (\<lambda>_. True) (io_then (io_map_err (McSpawn server) (sn_create_dir_all N cwd)) (\<lambda>_.
     io_then (io_lift (add_child_env server (st_env cfg) (base_child_env N cwd))) (\<lambda>env.
     io_then (io_map_err (McSpawn server) (sn_spawn N \<lparr>
         ch_program = resolve_stdio_command (st_command cfg) (Some cwd),
         ch_args = map (\<lambda>arg. resolve_stdio_arg arg (Some cwd)) (st_args cfg),
         ch_cwd = cwd, ch_env = env\<rparr>)) (\<lambda>(stdin, stdout, stderr).
       if \<not> stdin then io_fail (McMissingPipe server ''stdin'')
       else if \<not> stdout then io_fail (McMissingPipe server ''stdout'')
       else if \<not> stderr then io_fail (McMissingPipe server ''stderr'')
       else io_return \<lparr>sc_server = server, sc_timeout = unat timeout_ms, sc_child = True, sc_open = True,
         sc_next_id = 1\<rparr>))))"
      by (rule runs_then [OF make], rule runs_then [OF runs_lift], rule runs_then [OF spawn [OF dir spec]])
        (auto intro: runs_fail runs_return)
  qed
  then show ?thesis using runs_world by (simp add: root)
qed simp

text \<open>
  A relative command is joined to the working directory only after the check, so it may lead into
  the protected store.
\<close>

lemma relative_command_not_checked:
  "reject_protected_paths ''s'' \<lparr>st_command = ''../../../protected/x'', st_args = [], st_env = [], st_cwd = None\<rparr>
      ''/p/.kuibysheff/mcp-runtime/a/s'' \<lparr>iso_project_root = Some ''/p'', iso_agent_id = ''a''\<rparr> = Inr ()
   \<and> is_protected_path ''/p'' (resolve_stdio_command ''../../../protected/x'' (Some ''/p/.kuibysheff/mcp-runtime/a/s''))"
  by code_simp

text \<open>
  A request that times out in the middle of a line loses what was read of it: the next request
  takes the rest of the line for a frame.
\<close>

lemma timeout_loses_half_a_frame:
  "read_ndjson_line server [] [Bytes ''{'', Silence, Bytes (''}'' @ [LF])] = (Inl None, [Bytes (''}'' @ [LF])])
   \<and> read_ndjson_line server [] [Bytes (''}'' @ [LF])] = (Inr (''}'' @ [LF]), [])"
  by (simp add: MAX_STDIO_FRAME_BYTES_def)

section \<open>Bounds\<close>

text \<open>
  Frames are bounded in both directions. No line read from a child and no frame written to it
  is longer than a mebibyte, however long the child goes on without a line break.
\<close>

theorem stdio_frames_bounded:
  "(case fst (read_ndjson_line server [] ps) of Inr line \<Rightarrow> length line \<le> 1048576 | Inl e \<Rightarrow> True)
   \<and> (case encode_ndjson_frame N m server of Inr frame \<Rightarrow> length frame \<le> 1048576 | Inl e \<Rightarrow> True)"
proof -
  have "length buf \<le> MAX_STDIO_FRAME_BYTES \<Longrightarrow>
      (case fst (read_ndjson_line server buf ps) of Inr line \<Rightarrow> length line \<le> MAX_STDIO_FRAME_BYTES | Inl e \<Rightarrow> True)" for buf
    by (induction server buf ps rule: read_ndjson_line.induct) (simp_all add: Let_def)
  from this [of "[]"] show ?thesis
    by (auto simp: MAX_STDIO_FRAME_BYTES_def encode_ndjson_frame_def rbind_def map_err_def split: sum.splits)
qed

end
