(* ===== verification/Mcp_Registry.thy ===== *)
theory Mcp_Registry
  imports Mcp_Stdio
begin

text \<open>
  The connected MCP servers of a run (\<open>src/mcp/stdio_client/registry.rs\<close>, \<open>executor.rs\<close>): connecting
  to every configured server and discovering its tools, the actor that owns a connection and serves
  the calls of all callers one by one, cancellation, calls of discovered tools with their audit
  entries, and shutdown.
\<close>

section \<open>Live connections\<close>

datatype 'u live_client =
    LiveStdio stdio_client pipe
  | LiveHttp "'u http_client" "'u http_session"

text \<open>\<open>ln_prints\<close> is what the child of a server will print, once it is started.\<close>

record ('u, 'w) live_net =
  ln_stdio :: "'w stdio_net"
  ln_http :: "('u, 'w) http_net"
  ln_prints :: "string \<Rightarrow> 'w \<Rightarrow> pipe"

type_synonym ('u, 'w) live_state = "'u live_client \<times> 'w"

definition live_request ::
  "('u, 'w) live_net \<Rightarrow> string \<Rightarrow> json \<Rightarrow> ('u, 'w) live_state \<Rightarrow> (mcp_error + json) \<times> ('u, 'w) live_state" where
  "live_request N meth params s = (case fst s of
     LiveStdio C ps \<Rightarrow> (let (r, C, ps, w) = stdio_request (ln_stdio N) meth params (C, ps, snd s) in (r, (LiveStdio C ps, w)))
   | LiveHttp C S \<Rightarrow> (let (r, S, w) = client_request (ln_http N) C meth params (S, snd s) in (r, (LiveHttp C S, w))))"

text \<open>A failed shutdown of a session is only logged.\<close>

definition live_shutdown :: "('u, 'w) live_net \<Rightarrow> ('u, 'w) live_state \<Rightarrow> ('u, 'w) live_state" where
  "live_shutdown N s = (case fst s of
     LiveStdio C ps \<Rightarrow> (let (C, ps, w) = stdio_shutdown (ln_stdio N) (C, ps, snd s) in (LiveStdio C ps, w))
   | LiveHttp C S \<Rightarrow> (let (r, S, w) = shutdown (ln_http N) C (S, snd s) in (LiveHttp C S, w)))"

definition live_list_tools ::
  "('u, 'w) live_net \<Rightarrow> ('u, 'w) live_state \<Rightarrow> (mcp_error + string list) \<times> ('u, 'w) live_state" where
  "live_list_tools N s = (case fst s of
     LiveStdio C ps \<Rightarrow> (let (r, C, ps, w) = stdio_list_tools (ln_stdio N) (C, ps, snd s) in (r, (LiveStdio C ps, w)))
   | LiveHttp C S \<Rightarrow> (let (r, S, w) = list_tools (ln_http N) C (S, snd s) in (r, (LiveHttp C S, w))))"

section \<open>Connecting\<close>

text \<open>A server of the registry: what it offers, its connection, the grace of its shutdown.\<close>

record 'u server_handle =
  sh_tools :: "string list"
  sh_client :: "'u live_client"
  sh_shutdown_timeout :: nat

definition open_live ::
  "('u, 'w) live_net \<Rightarrow> mcp_isolation \<Rightarrow> mcp_server_config \<Rightarrow> 'w \<Rightarrow> (mcp_error + 'u live_client) \<times> 'w" where
  "open_live N ctx cfg w = (case ms_transport cfg of
     Stdio stdio \<Rightarrow> (case connect_isolated (ln_stdio N) (ms_name cfg) stdio (ms_timeout_ms cfg) ctx w of
         (Inl e, w) \<Rightarrow> (Inl e, w)
       | (Inr C, w) \<Rightarrow> (case stdio_initialize (ln_stdio N) (C, ln_prints N (ms_name cfg) w, w) of
           (Inl e, (C, ps, w)) \<Rightarrow> (Inl e, w)
         | (Inr (), (C, ps, w)) \<Rightarrow> (Inr (LiveStdio C ps), w)))
   | Http http \<Rightarrow> (case connect (ln_http N) (ms_name cfg) http (ms_timeout_ms cfg) w of
         (Inl e, w) \<Rightarrow> (Inl e, w)
       | (Inr (C, S), w) \<Rightarrow> (Inr (LiveHttp C S), w)))"

text \<open>An audit sink writes an event, or fails.\<close>

type_synonym 'w event_sink = "string \<Rightarrow> json \<Rightarrow> 'w \<Rightarrow> (string + unit) \<times> 'w"

definition initialized_event :: "string \<Rightarrow> string list \<Rightarrow> json" where
  "initialized_event server offered = JObject [(''server'', JString server), (''tools'', JArray (map JString offered))]"

definition connect_server ::
  "('u, 'w) live_net \<Rightarrow> 'w event_sink option \<Rightarrow> mcp_isolation \<Rightarrow> mcp_server_config \<Rightarrow> 'w \<Rightarrow> (mcp_error + 'u server_handle) \<times> 'w" where
  "connect_server N logger ctx cfg =
     io_then (open_live N ctx cfg) (\<lambda>client w. (case live_list_tools N (client, w) of
       (Inl e, (client, w)) \<Rightarrow> (Inl e, w)
     | (Inr listed, (client, w)) \<Rightarrow>
         (let offered = remdups listed in
          io_then (case logger of
              None \<Rightarrow> io_return ()
            | Some write_event \<Rightarrow> io_map_err (\<lambda>e. McLogging (ms_name cfg))
                (write_event ''mcp_server_initialized'' (initialized_event (ms_name cfg) offered))) (\<lambda>_.
          io_return \<lparr>sh_tools = offered, sh_client = client,
            sh_shutdown_timeout = (case client of LiveStdio C ps \<Rightarrow> sc_timeout C | LiveHttp C S \<Rightarrow> 30000)\<rparr>)) w))"

type_synonym 'u servers = "(string \<times> 'u server_handle) list"

fun connect_servers ::
  "('u, 'w) live_net \<Rightarrow> 'w event_sink option \<Rightarrow> mcp_isolation \<Rightarrow> mcp_server_config list \<Rightarrow> 'u servers \<Rightarrow> 'w \<Rightarrow> (mcp_error + 'u servers) \<times> 'w" where
  "connect_servers N logger ctx [] servers = io_return servers"
| "connect_servers N logger ctx (cfg # cfgs) servers =
     io_then (connect_server N logger ctx cfg) (\<lambda>handle.
       connect_servers N logger ctx cfgs (assoc_insert (ms_name cfg) handle servers))"

definition needs_stdio :: "mcp_server_config list \<Rightarrow> bool" where
  "needs_stdio cfgs \<longleftrightarrow> list_ex (\<lambda>cfg. case ms_transport cfg of Stdio _ \<Rightarrow> True | Http _ \<Rightarrow> False) cfgs"

definition connect_all_isolated ::
  "('u, 'w) live_net \<Rightarrow> 'w event_sink option \<Rightarrow> mcp_isolation \<Rightarrow> mcp_server_config list \<Rightarrow> 'w \<Rightarrow> (mcp_error + 'u servers) \<times> 'w" where
  "connect_all_isolated N logger ctx cfgs =
     io_then (io_lift (if needs_stdio cfgs then ensure_stdio_sandbox_available (ln_stdio N) ctx else Inr ())) (\<lambda>_.
       connect_servers N logger ctx cfgs [])"

definition default_isolation :: mcp_isolation where
  "default_isolation = \<lparr>iso_project_root = None, iso_agent_id = []\<rparr>"

definition connect_all where
  "connect_all N logger cfgs = connect_all_isolated N logger default_isolation cfgs"

definition connect_all_with_config_dir where
  "connect_all_with_config_dir N logger cfgs config_dir = connect_all_isolated N logger
     (case config_dir of None \<Rightarrow> default_isolation | Some dir \<Rightarrow> default_isolation\<lparr>iso_project_root := path_parent dir\<rparr>) cfgs"

text \<open>The actors of a registry are told to stop one by one.\<close>

fun registry_shutdown :: "('u, 'w) live_net \<Rightarrow> 'u servers \<Rightarrow> 'w \<Rightarrow> 'w" where
  "registry_shutdown N [] w = w"
| "registry_shutdown N ((name, handle) # hs) w = registry_shutdown N hs (snd (live_shutdown N (sh_client handle, w)))"

section \<open>The caller's side\<close>

text \<open>
  What a caller of \<open>McpClientHandle::request\<close> gets: whether the run is cancelled when it starts,
  while it waits to send and while it waits for the reply, whether the channel is open and takes
  the request, and the reply, if the actor sends one.
\<close>

definition handle_request ::
  "string \<Rightarrow> bool \<Rightarrow> bool \<Rightarrow> bool \<Rightarrow> bool \<Rightarrow> bool \<Rightarrow> (mcp_error + json) option \<Rightarrow> mcp_error + json" where
  "handle_request server cancelled open_channel cancelled_sending sent cancelled_waiting reply =
     (if cancelled then Inl (McCancelled server)
      else if \<not> open_channel then Inl (McActorClosed server)
      else if cancelled_sending then Inl (McCancelled server)
      else if \<not> sent then Inl (McActorClosed server)
      else if cancelled_waiting then Inl (McCancelled server)
      else (case reply of None \<Rightarrow> Inl (McActorClosed server) | Some r \<Rightarrow> r))"

section \<open>The actor\<close>

text \<open>
  The task that owns one connection. Callers append to its channel, each under a number of its own;
  it serves them in turn, \<open>ask\<close> being a request on the connection and \<open>stop\<close> its shutdown. It
  stops when the run is cancelled, which it notices before it looks at the channel, or when every
  sender is gone and the channel is empty.
\<close>

record 'c actor =
  ac_conn :: 'c
  ac_channel :: "(nat \<times> string \<times> json) list"
  ac_closed :: bool
  ac_cancelled :: bool
  ac_stopped :: bool
  ac_sent :: "(nat \<times> string \<times> json) list"
  ac_replies :: "(nat \<times> (mcp_error + json)) list"

definition spawn_actor :: "'c \<Rightarrow> 'c actor" where
  "spawn_actor c = \<lparr>ac_conn = c, ac_channel = [], ac_closed = False, ac_cancelled = False, ac_stopped = False,
     ac_sent = [], ac_replies = []\<rparr>"

inductive actor_step ::
  "(string \<Rightarrow> json \<Rightarrow> 'c \<Rightarrow> (mcp_error + json) \<times> 'c) \<Rightarrow> ('c \<Rightarrow> 'c) \<Rightarrow> 'c actor \<Rightarrow> 'c actor \<Rightarrow> bool" for ask stop where
  sends: "\<not> ac_closed a \<Longrightarrow> \<not> ac_stopped a \<Longrightarrow> length (ac_channel a) < 32 \<Longrightarrow> i \<notin> fst ` set (ac_sent a) \<Longrightarrow>
    actor_step ask stop a (a\<lparr>ac_channel := ac_channel a @ [(i, meth, params)], ac_sent := ac_sent a @ [(i, meth, params)]\<rparr>)"
| cancels: "actor_step ask stop a (a\<lparr>ac_cancelled := True\<rparr>)"
| closes: "actor_step ask stop a (a\<lparr>ac_closed := True\<rparr>)"
| serves: "\<not> ac_stopped a \<Longrightarrow> \<not> ac_cancelled a \<Longrightarrow> ac_channel a = (i, meth, params) # rest \<Longrightarrow>
    ask meth params (ac_conn a) = (r, c) \<Longrightarrow>
    actor_step ask stop a (a\<lparr>ac_conn := c, ac_channel := rest, ac_replies := ac_replies a @ [(i, r)]\<rparr>)"
| stops: "\<not> ac_stopped a \<Longrightarrow> ac_cancelled a \<or> (ac_closed a \<and> ac_channel a = []) \<Longrightarrow>
    actor_step ask stop a (a\<lparr>ac_conn := stop (ac_conn a), ac_stopped := True, ac_channel := []\<rparr>)"

inductive_cases actor_step_cases: "actor_step ask stop a b"

text \<open>The specification: the requests asked one after the other, in the order they were sent.\<close>

fun ask_all ::
  "(string \<Rightarrow> json \<Rightarrow> 'c \<Rightarrow> (mcp_error + json) \<times> 'c) \<Rightarrow> (nat \<times> string \<times> json) list \<Rightarrow> 'c
     \<Rightarrow> (nat \<times> (mcp_error + json)) list \<times> 'c" where
  "ask_all ask [] c = ([], c)"
| "ask_all ask ((i, meth, params) # qs) c =
     (let (r, c) = ask meth params c; (rs, c) = ask_all ask qs c in ((i, r) # rs, c))"

lemma ask_all_snoc:
  "ask_all ask (qs @ [(i, meth, params)]) c =
     (let (rs, c) = ask_all ask qs c; (r, c) = ask meth params c in (rs @ [(i, r)], c))"
  by (induction qs arbitrary: c) (auto simp: Let_def split: prod.splits)

definition serial :: "(string \<Rightarrow> json \<Rightarrow> 'c \<Rightarrow> (mcp_error + json) \<times> 'c) \<Rightarrow> ('c \<Rightarrow> 'c) \<Rightarrow> 'c \<Rightarrow> 'c actor \<Rightarrow> bool" where
  "serial ask stop c a \<longleftrightarrow> (\<exists>served left c'. ac_sent a = served @ left \<and> ask_all ask served c = (ac_replies a, c')
     \<and> distinct (map fst (ac_sent a))
     \<and> (if ac_stopped a then ac_channel a = [] \<and> ac_conn a = stop c' else ac_channel a = left \<and> ac_conn a = c'))"

lemma serial_step:
  assumes "serial ask stop c a" and "actor_step ask stop a b"
  shows "serial ask stop c b"
proof -
  obtain served left c' where a: "ac_sent a = served @ left" "ask_all ask served c = (ac_replies a, c')"
    "distinct (map fst (ac_sent a))"
    "if ac_stopped a then ac_channel a = [] \<and> ac_conn a = stop c' else ac_channel a = left \<and> ac_conn a = c'"
    using assms(1) unfolding serial_def by blast
  from assms(2) show ?thesis
  proof cases
    case (sends i meth params)
    then show ?thesis unfolding serial_def
      by (intro exI [of _ served] exI [of _ "left @ [(i, meth, params)]"] exI [of _ c']) (use a in auto)
  next
    case (serves i meth params rest r c1)
    then have left: "left = (i, meth, params) # rest" "ac_conn a = c'" using a(4) by auto
    have "ask_all ask (served @ [(i, meth, params)]) c = (ac_replies a @ [(i, r)], c1)"
      using a(2) left serves(5) by (simp add: ask_all_snoc)
    then show ?thesis unfolding serial_def
      by (intro exI [of _ "served @ [(i, meth, params)]"] exI [of _ rest] exI [of _ c1]) (use a left serves in auto)
  next
    case stops
    then show ?thesis unfolding serial_def
      by (intro exI [of _ served] exI [of _ left] exI [of _ c']) (use a in auto)
  qed (use a in \<open>auto simp: serial_def\<close>)
qed

lemma serial_reachable: "(actor_step ask stop)\<^sup>*\<^sup>* (spawn_actor c) a \<Longrightarrow> serial ask stop c a"
proof (induction rule: rtranclp_induct)
  case base
  show ?case by (auto simp: serial_def spawn_actor_def)
qed (rule serial_step)

lemma cancelled_serves_nothing:
  "(actor_step ask stop)\<^sup>*\<^sup>* a b \<Longrightarrow> ac_cancelled a \<Longrightarrow> ac_cancelled b \<and> ac_replies b = ac_replies a"
proof (induction rule: rtranclp_induct)
  case (step b c)
  from step.hyps(2) step.IH [OF step.prems] show ?case by cases auto
qed simp

lemma replies_grow: "(actor_step ask stop)\<^sup>*\<^sup>* a b \<Longrightarrow> prefix (ac_replies a) (ac_replies b)"
proof (induction rule: rtranclp_induct)
  case (step b c)
  from step.hyps(2) step.IH show ?case by cases (auto intro: prefix_order.trans)
qed simp


text \<open>A connection that counts: one request sent and served, a second one sent before the cancellation.\<close>

definition counting_ask :: "string \<Rightarrow> json \<Rightarrow> nat \<Rightarrow> (mcp_error + json) \<times> nat" where
  "counting_ask meth params n = (Inr params, n + 1)"

definition cancelled_actor :: "nat actor" where
  "cancelled_actor = \<lparr>ac_conn = 1, ac_channel = [(1, ''b'', JNull)], ac_closed = False, ac_cancelled = True, ac_stopped = False,
     ac_sent = [(0, ''a'', JNull), (1, ''b'', JNull)], ac_replies = [(0, Inr JNull)]\<rparr>"

lemma cancelled_actor_reached: "(actor_step counting_ask id)\<^sup>*\<^sup>* (spawn_actor 0) cancelled_actor"
proof -
  let ?R = "actor_step counting_ask id"
  let ?a1 = "(spawn_actor 0)\<lparr>ac_channel := [(0, ''a'', JNull)], ac_sent := [(0, ''a'', JNull)]\<rparr>"
  let ?a2 = "?a1\<lparr>ac_conn := 1, ac_channel := [], ac_replies := [(0, Inr JNull)]\<rparr>"
  let ?a3 = "?a2\<lparr>ac_channel := [(1, ''b'', JNull)], ac_sent := [(0, ''a'', JNull), (1, ''b'', JNull)]\<rparr>"
  have "?R (spawn_actor 0) ?a1"
    using sends [of "spawn_actor 0" 0 counting_ask id "''a''" JNull] by (simp add: spawn_actor_def)
  moreover have "?R ?a1 ?a2"
    using serves [of ?a1 0 "''a''" JNull "[]" counting_ask "Inr JNull" 1 id] by (simp add: spawn_actor_def counting_ask_def)
  moreover have "?R ?a2 ?a3"
    using sends [of ?a2 1 counting_ask id "''b''" JNull] by (simp add: spawn_actor_def)
  moreover have "?R ?a3 cancelled_actor"
    using cancels [of counting_ask id ?a3] by (simp add: spawn_actor_def cancelled_actor_def)
  ultimately show ?thesis by (meson converse_rtranclp_into_rtranclp rtranclp.rtrancl_refl)
qed


section \<open>Calls of tools\<close>

text \<open>
  A connected registry: its servers, the request of a server's handle, and the audit sink. Every
  request may change the world.
\<close>

record ('u, 'w) mcp_registry =
  mr_servers :: "'u servers"
  mr_request :: "string \<Rightarrow> string \<Rightarrow> json \<Rightarrow> 'w \<Rightarrow> (mcp_error + json) \<times> 'w"
  mr_logger :: "'w event_sink option"

definition call_params :: "string \<Rightarrow> json \<Rightarrow> json" where
  "call_params t args = JObject [(''arguments'', args), (''name'', JString t)]"

definition call_discovered_tool ::
  "('u, 'w) mcp_registry \<Rightarrow> string \<Rightarrow> string \<Rightarrow> json \<Rightarrow> 'w \<Rightarrow> (mcp_error + json) \<times> 'w" where
  "call_discovered_tool R server t args = (case map_of (mr_servers R) server of
     None \<Rightarrow> io_fail (McUnknownServer server)
   | Some handle \<Rightarrow>
       (if t \<notin> set (sh_tools handle) then io_fail (McUnknownTool server t)
        else mr_request R server ''tools/call'' (call_params t args)))"

definition call_event_handler where
  "call_event_handler R server t args = call_discovered_tool R server t args"

definition call_billing_handler where
  "call_billing_handler R server t args = call_discovered_tool R server t args"

definition tool_call_event :: "string \<Rightarrow> string \<Rightarrow> json \<Rightarrow> json \<Rightarrow> json" where
  "tool_call_event server t args result = JObject [(''arguments'', args), (''result'', result),
     (''server'', JString server), (''tool'', JString t)]"

text \<open>\<open>ToolExecutor::call_tool\<close>: a failed audit entry is only logged.\<close>

definition registry_call ::
  "('u, 'w) mcp_registry \<Rightarrow> string \<Rightarrow> string \<Rightarrow> json \<Rightarrow> 'w \<Rightarrow> (tool_error + json) \<times> 'w" where
  "registry_call R server t args =
     io_then (io_map_err tool_error_of_mcp_error (call_discovered_tool R server t args)) (\<lambda>result.
       case mr_logger R of
         None \<Rightarrow> io_return result
       | Some write_event \<Rightarrow> io_match (write_event ''mcp_tool_call'' (tool_call_event server t args result))
           (\<lambda>_. io_return result) (\<lambda>_. io_return result))"

definition registry_available :: "('u, 'w) mcp_registry \<Rightarrow> string list" where
  "registry_available R = sort (concat (map (\<lambda>(server, handle). map (\<lambda>t. server @ ''.'' @ t) (sh_tools handle)) (mr_servers R)))"

definition registry_executor :: "('u, 'w) mcp_registry \<Rightarrow> 'w tool_executor" where
  "registry_executor R = \<lparr>call_tool = registry_call R, available_tools = registry_available R\<rparr>"

record mcp_tool_descriptor =
  mt_server :: string
  mt_name :: string
  mt_description :: "string option"
  mt_input_schema :: json

definition tool_descriptor_of :: "string \<Rightarrow> json \<Rightarrow> mcp_tool_descriptor option" where
  "tool_descriptor_of server entry = map_option (\<lambda>name. \<lparr>mt_server = server, mt_name = name,
     mt_description = Option.bind (json_get entry ''description'') json_as_str,
     mt_input_schema = (case json_get entry ''inputSchema'' of Some v \<Rightarrow> v | None \<Rightarrow> JObject [(''type'', JString ''object'')])\<rparr>)
     (Option.bind (json_get entry ''name'') json_as_str)"

definition descriptors_of :: "string \<Rightarrow> json \<Rightarrow> mcp_tool_descriptor list" where
  "descriptors_of server response = (case Option.bind (json_get response ''tools'') json_as_array of
     None \<Rightarrow> [] | Some listed \<Rightarrow> List.map_filter (tool_descriptor_of server) listed)"

fun list_descriptors ::
  "('u, 'w) mcp_registry \<Rightarrow> 'u servers \<Rightarrow> mcp_tool_descriptor list \<Rightarrow> 'w \<Rightarrow> (mcp_error + mcp_tool_descriptor list) \<times> 'w" where
  "list_descriptors R [] out = io_return out"
| "list_descriptors R ((server, handle) # hs) out =
     io_then (mr_request R server ''tools/list'' (JObject [])) (\<lambda>response.
       list_descriptors R hs (out @ descriptors_of server response))"

text \<open>Sorted by server, then by name.\<close>

definition list_tool_descriptors :: "('u, 'w) mcp_registry \<Rightarrow> 'w \<Rightarrow> (mcp_error + mcp_tool_descriptor list) \<times> 'w" where
  "list_tool_descriptors R = io_then (list_descriptors R (mr_servers R) []) (\<lambda>out.
     io_return (sort_key mt_server (sort_key mt_name out)))"

section \<open>What reaches a server\<close>

text \<open>The steps of an admitted call: the call itself, with its server and tool, and the audit entry.\<close>

inductive tool_io :: "('u, 'w) mcp_registry \<Rightarrow> effective_tool_policy \<Rightarrow> 'w \<Rightarrow> 'w \<Rightarrow> bool" for R policy where
  calls: "allows_server_tool policy server t \<Longrightarrow> map_of (mr_servers R) server = Some handle \<Longrightarrow> t \<in> set (sh_tools handle) \<Longrightarrow>
    tool_io R policy w (snd (mr_request R server ''tools/call'' (call_params t args) w))"
| audits: "mr_logger R = Some write_event \<Longrightarrow> allows_server_tool policy server t \<Longrightarrow>
    tool_io R policy w (snd (write_event ''mcp_tool_call'' (tool_call_event server t args result) w))"

lemma registry_call_runs:
  assumes "allows_server_tool policy server t"
  shows "runs (tool_io R policy) (\<lambda>_. True) (registry_call R server t args)"
proof -
  have call: "runs (tool_io R policy) (\<lambda>_. True) (call_discovered_tool R server t args)"
    unfolding call_discovered_tool_def
    by (auto intro!: runs_fail runs_step calls [OF assms] split: option.split)
  have log: "runs (tool_io R policy) (\<lambda>_. True) (io_match (write_event ''mcp_tool_call'' (tool_call_event server t args result))
      (\<lambda>_. io_return result) (\<lambda>_. io_return result))" if "mr_logger R = Some write_event" for write_event result
    by (rule runs_match [OF runs_step], rule audits [OF that assms]) (auto intro: runs_return)
  show ?thesis unfolding registry_call_def
    by (rule runs_then [OF runs_map_err [OF call]]) (auto intro: log runs_return split: option.split)
qed

lemma policy_registry_step: "(tool_io R policy)\<^sup>*\<^sup>* w (snd (policy_call (registry_executor R) policy server t args w))"
  using runs_world [OF registry_call_runs] by (auto simp: policy_call_def registry_executor_def)

text \<open>
  C17: nothing reaches an MCP server but admitted calls of discovered tools. Whatever calls the
  model makes through the policy, in whatever order, the world changes only by calls of a tool the
  policy admits and the server listed when it was connected, and by their audit entries.
\<close>

theorem only_discovered_tools_called:
  "(tool_io R policy)\<^sup>*\<^sup>* w (snd (run_calls (call_tool (policy_executor (registry_executor R) policy)) cs w))"
proof (induction cs arbitrary: w)
  case (Cons c cs)
  obtain server t args where c: "c = (server, t, args)" by (cases c)
  have "call_tool (policy_executor (registry_executor R) policy) server t args w
      = policy_call (registry_executor R) policy server t args w" by (simp add: policy_executor_def)
  then show ?case using Cons.IH policy_registry_step [of R policy w server t args]
    by (auto simp: c split_beta intro: rtranclp_trans)
qed simp

text \<open>
  An audit sink never changes what a tool answers. The outcome of a call is that of the call
  itself, with the errors of an unknown server or tool kept apart, whether there is a sink, and
  whether it fails; without one, nothing else happens to the world.
\<close>

theorem audit_never_fails_a_call:
  "fst (registry_call R server t args w) = map_err tool_error_of_mcp_error (fst (call_discovered_tool R server t args w))
   \<and> (case map_of (mr_servers R) server of
        None \<Rightarrow> registry_call R server t args w = (Inl (TExternal (UnknownServer server)), w)
      | Some handle \<Rightarrow> t \<in> set (sh_tools handle)
          \<or> registry_call R server t args w = (Inl (TExternal (EUnknownTool server t)), w))
   \<and> snd (registry_call (R\<lparr>mr_logger := None\<rparr>) server t args w) = snd (call_discovered_tool R server t args w)"
proof (cases "map_of (mr_servers R) server")
  case None
  then show ?thesis
    by (simp add: registry_call_def call_discovered_tool_def io_then_def io_map_err_def io_fail_def map_err_def
        tool_error_of_mcp_error_def external_of_mcp_error_def)
next
  case (Some handle)
  obtain r w1 where "mr_request R server ''tools/call'' (call_params t args) w = (r, w1)" by fastforce
  then show ?thesis using Some
    by (cases r) (auto simp: registry_call_def call_discovered_tool_def io_then_def io_map_err_def io_match_def io_return_def
        io_fail_def map_err_def tool_error_of_mcp_error_def external_of_mcp_error_def split: option.splits prod.splits sum.splits)
qed

text \<open>
  Without a sandbox no stdio server is connected. When a configured server talks over stdio,
  the project is known and nobody allowed unsandboxed servers, a failing probe of the sandbox ends
  the connection of all servers with its reason, before anything was started or sent.
\<close>

theorem no_stdio_without_sandbox:
  "if needs_stdio cfgs \<and> iso_project_root ctx \<noteq> None
      \<and> sn_env (ln_stdio N) ''KUIBYSHEFF_ALLOW_UNSANDBOXED_MCP'' = None
   then (case sn_probe (ln_stdio N) of
       Inl why \<Rightarrow> connect_all_isolated N logger ctx cfgs w
         = (Inl (McSandboxUnavailable (if iso_agent_id ctx = [] then ''stdio'' else iso_agent_id ctx) why), w)
     | Inr _ \<Rightarrow> connect_all_isolated N logger ctx cfgs w = connect_servers N logger ctx cfgs [] w)
   else connect_all_isolated N logger ctx cfgs w = connect_servers N logger ctx cfgs [] w"
  by (auto simp: connect_all_isolated_def ensure_stdio_sandbox_available_def io_then_def io_lift_def map_err_def split: sum.split)

end
