(* ===== verification/Io_Facts.thy ===== *)
theory Io_Facts
  imports Effects
begin

text \<open>Sequences that succeed, read backwards: what each of their parts answered.\<close>

lemma io_then_Inr:
  "io_then act k w = (Inr y, w') \<longleftrightarrow> (\<exists>x w1. act w = (Inr x, w1) \<and> k x w1 = (Inr y, w'))"
  by (auto simp: io_then_def split: prod.splits sum.splits)

lemma io_thenE:
  assumes "io_then act k w = (Inr y, w')"
  obtains x w1 where "act w = (Inr x, w1)" "k x w1 = (Inr y, w')"
  using assms by (auto simp: io_then_Inr)

lemma io_map_err_ok: "io_map_err f act w = (Inr x, w') \<longleftrightarrow> act w = (Inr x, w')"
  by (auto simp: io_map_err_def map_err_eq_Inr split: prod.splits)

lemma io_lift_ok: "io_lift r w = (Inr x, w') \<longleftrightarrow> r = Inr x \<and> w' = w"
  by (auto simp: io_lift_def)

lemma io_return_ok: "io_return x w = (Inr y, w') \<longleftrightarrow> y = x \<and> w' = w"
  by (auto simp: io_return_def)

lemma io_fail_ok [simp]: "io_fail e w \<noteq> (Inr y, w')"
  by (simp add: io_fail_def)

lemmas io_ok = io_then_Inr io_map_err_ok io_lift_ok io_return_ok

end
