(* ===== verification/Billing_Mcp.thy ===== *)
theory Billing_Mcp
  imports Mcp_Registry Config Io_Facts
begin

text \<open>
  The cost calculator behind an MCP server, \<open>billing/mcp.rs\<close>, and the chain of resolvers that
  \<open>build_billing_resolver\<close> of \<open>app.rs\<close> puts together from the configuration. The timer of tokio, the
  serialisation of an attempt and the texts of JSON values are parameters.
\<close>

section \<open>Reading the answer of the calculator\<close>

record 'd calculator_codec =
  cc_show :: "json \<Rightarrow> string"
  cc_from_str :: "string \<Rightarrow> string + json"
  cc_attempt :: "'d attempt_accounting \<Rightarrow> json"
  cc_decimal :: "'d decimal_ops"

definition json_str_at :: "json \<Rightarrow> string \<Rightarrow> string option" where
  "json_str_at v key = Option.bind (json_get v key) json_as_str"

definition payload_texts :: "json list \<Rightarrow> string list" where
  "payload_texts items = List.map_filter (\<lambda>item. json_str_at item ''text'')
     (filter (\<lambda>item. json_str_at item ''type'' = Some ''text'') items)"

definition call_tool_payload :: "'d calculator_codec \<Rightarrow> json \<Rightarrow> string + json" where
  "call_tool_payload K response =
     (if Option.bind (json_get response ''isError'') json_as_bool = Some True
      then Inl ''MCP CallToolResult set isError=true''
      else case json_get response ''structuredContent'' of
        Some structured \<Rightarrow> Inr structured
      | None \<Rightarrow> (case Option.bind (json_get response ''content'') json_as_array of
          None \<Rightarrow> Inl ''expected structuredContent or one JSON text content item''
        | Some items \<Rightarrow> (case payload_texts items of
            [t] \<Rightarrow> map_err (\<lambda>e. ''text content is not JSON: '' @ e) (cc_from_str K t)
          | _ \<Rightarrow> Inl ''compatibility result must contain exactly one text item'')))"

definition parse_line_item :: "'d calculator_codec \<Rightarrow> json \<Rightarrow> string + 'd cost_line_item" where
  "parse_line_item K item =
     rbind (case json_str_at item ''metric'' of
         None \<Rightarrow> Inl ''line item metric must be a string''
       | Some name \<Rightarrow> map_err billing_error_str (metric_from_str name)) (\<lambda>m.
     rbind (case Option.bind (json_get item ''quantity'') json_as_u64 of
         None \<Rightarrow> Inl ''line item quantity must be an unsigned integer''
       | Some q \<Rightarrow> Inr q) (\<lambda>q.
     rbind (case json_get item ''amount'' of
         None \<Rightarrow> Inl ''line item amount is required''
       | Some v \<Rightarrow> map_err billing_error_str (decimal_from_value (cc_show K) (cc_decimal K) v)) (\<lambda>a.
     Inr \<lparr>metric = m, quantity = q, li_amount = a\<rparr>)))"

definition parse_line_items :: "'d calculator_codec \<Rightarrow> json \<Rightarrow> string + 'd cost_line_item list" where
  "parse_line_items K v = (case json_get v ''line_items'' of
     None \<Rightarrow> Inr []
   | Some items \<Rightarrow> (case json_as_array items of
       None \<Rightarrow> Inl ''line_items must be an array''
     | Some xs \<Rightarrow> try_map (parse_line_item K) xs))"

definition precision_of :: "string option \<Rightarrow> string + cost_precision" where
  "precision_of name = (case name of
     None \<Rightarrow> Inr Calculated
   | Some n \<Rightarrow>
       if n = ''actual'' then Inr Actual
       else if n = ''estimated'' then Inr Estimated
       else if n = ''calculated'' then Inr Calculated
       else Inl (''unknown MCP precision `'' @ n @ ''`''))"

section \<open>The resolver\<close>

record ('d, 'u, 'w) mcp_cost_resolver =
  mc_registry :: "('u, 'w) mcp_registry"
  mc_server :: string
  mc_tool :: string
  mc_target :: string
  mc_currency :: string
  mc_timeout :: nat
  mc_logger :: "'w event_sink option"

definition mcp_resolver_new ::
  "('u, 'w) mcp_registry \<Rightarrow> string \<Rightarrow> string \<Rightarrow> string \<Rightarrow> u64 \<Rightarrow> 'w event_sink option
   \<Rightarrow> billing_error + ('d, 'u, 'w) mcp_cost_resolver" where
  "mcp_resolver_new R server t target timeout_ms sink =
     rbind (validate_currency target) (\<lambda>_. Inr \<lparr>mc_registry = R, mc_server = server, mc_tool = t,
       mc_target = server @ ''.'' @ t, mc_currency = target, mc_timeout = unat timeout_ms, mc_logger = sink\<rparr>)"

text \<open>The answer to a call that returned: a price, or the reason there is none.\<close>

definition read_price :: "'d calculator_codec \<Rightarrow> ('d, 'u, 'w) mcp_cost_resolver \<Rightarrow> json \<Rightarrow> string + 'd priced" where
  "read_price K M v =
     (let status = case json_str_at v ''status'' of Some s \<Rightarrow> s | None \<Rightarrow> [] in
      if status = ''unpriced''
      then Inl (case json_str_at v ''reason'' of Some r \<Rightarrow> r | None \<Rightarrow> ''MCP calculator returned unpriced'')
      else if status \<noteq> ''priced'' then Inl ''MCP result status must be `priced` or `unpriced`''
      else case json_get v ''amount'' of None \<Rightarrow> Inl ''MCP priced result has no amount'' | Some amount_value \<Rightarrow>
        rbind (map_err billing_error_str (decimal_from_value (cc_show K) (cc_decimal K) amount_value)) (\<lambda>amt.
        let unit = case json_str_at v ''currency'' of Some s \<Rightarrow> s | None \<Rightarrow> [] in
        if unit \<noteq> mc_currency M
        then Inl (''MCP currency `'' @ unit @ ''` differs from target `'' @ mc_currency M @ ''`'')
        else
          rbind (map_err billing_error_str (money_new amt unit)) (\<lambda>m.
          rbind (precision_of (json_str_at v ''precision'')) (\<lambda>prec.
          rbind (parse_line_items K v) (\<lambda>items.
          Inr \<lparr>p_money = m, p_source = ''mcp:'' @ mc_target M, p_precision = prec,
            p_version = json_str_at v ''pricing_version'', p_line_items = items\<rparr>)))))"

text \<open>
  \<open>tokio::time::timeout\<close>: the call is run under a timer that answers \<open>None\<close> when it is over first;
  the call may have done part of its work then.
\<close>

type_synonym ('a, 'w) timer = "nat \<Rightarrow> ('w \<Rightarrow> 'a \<times> 'w) \<Rightarrow> 'w \<Rightarrow> 'a option \<times> 'w"

definition calculator_arguments :: "'d calculator_codec \<Rightarrow> string \<Rightarrow> 'd attempt_accounting \<Rightarrow> json" where
  "calculator_arguments K target a = JObject [(''request'', cc_attempt K a),
     (''schema_version'', JString ''1''), (''target_currency'', JString target)]"

definition resolve_inner ::
  "'d calculator_codec \<Rightarrow> (mcp_error + json, 'w) timer \<Rightarrow> ('d, 'u, 'w) mcp_cost_resolver \<Rightarrow> ('d, 'w) resolver" where
  "resolve_inner K timer M a w =
     (let (answer, w) = timer (mc_timeout M)
            (call_billing_handler (mc_registry M) (mc_server M) (mc_tool M) (calculator_arguments K (mc_currency M) a)) w in
      (case answer of
         None \<Rightarrow> Unpriced (''MCP calculator timed out after '' @ show_nat (mc_timeout M) @ '' ms'')
       | Some (Inl e) \<Rightarrow> Unpriced (show_mcp_error e)
       | Some (Inr response) \<Rightarrow> (case rbind (call_tool_payload K response) (read_price K M) of
             Inl why \<Rightarrow> Unpriced why
           | Inr p \<Rightarrow> Priced p), w))"

definition opt_json :: "string option \<Rightarrow> json" where
  "opt_json s = (case s of None \<Rightarrow> JNull | Some t \<Rightarrow> JString t)"

definition resolution_event ::
  "('d, 'u, 'w) mcp_cost_resolver \<Rightarrow> 'd attempt_accounting \<Rightarrow> 'd cost_resolution \<Rightarrow> nat \<Rightarrow> json" where
  "resolution_event M a resolution ms = (let (ok, why) = (case resolution of
       Priced _ \<Rightarrow> (True, None) | Unpriced why \<Rightarrow> (False, Some why)) in
     JObject [(''duration_ms'', JNumber (show_nat ms)), (''model'', JString (model_for_pricing a)),
       (''priced'', JBool ok), (''reason'', opt_json why), (''request_id'', opt_json (request_id a)),
       (''target'', JString (mc_target M))])"

definition resolution_audit ::
  "('d, 'u, 'w) mcp_cost_resolver \<Rightarrow> 'd attempt_accounting \<Rightarrow> 'd cost_resolution \<Rightarrow> nat \<Rightarrow> 'w \<Rightarrow> 'w" where
  "resolution_audit M a resolution ms w = (case mc_logger M of
     None \<Rightarrow> w
   | Some write_event \<Rightarrow> snd (write_event ''billing_mcp_resolution'' (resolution_event M a resolution ms) w))"

text \<open>\<open>now\<close> reads the monotonic clock in milliseconds.\<close>

definition mcp_resolve ::
  "'d calculator_codec \<Rightarrow> (mcp_error + json, 'w) timer \<Rightarrow> ('w \<Rightarrow> nat \<times> 'w) \<Rightarrow> ('d, 'u, 'w) mcp_cost_resolver
   \<Rightarrow> ('d, 'w) resolver" where
  "mcp_resolve K timer now M a w =
     (let (started, w) = now w;
          (resolution, w) = resolve_inner K timer M a w;
          (finished, w) = now w in
      (resolution, resolution_audit M a resolution (finished - started) w))"

section \<open>The chain of a configuration\<close>

definition in_context :: "string \<Rightarrow> string \<Rightarrow> string" where
  "in_context what why = what @ '': '' @ why"

text \<open>\<open>PricingCatalog::load\<close>, over what reading the file gives and the two parsers of serde.\<close>

definition catalog_load ::
  "(string \<Rightarrow> string + 'd pricing_catalog) \<Rightarrow> (string \<Rightarrow> string + 'd pricing_catalog)
   \<Rightarrow> (path \<Rightarrow> 'w \<Rightarrow> (string + string) \<times> 'w) \<Rightarrow> path \<Rightarrow> 'w \<Rightarrow> (billing_error + 'd pricing_catalog) \<times> 'w" where
  "catalog_load from_json from_yaml read p =
     io_then (io_map_err (ReadCatalog p) (read p)) (\<lambda>contents.
     io_then (io_lift (map_err ParseCatalog
       (if path_extension p = Some ''json'' then from_json contents else from_yaml contents))) (\<lambda>c.
     io_then (io_lift (catalog_validate c)) (\<lambda>_. io_return c)))"

definition catalog_file :: "path \<Rightarrow> path \<Rightarrow> path" where
  "catalog_file config_path p =
     (if is_absolute p then p
      else path_join (case path_parent config_path of Some d \<Rightarrow> d | None \<Rightarrow> ''.'') p)"

definition catalog_source ::
  "'d decimal_ops \<Rightarrow> (path \<Rightarrow> 'w \<Rightarrow> (billing_error + 'd pricing_catalog) \<times> 'w) \<Rightarrow> billing_config \<Rightarrow> path
   \<Rightarrow> 'w \<Rightarrow> (string + (string \<times> ('d, 'w) resolver) option) \<times> 'w" where
  "catalog_source D load b config_path = (case bc_catalog_path b of
     None \<Rightarrow> io_return None
   | Some p \<Rightarrow>
       io_then (io_map_err (in_context ''loading pricing catalog'' \<circ> billing_error_str) (load (catalog_file config_path p))) (\<lambda>c.
       io_then (io_lift (map_err (in_context ''configuring pricing catalog'' \<circ> billing_error_str)
         (catalog_resolver_new c (bc_currency b)))) (\<lambda>cr.
       io_return (Some (''catalog'', pure_resolver (catalog_resolve D cr))))))"

definition mcp_source ::
  "'d calculator_codec \<Rightarrow> (mcp_error + json, 'w) timer \<Rightarrow> ('w \<Rightarrow> nat \<times> 'w) \<Rightarrow> billing_config
   \<Rightarrow> (string \<times> string) option \<Rightarrow> ('u, 'w) mcp_registry option \<Rightarrow> 'w event_sink option
   \<Rightarrow> string + (string \<times> ('d, 'w) resolver) option" where
  "mcp_source K timer now b target registry sink = (case target of
     None \<Rightarrow> Inr None
   | Some (server, t) \<Rightarrow> (case registry of
       None \<Rightarrow> Inr (Some (''mcp'', unavailable_resolver ''optional billing MCP failed to connect''))
     | Some R \<Rightarrow>
         (if server @ ''.'' @ t \<in> set (registry_available R)
          then rbind (map_err (in_context ''configuring billing MCP resolver'' \<circ> billing_error_str)
            (mcp_resolver_new R server t (bc_currency b)
              (case bc_mcp b of None \<Rightarrow> 5000 | Some m \<Rightarrow> bm_timeout_ms m) sink)) (\<lambda>M.
            Inr (Some (''mcp'', mcp_resolve K timer now M)))
          else Inr (Some (''mcp'', unavailable_resolver
            (''configured target `'' @ server @ ''.'' @ t @ ''` was not discovered''))))))"

definition source_resolver ::
  "'r \<Rightarrow> 'r option \<Rightarrow> 'r option \<Rightarrow> billing_source \<Rightarrow> 'r option" where
  "source_resolver provider mcp cat source = (case source of
     FromProvider \<Rightarrow> Some provider | FromMcp \<Rightarrow> mcp | FromCatalog \<Rightarrow> cat)"

definition build_billing_resolver ::
  "'d calculator_codec \<Rightarrow> (mcp_error + json, 'w) timer \<Rightarrow> ('w \<Rightarrow> nat \<times> 'w)
   \<Rightarrow> (path \<Rightarrow> 'w \<Rightarrow> (billing_error + 'd pricing_catalog) \<times> 'w)
   \<Rightarrow> billing_config \<Rightarrow> path \<Rightarrow> (string \<times> string) option \<Rightarrow> ('u, 'w) mcp_registry option \<Rightarrow> 'w event_sink option
   \<Rightarrow> 'w \<Rightarrow> (string + (string \<times> ('d, 'w) resolver) list) \<times> 'w" where
  "build_billing_resolver K timer now load b config_path target registry sink =
     io_then (io_lift (map_err (in_context ''configuring provider-reported billing'' \<circ> billing_error_str)
       (provider_reported_new (bc_currency b) (prc_unit (bc_provider_reported b))))) (\<lambda>provider.
     io_then (catalog_source (cc_decimal K) load b config_path) (\<lambda>cat.
     io_then (io_lift (mcp_source K timer now b target registry sink)) (\<lambda>mcp.
     io_return (List.map_filter (source_resolver (''provider_reported'', pure_resolver (provider_reported_resolve provider)) mcp cat)
       (bc_source_order b)))))"

section \<open>Only prices in the target currency\<close>

lemma read_price_currency: "read_price K M v = Inr p \<Longrightarrow> currency (p_money p) = mc_currency M"
  by (auto simp: read_price_def Let_def rbind_eq_Inr map_err_eq_Inr money_new_currency split: if_splits option.splits)

interpretation calculator: currency_resolver "mcp_resolve K timer now M" "mc_currency M" for K timer now M
  by unfold_locales
    (auto simp: mcp_resolve_def resolve_inner_def Let_def rbind_eq_Inr dest: read_price_currency
      split: prod.splits option.splits sum.splits)

definition in_currency :: "string \<Rightarrow> (string \<times> ('d, 'w) resolver) \<Rightarrow> bool" where
  "in_currency target nr \<longleftrightarrow> currency_resolver (snd nr) target"

lemma reported_in_currency:
  "provider_reported_new target u = Inr provider \<Longrightarrow> in_currency target (n, pure_resolver (provider_reported_resolve provider))"
  using reported.currency_resolver_axioms by (auto simp: provider_reported_new_def rbind_eq_Inr in_currency_def)

lemma catalog_in_currency:
  "catalog_resolver_new c target = Inr cr \<Longrightarrow> in_currency target (n, pure_resolver (catalog_resolve D cr))"
  using catalogued.currency_resolver_axioms [where cr = cr] by (auto simp: catalog_resolver_new_def rbind_eq_Inr in_currency_def)

lemma mcp_resolver_in_currency:
  "mcp_resolver_new R server t target ms sink = Inr M \<Longrightarrow> in_currency target (n, mcp_resolve K timer now M)"
  using calculator.currency_resolver_axioms [where M = M] by (auto simp: mcp_resolver_new_def rbind_eq_Inr in_currency_def)

lemma unavailable_in_currency: "in_currency target (n, unavailable_resolver why)"
  using unavailable.currency_resolver_axioms by (simp add: in_currency_def)

lemma catalog_source_in_currency:
  assumes "catalog_source D load b config_path w = (Inr (Some nr), w')"
  shows "in_currency (bc_currency b) nr"
proof (cases "bc_catalog_path b")
  case (Some p)
  then show ?thesis using assms
    by (auto simp: catalog_source_def io_map_err_ok io_lift_ok io_return_def map_err_eq_Inr elim!: io_thenE intro: catalog_in_currency)
qed (use assms in \<open>simp add: catalog_source_def io_return_def\<close>)

lemma mcp_source_in_currency:
  "mcp_source K timer now b target registry sink = Inr (Some nr) \<Longrightarrow> in_currency (bc_currency b) nr"
  by (auto simp: mcp_source_def rbind_eq_Inr map_err_eq_Inr unavailable_in_currency mcp_resolver_in_currency
      split: option.splits prod.splits if_splits)

lemma source_resolver_cases:
  "source_resolver provider mcp cat source = Some nr \<Longrightarrow> nr = provider \<or> mcp = Some nr \<or> cat = Some nr"
  by (cases source) (auto simp: source_resolver_def)

lemma build_parts:
  assumes "build_billing_resolver K timer now load b config_path target registry sink w = (Inr chain, w')"
  obtains provider cat mcp where
    "provider_reported_new (bc_currency b) (prc_unit (bc_provider_reported b)) = Inr provider"
    "catalog_source (cc_decimal K) load b config_path w = (Inr cat, w')"
    "mcp_source K timer now b target registry sink = Inr mcp"
    "chain = List.map_filter (source_resolver (''provider_reported'', pure_resolver (provider_reported_resolve provider)) mcp cat)
       (bc_source_order b)"
  using assms unfolding build_billing_resolver_def
  by (elim io_thenE) (auto simp: io_lift_ok io_return_def map_err_eq_Inr intro: that)

lemma build_in_currency:
  assumes "build_billing_resolver K timer now load b config_path target registry sink w = (Inr chain, w')"
    and "nr \<in> set chain"
  shows "in_currency (bc_currency b) nr"
  using assms(1)
proof (cases rule: build_parts)
  case (1 provider cat mcp)
  obtain source where "source_resolver (''provider_reported'', pure_resolver (provider_reported_resolve provider)) mcp cat source = Some nr"
    using assms(2) 1(4) by (auto simp: in_map_filter)
  then consider "nr = (''provider_reported'', pure_resolver (provider_reported_resolve provider))" | "mcp = Some nr" | "cat = Some nr"
    by (blast dest: source_resolver_cases)
  then show ?thesis
    by cases (use 1 in \<open>blast intro: reported_in_currency catalog_source_in_currency mcp_source_in_currency\<close>)+
qed

lemma configured_chain_in_currency:
  assumes "build_billing_resolver K timer now load b config_path target registry sink w = (Inr chain, w')"
  shows "currency_resolver (chain_resolve chain) (bc_currency b)"
  using build_in_currency [OF assms] by (intro chain_currency_resolver) (auto simp: in_currency_def)

text \<open>
  C24: Whatever billing sources a configuration names, a priced attempt is entered in the ledger. When
  the chain of a configuration could be built, from the provider's reports, a catalog and a calculator
  behind an MCP server in any order, then whatever the server answers, a price of the chain is in the
  currency of the configuration: a ledger kept in that currency adds it to its total and counts
  nothing as unpriced, unless the sum overflows.
\<close>

theorem configured_billing_recorded:
  assumes built: "build_billing_resolver K timer now load b config_path target registry sink w = (Inr chain, w')"
    and priced: "chain_resolve chain a w1 = (Priced p, w2)"
    and ledger: "t_target t = bc_currency b" "dec_add D (t_total t) (amount (p_money p)) = Some tot"
  shows "currency (p_money p) = bc_currency b
    \<and> t_total (record_cost D it a (Priced p) t) = tot
    \<and> t_unpriced (record_cost D it a (Priced p) t) = t_unpriced t"
  using currency_resolver.in_target [OF configured_chain_in_currency [OF built] priced]
    currency_resolver.recorded [OF configured_chain_in_currency [OF built] priced ledger] by simp

definition sample_codec :: "nat calculator_codec" where
  "sample_codec = \<lparr>cc_show = (\<lambda>_. []), cc_from_str = (\<lambda>_. Inl []), cc_attempt = (\<lambda>_. JNull),
     cc_decimal = nat_decimal\<lparr>dec_from_str_exact := (\<lambda>s. Some (length s))\<rparr>\<rparr>"

definition sample_price :: json where
  "sample_price = JObject [(''structuredContent'', JObject [(''status'', JString ''priced''),
     (''amount'', JNumber ''2.5''), (''currency'', JString ''USD'')])]"

definition sample_registry :: "(unit, nat) mcp_registry" where
  "sample_registry = \<lparr>mr_servers = [(''calc'', \<lparr>sh_tools = [''price''],
       sh_client = LiveStdio \<lparr>sc_server = ''calc'', sc_timeout = 5, sc_child = True, sc_open = True, sc_next_id = 1\<rparr> [],
       sh_shutdown_timeout = 5\<rparr>)],
     mr_request = (\<lambda>_ _ _ w. (Inr sample_price, Suc w)), mr_logger = None\<rparr>"

lemma sample_amount: "length (trim ''2.5'') = 3"
  by code_simp

text \<open>A calculator prices an attempt that its provider did not, at the length of \<open>2.5\<close>.\<close>

theorem configured_billing_recorded_witness:
  "\<exists>chain p. fst (build_billing_resolver sample_codec (\<lambda>_ call w. (\<lambda>(r, w). (Some r, w)) (call w)) (\<lambda>w. (w, w))
        (\<lambda>_. io_fail ArithmeticOverflow) billing_default ''c.yaml'' (Some (''calc'', ''price'')) (Some sample_registry) None 0)
      = Inr chain
    \<and> chain_resolve chain (sample_attempt 3) 0 = (Priced p, 1)
    \<and> t_total (record_cost nat_decimal 1 (sample_attempt 3) (Priced p) sample_tracker) = 7"
proof -
  let ?build = "build_billing_resolver sample_codec (\<lambda>_ call w. (\<lambda>(r, w). (Some r, w)) (call w)) (\<lambda>w. (w, w))
        (\<lambda>_. io_fail ArithmeticOverflow) billing_default ''c.yaml'' (Some (''calc'', ''price'')) (Some sample_registry) None 0"
  obtain chain where built: "?build = (Inr chain, 0)"
      and chain: "chain = [(''provider_reported'', pure_resolver (provider_reported_resolve (''USD'', None))),
        (''mcp'', mcp_resolve sample_codec (\<lambda>_ call w. (\<lambda>(r, w). (Some r, w)) (call w)) (\<lambda>w. (w, w))
          \<lparr>mc_registry = sample_registry, mc_server = ''calc'', mc_tool = ''price'', mc_target = ''calc.price'',
           mc_currency = ''USD'', mc_timeout = 5000, mc_logger = None\<rparr>)]"
    by (simp add: build_billing_resolver_def billing_default_def provider_reported_default_def provider_reported_new_def
        sample_defs catalog_source_def mcp_source_def registry_available_def sample_registry_def mcp_resolver_new_def
        io_then_def io_lift_def io_return_def source_resolver_def)
  obtain p where p: "chain_resolve chain (sample_attempt 3) 0 = (Priced p, 1)" and amt: "amount (p_money p) = 3"
    by (simp add: chain chain_resolve_def pure_resolver_def provider_reported_resolve_def mcp_resolve_def resolve_inner_def
        call_billing_handler_def call_discovered_tool_def sample_registry_def sample_price_def call_tool_payload_def
        read_price_def json_str_at_def decimal_from_value_def parse_decimal_def sample_codec_def money_new_def
        from_validated_def precision_of_def parse_line_items_def resolution_audit_def sample_defs Let_def sample_amount)
  have s: "dec_add nat_decimal (t_total sample_tracker) (amount (p_money p)) = Some 7" "t_target sample_tracker = bc_currency billing_default"
    by (simp_all add: sample_tracker_def nat_decimal_def amt billing_default_def)
  show ?thesis using built p configured_billing_recorded [OF built p s(2,1)] by auto
qed

end
