(* ===== verification/Redaction.thy ===== *)
theory Redaction
  imports Provider_Usage Config
begin

text \<open>
  What leaves the program without its secrets: the audit payloads (\<open>src/logging/redact.rs\<close>) and the
  configuration shown to the studio, with the way back (\<open>src/commands/config/redact.rs\<close>). A JSON
  object lists its members in the order of their keys.
\<close>

section \<open>Audit payloads\<close>

definition DEFAULT_SENSITIVE_KEYS :: "string list" where
  "DEFAULT_SENSITIVE_KEYS = [''api_key'', ''authorization'', ''password'', ''secret'', ''token'', ''access_token'',
     ''refresh_token'', ''client_secret'', ''private_key'', ''cookie'', ''set-cookie'', ''bearer'']"

definition REDACTED :: string where
  "REDACTED = ''[REDACTED]''"

definition TRUNCATED_SUFFIX :: string where
  "TRUNCATED_SUFFIX = [CHR 0xE2, CHR 0x80, CHR 0xA6] @ ''[truncated]''"

record redaction_policy =
  rp_enabled :: bool
  rp_max_string_chars :: nat
  rp_sensitive_keys :: "string set"

definition policy_from_config :: "audit_redaction_config \<Rightarrow> redaction_policy" where
  "policy_from_config c = \<lparr>rp_enabled = ar_enabled c, rp_max_string_chars = max (ar_max_string_chars c) 1,
     rp_sensitive_keys = set DEFAULT_SENSITIVE_KEYS
       \<union> set (filter (\<lambda>k. k \<noteq> []) (map (\<lambda>k. map to_ascii_lower (trim k)) (ar_extra_sensitive_keys c)))\<rparr>"

definition is_sensitive_key :: "redaction_policy \<Rightarrow> string \<Rightarrow> bool" where
  "is_sensitive_key P key \<longleftrightarrow> map to_ascii_lower key \<in> rp_sensitive_keys P"

definition truncate_utf8_chars_marked :: "string \<Rightarrow> nat \<Rightarrow> string" where
  "truncate_utf8_chars_marked t n = (if chars_count t \<le> n then t else take_chars n t @ TRUNCATED_SUFFIX)"

fun redact_node :: "redaction_policy \<Rightarrow> bool \<Rightarrow> json \<Rightarrow> json" where
  "redact_node P parent_sensitive v =
     (if parent_sensitive then JString REDACTED
      else (case v of
        JObject kvs \<Rightarrow> JObject (map (\<lambda>(k, child). (k, redact_node P (is_sensitive_key P k) child)) kvs)
      | JArray items \<Rightarrow> JArray (map (redact_node P False) items)
      | JString t \<Rightarrow> JString (truncate_utf8_chars_marked t (rp_max_string_chars P))
      | other \<Rightarrow> other))"

declare redact_node.simps [simp del]

definition redact_value :: "redaction_policy \<Rightarrow> json \<Rightarrow> json" where
  "redact_value P v = (if rp_enabled P then redact_node P False v else v)"

text \<open>The sink that redacts before it forwards to \<open>inner\<close>.\<close>

definition redacting_write_event ::
  "redaction_policy \<Rightarrow> (string \<Rightarrow> json \<Rightarrow> 'w \<Rightarrow> ('e + unit) \<times> 'w) \<Rightarrow> string \<Rightarrow> json \<Rightarrow> 'w \<Rightarrow> ('e + unit) \<times> 'w" where
  "redacting_write_event P inner event_type v w = inner event_type (redact_value P v) w"

lemma redact_node_simps:
  "redact_node P True v = JString REDACTED"
  "redact_node P False (JObject kvs) = JObject (map (\<lambda>(k, child). (k, redact_node P (is_sensitive_key P k) child)) kvs)"
  "redact_node P False (JArray vs) = JArray (map (redact_node P False) vs)"
  "redact_node P False (JString t) = JString (truncate_utf8_chars_marked t (rp_max_string_chars P))"
  "redact_node P False (JNumber n) = JNumber n"
  "redact_node P False (JBool b) = JBool b"
  "redact_node P False JNull = JNull"
  by (simp_all add: redact_node.simps)

text \<open>
  Two payloads that differ only in the values under sensitive keys.
\<close>

inductive same_public :: "redaction_policy \<Rightarrow> json \<Rightarrow> json \<Rightarrow> bool" for P where
  equal: "same_public P v v"
| items: "list_all2 (same_public P) vs us \<Longrightarrow> same_public P (JArray vs) (JArray us)"
| members: "list_all2 (\<lambda>a b. fst a = fst b \<and> (is_sensitive_key P (fst a) \<or> same_public P (snd a) (snd b))) kvs lus
    \<Longrightarrow> same_public P (JObject kvs) (JObject lus)"
monos list_all2_mono

lemma redact_member:
  "is_sensitive_key P k \<or> redact_node P False v = redact_node P False u
     \<Longrightarrow> redact_node P (is_sensitive_key P k) v = redact_node P (is_sensitive_key P k) u"
  by (cases "is_sensitive_key P k") (simp_all add: redact_node_simps)

lemma same_public_redact:
  "same_public P v u \<Longrightarrow> redact_node P False v = redact_node P False u"
proof (induction rule: same_public.induct)
  case (items vs us)
  then show ?case by (induction rule: list_all2_induct) (simp_all add: redact_node_simps)
next
  case (members kvs lus)
  then have "map (\<lambda>(k, c). (k, redact_node P (is_sensitive_key P k) c)) kvs
      = map (\<lambda>(k, c). (k, redact_node P (is_sensitive_key P k) c)) lus"
    by (induction rule: list_all2_induct) (auto simp: case_prod_beta intro!: redact_member)
  then show ?case by (simp add: redact_node_simps)
qed simp

lemma default_keys_sensitive: "set DEFAULT_SENSITIVE_KEYS \<subseteq> rp_sensitive_keys (policy_from_config c)"
  by (simp add: policy_from_config_def)

text \<open>
  An audit record reveals nothing of a sensitive value: two payloads that differ only below
  sensitive keys, at any depth, leave the same record in the log. This holds for every
  configuration with redaction switched on, and whatever the configuration adds, the built-in
  keys stay sensitive in any case of their letters.
\<close>

theorem audit_log_hides_secrets:
  assumes "ar_enabled c" and "same_public (policy_from_config c) v u"
  shows "redacting_write_event (policy_from_config c) inner ev v = redacting_write_event (policy_from_config c) inner ev u
     \<and> (\<forall>k. map to_ascii_lower k \<in> set DEFAULT_SENSITIVE_KEYS \<longrightarrow> is_sensitive_key (policy_from_config c) k)"
  using same_public_redact [OF assms(2)] assms(1) default_keys_sensitive [of c]
  by (auto simp: redacting_write_event_def redact_value_def is_sensitive_key_def fun_eq_iff)
    (simp_all add: policy_from_config_def)

lemma token_is_sensitive: "is_sensitive_key (policy_from_config audit_redaction_default) ''Token''"
  by code_simp

theorem audit_log_hides_secrets_witness:
  "redacting_write_event (policy_from_config audit_redaction_default) (\<lambda>t v w. (Inr (), (t, v) # w)) ''call''
       (JObject [(''Token'', JString ''abc''), (''n'', JNumber ''1'')])
     = redacting_write_event (policy_from_config audit_redaction_default) (\<lambda>t v w. (Inr (), (t, v) # w)) ''call''
       (JObject [(''Token'', JNull), (''n'', JNumber ''1'')])"
proof -
  have "ar_enabled audit_redaction_default" by (simp add: audit_redaction_default_def)
  moreover have "same_public (policy_from_config audit_redaction_default)
      (JObject [(''Token'', JString ''abc''), (''n'', JNumber ''1'')]) (JObject [(''Token'', JNull), (''n'', JNumber ''1'')])"
    by (rule same_public.members) (simp add: same_public.equal token_is_sensitive)
  ultimately show ?thesis by (rule audit_log_hides_secrets [THEN conjunct1])
qed

section \<open>The configuration for the studio\<close>

text \<open>
  The manual \<open>Serialize\<close> of an MCP server; \<open>auth_json\<close> is the derived one of its OAuth settings.
\<close>

definition json_object :: "(string \<times> json) list \<Rightarrow> json" where
  "json_object kvs = JObject (fold (\<lambda>(k, v). btree_insert k v) kvs [])"

definition string_map_json :: "(string \<times> string) list \<Rightarrow> json" where
  "string_map_json kvs = JObject (map (\<lambda>(k, v). (k, JString v)) kvs)"

definition server_to_value :: "(mcp_oauth_config \<Rightarrow> json) \<Rightarrow> mcp_server_config \<Rightarrow> json" where
  "server_to_value auth_json s = (case ms_transport s of
     Stdio t \<Rightarrow> json_object ([(''name'', JString (ms_name s)), (''transport'', JString ''stdio''),
         (''command'', JString (st_command t))]
       @ (if st_args t = [] then [] else [(''args'', JArray (map JString (st_args t)))])
       @ (if st_env t = [] then [] else [(''env'', string_map_json (st_env t))])
       @ (case st_cwd t of None \<Rightarrow> [] | Some d \<Rightarrow> [(''cwd'', JString d)])
       @ [(''timeout_ms'', JNumber (show_nat (unat (ms_timeout_ms s))))])
   | Http t \<Rightarrow> json_object ([(''name'', JString (ms_name s)), (''transport'', JString ''http''),
         (''url'', JString (ht_url t))]
       @ (if ht_headers t = [] then [] else [(''headers'', string_map_json (ht_headers t))])
       @ (case ht_auth t of None \<Rightarrow> [] | Some a \<Rightarrow> [(''auth'', auth_json a)])
       @ [(''timeout_ms'', JNumber (show_nat (unat (ms_timeout_ms s))))]))"

definition set_marker :: json where
  "set_marker = JObject [(''set'', JBool True)]"

definition is_set_marker :: "json \<Rightarrow> bool" where
  "is_set_marker v \<longleftrightarrow> Option.bind (json_get v ''set'') json_as_bool = Some True"

text \<open>A member of an object, rewritten in place (\<open>get_mut\<close>); a member set (\<open>insert\<close>).\<close>

definition update_member :: "string \<Rightarrow> (json \<Rightarrow> json) \<Rightarrow> json \<Rightarrow> json" where
  "update_member k f v = (case v of
     JObject kvs \<Rightarrow> JObject (map (\<lambda>(l, u). (l, if l = k then f u else u)) kvs) | other \<Rightarrow> other)"

definition set_member :: "string \<Rightarrow> json \<Rightarrow> json \<Rightarrow> json" where
  "set_member k u v = (case v of JObject kvs \<Rightarrow> JObject (btree_insert k u kvs) | other \<Rightarrow> other)"

definition keep_entry :: "json \<Rightarrow> bool" where
  "keep_entry v \<longleftrightarrow> (case json_as_str v of Some t \<Rightarrow> t \<noteq> [] | None \<Rightarrow> False)"

definition redact_string_map :: "json \<Rightarrow> json" where
  "redact_string_map v = (case v of
     JObject kvs \<Rightarrow> JObject (map (\<lambda>(k, u). (k, set_marker)) (filter (\<lambda>(k, u). keep_entry u) kvs))
   | other \<Rightarrow> other)"

definition redact_mcp_server :: "json \<Rightarrow> json" where
  "redact_mcp_server v =
     (let v = update_member ''env'' redact_string_map v;
          v = update_member ''headers'' redact_string_map v in
      (case json_get v ''auth'' of
         Some a \<Rightarrow> (if a \<noteq> JNull then set_member ''auth'' set_marker v else v)
       | None \<Rightarrow> v))"

definition map_items :: "(json \<Rightarrow> json) \<Rightarrow> json \<Rightarrow> json" where
  "map_items f v = (case v of JArray vs \<Rightarrow> JArray (map f vs) | other \<Rightarrow> other)"

text \<open>\<open>value\<close> is the configuration as \<open>serde_json::to_value\<close> renders it.\<close>

definition redact_config :: "json \<Rightarrow> json" where
  "redact_config v = update_member ''mcp'' (map_items redact_mcp_server)
     (update_member ''provider'' (set_member ''api_key'' JNull) v)"

fun restore_entries :: "(string \<times> string) list \<Rightarrow> (string \<times> json) list \<Rightarrow> string + (string \<times> json) list" where
  "restore_entries old [] = Inr []"
| "restore_entries old ((k, u) # kvs) =
     rbind (if is_set_marker u
            then (case map_of old k of
                None \<Rightarrow> Inl (''set-marker for `'' @ k @ ''` but no previous secret exists'')
              | Some prev \<Rightarrow> Inr (JString prev))
            else Inr u) (\<lambda>u. rbind (restore_entries old kvs) (\<lambda>kvs. Inr ((k, u) # kvs)))"

definition restore_string_map :: "(string \<times> string) list \<Rightarrow> json \<Rightarrow> string + json" where
  "restore_string_map old v = (case v of
     JObject kvs \<Rightarrow> rbind (restore_entries old kvs) (\<lambda>kvs. Inr (JObject kvs)) | other \<Rightarrow> Inr other)"

definition restore_member :: "string \<Rightarrow> (string \<times> string) list \<Rightarrow> json \<Rightarrow> string + json" where
  "restore_member k old v = (case json_get v k of
     None \<Rightarrow> Inr v | Some u \<Rightarrow> rbind (restore_string_map old u) (\<lambda>u. Inr (update_member k (\<lambda>_. u) v)))"

definition restore_mcp_secrets ::
  "(mcp_oauth_config \<Rightarrow> json) \<Rightarrow> mcp_server_config \<Rightarrow> json \<Rightarrow> string + json" where
  "restore_mcp_secrets auth_json old v = (case v of
     JObject _ \<Rightarrow> (case ms_transport old of
       Stdio t \<Rightarrow> restore_member ''env'' (st_env t) v
     | Http t \<Rightarrow> rbind (restore_member ''headers'' (ht_headers t) v) (\<lambda>v.
         (case json_get v ''auth'' of
            Some a \<Rightarrow> Inr (if is_set_marker a
              then set_member ''auth'' (case ht_auth t of Some auth \<Rightarrow> auth_json auth | None \<Rightarrow> JNull) v else v)
          | None \<Rightarrow> Inr v)))
   | other \<Rightarrow> Inr other)"

definition first_marker :: "json \<Rightarrow> string \<Rightarrow> string option" where
  "first_marker v k = (case Option.bind (json_get v k) json_as_object of
     Some kvs \<Rightarrow> map_option fst (find (\<lambda>(_, u). is_set_marker u) kvs) | None \<Rightarrow> None)"

definition reject_unresolved_markers :: "json \<Rightarrow> string \<Rightarrow> string + unit" where
  "reject_unresolved_markers v name = (case first_marker v ''env'' of
     Some k \<Rightarrow> Inl (''mcp `'' @ name @ ''` env `'' @ k @ ''` has a set-marker but the server is new'')
   | None \<Rightarrow> (case first_marker v ''headers'' of
       Some k \<Rightarrow> Inl (''mcp `'' @ name @ ''` header `'' @ k @ ''` has a set-marker but the server is new'')
     | None \<Rightarrow> (case json_get v ''auth'' of
         Some a \<Rightarrow> (if is_set_marker a then Inl (''mcp `'' @ name @ ''` auth has a set-marker but the server is new'') else Inr ())
       | None \<Rightarrow> Inr ())))"

definition merge_server ::
  "(mcp_oauth_config \<Rightarrow> json) \<Rightarrow> mcp_server_config list \<Rightarrow> json \<Rightarrow> string + json" where
  "merge_server auth_json old v = (case Option.bind (json_get v ''name'') json_as_str of
     None \<Rightarrow> Inl ''mcp server missing name''
   | Some name \<Rightarrow> (case find (\<lambda>s. ms_name s = name) old of
       None \<Rightarrow> rbind (reject_unresolved_markers v name) (\<lambda>_. Inr v)
     | Some prev \<Rightarrow> restore_mcp_secrets auth_json prev v))"

definition merge_mcp_array ::
  "(mcp_oauth_config \<Rightarrow> json) \<Rightarrow> mcp_server_config list \<Rightarrow> json \<Rightarrow> string + json" where
  "merge_mcp_array auth_json old v = (case Option.bind (json_get v ''mcp'') json_as_array of
     None \<Rightarrow> Inr v
   | Some servers \<Rightarrow> rbind (try_map (merge_server auth_json old) servers) (\<lambda>us.
       Inr (update_member ''mcp'' (\<lambda>_. JArray us) v)))"

definition merged_key :: "string option \<Rightarrow> bool \<Rightarrow> json option \<Rightarrow> json" where
  "merged_key old clear incoming =
     (if clear then JNull
      else (let kept = (case old of Some key \<Rightarrow> JString key | None \<Rightarrow> JNull) in
        (case incoming of
           None \<Rightarrow> kept
         | Some JNull \<Rightarrow> kept
         | Some (JString s) \<Rightarrow> (if is_blank s then kept else JString s)
         | Some other \<Rightarrow> other)))"

text \<open>\<open>from_value\<close> is \<open>serde_json::from_value\<close> of a configuration.\<close>

definition merge_config_put ::
  "(mcp_oauth_config \<Rightarrow> json) \<Rightarrow> (json \<Rightarrow> string + 'd app_config) \<Rightarrow> 'd app_config \<Rightarrow> json \<Rightarrow> bool
     \<Rightarrow> string + 'd app_config" where
  "merge_config_put auth_json from_value existing incoming clear =
     (case Option.bind (json_get incoming ''provider'') json_as_object of
        None \<Rightarrow> Inl ''config.provider is required''
      | Some provider \<Rightarrow>
          rbind (merge_mcp_array auth_json (cfg_mcp existing)
            (update_member ''provider'' (set_member ''api_key''
               (merged_key (pv_api_key (cfg_provider existing)) clear (map_of provider ''api_key''))) incoming)) (\<lambda>v.
          map_err (\<lambda>e. ''invalid config: '' @ e) (from_value v)))"

definition validate_skill_fields :: "string \<Rightarrow> string \<Rightarrow> string + unit" where
  "validate_skill_fields name policy =
     (if CHR 0x22 \<in> set name then Inl (''skill name must not contain `'' @ [CHR 0x22] @ ''`'')
      else if CHR 0x22 \<in> set policy then Inl (''skill policy must not contain `'' @ [CHR 0x22] @ ''`'')
      else if is_blank name then Inl ''skill name must not be empty''
      else Inr ())"

section \<open>Members of objects\<close>

definition sorted_object :: "json \<Rightarrow> bool" where
  "sorted_object v \<longleftrightarrow> (case v of JObject kvs \<Rightarrow> sorted_wrt (<) (map fst kvs) | _ \<Rightarrow> False)"

lemma map_fst_update [simp]: "map fst (map (\<lambda>(l, u). (l, if l = k then f u else u)) kvs) = map fst kvs"
  by (induction kvs) auto

lemma fst_update [simp]: "fst \<circ> (\<lambda>(l, u). (l, if l = k then f u else u)) = fst"
  by (simp add: fun_eq_iff split_beta)

lemma sorted_update_member [simp]: "sorted_object (update_member k f v) = sorted_object v"
  by (cases v) (simp_all add: sorted_object_def update_member_def)

lemma get_update_member [simp]:
  "json_get (update_member k f v) l = map_option (\<lambda>u. if l = k then f u else u) (json_get v l)"
proof (cases v)
  case (JObject kvs)
  have "map_of (map (\<lambda>(l, u). (l, if l = k then f u else u)) kvs) l = map_option (\<lambda>u. if l = k then f u else u) (map_of kvs l)"
    by (induction kvs) auto
  then show ?thesis by (simp add: JObject update_member_def)
qed (simp_all add: update_member_def)

lemma update_member_twice [simp]: "update_member k f (update_member k g v) = update_member k (\<lambda>u. f (g u)) v"
  by (cases v) (auto simp: update_member_def)

lemma update_member_comm: "k \<noteq> l \<Longrightarrow> update_member k f (update_member l g v) = update_member l g (update_member k f v)"
  by (cases v) (auto simp: update_member_def)

lemma update_member_absent: "json_get v k = None \<Longrightarrow> update_member k f v = v"
  by (cases v) (auto simp: update_member_def map_of_eq_None_iff intro!: map_idI, metis fst_conv image_eqI)

lemma update_member_same:
  assumes "sorted_object v" and "\<And>u. json_get v k = Some u \<Longrightarrow> f u = u"
  shows "update_member k f v = v"
proof (cases v)
  case (JObject kvs)
  then have "distinct (map fst kvs)" using assms(1) by (simp add: sorted_object_def strict_sorted_iff)
  then show ?thesis using assms(2) by (auto simp: JObject update_member_def intro!: map_idI)
qed (simp_all add: update_member_def)

lemma btree_insert_present:
  "sorted_wrt (<) (map fst kvs) \<Longrightarrow> map_of kvs k = Some x \<Longrightarrow>
     btree_insert k u kvs = map (\<lambda>(l, y). (l, if l = k then u else y)) kvs"
proof (induction kvs)
  case (Cons e kvs)
  obtain l y where e: "e = (l, y)" by (cases e)
  have later: "\<And>m z. (m, z) \<in> set kvs \<Longrightarrow> l < m" using Cons.prems(1) by (auto simp: e)
  show ?case
  proof (cases "k = l")
    case True
    then have "map (\<lambda>(m, z). (m, if m = k then u else z)) kvs = kvs" using later by (force intro!: map_idI)
    then show ?thesis using True by (simp add: e)
  next
    case False
    then have m: "map_of kvs k = Some x" using Cons.prems(2) by (simp add: e)
    then have "l < k" using later map_of_SomeD by fastforce
    then show ?thesis using False Cons.IH [OF _ m] Cons.prems(1) by (simp add: e not_less_iff_gr_or_eq)
  qed
qed simp

lemma set_member_update:
  "sorted_object v \<Longrightarrow> json_get v k = Some x \<Longrightarrow> set_member k u v = update_member k (\<lambda>_. u) v"
  by (cases v) (simp_all add: set_member_def update_member_def sorted_object_def btree_insert_present)

lemma fold_btree_insert:
  "sorted_wrt (<) (map fst acc) \<Longrightarrow>
     sorted_wrt (<) (map fst (fold (\<lambda>(k, v). btree_insert k v) kvs acc))
     \<and> map_of (fold (\<lambda>(k, v). btree_insert k v) kvs acc) = map_of acc ++ map_of (rev kvs)"
proof (induction kvs arbitrary: acc)
  case (Cons e kvs)
  show ?case using Cons.IH [of "btree_insert (fst e) (snd e) acc"] Cons.prems
    by (cases e) (simp add: btree_insert_sorted map_of_btree_insert map_add_def fun_eq_iff split: option.splits)
qed simp

lemma sorted_json_object [simp]: "sorted_object (json_object kvs)"
  using fold_btree_insert [of "[]" kvs] by (simp add: json_object_def sorted_object_def)

lemma get_json_object [simp]: "json_get (json_object kvs) k = map_of (rev kvs) k"
  using fold_btree_insert [of "[]" kvs] by (simp add: json_object_def)

section \<open>What the studio gives back\<close>

lemma restore_entries_redacted:
  assumes "\<And>k v. (k, v) \<in> set kvs \<Longrightarrow> map_of old k = Some v"
  shows "restore_entries old (map (\<lambda>(k, v). (k, set_marker)) kvs) = Inr (map (\<lambda>(k, v). (k, JString v)) kvs)"
  using assms
proof (induction kvs)
  case (Cons e kvs)
  obtain k v where e: "e = (k, v)" by (cases e)
  have now: "map_of old k = Some v" using Cons.prems [of k v] by (simp add: e)
  have later: "restore_entries old (map (\<lambda>(k, v). (k, set_marker)) kvs) = Inr (map (\<lambda>(k, v). (k, JString v)) kvs)"
    using Cons by simp
  have "is_set_marker set_marker" by (simp add: is_set_marker_def set_marker_def)
  then show ?case by (simp add: e now later)
qed simp

lemma restore_redacted_map:
  assumes "distinct (map fst env)" and "[] \<notin> snd ` set env"
  shows "restore_string_map env (redact_string_map (string_map_json env)) = Inr (string_map_json env)"
proof -
  have keep: "filter (\<lambda>(k, u). keep_entry u) (map (\<lambda>(k, v). (k, JString v)) env) = map (\<lambda>(k, v). (k, JString v)) env"
    using assms(2) by (force simp: keep_entry_def filter_id_conv)
  have "restore_entries env (map (\<lambda>(k, v). (k, set_marker)) env) = Inr (map (\<lambda>(k, v). (k, JString v)) env)"
    using assms(1) by (intro restore_entries_redacted) simp
  moreover have "map (\<lambda>(k, u). (k, set_marker)) (map (\<lambda>(k, v). (k, JString v)) env) = map (\<lambda>(k, v). (k, set_marker)) env"
    by auto
  ultimately show ?thesis
    by (simp only: string_map_json_def redact_string_map_def restore_string_map_def json.case keep rbind_simps)
qed

text \<open>A server whose maps have one entry per key and no empty value.\<close>

definition restorable :: "mcp_server_config \<Rightarrow> bool" where
  "restorable s \<longleftrightarrow> (case ms_transport s of
     Stdio t \<Rightarrow> distinct (map fst (st_env t)) \<and> [] \<notin> snd ` set (st_env t)
   | Http t \<Rightarrow> distinct (map fst (ht_headers t)) \<and> [] \<notin> snd ` set (ht_headers t))"

lemma server_value:
  "sorted_object (server_to_value auth_json s)"
  "json_get (server_to_value auth_json s) ''name'' = Some (JString (ms_name s))"
  "json_get (server_to_value auth_json s) ''env'' = (case ms_transport s of
     Stdio t \<Rightarrow> (if st_env t = [] then None else Some (string_map_json (st_env t))) | Http t \<Rightarrow> None)"
  "json_get (server_to_value auth_json s) ''headers'' = (case ms_transport s of
     Stdio t \<Rightarrow> None | Http t \<Rightarrow> (if ht_headers t = [] then None else Some (string_map_json (ht_headers t))))"
  "json_get (server_to_value auth_json s) ''auth'' = (case ms_transport s of
     Stdio t \<Rightarrow> None | Http t \<Rightarrow> map_option auth_json (ht_auth t))"
  by (simp_all add: server_to_value_def map_add_def split: mcp_transport.split option.split)

lemma restore_redacted_member:
  assumes "sorted_object v" and "json_get v k = (if env = [] then None else Some (string_map_json env))"
    and "distinct (map fst env)" and "[] \<notin> snd ` set env"
  shows "restore_member k env (update_member k redact_string_map v) = Inr v"
proof (cases "env = []")
  case True
  then show ?thesis using assms(2) by (simp add: restore_member_def update_member_absent)
next
  case False
  then have "update_member k (\<lambda>_. string_map_json env) v = v"
    using assms(1,2) by (intro update_member_same) simp_all
  then show ?thesis
    using False assms(2) restore_redacted_map [OF assms(3,4)] by (simp add: restore_member_def)
qed

lemma restore_member_other:
  "k \<noteq> l \<Longrightarrow> restore_member k old v = Inr u \<Longrightarrow>
     restore_member k old (update_member l f v) = Inr (update_member l f u)"
  by (auto simp: restore_member_def rbind_eq_Inr update_member_comm [of k l] split: option.splits)

lemma is_object_update [simp]: "(\<exists>kvs. update_member k f v = JObject kvs) \<longleftrightarrow> (\<exists>kvs. v = JObject kvs)"
  by (cases v) (auto simp: update_member_def)

lemma restore_mcp_secrets_object:
  "\<exists>kvs. v = JObject kvs \<Longrightarrow> restore_mcp_secrets auth_json old v = (case ms_transport old of
       Stdio t \<Rightarrow> restore_member ''env'' (st_env t) v
     | Http t \<Rightarrow> rbind (restore_member ''headers'' (ht_headers t) v) (\<lambda>v.
         (case json_get v ''auth'' of
            Some a \<Rightarrow> Inr (if is_set_marker a
              then set_member ''auth'' (case ht_auth t of Some auth \<Rightarrow> auth_json auth | None \<Rightarrow> JNull) v else v)
          | None \<Rightarrow> Inr v)))"
  by (auto simp: restore_mcp_secrets_def)

lemma sorted_is_object: "sorted_object v \<Longrightarrow> \<exists>kvs. v = JObject kvs"
  by (cases v) (simp_all add: sorted_object_def)

lemma restore_redacted_server:
  assumes ok: "restorable s" and aj: "\<And>a. auth_json a \<noteq> JNull"
  shows "restore_mcp_secrets auth_json s (redact_mcp_server (server_to_value auth_json s)) = Inr (server_to_value auth_json s)"
proof -
  let ?v = "server_to_value auth_json s"
  note v = server_value [of auth_json s]
  note object = sorted_is_object [OF v(1)]
  show ?thesis
  proof (cases "ms_transport s")
    case (Stdio t)
    have r: "redact_mcp_server ?v = update_member ''env'' redact_string_map ?v"
      using v Stdio by (simp add: redact_mcp_server_def Let_def update_member_absent)
    show ?thesis
      using restore_redacted_member [of ?v "''env''" "st_env t"] v ok Stdio
      by (simp add: r restore_mcp_secrets_object object restorable_def)
  next
    case (Http t)
    let ?w = "update_member ''headers'' redact_string_map ?v"
    have auth: "json_get ?w ''auth'' = map_option auth_json (ht_auth t)" using v Http by (simp add: option.map_ident)
    have r: "redact_mcp_server ?v = (if ht_auth t = None then ?w else update_member ''auth'' (\<lambda>_. set_marker) ?w)"
      using v Http aj
      by (auto simp: redact_mcp_server_def Let_def update_member_absent set_member_update split: option.split)
    have restored: "restore_member ''headers'' (ht_headers t) ?w = Inr ?v"
      using restore_redacted_member [of ?v "''headers''" "ht_headers t"] v ok Http by (simp add: restorable_def)
    show ?thesis
    proof (cases "ht_auth t")
      case None
      then show ?thesis using v Http by (simp add: r restore_mcp_secrets_object object restored)
    next
      case (Some a)
      let ?x = "update_member ''auth'' (\<lambda>_. set_marker) ?v"
      have "restore_member ''headers'' (ht_headers t) (redact_mcp_server ?v) = Inr ?x"
        using restore_member_other [OF _ restored, of "''auth''"] Some by (simp add: r)
      moreover have "\<exists>kvs. redact_mcp_server ?v = JObject kvs" using object by (simp add: r)
      moreover have "json_get ?x ''auth'' = Some set_marker" using v Http Some by simp
      moreover have "is_set_marker set_marker" by (simp add: is_set_marker_def set_marker_def)
      moreover have "set_member ''auth'' (auth_json a) ?x = ?v"
        using v Http Some update_member_same [OF v(1), of "''auth''" "\<lambda>_. auth_json a"]
        by (simp add: set_member_update)
      ultimately show ?thesis using Http Some by (auto simp: restore_mcp_secrets_object)
    qed
  qed
qed

text \<open>
  \<open>v\<close> renders the configuration: an object whose servers are those of the manual \<open>Serialize\<close>
  and whose \<open>provider\<close> is an object with the inline key.
\<close>

definition renders :: "(mcp_oauth_config \<Rightarrow> json) \<Rightarrow> 'd app_config \<Rightarrow> json \<Rightarrow> bool" where
  "renders auth_json cfg v \<longleftrightarrow> sorted_object v
     \<and> json_get v ''mcp'' = Some (JArray (map (server_to_value auth_json) (cfg_mcp cfg)))
     \<and> (case json_get v ''provider'' of None \<Rightarrow> False
        | Some p \<Rightarrow> sorted_object p \<and> json_get p ''api_key''
            = Some (case pv_api_key (cfg_provider cfg) of Some key \<Rightarrow> JString key | None \<Rightarrow> JNull))"

lemma redact_mcp_server_name:
  "json_get (redact_mcp_server (server_to_value auth_json s)) ''name'' = Some (JString (ms_name s))"
  using server_value(1) [of auth_json s]
  by (auto simp: redact_mcp_server_def Let_def set_member_update option.map_ident server_value split: option.split)

lemma merge_redacted_server:
  assumes "distinct (map ms_name old)" and "s \<in> set old" and "restorable s" and "\<And>a. auth_json a \<noteq> JNull"
  shows "merge_server auth_json old (redact_mcp_server (server_to_value auth_json s)) = Inr (server_to_value auth_json s)"
proof -
  have "find (\<lambda>t. ms_name t = ms_name s) old = Some s"
    using assms(1,2) by (induction old) (auto simp: rev_image_eqI)
  then show ?thesis
    using restore_redacted_server [of s auth_json, OF assms(3,4)]
    by (simp add: merge_server_def redact_mcp_server_name)
qed

lemma try_map_all: "(\<And>x. x \<in> set xs \<Longrightarrow> f (g x) = Inr (h x)) \<Longrightarrow> try_map f (map g xs) = Inr (map h xs)"
  by (induction xs) simp_all

text \<open>
  C29: what the studio is shown can be handed back without loss. For a configuration in which no
  environment variable and no header has an empty value, redacting it and putting the result back
  is putting back the configuration itself: the inline key, every variable, every header and the
  OAuth settings of each server are restored.
\<close>

theorem redacted_config_restores:
  assumes "renders auth_json cfg v" and "distinct (map ms_name (cfg_mcp cfg))"
    and "list_all restorable (cfg_mcp cfg)" and "\<And>a. auth_json a \<noteq> JNull" and "from_value v = Inr cfg"
  shows "merge_config_put auth_json from_value cfg (redact_config v) False = Inr cfg"
proof -
  let ?key = "case pv_api_key (cfg_provider cfg) of Some key \<Rightarrow> JString key | None \<Rightarrow> JNull"
  let ?servers = "map (server_to_value auth_json) (cfg_mcp cfg)"
  obtain p where v: "sorted_object v" "json_get v ''mcp'' = Some (JArray ?servers)" "json_get v ''provider'' = Some p"
    and p: "sorted_object p" "json_get p ''api_key'' = Some ?key"
    using assms(1) by (auto simp: renders_def split: option.splits)
  let ?p = "update_member ''api_key'' (\<lambda>_. JNull) p"
  let ?null = "update_member ''provider'' (set_member ''api_key'' JNull) v"
  have prov: "json_get (redact_config v) ''provider'' = Some ?p"
    using v(3) by (simp add: redact_config_def set_member_update [OF p])
  have "\<exists>kvs. ?p = JObject kvs" using sorted_is_object [OF p(1)] by simp
  then obtain kvs where kvs: "?p = JObject kvs" by blast
  have "json_get ?p ''api_key'' = Some JNull" using p(2) by simp
  then have null: "map_of kvs ''api_key'' = Some JNull" unfolding kvs by simp
  have key: "merged_key (pv_api_key (cfg_provider cfg)) False (map_of kvs ''api_key'') = ?key"
    by (simp add: merged_key_def null)
  let ?w = "update_member ''provider'' (set_member ''api_key'' ?key) (redact_config v)"
  have "json_get ?w ''mcp'' = Some (JArray (map redact_mcp_server ?servers))"
    using v(2) by (simp add: redact_config_def map_items_def)
  moreover have "try_map (merge_server auth_json (cfg_mcp cfg)) (map redact_mcp_server ?servers) = Inr ?servers"
    unfolding map_map using assms(2,3,4)
    by (intro try_map_all) (simp add: merge_redacted_server list_all_iff)
  ultimately have merged: "merge_mcp_array auth_json (cfg_mcp cfg) ?w = Inr (update_member ''mcp'' (\<lambda>_. JArray ?servers) ?w)"
    by (simp add: merge_mcp_array_def)
  have "set_member ''api_key'' ?key (set_member ''api_key'' JNull p) = p"
    using p update_member_same [OF p(1), of "''api_key''" "\<lambda>_. ?key"] by (simp add: set_member_update)
  then have "update_member ''provider'' (\<lambda>u. set_member ''api_key'' ?key (set_member ''api_key'' JNull u)) v = v"
    using v(3) by (intro update_member_same [OF v(1)]) simp
  moreover have "update_member ''mcp'' (\<lambda>_. JArray ?servers) v = v" using v(2) by (intro update_member_same [OF v(1)]) simp
  ultimately have "update_member ''mcp'' (\<lambda>_. JArray ?servers) ?w = v"
    by (simp add: redact_config_def update_member_comm [of "''provider''" "''mcp''"])
  then show ?thesis
    using merged by (simp add: merge_config_put_def prov kvs key assms(5))
qed

text \<open>Whether the view of a server gives away a variable, a header or its OAuth settings.\<close>

definition all_markers :: "json option \<Rightarrow> bool" where
  "all_markers v \<longleftrightarrow> (case Option.bind v json_as_object of
     Some kvs \<Rightarrow> list_all (\<lambda>(k, u). u = set_marker) kvs | None \<Rightarrow> v = None)"

definition scrubbed_server :: "json \<Rightarrow> bool" where
  "scrubbed_server v \<longleftrightarrow> all_markers (json_get v ''env'') \<and> all_markers (json_get v ''headers'')
     \<and> json_get v ''auth'' \<in> {None, Some set_marker}"

lemma redacted_map_markers: "all_markers (Some (redact_string_map (string_map_json env)))"
  by (auto simp: all_markers_def redact_string_map_def string_map_json_def list_all_iff)

lemma redacted_server_scrubbed:
  assumes "\<And>a. auth_json a \<noteq> JNull"
  shows "scrubbed_server (redact_mcp_server (server_to_value auth_json s))"
proof -
  note v = server_value [of auth_json s]
  let ?w = "update_member ''headers'' redact_string_map (update_member ''env'' redact_string_map (server_to_value auth_json s))"
  have env: "all_markers (json_get ?w ''env'')" and headers: "all_markers (json_get ?w ''headers'')"
    using v by (auto simp: redacted_map_markers all_markers_def [of None] split: mcp_transport.split)
  have sorted: "sorted_object ?w" using v(1) by simp
  show ?thesis
  proof (cases "json_get ?w ''auth''")
    case None
    then show ?thesis using env headers by (simp add: redact_mcp_server_def Let_def scrubbed_server_def)
  next
    case (Some x)
    then have "x \<noteq> JNull" using v assms by (auto split: mcp_transport.splits)
    then have r: "redact_mcp_server (server_to_value auth_json s) = update_member ''auth'' (\<lambda>_. set_marker) ?w"
      using Some sorted by (simp add: redact_mcp_server_def Let_def set_member_update)
    show ?thesis unfolding r scrubbed_server_def
      using env headers Some by (simp add: option.map_ident)
  qed
qed

text \<open>
  The studio never sees a secret of the configuration: the inline key is null, and of the
  environment variables, the headers and the OAuth settings of every server it sees which are set.
\<close>

theorem studio_view_hides_secrets:
  assumes "renders auth_json cfg v" and "\<And>a. auth_json a \<noteq> JNull"
  shows "Option.bind (json_get (redact_config v) ''provider'') (\<lambda>u. json_get u ''api_key'') = Some JNull
     \<and> (case Option.bind (json_get (redact_config v) ''mcp'') json_as_array of
          Some us \<Rightarrow> length us = length (cfg_mcp cfg) \<and> list_all scrubbed_server us | None \<Rightarrow> False)"
proof -
  obtain p where v: "json_get v ''provider'' = Some p" "sorted_object p" "json_get p ''api_key'' \<noteq> None"
    and mcp: "json_get v ''mcp'' = Some (JArray (map (server_to_value auth_json) (cfg_mcp cfg)))" and o: "sorted_object v"
    using assms(1) by (auto simp: renders_def split: option.splits)
  have view: "json_get (redact_config v) ''provider'' = Some (update_member ''api_key'' (\<lambda>_. JNull) p)"
    using v by (auto simp: redact_config_def set_member_update)
  have key: "json_get (update_member ''api_key'' (\<lambda>_. JNull) p) ''api_key'' = Some JNull" using v(3) by auto
  moreover have "json_get (redact_config v) ''mcp''
      = Some (JArray (map (\<lambda>s. redact_mcp_server (server_to_value auth_json s)) (cfg_mcp cfg)))"
    using mcp by (simp add: redact_config_def map_items_def)
  ultimately show ?thesis using redacted_server_scrubbed [of auth_json, OF assms(2)]
    by (simp add: view list_all_iff)
qed

section \<open>A sample\<close>

definition sample_auth :: "mcp_oauth_config \<Rightarrow> json" where
  "sample_auth a = JObject [(''scopes'', JArray (map JString (oa_scopes a)))]"

definition sample_stdio :: "(string \<times> string) list \<Rightarrow> mcp_server_config" where
  "sample_stdio env = \<lparr>ms_name = ''s'', ms_timeout_ms = 5, ms_transport = Stdio \<lparr>st_command = ''c'', st_args = [],
     st_env = env, st_cwd = None\<rparr>\<rparr>"

definition sample_http :: mcp_server_config where
  "sample_http = \<lparr>ms_name = ''h'', ms_timeout_ms = 5, ms_transport = Http \<lparr>ht_url = ''u'',
     ht_headers = [(''Authorization'', ''Bearer x'')], ht_auth = Some \<lparr>oa_client_id = None, oa_client_secret_env = None,
       oa_client_id_metadata_url = None, oa_scopes = [''a''], oa_redirect_port = 0, oa_token_store = None\<rparr>\<rparr>\<rparr>"

definition sample_config :: "nat app_config" where
  "sample_config = bootstrap_app_config\<lparr>cfg_mcp := [sample_stdio [(''TOKEN'', ''t'')], sample_http]\<rparr>"

definition sample_value :: json where
  "sample_value = JObject [(''mcp'', JArray (map (server_to_value sample_auth) (cfg_mcp sample_config))),
     (''provider'', JObject [(''api_key'', JNull)])]"

lemma sample_renders: "renders sample_auth sample_config sample_value"
  by (simp add: renders_def sample_value_def sorted_object_def sample_config_def bootstrap_app_config_def)

theorem redacted_config_restores_witness:
  "merge_config_put sample_auth (\<lambda>_. Inr sample_config) sample_config (redact_config sample_value) False = Inr sample_config"
  by (rule redacted_config_restores [OF sample_renders])
    (simp_all add: sample_auth_def sample_config_def sample_stdio_def sample_http_def restorable_def)

theorem studio_view_hides_secrets_witness:
  "Option.bind (json_get (redact_config sample_value) ''provider'') (\<lambda>u. json_get u ''api_key'') = Some JNull
     \<and> (case Option.bind (json_get (redact_config sample_value) ''mcp'') json_as_array of
          Some us \<Rightarrow> length us = length (cfg_mcp sample_config) \<and> list_all scrubbed_server us | None \<Rightarrow> False)"
  by (rule studio_view_hides_secrets [OF sample_renders]) (simp add: sample_auth_def)

text \<open>
  A variable that is set to the empty text is not shown, so it is lost when the view is handed
  back: the server comes back without it.
\<close>

theorem empty_variable_is_lost:
  "merge_server sample_auth [sample_stdio [(''A'', [])]] (redact_mcp_server (server_to_value sample_auth (sample_stdio [(''A'', [])])))
     = Inr (update_member ''env'' (\<lambda>_. JObject []) (server_to_value sample_auth (sample_stdio [(''A'', [])])))"
  by (simp add: sample_stdio_def server_to_value_def string_map_json_def json_object_def redact_mcp_server_def Let_def
      update_member_def redact_string_map_def keep_entry_def merge_server_def restore_mcp_secrets_def restore_member_def
      restore_string_map_def)

end
