(* ===== verification/Logging.thy ===== *)
theory Logging
  imports Redaction Engine Io_Facts
begin

text \<open>
  The logs of a run, \<open>src/logging/\<close>: where they go (\<open>paths.rs\<close>), the sinks and the task behind a file
  sink (\<open>sink.rs\<close>), the loggers of a configuration and the trace file (\<open>mod.rs\<close>), and the transcript
  that a later run continues (\<open>chat_history.rs\<close>).
\<close>

datatype logging_error =
    LgCreateDir path string
  | LgOpenFile path string
  | LgWriteFile path string
  | LgReadFile path string
  | LgInvalidChatHistory path string
  | LgEncode string
  | LgChannelClosed
  | LgTaskJoin string
  | LgHomeNotFound
  | LgUnsupportedSink string
  | LgTracingAlreadyInitialized path path

definition show_logging_error :: "logging_error \<Rightarrow> string" where
  "show_logging_error e = (case e of
     LgCreateDir p s \<Rightarrow> ''failed to create log directory `'' @ p @ ''`: '' @ s
   | LgOpenFile p s \<Rightarrow> ''failed to open log file `'' @ p @ ''`: '' @ s
   | LgWriteFile p s \<Rightarrow> ''failed to write log file `'' @ p @ ''`: '' @ s
   | LgReadFile p s \<Rightarrow> ''failed to read log file `'' @ p @ ''`: '' @ s
   | LgInvalidChatHistory p s \<Rightarrow> ''chat history `'' @ p @ ''` is invalid: '' @ s
   | LgEncode s \<Rightarrow> ''failed to encode log record: '' @ s
   | LgChannelClosed \<Rightarrow> ''log writer channel closed''
   | LgTaskJoin s \<Rightarrow> ''log writer task failed: '' @ s
   | LgHomeNotFound \<Rightarrow> ''user home directory is not set''
   | LgUnsupportedSink s \<Rightarrow> ''unsupported log sink: '' @ s
   | LgTracingAlreadyInitialized active requested \<Rightarrow> ''tracing already initialized for `'' @ active
       @ ''`; refusing to switch to `'' @ requested @ ''` in the same process'')"

section \<open>Where the logs go\<close>

text \<open>
  The system: the environment, directories, files, the channel of the task that writes a file, the clock,
  the flag of failed audit writes and the path of the active trace file.
\<close>

record 'w log_os =
  lo_var :: "string \<Rightarrow> string option"
  lo_create_dir_all :: "path \<Rightarrow> 'w \<Rightarrow> (string + unit) \<times> 'w"
  lo_open_append :: "path \<Rightarrow> 'w \<Rightarrow> (string + unit) \<times> 'w"
  lo_canonicalize :: "path \<Rightarrow> 'w \<Rightarrow> (string + path) \<times> 'w"
  lo_send :: "path \<Rightarrow> string \<Rightarrow> 'w \<Rightarrow> bool \<times> 'w"
  lo_clock_ms :: "'w \<Rightarrow> nat \<times> 'w"
  lo_print :: "json \<Rightarrow> string + string"
  lo_set_failed :: "'w \<Rightarrow> 'w"
  lo_trace :: "'w \<Rightarrow> path option"
  lo_set_trace :: "path \<Rightarrow> 'w \<Rightarrow> 'w"

definition ensure_dir :: "'w log_os \<Rightarrow> path \<Rightarrow> 'w \<Rightarrow> (logging_error + unit) \<times> 'w" where
  "ensure_dir L p = io_map_err (LgCreateDir p) (lo_create_dir_all L p)"

definition nonblank_var :: "'w log_os \<Rightarrow> string \<Rightarrow> string option" where
  "nonblank_var L name = (case lo_var L name of
     None \<Rightarrow> None | Some v \<Rightarrow> if trim v = [] then None else Some (trim v))"

definition user_home_dir :: "'w log_os \<Rightarrow> path option" where
  "user_home_dir L = (case nonblank_var L ''HOME'' of Some h \<Rightarrow> Some h | None \<Rightarrow> nonblank_var L ''USERPROFILE'')"

definition DEFAULT_LOG_SUBDIR :: string where
  "DEFAULT_LOG_SUBDIR = ''.agent-kuibysheff/logs''"

definition default_log_dir :: "'w log_os \<Rightarrow> 'w \<Rightarrow> (logging_error + path) \<times> 'w" where
  "default_log_dir L = (case user_home_dir L of
     None \<Rightarrow> io_fail LgHomeNotFound
   | Some h \<Rightarrow> let dir = path_join h DEFAULT_LOG_SUBDIR in io_then (ensure_dir L dir) (\<lambda>_. io_return dir))"

definition resolve_base_dir :: "'w log_os \<Rightarrow> logging_config \<Rightarrow> 'w \<Rightarrow> (logging_error + path) \<times> 'w" where
  "resolve_base_dir L c = (let use = (\<lambda>p. io_then (ensure_dir L p) (\<lambda>_. io_return p)) in
     case nonblank_var L ''AGENT_LOG_DIR'' of Some dir \<Rightarrow> use dir
     | None \<Rightarrow> (case log_output_dir c of Some dir \<Rightarrow> use dir
       | None \<Rightarrow> (case log_sink c of
           SinkFile (Some p) \<Rightarrow> use p
         | SinkFile None \<Rightarrow> default_log_dir L
         | SinkDb _ \<Rightarrow> io_fail (LgUnsupportedSink ''database sink is not implemented yet''))))"

section \<open>Sinks\<close>

datatype sink_destination = ToFile path | ToDatabase

type_synonym 'w write_event = "string \<Rightarrow> json \<Rightarrow> 'w \<Rightarrow> (logging_error + unit) \<times> 'w"

record 'w audit_sink =
  as_write :: "'w write_event"
  as_destination :: sink_destination

definition log_record :: "nat \<Rightarrow> string \<Rightarrow> json \<Rightarrow> json" where
  "log_record ts event_kind v = JObject [(''event'', JString event_kind), (''payload'', v), (''ts_ms'', JNumber (show_nat ts))]"

definition file_write_event :: "'w log_os \<Rightarrow> path \<Rightarrow> 'w write_event" where
  "file_write_event L p event_kind v w =
     (let (ts, w) = lo_clock_ms L w in
      case lo_print L (log_record ts event_kind v) of
        Inl e \<Rightarrow> (Inl (LgEncode e), w)
      | Inr row \<Rightarrow> (let (sent, w) = lo_send L p (row @ [LF]) w in
          (if sent then Inr () else Inl LgChannelClosed, w)))"

definition file_sink_new :: "'w log_os \<Rightarrow> path \<Rightarrow> 'w \<Rightarrow> (logging_error + 'w audit_sink) \<times> 'w" where
  "file_sink_new L p =
     io_then (case path_parent p of Some d \<Rightarrow> ensure_dir L d | None \<Rightarrow> io_return ()) (\<lambda>_.
     io_then (io_map_err (LgOpenFile p) (lo_open_append L p)) (\<lambda>_.
     io_return \<lparr>as_write = file_write_event L p, as_destination = ToFile p\<rparr>))"

definition db_sink_new :: "'w audit_sink" where
  "db_sink_new = \<lparr>as_write = (\<lambda>_ _. io_fail (LgUnsupportedSink ''database sink is not implemented yet'')),
     as_destination = ToDatabase\<rparr>"

definition create_event_sink :: "'w log_os \<Rightarrow> logging_config \<Rightarrow> string \<Rightarrow> 'w \<Rightarrow> (logging_error + 'w audit_sink) \<times> 'w" where
  "create_event_sink L c file_name = (case log_sink c of
     SinkFile _ \<Rightarrow> io_then (resolve_base_dir L c) (\<lambda>base. file_sink_new L (path_join base file_name))
   | SinkDb _ \<Rightarrow> io_return db_sink_new)"

definition redacting_wrap :: "redaction_policy \<Rightarrow> 'w audit_sink \<Rightarrow> 'w audit_sink" where
  "redacting_wrap P inner = inner\<lparr>as_write := redacting_write_event P (as_write inner)\<rparr>"

definition tracking_wrap :: "'w log_os \<Rightarrow> 'w audit_sink \<Rightarrow> 'w audit_sink" where
  "tracking_wrap L inner = inner\<lparr>as_write := (\<lambda>event_kind v. io_match (as_write inner event_kind v)
     (\<lambda>e w. (Inl e, lo_set_failed L w)) (\<lambda>_. io_return ()))\<rparr>"

section \<open>The loggers of a configuration\<close>

record 'w loggers =
  lg_ai :: "'w audit_sink option"
  lg_mcp :: "'w audit_sink option"
  lg_system_log :: "path option"
  lg_chat_history :: "path option"

definition audit_sink_for ::
  "'w log_os \<Rightarrow> logging_config \<Rightarrow> bool \<Rightarrow> string \<Rightarrow> 'w \<Rightarrow> (logging_error + 'w audit_sink option) \<times> 'w" where
  "audit_sink_for L c enabled file_name =
     (if \<not> enabled then io_return None
      else io_then (create_event_sink L c file_name) (\<lambda>sink.
        io_return (Some (tracking_wrap L (redacting_wrap (policy_from_config (audit_redaction c)) sink)))))"

definition loggers_from_config :: "'w log_os \<Rightarrow> logging_config \<Rightarrow> 'w \<Rightarrow> (logging_error + 'w loggers) \<times> 'w" where
  "loggers_from_config L c =
     io_then (resolve_base_dir L c) (\<lambda>base.
     io_then (audit_sink_for L c (enable_ai_log c) ''ai_usage.jsonl'') (\<lambda>ai.
     io_then (audit_sink_for L c (enable_mcp_log c) ''mcp_usage.jsonl'') (\<lambda>mcp.
     io_return \<lparr>lg_ai = ai, lg_mcp = mcp, lg_system_log = Some (path_join base ''agent.trace.log''),
       lg_chat_history = (if enable_chat_history c then Some (path_join base ''chat_history.json'') else None)\<rparr>)))"

definition destination_path :: "'w audit_sink option \<Rightarrow> string option" where
  "destination_path sink = Option.bind sink (\<lambda>s. case as_destination s of ToFile p \<Rightarrow> Some p | ToDatabase \<Rightarrow> None)"

definition loggers_report :: "'w loggers \<Rightarrow> log_report" where
  "loggers_report g = \<lparr>ai_log = destination_path (lg_ai g), mcp_log = destination_path (lg_mcp g),
     system_log = lg_system_log g, chat_log = lg_chat_history g\<rparr>"

text \<open>\<open>init_tracing\<close>: installing the subscriber may fail, which changes nothing here.\<close>

definition paths_equal :: "'w log_os \<Rightarrow> path \<Rightarrow> path \<Rightarrow> 'w \<Rightarrow> bool \<times> 'w" where
  "paths_equal L a b w =
     (if components a = components b then (True, w)
      else case lo_canonicalize L a w of
        (Inl _, w) \<Rightarrow> (False, snd (lo_canonicalize L b w))
      | (Inr ca, w) \<Rightarrow> (case lo_canonicalize L b w of
          (Inl _, w) \<Rightarrow> (False, w) | (Inr cb, w) \<Rightarrow> (components ca = components cb, w)))"

definition init_tracing :: "'w log_os \<Rightarrow> path \<Rightarrow> 'w \<Rightarrow> (logging_error + path) \<times> 'w" where
  "init_tracing L dir = io_then (ensure_dir L dir) (\<lambda>_ w.
     let trace = path_join dir ''agent.trace.log'' in
     case lo_trace L w of
       Some active \<Rightarrow> (let (same, w) = paths_equal L active trace w in
         (if same then Inr active else Inl (LgTracingAlreadyInitialized active trace), w))
     | None \<Rightarrow> io_then (io_map_err (LgOpenFile trace) (lo_open_append L trace)) (\<lambda>_ w. (Inr trace, lo_set_trace L trace w)) w)"

section \<open>What the sinks of a configuration see\<close>

lemma audit_sink_redacts:
  assumes "audit_sink_for L c enabled file_name w = (Inr (Some sink), w')"
  shows "\<exists>inner. sink = tracking_wrap L (redacting_wrap (policy_from_config (audit_redaction c)) inner)"
  using assms by (auto simp: audit_sink_for_def io_then_Inr io_return_def split: if_splits)


definition sample_log_os :: "(string \<times> json) list log_os" where
  "sample_log_os = \<lparr>lo_var = (\<lambda>_. None), lo_create_dir_all = (\<lambda>_. io_return ()), lo_open_append = (\<lambda>_. io_return ()),
     lo_canonicalize = (\<lambda>p. io_return p), lo_send = (\<lambda>p row w. (True, (row, JNull) # w)), lo_clock_ms = (\<lambda>w. (0, w)),
     lo_print = (\<lambda>v. Inr (if v = log_record 0 ''call'' (JObject [(''Token'', JString REDACTED)]) then ''redacted'' else ''other'')),
     lo_set_failed = (\<lambda>w. w), lo_trace = (\<lambda>_. None), lo_set_trace = (\<lambda>_ w. w)\<rparr>"

definition sample_logging :: logging_config where
  "sample_logging = logging_default\<lparr>enable_ai_log := True, log_output_dir := Some ''/logs''\<rparr>"


section \<open>The task behind a file sink\<close>

text \<open>
  Rows go through a channel of 64 places to one task that appends them to the file. \<open>fw_accepted\<close> are the rows
  that were sent; a write that fails may leave a part of its row.
\<close>

record file_writer =
  fw_open :: bool
  fw_queue :: "string list"
  fw_file :: string
  fw_accepted :: "string list"
  fw_lost :: bool
  fw_done :: bool

definition CHANNEL_CAPACITY :: nat where
  "CHANNEL_CAPACITY = 64"

definition writer_new :: "string \<Rightarrow> file_writer" where
  "writer_new old = \<lparr>fw_open = True, fw_queue = [], fw_file = old, fw_accepted = [], fw_lost = False, fw_done = False\<rparr>"

inductive writer_step :: "file_writer \<Rightarrow> file_writer \<Rightarrow> bool" where
  accepts: "fw_open s \<Longrightarrow> length (fw_queue s) < CHANNEL_CAPACITY \<Longrightarrow>
    writer_step s (s\<lparr>fw_queue := fw_queue s @ [row], fw_accepted := fw_accepted s @ [row]\<rparr>)"
| writes: "fw_queue s = row # rest \<Longrightarrow> writer_step s (s\<lparr>fw_queue := rest, fw_file := fw_file s @ row\<rparr>)"
| tears: "fw_queue s = row # rest \<Longrightarrow>
    writer_step s (s\<lparr>fw_queue := rest, fw_file := fw_file s @ take n row, fw_lost := True\<rparr>)"
| closes: "writer_step s (s\<lparr>fw_open := False\<rparr>)"
| ends: "\<not> fw_open s \<Longrightarrow> fw_queue s = [] \<Longrightarrow> writer_step s (s\<lparr>fw_done := True\<rparr>)"

inductive_cases writer_step_cases: "writer_step s s'"

definition writer_ok :: "string \<Rightarrow> file_writer \<Rightarrow> bool" where
  "writer_ok old s \<longleftrightarrow> length (fw_queue s) \<le> CHANNEL_CAPACITY
     \<and> (fw_lost s \<or> fw_file s @ concat (fw_queue s) = old @ concat (fw_accepted s))
     \<and> (fw_done s \<longrightarrow> fw_queue s = [] \<and> \<not> fw_open s)
     \<and> (\<exists>later. fw_file s = old @ later)"

lemma writer_ok_step: "writer_step s s' \<Longrightarrow> writer_ok old s \<Longrightarrow> writer_ok old s'"
  by (erule writer_step_cases) (auto simp: writer_ok_def)



section \<open>The transcript\<close>

definition CHAT_HISTORY_SCHEMA_VERSION :: u32 where
  "CHAT_HISTORY_SCHEMA_VERSION = 2"

record 'd chat_history_record =
  ch_schema_version :: u32
  ch_messages :: "chat_message list"
  ch_result :: "string option"
  ch_stop_reason :: "stop_reason option"
  ch_usage :: "'d usage_report option"

definition chat_record_new :: "chat_message list \<Rightarrow> 'd chat_history_record" where
  "chat_record_new ms = \<lparr>ch_schema_version = CHAT_HISTORY_SCHEMA_VERSION, ch_messages = ms,
     ch_result = None, ch_stop_reason = None, ch_usage = None\<rparr>"

definition with_run_output :: "'d run_output \<Rightarrow> 'd chat_history_record \<Rightarrow> 'd chat_history_record" where
  "with_run_output out r = r\<lparr>ch_result := Some (out_result out), ch_stop_reason := Some (out_stop_reason out),
     ch_usage := Some (out_usage out)\<rparr>"

definition fs_read :: "path \<Rightarrow> disk \<Rightarrow> (io_error + string) \<times> disk" where
  "fs_read p = fs_operation (\<lambda>_ d. d) (\<lambda>d. (case entries d p of
     None \<Rightarrow> Inl NOT_FOUND | Some DirEntry \<Rightarrow> Inl IS_DIR | Some (FileEntry s) \<Rightarrow> Inr s, d))"

text \<open>\<open>print\<close> is \<open>serde_json::to_vec_pretty\<close> of a record, \<open>parse\<close> reads schema and messages of a file.\<close>

definition write_chat_history ::
  "('d chat_history_record \<Rightarrow> string + string) \<Rightarrow> path \<Rightarrow> 'd chat_history_record \<Rightarrow> disk \<Rightarrow> (logging_error + unit) \<times> disk" where
  "write_chat_history print p r =
     io_then (case path_parent p of Some d \<Rightarrow> io_map_err (LgCreateDir d \<circ> io_text) (fs_create_dir_all d) | None \<Rightarrow> io_return ()) (\<lambda>_.
     io_then (io_lift (map_err LgEncode (print r))) (\<lambda>t.
     io_map_err (LgWriteFile p \<circ> io_text) (fs_write p t)))"

definition load_chat_history ::
  "(string \<Rightarrow> string + u32 \<times> chat_message list) \<Rightarrow> path \<Rightarrow> disk \<Rightarrow> (logging_error + chat_message list) \<times> disk" where
  "load_chat_history parse p =
     io_then (io_map_err (LgReadFile p \<circ> io_text) (fs_read p)) (\<lambda>t.
     io_then (io_lift (map_err (LgInvalidChatHistory p) (parse t))) (\<lambda>(schema, ms).
     if schema \<noteq> CHAT_HISTORY_SCHEMA_VERSION
     then io_fail (LgInvalidChatHistory p (''unsupported schema_version '' @ show_nat (unat schema) @ '' (expected 2)''))
     else if ms = [] then io_fail (LgInvalidChatHistory p ''messages is empty'')
     else io_return ms))"

definition save_chat_history ::
  "('d chat_history_record \<Rightarrow> string + string) \<Rightarrow> 'w loggers \<Rightarrow> 'd chat_history_record \<Rightarrow> disk \<Rightarrow> (logging_error + unit) \<times> disk" where
  "save_chat_history print g r = (case lg_chat_history g of
     None \<Rightarrow> io_return () | Some p \<Rightarrow> write_chat_history print p r)"

text \<open>A transcript that cannot be saved is only warned about.\<close>

definition persist_chat_history ::
  "('d chat_history_record \<Rightarrow> string + string) \<Rightarrow> 'w loggers \<Rightarrow> chat_message list \<Rightarrow> 'd run_output option \<Rightarrow> disk \<Rightarrow> disk" where
  "persist_chat_history print g ms out d =
     (if lg_chat_history g = None then d
      else snd (save_chat_history print g (case out of Some o' \<Rightarrow> with_run_output o' (chat_record_new ms)
        | None \<Rightarrow> chat_record_new ms) d))"

lemma written_transcript:
  "write_chat_history print p r d = (Inr (), d') \<Longrightarrow> \<exists>t. print r = Inr t \<and> entries d' p = Some (FileEntry t)"
  by (auto simp: write_chat_history_def io_ok map_err_eq_Inr dest!: fs_write_Inr)

text \<open>
  A saved transcript can be continued. When a transcript with messages was written, of a run that goes on or
  of one that ended with an output, reading the file back gives the messages of the run, in order: the
  later run starts where the earlier one stopped.
\<close>

theorem saved_transcript_continues:
  assumes "save_chat_history print g r d = (Inr (), d')" and "lg_chat_history g = Some p"
    and "r = chat_record_new ms \<or> r = with_run_output out (chat_record_new ms)" and "ms \<noteq> []"
    and serde: "\<And>t. print r = Inr t \<Longrightarrow> parse t = Inr (ch_schema_version r, ch_messages r)"
    and "faults d' (performed d') = None"
  shows "fst (load_chat_history parse p d') = Inr ms"
proof -
  have "write_chat_history print p r d = (Inr (), d')"
    using assms(1,2) by (simp add: save_chat_history_def)
  then obtain t where t: "print r = Inr t" and stored: "entries d' p = Some (FileEntry t)"
    by (blast dest: written_transcript)
  have "parse t = Inr (CHAT_HISTORY_SCHEMA_VERSION, ms)"
    using serde [OF t] assms(3) by (auto simp: chat_record_new_def with_run_output_def)
  then show ?thesis using stored assms(4,6)
    by (simp add: load_chat_history_def fs_read_def fs_operation_def io_then_def io_map_err_def io_lift_def io_return_def
        map_err_def Let_def)
qed

definition sample_transcript :: "nat chat_history_record" where
  "sample_transcript = chat_record_new [mk_message System ''s'']"

theorem saved_transcript_continues_witness:
  "\<exists>d'. save_chat_history (\<lambda>_. Inr ''{}'')
        (\<lparr>lg_ai = None, lg_mcp = None, lg_system_log = None, lg_chat_history = Some ''/l/c''\<rparr> :: unit loggers)
        sample_transcript empty_disk = (Inr (), d')
    \<and> fst (load_chat_history (\<lambda>_. Inr (2, [mk_message System ''s''])) ''/l/c'' d') = Inr [mk_message System ''s'']"
proof -
  let ?g = "\<lparr>lg_ai = None, lg_mcp = None, lg_system_log = None, lg_chat_history = Some ''/l/c''\<rparr> :: unit loggers"
  obtain d' where d: "save_chat_history (\<lambda>_. Inr ''{}'') ?g sample_transcript empty_disk = (Inr (), d')"
      and f: "faults d' (performed d') = None"
    by (cases "path_parent ''/l/c''")
      (simp_all add: save_chat_history_def write_chat_history_def empty_disk_def fs_ops io_then_def io_map_err_def io_lift_def
        io_return_def map_err_def)
  have "fst (load_chat_history (\<lambda>_. Inr (2, [mk_message System ''s''])) ''/l/c'' d') = Inr [mk_message System ''s'']"
    by (rule saved_transcript_continues [OF d _ _ _ _ f])
      (simp_all add: sample_transcript_def chat_record_new_def CHAT_HISTORY_SCHEMA_VERSION_def)
  then show ?thesis using d by auto
qed

end
