(* ===== verification/Studio_Jobs.thy ===== *)
theory Studio_Jobs
  imports Effects
begin

text \<open>
  The runs of the Studio server, \<open>crates/kbshff-studio/src/jobs.rs\<close>: one \<open>kbshff run\<close> at a time, its
  progress events, its end. The manager is a state with the handles it ever made, the reference of the
  active one and of the last one. Requests and the task that drives a child interleave: each section
  under a lock is one step.
\<close>

section \<open>Requests, jobs, the manager\<close>

definition EVENT_BUFFER :: nat where
  "EVENT_BUFFER = 512"

datatype job_status = JobRunning | JobCompleted | JobFailed | JobCancelled

fun job_status_str :: "job_status \<Rightarrow> string" where
  "job_status_str JobRunning = ''running''"
| "job_status_str JobCompleted = ''completed''"
| "job_status_str JobFailed = ''failed''"
| "job_status_str JobCancelled = ''cancelled''"

record start_run_request =
  sr_prompt :: string
  sr_files :: "path list"
  sr_home :: "path option"
  sr_max_iterations :: "u32 option"
  sr_max_tokens :: "u64 option"
  sr_max_duration_sec :: "u64 option"
  sr_max_cost :: "string option"
  sr_save_chat_history :: bool
  sr_continue_from_chat :: bool

datatype start_job_error = JobConflict | JobInvalid string

text \<open>
  Where the task of a job is: it watches its child, waits for an interrupted child, has reported the
  outcome, has announced it, has cleaned up.
\<close>

datatype driver = Watching | Interrupted | Reported | Announced | Retired

record job =
  job_run_id :: string
  job_agent_id :: string
  job_status :: job_status
  job_output :: "json option"
  job_error :: "string option"
  job_history :: "json list"
  job_cancel_sent :: bool
  job_driver :: driver

text \<open>The sender of the active job is its own, or, after a cancellation, that of a channel without receiver.\<close>

record active_job =
  aj_handle :: nat
  aj_connected :: bool

record job_manager =
  jm_jobs :: "job list"
  jm_active :: "active_job option"
  jm_last :: "nat option"

definition manager_new :: job_manager where
  "manager_new = \<lparr>jm_jobs = [], jm_active = None, jm_last = None\<rparr>"

definition on_job :: "nat \<Rightarrow> (job \<Rightarrow> job) \<Rightarrow> job_manager \<Rightarrow> job_manager" where
  "on_job r f m = m\<lparr>jm_jobs := (jm_jobs m)[r := f (jm_jobs m ! r)]\<rparr>"

section \<open>Where a run logs, and its command line\<close>

definition slashes :: "string \<Rightarrow> string" where
  "slashes s = map (\<lambda>c. if c = CHR 0x5C then CHR ''/'' else c) s"

definition studio_run_log_dir :: "path \<Rightarrow> string \<Rightarrow> path option \<Rightarrow> string + path" where
  "studio_run_log_dir root agent home_arg =
     rbind (case home_arg of
         None \<Rightarrow> Inr (path_join (path_join (path_join root ''.kuibysheff'') ''homes'') agent)
       | Some raw \<Rightarrow>
           if is_absolute raw then Inl ''home must be relative under .kuibysheff/''
           else if raw = [] \<or> contains_str raw ''..'' \<or> contains_str (slashes raw) ''protected/'' \<or> slashes raw = ''protected''
           then Inl (''home `'' @ raw @ ''` must be relative under .kuibysheff/ (not protected/)'')
           else Inr (path_join (path_join root ''.kuibysheff'') raw)) (\<lambda>home_root.
     Inr (path_join home_root ''logs''))"

definition opt_arg :: "string \<Rightarrow> ('a \<Rightarrow> string) \<Rightarrow> 'a option \<Rightarrow> string list" where
  "opt_arg flag show_value v = (case v of None \<Rightarrow> [] | Some x \<Rightarrow> [flag, show_value x])"

definition run_args :: "path \<Rightarrow> string \<Rightarrow> string \<Rightarrow> start_run_request \<Rightarrow> path option \<Rightarrow> string list" where
  "run_args root agent run_id req continue_from =
     [''run'', ''--project-root'', root, ''--agent'', agent, ''--run-id'', run_id, ''--progress'', ''stderr'']
     @ (if is_blank (sr_prompt req) then [] else [''--prompt'', sr_prompt req])
     @ opt_arg ''--home'' (\<lambda>p. p) (sr_home req)
     @ concat (map (\<lambda>f. [''--files'', f]) (sr_files req))
     @ opt_arg ''--max-iterations'' (show_nat \<circ> unat) (sr_max_iterations req)
     @ opt_arg ''--max-tokens'' (show_nat \<circ> unat) (sr_max_tokens req)
     @ opt_arg ''--max-duration-sec'' (show_nat \<circ> unat) (sr_max_duration_sec req)
     @ (case sr_max_cost req of Some c \<Rightarrow> if is_blank c then [] else [''--max-cost'', c] | None \<Rightarrow> [])
     @ (case continue_from of
          Some p \<Rightarrow> [''--continue-from'', p, ''--save-chat-history'']
        | None \<Rightarrow> if sr_save_chat_history req then [''--save-chat-history''] else [])"

fun show_hex :: "nat \<Rightarrow> string" where
  "show_hex n =
     (let digit = (\<lambda>d. char_of (if d < 10 then 48 + d else 87 + d)) in
      if n < 16 then [digit n] else show_hex (n div 16) @ [digit (n mod 16)])"

declare show_hex.simps [simp del]

definition new_run_id :: "nat \<Rightarrow> nat \<Rightarrow> string" where
  "new_run_id nanos pid = ''run-'' @ show_hex nanos @ ''-'' @ show_nat pid"

section \<open>Operations under the lock of the manager\<close>

text \<open>
  The system: is there a file, create directories, start a child with its log directory in the
  environment, the clock and the process id.
\<close>

record 'w studio_os =
  so_exists :: "path \<Rightarrow> 'w \<Rightarrow> bool \<times> 'w"
  so_create_dir_all :: "path \<Rightarrow> 'w \<Rightarrow> (string + unit) \<times> 'w"
  so_spawn :: "path \<Rightarrow> string list \<Rightarrow> path \<Rightarrow> 'w \<Rightarrow> (string + unit) \<times> 'w"
  so_nanos :: "'w \<Rightarrow> nat \<times> 'w"
  so_pid :: nat

record kbshff =
  kb_bin :: path
  kb_project_root :: path

definition not_started :: "path \<Rightarrow> string \<Rightarrow> string" where
  "not_started bin e = ''failed to start `'' @ bin @ ''`: '' @ e @ ''. Install kbshff or pass --kbshff / set KBSHFF_BIN.''"

definition spawn_run :: "'w studio_os \<Rightarrow> path \<Rightarrow> string list \<Rightarrow> path \<Rightarrow> 'w \<Rightarrow> (string + unit) \<times> 'w" where
  "spawn_run S bin args log_dir =
     io_then (io_map_err (\<lambda>e. ''create log dir `'' @ log_dir @ ''`: '' @ e) (so_create_dir_all S log_dir)) (\<lambda>_.
     io_map_err (not_started bin) (so_spawn S bin args log_dir))"

definition is_running :: "job_manager \<Rightarrow> nat \<Rightarrow> bool" where
  "is_running m r \<longleftrightarrow> job_status (jm_jobs m ! r) = JobRunning"

definition busy :: "job_manager \<Rightarrow> bool" where
  "busy m = (case jm_active m of Some active \<Rightarrow> is_running m (aj_handle active) | None \<Rightarrow> False)"

text \<open>A sender that is dropped wakes its receiver like one that sends.\<close>

definition drop_active :: "job_manager \<Rightarrow> job_manager" where
  "drop_active m = (case jm_active m of
     None \<Rightarrow> m
   | Some active \<Rightarrow> (if aj_connected active then on_job (aj_handle active) (\<lambda>j. j\<lparr>job_cancel_sent := True\<rparr>) m else m)
       \<lparr>jm_active := None\<rparr>)"

definition fresh_job :: "string \<Rightarrow> string \<Rightarrow> job" where
  "fresh_job run_id agent = \<lparr>job_run_id = run_id, job_agent_id = agent, job_status = JobRunning, job_output = None,
     job_error = None, job_history = [], job_cancel_sent = False, job_driver = Watching\<rparr>"

definition install_job :: "job \<Rightarrow> job_manager \<Rightarrow> job_manager" where
  "install_job j m = (let m = drop_active m in
     m\<lparr>jm_jobs := jm_jobs m @ [j], jm_active := Some \<lparr>aj_handle = length (jm_jobs m), aj_connected = True\<rparr>\<rparr>)"

definition chat_to_continue :: "'w studio_os \<Rightarrow> path \<Rightarrow> start_run_request \<Rightarrow> 'w \<Rightarrow> (string + path option) \<times> 'w" where
  "chat_to_continue S log_dir req w =
     (if \<not> sr_continue_from_chat req then (Inr None, w)
      else let chat = path_join log_dir ''chat_history.json''; (found, w) = so_exists S chat w in
        if found then (Inr (Some chat), w)
        else (Inl (''chat history not found at `'' @ chat
          @ ''`; enable Save chat history and complete a run first''), w))"

definition launch ::
  "'w studio_os \<Rightarrow> kbshff \<Rightarrow> string \<Rightarrow> start_run_request \<Rightarrow> path \<Rightarrow> path option \<Rightarrow> job_manager \<times> 'w
   \<Rightarrow> (start_job_error + nat) \<times> job_manager \<times> 'w" where
  "launch S K agent req log_dir continue_from = (\<lambda>(m, w).
     if busy m then (Inl JobConflict, m, w)
     else
       let (nanos, w) = so_nanos S w;
           run_id = new_run_id nanos (so_pid S);
           (started, w) = spawn_run S (kb_bin K) (run_args (kb_project_root K) agent run_id req continue_from) log_dir w in
       case started of
         Inl e \<Rightarrow> (Inl (JobInvalid e), m, w)
       | Inr _ \<Rightarrow> (Inr (length (jm_jobs m)), install_job (fresh_job run_id agent) m, w))"

definition start_job ::
  "'w studio_os \<Rightarrow> kbshff \<Rightarrow> string \<Rightarrow> start_run_request \<Rightarrow> job_manager \<times> 'w
   \<Rightarrow> (start_job_error + nat) \<times> job_manager \<times> 'w" where
  "start_job S K agent req = (\<lambda>(m, w).
     case studio_run_log_dir (kb_project_root K) agent (sr_home req) of
       Inl e \<Rightarrow> (Inl (JobInvalid e), m, w)
     | Inr log_dir \<Rightarrow>
         let (chat, w) = chat_to_continue S log_dir req w in
         case chat of
           Inl e \<Rightarrow> (Inl (JobInvalid e), m, w)
         | Inr continue_from \<Rightarrow>
             if is_blank (sr_prompt req) \<and> continue_from = None
             then (Inl (JobInvalid ''prompt must not be empty''), m, w)
             else launch S K agent req log_dir continue_from (m, w))"

definition has_run_id :: "job_manager \<Rightarrow> string \<Rightarrow> nat \<Rightarrow> bool" where
  "has_run_id m run_id r \<longleftrightarrow> job_run_id (jm_jobs m ! r) = run_id"

definition get_job :: "string \<Rightarrow> job_manager \<Rightarrow> nat option" where
  "get_job run_id m =
     (case map_option aj_handle (jm_active m) of
        Some r \<Rightarrow> if has_run_id m run_id r then Some r
          else (case jm_last m of Some l \<Rightarrow> if has_run_id m run_id l then Some l else None | None \<Rightarrow> None)
      | None \<Rightarrow> (case jm_last m of Some l \<Rightarrow> if has_run_id m run_id l then Some l else None | None \<Rightarrow> None))"

text \<open>The error of a cancellation is always that the run is not the active one.\<close>

definition cancel_job :: "string \<Rightarrow> job_manager \<Rightarrow> (unit + unit) \<times> job_manager" where
  "cancel_job run_id m = (case jm_active m of
     None \<Rightarrow> (Inl (), m)
   | Some active \<Rightarrow>
       if \<not> has_run_id m run_id (aj_handle active) then (Inl (), m)
       else (Inr (), (if aj_connected active then on_job (aj_handle active) (\<lambda>j. j\<lparr>job_cancel_sent := True\<rparr>) m else m)
         \<lparr>jm_active := Some \<lparr>aj_handle = aj_handle active, aj_connected = False\<rparr>\<rparr>))"

section \<open>A job and its driver\<close>

definition push_history :: "json \<Rightarrow> job \<Rightarrow> job" where
  "push_history event j = j\<lparr>job_history :=
     (if EVENT_BUFFER \<le> length (job_history j) then tl (job_history j) else job_history j) @ [event]\<rparr>"

definition event_type :: "json \<Rightarrow> string option" where
  "event_type v = Option.bind (json_get v ''type'') json_as_str"

definition parse_progress_line :: "(string \<Rightarrow> string + json) \<Rightarrow> string \<Rightarrow> json option" where
  "parse_progress_line from_str line = (case from_str (trim line) of
     Inl _ \<Rightarrow> None
   | Inr v \<Rightarrow> (case event_type v of None \<Rightarrow> None | Some kind \<Rightarrow> if kind = [] then None else Some v))"

text \<open>A line of the child's stderr.\<close>

definition progress_line :: "(string \<Rightarrow> string + json) \<Rightarrow> string \<Rightarrow> job \<Rightarrow> job" where
  "progress_line from_str line j = (case parse_progress_line from_str line of
     None \<Rightarrow> j
   | Some event \<Rightarrow> if event_type event = Some ''done'' then j else push_history event j)"

definition DONE_EVENT :: json where
  "DONE_EVENT = JObject [(''type'', JString ''done'')]"

text \<open>
  What a child that ended means: \<open>exit_status\<close> is the error of waiting or whether the status is a success,
  with its text.
\<close>

definition run_outcome ::
  "(string \<Rightarrow> string + json) \<Rightarrow> bool \<Rightarrow> string + (bool \<times> string) \<Rightarrow> string \<Rightarrow> job_status \<times> json option \<times> string option" where
  "run_outcome from_str was_cancelled exit_status stdout =
     (let exit_ok = (case exit_status of Inr (ok, _) \<Rightarrow> ok | Inl _ \<Rightarrow> False);
          parsed = (case from_str (trim stdout) of Inr v \<Rightarrow> Some v | Inl _ \<Rightarrow> None) in
      if was_cancelled then (JobCancelled, parsed, None)
      else case parsed of
        Some v \<Rightarrow>
          ((if Option.bind (json_get v ''stop_reason'') json_as_str = Some ''error'' \<or> \<not> exit_ok
            then JobFailed else JobCompleted), Some v, None)
      | None \<Rightarrow> (JobFailed, None, Some
          (if is_blank stdout
           then ''kbshff exited '' @ (case exit_status of Inr (_, t) \<Rightarrow> t | Inl e \<Rightarrow> e)
           else trim stdout)))"

definition finish :: "job_status \<times> json option \<times> string option \<Rightarrow> job \<Rightarrow> job" where
  "finish outcome j = (case outcome of (st, out, e) \<Rightarrow>
     j\<lparr>job_status := st, job_output := out, job_error := e, job_driver := Reported\<rparr>)"

definition announce :: "job \<Rightarrow> job" where
  "announce j = (push_history DONE_EVENT j)\<lparr>job_driver := Announced\<rparr>"

text \<open>The last section of the task: under the lock of the manager, if the job is still the active one.\<close>

definition retire :: "nat \<Rightarrow> job_manager \<Rightarrow> job_manager" where
  "retire r m =
     (let m = on_job r (\<lambda>j. j\<lparr>job_driver := Retired\<rparr>) m in
      if (case jm_active m of Some active \<Rightarrow> has_run_id m (job_run_id (jm_jobs m ! r)) (aj_handle active) | None \<Rightarrow> False)
      then (drop_active m)\<lparr>jm_last := Some r\<rparr> else m)"

definition status_response :: "job \<Rightarrow> json" where
  "status_response j = JObject [(''agent_id'', JString (job_agent_id j)),
     (''error'', case job_error j of Some e \<Rightarrow> JString e | None \<Rightarrow> JNull),
     (''output'', case job_output j of Some v \<Rightarrow> v | None \<Rightarrow> JNull),
     (''run_id'', JString (job_run_id j)), (''status'', JString (job_status_str (job_status j)))]"

definition log_key :: "string \<Rightarrow> string option" where
  "log_key which = map_of [(''ai'', ''ai_log''), (''mcp'', ''mcp_log''), (''system'', ''system_log''), (''chat'', ''chat_log'')] which"

definition log_path :: "string \<Rightarrow> job \<Rightarrow> path option" where
  "log_path which j =
     Option.bind (Option.bind (job_output j) (\<lambda>v. json_get v ''logs'')) (\<lambda>logs.
     Option.bind (log_key which) (\<lambda>key. Option.bind (json_get logs key) json_as_str))"

section \<open>Interleavings\<close>

text \<open>
  The steps of the server. A run id is made of the nanoseconds of the clock, which the lock keeps from
  being read twice at once; here it is one that no other run has.
\<close>

inductive job_step :: "(string \<Rightarrow> string + json) \<Rightarrow> job_manager \<Rightarrow> job_manager \<Rightarrow> bool" for from_str where
  started: "\<not> busy m \<Longrightarrow> run_id \<notin> job_run_id ` set (jm_jobs m) \<Longrightarrow> job_step from_str m (install_job (fresh_job run_id agent) m)"
| cancels: "job_step from_str m (snd (cancel_job run_id m))"
| prints: "r < length (jm_jobs m) \<Longrightarrow> job_driver (jm_jobs m ! r) \<in> {Watching, Interrupted} \<Longrightarrow>
    job_step from_str m (on_job r (progress_line from_str line) m)"
| notices: "r < length (jm_jobs m) \<Longrightarrow> job_driver (jm_jobs m ! r) = Watching \<Longrightarrow> job_cancel_sent (jm_jobs m ! r) \<Longrightarrow>
    job_step from_str m (on_job r (\<lambda>j. j\<lparr>job_driver := Interrupted\<rparr>) m)"
| ends: "r < length (jm_jobs m) \<Longrightarrow> job_driver (jm_jobs m ! r) \<in> {Watching, Interrupted} \<Longrightarrow>
    job_step from_str m (on_job r
      (finish (run_outcome from_str (job_driver (jm_jobs m ! r) = Interrupted) exit_status stdout)) m)"
| announces: "r < length (jm_jobs m) \<Longrightarrow> job_driver (jm_jobs m ! r) = Reported \<Longrightarrow>
    job_step from_str m (on_job r announce m)"
| retires: "r < length (jm_jobs m) \<Longrightarrow> job_driver (jm_jobs m ! r) = Announced \<Longrightarrow> job_step from_str m (retire r m)"

inductive_cases job_step_cases: "job_step from_str m m'"


section \<open>At most one run\<close>

definition is_done :: "json \<Rightarrow> bool" where
  "is_done v \<longleftrightarrow> event_type v = Some ''done''"

definition job_ok :: "job \<Rightarrow> bool" where
  "job_ok j \<longleftrightarrow>
     (job_status j = JobRunning \<longleftrightarrow> job_driver j \<in> {Watching, Interrupted})
     \<and> (job_driver j = Interrupted \<longrightarrow> job_cancel_sent j)
     \<and> length (job_history j) \<le> EVENT_BUFFER
     \<and> (if job_driver j \<in> {Announced, Retired}
        then (\<exists>earlier. job_history j = earlier @ [DONE_EVENT] \<and> list_all (\<lambda>v. \<not> is_done v) earlier)
        else list_all (\<lambda>v. \<not> is_done v) (job_history j))"

definition manager_ok :: "job_manager \<Rightarrow> bool" where
  "manager_ok m \<longleftrightarrow>
     list_all job_ok (jm_jobs m)
     \<and> distinct (map job_run_id (jm_jobs m))
     \<and> (\<forall>a. jm_active m = Some a \<longrightarrow> aj_handle a < length (jm_jobs m))
     \<and> (\<forall>r < length (jm_jobs m). is_running m r \<longrightarrow> map_option aj_handle (jm_active m) = Some r)"

lemma length_on_job [simp]: "length (jm_jobs (on_job r f m)) = length (jm_jobs m)"
  by (simp add: on_job_def)

lemma on_job_frame [simp]: "jm_active (on_job r f m) = jm_active m" "jm_last (on_job r f m) = jm_last m"
  by (simp_all add: on_job_def)

lemma on_job_nth: "q < length (jm_jobs m) \<Longrightarrow> jm_jobs (on_job r f m) ! q = (if q = r then f (jm_jobs m ! q) else jm_jobs m ! q)"
  by (simp add: on_job_def nth_list_update)

lemma on_job_run_ids:
  assumes "\<And>j. job_run_id (f j) = job_run_id j"
  shows "map job_run_id (jm_jobs (on_job r f m)) = map job_run_id (jm_jobs m)"
  by (rule nth_equalityI) (simp_all add: on_job_nth assms)

lemma manager_ok_on_job:
  assumes "manager_ok m" and "r < length (jm_jobs m)" and ok: "job_ok (f (jm_jobs m ! r))"
    and ids: "\<And>j. job_run_id (f j) = job_run_id j"
    and runs: "job_status (f (jm_jobs m ! r)) = JobRunning \<Longrightarrow> job_status (jm_jobs m ! r) = JobRunning"
  shows "manager_ok (on_job r f m)"
  using assms by (auto simp: manager_ok_def list_all_length on_job_nth on_job_run_ids is_running_def split: if_splits)

lemma DONE_EVENT_done [simp]: "is_done DONE_EVENT"
  by (simp add: is_done_def DONE_EVENT_def event_type_def)

lemma push_history_bounded: "length (job_history j) \<le> EVENT_BUFFER \<Longrightarrow> length (job_history (push_history e j)) \<le> EVENT_BUFFER"
  by (auto simp: push_history_def EVENT_BUFFER_def)

lemma list_all_tl: "list_all P xs \<Longrightarrow> list_all P (tl xs)"
  by (cases xs) auto

lemma push_history_frame [simp]:
  "job_status (push_history e j) = job_status j" "job_driver (push_history e j) = job_driver j"
  "job_run_id (push_history e j) = job_run_id j" "job_cancel_sent (push_history e j) = job_cancel_sent j"
  by (simp_all add: push_history_def)

lemma progress_line_ok:
  assumes "job_ok j" and "job_driver j \<in> {Watching, Interrupted}"
  shows "job_ok (progress_line from_str line j)"
  using assms push_history_bounded [of j]
  by (auto simp: progress_line_def job_ok_def is_done_def push_history_def list_all_tl split: option.split)

lemma finish_ok:
  assumes "job_ok j" and "job_driver j \<in> {Watching, Interrupted}" and "fst outcome \<noteq> JobRunning"
  shows "job_ok (finish outcome j)"
  using assms by (cases outcome) (auto simp: finish_def job_ok_def)

lemma finish_frame: "job_status (finish outcome j) = fst outcome" "job_run_id (finish outcome j) = job_run_id j"
  by (simp_all add: finish_def split: prod.split)

lemma run_outcome_ends: "fst (run_outcome from_str c st out) \<noteq> JobRunning"
  by (auto simp: run_outcome_def Let_def split: option.split)

lemma announce_ok:
  assumes "job_ok j" and "job_driver j = Reported"
  shows "job_ok (announce j)"
  using assms push_history_bounded [of j DONE_EVENT]
  by (auto simp: announce_def job_ok_def push_history_def list_all_tl)

lemma sent_ok: "job_ok j \<Longrightarrow> job_ok (j\<lparr>job_cancel_sent := True\<rparr>)"
  by (simp add: job_ok_def)

lemma manager_ok_sent: "manager_ok m \<Longrightarrow> r < length (jm_jobs m) \<Longrightarrow> manager_ok (on_job r (\<lambda>j. j\<lparr>job_cancel_sent := True\<rparr>) m)"
  by (rule manager_ok_on_job) (auto simp: manager_ok_def list_all_length sent_ok)

lemma drop_active_jobs:
  assumes "manager_ok m"
  shows "list_all job_ok (jm_jobs (drop_active m)) \<and> distinct (map job_run_id (jm_jobs (drop_active m)))
    \<and> map job_status (jm_jobs (drop_active m)) = map job_status (jm_jobs m)
    \<and> map job_run_id (jm_jobs (drop_active m)) = map job_run_id (jm_jobs m)
    \<and> length (jm_jobs (drop_active m)) = length (jm_jobs m)"
proof (cases "jm_active m")
  case None
  then show ?thesis using assms by (simp add: drop_active_def manager_ok_def)
next
  case (Some a)
  then have r: "aj_handle a < length (jm_jobs m)" using assms by (simp add: manager_ok_def)
  have "map job_status (jm_jobs (on_job (aj_handle a) (\<lambda>j. j\<lparr>job_cancel_sent := True\<rparr>) m)) = map job_status (jm_jobs m)"
    by (rule nth_equalityI) (simp_all add: on_job_nth)
  then show ?thesis using assms manager_ok_sent [OF assms r] Some
    by (simp add: drop_active_def manager_ok_def on_job_run_ids)
qed

lemma manager_ok_install:
  assumes "manager_ok m" and idle: "\<not> busy m" and new: "run_id \<notin> job_run_id ` set (jm_jobs m)"
  shows "manager_ok (install_job (fresh_job run_id agent) m)"
proof -
  let ?m = "drop_active m"
  note d = drop_active_jobs [OF assms(1)]
  have "\<not> is_running m r" if "r < length (jm_jobs m)" for r
    using assms(1) idle that by (auto simp: manager_ok_def busy_def split: option.splits)
  then have "\<not> is_running ?m r" if "r < length (jm_jobs ?m)" for r
    using that d by (metis is_running_def nth_map)
  moreover have "job_ok (fresh_job run_id agent)" by (simp add: fresh_job_def job_ok_def EVENT_BUFFER_def)
  moreover have "run_id \<notin> set (map job_run_id (jm_jobs ?m))" using new d by simp
  ultimately show ?thesis using d
    by (auto simp: install_job_def Let_def manager_ok_def is_running_def nth_append fresh_job_def)
qed

lemma manager_ok_cancel: "manager_ok m \<Longrightarrow> manager_ok (snd (cancel_job run_id m))"
proof (cases "jm_active m")
  case (Some a)
  moreover assume ok: "manager_ok m"
  ultimately have "aj_handle a < length (jm_jobs m)" by (simp add: manager_ok_def)
  then have "manager_ok (on_job (aj_handle a) (\<lambda>j. j\<lparr>job_cancel_sent := True\<rparr>) m)" using ok manager_ok_sent by blast
  then show ?thesis using ok Some by (auto simp: cancel_job_def manager_ok_def is_running_def)
qed (simp add: cancel_job_def)

lemma manager_ok_retire:
  assumes "manager_ok m" and r: "r < length (jm_jobs m)" and "job_driver (jm_jobs m ! r) = Announced"
  shows "manager_ok (retire r m)"
proof -
  let ?m = "on_job r (\<lambda>j. j\<lparr>job_driver := Retired\<rparr>) m"
  have jr: "job_ok (jm_jobs m ! r)" using assms by (simp add: manager_ok_def list_all_length)
  then have rest: "job_status (jm_jobs m ! r) \<noteq> JobRunning" using assms(3) by (simp add: job_ok_def)
  have ok: "manager_ok ?m"
    by (rule manager_ok_on_job [OF assms(1) r]) (use jr assms(3) in \<open>auto simp: job_ok_def\<close>)
  show ?thesis
  proof (cases "\<exists>a. jm_active m = Some a \<and> has_run_id ?m (job_run_id (jm_jobs ?m ! r)) (aj_handle a)")
    case True
    then obtain a where a: "jm_active m = Some a" and id: "has_run_id ?m (job_run_id (jm_jobs ?m ! r)) (aj_handle a)" by blast
    have len: "aj_handle a < length (jm_jobs ?m)" using ok a by (simp add: manager_ok_def)
    then have "aj_handle a = r" using ok id r
      by (auto simp: manager_ok_def has_run_id_def distinct_map inj_on_def distinct_conv_nth)
    then have idle: "\<not> is_running ?m q" if "q < length (jm_jobs ?m)" for q
      using ok that rest a r by (auto simp: manager_ok_def is_running_def on_job_nth)
    note d = drop_active_jobs [OF ok]
    have "\<not> is_running (drop_active ?m) q" if "q < length (jm_jobs (drop_active ?m))" for q
      using idle [of q] that d by (metis is_running_def nth_map)
    then show ?thesis using d a id
      by (auto simp: retire_def Let_def manager_ok_def is_running_def drop_active_def split: option.splits)
  next
    case False
    then show ?thesis using ok by (auto simp: retire_def Let_def split: option.splits)
  qed
qed

lemma manager_job_ok: "manager_ok m \<Longrightarrow> r < length (jm_jobs m) \<Longrightarrow> job_ok (jm_jobs m ! r)"
  by (simp add: manager_ok_def list_all_length)

lemma manager_ok_step:
  assumes "job_step from_str m m'" and ok: "manager_ok m"
  shows "manager_ok m'"
  using assms(1)
proof cases
  case (prints r line)
  show ?thesis unfolding prints(1)
    by (rule manager_ok_on_job [OF ok prints(2)], rule progress_line_ok [OF manager_job_ok [OF ok prints(2)] prints(3)])
      (auto simp: progress_line_def split: option.splits if_splits)
next
  case (notices r)
  show ?thesis unfolding notices(1)
    by (rule manager_ok_on_job [OF ok notices(2)]) (use manager_job_ok [OF ok notices(2)] notices(3,4) in \<open>auto simp: job_ok_def\<close>)
next
  case (ends r exit_status stdout)
  show ?thesis unfolding ends(1)
    by (rule manager_ok_on_job [OF ok ends(2)], rule finish_ok [OF manager_job_ok [OF ok ends(2)] ends(3) run_outcome_ends])
      (simp_all add: finish_frame run_outcome_ends)
next
  case (announces r)
  show ?thesis unfolding announces(1)
    by (rule manager_ok_on_job [OF ok announces(2)], rule announce_ok [OF manager_job_ok [OF ok announces(2)] announces(3)])
      (auto simp: announce_def)
qed (use ok manager_ok_install manager_ok_cancel manager_ok_retire in auto)

lemma manager_ok_new: "manager_ok manager_new"
  by (simp add: manager_ok_def manager_new_def)

lemma manager_reachable_ok: "(job_step from_str)\<^sup>*\<^sup>* manager_new m \<Longrightarrow> manager_ok m"
  by (induction rule: rtranclp_induct) (auto intro: manager_ok_new manager_ok_step)

text \<open>What an idle manager has: every job has ended.\<close>

lemma manager_busy:
  assumes "manager_ok m"
  shows "busy m \<longleftrightarrow> (\<exists>r < length (jm_jobs m). is_running m r)"
  using assms by (auto simp: manager_ok_def busy_def split: option.splits)

text \<open>
  C23: One run at a time, and a proper end for each. However requests and the tasks of the children
  interleave: at most one job is running, the manager is busy exactly then and holds that job as its active
  one, no history is longer than its buffer, and a job that announced its end has the \<open>done\<close> event as
  its last and no other, one that did not has none, whatever its child printed.
\<close>

theorem one_run_at_a_time:
  assumes "(job_step from_str)\<^sup>*\<^sup>* manager_new m"
  shows "card {r. r < length (jm_jobs m) \<and> is_running m r} \<le> 1
    \<and> (busy m \<longleftrightarrow> (\<exists>r < length (jm_jobs m). is_running m r \<and> map_option aj_handle (jm_active m) = Some r))
    \<and> list_all (\<lambda>j. length (job_history j) \<le> EVENT_BUFFER
        \<and> (if job_driver j \<in> {Announced, Retired}
           then length (filter is_done (job_history j)) = 1 \<and> is_done (last (job_history j))
           else filter is_done (job_history j) = [])) (jm_jobs m)"
proof -
  have ok: "manager_ok m" by (rule manager_reachable_ok [OF assms])
  then have "{r. r < length (jm_jobs m) \<and> is_running m r} \<subseteq> set_option (map_option aj_handle (jm_active m))"
    by (auto simp: manager_ok_def)
  then have "card {r. r < length (jm_jobs m) \<and> is_running m r} \<le> card (set_option (map_option aj_handle (jm_active m)))"
    by (rule card_mono [rotated]) simp
  also have "\<dots> \<le> 1" by (cases "jm_active m") auto
  finally have one: "card {r. r < length (jm_jobs m) \<and> is_running m r} \<le> 1" .
  have "list_all job_ok (jm_jobs m)" using ok by (simp add: manager_ok_def)
  then have "list_all (\<lambda>j. length (job_history j) \<le> EVENT_BUFFER
        \<and> (if job_driver j \<in> {Announced, Retired}
           then length (filter is_done (job_history j)) = 1 \<and> is_done (last (job_history j))
           else filter is_done (job_history j) = [])) (jm_jobs m)"
    by (rule list.pred_mono_strong) (auto simp: job_ok_def list_all_iff filter_empty_conv)
  then show ?thesis using one ok manager_busy [OF ok] by (auto simp: manager_ok_def)
qed

definition sample_running :: job_manager where
  "sample_running = \<lparr>jm_jobs = [fresh_job ''r'' ''a''], jm_active = Some \<lparr>aj_handle = 0, aj_connected = True\<rparr>, jm_last = None\<rparr>"

definition sample_end :: job_manager where
  "sample_end = on_job 0 announce (on_job 0 (finish (run_outcome Inl False (Inr (True, [])) ''x'')) sample_running)"

lemma sample_end_reached: "(job_step Inl)\<^sup>*\<^sup>* manager_new sample_end"
proof -
  let ?done = "on_job 0 (finish (run_outcome Inl False (Inr (True, [])) ''x'')) sample_running"
  have m: "install_job (fresh_job ''r'' ''a'') manager_new = sample_running"
    by (simp add: sample_running_def install_job_def manager_new_def drop_active_def)
  have "job_step Inl manager_new sample_running"
    unfolding m [symmetric] by (rule started) (simp_all add: manager_new_def busy_def)
  moreover have "job_step Inl sample_running ?done"
    using ends [of 0 sample_running Inl "Inr (True, [])" "''x''"] by (simp add: sample_running_def fresh_job_def)
  moreover have "job_step Inl ?done sample_end" unfolding sample_end_def
    by (rule announces) (simp_all add: on_job_def sample_running_def finish_def split: prod.split)
  ultimately show ?thesis by (meson rtranclp.rtrancl_into_rtrancl rtranclp.rtrancl_refl)
qed

theorem one_run_at_a_time_witness:
  "\<not> busy sample_end \<and> length (filter is_done (job_history (jm_jobs sample_end ! 0))) = 1"
proof -
  note t = one_run_at_a_time [OF sample_end_reached]
  have len: "length (jm_jobs sample_end) = 1" and st: "\<not> is_running sample_end 0"
      and dr: "job_driver (jm_jobs sample_end ! 0) = Announced"
    using run_outcome_ends [of Inl False "Inr (True, [])" "''x''"]
    by (simp_all add: sample_end_def on_job_def sample_running_def announce_def is_running_def finish_frame)
  have idle: "\<not> busy sample_end" using t st len by simp
  have "\<forall>j\<in>set (jm_jobs sample_end). job_driver j \<in> {Announced, Retired} \<longrightarrow> length (filter is_done (job_history j)) = 1"
    using t by (auto simp: list_all_iff)
  then have "length (filter is_done (job_history (jm_jobs sample_end ! 0))) = 1"
    using len dr by (simp add: nth_mem)
  then show ?thesis using idle by simp
qed

section \<open>Cancelling\<close>

text \<open>
  Only the run that is asked to stop is interrupted. When a running job gets a cancellation in a step
  of the server, that step is a cancellation request with the job's own run id, and the job is the active one.
\<close>

lemma drop_active_idle:
  assumes "manager_ok m" and "\<not> busy m" and "r < length (jm_jobs m)"
  shows "\<not> is_running m r"
  using assms by (auto simp: manager_busy)

theorem only_the_named_run_is_cancelled:
  assumes reach: "(job_step from_str)\<^sup>*\<^sup>* manager_new m" and step: "job_step from_str m m'"
    and r: "r < length (jm_jobs m)" and run: "is_running m' r"
    and sent: "\<not> job_cancel_sent (jm_jobs m ! r)" "job_cancel_sent (jm_jobs m' ! r)"
  shows "m' = snd (cancel_job (job_run_id (jm_jobs m ! r)) m) \<and> fst (cancel_job (job_run_id (jm_jobs m ! r)) m) = Inr ()
    \<and> get_job (job_run_id (jm_jobs m ! r)) m = Some r"
proof -
  have ok: "manager_ok m" by (rule manager_reachable_ok [OF reach])
  show ?thesis using step
  proof cases
    case (started run_id agent)
    have "is_running m r" using run r drop_active_jobs [OF ok] unfolding started
      by (auto simp: install_job_def Let_def is_running_def nth_append) (metis nth_map)
    then show ?thesis using drop_active_idle [OF ok started(2) r] by simp
  next
    case (cancels run_id)
    then show ?thesis using r sent ok
      by (auto simp: cancel_job_def get_job_def has_run_id_def on_job_nth split: option.splits if_splits)
  next
    case (prints q line)
    then show ?thesis using r sent by (auto simp: on_job_nth progress_line_def split: option.splits if_splits)
  next
    case (notices q)
    then show ?thesis using r sent by (auto simp: on_job_nth split: if_splits)
  next
    case (ends q exit_status stdout)
    then show ?thesis using r sent by (auto simp: on_job_nth finish_def split: prod.splits if_splits)
  next
    case (announces q)
    then show ?thesis using r sent by (auto simp: on_job_nth announce_def split: if_splits)
  next
    case (retires q)
    have rest: "job_status (jm_jobs m ! q) \<noteq> JobRunning"
      using manager_job_ok [OF ok retires(2)] retires(3) by (simp add: job_ok_def)
    have same: "aj_handle a = q" if "jm_active m = Some a" "job_run_id (jm_jobs m ! aj_handle a) = job_run_id (jm_jobs m ! q)" for a
      using ok that retires(2) unfolding manager_ok_def distinct_conv_nth by (metis length_map nth_map)
    show ?thesis using run sent r rest retires same
      by (cases "r = q") (auto simp: retire_def Let_def drop_active_def on_job_nth is_running_def has_run_id_def split: option.splits if_splits)
  qed
qed

theorem only_the_named_run_is_cancelled_witness:
  "job_cancel_sent (jm_jobs (snd (cancel_job ''r'' sample_running)) ! 0) \<and> get_job ''r'' sample_running = Some 0"
proof -
  have reach: "(job_step Inl)\<^sup>*\<^sup>* manager_new sample_running"
  proof (rule r_into_rtranclp)
    have "install_job (fresh_job ''r'' ''a'') manager_new = sample_running"
      by (simp add: sample_running_def install_job_def manager_new_def drop_active_def)
    moreover have "job_step Inl manager_new (install_job (fresh_job ''r'' ''a'') manager_new)"
      by (rule started) (simp_all add: manager_new_def busy_def)
    ultimately show "job_step Inl manager_new sample_running" by simp
  qed
  note facts = sample_running_def fresh_job_def cancel_job_def has_run_id_def on_job_def is_running_def
  have "is_running (snd (cancel_job ''r'' sample_running)) 0" "\<not> job_cancel_sent (jm_jobs sample_running ! 0)"
      "job_cancel_sent (jm_jobs (snd (cancel_job ''r'' sample_running)) ! 0)" "0 < length (jm_jobs sample_running)"
      "job_run_id (jm_jobs sample_running ! 0) = ''r''"
    by (simp_all add: facts)
  then show ?thesis
    using only_the_named_run_is_cancelled [OF reach cancels [of Inl sample_running "''r''"], of 0] by simp
qed

section \<open>What the code does besides\<close>

text \<open>
  A run that ended while the next one is started is forgotten: the new job takes the place of the active
  one before the old task gets the lock, and the old task then leaves \<open>last\<close> alone.
\<close>

lemma finished_run_forgotten:
  "get_job ''r'' (retire 0 (install_job (fresh_job ''s'' ''a'') sample_end)) = None"
  by (simp add: sample_end_def sample_running_def install_job_def drop_active_def retire_def get_job_def has_run_id_def
      on_job_def fresh_job_def announce_def finish_def push_history_def Let_def run_outcome_def)

text \<open>The checks of the home compare text only, and the agent is not checked at all.\<close>

lemma home_dot_protected:
  "studio_run_log_dir ''/p'' ''a'' (Some ''./protected'') = Inr ''/p/.kuibysheff/./protected/logs''"
  by code_simp

lemma agent_leaves_the_project:
  "studio_run_log_dir ''/p'' ''../../../etc'' None = Inr ''/p/.kuibysheff/homes/../../../etc/logs''"
  by code_simp

end
