(* ===== verification/Studio_Api.thy ===== *)
theory Studio_Api
  imports Studio_Jobs
begin

text \<open>
  The HTTP interface of the Studio server, \<open>crates/kbshff-studio/src/api.rs\<close>, and its client for the
  \<open>kbshff\<close> command, \<open>kbshff.rs\<close>. A request is what the router and the extractors of axum hand to a
  handler; the process runner, the file system, \<open>serde_json\<close> and the embedded assets are parameters.
\<close>

section \<open>Running the command\<close>

record exec_result =
  ex_success :: bool
  ex_code :: "int option"
  ex_stdout :: string
  ex_stderr :: string

datatype exec_failure = NotSpawned string | StdinFailed string | WaitFailedWith string

record 'w studio_net =
  st_os :: "'w studio_os"
  st_run :: "path \<Rightarrow> string list \<Rightarrow> string option \<Rightarrow> 'w \<Rightarrow> (exec_failure + exec_result) \<times> 'w"
  st_canonicalize :: "path \<Rightarrow> 'w \<Rightarrow> (string + path) \<times> 'w"
  st_len :: "path \<Rightarrow> 'w \<Rightarrow> (string + nat) \<times> 'w"
  st_open :: "path \<Rightarrow> 'w \<Rightarrow> (string + unit) \<times> 'w"
  st_read :: "path \<Rightarrow> nat option \<Rightarrow> 'w \<Rightarrow> (string + string) \<times> 'w"
  st_lossy :: "string \<Rightarrow> string"
  st_from_str :: "string \<Rightarrow> string + json"
  st_to_string :: "json \<Rightarrow> string"
  st_show_int :: "int \<Rightarrow> string"
  st_asset :: "string \<Rightarrow> (string \<times> string) option"

definition exec_command :: "'w studio_net \<Rightarrow> kbshff \<Rightarrow> string list \<Rightarrow> string option \<Rightarrow> 'w \<Rightarrow> (string + exec_result) \<times> 'w" where
  "exec_command S K args stdin = io_map_err (\<lambda>e. case e of
       NotSpawned t \<Rightarrow> not_started (kb_bin K) t
     | StdinFailed t \<Rightarrow> ''write kbshff stdin: '' @ t
     | WaitFailedWith t \<Rightarrow> ''wait for kbshff: '' @ t) (st_run S (kb_bin K) args stdin)"

definition failure_text :: "'w studio_net \<Rightarrow> exec_result \<Rightarrow> string" where
  "failure_text S r =
     (if trim (ex_stderr r) \<noteq> [] then trim (ex_stderr r)
      else if trim (ex_stdout r) \<noteq> [] then trim (ex_stdout r)
      else ''kbshff exited with status '' @ st_show_int S (case ex_code r of Some c \<Rightarrow> c | None \<Rightarrow> -1))"

definition stdout_json :: "'w studio_net \<Rightarrow> exec_result \<Rightarrow> string + json" where
  "stdout_json S r =
     (let trimmed = trim (ex_stdout r) in
      case (if trimmed = [] then None else (case st_from_str S trimmed of Inr v \<Rightarrow> Some v | Inl _ \<Rightarrow> None)) of
        Some v \<Rightarrow>
          (if json_get v ''ok'' = Some (JBool False)
           then Inl (case Option.bind (json_get v ''error'') json_as_str of Some t \<Rightarrow> t | None \<Rightarrow> ''kbshff reported failure'')
           else Inr v)
      | None \<Rightarrow> if ex_success r then Inr JNull else Inl (failure_text S r))"

definition exec_json :: "'w studio_net \<Rightarrow> kbshff \<Rightarrow> string list \<Rightarrow> string option \<Rightarrow> 'w \<Rightarrow> (string + json) \<times> 'w" where
  "exec_json S K args stdin = io_then (exec_command S K args stdin) (\<lambda>r. io_lift (stdout_json S r))"

definition identity_prefix :: "kbshff \<Rightarrow> string \<Rightarrow> string \<Rightarrow> string list" where
  "identity_prefix K command agent =
     [command, ''--project-root'', kb_project_root K, ''--agent'', agent, ''--format'', ''json'']"

definition config_prefix :: "kbshff \<Rightarrow> string \<Rightarrow> string list" where
  "config_prefix K agent = identity_prefix K ''config'' agent"

definition envelope_data :: "json \<Rightarrow> json" where
  "envelope_data v = (case json_get v ''data'' of Some d \<Rightarrow> d | None \<Rightarrow> v)"

section \<open>Requests and responses\<close>

datatype studio_request =
    ListAgents
  | CreateAgent string bool
  | ImportAgent string path bool
  | GetConfig string
  | PutConfig string string
  | GetPrompt string
  | PutPrompt string string
  | GetRules string
  | PutRules string string
  | GetSkills string
  | PutSkills string string
  | GetSkillBody string string
  | PutSkillBody string string string
  | PutSecret string string string
  | RunCheck string
  | McpDiscover string "string option"
  | McpCall string string string json
  | ListOut string
  | GetOutFile string string
  | StartRun string start_run_request
  | GetRun string
  | CancelRun string
  | RunEvents string
  | RunLogs string string
  | Asset string

datatype response_body = JsonBody json | EventStream "string list" | AssetBody string string

record studio_response =
  rs_status :: nat
  rs_body :: response_body

definition err_response :: "nat \<Rightarrow> string \<Rightarrow> studio_response" where
  "err_response code message = \<lparr>rs_status = code, rs_body = JsonBody (JObject [(''error'', JString message)])\<rparr>"

definition json_response :: "json \<Rightarrow> studio_response" where
  "json_response v = \<lparr>rs_status = 200, rs_body = JsonBody v\<rparr>"

definition studio_header_ok :: "string option \<Rightarrow> bool" where
  "studio_header_ok header \<longleftrightarrow> header = Some ''1''"

definition reject_missing_studio_header :: studio_response where
  "reject_missing_studio_header = err_response 403 ''missing or invalid X-Kbshff-Studio header''"

text \<open>What every handler makes of the outcome of a command: 400 with the error, or \<open>shape\<close> of the JSON.\<close>

definition answered :: "(json \<Rightarrow> json) \<Rightarrow> (string + json) \<times> 'w \<Rightarrow> studio_response \<times> 'w" where
  "answered shape out = (case out of
     (Inl message, w) \<Rightarrow> (err_response 400 message, w) | (Inr v, w) \<Rightarrow> (json_response (shape v), w))"

definition content_of :: "string \<Rightarrow> json \<Rightarrow> json" where
  "content_of field v = JObject [(''content'', JString
     (case Option.bind (json_get (envelope_data v) field) json_as_str of Some t \<Rightarrow> t | None \<Rightarrow> []))]"

definition ok_json :: json where
  "ok_json = JObject [(''ok'', JBool True)]"

section \<open>Handlers of agents, configuration and tools\<close>

definition list_agents :: "'w studio_net \<Rightarrow> kbshff \<Rightarrow> 'w \<Rightarrow> studio_response \<times> 'w" where
  "list_agents S K w = answered (\<lambda>v. v) (exec_json S K
     [''agent'', ''list'', ''--project-root'', kb_project_root K, ''--format'', ''json''] None w)"

definition profile_dir_of :: "path \<Rightarrow> string \<Rightarrow> path" where
  "profile_dir_of root agent =
     path_join (path_join (path_join (path_join root ''.kuibysheff'') ''protected'') ''agents'') agent"

definition create_agent :: "'w studio_net \<Rightarrow> kbshff \<Rightarrow> string \<Rightarrow> bool \<Rightarrow> 'w \<Rightarrow> studio_response \<times> 'w" where
  "create_agent S K agent force w =
     (case exec_command S K ([''init'', agent, ''--project-root'', kb_project_root K]
         @ (if force then [''--force''] else [])) None w of
        (Inl message, w) \<Rightarrow> (err_response 400 message, w)
      | (Inr r, w) \<Rightarrow>
          (if ex_success r
           then json_response (JObject [(''agent'', JString agent), (''ok'', JBool True),
             (''profile_dir'', JString (profile_dir_of (kb_project_root K) agent))])
           else err_response 400 (failure_text S r), w))"

definition import_agent :: "'w studio_net \<Rightarrow> kbshff \<Rightarrow> string \<Rightarrow> path \<Rightarrow> bool \<Rightarrow> 'w \<Rightarrow> studio_response \<times> 'w" where
  "import_agent S K agent source force w = answered (\<lambda>_. JObject [(''agent'', JString agent), (''ok'', JBool True)])
     (exec_json S K (config_prefix K agent @ [''import'', ''--from'', source] @ (if force then [''--force''] else [])) None w)"

definition config_command ::
  "'w studio_net \<Rightarrow> kbshff \<Rightarrow> string \<Rightarrow> string list \<Rightarrow> string option \<Rightarrow> (json \<Rightarrow> json) \<Rightarrow> 'w \<Rightarrow> studio_response \<times> 'w" where
  "config_command S K agent args stdin shape w = answered shape (exec_json S K (config_prefix K agent @ args) stdin w)"

definition text_get :: "'w studio_net \<Rightarrow> kbshff \<Rightarrow> string \<Rightarrow> string \<Rightarrow> string \<Rightarrow> 'w \<Rightarrow> studio_response \<times> 'w" where
  "text_get S K agent command field = config_command S K agent [command, ''get''] None (content_of field)"

definition text_put :: "'w studio_net \<Rightarrow> kbshff \<Rightarrow> string \<Rightarrow> string \<Rightarrow> string \<Rightarrow> 'w \<Rightarrow> studio_response \<times> 'w" where
  "text_put S K agent command body = config_command S K agent [command, ''set'', ''--stdin''] (Some body) (\<lambda>_. ok_json)"

definition put_skill_body :: "'w studio_net \<Rightarrow> kbshff \<Rightarrow> string \<Rightarrow> string \<Rightarrow> string \<Rightarrow> 'w \<Rightarrow> studio_response \<times> 'w" where
  "put_skill_body S K agent name body =
     (if is_blank body then config_command S K agent [''skill'', ''body'', ''clear'', name] None (\<lambda>_. ok_json)
      else config_command S K agent [''skill'', ''body'', ''set'', name, ''--stdin''] (Some body) (\<lambda>_. ok_json))"

definition mcp_call :: "'w studio_net \<Rightarrow> kbshff \<Rightarrow> string \<Rightarrow> string \<Rightarrow> string \<Rightarrow> json \<Rightarrow> 'w \<Rightarrow> studio_response \<times> 'w" where
  "mcp_call S K agent server t args w =
     (if is_blank server \<or> is_blank t then (err_response 400 ''server and tool are required'', w)
      else answered (\<lambda>v. v) (exec_json S K
        (identity_prefix K ''mcp'' agent @ [''call'', ''--server'', server, ''--tool'', t])
        (Some (st_to_string S (if args = JNull then JObject [] else args))) w))"

text \<open>\<open>args.insert(1, "out")\<close>.\<close>

definition out_prefix :: "kbshff \<Rightarrow> string \<Rightarrow> string list" where
  "out_prefix K agent = (let args = identity_prefix K ''agent'' agent in take 1 args @ [''out''] @ drop 1 args)"

section \<open>Handlers of runs\<close>

definition start_run ::
  "'w studio_net \<Rightarrow> kbshff \<Rightarrow> string \<Rightarrow> start_run_request \<Rightarrow> job_manager \<times> 'w \<Rightarrow> studio_response \<times> job_manager \<times> 'w" where
  "start_run S K agent req st = (case start_job (st_os S) K agent req st of
     (Inr r, m, w) \<Rightarrow> (\<lparr>rs_status = 202, rs_body = JsonBody (JObject
         [(''agent_id'', JString (job_agent_id (jm_jobs m ! r))), (''run_id'', JString (job_run_id (jm_jobs m ! r))),
          (''status'', JString ''running'')])\<rparr>, m, w)
   | (Inl JobConflict, st) \<Rightarrow> (err_response 409 ''another studio run is already in progress'', st)
   | (Inl (JobInvalid message), st) \<Rightarrow> (err_response 400 message, st))"

definition get_run :: "string \<Rightarrow> job_manager \<Rightarrow> studio_response" where
  "get_run run_id m = (case get_job run_id m of
     Some r \<Rightarrow> json_response (status_response (jm_jobs m ! r)) | None \<Rightarrow> err_response 404 ''run not found'')"

definition cancel_run_request :: "string \<Rightarrow> job_manager \<Rightarrow> studio_response \<times> job_manager" where
  "cancel_run_request run_id m = (case cancel_job run_id m of
     (Inr _, m) \<Rightarrow> (json_response ok_json, m) | (Inl _, m) \<Rightarrow> (err_response 404 ''active run not found'', m))"

text \<open>The events so far; the live ones behind them come from the broadcast channel.\<close>

definition run_events :: "'w studio_net \<Rightarrow> string \<Rightarrow> job_manager \<Rightarrow> studio_response" where
  "run_events S run_id m = (case get_job run_id m of
     Some r \<Rightarrow> \<lparr>rs_status = 200, rs_body = EventStream (map (st_to_string S) (job_history (jm_jobs m ! r)))\<rparr>
   | None \<Rightarrow> err_response 404 ''run not found'')"

definition path_inside_root :: "'w studio_net \<Rightarrow> path \<Rightarrow> path \<Rightarrow> 'w \<Rightarrow> bool \<times> 'w" where
  "path_inside_root S root candidate w = (case st_canonicalize S root w of
     (Inl _, w) \<Rightarrow> (False, w)
   | (Inr canonical_root, w) \<Rightarrow> (case st_canonicalize S candidate w of
       (Inl _, w) \<Rightarrow> (False, w)
     | (Inr p, w) \<Rightarrow> (path_starts_with p canonical_root, w)))"

definition MAX_LOG_TAIL_BYTES :: nat where
  "MAX_LOG_TAIL_BYTES = 256 * 1024"

definition read_tail :: "'w studio_net \<Rightarrow> path \<Rightarrow> nat \<Rightarrow> 'w \<Rightarrow> (string + string) \<times> 'w" where
  "read_tail S p max_bytes =
     io_then (st_len S p) (\<lambda>n. io_then (st_open S p) (\<lambda>_.
     io_then (st_read S p (if max_bytes < n then Some max_bytes else None)) (\<lambda>bytes. io_return (st_lossy S bytes))))"

definition run_logs :: "'w studio_net \<Rightarrow> kbshff \<Rightarrow> string \<Rightarrow> string \<Rightarrow> job_manager \<times> 'w \<Rightarrow> studio_response \<times> job_manager \<times> 'w" where
  "run_logs S K run_id which = (\<lambda>(m, w). case get_job run_id m of
     None \<Rightarrow> (err_response 404 ''run not found'', m, w)
   | Some r \<Rightarrow> (case log_path which (jm_jobs m ! r) of
       None \<Rightarrow> (err_response 404 ''log not available yet'', m, w)
     | Some p \<Rightarrow>
         let (inside, w) = path_inside_root S (kb_project_root K) p w in
         if \<not> inside then (err_response 400 ''log path is outside the project root'', m, w)
         else (case read_tail S p MAX_LOG_TAIL_BYTES w of
             (Inl message, w) \<Rightarrow> (err_response 400 message, m, w)
           | (Inr body, w) \<Rightarrow> (json_response (JObject [(''content'', JString body), (''path'', JString p),
               (''which'', JString which)]), m, w))))"

definition serve_asset :: "'w studio_net \<Rightarrow> string \<Rightarrow> studio_response" where
  "serve_asset S p =
     (let name = (if p = [] \<or> p = ''/'' then ''index.html'' else dropWhile (\<lambda>c. c = CHR ''/'') p) in
      case st_asset S name of
        Some (mime, bytes) \<Rightarrow> \<lparr>rs_status = 200, rs_body = AssetBody mime bytes\<rparr>
      | None \<Rightarrow> err_response 404 ''asset not found'')"

section \<open>The router\<close>

definition guarded_by_header ::
  "string option \<Rightarrow> ('s \<Rightarrow> studio_response \<times> 's) \<Rightarrow> 's \<Rightarrow> studio_response \<times> 's" where
  "guarded_by_header header act st = (if studio_header_ok header then act st else (reject_missing_studio_header, st))"

definition on_net :: "('w \<Rightarrow> studio_response \<times> 'w) \<Rightarrow> job_manager \<times> 'w \<Rightarrow> studio_response \<times> job_manager \<times> 'w" where
  "on_net act = (\<lambda>(m, w). let (r, w) = act w in (r, m, w))"

definition on_manager :: "(job_manager \<Rightarrow> studio_response \<times> job_manager) \<Rightarrow> job_manager \<times> 'w \<Rightarrow> studio_response \<times> job_manager \<times> 'w" where
  "on_manager act = (\<lambda>(m, w). let (r, m) = act m in (r, m, w))"

fun studio_handle ::
  "'w studio_net \<Rightarrow> kbshff \<Rightarrow> string option \<Rightarrow> studio_request \<Rightarrow> job_manager \<times> 'w \<Rightarrow> studio_response \<times> job_manager \<times> 'w" where
  "studio_handle S K h ListAgents = on_net (list_agents S K)"
| "studio_handle S K h (CreateAgent agent force) = guarded_by_header h (on_net (create_agent S K agent force))"
| "studio_handle S K h (ImportAgent agent source force) = guarded_by_header h (on_net (import_agent S K agent source force))"
| "studio_handle S K h (GetConfig agent) = on_net (config_command S K agent [''document'', ''get''] None envelope_data)"
| "studio_handle S K h (PutConfig agent body) =
     guarded_by_header h (on_net (config_command S K agent [''document'', ''set''] (Some body) envelope_data))"
| "studio_handle S K h (GetPrompt agent) = on_net (text_get S K agent ''prompt'' ''master_prompt'')"
| "studio_handle S K h (PutPrompt agent body) = guarded_by_header h (on_net (text_put S K agent ''prompt'' body))"
| "studio_handle S K h (GetRules agent) = on_net (text_get S K agent ''rules'' ''rules'')"
| "studio_handle S K h (PutRules agent body) = guarded_by_header h (on_net (text_put S K agent ''rules'' body))"
| "studio_handle S K h (GetSkills agent) = on_net (config_command S K agent [''skill'', ''list''] None envelope_data)"
| "studio_handle S K h (PutSkills agent body) =
     guarded_by_header h (on_net (config_command S K agent [''skill'', ''replace''] (Some body) envelope_data))"
| "studio_handle S K h (GetSkillBody agent name) =
     on_net (config_command S K agent [''skill'', ''body'', ''get'', name] None (content_of ''content''))"
| "studio_handle S K h (PutSkillBody agent name body) = guarded_by_header h (on_net (put_skill_body S K agent name body))"
| "studio_handle S K h (PutSecret agent key secret) =
     guarded_by_header h (on_net (config_command S K agent [''secret'', ''set'', ''--key'', key] (Some secret) envelope_data))"
| "studio_handle S K h (RunCheck agent) =
     guarded_by_header h (on_net (\<lambda>w. answered (\<lambda>v. v) (exec_json S K (identity_prefix K ''check'' agent) None w)))"
| "studio_handle S K h (McpDiscover agent server) =
     guarded_by_header h (on_net (\<lambda>w. answered (\<lambda>v. v) (exec_json S K
       (identity_prefix K ''mcp'' agent @ [''discover''] @ opt_arg ''--server'' (\<lambda>s. s) server) None w)))"
| "studio_handle S K h (McpCall agent server t args) = guarded_by_header h (on_net (mcp_call S K agent server t args))"
| "studio_handle S K h (ListOut agent) =
     on_net (\<lambda>w. answered (\<lambda>v. v) (exec_json S K (out_prefix K agent @ [''list'']) None w))"
| "studio_handle S K h (GetOutFile agent name) =
     on_net (\<lambda>w. answered (\<lambda>v. v) (exec_json S K (out_prefix K agent @ [''show'', name]) None w))"
| "studio_handle S K h (StartRun agent req) = guarded_by_header h (start_run S K agent req)"
| "studio_handle S K h (GetRun run_id) = on_manager (\<lambda>m. (get_run run_id m, m))"
| "studio_handle S K h (CancelRun run_id) = guarded_by_header h (on_manager (cancel_run_request run_id))"
| "studio_handle S K h (RunEvents run_id) = on_manager (\<lambda>m. (run_events S run_id m, m))"
| "studio_handle S K h (RunLogs run_id which) = run_logs S K run_id which"
| "studio_handle S K h (Asset p) = (\<lambda>st. (serve_asset S p, st))"

fun mutates :: "studio_request \<Rightarrow> bool" where
  "mutates ListAgents = False"
| "mutates (GetConfig agent) = False"
| "mutates (GetPrompt agent) = False"
| "mutates (GetRules agent) = False"
| "mutates (GetSkills agent) = False"
| "mutates (GetSkillBody agent name) = False"
| "mutates (ListOut agent) = False"
| "mutates (GetOutFile agent name) = False"
| "mutates (GetRun run_id) = False"
| "mutates (RunEvents run_id) = False"
| "mutates (RunLogs run_id which) = False"
| "mutates (Asset p) = False"
| "mutates _ = True"

section \<open>What a request can do\<close>

text \<open>The commands that read: the words in front of an agent and behind the identity.\<close>

inductive reading_command :: "kbshff \<Rightarrow> string list \<Rightarrow> bool" for K where
  lists: "reading_command K [''agent'', ''list'', ''--project-root'', kb_project_root K, ''--format'', ''json'']"
| profile_reads: "words \<in> set [[''document'', ''get''], [''prompt'', ''get''], [''rules'', ''get''], [''skill'', ''list''],
    [''skill'', ''body'', ''get'', name]] \<Longrightarrow> reading_command K (config_prefix K agent @ words)"
| out_files: "words \<in> set [[''list''], [''show'', name]] \<Longrightarrow> reading_command K (out_prefix K agent @ words)"

text \<open>A log that once resolved to a place below the resolved project root.\<close>

definition log_admitted :: "'w studio_net \<Rightarrow> kbshff \<Rightarrow> path \<Rightarrow> bool" where
  "log_admitted S K p \<longleftrightarrow> (\<exists>w w' c root. fst (st_canonicalize S (kb_project_root K) w) = Inr root
     \<and> fst (st_canonicalize S p w') = Inr c \<and> path_starts_with c root)"

inductive studio_read :: "'w studio_net \<Rightarrow> kbshff \<Rightarrow> 'w \<Rightarrow> 'w \<Rightarrow> bool" for S K where
  commands: "reading_command K args \<Longrightarrow> studio_read S K w (snd (st_run S (kb_bin K) args None w))"
| canonicalizes: "studio_read S K w (snd (st_canonicalize S p w))"
| sizes: "log_admitted S K p \<Longrightarrow> studio_read S K w (snd (st_len S p w))"
| opens: "log_admitted S K p \<Longrightarrow> studio_read S K w (snd (st_open S p w))"
| reads_log: "log_admitted S K p \<Longrightarrow> studio_read S K w (snd (st_read S p n w))"

lemma answered_world: "snd (answered shape out) = snd out"
  by (cases out) (auto simp: answered_def split: sum.split)

lemma exec_json_reads: "reading_command K args \<Longrightarrow> (studio_read S K)\<^sup>*\<^sup>* w (snd (exec_json S K args None w))"
  unfolding exec_json_def exec_command_def
  by (rule runs_world, rule runs_then [OF runs_map_err [OF runs_step]]) (auto intro: commands runs_weaken [OF runs_lift])

lemma config_command_reads:
  "reading_command K (config_prefix K agent @ args) \<Longrightarrow> (studio_read S K)\<^sup>*\<^sup>* w (snd (config_command S K agent args None shape w))"
  by (simp add: config_command_def answered_world exec_json_reads)

lemma read_tail_reads: "log_admitted S K p \<Longrightarrow> (studio_read S K)\<^sup>*\<^sup>* w (snd (read_tail S p n w))"
  unfolding read_tail_def
  by (rule runs_world) (auto intro!: runs_then [OF runs_step] runs_return sizes opens reads_log)

lemma path_inside_reads:
  assumes "path_inside_root S (kb_project_root K) p w = (inside, w')"
  shows "(studio_read S K)\<^sup>*\<^sup>* w w'" and "inside \<Longrightarrow> log_admitted S K p"
proof -
  obtain r1 w1 where c1: "st_canonicalize S (kb_project_root K) w = (r1, w1)" by fastforce
  obtain r2 w2 where c2: "st_canonicalize S p w1 = (r2, w2)" by fastforce
  have s: "studio_read S K w w1" "studio_read S K w1 w2"
    using canonicalizes [of S K w "kb_project_root K"] canonicalizes [of S K w1 p] c1 c2 by simp_all
  show "(studio_read S K)\<^sup>*\<^sup>* w w'" using assms c1 c2 s
    by (cases r1; cases r2) (auto simp: path_inside_root_def)
  show "log_admitted S K p" if yes: inside
  proof -
    obtain root c where "r1 = Inr root" "r2 = Inr c" "path_starts_with c root"
      using yes assms c1 c2 by (cases r1; cases r2) (auto simp: path_inside_root_def)
    then have "fst (st_canonicalize S (kb_project_root K) w) = Inr root" "fst (st_canonicalize S p w1) = Inr c"
        "path_starts_with c root" using c1 c2 by simp_all
    then show ?thesis unfolding log_admitted_def by blast
  qed
qed

lemma run_logs_reads:
  "fst (snd (run_logs S K run_id which (m, w))) = m \<and> (studio_read S K)\<^sup>*\<^sup>* w (snd (snd (run_logs S K run_id which (m, w))))"
proof (cases "get_job run_id m")
  case (Some r)
  note job = this
  show ?thesis
  proof (cases "log_path which (jm_jobs m ! r)")
    case (Some p)
    obtain inside w1 where i: "path_inside_root S (kb_project_root K) p w = (inside, w1)" by fastforce
    obtain out w2 where t: "read_tail S p MAX_LOG_TAIL_BYTES w1 = (out, w2)" by fastforce
    have "(studio_read S K)\<^sup>*\<^sup>* w w2" if inside
      using read_tail_reads [OF path_inside_reads(2) [OF i that], of w1 MAX_LOG_TAIL_BYTES] t
        rtranclp_trans [OF path_inside_reads(1) [OF i]] by simp
    then show ?thesis using job Some i t path_inside_reads(1) [OF i]
      by (cases inside; cases out) (simp_all add: run_logs_def)
  qed (simp add: run_logs_def job)
qed (simp add: run_logs_def)

lemma reading_commands:
  "reading_command K (config_prefix K agent @ [''document'', ''get''])"
  "reading_command K (config_prefix K agent @ [''prompt'', ''get''])"
  "reading_command K (config_prefix K agent @ [''rules'', ''get''])"
  "reading_command K (config_prefix K agent @ [''skill'', ''list''])"
  "reading_command K (config_prefix K agent @ [''skill'', ''body'', ''get'', name])"
  by (rule profile_reads, simp)+

lemma out_commands:
  "reading_command K (out_prefix K agent @ [''list''])" "reading_command K (out_prefix K agent @ [''show'', name])"
  by (rule out_files, simp)+

lemma on_net_world: "on_net act (m, w) = (fst (act w), m, snd (act w))"
  by (simp add: on_net_def split_beta)

text \<open>
  C22: A page of another origin cannot make the Studio change anything. Without the header
  \<open>X-Kbshff-Studio: 1\<close>, which a browser does not send across origins on its own, a request that changes
  something is refused with 403 before it touches the runs or the system; every other request, with or
  without the header, leaves the runs alone and does no more than run the reading commands for the
  Studio's own project and read logs that resolve to a place below its root.
\<close>

theorem studio_changes_need_header:
  "case studio_handle S K header req (m, w) of (resp, m', w') \<Rightarrow>
     if mutates req
     then (if studio_header_ok header then fst (studio_handle S K (Some ''1'') req (m, w)) = resp
           else resp = reject_missing_studio_header \<and> m' = m \<and> w' = w)
     else m' = m \<and> (studio_read S K)\<^sup>*\<^sup>* w w'"
proof (cases "mutates req")
  case True
  then show ?thesis
    by (cases req) (auto simp: guarded_by_header_def studio_header_ok_def split: prod.split)
next
  case False
  have "fst (snd (studio_handle S K header req (m, w))) = m
      \<and> (studio_read S K)\<^sup>*\<^sup>* w (snd (snd (studio_handle S K header req (m, w))))"
    using False
    by (cases req) (simp_all add: on_net_world on_manager_def list_agents_def answered_world exec_json_reads
        config_command_reads text_get_def reading_commands out_commands lists run_logs_reads)
  then show ?thesis using False by (simp add: split_beta)
qed

end
