(* ===== verification/Prompt_Args.thy ===== *)
theory Prompt_Args
  imports Billing Project_Paths
begin

text \<open>
  What one turn of the agent is asked to do, \<open>AgentPromptArgs\<close> of \<open>app.rs\<close>: the argument of
  \<open>run_agent_prompt\<close>, which the command line and both protocol servers fill in. The cancellation token and
  the event channel are kept by those who make it.
\<close>

record 'd agent_prompt_args =
  pa_config :: path
  pa_settings_dir :: path
  pa_home :: path
  pa_project_root :: "path option"
  pa_agent_id :: string
  pa_prompt :: string
  pa_run_id :: "string option"
  pa_files :: "path list"
  pa_max_iterations :: "u32 option"
  pa_max_tokens :: "u64 option"
  pa_max_duration_sec :: "u64 option"
  pa_max_cost :: "'d money option"
  pa_save_chat_history :: bool
  pa_continue_from :: "path option"

text \<open>The arguments of \<open>kbshff run\<close>, \<open>cli/mod.rs\<close>.\<close>

record 'd cli_run_args =
  ra_project_root :: path
  ra_agent :: string
  ra_prompt :: string
  ra_continue_from :: "path option"
  ra_run_id :: "string option"
  ra_home :: "path option"
  ra_files :: "path list"
  ra_max_iterations :: "u32 option"
  ra_max_tokens :: "u64 option"
  ra_max_duration_sec :: "u64 option"
  ra_max_cost :: "'d money option"
  ra_save_chat_history :: bool

text \<open>\<open>uni\<close> are the alphanumerics outside ASCII.\<close>

definition prompt_args_of_cli ::
  "(string \<Rightarrow> bool) \<Rightarrow> 'd cli_run_args \<Rightarrow> agent_path_error + 'd agent_prompt_args" where
  "prompt_args_of_cli uni cli =
     rbind (resolve_agent_identity uni (ra_project_root cli) (ra_agent cli) (ra_home cli)) (\<lambda>paths.
     Inr \<lparr>pa_config = config_file paths, pa_settings_dir = settings_dir paths, pa_home = home paths,
       pa_project_root = Some (project_root paths), pa_agent_id = agent_id paths, pa_prompt = ra_prompt cli,
       pa_run_id = ra_run_id cli, pa_files = ra_files cli, pa_max_iterations = ra_max_iterations cli,
       pa_max_tokens = ra_max_tokens cli, pa_max_duration_sec = ra_max_duration_sec cli,
       pa_max_cost = ra_max_cost cli, pa_save_chat_history = ra_save_chat_history cli,
       pa_continue_from = ra_continue_from cli\<rparr>)"

text \<open>
  The arguments of a turn that stay where they belong: the configuration in the protected store of the
  project, the home below \<open>.kuibysheff\<close> but outside that store.
\<close>

definition args_confined :: "path \<Rightarrow> 'd agent_prompt_args \<Rightarrow> bool" where
  "args_confined root a \<longleftrightarrow> is_protected_path root (pa_config a) \<and> path_is_within (kuibysheff_root root) (pa_home a)
     \<and> \<not> is_protected_path root (pa_home a) \<and> pa_project_root a = Some root"

lemma resolved_root: "resolve_agent_identity uni root aid h = Inr r \<Longrightarrow> project_root r = root"
  by (auto simp: resolve_agent_identity_def rbind_eq_Inr)

end
