(* ===== verification/A2a.thy ===== *)
theory A2a
  imports Prompt_Args Engine Skill_Package Profile_Files Io_Facts
begin

text \<open>
  The A2A server, \<open>a2a/\<close>: the bearer check (\<open>auth.rs\<close>), the agent card (\<open>card.rs\<close>), the router
  (\<open>server.rs\<close>) and the executor (\<open>executor.rs\<close>), which runs one prompt for each task. The executor is a
  state with every task it ever admitted; requests, cancellations and the spawned tasks interleave as
  steps, one for each section under a lock. The protocol library calls \<open>execute\<close> and \<open>cancel\<close>.
\<close>

section \<open>The bearer check\<close>

definition bearer_from_env :: "(string \<Rightarrow> string option) \<Rightarrow> string \<Rightarrow> string + string" where
  "bearer_from_env var name = (case var name of
     None \<Rightarrow> Inl (''A2A --token-env `'' @ name @ ''` is not set in the environment'')
   | Some v \<Rightarrow> if is_blank v then Inl (''A2A --token-env `'' @ name @ ''` is empty'') else Inr (trim v))"

definition parse_bearer_token :: "string \<Rightarrow> string option" where
  "parse_bearer_token header_value = (case split_once (CHR '' '') header_value of
     None \<Rightarrow> None
   | Some (scheme, rest) \<Rightarrow> if eq_ignore_ascii_case scheme ''bearer'' then Some rest else None)"

definition constant_time_eq :: "string \<Rightarrow> string \<Rightarrow> bool" where
  "constant_time_eq a b \<longleftrightarrow> (if length a \<noteq> length b then False else list_all2 (=) a b)"

datatype a2a_route = JsonRpcRoute | RestRoute | CardRoute

datatype 'r a2a_reply = Unauthorized | Passed 'r

text \<open>\<open>header\<close> is the value of \<open>Authorization\<close> when it is text.\<close>

definition require_bearer :: "string \<Rightarrow> string option \<Rightarrow> ('w \<Rightarrow> 'r \<times> 'w) \<Rightarrow> 'w \<Rightarrow> 'r a2a_reply \<times> 'w" where
  "require_bearer expected header next_handler w =
     (let authorized = (case Option.bind header parse_bearer_token of
          Some got \<Rightarrow> constant_time_eq got expected | None \<Rightarrow> False) in
      if \<not> authorized then (Unauthorized, w)
      else let (r, w) = next_handler w in (Passed r, w))"

definition build_router ::
  "string option \<Rightarrow> (a2a_route \<Rightarrow> 'w \<Rightarrow> 'r \<times> 'w) \<Rightarrow> string option \<Rightarrow> a2a_route \<Rightarrow> 'w \<Rightarrow> 'r a2a_reply \<times> 'w" where
  "build_router bearer serve header route w =
     (let pass = (\<lambda>w. let (r, w) = serve route w in (Passed r, w)) in
      case route of
        CardRoute \<Rightarrow> pass w
      | _ \<Rightarrow> (case bearer of None \<Rightarrow> pass w | Some expected \<Rightarrow> require_bearer expected header (serve route) w))"

lemma constant_time_eq: "constant_time_eq a b \<longleftrightarrow> a = b"
  by (auto simp: constant_time_eq_def list.rel_eq)

text \<open>
  The bearer check of the A2A server is exact. With a token, a call of either protocol reaches the serve
  if and only if its header is a scheme that reads \<open>bearer\<close> in any case, one space and the very token;
  any other call is answered 401 before anything happens. The card is public, and a server without a
  token passes every call.
\<close>

theorem bearer_check_exact:
  "build_router bearer serve header route w =
     (if route = CardRoute \<or> bearer = None
         \<or> (\<exists>scheme token. bearer = Some token \<and> header = Some (scheme @ '' '' @ token)
              \<and> eq_ignore_ascii_case scheme ''bearer'' \<and> CHR '' '' \<notin> set scheme)
      then (Passed (fst (serve route w)), snd (serve route w)) else (Unauthorized, w))"
proof -
  have "parse_bearer_token h = Some t
      \<longleftrightarrow> (\<exists>scheme. split_once (CHR '' '') h = Some (scheme, t) \<and> eq_ignore_ascii_case scheme ''bearer'')" for h t
    by (auto simp: parse_bearer_token_def split: option.splits)
  then have parsed: "parse_bearer_token h = Some t
      \<longleftrightarrow> (\<exists>scheme. h = scheme @ '' '' @ t \<and> eq_ignore_ascii_case scheme ''bearer'' \<and> CHR '' '' \<notin> set scheme)" for h t
    by (auto simp: split_once_Some)
  have checked: "(case Option.bind header parse_bearer_token of Some got \<Rightarrow> constant_time_eq got token | None \<Rightarrow> False)
      \<longleftrightarrow> (\<exists>scheme. header = Some (scheme @ '' '' @ token) \<and> eq_ignore_ascii_case scheme ''bearer'' \<and> CHR '' '' \<notin> set scheme)" for token
  proof -
    have "(case Option.bind header parse_bearer_token of Some got \<Rightarrow> constant_time_eq got token | None \<Rightarrow> False)
        \<longleftrightarrow> Option.bind header parse_bearer_token = Some token"
      by (simp add: constant_time_eq split: option.splits)
    then show ?thesis by (auto simp: Option.bind_eq_Some_conv parsed)
  qed
  show ?thesis
    by (cases route; cases bearer) (auto simp: build_router_def require_bearer_def checked split_beta)
qed

section \<open>The agent card\<close>

definition MAX_DESCRIPTION :: nat where
  "MAX_DESCRIPTION = 280"

definition ELLIPSIS :: string where
  "ELLIPSIS = [CHR 0xE2, CHR 0x80, CHR 0xA6]"

definition truncate_description :: "string \<Rightarrow> string" where
  "truncate_description master =
     (let trimmed = trim master;
          first = (case find_sub [LF, LF] trimmed of Some i \<Rightarrow> take i trimmed | None \<Rightarrow> trimmed);
          first_para = join_with '' '' (filter (\<lambda>l. l \<noteq> []) (map trim (str_lines first))) in
      if chars_count first_para \<le> MAX_DESCRIPTION then first_para
      else take_chars (MAX_DESCRIPTION - 1) first_para @ ELLIPSIS)"

definition without_end_slashes :: "string \<Rightarrow> string" where
  "without_end_slashes u = rev (dropWhile (\<lambda>c. c = CHR ''/'') (rev u))"

definition resolve_public_url :: "string \<Rightarrow> string option \<Rightarrow> string" where
  "resolve_public_url bind_addr public_url = (case public_url of Some u \<Rightarrow> without_end_slashes u | None \<Rightarrow> ''http://'' @ bind_addr)"

datatype card_transport = JsonRpcTransport | HttpJsonTransport

record card_skill =
  cs_id :: string
  cs_name :: string
  cs_description :: string
  cs_tags :: "string list"

record agent_card =
  ac_name :: string
  ac_description :: string
  ac_interfaces :: "(string \<times> card_transport) list"
  ac_skills :: "card_skill list"
  ac_security :: "(string \<times> string) option"

datatype card_error = CardSettings path settings_error | CardSkills skills_error

text \<open>\<open>load_packages\<close> loads the skill folders of the settings directory.\<close>

definition build_agent_card ::
  "(disk \<Rightarrow> (settings_error + skill_packages) \<times> disk) \<Rightarrow> string \<Rightarrow> path \<Rightarrow> string \<Rightarrow> bool
   \<Rightarrow> disk \<Rightarrow> (card_error + agent_card) \<times> disk" where
  "build_agent_card load_packages aid sdir public_url needs_bearer =
     io_then (io_map_err (CardSettings sdir) (load_settings load_packages sdir)) (\<lambda>settings.
     io_then (io_lift (map_err CardSkills (catalog_from_settings (skills_source settings) (skill_packages settings)))) (\<lambda>skills.
     io_return \<lparr>ac_name = aid, ac_description = truncate_description (master_prompt settings),
       ac_interfaces = [(without_end_slashes public_url @ ''/jsonrpc'', JsonRpcTransport), (without_end_slashes public_url @ ''/rest'', HttpJsonTransport)],
       ac_skills = map (\<lambda>s. \<lparr>cs_id = sk_name s, cs_name = sk_name s, cs_description = sk_policy s, cs_tags = [''kuibysheff'']\<rparr>) skills,
       ac_security = (if needs_bearer then Some (''bearer'', ''bearer'') else None)\<rparr>))"

section \<open>Messages and answers\<close>

datatype a2a_part = TextPart string | RawPart string | UrlPart string | DataPart json

datatype a2a_error = InvalidParams string | ContentTypeNotSupported

fun part_text :: "a2a_part \<Rightarrow> a2a_error + string" where
  "part_text (TextPart t) = Inr t"
| "part_text _ = Inl ContentTypeNotSupported"

definition extract_prompt :: "a2a_part list option \<Rightarrow> a2a_error + string" where
  "extract_prompt msg = (case msg of
     None \<Rightarrow> Inl (InvalidParams ''message is required'')
   | Some parts \<Rightarrow> rbind (try_map part_text parts) (\<lambda>texts.
       let question = join_with [LF] texts in
       if is_blank question then Inl (InvalidParams ''message has no text parts'') else Inr question))"

datatype task_state = TaskWorking | TaskCanceled | TaskCompleted | TaskFailed

text \<open>The ids of message and artifact and the time of a status are not modelled.\<close>

record final_task =
  ft_id :: string
  ft_context :: string
  ft_state :: task_state
  ft_message :: string
  ft_artifact :: string
  ft_usage :: "json option"

definition final_task_of :: "string \<Rightarrow> string \<Rightarrow> task_state \<Rightarrow> string \<Rightarrow> json option \<Rightarrow> final_task" where
  "final_task_of tid ctx st txt spent =
     \<lparr>ft_id = tid, ft_context = ctx, ft_state = st, ft_message = txt, ft_artifact = txt, ft_usage = spent\<rparr>"

datatype stream_response = StatusUpdate string string task_state | TaskResponse final_task

definition map_run_output :: "('d usage_report \<Rightarrow> json option) \<Rightarrow> 'd run_output \<Rightarrow> bool \<Rightarrow> task_state \<times> string \<times> json option" where
  "map_run_output to_value out was_cancelled =
     (if was_cancelled then (TaskCanceled, out_result out, to_value (out_usage out))
      else (case out_stop_reason out of StopError \<Rightarrow> TaskFailed | _ \<Rightarrow> TaskCompleted, out_result out, to_value (out_usage out)))"

text \<open>What a run gave: an output, or an error, of which the peer learns nothing.\<close>

definition run_answer :: "('d usage_report \<Rightarrow> json option) \<Rightarrow> 'd run_output option \<Rightarrow> bool \<Rightarrow> task_state \<times> string \<times> json option" where
  "run_answer to_value outcome was_cancelled = (case outcome of
     Some out \<Rightarrow> map_run_output to_value out was_cancelled
   | None \<Rightarrow> (if was_cancelled then TaskCanceled else TaskFailed, ''agent run failed'', None))"

record 'd executor_config =
  xc_paths :: resolved_agent_paths
  xc_max_iterations :: "u32 option"
  xc_max_tokens :: "u64 option"
  xc_max_duration_sec :: "u64 option"
  xc_max_cost :: "'d money option"
  xc_save_chat_history :: bool

definition executor_config_of ::
  "(string \<Rightarrow> bool) \<Rightarrow> path \<Rightarrow> string \<Rightarrow> path option \<Rightarrow> u32 option \<Rightarrow> u64 option \<Rightarrow> u64 option \<Rightarrow> 'd money option \<Rightarrow> bool
   \<Rightarrow> agent_path_error + 'd executor_config" where
  "executor_config_of uni root aid h iters tokens secs cost save =
     rbind (resolve_agent_identity uni root aid h) (\<lambda>paths.
     Inr \<lparr>xc_paths = paths, xc_max_iterations = iters, xc_max_tokens = tokens, xc_max_duration_sec = secs,
       xc_max_cost = cost, xc_save_chat_history = save\<rparr>)"

definition a2a_prompt_args :: "'d executor_config \<Rightarrow> string \<Rightarrow> 'd agent_prompt_args" where
  "a2a_prompt_args c question = (let paths = xc_paths c in
     \<lparr>pa_config = config_file paths, pa_settings_dir = settings_dir paths, pa_home = home paths,
      pa_project_root = Some (project_root paths), pa_agent_id = agent_id paths, pa_prompt = question, pa_run_id = None,
      pa_files = [], pa_max_iterations = xc_max_iterations c, pa_max_tokens = xc_max_tokens c,
      pa_max_duration_sec = xc_max_duration_sec c, pa_max_cost = xc_max_cost c,
      pa_save_chat_history = xc_save_chat_history c, pa_continue_from = None\<rparr>)"

section \<open>The executor\<close>

definition MAX_IN_FLIGHT_TASKS :: nat where
  "MAX_IN_FLIGHT_TASKS = 256"

text \<open>Where a task is: admitted with a permit, spawned, announced as working, running, its run over, ended.\<close>

datatype 'd task_stage = Admitted | Spawned | Announced | Running | RunOver "'d run_output option" | Ended

record 'd a2a_task =
  tk_id :: string
  tk_context :: string
  tk_prompt :: string
  tk_cancelled :: bool
  tk_listening :: bool
  tk_stage :: "'d task_stage"
  tk_sent :: "stream_response list"

record 'd executor =
  ex_tasks :: "'d a2a_task list"
  ex_cancels :: "string \<Rightarrow> nat option"
  ex_permits :: nat

definition executor_new :: "'d executor" where
  "executor_new = \<lparr>ex_tasks = [], ex_cancels = (\<lambda>_. None), ex_permits = MAX_IN_FLIGHT_TASKS\<rparr>"

definition on_task :: "nat \<Rightarrow> ('d a2a_task \<Rightarrow> 'd a2a_task) \<Rightarrow> 'd executor \<Rightarrow> 'd executor" where
  "on_task r f ex = ex\<lparr>ex_tasks := (ex_tasks ex)[r := f (ex_tasks ex ! r)]\<rparr>"

definition fresh_task :: "string \<Rightarrow> string \<Rightarrow> string \<Rightarrow> 'd a2a_task" where
  "fresh_task tid ctx question = \<lparr>tk_id = tid, tk_context = ctx, tk_prompt = question, tk_cancelled = False, tk_listening = True,
     tk_stage = Admitted, tk_sent = []\<rparr>"

text \<open>\<open>execute\<close> up to the insertion of the token: the reference of the task, or the error that the stream gives.\<close>

definition admit :: "a2a_part list option \<Rightarrow> string \<Rightarrow> string \<Rightarrow> 'd executor \<Rightarrow> (a2a_error + nat) \<times> 'd executor" where
  "admit msg tid ctx ex = (case extract_prompt msg of
     Inl e \<Rightarrow> (Inl e, ex)
   | Inr question \<Rightarrow>
       if ex_permits ex = 0
       then (Inl (InvalidParams (''too many in-flight tasks (max '' @ show_nat MAX_IN_FLIGHT_TASKS @ '')'')), ex)
       else (Inr (length (ex_tasks ex)), ex\<lparr>ex_tasks := ex_tasks ex @ [fresh_task tid ctx question],
         ex_cancels := (ex_cancels ex)(tid \<mapsto> length (ex_tasks ex)), ex_permits := ex_permits ex - 1\<rparr>))"

definition forget :: "string \<Rightarrow> 'd executor \<Rightarrow> 'd executor" where
  "forget tid ex = ex\<lparr>ex_cancels := (ex_cancels ex)(tid := None)\<rparr>"

text \<open>The channel to the client takes what is sent while the client listens.\<close>

definition send :: "stream_response \<Rightarrow> 'd a2a_task \<Rightarrow> 'd a2a_task" where
  "send resp t = (if tk_listening t then t\<lparr>tk_sent := tk_sent t @ [resp]\<rparr> else t)"

definition at_stage :: "'d task_stage \<Rightarrow> 'd a2a_task \<Rightarrow> 'd a2a_task" where
  "at_stage s t = t\<lparr>tk_stage := s\<rparr>"

text \<open>A task ends: its permit goes back.\<close>

definition end_task :: "nat \<Rightarrow> ('d a2a_task \<Rightarrow> 'd a2a_task) \<Rightarrow> 'd executor \<Rightarrow> 'd executor" where
  "end_task r f ex = (on_task r (at_stage Ended \<circ> f) ex)\<lparr>ex_permits := ex_permits ex + 1\<rparr>"

definition cancelled_answer :: "'d a2a_task \<Rightarrow> stream_response" where
  "cancelled_answer t = StatusUpdate (tk_id t) (tk_context t) TaskCanceled"

definition final_answer :: "'d a2a_task \<Rightarrow> task_state \<times> string \<times> json option \<Rightarrow> stream_response" where
  "final_answer t answer = (case answer of (st, txt, spent) \<Rightarrow>
     TaskResponse (final_task_of (tk_id t) (tk_context t) st txt spent))"

definition cancel_task :: "string \<Rightarrow> string \<Rightarrow> 'd executor \<Rightarrow> (a2a_error + stream_response) \<times> 'd executor" where
  "cancel_task tid ctx ex = (case ex_cancels ex tid of
     None \<Rightarrow> (Inl (InvalidParams (''unknown task id `'' @ tid @ ''`'')), ex)
   | Some r \<Rightarrow> (Inr (StatusUpdate tid ctx TaskCanceled), on_task r (\<lambda>t. t\<lparr>tk_cancelled := True\<rparr>) ex))"

text \<open>One section of the task \<open>r\<close>, for each stage.\<close>

definition announce_working :: "nat \<Rightarrow> 'd executor \<Rightarrow> 'd executor" where
  "announce_working r ex = (let t = ex_tasks ex ! r in
     if tk_listening t
     then on_task r (at_stage Announced \<circ> send (StatusUpdate (tk_id t) (tk_context t) TaskWorking)) ex
     else end_task r (\<lambda>t. t) (forget (tk_id t) ex))"

definition begin_run :: "nat \<Rightarrow> 'd executor \<Rightarrow> 'd executor" where
  "begin_run r ex = (let t = ex_tasks ex ! r in
     if tk_cancelled t
     then end_task r (send (final_answer t (TaskCanceled, [], None))) (forget (tk_id t) ex)
     else on_task r (at_stage Running) ex)"

definition after_insert :: "nat \<Rightarrow> 'd executor \<Rightarrow> 'd executor" where
  "after_insert r ex = (let t = ex_tasks ex ! r in
     if tk_cancelled t then end_task r (send (cancelled_answer t)) (forget (tk_id t) ex)
     else on_task r (at_stage Spawned) ex)"

definition report_run :: "('d usage_report \<Rightarrow> json option) \<Rightarrow> nat \<Rightarrow> 'd run_output option \<Rightarrow> 'd executor \<Rightarrow> 'd executor" where
  "report_run to_value r outcome ex = (let t = ex_tasks ex ! r in
     end_task r (send (final_answer t (run_answer to_value outcome (tk_cancelled t)))) ex)"

text \<open>
  The steps of the executor. The deadline of a run cancels its token as well; a client may stop
  listening at any time.
\<close>

inductive executor_step :: "('d usage_report \<Rightarrow> json option) \<Rightarrow> 'd executor \<Rightarrow> 'd executor \<Rightarrow> bool" for to_value where
  admits: "executor_step to_value ex (snd (admit msg tid ctx ex))"
| cancels: "executor_step to_value ex (snd (cancel_task tid ctx ex))"
| expires: "r < length (ex_tasks ex) \<Longrightarrow> tk_stage (ex_tasks ex ! r) = Running \<Longrightarrow>
    executor_step to_value ex (on_task r (\<lambda>t. t\<lparr>tk_cancelled := True\<rparr>) ex)"
| hangs_up: "r < length (ex_tasks ex) \<Longrightarrow> executor_step to_value ex (on_task r (\<lambda>t. t\<lparr>tk_listening := False\<rparr>) ex)"
| spawns: "r < length (ex_tasks ex) \<Longrightarrow> tk_stage (ex_tasks ex ! r) = Admitted \<Longrightarrow> executor_step to_value ex (after_insert r ex)"
| announces: "r < length (ex_tasks ex) \<Longrightarrow> tk_stage (ex_tasks ex ! r) = Spawned \<Longrightarrow> executor_step to_value ex (announce_working r ex)"
| runs_prompt: "r < length (ex_tasks ex) \<Longrightarrow> tk_stage (ex_tasks ex ! r) = Announced \<Longrightarrow> executor_step to_value ex (begin_run r ex)"
| run_ends: "r < length (ex_tasks ex) \<Longrightarrow> tk_stage (ex_tasks ex ! r) = Running \<Longrightarrow>
    executor_step to_value ex (on_task r (at_stage (RunOver outcome)) (forget (tk_id (ex_tasks ex ! r)) ex))"
| reports: "r < length (ex_tasks ex) \<Longrightarrow> tk_stage (ex_tasks ex ! r) = RunOver outcome \<Longrightarrow>
    executor_step to_value ex (report_run to_value r outcome ex)"

inductive_cases executor_step_cases: "executor_step to_value ex ex'"

section \<open>Every task is answered\<close>

definition is_open :: "'d a2a_task \<Rightarrow> bool" where
  "is_open t \<longleftrightarrow> tk_stage t \<noteq> Ended"

definition working_answer :: "'d a2a_task \<Rightarrow> stream_response" where
  "working_answer t = StatusUpdate (tk_id t) (tk_context t) TaskWorking"

text \<open>What a client that keeps listening has got of a task that ended.\<close>

definition well_answered :: "'d a2a_task \<Rightarrow> bool" where
  "well_answered t \<longleftrightarrow>
     (tk_cancelled t \<and> tk_sent t = [cancelled_answer t])
     \<or> (\<exists>f. tk_sent t = [working_answer t, TaskResponse f] \<and> ft_id f = tk_id t \<and> ft_context f = tk_context t
          \<and> ft_state f \<noteq> TaskWorking \<and> (ft_state f = TaskCanceled \<longrightarrow> tk_cancelled t))"

definition task_ok :: "'d a2a_task \<Rightarrow> bool" where
  "task_ok t \<longleftrightarrow> (case tk_stage t of
     Admitted \<Rightarrow> tk_sent t = [] | Spawned \<Rightarrow> tk_sent t = []
   | Ended \<Rightarrow> tk_listening t \<longrightarrow> well_answered t
   | _ \<Rightarrow> tk_sent t = [working_answer t])"

definition cancels_ok :: "'d executor \<Rightarrow> bool" where
  "cancels_ok ex \<longleftrightarrow> (\<forall>tid r. ex_cancels ex tid = Some r \<longrightarrow> r < length (ex_tasks ex) \<and> tk_id (ex_tasks ex ! r) = tid)"

definition executor_ok :: "'d executor \<Rightarrow> bool" where
  "executor_ok ex \<longleftrightarrow> list_all task_ok (ex_tasks ex) \<and> cancels_ok ex
     \<and> ex_permits ex + length (filter is_open (ex_tasks ex)) = MAX_IN_FLIGHT_TASKS"

lemma filter_update_count:
  "r < length xs \<Longrightarrow> length (filter P (xs[r := y])) + of_bool (P (xs ! r)) = length (filter P xs) + of_bool (P y)"
proof (induction xs arbitrary: r)
  case (Cons x xs)
  then show ?case using Cons.IH [of "r - 1"] by (cases r) auto
qed simp

lemma on_task_fields [simp]:
  "length (ex_tasks (on_task r f ex)) = length (ex_tasks ex)"
  "ex_cancels (on_task r f ex) = ex_cancels ex" "ex_permits (on_task r f ex) = ex_permits ex"
  by (simp_all add: on_task_def)

lemma on_task_nth:
  "q < length (ex_tasks ex) \<Longrightarrow> ex_tasks (on_task r f ex) ! q = (if q = r then f (ex_tasks ex ! q) else ex_tasks ex ! q)"
  by (simp add: on_task_def nth_list_update)

lemma forget_fields [simp]:
  "ex_tasks (forget tid ex) = ex_tasks ex" "ex_permits (forget tid ex) = ex_permits ex"
  by (simp_all add: forget_def)

lemma executor_ok_forget: "executor_ok ex \<Longrightarrow> executor_ok (forget tid ex)"
  by (auto simp: executor_ok_def cancels_ok_def forget_def)

lemma executor_ok_task: "executor_ok ex \<Longrightarrow> r < length (ex_tasks ex) \<Longrightarrow> task_ok (ex_tasks ex ! r)"
  by (simp add: executor_ok_def list_all_length)

lemma on_task_ok:
  assumes "list_all task_ok (ex_tasks ex)" and "cancels_ok ex" and "task_ok (f (ex_tasks ex ! r))"
    and "\<And>t. tk_id (f t) = tk_id t"
  shows "list_all task_ok (ex_tasks (on_task r f ex)) \<and> cancels_ok (on_task r f ex)"
  using assms by (auto simp: list_all_length cancels_ok_def on_task_nth)

lemma executor_ok_on_task:
  assumes "executor_ok ex" and r: "r < length (ex_tasks ex)" and "task_ok (f (ex_tasks ex ! r))"
    and "\<And>t. tk_id (f t) = tk_id t" and "is_open (f (ex_tasks ex ! r)) = is_open (ex_tasks ex ! r)"
  shows "executor_ok (on_task r f ex)"
  using assms on_task_ok [of ex f r] filter_update_count [OF r, of is_open "f (ex_tasks ex ! r)"]
  by (auto simp: executor_ok_def on_task_def)

lemma executor_ok_end:
  assumes "executor_ok ex" and r: "r < length (ex_tasks ex)" and "task_ok (at_stage Ended (f (ex_tasks ex ! r)))"
    and "\<And>t. tk_id (f t) = tk_id t" and "is_open (ex_tasks ex ! r)"
  shows "executor_ok (end_task r f ex)"
proof -
  have "\<not> is_open (at_stage Ended (f (ex_tasks ex ! r)))" by (simp add: is_open_def at_stage_def)
  then show ?thesis
    using assms on_task_ok [of ex "at_stage Ended \<circ> f" r] filter_update_count [OF r, of is_open "at_stage Ended (f (ex_tasks ex ! r))"]
    by (auto simp: executor_ok_def end_task_def on_task_def cancels_ok_def at_stage_def)
qed

lemma task_defs [simp]:
  "tk_id (send a t) = tk_id t" "tk_id (at_stage s t) = tk_id t" "tk_stage (send a t) = tk_stage t"
  "tk_stage (at_stage s t) = s" "tk_listening (at_stage s t) = tk_listening t" "tk_listening (send a t) = tk_listening t"
  "tk_cancelled (at_stage s t) = tk_cancelled t" "tk_cancelled (send a t) = tk_cancelled t"
  "tk_context (at_stage s t) = tk_context t" "tk_context (send a t) = tk_context t"
  "tk_sent (at_stage s t) = tk_sent t" "tk_sent (send a t) = (if tk_listening t then tk_sent t @ [a] else tk_sent t)"
  "working_answer (at_stage s t) = working_answer t" "cancelled_answer (at_stage s t) = cancelled_answer t"
  "working_answer (send a t) = working_answer t" "cancelled_answer (send a t) = cancelled_answer t"
  by (simp_all add: send_def at_stage_def working_answer_def cancelled_answer_def)

lemma executor_ok_new: "executor_ok executor_new"
  by (simp add: executor_ok_def executor_new_def cancels_ok_def)

lemma executor_ok_admit: "executor_ok ex \<Longrightarrow> executor_ok (snd (admit msg tid ctx ex))"
  by (auto simp: admit_def executor_ok_def cancels_ok_def fresh_task_def task_ok_def is_open_def nth_append less_Suc_eq split: sum.split)

lemma executor_ok_mark:
  assumes "executor_ok ex" and "r < length (ex_tasks ex)"
  shows "executor_ok (on_task r (\<lambda>t. t\<lparr>tk_cancelled := True\<rparr>) ex)"
  using executor_ok_task [OF assms]
  by (intro executor_ok_on_task [OF assms])
    (auto simp: task_ok_def is_open_def working_answer_def well_answered_def cancelled_answer_def split: task_stage.splits)

lemma executor_ok_cancel: "executor_ok ex \<Longrightarrow> executor_ok (snd (cancel_task tid ctx ex))"
  by (auto simp: cancel_task_def split: option.split intro!: executor_ok_mark)
    (auto simp: executor_ok_def cancels_ok_def)

lemma executor_ok_hangs_up:
  assumes "executor_ok ex" and "r < length (ex_tasks ex)"
  shows "executor_ok (on_task r (\<lambda>t. t\<lparr>tk_listening := False\<rparr>) ex)"
  using executor_ok_task [OF assms]
  by (intro executor_ok_on_task [OF assms]) (auto simp: task_ok_def is_open_def working_answer_def split: task_stage.splits)

lemma executor_ok_after_insert:
  assumes "executor_ok ex" and r: "r < length (ex_tasks ex)" and "tk_stage (ex_tasks ex ! r) = Admitted"
  shows "executor_ok (after_insert r ex)"
proof (cases "tk_cancelled (ex_tasks ex ! r)")
  case True
  then show ?thesis using executor_ok_task [OF assms(1) r] assms(3)
      executor_ok_end [OF executor_ok_forget [OF assms(1)], where f = "send (cancelled_answer (ex_tasks ex ! r))"] r
    by (simp add: after_insert_def Let_def task_ok_def well_answered_def cancelled_answer_def is_open_def)
next
  case False
  then show ?thesis using executor_ok_task [OF assms(1) r] assms(3) executor_ok_on_task [OF assms(1) r, of "at_stage Spawned"]
    by (simp add: after_insert_def Let_def task_ok_def is_open_def)
qed

lemma executor_ok_announce:
  assumes "executor_ok ex" and r: "r < length (ex_tasks ex)" and "tk_stage (ex_tasks ex ! r) = Spawned"
  shows "executor_ok (announce_working r ex)"
proof (cases "tk_listening (ex_tasks ex ! r)")
  case True
  then show ?thesis using executor_ok_task [OF assms(1) r] assms(3)
      executor_ok_on_task [OF assms(1) r, of "at_stage Announced \<circ> send (working_answer (ex_tasks ex ! r))"]
    by (simp add: announce_working_def Let_def task_ok_def is_open_def working_answer_def)
next
  case False
  then show ?thesis using executor_ok_end [OF executor_ok_forget [OF assms(1)], where f = "\<lambda>t. t"] r assms(3)
    by (simp add: announce_working_def Let_def task_ok_def is_open_def)
qed

lemma final_answer_ok:
  assumes "task_ok t" and "tk_sent t = [working_answer t]" and "fst answer \<noteq> TaskWorking"
    and "fst answer = TaskCanceled \<Longrightarrow> tk_cancelled t"
  shows "task_ok (at_stage Ended (send (final_answer t answer) t))"
  using assms
  by (auto simp: task_ok_def well_answered_def final_answer_def final_task_of_def working_answer_def split: prod.splits)

lemma executor_ok_begin:
  assumes "executor_ok ex" and r: "r < length (ex_tasks ex)" and "tk_stage (ex_tasks ex ! r) = Announced"
  shows "executor_ok (begin_run r ex)"
proof (cases "tk_cancelled (ex_tasks ex ! r)")
  case True
  have ok: "task_ok (ex_tasks ex ! r)" using executor_ok_task [OF assms(1) r] .
  then have sent: "tk_sent (ex_tasks ex ! r) = [working_answer (ex_tasks ex ! r)]" using assms(3) by (simp add: task_ok_def)
  show ?thesis using True assms(3) r
      executor_ok_end [OF executor_ok_forget [OF assms(1)], where f = "send (final_answer (ex_tasks ex ! r) (TaskCanceled, [], None))"] final_answer_ok [OF ok sent, of "(TaskCanceled, [], None)"]
    by (simp add: begin_run_def Let_def is_open_def)
next
  case False
  then show ?thesis using executor_ok_task [OF assms(1) r] assms(3) executor_ok_on_task [OF assms(1) r, of "at_stage Running"]
    by (simp add: begin_run_def Let_def task_ok_def is_open_def)
qed

lemma run_answer_state:
  "fst (run_answer to_value outcome c) \<noteq> TaskWorking" "fst (run_answer to_value outcome c) = TaskCanceled \<Longrightarrow> c"
  by (auto simp: run_answer_def map_run_output_def split: option.splits if_splits stop_reason.splits)

lemma executor_ok_report:
  assumes "executor_ok ex" and r: "r < length (ex_tasks ex)" and "tk_stage (ex_tasks ex ! r) = RunOver outcome"
  shows "executor_ok (report_run to_value r outcome ex)"
proof -
  have ok: "task_ok (ex_tasks ex ! r)" using executor_ok_task [OF assms(1) r] .
  then have sent: "tk_sent (ex_tasks ex ! r) = [working_answer (ex_tasks ex ! r)]" using assms(3) by (simp add: task_ok_def)
  have "task_ok (at_stage Ended (send (final_answer (ex_tasks ex ! r)
      (run_answer to_value outcome (tk_cancelled (ex_tasks ex ! r)))) (ex_tasks ex ! r)))"
    by (rule final_answer_ok [OF ok sent]) (use run_answer_state in auto)
  then show ?thesis
    using executor_ok_end [OF assms(1) r] assms(3) by (simp add: report_run_def Let_def is_open_def)
qed

lemma executor_ok_step: "executor_step to_value ex ex' \<Longrightarrow> executor_ok ex \<Longrightarrow> executor_ok ex'"
proof (erule executor_step_cases)
  fix r outcome
  assume ok: "executor_ok ex" and r: "r < length (ex_tasks ex)" and st: "tk_stage (ex_tasks ex ! r) = Running"
    and ex': "ex' = on_task r (at_stage (RunOver outcome)) (forget (tk_id (ex_tasks ex ! r)) ex)"
  show "executor_ok ex'" unfolding ex'
    using executor_ok_task [OF ok r] st r
    by (intro executor_ok_on_task [OF executor_ok_forget [OF ok]]) (simp_all add: task_ok_def is_open_def)
qed (auto intro: executor_ok_admit executor_ok_cancel executor_ok_mark executor_ok_hangs_up executor_ok_after_insert
    executor_ok_announce executor_ok_begin executor_ok_report)

lemma executor_reachable_ok: "(executor_step to_value)\<^sup>*\<^sup>* executor_new ex \<Longrightarrow> executor_ok ex"
  by (induction rule: rtranclp_induct) (use executor_ok_new executor_ok_step in blast)+

text \<open>
  C27: No task is lost and the permits are exact. However requests, cancellations, deadlines and runs
  interleave, the permits that are left and the tasks that have not ended make 256, so at most that many runs
  are under way; and a client that keeps listening to a task gets, by its end, exactly one final answer:
  a cancellation on its own, or the announcement of work and one task that names this task, is not
  \<open>working\<close>, and is cancelled only if the token was.
\<close>

theorem a2a_tasks_answered:
  assumes "(executor_step to_value)\<^sup>*\<^sup>* executor_new ex"
  shows "ex_permits ex + length (filter is_open (ex_tasks ex)) = MAX_IN_FLIGHT_TASKS
    \<and> list_all well_answered (filter (\<lambda>t. tk_stage t = Ended \<and> tk_listening t) (ex_tasks ex))"
  using executor_reachable_ok [OF assms]
  by (auto simp: executor_ok_def task_ok_def list_all_iff)

theorem a2a_tasks_answered_witness:
  "ex_permits (snd (admit (Some [TextPart ''hi'']) ''t'' ''c'' (executor_new :: nat executor))) + 1 = MAX_IN_FLIGHT_TASKS"
proof -
  let ?ex = "snd (admit (Some [TextPart ''hi'']) ''t'' ''c'' (executor_new :: nat executor))"
  have reach: "(executor_step (\<lambda>_. None))\<^sup>*\<^sup>* executor_new ?ex"
    by (rule r_into_rtranclp) (rule admits)
  have question: "extract_prompt (Some [TextPart ''hi'']) = Inr ''hi''"
    by (simp add: extract_prompt_def rbind_def is_blank_def trim_visible visible_def)
  have "length (filter is_open (ex_tasks ?ex)) = 1"
    by (simp add: admit_def question executor_new_def MAX_IN_FLIGHT_TASKS_def fresh_task_def is_open_def)
  then show ?thesis using a2a_tasks_answered [OF reach] by simp
qed

section \<open>Cancelling\<close>

text \<open>A task whose token is still in the registry: its run is not over.\<close>

definition cancellable :: "'d a2a_task \<Rightarrow> bool" where
  "cancellable t \<longleftrightarrow> tk_stage t \<in> {Admitted, Spawned, Announced, Running}"

definition tokens_registered :: "'d executor \<Rightarrow> bool" where
  "tokens_registered ex \<longleftrightarrow> (distinct (map tk_id (ex_tasks ex)) \<longrightarrow>
     (\<forall>r < length (ex_tasks ex). cancellable (ex_tasks ex ! r) \<longrightarrow> ex_cancels ex (tk_id (ex_tasks ex ! r)) = Some r))"

lemma on_task_ids:
  assumes "\<And>t. tk_id (f t) = tk_id t"
  shows "map tk_id (ex_tasks (on_task r f ex)) = map tk_id (ex_tasks ex)"
  by (rule nth_equalityI) (simp_all add: on_task_nth assms)

lemma tokens_on_task:
  assumes "tokens_registered ex" and "\<And>t. tk_id (f t) = tk_id t" and "cancellable (f (ex_tasks ex ! r)) \<Longrightarrow> cancellable (ex_tasks ex ! r)"
  shows "tokens_registered (on_task r f ex)"
  using assms by (auto simp: tokens_registered_def on_task_nth on_task_ids)

lemma tokens_forget:
  assumes "tokens_registered ex" and r: "r < length (ex_tasks ex)" and "\<And>t. tk_id (f t) = tk_id t"
    and "\<not> cancellable (f (ex_tasks ex ! r))"
  shows "tokens_registered (on_task r f (forget (tk_id (ex_tasks ex ! r)) ex))"
proof -
  have "tk_id (ex_tasks ex ! q) \<noteq> tk_id (ex_tasks ex ! r)"
    if "distinct (map tk_id (ex_tasks ex))" "q < length (ex_tasks ex)" "q \<noteq> r" for q
    using that r by (metis length_map nth_eq_iff_index_eq nth_map)
  then show ?thesis using assms
    by (auto simp: tokens_registered_def on_task_nth on_task_ids forget_def)
qed

lemma tokens_permits: "tokens_registered (ex\<lparr>ex_permits := n\<rparr>) = tokens_registered ex"
  by (simp add: tokens_registered_def)

lemma tokens_end:
  assumes "tokens_registered ex" and "r < length (ex_tasks ex)" and "\<And>t. tk_id (f t) = tk_id t"
  shows "tokens_registered (end_task r f (forget (tk_id (ex_tasks ex ! r)) ex))"
  using tokens_forget [OF assms(1,2), of "at_stage Ended \<circ> f"] assms(3)
  by (simp add: end_task_def tokens_permits cancellable_def)

lemma tokens_admit: "tokens_registered ex \<Longrightarrow> tokens_registered (snd (admit msg tid ctx ex))"
  by (auto simp: tokens_registered_def admit_def fresh_task_def nth_append split: sum.split)

lemma tokens_step: "executor_step to_value ex ex' \<Longrightarrow> tokens_registered ex \<Longrightarrow> tokens_registered ex'"
proof (erule executor_step_cases)
  fix r outcome
  assume reg: "tokens_registered ex" and "r < length (ex_tasks ex)" and st: "tk_stage (ex_tasks ex ! r) = RunOver outcome"
    and ex': "ex' = report_run to_value r outcome ex"
  show "tokens_registered ex'" unfolding ex' report_run_def Let_def end_task_def tokens_permits
    by (rule tokens_on_task [OF reg]) (simp_all add: cancellable_def)
next
  fix r outcome
  assume reg: "tokens_registered ex" and r: "r < length (ex_tasks ex)"
    and ex': "ex' = on_task r (at_stage (RunOver outcome)) (forget (tk_id (ex_tasks ex ! r)) ex)"
  show "tokens_registered ex'" unfolding ex' by (rule tokens_forget [OF reg r]) (simp_all add: cancellable_def)
qed (auto simp: tokens_admit cancel_task_def after_insert_def announce_working_def begin_run_def Let_def cancellable_def
    intro!: tokens_on_task tokens_forget tokens_end split: option.split)

lemma tokens_reachable: "(executor_step to_value)\<^sup>*\<^sup>* executor_new ex \<Longrightarrow> tokens_registered ex"
proof (induction rule: rtranclp_induct)
  case base
  show ?case by (simp add: tokens_registered_def executor_new_def)
qed (use tokens_step in blast)

text \<open>
  A cancellation reaches its task and no other. As long as the client library gives each task an id of its
  own, a task whose run is not over is found by its id, its token and only its token is cancelled, and the
  answer names the task.
\<close>

theorem cancel_reaches_its_task:
  assumes reach: "(executor_step to_value)\<^sup>*\<^sup>* executor_new ex" and ids: "distinct (map tk_id (ex_tasks ex))"
    and r: "r < length (ex_tasks ex)" and run: "cancellable (ex_tasks ex ! r)"
  shows "fst (cancel_task (tk_id (ex_tasks ex ! r)) ctx ex) = Inr (StatusUpdate (tk_id (ex_tasks ex ! r)) ctx TaskCanceled)
    \<and> map tk_cancelled (ex_tasks (snd (cancel_task (tk_id (ex_tasks ex ! r)) ctx ex)))
        = (map tk_cancelled (ex_tasks ex))[r := True]"
proof -
  have "ex_cancels ex (tk_id (ex_tasks ex ! r)) = Some r"
    using tokens_reachable [OF reach] ids r run by (simp add: tokens_registered_def)
  then show ?thesis by (simp add: cancel_task_def on_task_def map_update)
qed

theorem cancel_reaches_its_task_witness:
  "fst (cancel_task ''t'' ''c'' (snd (admit (Some [TextPart ''hi'']) ''t'' ''c'' (executor_new :: nat executor))))
     = Inr (StatusUpdate ''t'' ''c'' TaskCanceled)"
proof -
  let ?ex = "snd (admit (Some [TextPart ''hi'']) ''t'' ''c'' (executor_new :: nat executor))"
  have reach: "(executor_step (\<lambda>_. None))\<^sup>*\<^sup>* executor_new ?ex"
    by (rule r_into_rtranclp) (rule admits)
  have question: "extract_prompt (Some [TextPart ''hi'']) = Inr ''hi''"
    by (simp add: extract_prompt_def rbind_def is_blank_def trim_visible visible_def)
  have tasks: "ex_tasks ?ex = [fresh_task ''t'' ''c'' ''hi'']"
    by (simp add: admit_def question executor_new_def MAX_IN_FLIGHT_TASKS_def)
  show ?thesis using cancel_reaches_its_task [OF reach, of 0] by (simp add: tasks fresh_task_def cancellable_def)
qed

text \<open>
  With two tasks of one id the registry holds the token of the second, and the end of the first run removes
  it: the second can no longer be cancelled.
\<close>

lemma same_id_loses_cancel:
  "ex_cancels (on_task 0 (at_stage (RunOver outcome)) (forget (tk_id (ex_tasks ex ! 0)) ex)) (tk_id (ex_tasks ex ! 0)) = None"
  by (simp add: forget_def)

end
