(* ===== verification/Acp.thy ===== *)
theory Acp
  imports A2a Mcp_Stdio
begin

text \<open>
  The ACP server, \<open>acp/\<close>: the mapping of engine events and stop reasons (\<open>map.rs\<close>), and the sessions
  with their cancellation tokens (\<open>server.rs\<close>). Requests of one client are handled one by one, the prompts
  they spawn run beside them; each section under the lock of the sessions is one step.
\<close>

section \<open>Events and stop reasons\<close>

datatype acp_stop_reason = EndTurn | MaxTokens | Refusal | CancelledTurn

definition map_stop_reason :: "stop_reason \<Rightarrow> bool \<Rightarrow> acp_stop_reason" where
  "map_stop_reason stop was_cancelled =
     (if was_cancelled then CancelledTurn
      else case stop of GoalReached \<Rightarrow> EndTurn | LimitReached \<Rightarrow> MaxTokens | StopError \<Rightarrow> Refusal)"

datatype tool_kind = KindRead | KindEdit | KindExecute | KindSearch | KindOther

definition tool_kind_for :: "string \<Rightarrow> string \<Rightarrow> tool_kind" where
  "tool_kind_for srv t =
     (if srv = ''home'' \<and> t \<in> {''read'', ''list''} then KindRead
      else if srv = ''home'' \<and> t = ''write'' then KindEdit
      else if srv = ''home'' \<and> t = ''run'' then KindExecute
      else if srv = ''local_tools'' \<and> t = ''search_docs'' then KindSearch
      else if srv = ''local_tools'' \<and> t = ''read_file'' then KindRead
      else KindOther)"

definition MAX_PREVIEW :: nat where
  "MAX_PREVIEW = 4000"

text \<open>Slicing a string inside a character panics: \<open>None\<close>.\<close>

definition json_preview :: "(json \<Rightarrow> string) \<Rightarrow> json \<Rightarrow> string option" where
  "json_preview to_string v = (let raw = to_string v in
     if length raw \<le> MAX_PREVIEW then Some raw
     else if is_cont (raw ! MAX_PREVIEW) then None
     else Some (take MAX_PREVIEW raw @ ELLIPSIS))"

datatype session_update =
    ThoughtChunk string
  | MessageChunk string
  | ToolCallUpdate string string tool_kind json
  | ToolResultUpdate string bool string json

fun report_status_str :: "cost_report_status \<Rightarrow> string" where
  "report_status_str Complete = ''complete''"
| "report_status_str Partial = ''partial''"
| "report_status_str Unavailable = ''unavailable''"

definition usage_text :: "('d \<Rightarrow> string) \<Rightarrow> 'd usage_report \<Rightarrow> string" where
  "usage_text show_amount u = [LF, LF] @ ''Usage: '' @ show_nat (unat (ur_total_tokens u)) @ '' tokens; cost: '' @
     (case known_total (ur_cost u) of
        None \<Rightarrow> report_status_str (status (ur_cost u))
      | Some m \<Rightarrow> show_amount (amount m) @ '' '' @ currency m)"

definition map_agent_event ::
  "('d \<Rightarrow> string) \<Rightarrow> (json \<Rightarrow> string) \<Rightarrow> 'd agent_event \<Rightarrow> session_update option" where
  "map_agent_event show_amount to_string e = (case e of
     Thought t \<Rightarrow> Some (ThoughtChunk t)
   | Message t \<Rightarrow> Some (MessageChunk t)
   | UsageSummary u \<Rightarrow> Some (MessageChunk (usage_text show_amount u))
   | ToolStart i srv t args \<Rightarrow> Some (ToolCallUpdate i (srv @ ''.'' @ t) (tool_kind_for srv t) args)
   | ToolFinish i ok out \<Rightarrow> map_option (\<lambda>preview. ToolResultUpdate i ok preview out) (json_preview to_string out))"

text \<open>The task that forwards the events of a run: a panic ends it, and the events behind are dropped.\<close>

fun forwarded ::
  "('d \<Rightarrow> string) \<Rightarrow> (json \<Rightarrow> string) \<Rightarrow> 'd agent_event list \<Rightarrow> session_update list" where
  "forwarded show_amount to_string [] = []"
| "forwarded show_amount to_string (e # es) = (case map_agent_event show_amount to_string e of
     None \<Rightarrow> [] | Some u \<Rightarrow> u # forwarded show_amount to_string es)"

text \<open>A result of a tool whose JSON has a character over the byte 4000 silences the rest of the turn.\<close>

lemma preview_silences_turn:
  "MAX_PREVIEW < length (to_string out) \<Longrightarrow> is_cont (to_string out ! MAX_PREVIEW) \<Longrightarrow>
   forwarded show_amount to_string (ToolFinish i ok out # es) = []"
  by (simp add: map_agent_event_def json_preview_def)

section \<open>Sessions\<close>

record session_slot =
  ss_token :: nat
  ss_cwd :: path
  ss_touched :: u64

text \<open>Tokens are references to flags; a session that is prompted again gets a new one.\<close>

record acp_runtime =
  rt_sessions :: "(string \<times> session_slot) list"
  rt_session_seq :: u64
  rt_touch_seq :: u64
  rt_tokens :: "bool list"

definition MAX_ACTIVE_SESSIONS :: nat where
  "MAX_ACTIVE_SESSIONS = 256"

definition acp_runtime_new :: acp_runtime where
  "acp_runtime_new = \<lparr>rt_sessions = [], rt_session_seq = 1, rt_touch_seq = 1, rt_tokens = []\<rparr>"

definition session_id_of :: "u64 \<Rightarrow> string" where
  "session_id_of n = ''kuib-'' @ show_nat (unat n)"

definition next_session_id :: "acp_runtime \<Rightarrow> string \<times> acp_runtime" where
  "next_session_id rt = (session_id_of (rt_session_seq rt), rt\<lparr>rt_session_seq := rt_session_seq rt + 1\<rparr>)"

definition next_touch_seq :: "acp_runtime \<Rightarrow> u64 \<times> acp_runtime" where
  "next_touch_seq rt = (rt_touch_seq rt, rt\<lparr>rt_touch_seq := rt_touch_seq rt + 1\<rparr>)"

definition new_token :: "acp_runtime \<Rightarrow> nat \<times> acp_runtime" where
  "new_token rt = (length (rt_tokens rt), rt\<lparr>rt_tokens := rt_tokens rt @ [False]\<rparr>)"

text \<open>\<open>min_by_key\<close>.\<close>

fun oldest :: "(string \<times> session_slot) list \<Rightarrow> (string \<times> session_slot) option" where
  "oldest [] = None"
| "oldest (x # xs) = (case oldest xs of
     None \<Rightarrow> Some x | Some y \<Rightarrow> if ss_touched (snd x) \<le> ss_touched (snd y) then Some x else Some y)"

definition evict_lru_session_if_needed ::
  "(string \<times> session_slot) list \<Rightarrow> string \<Rightarrow> nat \<Rightarrow> string option \<times> (string \<times> session_slot) list" where
  "evict_lru_session_if_needed sessions keep max_sessions =
     (if length sessions \<le> max_sessions then (None, sessions)
      else case oldest (filter (\<lambda>kv. fst kv \<noteq> keep) sessions) of
        None \<Rightarrow> (None, sessions) | Some (k, _) \<Rightarrow> (Some k, assoc_remove k sessions))"

definition open_session :: "path \<Rightarrow> acp_runtime \<Rightarrow> string \<times> acp_runtime" where
  "open_session cwd rt =
     (let (sid, rt) = next_session_id rt;
          (token, rt) = new_token rt;
          (touched, rt) = next_touch_seq rt;
          sessions = assoc_insert sid \<lparr>ss_token = token, ss_cwd = cwd, ss_touched = touched\<rparr> (rt_sessions rt);
          sessions = (if MAX_ACTIVE_SESSIONS < length sessions
            then snd (evict_lru_session_if_needed sessions sid MAX_ACTIVE_SESSIONS) else sessions) in
      (sid, rt\<lparr>rt_sessions := sessions\<rparr>))"

definition cancel_token :: "nat \<Rightarrow> acp_runtime \<Rightarrow> acp_runtime" where
  "cancel_token r rt = rt\<lparr>rt_tokens := (rt_tokens rt)[r := True]\<rparr>"

text \<open>The notification \<open>session/cancel\<close>.\<close>

definition cancel_session :: "string \<Rightarrow> acp_runtime \<Rightarrow> acp_runtime" where
  "cancel_session sid rt = (case map_of (rt_sessions rt) sid of
     None \<Rightarrow> rt | Some slot \<Rightarrow> cancel_token (ss_token slot) rt)"

text \<open>The section of \<open>handle_prompt\<close> under the lock: a fresh token and the working directory, if there is such a session.\<close>

definition enter_session :: "string \<Rightarrow> acp_runtime \<Rightarrow> (nat \<times> path) option \<times> acp_runtime" where
  "enter_session sid rt = (case map_of (rt_sessions rt) sid of
     None \<Rightarrow> (None, rt)
   | Some slot \<Rightarrow>
       (let (token, rt) = new_token rt;
            (touched, rt) = next_touch_seq rt in
        (Some (token, ss_cwd slot), rt\<lparr>rt_sessions :=
           map (\<lambda>(k, s). (k, if k = sid then s\<lparr>ss_token := token, ss_touched := touched\<rparr> else s)) (rt_sessions rt)\<rparr>)))"

section \<open>A prompt\<close>

record 'd acp_args =
  aa_agent :: string
  aa_project_root :: "path option"
  aa_home :: "path option"
  aa_max_iterations :: "u32 option"
  aa_max_tokens :: "u64 option"
  aa_max_duration_sec :: "u64 option"
  aa_max_cost :: "'d money option"
  aa_save_chat_history :: bool

text \<open>A block of a prompt is text or something else: an image, a sound, a resource.\<close>

datatype content_block = TextBlock string | OtherBlock json

definition extract_prompt_text :: "content_block list \<Rightarrow> string" where
  "extract_prompt_text blocks = join_with [LF]
     (List.map_filter (\<lambda>b. case b of TextBlock t \<Rightarrow> Some t | OtherBlock _ \<Rightarrow> None) blocks)"

definition acp_prompt_args ::
  "(string \<Rightarrow> bool) \<Rightarrow> 'd acp_args \<Rightarrow> path \<Rightarrow> content_block list \<Rightarrow> string + 'd agent_prompt_args" where
  "acp_prompt_args uni args cwd blocks =
     (let question = extract_prompt_text blocks in
      if is_blank question then Inl ''prompt must contain at least one text content block''
      else case effective_project_root (Some cwd) (aa_project_root args) of
        None \<Rightarrow> Inl ''project root is required (session cwd or --project-root)''
      | Some root \<Rightarrow>
          rbind (map_err show_agent_path_error (resolve_agent_identity uni root (aa_agent args) (aa_home args))) (\<lambda>paths.
          Inr \<lparr>pa_config = config_file paths, pa_settings_dir = settings_dir paths, pa_home = home paths,
            pa_project_root = Some (project_root paths), pa_agent_id = agent_id paths, pa_prompt = question,
            pa_run_id = None, pa_files = [], pa_max_iterations = aa_max_iterations args,
            pa_max_tokens = aa_max_tokens args, pa_max_duration_sec = aa_max_duration_sec args,
            pa_max_cost = aa_max_cost args, pa_save_chat_history = aa_save_chat_history args,
            pa_continue_from = None\<rparr>))"

datatype prompt_answer = PromptError string | PromptDone acp_stop_reason

text \<open>What a run gave, with the flag of its token: the last updates and the answer.\<close>

definition prompt_outcome :: "string + 'd run_output \<Rightarrow> bool \<Rightarrow> session_update list \<times> prompt_answer" where
  "prompt_outcome outcome was_cancelled = (case outcome of
     Inr out \<Rightarrow> ([], PromptDone (map_stop_reason (out_stop_reason out) was_cancelled))
   | Inl e \<Rightarrow> ([MessageChunk e], PromptDone (if was_cancelled then CancelledTurn else Refusal)))"

text \<open>
  \<open>handle_prompt\<close> up to the run: an answer at once, or the token and the arguments of the run.
\<close>

definition begin_prompt ::
  "(string \<Rightarrow> bool) \<Rightarrow> 'd acp_args \<Rightarrow> string \<Rightarrow> content_block list \<Rightarrow> acp_runtime
   \<Rightarrow> (prompt_answer + nat \<times> 'd agent_prompt_args) \<times> acp_runtime" where
  "begin_prompt uni args sid blocks rt = (case enter_session sid rt of
     (None, rt) \<Rightarrow> (Inl (PromptError (''unknown session `'' @ sid @ ''`'')), rt)
   | (Some (token, cwd), rt) \<Rightarrow> (case acp_prompt_args uni args cwd blocks of
       Inl e \<Rightarrow> (Inl (PromptError e), rt)
     | Inr a \<Rightarrow> (Inr (token, a), rt)))"

inductive acp_step :: "acp_runtime \<Rightarrow> acp_runtime \<Rightarrow> bool" where
  opens: "acp_step rt (snd (open_session cwd rt))"
| enters: "acp_step rt (snd (enter_session sid rt))"
| cancels_session: "acp_step rt (cancel_session sid rt)"
| deadline: "acp_step rt (cancel_token r rt)"

inductive_cases acp_step_cases: "acp_step rt rt'"

section \<open>Sessions stay few, and the least recent one goes\<close>

lemma oldest_minimal:
  "oldest xs = Some x \<Longrightarrow> x \<in> set xs \<and> (\<forall>y \<in> set xs. ss_touched (snd x) \<le> ss_touched (snd y))"
proof (induction xs arbitrary: x)
  case (Cons a xs)
  show ?case
  proof (cases "oldest xs")
    case None
    then have "xs = []" by (cases xs) (auto split: option.splits if_splits)
    then show ?thesis using Cons.prems None by simp
  next
    case (Some y)
    then show ?thesis using Cons.IH [OF Some] Cons.prems by (auto split: if_splits)
  qed
qed simp

lemma oldest_None: "oldest xs = None \<longleftrightarrow> xs = []"
  by (cases xs) (auto split: option.split)

lemma evicted_one:
  assumes "max_sessions < length sessions" and "distinct (map fst sessions)" and "1 \<le> max_sessions"
  obtains k slot where "(k, slot) \<in> set sessions" "k \<noteq> keep"
    "\<And>k' s'. (k', s') \<in> set sessions \<Longrightarrow> k' \<noteq> keep \<Longrightarrow> ss_touched slot \<le> ss_touched s'"
    "evict_lru_session_if_needed sessions keep max_sessions = (Some k, assoc_remove k sessions)"
proof -
  let ?others = "filter (\<lambda>kv. fst kv \<noteq> keep) sessions"
  have "?others \<noteq> []"
  proof
    assume "?others = []"
    then have "set (map fst sessions) \<subseteq> {keep}" by (auto simp: filter_empty_conv)
    then have "length sessions \<le> 1"
      using assms(2) distinct_card [OF assms(2)] card_mono [of "{keep}" "set (map fst sessions)"] by simp
    then show False using assms(1,3) by simp
  qed
  then obtain k slot where o: "oldest ?others = Some (k, slot)" by (metis oldest_None not_None_eq surj_pair)
  show ?thesis
    by (rule that [of k slot]) (use oldest_minimal [OF o] assms(1) o in \<open>auto simp: evict_lru_session_if_needed_def\<close>)
qed

definition sessions_ok :: "acp_runtime \<Rightarrow> bool" where
  "sessions_ok rt \<longleftrightarrow> length (rt_sessions rt) \<le> MAX_ACTIVE_SESSIONS \<and> distinct (map fst (rt_sessions rt))
     \<and> (\<forall>(k, slot) \<in> set (rt_sessions rt). (\<exists>m < rt_session_seq rt. k = session_id_of m)
          \<and> ss_touched slot < rt_touch_seq rt)
     \<and> inj_on (ss_touched \<circ> snd) (set (rt_sessions rt))"

lemma decimal_value_show: "decimal_value (show_nat n) = n"
proof (induction n rule: show_nat.induct)
  case (1 n)
  show ?case
  proof (cases "n < 10")
    case True
    then show ?thesis by (simp add: show_nat.simps [of n] decimal_value_def)
  next
    case False
    then have "show_nat n = show_nat (n div 10) @ [char_of (48 + n mod 10)]" by (simp add: show_nat.simps [of n])
    then show ?thesis using 1 [OF False] by (simp add: decimal_value_def)
  qed
qed

lemma session_id_inj:
  assumes "session_id_of m = session_id_of n"
  shows "m = n"
proof -
  have "show_nat (unat m) = show_nat (unat n)" using assms by (simp add: session_id_of_def)
  then have "decimal_value (show_nat (unat m)) = decimal_value (show_nat (unat n))" by simp
  then show ?thesis by (simp add: decimal_value_show word_unat_eq_iff)
qed

definition seq_room :: "u64 \<Rightarrow> bool" where
  "seq_room x \<longleftrightarrow> unat x < 2 ^ 64 - 1"

lemma seq_room_succ: "seq_room x \<Longrightarrow> y < x \<or> y = x \<Longrightarrow> y < x + 1"
  by (auto simp: seq_room_def word_less_nat_alt unat_word_ariths)

lemma sessions_fresh:
  "sessions_ok rt \<Longrightarrow> session_id_of (rt_session_seq rt) \<notin> fst ` set (rt_sessions rt)"
  by (auto simp: sessions_ok_def dest!: session_id_inj)

lemma open_session_eq:
  fixes rt cwd
  defines "sid \<equiv> session_id_of (rt_session_seq rt)"
  defines "slot \<equiv> \<lparr>ss_token = length (rt_tokens rt), ss_cwd = cwd, ss_touched = rt_touch_seq rt\<rparr>"
  assumes ok: "sessions_ok rt"
  shows "open_session cwd rt = (sid, rt\<lparr>rt_session_seq := rt_session_seq rt + 1, rt_tokens := rt_tokens rt @ [False],
    rt_touch_seq := rt_touch_seq rt + 1, rt_sessions :=
      (if MAX_ACTIVE_SESSIONS \<le> length (rt_sessions rt)
       then snd (evict_lru_session_if_needed ((sid, slot) # rt_sessions rt) sid MAX_ACTIVE_SESSIONS)
       else (sid, slot) # rt_sessions rt)\<rparr>)"
proof -
  have "filter (\<lambda>kv. fst kv \<noteq> sid) (rt_sessions rt) = rt_sessions rt"
    using sessions_fresh [OF ok] by (force simp: filter_id_conv sid_def)
  then show ?thesis
    by (simp add: open_session_def Let_def next_session_id_def new_token_def next_touch_seq_def assoc_insert_def
        assoc_remove_def sid_def slot_def Suc_le_eq less_Suc_eq_le)
qed

text \<open>The sessions behind a new one: all, or at capacity all but the least recently touched.\<close>

lemma open_session_sessions:
  assumes ok: "sessions_ok rt" and r: "seq_room (rt_touch_seq rt)"
  obtains slot gone where
    "rt_sessions (snd (open_session cwd rt)) = (session_id_of (rt_session_seq rt), slot) # filter (\<lambda>kv. kv \<notin> gone) (rt_sessions rt)"
    "ss_touched slot = rt_touch_seq rt"
    "length (rt_sessions rt) < MAX_ACTIVE_SESSIONS \<and> gone = {}
     \<or> length (rt_sessions rt) = MAX_ACTIVE_SESSIONS
       \<and> (\<exists>old \<in> set (rt_sessions rt). gone = {old} \<and> (\<forall>kv \<in> set (rt_sessions rt). ss_touched (snd old) \<le> ss_touched (snd kv)))"
proof -
  let ?sid = "session_id_of (rt_session_seq rt)"
  let ?slot = "\<lparr>ss_token = length (rt_tokens rt), ss_cwd = cwd, ss_touched = rt_touch_seq rt\<rparr>"
  have few: "length (rt_sessions rt) \<le> MAX_ACTIVE_SESSIONS" and keys: "distinct (map fst (rt_sessions rt))"
    using ok by (simp_all add: sessions_ok_def)
  have fresh: "?sid \<notin> fst ` set (rt_sessions rt)" by (rule sessions_fresh [OF ok])
  show ?thesis
  proof (cases "length (rt_sessions rt) < MAX_ACTIVE_SESSIONS")
    case True
    show ?thesis by (rule that [of ?slot "{}"]) (use True in \<open>simp_all add: open_session_eq [OF ok]\<close>)
  next
    case False
    then have full: "length (rt_sessions rt) = MAX_ACTIVE_SESSIONS" using few by simp
    let ?all = "(?sid, ?slot) # rt_sessions rt"
    have "MAX_ACTIVE_SESSIONS < length ?all" "distinct (map fst ?all)" "1 \<le> MAX_ACTIVE_SESSIONS"
      using full fresh keys by (simp_all add: MAX_ACTIVE_SESSIONS_def)
    then obtain k old where o: "(k, old) \<in> set ?all" "k \<noteq> ?sid"
        "\<And>k' s'. (k', s') \<in> set ?all \<Longrightarrow> k' \<noteq> ?sid \<Longrightarrow> ss_touched old \<le> ss_touched s'"
        "evict_lru_session_if_needed ?all ?sid MAX_ACTIVE_SESSIONS = (Some k, assoc_remove k ?all)"
      by (rule evicted_one [where keep = ?sid]) blast
    have mem: "(k, old) \<in> set (rt_sessions rt)" using o(1,2) by simp
    have "filter (\<lambda>kv. fst kv \<noteq> k) (rt_sessions rt) = filter (\<lambda>kv. kv \<notin> {(k, old)}) (rt_sessions rt)"
    proof (rule filter_cong [OF refl])
      fix kv assume "kv \<in> set (rt_sessions rt)"
      then show "fst kv \<noteq> k \<longleftrightarrow> kv \<notin> {(k, old)}"
        using eq_key_imp_eq_value [OF keys _ mem, of "snd kv"] by (cases kv) auto
    qed
    then have eq: "rt_sessions (snd (open_session cwd rt)) = (?sid, ?slot) # filter (\<lambda>kv. kv \<notin> {(k, old)}) (rt_sessions rt)"
      using full o(2,4) by (simp add: open_session_eq [OF ok] assoc_remove_def)
    have least: "\<forall>kv \<in> set (rt_sessions rt). ss_touched old \<le> ss_touched (snd kv)"
      using o(3) fresh by force
    show ?thesis by (rule that [OF eq]) (use full mem least in auto)
  qed
qed

lemma sessions_ok_new: "sessions_ok acp_runtime_new"
  by (simp add: sessions_ok_def acp_runtime_new_def MAX_ACTIVE_SESSIONS_def)

lemma sessions_ok_opens:
  assumes ok: "sessions_ok rt" and r: "seq_room (rt_session_seq rt)" "seq_room (rt_touch_seq rt)"
  shows "sessions_ok (snd (open_session cwd rt))"
proof -
  obtain slot gone where n: "rt_sessions (snd (open_session cwd rt))
        = (session_id_of (rt_session_seq rt), slot) # filter (\<lambda>kv. kv \<notin> gone) (rt_sessions rt)"
      and t: "ss_touched slot = rt_touch_seq rt"
      and g: "length (rt_sessions rt) < MAX_ACTIVE_SESSIONS \<and> gone = {}
       \<or> length (rt_sessions rt) = MAX_ACTIVE_SESSIONS
         \<and> (\<exists>old \<in> set (rt_sessions rt). gone = {old} \<and> (\<forall>kv \<in> set (rt_sessions rt). ss_touched (snd old) \<le> ss_touched (snd kv)))"
    by (rule open_session_sessions [OF ok r(2)])
  let ?kept = "filter (\<lambda>kv. kv \<notin> gone) (rt_sessions rt)"
  have seqs: "rt_session_seq (snd (open_session cwd rt)) = rt_session_seq rt + 1"
      "rt_touch_seq (snd (open_session cwd rt)) = rt_touch_seq rt + 1"
    by (simp_all add: open_session_eq [OF ok])
  have few: "length ?kept < MAX_ACTIVE_SESSIONS"
    using g length_filter_le [of "\<lambda>kv. kv \<notin> gone" "rt_sessions rt"]
      length_filter_less [of _ "rt_sessions rt" "\<lambda>kv. kv \<notin> gone"] by auto
  have fresh: "session_id_of (rt_session_seq rt) \<notin> fst ` set ?kept"
    using sessions_fresh [OF ok] by auto
  have keys: "distinct (map fst ?kept)" using ok by (simp add: sessions_ok_def distinct_map_filter)
  have each: "(\<exists>m < rt_session_seq rt + 1. k = session_id_of m) \<and> ss_touched s < rt_touch_seq rt + 1"
    if "(k, s) \<in> set (rt_sessions rt)" for k s
    using ok that r by (fastforce simp: sessions_ok_def intro: seq_room_succ)
  have here: "rt_session_seq rt < rt_session_seq rt + 1" "rt_touch_seq rt < rt_touch_seq rt + 1"
    using seq_room_succ [OF r(1)] seq_room_succ [OF r(2)] by simp_all
  have below: "ss_touched (snd kv) \<noteq> rt_touch_seq rt" if "kv \<in> set (rt_sessions rt)" for kv
    using ok that by (cases kv) (auto simp: sessions_ok_def)
  have "inj_on (ss_touched \<circ> snd) (set ?kept)"
    using ok by (auto simp: sessions_ok_def inj_on_def)
  then have inj: "inj_on (ss_touched \<circ> snd) (insert (session_id_of (rt_session_seq rt), slot) (set ?kept))"
    using below t by (force simp: inj_on_insert)
  show ?thesis unfolding sessions_ok_def n seqs
    using few fresh keys inj here t by (auto dest: each)
qed

text \<open>The sessions behind an entered one.\<close>

definition touch_entry :: "string \<Rightarrow> nat \<Rightarrow> u64 \<Rightarrow> string \<times> session_slot \<Rightarrow> string \<times> session_slot" where
  "touch_entry sid token touched kv =
     (fst kv, if fst kv = sid then (snd kv)\<lparr>ss_token := token, ss_touched := touched\<rparr> else snd kv)"

lemma enter_session_eq:
  "map_of (rt_sessions rt) sid = Some slot \<Longrightarrow>
   snd (enter_session sid rt) = rt\<lparr>rt_tokens := rt_tokens rt @ [False], rt_touch_seq := rt_touch_seq rt + 1,
     rt_sessions := map (touch_entry sid (length (rt_tokens rt)) (rt_touch_seq rt)) (rt_sessions rt)\<rparr>"
  by (simp add: enter_session_def new_token_def next_touch_seq_def touch_entry_def split_beta)

lemma touch_entry_fields:
  "fst (touch_entry sid token touched kv) = fst kv"
  "ss_touched (snd (touch_entry sid token touched kv)) = (if fst kv = sid then touched else ss_touched (snd kv))"
  by (simp_all add: touch_entry_def)

lemma sessions_ok_iff:
  "sessions_ok rt \<longleftrightarrow> length (rt_sessions rt) \<le> MAX_ACTIVE_SESSIONS \<and> distinct (map fst (rt_sessions rt))
     \<and> (\<forall>kv \<in> set (rt_sessions rt). (\<exists>m < rt_session_seq rt. fst kv = session_id_of m) \<and> ss_touched (snd kv) < rt_touch_seq rt)
     \<and> inj_on (ss_touched \<circ> snd) (set (rt_sessions rt))"
  by (simp add: sessions_ok_def split_beta)

lemma touch_entry_inj:
  assumes keys: "distinct (map fst kvs)" and inj: "inj_on (ss_touched \<circ> snd) (set kvs)"
    and below: "\<forall>kv \<in> set kvs. ss_touched (snd kv) < touched"
  shows "inj_on (ss_touched \<circ> snd) (touch_entry sid token touched ` set kvs)"
proof (rule inj_onI)
  fix x y
  assume "x \<in> touch_entry sid token touched ` set kvs" "y \<in> touch_entry sid token touched ` set kvs"
    and "(ss_touched \<circ> snd) x = (ss_touched \<circ> snd) y"
  then obtain a b where ab: "a \<in> set kvs" "b \<in> set kvs" "x = touch_entry sid token touched a" "y = touch_entry sid token touched b"
    and e: "(if fst a = sid then touched else ss_touched (snd a)) = (if fst b = sid then touched else ss_touched (snd b))"
    by (auto simp: touch_entry_fields)
  have same: "a = b" if "fst a = fst b"
    using inj_onD [of fst "set kvs" a b] keys ab(1,2) that by (simp add: distinct_map)
  have other: "a = b" if "ss_touched (snd a) = ss_touched (snd b)"
    using inj_onD [OF inj, of a b] ab(1,2) that by simp
  have "ss_touched (snd a) < touched" "ss_touched (snd b) < touched" using below ab(1,2) by blast+
  then have "a = b" using e same other by (cases "fst a = sid"; cases "fst b = sid") simp_all
  then show "x = y" using ab(3,4) by simp
qed

lemma sessions_ok_enters:
  assumes ok: "sessions_ok rt" and r: "seq_room (rt_touch_seq rt)"
  shows "sessions_ok (snd (enter_session sid rt))"
proof (cases "map_of (rt_sessions rt) sid")
  case None
  then show ?thesis using ok by (simp add: enter_session_def)
next
  case (Some slot)
  let ?f = "touch_entry sid (length (rt_tokens rt)) (rt_touch_seq rt)"
  have parts: "length (rt_sessions rt) \<le> MAX_ACTIVE_SESSIONS" "distinct (map fst (rt_sessions rt))"
      "\<forall>kv \<in> set (rt_sessions rt). (\<exists>m < rt_session_seq rt. fst kv = session_id_of m) \<and> ss_touched (snd kv) < rt_touch_seq rt"
      "inj_on (ss_touched \<circ> snd) (set (rt_sessions rt))"
    using ok by (simp_all add: sessions_ok_iff)
  have ids: "map fst (map ?f (rt_sessions rt)) = map fst (rt_sessions rt)" by (simp add: touch_entry_fields)
  have each: "(\<exists>m < rt_session_seq rt. fst (?f kv) = session_id_of m) \<and> ss_touched (snd (?f kv)) < rt_touch_seq rt + 1"
    if "kv \<in> set (rt_sessions rt)" for kv
    using parts(3) that seq_room_succ [OF r, of "rt_touch_seq rt"] seq_room_succ [OF r, of "ss_touched (snd kv)"] by (simp add: touch_entry_fields)
  have "inj_on (ss_touched \<circ> snd) (?f ` set (rt_sessions rt))"
    by (rule touch_entry_inj [OF parts(2,4)]) (use parts(3) in blast)
  then show ?thesis unfolding sessions_ok_iff enter_session_eq [OF Some]
    using parts(1,2) ids each by (simp del: map_map)
qed

lemma sessions_ok_cancel: "sessions_ok (cancel_session sid rt) = sessions_ok rt" "sessions_ok (cancel_token r rt) = sessions_ok rt"
  by (simp_all add: cancel_session_def cancel_token_def sessions_ok_def split: option.split)

text \<open>Within \<open>n\<close> steps no counter wraps.\<close>

definition counters_within :: "nat \<Rightarrow> acp_runtime \<Rightarrow> bool" where
  "counters_within n rt \<longleftrightarrow> unat (rt_session_seq rt) \<le> n + 1 \<and> unat (rt_touch_seq rt) \<le> n + 1"

lemma counters_room: "counters_within n rt \<Longrightarrow> n < 2 ^ 64 - 2 \<Longrightarrow> seq_room (rt_session_seq rt) \<and> seq_room (rt_touch_seq rt)"
  by (simp add: counters_within_def seq_room_def)

lemma seq_room_add: "unat x \<le> m \<Longrightarrow> unat (x + 1) \<le> Suc m" for x :: u64
  by (simp add: unat_word_ariths le_trans [OF mod_less_eq_dividend])

lemma enter_counters:
  "rt_session_seq (snd (enter_session sid rt)) = rt_session_seq rt"
  "rt_touch_seq (snd (enter_session sid rt)) \<in> {rt_touch_seq rt, rt_touch_seq rt + 1}"
  by (auto simp: enter_session_def new_token_def next_touch_seq_def split: option.split)

lemma cancel_counters:
  "rt_session_seq (cancel_session sid rt) = rt_session_seq rt" "rt_touch_seq (cancel_session sid rt) = rt_touch_seq rt"
  by (simp_all add: cancel_session_def cancel_token_def split: option.split)

lemma acp_step_ok:
  assumes "acp_step rt rt'" and ok: "sessions_ok rt" and n: "counters_within n rt" and small: "n < 2 ^ 64 - 2"
  shows "sessions_ok rt' \<and> counters_within (Suc n) rt'"
  using assms(1)
proof cases
  case (opens cwd)
  then show ?thesis using sessions_ok_opens [OF ok] counters_room [OF n small] n
    by (simp add: counters_within_def open_session_eq [OF ok] seq_room_add)
next
  case (enters sid)
  then show ?thesis using sessions_ok_enters [OF ok] counters_room [OF n small] n enter_counters [of sid rt]
    by (auto simp: counters_within_def seq_room_add)
next
  case (cancels_session sid)
  then show ?thesis using ok n by (simp add: sessions_ok_cancel counters_within_def cancel_counters)
next
  case (deadline r)
  then show ?thesis using ok n by (simp add: sessions_ok_cancel counters_within_def) (simp add: cancel_token_def)
qed

lemma acp_reachable_ok:
  "(acp_step ^^ n) acp_runtime_new rt \<Longrightarrow> n \<le> 2 ^ 64 - 2 \<Longrightarrow> sessions_ok rt \<and> counters_within n rt"
proof (induction n arbitrary: rt)
  case 0
  then have "rt = acp_runtime_new" by simp
  then show ?case using sessions_ok_new by (simp add: counters_within_def acp_runtime_new_def)
next
  case (Suc n)
  then obtain mid where "(acp_step ^^ n) acp_runtime_new mid" "acp_step mid rt" by auto
  then show ?case using Suc acp_step_ok [of mid rt n] by simp
qed

text \<open>
  The sessions of the ACP server stay few and none is lost without need. Whatever a client sends in fewer
  than 2^64 - 2 steps, at most 256 sessions are live, their ids differ, and the id of a new session is none
  of theirs. A new session is kept; the others are kept below the capacity, and at the capacity exactly one
  goes, one that was touched no later than any other.
\<close>

theorem acp_sessions_lru:
  assumes "(acp_step ^^ n) acp_runtime_new rt" and "n < 2 ^ 64 - 2"
  shows "length (rt_sessions rt) \<le> MAX_ACTIVE_SESSIONS \<and> distinct (map fst (rt_sessions rt))
    \<and> fst (open_session cwd rt) \<notin> set (map fst (rt_sessions rt))
    \<and> (\<exists>gone. map fst (rt_sessions (snd (open_session cwd rt)))
              = fst (open_session cwd rt) # map fst (filter (\<lambda>kv. kv \<notin> gone) (rt_sessions rt))
        \<and> (if length (rt_sessions rt) < MAX_ACTIVE_SESSIONS then gone = {}
           else \<exists>old. old \<in> set (rt_sessions rt) \<and> gone = {old}
             \<and> list_all (\<lambda>kv. ss_touched (snd old) \<le> ss_touched (snd kv)) (rt_sessions rt)))"
proof -
  have ok: "sessions_ok rt" and "seq_room (rt_touch_seq rt)"
    using acp_reachable_ok [OF assms(1)] counters_room assms(2) by auto
  then obtain slot gone where
    n: "rt_sessions (snd (open_session cwd rt)) = (session_id_of (rt_session_seq rt), slot) # filter (\<lambda>kv. kv \<notin> gone) (rt_sessions rt)"
    and g: "length (rt_sessions rt) < MAX_ACTIVE_SESSIONS \<and> gone = {}
     \<or> length (rt_sessions rt) = MAX_ACTIVE_SESSIONS
       \<and> (\<exists>old \<in> set (rt_sessions rt). gone = {old} \<and> (\<forall>kv \<in> set (rt_sessions rt). ss_touched (snd old) \<le> ss_touched (snd kv)))"
    by (rule open_session_sessions)
  have sid: "fst (open_session cwd rt) = session_id_of (rt_session_seq rt)" by (simp add: open_session_eq [OF ok])
  have "if length (rt_sessions rt) < MAX_ACTIVE_SESSIONS then gone = {}
      else \<exists>old. old \<in> set (rt_sessions rt) \<and> gone = {old}
        \<and> list_all (\<lambda>kv. ss_touched (snd old) \<le> ss_touched (snd kv)) (rt_sessions rt)"
    using g by (auto simp: list_all_iff)
  moreover have "map fst (rt_sessions (snd (open_session cwd rt)))
      = fst (open_session cwd rt) # map fst (filter (\<lambda>kv. kv \<notin> gone) (rt_sessions rt))"
    by (simp add: n sid)
  ultimately show ?thesis using ok sessions_fresh [OF ok] unfolding sid
    by (intro conjI exI [of _ gone]) (simp_all add: sessions_ok_def)
qed

theorem acp_sessions_lru_witness:
  "fst (open_session ''/p'' (snd (open_session ''/p'' acp_runtime_new))) \<notin> {fst (open_session ''/p'' acp_runtime_new)}"
proof -
  let ?rt = "snd (open_session ''/p'' acp_runtime_new)"
  have reach: "(acp_step ^^ 1) acp_runtime_new ?rt" unfolding relpowp_1 by (rule opens)
  have "rt_sessions ?rt = [(fst (open_session ''/p'' acp_runtime_new),
      \<lparr>ss_token = 0, ss_cwd = ''/p'', ss_touched = 1\<rparr>)]"
    by (simp add: open_session_eq [OF sessions_ok_new]) (simp add: acp_runtime_new_def MAX_ACTIVE_SESSIONS_def)
  then show ?thesis using acp_sessions_lru [OF reach, of "''/p''"] by simp
qed

text \<open>
  A prompt that enters a session again hides the token of the one before: a cancellation reaches the newest
  only, and none when the session was evicted meanwhile.
\<close>

lemma cancel_reaches_newest:
  assumes "map_of (rt_sessions rt) sid = Some slot"
  shows "rt_tokens (cancel_session sid (snd (enter_session sid rt))) = rt_tokens rt @ [True]"
proof -
  have key: "map_of (map (touch_entry sid token touched) kvs) sid
      = map_option (\<lambda>s. s\<lparr>ss_token := token, ss_touched := touched\<rparr>) (map_of kvs sid)" for token touched kvs
    by (induction kvs) (auto simp: touch_entry_def)
  show ?thesis using assms by (simp add: enter_session_eq cancel_session_def cancel_token_def key)
qed

lemma evicted_not_cancelled: "map_of (rt_sessions rt) sid = None \<Longrightarrow> cancel_session sid rt = rt"
  by (simp add: cancel_session_def)

section \<open>Front ends\<close>

text \<open>
  C33: Every way to start a turn keeps its files where they belong. Whatever the command line, an A2A peer
  or an ACP client asks for, if the request becomes a turn of the agent, its configuration lies in the
  protected store of the project that the turn names, and its home below \<open>.kuibysheff\<close> but outside that
  store.
\<close>

theorem entry_points_confined:
  "(case prompt_args_of_cli uni cli of Inl _ \<Rightarrow> True | Inr a \<Rightarrow> args_confined (ra_project_root cli) a)
   \<and> (case executor_config_of uni root aid h iters tokens secs cost save of
       Inl _ \<Rightarrow> True | Inr c \<Rightarrow> args_confined root (a2a_prompt_args c question))
   \<and> (case acp_prompt_args uni args cwd blocks of
       Inl _ \<Rightarrow> True | Inr a \<Rightarrow> args_confined (if cwd = [] then the (aa_project_root args) else cwd) a)"
proof (intro conjI)
  show "case prompt_args_of_cli uni cli of Inl _ \<Rightarrow> True | Inr a \<Rightarrow> args_confined (ra_project_root cli) a"
    by (auto simp: prompt_args_of_cli_def rbind_eq_Inr args_confined_def resolved_root
        dest: resolved_home_outside_protected split: sum.split)
  show "case executor_config_of uni root aid h iters tokens secs cost save of
     Inl _ \<Rightarrow> True | Inr c \<Rightarrow> args_confined root (a2a_prompt_args c question)"
    by (auto simp: executor_config_of_def a2a_prompt_args_def Let_def rbind_eq_Inr args_confined_def resolved_root
        dest: resolved_home_outside_protected split: sum.split)
  show "case acp_prompt_args uni args cwd blocks of
     Inl _ \<Rightarrow> True | Inr a \<Rightarrow> args_confined (if cwd = [] then the (aa_project_root args) else cwd) a"
    by (auto simp: acp_prompt_args_def Let_def effective_project_root_def rbind_eq_Inr map_err_eq_Inr args_confined_def
        resolved_root dest: resolved_home_outside_protected split: sum.split option.splits if_splits)
qed

end
