(* ===== verification/Spec2Isabelle.thy ===== *)
theory Spec2Isabelle
  imports Engine_Panic Engine_Safety Access_Facts Read_Window Sse Run_Cancel Skills_Dsl Config Skill_Commands Builtin_Tools
    Provider Prompting Billing_Mcp Logging Studio_Api Acp
begin

text \<open>
  A verification library for \<open>agent_Kuibysheff\<close>, a command line agent worker in Rust: it
  takes a prompt and read-only input files, asks an OpenAI-compatible model in a loop, executes
  the tool calls of its replies behind a fail-closed access policy, and prints one JSON result
  with costs. The theories model the code under \<open>src/\<close> (the paths below are relative to that
  directory), function by function and with the source's names where they are free.

  The program and its theories, in the order of the calls:

  \<^item> \<open>Rust_Prelude\<close>: what the others share. A \<open>String\<close> is the list of its UTF-8 bytes with the
    operations of \<open>str\<close> on it, \<open>Result\<close> is a sum, saturating arithmetic is on words, a path is
    its text with \<open>components\<close> and \<open>join\<close> of the Unix \<open>std::path\<close>, a JSON value a datatype.
    \<open>Utf8\<close>: \<open>std::str::from_utf8\<close> with the two numbers of its error.
  \<^item> \<open>Limits\<close> (\<open>limits.rs\<close>): counters of a run and the check before a step.
  \<^item> \<open>History\<close> (\<open>agent/loop/history.rs\<close>): pruning the messages by number and by characters.
  \<^item> \<open>Directive\<close> (\<open>agent/loop/directive.rs\<close>): the reply of the model, a JSON object with raw file
    bodies behind it.
  \<^item> \<open>Billing\<close> (\<open>billing/mod.rs\<close>): money, meters, the chain of cost resolvers, the pricing
    catalog, the ledger and its report. \<open>Billing_Mcp\<close> (\<open>billing/mcp.rs\<close>, \<open>app.rs\<close>): the calculator behind
    an MCP server and the chain of resolvers of a configuration.
  \<^item> \<open>Project_Paths\<close> (\<open>project_paths.rs\<close>): agent ids and the directories of a profile.
  \<^item> \<open>Registry\<close> (\<open>tools/registry.rs\<close>), \<open>Access\<close>, \<open>Access_Resolve\<close>, \<open>Access_Facts\<close>
    (\<open>access/*.rs\<close>): the built-in tools, qualified names, grants, the validation and resolution
    of an access section against a file system, the effective policy of a run.
  \<^item> \<open>Tools\<close> (\<open>tool_api.rs\<close>, \<open>tools/mod.rs\<close>): errors and their texts, routing a call to its
    server, and the executor that asks the policy first. \<open>Read_Window\<close> (\<open>tools/read_window.rs\<close>):
    windows of a file in characters.
  \<^item> \<open>Std_Files\<close>, \<open>Effects\<close>: a store of files with faults, sequences of operations that may fail,
    the record \<open>os\<close> of system calls over an abstract world, and \<open>runs\<close>, a program logic that
    bounds what a sequence does to the world; \<open>Io_Facts\<close>: what a sequence that succeeded has done.
  \<^item> \<open>Sandbox\<close> (\<open>sandbox/mod.rs\<close>, \<open>sandbox/collect.rs\<close>): checks and environment of a launch, and the
    bounded reading of its output. \<open>Home_Fs\<close> (\<open>tools/fs_home.rs\<close>) and \<open>Local_Tools\<close>
    (\<open>tools/local_tools.rs\<close>): the home tools and the repository tools.
  \<^item> \<open>Skill_Package\<close>, \<open>Skill_Commands\<close> (\<open>skills/package.rs\<close>): the skill folders, their index and the
    commands that change them; \<open>Profile_Skills\<close> (\<open>tools/profile_skills.rs\<close>): the tools that read them.
    \<open>Builtin_Tools\<close>: the three families of tools behind the policy.
  \<^item> \<open>Profile_Files\<close> (\<open>settings.rs\<close>, \<open>commands/dotenv_file.rs\<close>, the atomic writers), \<open>Config\<close>
    (\<open>config/mod.rs\<close>, \<open>config/safety.rs\<close>): the files of a profile and the configuration, its
    defaults, conversion, validation, loading and saving.
  \<^item> \<open>Skills_Dsl\<close> (\<open>skills/dsl.rs\<close>): the skills file, from which the allowlist is compiled.
  \<^item> \<open>Event_Mcp\<close> (\<open>event_mcp/*.rs\<close>): middleware handlers around the model's context and response.
  \<^item> \<open>Sse\<close> (\<open>mcp/sse.rs\<close>): server-sent events of the MCP transport.
  \<^item> \<open>Provider_Usage\<close>, \<open>Provider\<close> (\<open>provider/openai_compat.rs\<close>, \<open>provider/mod.rs\<close>): usage and cost of an
    answer, the trusted origin, the probe and the completion with its retries.
  \<^item> \<open>Prompting\<close> (\<open>prompt.rs\<close>, \<open>context.rs\<close>): the rules of a run and the input-file context.
  \<^item> \<open>Redaction\<close> (\<open>logging/redact.rs\<close>, \<open>commands/config/redact.rs\<close>): audit payloads without secrets, and
    the view of a configuration that is edited and merged back. \<open>Logging\<close> (\<open>logging/\<close>): directories,
    sinks and loggers, the task behind a file sink as a step relation, and the transcript.
  \<^item> \<open>Mcp_Oauth\<close> (\<open>mcp/mod.rs\<close>, \<open>mcp/oauth.rs\<close>): errors of the MCP module and the OAuth flow.
    \<open>Mcp_Http\<close> (\<open>mcp/http_client.rs\<close>): the HTTP client, its retries, streams and legacy fallback;
    the record \<open>http_net\<close> is the network. \<open>Mcp_Stdio\<close> (\<open>mcp/stdio_client/process.rs\<close>): child
    processes, their isolation, frames and shutdown over the record \<open>stdio_net\<close>. \<open>Mcp_Registry\<close>
    (\<open>registry.rs\<close> and \<open>executor.rs\<close> there): connecting the servers, the actor of a connection as a
    step relation, and the calls of discovered tools.
  \<^item> \<open>Run_Cancel\<close> (\<open>agent/run_cancel.rs\<close>): the cancellation token and the deadline.
  \<^item> \<open>Engine_Text\<close>, \<open>Engine\<close>, \<open>Engine_Run\<close> (\<open>agent/loop/engine.rs\<close>): the texts the loop builds, the
    phases of one turn, the loop and the run around it; \<open>Engine_Facts\<close>, \<open>Engine_Safety\<close> and
    \<open>Engine_Panic\<close> hold what every run satisfies.
  \<^item> \<open>Studio_Jobs\<close>, \<open>Studio_Api\<close> (\<open>crates/kbshff-studio/src/\<close>): the local server of the UI. Its run
    manager is a state with the jobs it ever made, and requests and the tasks that drive children are
    the steps of a relation; its API is a function of a request, over the record \<open>studio_net\<close>.

  \<^item> \<open>Prompt_Args\<close> (\<open>app.rs\<close>, \<open>cli/mod.rs\<close>), \<open>A2a\<close> (\<open>a2a/\<close>), \<open>Acp\<close> (\<open>acp/\<close>): the three ways to start a
    turn. The executor of the first server and the sessions of the second are states; requests,
    cancellations and the tasks of the runs are the steps of a relation each.

  How they interact. \<open>Engine.engine_turn\<close> is the body of the loop in \<open>run_inner\<close>: it asks
  \<open>Limits.pre_step_check\<close>, runs the middleware stages (\<open>Event_Mcp.dispatch\<close> is what the stage
  calls do), asks the model, parses the reply with \<open>Directive.parse_directive\<close>, executes its calls
  one by one, pushes the results with \<open>History.push_message\<close> and accounts for the cost with
  \<open>Billing.record_cost\<close>. The executor it is given is \<open>Tools.policy_executor\<close> over
  \<open>Tools.composite_executor\<close> with the policy that \<open>Access_Resolve.effective_compile\<close> computes from
  the access section and the skills; the properties at the end of this theory state what that
  composition gives.

  Conventions. A \<open>struct\<close> is a \<open>record\<close>, an \<open>enum\<close> a \<open>datatype\<close>, \<open>Option\<close> and \<open>Result\<close> are \<open>option\<close>
  and sums; a \<open>u32\<close> or \<open>u64\<close> whose overflow matters is a word, a \<open>usize\<close> that counts bytes held in
  memory a natural number. What the code calls outside its own sources is a parameter: the
  record \<open>engine_env\<close> (the model, the tools, the clock, the token, the files), the record
  \<open>decimal_ops\<close> for \<open>rust_decimal\<close>, \<open>fs_view\<close> for a file system that is read, \<open>os\<close> for one that is used, functions for
  \<open>serde_json\<close>, \<open>net\<close> and \<open>oauth_net\<close> for HTTP, URLs and the browser, all over an abstract world \<open>'w\<close> that every effect may change. Interfaces are
  locales: \<open>path_gate\<close> (a scope of paths), \<open>gated_executor\<close> (an executor behind a policy),
  \<open>file_replacer\<close> (a writer that replaces a file), \<open>accounted_client\<close> (a model client with accounting),
  \<open>currency_resolver\<close> (what every resolver of the chain promises), \<open>pipeline_events\<close>,
  \<open>prefix_pruner\<close>, and for the agent loop \<open>quiet_frame\<close>, \<open>model_frame\<close>, \<open>tool_frame\<close> and
  \<open>turn_invariant\<close>, which carry an invariant of the small operations through the phases, the
  turns and the run; each is interpreted on the definitions of the code.

  What the lemmas show. Each component has its functional description on every branch, errors
  included, and its invariants. In the order of importance: a run never loses its system
  prompt, reaches its goal only by a reply that says so, does nothing once it is cancelled,
  stays within its iteration limit and pairs its tool events; denied tools are never dispatched
  and the effective policy is the intersection of its sources; reports of costs are exact;
  parsers undo printers; chunks of a stream do not matter; deadlines are neither lost nor fired
  early.

  Bounds and termination. Every function is total. The agent loop ends because each turn that
  continues has begun an iteration below \<open>max_iterations\<close>; the loops of the parsers shorten the
  text (\<open>measure length\<close>); pruning removes a message in each round. Only the walk of
  \<open>local_tools.search_docs\<close> and the walk of a skill folder take fuel, bounds on the directories visited
  and on the depth: the world may grow under them. \<open>search_terminates\<close> shows that some bound is enough for
  all queries and worlds when the directories can be ranked, \<open>loading_packages_ends\<close> that the limit of the
  system on the length of a path, plus two, is enough for the walk.

  Not modelled. The sandboxes (\<open>crates/sandbox-*\<close>, system calls), the wiring of \<open>run_agent_prompt\<close>, and the
  interactive commands: they are system calls, or input and output around third-party libraries.
\<close>

section \<open>Properties that span components\<close>

text \<open>
  A run whose tool calls go through the policy executor, as \<open>src/app.rs\<close> composes it.
\<close>

definition policy_gated :: "('d, 'w) engine_env \<Rightarrow> 'w tool_executor \<Rightarrow> effective_tool_policy \<Rightarrow> bool" where
  "policy_gated E inner pol \<longleftrightarrow> (\<forall>s t a w. call_tool_async E s t a w =
     (let (r, w') = policy_call inner pol s t a w in (Some r, w')))"

text \<open>
  A tool call of the model that the policy does not admit never reaches a tool: the step
  leaves the world as the poll of the token left it, counts no executed tool, goes on with the
  next call, and tells the model which tool was denied.
\<close>

theorem denied_call_answered_to_model:
  assumes gated: "policy_gated E inner pol"
    and denied: "\<not> allows_server_tool pol (server call) (tool call)"
    and named: "qualified_new (server call) (tool call) = Inr q"
    and fresh: "\<And>p. home_read_path (server call) (tool call) (arguments call) = Some p \<Longrightarrow> p \<notin> absent_paths st"
    and polled: "is_cancelled E (world st) = (False, w)"
  shows "\<exists>st'. tool_step E req idx call st = LoopContinue st' \<and> world st' = w
    \<and> diag st' = diag st
    \<and> messages st' = prune_message_history (history req) (model_prefix req) (messages st
        @ [mk_message User (model_tool_result (print_json E) (tool_error_json (server call) (tool call)
            (''policy error: tool `'' @ server call @ ''.'' @ tool call @ ''` denied by access policy'')))])"
proof -
  have q: "qt_server q = server call" "qt_tool q = tool call"
    using named by (auto simp: qualified_new_def split: if_splits)
  have "call_tool_async E (server call) (tool call) a w =
      (Some (Inl (TPolicy (ToolDenied (server call @ ''.'' @ tool call)))), w)" for a
    using gated denied by (simp add: policy_gated_def policy_call_def Let_def)
  then show ?thesis
    using polled q fresh
    by (cases "home_read_path (server call) (tool call) (arguments call)")
      (auto simp: tool_step_def named Let_def jot_def tool_failed_def prune_def push_def
        push_message_def show_tool_error_def show_policy_error_def split_beta)
qed

definition sample_gate :: "(nat, unit) engine_env" where
  "sample_gate = sample_env False (ModelFailed ''e'' []) sample_done
     \<lparr>call_tool_async := \<lambda>s t a w. (let (r, w') = policy_call
        \<lparr>call_tool = \<lambda>s t a w. (Inr a, w), available_tools = []\<rparr> \<lparr>tools = {}\<rparr> s t a w in (Some r, w'))\<rparr>"

theorem denied_call_answered_to_model_witness:
  "\<exists>st'. tool_step sample_gate sample_request 0 \<lparr>server = ''home'', tool = ''run'', arguments = JNull\<rparr>
       (sample_state False) = LoopContinue st' \<and> world st' = () \<and> diag st' = diag (sample_state False)"
proof -
  let ?c = "\<lparr>server = ''home'', tool = ''run'', arguments = JNull\<rparr>"
  have "policy_gated sample_gate \<lparr>call_tool = \<lambda>s t a w. (Inr a, w), available_tools = []\<rparr> \<lparr>tools = {}\<rparr>"
    by (simp add: policy_gated_def sample_gate_def)
  moreover have "\<not> allows_server_tool \<lparr>tools = {}\<rparr> (server ?c) (tool ?c)"
    by (simp add: allows_server_tool_def qualified_new_def)
  moreover have "qualified_new (server ?c) (tool ?c) = Inr (QualifiedTool ''home'' ''run'')"
    by (simp add: qualified_new_def)
  moreover have "p \<notin> absent_paths (sample_state False)" for p
    by (simp add: sample_state_def initial_state_def Let_def)
  moreover have "is_cancelled sample_gate (world (sample_state False)) = (False, ())"
    by (simp add: sample_gate_def sample_env_def)
  ultimately show ?thesis
    using denied_call_answered_to_model [where call = ?c and E = sample_gate] by blast
qed

end
